(* ===== verification/Prelude.thy ===== *)
theory Prelude
  imports
    Main
    "HOL-Library.Word"
    "HOL-Library.Char_ord"
    "HOL-Library.List_Lexorder"
    "HOL-Library.Product_Lexorder"
    "HOL-Library.AList"
    "HOL-Library.Multiset"
    "HOL-Library.Sublist"
begin

text \<open>
  The shared ground of the development: Go's integers, instants and durations, the
  functions of the packages \<open>strings\<close>, \<open>strconv\<close> and \<open>time\<close> that the program calls,
  Go maps as association lists, and the scan of a map for its best entry.  Generic
  lemmas on these are collected in \<open>go_simps\<close> (equations) and \<open>go_dest\<close> (elimination of
  successful calls), so that the component proofs name the collection only.
\<close>

named_theorems go_simps \<open>equations for the modelled parts of Go's language and library\<close>
named_theorems go_dest \<open>what a successful call tells about its arguments\<close>

section \<open>Integers, instants and durations\<close>

text \<open>
  \<open>int\<close> and \<open>time.Duration\<close> are 64-bit two's complement numbers: they are kept as
  \<open>int\<close> and every addition or multiplication that the code performs on them is wrapped
  by \<open>i64\<close>.  \<open>uint64\<close> is \<open>64 word\<close>.  An instant (\<open>time.Time\<close>) is the number of
  nanoseconds since 1 January of year 1, UTC, so that the zero value of \<open>time.Time\<close> is
  \<open>0\<close>; a nullable \<open>*time.Time\<close> is an \<open>option\<close>.
\<close>

type_synonym time = int
type_synonym duration = int
type_synonym uint64 = "64 word"

definition i64 :: "int \<Rightarrow> int" where
  "i64 x = (x + 2 ^ 63) mod 2 ^ 64 - 2 ^ 63"

definition in_i64 :: "int \<Rightarrow> bool" where
  "in_i64 x \<longleftrightarrow> - (2 ^ 63) \<le> x \<and> x < 2 ^ 63"

text \<open>Go's integer division truncates towards zero.\<close>

definition go_div :: "int \<Rightarrow> int \<Rightarrow> int" where
  "go_div a b = sgn a * sgn b * (\<bar>a\<bar> div \<bar>b\<bar>)"

definition IsZero :: "time \<Rightarrow> bool" where
  "IsZero t \<longleftrightarrow> t = 0"

definition Add_time :: "time \<Rightarrow> duration \<Rightarrow> time" where
  "Add_time t d = t + d"

text \<open>\<open>Time.Sub\<close> saturates at the bounds of \<open>time.Duration\<close>.\<close>

definition Sub_time :: "time \<Rightarrow> time \<Rightarrow> duration" where
  "Sub_time t u = max (- (2 ^ 63)) (min (2 ^ 63 - 1) (t - u))"

definition Millisecond :: duration where "Millisecond = 1000000"
definition Second :: duration where "Second = 1000000000"
definition Minute :: duration where "Minute = 60 * Second"

definition Milliseconds :: "duration \<Rightarrow> int" where
  "Milliseconds d = go_div d Millisecond"

lemma i64_id: "in_i64 x \<Longrightarrow> i64 x = x"
  by (simp add: i64_def in_i64_def)

lemma in_i64_i64: "in_i64 (i64 x)"
  using pos_mod_bound [of "2 ^ 64" "x + 2 ^ 63"] pos_mod_sign [of "2 ^ 64" "x + 2 ^ 63"]
  by (simp add: i64_def in_i64_def)

text \<open>A counter that is below a 64-bit limit can be incremented without wrapping.\<close>

lemma i64_succ [go_simps]: "in_i64 r \<Longrightarrow> in_i64 m \<Longrightarrow> r < m \<Longrightarrow> i64 (r + 1) = r + 1"
  by (rule i64_id) (simp add: in_i64_def)

lemma go_div_pos [go_simps]: "0 \<le> a \<Longrightarrow> 0 < b \<Longrightarrow> go_div a b = a div b"
  by (cases "a = 0") (simp_all add: go_div_def)

section \<open>Strings\<close>

text \<open>
  A Go string is a byte sequence: \<open>string\<close>, each \<open>char\<close> one byte.  \<open>json.RawMessage\<close> is
  a byte slice whose absence and emptiness the program does not distinguish, so it is a
  \<open>string\<close> too.
\<close>

type_synonym raw_json = string

text \<open>Unicode white space in UTF-8, as \<open>unicode.IsSpace\<close> has it.\<close>

definition white_space :: "string list" where
  "white_space =
     [[CHR 0x09], [CHR 0x0A], [CHR 0x0B], [CHR 0x0C], [CHR 0x0D], [CHR 0x20],
      [CHR 0xC2, CHR 0x85], [CHR 0xC2, CHR 0xA0], [CHR 0xE1, CHR 0x9A, CHR 0x80],
      [CHR 0xE2, CHR 0x80, CHR 0x80], [CHR 0xE2, CHR 0x80, CHR 0x81],
      [CHR 0xE2, CHR 0x80, CHR 0x82], [CHR 0xE2, CHR 0x80, CHR 0x83],
      [CHR 0xE2, CHR 0x80, CHR 0x84], [CHR 0xE2, CHR 0x80, CHR 0x85],
      [CHR 0xE2, CHR 0x80, CHR 0x86], [CHR 0xE2, CHR 0x80, CHR 0x87],
      [CHR 0xE2, CHR 0x80, CHR 0x88], [CHR 0xE2, CHR 0x80, CHR 0x89],
      [CHR 0xE2, CHR 0x80, CHR 0x8A], [CHR 0xE2, CHR 0x80, CHR 0xA8],
      [CHR 0xE2, CHR 0x80, CHR 0xA9], [CHR 0xE2, CHR 0x80, CHR 0xAF],
      [CHR 0xE2, CHR 0x81, CHR 0x9F], [CHR 0xE3, CHR 0x80, CHR 0x80]]"

text \<open>Remove, as long as possible, one of the given non-empty pieces from the front.\<close>

function strip_front :: "string list \<Rightarrow> string \<Rightarrow> string" where
  "strip_front ws s =
     (case find (\<lambda>w. w \<noteq> [] \<and> prefix w s) ws of
        None \<Rightarrow> s
      | Some w \<Rightarrow> strip_front ws (drop (length w) s))"
  by pat_completeness auto
termination
  by (relation "measure (\<lambda>(ws, s). length s)")
    (auto simp: find_Some_iff prefix_def)

declare strip_front.simps [simp del]

definition TrimSpace :: "string \<Rightarrow> string" where
  "TrimSpace s = rev (strip_front (map rev white_space) (rev (strip_front white_space s)))"

definition HasPrefix :: "string \<Rightarrow> string \<Rightarrow> bool" where
  "HasPrefix s p \<longleftrightarrow> take (length p) s = p"

definition TrimPrefix :: "string \<Rightarrow> string \<Rightarrow> string" where
  "TrimPrefix s p = (if HasPrefix s p then drop (length p) s else s)"

lemma strip_front_Nil [simp]: "strip_front ws [] = []"
  by (subst strip_front.simps) (auto simp: find_Some_iff split: option.splits)

lemma strip_front_length: "length (strip_front ws s) \<le> length s"
proof (induction ws s rule: strip_front.induct)
  case (1 ws s)
  then show ?case
    by (subst strip_front.simps) (force split: option.splits)
qed

lemma strip_front_idem: "strip_front ws (strip_front ws s) = strip_front ws s"
proof (induction ws s rule: strip_front.induct)
  case (1 ws s)
  show ?case
  proof (cases "find (\<lambda>w. w \<noteq> [] \<and> prefix w s) ws")
    case None
    then show ?thesis by (simp add: strip_front.simps [of ws s])
  next
    case (Some w)
    then show ?thesis using "1" [of w] by (simp add: strip_front.simps [of ws s])
  qed
qed

lemma TrimSpace_Nil [simp]: "TrimSpace [] = []"
  by (simp add: TrimSpace_def)

lemma of_char_bound [simp]: "(of_char c :: nat) < 256"
  using range_nat_of_char by (metis atLeastLessThan_iff rangeI)

section \<open>Decimal numbers\<close>

text \<open>The verb \<open>%d\<close> of \<open>fmt\<close> and the decimal printer of \<open>strconv\<close>.\<close>

definition digit_char :: "nat \<Rightarrow> char" where
  "digit_char d = char_of (48 + d)"

fun show_nat :: "nat \<Rightarrow> string" where
  "show_nat n = (if n < 10 then [digit_char n] else show_nat (n div 10) @ [digit_char (n mod 10)])"

declare show_nat.simps [simp del]

text \<open>The two cases as conditional equations, for the evaluation of numerals.\<close>

lemma show_nat_eval:
  "n < 10 \<Longrightarrow> show_nat n = [digit_char n]"
  "10 \<le> n \<Longrightarrow> show_nat n = show_nat (n div 10) @ [digit_char (n mod 10)]"
  by (subst show_nat.simps; simp)+

definition show_int :: "int \<Rightarrow> string" where
  "show_int i = (if i < 0 then CHR ''-'' # show_nat (nat (- i)) else show_nat (nat i))"

definition digit_val :: "char \<Rightarrow> nat" where
  "digit_val c = of_char c - 48"

definition is_digit :: "char \<Rightarrow> bool" where
  "is_digit c \<longleftrightarrow> (48::nat) \<le> of_char c \<and> of_char c \<le> (57::nat)"

definition read_nat :: "string \<Rightarrow> nat" where
  "read_nat s = foldl (\<lambda>n c. 10 * n + digit_val c) 0 s"

lemma digit_char_val [simp]: "d < 10 \<Longrightarrow> digit_val (digit_char d) = d"
  by (simp add: digit_val_def digit_char_def)

lemma digit_char_is_digit [simp]: "d < 10 \<Longrightarrow> is_digit (digit_char d)"
  by (simp add: is_digit_def digit_char_def)

lemma show_nat_nonempty [simp]: "show_nat n \<noteq> []"
  by (subst show_nat.simps) simp

lemma show_nat_digits: "\<forall>c \<in> set (show_nat n). is_digit c"
proof (induction n rule: show_nat.induct)
  case (1 n)
  then show ?case by (subst show_nat.simps) auto
qed

lemma read_show_nat: "read_nat (show_nat n) = n"
proof (induction n rule: show_nat.induct)
  case (1 n)
  show ?case
  proof (cases "n < 10")
    case True
    then show ?thesis by (simp add: show_nat.simps [of n] read_nat_def)
  next
    case False
    with "1" have "read_nat (show_nat (n div 10)) = n div 10" by simp
    with False show ?thesis
      by (simp add: show_nat.simps [of n] read_nat_def)
  qed
qed

lemma show_nat_inj: "show_nat m = show_nat n \<longleftrightarrow> m = n"
  by (metis read_show_nat)

section \<open>Go maps\<close>

text \<open>
  A Go map that the code ranges over is an association list with distinct keys: a lookup
  is \<open>map_of\<close>, an assignment \<open>AList.update\<close>.  The order in which \<open>range\<close> visits the
  entries is unspecified; operations that range over a map take it as a parameter, a
  function that permutes the entries (\<open>range_order\<close>).
\<close>

type_synonym ('k, 'v) gomap = "('k \<times> 'v) list"

definition range_order :: "(('k, 'v) gomap \<Rightarrow> ('k, 'v) gomap) \<Rightarrow> bool" where
  "range_order rng \<longleftrightarrow> (\<forall>m. mset (rng m) = mset m)"

definition gomap_wf :: "('k, 'v) gomap \<Rightarrow> bool" where
  "gomap_wf m \<longleftrightarrow> distinct (map fst m)"

lemma range_order_id [simp]: "range_order (\<lambda>m. m)"
  by (simp add: range_order_def)

lemma range_order_rev: "range_order rev"
  by (simp add: range_order_def)

lemma range_order_set [go_simps]: "range_order rng \<Longrightarrow> set (rng m) = set m"
  by (metis range_order_def set_mset_mset)

lemma gomap_wf_update [simp]: "gomap_wf m \<Longrightarrow> gomap_wf (AList.update k v m)"
  by (simp add: gomap_wf_def distinct_update)

lemma gomap_wf_Nil [simp]: "gomap_wf []"
  by (simp add: gomap_wf_def)

lemma gomap_in_set: "gomap_wf m \<Longrightarrow> (k, v) \<in> set m \<longleftrightarrow> map_of m k = Some v"
  by (simp add: gomap_wf_def)

lemma map_of_update [go_simps]: "map_of (AList.update k v m) = (map_of m)(k \<mapsto> v)"
  by (rule update_conv')

section \<open>Scanning a map for its best entry\<close>

text \<open>
  The loop \<^verbatim>\<open>for _, x := range m { if skip { continue }; if selected == nil || better
  { selected = x } }\<close> over the visited entries.
\<close>

fun scan_best :: "('a \<Rightarrow> bool) \<Rightarrow> ('a \<Rightarrow> 'a \<Rightarrow> bool) \<Rightarrow> 'a list \<Rightarrow> 'a option \<Rightarrow> 'a option" where
  "scan_best keep better [] sel = sel"
| "scan_best keep better (x # xs) sel =
     (if \<not> keep x then scan_best keep better xs sel
      else case sel of
          None \<Rightarrow> scan_best keep better xs (Some x)
        | Some y \<Rightarrow> scan_best keep better xs (if better x y then Some x else Some y))"

lemma scan_best_Some:
  "scan_best keep better xs sel = Some r \<Longrightarrow> (r \<in> set xs \<and> keep r) \<or> sel = Some r"
proof (induction xs arbitrary: sel)
  case (Cons x xs)
  then show ?case
    by (cases "keep x"; cases sel; cases "better x (the sel)") fastforce+
qed simp

text \<open>
  When \<open>better\<close> compares the values of a key, the scan returns an entry whose key is
  least among the kept ones, and \<open>None\<close> exactly when nothing is kept.
\<close>

lemma scan_best_least:
  fixes key :: "'a \<Rightarrow> 'k::linorder"
  assumes "\<And>x y. keep x \<Longrightarrow> keep y \<Longrightarrow> better x y \<longleftrightarrow> key x < key y"
    and "\<And>y. sel = Some y \<Longrightarrow> keep y"
  shows "case scan_best keep better xs sel of
      None \<Rightarrow> sel = None \<and> (\<forall>x \<in> set xs. \<not> keep x)
    | Some r \<Rightarrow> (r \<in> set xs \<or> sel = Some r) \<and> keep r \<and>
        (\<forall>x \<in> set xs. keep x \<longrightarrow> key r \<le> key x) \<and> (\<forall>y. sel = Some y \<longrightarrow> key r \<le> key y)"
  using assms(2)
proof (induction xs arbitrary: sel)
  case Nil
  then show ?case by (cases sel) auto
next
  case (Cons x xs)
  note better = assms(1)
  show ?case
  proof (cases "keep x")
    case False
    with Cons.IH [of sel] Cons.prems show ?thesis
      by (auto split: option.splits)
  next
    case True
    show ?thesis
    proof (cases sel)
      case None
      with True Cons.IH [of "Some x"] show ?thesis
        by (auto split: option.splits)
    next
      case (Some y)
      with Cons.prems have y: "keep y" by simp
      show ?thesis
      proof (cases "better x y")
        case True
        with \<open>keep x\<close> y better have "key x < key y" by blast
        with True \<open>keep x\<close> Some Cons.IH [of "Some x"] show ?thesis
          by (force split: option.splits)
      next
        case False
        with \<open>keep x\<close> y better have "key y \<le> key x" by (meson not_less)
        with False \<open>keep x\<close> Some y Cons.IH [of "Some y"] show ?thesis
          by (force split: option.splits)
      qed
    qed
  qed
qed

text \<open>With a key that is injective on the entries, the visiting order does not matter.\<close>

lemma scan_best_order:
  fixes key :: "'a \<Rightarrow> 'k::linorder"
  assumes "\<And>x y. keep x \<Longrightarrow> keep y \<Longrightarrow> better x y \<longleftrightarrow> key x < key y"
    and "inj_on key (set xs)" and "set xs = set ys"
  shows "scan_best keep better xs None = scan_best keep better ys None"
proof -
  note sel = scan_best_least [of keep better key None, OF assms(1)]
  from sel [of xs] sel [of ys] assms(2,3) show ?thesis
    by (auto split: option.splits intro!: inj_onD [OF assms(2)] antisym)
qed

end
