(* ===== verification/Errors.thy ===== *)
theory Errors
  imports Prelude
begin

text \<open>
  Go error values.  Each sentinel of the packages \<open>domain\<close>, \<open>store\<close>, \<open>application\<close>,
  \<open>worker\<close> and \<open>context\<close> is a constructor; \<open>ErrNew\<close> is a one-off \<open>errors.New\<close> or a
  \<open>fmt.Errorf\<close> without \<open>%w\<close>; \<open>Wrap pre e post\<close> is a \<open>fmt.Errorf\<close> whose \<open>%w\<close> stands
  between the two texts; \<open>ExecutionErr\<close> is the \<open>*ExecutionError\<close> of package \<open>worker\<close>.  The
  last four belong to the libraries for clients: the sentinel and the \<open>*HTTPError\<close> of package
  \<open>taskpulse\<close>, the \<open>*url.Error\<close> that \<open>http.Client.Do\<close> puts around the cause of a failed call,
  and the \<open>*Failure\<close> of package \<open>taskpulseworker\<close>.
  A fallible call returns \<open>Inl\<close> of an error or \<open>Inr\<close> of its value.
\<close>

datatype error =
    ErrRetryBudgetExhausted | ErrInvalidRetryTime
  | ErrTaskNotFound | ErrTaskAlreadyExists | ErrNilTask | ErrNoTaskAvailable | ErrTaskConflict
  | ErrInvalidClaim | ErrInvalidLeaseRenewal | ErrLeaseLost | ErrNoExpiredTask
  | ErrInvalidCleanupTime | ErrInvalidEventID
  | ErrEventNotFound | ErrEventAlreadyExists | ErrNilEvent
  | ErrTaskEventMismatch | ErrIdempotencyConflict | ErrIdempotencyKeyAlreadyExists
  | ErrTaskNotCancelable | ErrInvalidCancellationTime | ErrInvalidTaskQuery
  | ErrInvalidInput | ErrInvalidWorkerRequest
  | ErrNilRetryTransitionStore | ErrNilBackoffCalculator | ErrExecutionNotRetryable
  | ErrInvalidRetryNow | ErrInvalidMaxRetries | ErrInvalidBaseDelay | ErrInvalidMaxDelay
  | ErrInvalidRetryCount | ErrNilJitterSource
  | ErrInvalidErrorKind | ErrEmptyErrorCode | ErrInvalidRetryAfter | ErrPermanentRetryAfter
  | ErrNilExecutionError | ErrInvalidLeaseDuration
  | ContextCanceled | ContextDeadlineExceeded
  | ErrNew string
  | Wrap string error string
  | ExecutionErr string string duration "error option"
  | ClientErrNoTaskAvailable
  | HTTPError nat string
  | UrlError string error
  | FailureErr string string bool duration "error option"

type_synonym 'a result = "error + 'a"

text \<open>\<open>ctx.Err()\<close> at the moment an operation checks it: \<open>None\<close> while the context is alive.\<close>

type_synonym context_err = "error option"

fun error_text :: "error \<Rightarrow> string" where
  "error_text ErrRetryBudgetExhausted = ''task retry budget exhausted''"
| "error_text ErrInvalidRetryTime = ''retry time must be after current time''"
| "error_text ErrTaskNotFound = ''task not found''"
| "error_text ErrTaskAlreadyExists = ''task already exists''"
| "error_text ErrNilTask = ''task is nil''"
| "error_text ErrNoTaskAvailable = ''no task available''"
| "error_text ErrTaskConflict = ''task version conflict''"
| "error_text ErrInvalidClaim = ''invalid task claim''"
| "error_text ErrInvalidLeaseRenewal = ''invalid lease renewal''"
| "error_text ErrLeaseLost = ''task lease lost''"
| "error_text ErrNoExpiredTask = ''no expired task awaiting cleanup''"
| "error_text ErrInvalidCleanupTime = ''invalid task cleanup time''"
| "error_text ErrInvalidEventID = ''event id is required''"
| "error_text ErrEventNotFound = ''event not found''"
| "error_text ErrEventAlreadyExists = ''event already exists''"
| "error_text ErrNilEvent = ''event is nil''"
| "error_text ErrTaskEventMismatch = ''task event does not belong to task''"
| "error_text ErrIdempotencyConflict = ''idempotency key is already used by a different request''"
| "error_text ErrIdempotencyKeyAlreadyExists = ''idempotency key already exists''"
| "error_text ErrTaskNotCancelable = ''task cannot be canceled from its current status''"
| "error_text ErrInvalidCancellationTime = ''invalid task cancellation time''"
| "error_text ErrInvalidTaskQuery = ''invalid task query''"
| "error_text ErrInvalidInput = ''invalid input''"
| "error_text ErrInvalidWorkerRequest = ''invalid worker request''"
| "error_text ErrNilRetryTransitionStore = ''retry transition store is nil''"
| "error_text ErrNilBackoffCalculator = ''backoff calculator is nil''"
| "error_text ErrExecutionNotRetryable = ''execution error is not retryable''"
| "error_text ErrInvalidRetryNow = ''retry scheduling time is zero''"
| "error_text ErrInvalidMaxRetries = ''max retries cannot be negative''"
| "error_text ErrInvalidBaseDelay = ''base delay must be positive''"
| "error_text ErrInvalidMaxDelay = ''max delay must be greater than or equal to base delay''"
| "error_text ErrInvalidRetryCount = ''retry count is outside policy budget''"
| "error_text ErrNilJitterSource = ''jitter source is nil''"
| "error_text ErrInvalidErrorKind = ''invalid execution error kind''"
| "error_text ErrEmptyErrorCode = ''execution error code is required''"
| "error_text ErrInvalidRetryAfter = ''retry after cannot be negative''"
| "error_text ErrPermanentRetryAfter = ''permanent execution error cannot specify retry after''"
| "error_text ErrNilExecutionError = ''execution error is nil''"
| "error_text ErrInvalidLeaseDuration = ''lease duration must be positive''"
| "error_text ContextCanceled = ''context canceled''"
| "error_text ContextDeadlineExceeded = ''context deadline exceeded''"
| "error_text (ErrNew s) = s"
| "error_text (Wrap pre e post) = pre @ error_text e @ post"
| "error_text (ExecutionErr k c r None) = c"
| "error_text (ExecutionErr k c r (Some e)) = c @ '': '' @ error_text e"
| "error_text ClientErrNoTaskAvailable = ''no task available''"
| "error_text (HTTPError status body) = ''taskpulse HTTP '' @ show_nat status @ '': '' @ body"
| "error_text (UrlError call e) = call @ '': '' @ error_text e"
| "error_text (FailureErr c m r a None) = m"
| "error_text (FailureErr c m r a (Some e)) = m @ '': '' @ error_text e"

text \<open>\<open>errors.Is\<close> with a sentinel as target.\<close>

fun errors_Is :: "error \<Rightarrow> error \<Rightarrow> bool" where
  "errors_Is (Wrap pre e post) target = (Wrap pre e post = target \<or> errors_Is e target)"
| "errors_Is (ExecutionErr k c r (Some e)) target =
     (ExecutionErr k c r (Some e) = target \<or> errors_Is e target)"
| "errors_Is (UrlError call e) target = (UrlError call e = target \<or> errors_Is e target)"
| "errors_Is (FailureErr c m r a (Some e)) target =
     (FailureErr c m r a (Some e) = target \<or> errors_Is e target)"
| "errors_Is e target = (e = target)"

lemma errors_Is_refl [simp]: "errors_Is e e"
proof (cases e)
  case (ExecutionErr k c r x)
  then show ?thesis by (cases x) simp_all
next
  case (FailureErr c m r a x)
  then show ?thesis by (cases x) simp_all
qed simp_all

end
