(* ===== verification/Rfc3339.thy ===== *)
theory Rfc3339
  imports Prelude
begin

text \<open>
  How \<open>time.Time\<close> is marshalled: \<open>Time.MarshalJSON\<close> writes RFC 3339 with nanoseconds and
  fails for years outside 0--9999.  Instants are taken in UTC, the zone the MySQL stores
  convert to and the zone of the deployed containers.
\<close>

definition ns_per_day :: int where
  "ns_per_day = 86400000000000"

text \<open>Year and day of the year of a day number counted from 1 January of year 1.\<close>

definition year_yday :: "int \<Rightarrow> int \<times> int" where
  "year_yday d =
     (let n400 = d div 146097; d1 = d mod 146097;
          n100 = min 3 (d1 div 36524); d2 = d1 - n100 * 36524;
          n4 = d2 div 1461; d3 = d2 mod 1461;
          n1 = min 3 (d3 div 365)
      in (400 * n400 + 100 * n100 + 4 * n4 + n1 + 1, d3 - n1 * 365))"

definition is_leap :: "int \<Rightarrow> bool" where
  "is_leap y \<longleftrightarrow> y mod 4 = 0 \<and> (y mod 100 \<noteq> 0 \<or> y mod 400 = 0)"

definition month_lengths :: "int \<Rightarrow> int list" where
  "month_lengths y = [31, if is_leap y then 29 else 28, 31, 30, 31, 30, 31, 31, 30, 31, 30, 31]"

fun month_day :: "int \<Rightarrow> int list \<Rightarrow> int \<Rightarrow> int \<times> int" where
  "month_day m [] yd = (m, yd + 1)"
| "month_day m (l # ls) yd = (if yd < l then (m, yd + 1) else month_day (m + 1) ls (yd - l))"

definition year_of :: "time \<Rightarrow> int" where
  "year_of t = fst (year_yday (t div ns_per_day))"

text \<open>A number padded with zeros on the left to at least \<open>n\<close> digits.\<close>

definition pad_int :: "nat \<Rightarrow> int \<Rightarrow> string" where
  "pad_int n i = (let s = show_nat (nat i) in replicate (n - length s) (CHR ''0'') @ s)"

definition trim_zeros :: "string \<Rightarrow> string" where
  "trim_zeros s = rev (dropWhile (\<lambda>c. c = CHR ''0'') (rev s))"

definition format_time :: "time \<Rightarrow> string" where
  "format_time t =
     (let d = t div ns_per_day; r = t mod ns_per_day;
          (y, yd) = year_yday d; (mo, dd) = month_day 1 (month_lengths y) yd;
          secs = r div Second; ns = r mod Second
      in pad_int 4 y @ ''-'' @ pad_int 2 mo @ ''-'' @ pad_int 2 dd @ ''T''
         @ pad_int 2 (secs div 3600) @ '':'' @ pad_int 2 (secs div 60 mod 60) @ '':''
         @ pad_int 2 (secs mod 60)
         @ (if ns = 0 then [] else ''.'' @ trim_zeros (pad_int 9 ns)) @ ''Z'')"

definition MarshalTime :: "time \<Rightarrow> string option" where
  "MarshalTime t = (if 0 \<le> year_of t \<and> year_of t \<le> 9999 then Some (format_time t) else None)"

end
