(* ===== verification/Base64.thy ===== *)
theory Base64
  imports Prelude
begin

text \<open>
  \<open>base64.RawURLEncoding\<close> of Go's \<open>encoding/base64\<close>, which the program uses for lease
  tokens and list cursors: the URL alphabet, no padding, and a decoder that skips
  carriage returns and newlines and ignores the spare bits of a last short group.
\<close>

text \<open>The alphabet: \<open>A\<close>--\<open>Z\<close>, \<open>a\<close>--\<open>z\<close>, \<open>0\<close>--\<open>9\<close>, \<open>-\<close>, \<open>_\<close>.\<close>

definition b64_char :: "nat \<Rightarrow> char" where
  "b64_char n =
     (if n < 26 then char_of (65 + n)
      else if n < 52 then char_of (71 + n)
      else if n < 62 then char_of (n - 4)
      else if n = 62 then CHR ''-''
      else CHR ''_'')"

definition b64_val :: "char \<Rightarrow> nat option" where
  "b64_val c =
     (let x = of_char c in
      if 65 \<le> x \<and> x \<le> (90::nat) then Some (x - 65)
      else if 97 \<le> x \<and> x \<le> 122 then Some (x - 71)
      else if 48 \<le> x \<and> x \<le> 57 then Some (x + 4)
      else if x = 45 then Some 62
      else if x = 95 then Some 63
      else None)"

fun b64_encode_bytes :: "nat list \<Rightarrow> nat list" where
  "b64_encode_bytes [] = []"
| "b64_encode_bytes [a] = [a div 4, (a mod 4) * 16]"
| "b64_encode_bytes [a, b] = [a div 4, (a mod 4) * 16 + b div 16, (b mod 16) * 4]"
| "b64_encode_bytes (a # b # c # rest) =
     [a div 4, (a mod 4) * 16 + b div 16, (b mod 16) * 4 + c div 64, c mod 64]
     @ b64_encode_bytes rest"

fun b64_decode_digits :: "nat list \<Rightarrow> nat list option" where
  "b64_decode_digits [] = Some []"
| "b64_decode_digits [p] = None"
| "b64_decode_digits [p, q] = Some [p * 4 + q div 16]"
| "b64_decode_digits [p, q, r] = Some [p * 4 + q div 16, (q mod 16) * 16 + r div 4]"
| "b64_decode_digits (p # q # r # s # rest) =
     map_option (\<lambda>bs. [p * 4 + q div 16, (q mod 16) * 16 + r div 4, (r mod 4) * 64 + s] @ bs)
       (b64_decode_digits rest)"

definition EncodeToString :: "string \<Rightarrow> string" where
  "EncodeToString s = map b64_char (b64_encode_bytes (map of_char s))"

text \<open>The values of all characters, when every one belongs to the alphabet.\<close>

fun b64_vals :: "string \<Rightarrow> nat list option" where
  "b64_vals [] = Some []"
| "b64_vals (c # cs) =
     (case b64_val c of
        None \<Rightarrow> None
      | Some v \<Rightarrow> map_option (\<lambda>vs. v # vs) (b64_vals cs))"

definition is_newline :: "char \<Rightarrow> bool" where
  "is_newline c \<longleftrightarrow> c = CHR 0x0A \<or> c = CHR 0x0D"

definition DecodeString :: "string \<Rightarrow> string option" where
  "DecodeString s =
     (case b64_vals (filter (\<lambda>c. \<not> is_newline c) s) of
        None \<Rightarrow> None
      | Some vs \<Rightarrow> map_option (map char_of) (b64_decode_digits vs))"

section \<open>Decoding inverts encoding\<close>

lemma b64_encode_bytes_digits: "\<forall>a \<in> set bs. a < 256 \<Longrightarrow> \<forall>d \<in> set (b64_encode_bytes bs). d < 64"
proof (induction bs rule: b64_encode_bytes.induct)
  case (2 a)
  then have "a div 4 < 64" "(a mod 4) * 16 < 64" by auto
  then show ?case by simp
next
  case (3 a b)
  then have "a div 4 < 64" "(a mod 4) * 16 + b div 16 < 64" "(b mod 16) * 4 < 64" by auto
  then show ?case by simp
next
  case (4 a b c rest)
  then have "a div 4 < 64" "(a mod 4) * 16 + b div 16 < 64" "(b mod 16) * 4 + c div 64 < 64" by auto
  with 4 show ?case by simp
qed simp

lemma b64_decode_encode_bytes:
  "\<forall>a \<in> set bs. a < 256 \<Longrightarrow> b64_decode_digits (b64_encode_bytes bs) = Some bs"
proof (induction bs rule: b64_encode_bytes.induct)
  case (3 a b)
  then have "((a mod 4) * 16 + b div 16) div 16 = a mod 4"
    "((a mod 4) * 16 + b div 16) mod 16 = b div 16" by auto
  then show ?case by (simp add: mult.commute)
next
  case (4 a b c rest)
  then have "((a mod 4) * 16 + b div 16) div 16 = a mod 4"
    "((a mod 4) * 16 + b div 16) mod 16 = b div 16"
    "((b mod 16) * 4 + c div 64) div 4 = b mod 16"
    "((b mod 16) * 4 + c div 64) mod 4 = c div 64" by auto
  with 4 show ?case by (simp add: mult.commute)
qed auto

lemma b64_val_char [simp]: "n < 64 \<Longrightarrow> b64_val (b64_char n) = Some n"
  by (auto simp: b64_val_def b64_char_def Let_def)

lemma b64_val_newline: "is_newline c \<Longrightarrow> b64_val c = None"
  by (auto simp: is_newline_def b64_val_def)

lemma b64_char_newline [simp]: "n < 64 \<Longrightarrow> \<not> is_newline (b64_char n)"
  using b64_val_newline by fastforce

lemma b64_vals_map: "\<forall>d \<in> set ds. d < 64 \<Longrightarrow> b64_vals (map b64_char ds) = Some ds"
  by (induction ds) simp_all

lemma DecodeString_EncodeToString [go_simps]: "DecodeString (EncodeToString s) = Some s"
proof -
  let ?bs = "map of_char s :: nat list"
  have bound: "\<forall>a \<in> set ?bs. a < 256"
    by auto
  then have digits: "\<forall>d \<in> set (b64_encode_bytes ?bs). d < 64"
    by (rule b64_encode_bytes_digits)
  then have "filter (\<lambda>c. \<not> is_newline c) (EncodeToString s) = EncodeToString s"
    by (auto simp: EncodeToString_def filter_id_conv)
  moreover have "b64_vals (EncodeToString s) = Some (b64_encode_bytes ?bs)"
    unfolding EncodeToString_def using digits by (rule b64_vals_map)
  moreover have "map char_of ?bs = s"
    by (simp add: comp_def)
  ultimately show ?thesis
    using b64_decode_encode_bytes [OF bound] by (simp add: DecodeString_def)
qed

lemma EncodeToString_eq_Nil [simp]: "EncodeToString s = [] \<longleftrightarrow> s = []"
  by (cases "map of_char s :: nat list" rule: b64_encode_bytes.cases)
    (auto simp: EncodeToString_def)

end
