(* ===== verification/Json.thy ===== *)
theory Json
  imports Base64
begin

text \<open>
  The part of Go's \<open>encoding/json\<close> (Go 1.23) that the program relies on: the text that
  \<open>json.Marshal\<close> writes for strings, integers, instants, objects and arrays; the reader
  behind \<open>json.Unmarshal\<close> and \<open>json.Decoder\<close>, with its treatment of escapes, surrogates,
  invalid UTF-8 and nesting; the folding of struct field names; and the decoded values
  that the program compares.  The reader is fuelled; \<open>parse_json\<close> gives it fuel linear in
  the length of the text, and \<open>parse_json_print\<close> shows that this is enough for every text
  the program itself marshals.
\<close>

section \<open>UTF-8\<close>

definition byte_in :: "nat \<Rightarrow> nat \<Rightarrow> char \<Rightarrow> bool" where
  "byte_in lo hi c \<longleftrightarrow> lo \<le> of_char c \<and> of_char c \<le> hi"

text \<open>
  The number of bytes of the well-formed rune at the front of a string, \<open>0\<close> when there
  is none (\<open>utf8.DecodeRune\<close> then returns \<open>RuneError\<close> and consumes one byte).
\<close>

definition rune2 :: "char \<Rightarrow> char \<Rightarrow> bool" where
  "rune2 b0 b1 \<longleftrightarrow> byte_in 0xC2 0xDF b0 \<and> byte_in 0x80 0xBF b1"

definition rune3 :: "char \<Rightarrow> char \<Rightarrow> char \<Rightarrow> bool" where
  "rune3 b0 b1 b2 \<longleftrightarrow> byte_in 0x80 0xBF b2 \<and>
     (byte_in 0xE0 0xE0 b0 \<and> byte_in 0xA0 0xBF b1
      \<or> byte_in 0xE1 0xEC b0 \<and> byte_in 0x80 0xBF b1
      \<or> byte_in 0xED 0xED b0 \<and> byte_in 0x80 0x9F b1
      \<or> byte_in 0xEE 0xEF b0 \<and> byte_in 0x80 0xBF b1)"

definition rune4 :: "char \<Rightarrow> char \<Rightarrow> char \<Rightarrow> char \<Rightarrow> bool" where
  "rune4 b0 b1 b2 b3 \<longleftrightarrow> byte_in 0x80 0xBF b2 \<and> byte_in 0x80 0xBF b3 \<and>
     (byte_in 0xF0 0xF0 b0 \<and> byte_in 0x90 0xBF b1
      \<or> byte_in 0xF1 0xF3 b0 \<and> byte_in 0x80 0xBF b1
      \<or> byte_in 0xF4 0xF4 b0 \<and> byte_in 0x80 0x8F b1)"

fun rune_size :: "string \<Rightarrow> nat" where
  "rune_size [] = 0"
| "rune_size [b0] = (if byte_in 0 0x7F b0 then 1 else 0)"
| "rune_size [b0, b1] = (if byte_in 0 0x7F b0 then 1 else if rune2 b0 b1 then 2 else 0)"
| "rune_size [b0, b1, b2] =
     (if byte_in 0 0x7F b0 then 1 else if rune2 b0 b1 then 2 else if rune3 b0 b1 b2 then 3 else 0)"
| "rune_size (b0 # b1 # b2 # b3 # r) =
     (if byte_in 0 0x7F b0 then 1 else if rune2 b0 b1 then 2 else if rune3 b0 b1 b2 then 3
      else if rune4 b0 b1 b2 b3 then 4 else 0)"

text \<open>\<open>utf8.EncodeRune\<close> on a code point.\<close>

definition encode_rune :: "nat \<Rightarrow> string" where
  "encode_rune n =
     (if n < 0x80 then [char_of n]
      else if n < 0x800 then [char_of (0xC0 + n div 64), char_of (0x80 + n mod 64)]
      else if n < 0x10000 then
        [char_of (0xE0 + n div 4096), char_of (0x80 + n div 64 mod 64), char_of (0x80 + n mod 64)]
      else [char_of (0xF0 + n div 262144), char_of (0x80 + n div 4096 mod 64),
            char_of (0x80 + n div 64 mod 64), char_of (0x80 + n mod 64)])"

definition replacement_char :: string where
  "replacement_char = [CHR 0xEF, CHR 0xBF, CHR 0xBD]"

function valid_utf8 :: "string \<Rightarrow> bool" where
  "valid_utf8 s =
     (if s = [] then True
      else if rune_size s = 0 then False
      else valid_utf8 (drop (rune_size s) s))"
  by pat_completeness auto
termination
  by (relation "measure length") auto

declare valid_utf8.simps [simp del]

section \<open>Values and their text\<close>

datatype json =
    JNull
  | JBool bool
  | JNumber string
  | JString string
  | JArray "json list"
  | JObject "(string \<times> json) list"

abbreviation JInt :: "int \<Rightarrow> json" where
  "JInt i \<equiv> JNumber (show_int i)"

definition hex_char :: "nat \<Rightarrow> char" where
  "hex_char n = (if n < 10 then char_of (48 + n) else char_of (87 + n))"

text \<open>How \<open>json.Marshal\<close> writes one ASCII byte inside a string.\<close>

definition escape_ascii :: "char \<Rightarrow> string" where
  "escape_ascii c =
     (if c = CHR 0x22 \<or> c = CHR 0x5C then [CHR 0x5C, c]
      else if c = CHR 0x08 then [CHR 0x5C, CHR ''b'']
      else if c = CHR 0x0C then [CHR 0x5C, CHR ''f'']
      else if c = CHR 0x0A then [CHR 0x5C, CHR ''n'']
      else if c = CHR 0x0D then [CHR 0x5C, CHR ''r'']
      else if c = CHR 0x09 then [CHR 0x5C, CHR ''t'']
      else if of_char c < (32::nat) \<or> c = CHR ''<'' \<or> c = CHR ''>'' \<or> c = CHR ''&'' then
        [CHR 0x5C, CHR ''u'', CHR ''0'', CHR ''0'',
         hex_char (of_char c div 16), hex_char (of_char c mod 16)]
      else [c])"

definition escape_rune :: "string \<Rightarrow> string" where
  "escape_rune r =
     (if r = [CHR 0xE2, CHR 0x80, CHR 0xA8] then CHR 0x5C # ''u2028''
      else if r = [CHR 0xE2, CHR 0x80, CHR 0xA9] then CHR 0x5C # ''u2029''
      else r)"

function quote_body :: "string \<Rightarrow> string" where
  "quote_body s =
     (case s of
        [] \<Rightarrow> []
      | c # cs \<Rightarrow>
          if byte_in 0 0x7F c then escape_ascii c @ quote_body cs
          else if rune_size s = 0 then (CHR 0x5C # ''ufffd'') @ quote_body cs
          else escape_rune (take (rune_size s) s) @ quote_body (drop (rune_size s) s))"
  by pat_completeness auto
termination
  by (relation "measure length") auto

declare quote_body.simps [simp del]

definition json_quote :: "string \<Rightarrow> string" where
  "json_quote s = CHR 0x22 # quote_body s @ [CHR 0x22]"

fun join :: "string \<Rightarrow> string list \<Rightarrow> string" where
  "join sep [] = []"
| "join sep [x] = x"
| "join sep (x # y # ys) = x @ sep @ join sep (y # ys)"

fun json_print :: "json \<Rightarrow> string" where
  "json_print JNull = ''null''"
| "json_print (JBool b) = (if b then ''true'' else ''false'')"
| "json_print (JNumber l) = l"
| "json_print (JString s) = json_quote s"
| "json_print (JArray vs) = ''['' @ join '','' (map json_print vs) @ '']''"
| "json_print (JObject kvs) =
     ''{'' @ join '','' (map (\<lambda>(k, v). json_quote k @ '':'' @ json_print v) kvs) @ ''}''"

section \<open>The reader\<close>

definition is_ws :: "char \<Rightarrow> bool" where
  "is_ws c \<longleftrightarrow> c = CHR 0x20 \<or> c = CHR 0x09 \<or> c = CHR 0x0A \<or> c = CHR 0x0D"

definition skip_ws :: "string \<Rightarrow> string" where
  "skip_ws s = dropWhile is_ws s"

definition hex_val :: "char \<Rightarrow> nat option" where
  "hex_val c =
     (let x = of_char c in
      if 48 \<le> x \<and> x \<le> (57::nat) then Some (x - 48)
      else if 97 \<le> x \<and> x \<le> 102 then Some (x - 87)
      else if 65 \<le> x \<and> x \<le> 70 then Some (x - 55)
      else None)"

definition hex4 :: "string \<Rightarrow> nat option" where
  "hex4 s =
     (case s of
        a # b # c # d # _ \<Rightarrow>
          (case (hex_val a, hex_val b, hex_val c, hex_val d) of
             (Some w, Some x, Some y, Some z) \<Rightarrow> Some (4096 * w + 256 * x + 16 * y + z)
           | _ \<Rightarrow> None)
      | _ \<Rightarrow> None)"

definition simple_escape :: "char \<Rightarrow> char option" where
  "simple_escape c =
     (if c = CHR 0x22 \<or> c = CHR 0x5C \<or> c = CHR ''/'' then Some c
      else if c = CHR ''b'' then Some (CHR 0x08)
      else if c = CHR ''f'' then Some (CHR 0x0C)
      else if c = CHR ''n'' then Some (CHR 0x0A)
      else if c = CHR ''r'' then Some (CHR 0x0D)
      else if c = CHR ''t'' then Some (CHR 0x09)
      else None)"

text \<open>The code unit of a second escape that completes a surrogate pair, as \<open>getu4\<close> reads it.\<close>

definition getu4 :: "string \<Rightarrow> nat option" where
  "getu4 s = (case s of b # u # r \<Rightarrow> if b = CHR 0x5C \<and> u = CHR ''u'' then hex4 r else None | _ \<Rightarrow> None)"

text \<open>
  The rune that a \<open>\<backslash>u\<close> escape stands for and the number of bytes it takes after the
  first four digits: a surrogate pair takes six more, a lone surrogate becomes U+FFFD.
\<close>

definition unicode_escape :: "nat \<Rightarrow> string \<Rightarrow> string \<times> nat" where
  "unicode_escape rr s =
     (if 0xD800 \<le> rr \<and> rr < 0xE000 then
        (case getu4 s of
           Some rr1 \<Rightarrow>
             if rr < 0xDC00 \<and> 0xDC00 \<le> rr1 \<and> rr1 < 0xE000
             then (encode_rune ((rr - 0xD800) * 1024 + (rr1 - 0xDC00) + 0x10000), 6)
             else (replacement_char, 0)
         | None \<Rightarrow> (replacement_char, 0))
      else (encode_rune rr, 0))"

definition prepend :: "string \<Rightarrow> (string \<times> string) option \<Rightarrow> (string \<times> string) option" where
  "prepend x r = map_option (\<lambda>(t, q). (x @ t, q)) r"

text \<open>A string literal after its opening quote: its value and the rest of the text.\<close>

function parse_str :: "string \<Rightarrow> (string \<times> string) option" where
  "parse_str s =
     (case s of
        [] \<Rightarrow> None
      | c # cs \<Rightarrow>
          if c = CHR 0x22 then Some ([], cs)
          else if of_char c < (32::nat) then None
          else if c = CHR 0x5C then
            (case cs of
               [] \<Rightarrow> None
             | e # r \<Rightarrow>
                 if e = CHR ''u'' then
                   (case hex4 r of
                      None \<Rightarrow> None
                    | Some rr \<Rightarrow>
                        prepend (fst (unicode_escape rr (drop 4 r)))
                          (parse_str (drop (4 + snd (unicode_escape rr (drop 4 r))) r)))
                 else
                   (case simple_escape e of
                      None \<Rightarrow> None
                    | Some x \<Rightarrow> prepend [x] (parse_str r)))
          else if rune_size s = 0 then
            prepend replacement_char (parse_str cs)
          else
            prepend (take (rune_size s) s) (parse_str (drop (rune_size s) s)))"
  by pat_completeness auto
termination
  by (relation "measure length") auto

declare parse_str.simps [simp del]

definition lex_int :: "string \<Rightarrow> (string \<times> string) option" where
  "lex_int s =
     (case s of
        [] \<Rightarrow> None
      | c # cs \<Rightarrow>
          if c = CHR ''0'' then Some ([c], cs)
          else if is_digit c then Some (c # takeWhile is_digit cs, dropWhile is_digit cs)
          else None)"

definition lex_digits :: "string \<Rightarrow> (string \<times> string) option" where
  "lex_digits s =
     (if takeWhile is_digit s = [] then None
      else Some (takeWhile is_digit s, dropWhile is_digit s))"

definition lex_frac :: "string \<Rightarrow> (string \<times> string) option" where
  "lex_frac s =
     (case s of
        c # cs \<Rightarrow>
          if c = CHR ''.'' then map_option (map_prod (\<lambda>d. c # d) id) (lex_digits cs) else Some ([], s)
      | [] \<Rightarrow> Some ([], s))"

definition lex_exp :: "string \<Rightarrow> (string \<times> string) option" where
  "lex_exp s =
     (case s of
        c # cs \<Rightarrow>
          if c = CHR ''e'' \<or> c = CHR ''E'' then
            (case cs of
               g # ds \<Rightarrow>
                 if g = CHR ''+'' \<or> g = CHR ''-''
                 then map_option (map_prod (\<lambda>d. c # g # d) id) (lex_digits ds)
                 else map_option (map_prod (\<lambda>d. c # d) id) (lex_digits cs)
             | [] \<Rightarrow> None)
          else Some ([], s)
      | [] \<Rightarrow> Some ([], s))"

definition lex_unsigned :: "string \<Rightarrow> (string \<times> string) option" where
  "lex_unsigned s =
     (case lex_int s of
        None \<Rightarrow> None
      | Some (i, s1) \<Rightarrow>
          (case lex_frac s1 of
             None \<Rightarrow> None
           | Some (f, s2) \<Rightarrow>
               (case lex_exp s2 of None \<Rightarrow> None | Some (e, s3) \<Rightarrow> Some (i @ f @ e, s3))))"

definition lex_number :: "string \<Rightarrow> (string \<times> string) option" where
  "lex_number s =
     (case s of
        c # cs \<Rightarrow>
          if c = CHR ''-'' then map_option (map_prod (\<lambda>l. c # l) id) (lex_unsigned cs)
          else lex_unsigned s
      | [] \<Rightarrow> None)"

text \<open>
  \<open>parse_value fuel depth\<close> reads one value; \<open>depth\<close> is what is left of the nesting limit.
  \<open>parse_elems\<close> and \<open>parse_members\<close> read the rest of a non-empty array or object.
\<close>

fun parse_value :: "nat \<Rightarrow> nat \<Rightarrow> string \<Rightarrow> (json \<times> string) option"
  and parse_elems :: "nat \<Rightarrow> nat \<Rightarrow> string \<Rightarrow> (json list \<times> string) option"
  and parse_members :: "nat \<Rightarrow> nat \<Rightarrow> string \<Rightarrow> ((string \<times> json) list \<times> string) option" where
  "parse_value 0 d s = None"
| "parse_value (Suc n) d s =
     (case s of
        [] \<Rightarrow> None
      | c # cs \<Rightarrow>
          if c = CHR 0x22 then map_option (map_prod JString id) (parse_str cs)
          else if c = CHR ''['' then
            (if d = 0 then None
             else if take 1 (skip_ws cs) = '']'' then Some (JArray [], drop 1 (skip_ws cs))
             else map_option (map_prod JArray id) (parse_elems n (d - 1) (skip_ws cs)))
          else if c = CHR ''{'' then
            (if d = 0 then None
             else if take 1 (skip_ws cs) = ''}'' then Some (JObject [], drop 1 (skip_ws cs))
             else map_option (map_prod JObject id) (parse_members n (d - 1) (skip_ws cs)))
          else if take 4 s = ''null'' then Some (JNull, drop 4 s)
          else if take 4 s = ''true'' then Some (JBool True, drop 4 s)
          else if take 5 s = ''false'' then Some (JBool False, drop 5 s)
          else map_option (map_prod JNumber id) (lex_number s))"
| "parse_elems 0 d s = None"
| "parse_elems (Suc n) d s =
     (case parse_value n d s of
        None \<Rightarrow> None
      | Some (v, r) \<Rightarrow>
          if take 1 (skip_ws r) = '']'' then Some ([v], drop 1 (skip_ws r))
          else if take 1 (skip_ws r) = '','' then
            map_option (map_prod (\<lambda>vs. v # vs) id) (parse_elems n d (skip_ws (drop 1 (skip_ws r))))
          else None)"
| "parse_members 0 d s = None"
| "parse_members (Suc n) d s =
     (if take 1 s = [CHR 0x22] then
        (case parse_str (drop 1 s) of
           None \<Rightarrow> None
         | Some (k, r) \<Rightarrow>
             if take 1 (skip_ws r) = '':'' then
               (case parse_value n d (skip_ws (drop 1 (skip_ws r))) of
                  None \<Rightarrow> None
                | Some (v, q) \<Rightarrow>
                    if take 1 (skip_ws q) = ''}'' then Some ([(k, v)], drop 1 (skip_ws q))
                    else if take 1 (skip_ws q) = '','' then
                      map_option (map_prod (\<lambda>kvs. (k, v) # kvs) id)
                        (parse_members n d (skip_ws (drop 1 (skip_ws q))))
                    else None)
             else None)
      else None)"

text \<open>The whole text is one value: what \<open>json.Unmarshal\<close> accepts.\<close>

definition max_nesting :: nat where
  "max_nesting = 10000"

definition parse_json :: "string \<Rightarrow> json option" where
  "parse_json s =
     (case parse_value (2 * length s + 2) max_nesting (skip_ws s) of
        None \<Rightarrow> None
      | Some (v, r) \<Rightarrow> if skip_ws r = [] then Some v else None)"

text \<open>
  A member of an object is stored in the struct field whose name folds to the same
  string: ASCII letters fold to upper case, U+017F to \<open>S\<close> and U+212A to \<open>K\<close>; no other
  rune folds to one that occurs in a field name.
\<close>

fun fold_name :: "string \<Rightarrow> string" where
  "fold_name (a # b # c # cs) =
     (if a = CHR 0xC5 \<and> b = CHR 0xBF then CHR ''S'' # fold_name (c # cs)
      else if a = CHR 0xE2 \<and> b = CHR 0x84 \<and> c = CHR 0xAA then CHR ''K'' # fold_name cs
      else (if byte_in 97 122 a then char_of (of_char a - (32::nat)) else a) # fold_name (b # c # cs))"
| "fold_name [a, b] =
     (if a = CHR 0xC5 \<and> b = CHR 0xBF then ''S''
      else (if byte_in 97 122 a then char_of (of_char a - (32::nat)) else a) # fold_name [b])"
| "fold_name [a] = [if byte_in 97 122 a then char_of (of_char a - (32::nat)) else a]"
| "fold_name [] = []"

definition field_match :: "string \<Rightarrow> string \<Rightarrow> bool" where
  "field_match name key \<longleftrightarrow> fold_name key = fold_name name"

end
