(* ===== verification/Domain.thy ===== *)
theory Domain
  imports Errors Rfc3339 Json
begin

text \<open>
  Package \<open>internal/domain\<close>: tasks, their statuses and transitions, and task events.
  A Go pointer argument that the code tests against \<open>nil\<close> is an \<open>option\<close>.  Methods with
  a pointer receiver return the updated task.
\<close>

section \<open>Statuses and tasks\<close>

text \<open>
  \<open>TaskStatus\<close> is a string type: the seven constants are constructors, any other string
  (the empty one included) is \<open>OtherStatus\<close>.
\<close>

datatype TaskStatus =
    TaskStatusQueued | TaskStatusRunning | TaskStatusSucceeded | TaskStatusPartial
  | TaskStatusFailed | TaskStatusCanceled | TaskStatusRetrying | OtherStatus string

fun status_text :: "TaskStatus \<Rightarrow> string" where
  "status_text TaskStatusQueued = ''queued''"
| "status_text TaskStatusRunning = ''running''"
| "status_text TaskStatusSucceeded = ''succeeded''"
| "status_text TaskStatusPartial = ''partially_succeeded''"
| "status_text TaskStatusFailed = ''failed''"
| "status_text TaskStatusCanceled = ''canceled''"
| "status_text TaskStatusRetrying = ''retrying''"
| "status_text (OtherStatus s) = s"

text \<open>The conversion \<open>domain.TaskStatus(s)\<close>.\<close>

definition status_of_text :: "string \<Rightarrow> TaskStatus" where
  "status_of_text s =
     (case find (\<lambda>st. status_text st = s)
        [TaskStatusQueued, TaskStatusRunning, TaskStatusSucceeded, TaskStatusPartial, TaskStatusFailed,
         TaskStatusCanceled, TaskStatusRetrying] of
        Some st \<Rightarrow> st
      | None \<Rightarrow> OtherStatus s)"

definition terminalStatuses :: "TaskStatus set" where
  "terminalStatuses =
     {TaskStatusSucceeded, TaskStatusPartial, TaskStatusFailed, TaskStatusCanceled}"

record Task =
  ID :: string
  IdempotencyKey :: string
  Workflow :: string
  Status :: TaskStatus
  Input :: raw_json
  Result :: raw_json
  ErrorMessage :: string
  Progress :: int
  RetryCount :: int
  MaxRetries :: int
  AvailableAt :: time
  Version :: uint64
  LeaseOwner :: string
  LeaseExpiresAt :: "time option"
  LastHeartbeatAt :: "time option"
  LeaseToken :: string
  TaskID :: string
  LeaseUntil :: "time option"
  CreatedAt :: time
  UpdatedAt :: time
  StartedAt :: "time option"
  FinishedAt :: "time option"

definition NewTask :: "string \<Rightarrow> string \<Rightarrow> raw_json \<Rightarrow> int \<Rightarrow> time \<Rightarrow> Task result" where
  "NewTask tid workflow input maxRetries now =
     (if tid = [] then Inl (ErrNew ''task id is required'')
      else if workflow = [] then Inl (ErrNew ''workflow is required'')
      else if maxRetries < 0 then Inl (ErrNew ''max retries cannot be negative'')
      else Inr \<lparr>
        ID = tid, IdempotencyKey = [], Workflow = workflow, Status = TaskStatusQueued,
        Input = (if input = [] then ''{}'' else input), Result = [], ErrorMessage = [],
        Progress = 0, RetryCount = 0, MaxRetries = maxRetries, AvailableAt = now, Version = 0,
        LeaseOwner = [], LeaseExpiresAt = None, LastHeartbeatAt = None, LeaseToken = [],
        TaskID = [], LeaseUntil = None, CreatedAt = now, UpdatedAt = now, StartedAt = None,
        FinishedAt = None\<rparr>)"

definition IsTerminal :: "Task option \<Rightarrow> bool" where
  "IsTerminal t = (case t of None \<Rightarrow> False | Some t \<Rightarrow> Status t \<in> terminalStatuses)"

fun CanTransition :: "TaskStatus \<Rightarrow> TaskStatus \<Rightarrow> bool" where
  "CanTransition TaskStatusQueued to = (to = TaskStatusRunning \<or> to = TaskStatusCanceled)"
| "CanTransition TaskStatusRunning to =
     (to = TaskStatusSucceeded \<or> to = TaskStatusPartial \<or> to = TaskStatusFailed
      \<or> to = TaskStatusCanceled \<or> to = TaskStatusRetrying)"
| "CanTransition TaskStatusRetrying to =
     (to = TaskStatusRunning \<or> to = TaskStatusFailed \<or> to = TaskStatusCanceled)"
| "CanTransition TaskStatusSucceeded to = False"
| "CanTransition TaskStatusPartial to = False"
| "CanTransition TaskStatusFailed to = False"
| "CanTransition TaskStatusCanceled to = False"
| "CanTransition (OtherStatus s) to = False"

text \<open>The \<open>switch next\<close> of \<open>MoveTo\<close>, on a task whose status has been set.\<close>

definition enter_status :: "TaskStatus \<Rightarrow> time \<Rightarrow> Task \<Rightarrow> Task" where
  "enter_status next now t =
     (case next of
        TaskStatusRunning \<Rightarrow> (if StartedAt t = None then t\<lparr>StartedAt := Some now\<rparr> else t)
      | TaskStatusRetrying \<Rightarrow> t\<lparr>LeaseOwner := [], LeaseExpiresAt := None\<rparr>
      | TaskStatusSucceeded \<Rightarrow> t\<lparr>FinishedAt := Some now, LeaseOwner := [], LeaseExpiresAt := None\<rparr>
      | TaskStatusPartial \<Rightarrow> t\<lparr>FinishedAt := Some now, LeaseOwner := [], LeaseExpiresAt := None\<rparr>
      | TaskStatusFailed \<Rightarrow> t\<lparr>FinishedAt := Some now, LeaseOwner := [], LeaseExpiresAt := None\<rparr>
      | TaskStatusCanceled \<Rightarrow> t\<lparr>FinishedAt := Some now, LeaseOwner := [], LeaseExpiresAt := None\<rparr>
      | _ \<Rightarrow> t)"

definition MoveTo :: "Task option \<Rightarrow> TaskStatus \<Rightarrow> time \<Rightarrow> Task result" where
  "MoveTo task next now =
     (case task of
        None \<Rightarrow> Inl (ErrNew ''task is nil'')
      | Some t \<Rightarrow>
          if \<not> CanTransition (Status t) next then Inl (ErrNew ''invalid task status transition'')
          else Inr (enter_status next now (t\<lparr>Status := next, UpdatedAt := now\<rparr>)))"

definition ScheduleRetry :: "Task option \<Rightarrow> time \<Rightarrow> time \<Rightarrow> Task result" where
  "ScheduleRetry task now availableAt =
     (case task of
        None \<Rightarrow> Inl (ErrNew ''task is nil'')
      | Some t \<Rightarrow>
          if \<not> availableAt > now then Inl ErrInvalidRetryTime
          else if RetryCount t \<ge> MaxRetries t then Inl ErrRetryBudgetExhausted
          else (case MoveTo (Some t) TaskStatusRetrying now of
              Inl e \<Rightarrow> Inl e
            | Inr t1 \<Rightarrow> Inr (t1\<lparr>RetryCount := i64 (RetryCount t1 + 1), AvailableAt := availableAt\<rparr>)))"

definition RequeueForRelease :: "Task option \<Rightarrow> time \<Rightarrow> Task result" where
  "RequeueForRelease task now =
     (case task of
        None \<Rightarrow> Inl (ErrNew ''task is nil'')
      | Some t \<Rightarrow>
          if Status t \<noteq> TaskStatusRunning then Inl (ErrNew ''only running tasks can be released'')
          else if IsZero now then Inl (ErrNew ''release time is required'')
          else Inr (t\<lparr>Status := TaskStatusQueued, Progress := 0, ErrorMessage := [],
                 AvailableAt := now, LeaseOwner := [], LeaseExpiresAt := None, UpdatedAt := now\<rparr>))"

section \<open>Events\<close>

datatype EventType =
    EventTaskCreated | EventTaskStarted | EventTaskRetryStarted | EventTaskRecovered
  | EventTaskRetrying | EventTaskReleased | EventTaskProgress | EventTaskSucceeded
  | EventTaskPartial | EventTaskFailed | EventTaskCanceled | EventItemStarted
  | EventItemSucceeded | EventItemFailed | EventItemRetrying | OtherEvent string

text \<open>The strings behind the event types, and the conversion \<open>domain.EventType(s)\<close>.\<close>

fun event_text :: "EventType \<Rightarrow> string" where
  "event_text EventTaskCreated = ''task_created''"
| "event_text EventTaskStarted = ''task_started''"
| "event_text EventTaskRetryStarted = ''task_retry_started''"
| "event_text EventTaskRecovered = ''task_recovered''"
| "event_text EventTaskRetrying = ''task_retrying''"
| "event_text EventTaskReleased = ''task_released''"
| "event_text EventTaskProgress = ''task_progress''"
| "event_text EventTaskSucceeded = ''task_succeeded''"
| "event_text EventTaskPartial = ''task_partially_succeeded''"
| "event_text EventTaskFailed = ''task_failed''"
| "event_text EventTaskCanceled = ''task_canceled''"
| "event_text EventItemStarted = ''item_started''"
| "event_text EventItemSucceeded = ''item_succeeded''"
| "event_text EventItemFailed = ''item_failed''"
| "event_text EventItemRetrying = ''item_retrying''"
| "event_text (OtherEvent s) = s"

definition event_of_text :: "string \<Rightarrow> EventType" where
  "event_of_text s =
     (case find (\<lambda>ty. event_text ty = s)
        [EventTaskCreated, EventTaskStarted, EventTaskRetryStarted, EventTaskRecovered, EventTaskRetrying,
         EventTaskReleased, EventTaskProgress, EventTaskSucceeded, EventTaskPartial, EventTaskFailed,
         EventTaskCanceled, EventItemStarted, EventItemSucceeded, EventItemFailed, EventItemRetrying] of
        Some ty \<Rightarrow> ty
      | None \<Rightarrow> OtherEvent s)"

datatype ClaimKind = ClaimInitial | ClaimRetry | ClaimRecovery | OtherClaim string

record TaskEvent =
  ID_ev :: string
  TaskID_ev :: string
  Type_ev :: EventType
  Message_ev :: string
  Payload_ev :: raw_json
  Progress_ev :: int
  CreatedAt_ev :: time

definition NewTaskEvent ::
  "string \<Rightarrow> string \<Rightarrow> EventType \<Rightarrow> string \<Rightarrow> raw_json \<Rightarrow> int \<Rightarrow> time \<Rightarrow> TaskEvent result" where
  "NewTaskEvent eid taskID eventType message payload progress now =
     (if eid = [] then Inl (ErrNew ''event id is required'')
      else if taskID = [] then Inl (ErrNew ''task id is required'')
      else if eventType = OtherEvent [] then Inl (ErrNew ''event type is required'')
      else if progress < 0 \<or> progress > 100 then
        Inl (ErrNew ''progress must be between 0 and 100'')
      else Inr \<lparr>ID_ev = eid, TaskID_ev = taskID, Type_ev = eventType, Message_ev = message,
        Payload_ev = (if payload = [] then ''{}'' else payload), Progress_ev = progress,
        CreatedAt_ev = now\<rparr>)"

text \<open>
  A struct member of type \<open>*time.Time\<close> with \<open>omitempty\<close>: no member when it is \<open>nil\<close>, and
  \<open>json.Marshal\<close> fails when the instant cannot be marshalled.
\<close>

definition time_member :: "string \<Rightarrow> time option \<Rightarrow> (string \<times> json) list result" where
  "time_member name t =
     (case t of
        None \<Rightarrow> Inr []
      | Some u \<Rightarrow>
          (case MarshalTime u of
             None \<Rightarrow> Inl (ErrNew ''json: error calling MarshalJSON for type time.Time'')
           | Some s \<Rightarrow> Inr [(name, JString s)]))"

definition claim_event_kind :: "ClaimKind \<Rightarrow> (EventType \<times> string) result" where
  "claim_event_kind k =
     (case k of
        ClaimInitial \<Rightarrow> Inr (EventTaskStarted, ''task started'')
      | ClaimRetry \<Rightarrow> Inr (EventTaskRetryStarted, ''task retry started'')
      | ClaimRecovery \<Rightarrow> Inr (EventTaskRecovered, ''task recovered after lease expiration'')
      | OtherClaim _ \<Rightarrow> Inl (ErrNew ''invalid task claim kind''))"

definition NewTaskClaimedEvent ::
  "string \<Rightarrow> Task option \<Rightarrow> ClaimKind \<Rightarrow> time \<Rightarrow> TaskEvent result" where
  "NewTaskClaimedEvent eid task claimKind now =
     (case task of
        None \<Rightarrow> Inl (ErrNew ''task is nil'')
      | Some t \<Rightarrow>
          (case claim_event_kind claimKind of
             Inl e \<Rightarrow> Inl e
           | Inr (eventType, message) \<Rightarrow>
               (case time_member ''lease_until'' (LeaseExpiresAt t) of
                  Inl e \<Rightarrow> Inl e
                | Inr lease \<Rightarrow>
                    NewTaskEvent eid (ID t) eventType message
                      (json_print (JObject ([(''worker_id'', JString (LeaseOwner t))] @ lease
                         @ [(''retry_count'', JInt (RetryCount t))])))
                      (Progress t) now)))"

definition reason_payload :: "string \<Rightarrow> raw_json" where
  "reason_payload r = json_print (JObject [(''reason'', JString r)])"

definition NewTaskExpiredEvent :: "string \<Rightarrow> Task option \<Rightarrow> time \<Rightarrow> TaskEvent result" where
  "NewTaskExpiredEvent eid task now =
     (case task of
        None \<Rightarrow> Inl (ErrNew ''task is nil'')
      | Some t \<Rightarrow>
          NewTaskEvent eid (ID t) EventTaskFailed ''task failed after lease expiration''
            (reason_payload ''retry_budget_exhausted'') (Progress t) now)"

definition NewTaskReleasedEvent :: "string \<Rightarrow> Task option \<Rightarrow> time \<Rightarrow> TaskEvent result" where
  "NewTaskReleasedEvent eid task now =
     (case task of
        None \<Rightarrow> Inl (ErrNew ''task is nil'')
      | Some t \<Rightarrow>
          if Status t \<noteq> TaskStatusQueued then Inl (ErrNew ''task is not queued after release'')
          else NewTaskEvent eid (ID t) EventTaskReleased
                 ''task released by worker during graceful shutdown''
                 (reason_payload ''worker_shutdown'') (Progress t) now)"

definition NewTaskCanceledEvent :: "string \<Rightarrow> Task option \<Rightarrow> time \<Rightarrow> TaskEvent result" where
  "NewTaskCanceledEvent eid task now =
     (case task of
        None \<Rightarrow> Inl (ErrNew ''task is nil'')
      | Some t \<Rightarrow>
          if Status t \<noteq> TaskStatusCanceled then Inl (ErrNew ''task is not canceled'')
          else NewTaskEvent eid (ID t) EventTaskCanceled ''task canceled''
                 (reason_payload ''requested_by_caller'') (Progress t) now)"

definition NewTaskRetryingEvent ::
  "string \<Rightarrow> Task option \<Rightarrow> string \<Rightarrow> duration \<Rightarrow> time \<Rightarrow> TaskEvent result" where
  "NewTaskRetryingEvent eid task errorCode delay now =
     (case task of
        None \<Rightarrow> Inl (ErrNew ''task is nil'')
      | Some t \<Rightarrow>
          if Status t \<noteq> TaskStatusRetrying then Inl (ErrNew ''task is not retrying'')
          else if errorCode = [] then Inl (ErrNew ''retry error code is required'')
          else if delay \<le> 0 then Inl (ErrNew ''retry delay must be positive'')
          else (case time_member ''available_at'' (Some (AvailableAt t)) of
              Inl e \<Rightarrow> Inl e
            | Inr available \<Rightarrow>
                NewTaskEvent eid (ID t) EventTaskRetrying ''task scheduled for retry''
                  (json_print (JObject ([(''error_code'', JString errorCode),
                      (''retry_count'', JInt (RetryCount t)),
                      (''max_retries'', JInt (MaxRetries t))] @ available
                      @ [(''delay_ms'', JInt (Milliseconds delay))])))
                  (Progress t) now))"

end
