(* ===== verification/MemoryStore.thy ===== *)
theory MemoryStore
  imports Domain
begin

text \<open>
  The in-memory stores of \<open>internal/store\<close>: \<open>MemoryTaskStore\<close> and \<open>MemoryEventStore\<close>.
  Every operation runs under the store's mutex and is one atomic state change; stored
  and returned values are deep copies in the code, plain values here.  Operations that
  range over the task map take the visiting order \<open>rng\<close> as a parameter.
\<close>

section \<open>Options\<close>

record ClaimOptions =
  WorkerID_co :: string
  Workflow_co :: string
  Now_co :: time
  LeaseDuration_co :: duration

definition Validate_claim :: "ClaimOptions \<Rightarrow> error option" where
  "Validate_claim o1 =
     (if WorkerID_co o1 = [] \<or> IsZero (Now_co o1) \<or> LeaseDuration_co o1 \<le> 0
      then Some ErrInvalidClaim else None)"

record RenewLeaseOptions =
  TaskID_rl :: string
  WorkerID_rl :: string
  Now_rl :: time
  LeaseDuration_rl :: duration

definition Validate_renew :: "RenewLeaseOptions \<Rightarrow> error option" where
  "Validate_renew o1 =
     (if TaskID_rl o1 = [] \<or> WorkerID_rl o1 = [] \<or> IsZero (Now_rl o1) \<or> LeaseDuration_rl o1 \<le> 0
      then Some ErrInvalidLeaseRenewal else None)"

section \<open>MemoryTaskStore\<close>

record MemoryTaskStore =
  tasks :: "(string, Task) gomap"
  taskIDsByIdempotencyKey :: "string \<rightharpoonup> string"

definition NewMemoryTaskStore :: MemoryTaskStore where
  "NewMemoryTaskStore = \<lparr>tasks = [], taskIDsByIdempotencyKey = Map.empty\<rparr>"

type_synonym task_range = "(string, Task) gomap \<Rightarrow> (string, Task) gomap"

abbreviation lookup_task :: "MemoryTaskStore \<Rightarrow> string \<Rightarrow> Task option" where
  "lookup_task s \<equiv> map_of (tasks s)"

definition put_task :: "string \<Rightarrow> Task \<Rightarrow> MemoryTaskStore \<Rightarrow> MemoryTaskStore" where
  "put_task k t s = s\<lparr>tasks := AList.update k t (tasks s)\<rparr>"

definition idempotencyIndexKey :: "string \<Rightarrow> string \<Rightarrow> string" where
  "idempotencyIndexKey workflow key = workflow @ [CHR 0x00] @ key"

definition put_key :: "Task \<Rightarrow> MemoryTaskStore \<Rightarrow> MemoryTaskStore" where
  "put_key t s =
     (if IdempotencyKey t \<noteq> [] then
        s\<lparr>taskIDsByIdempotencyKey :=
            (taskIDsByIdempotencyKey s)(idempotencyIndexKey (Workflow t) (IdempotencyKey t) \<mapsto> ID t)\<rparr>
      else s)"

definition Create :: "context_err \<Rightarrow> Task option \<Rightarrow> MemoryTaskStore \<Rightarrow> error option \<times> MemoryTaskStore" where
  "Create ctx task s =
     (case ctx of
        Some e \<Rightarrow> (Some e, s)
      | None \<Rightarrow>
          (case task of
             None \<Rightarrow> (Some ErrNilTask, s)
           | Some t \<Rightarrow>
               if lookup_task s (ID t) \<noteq> None then (Some ErrTaskAlreadyExists, s)
               else if IdempotencyKey t \<noteq> [] \<and>
                 taskIDsByIdempotencyKey s (idempotencyIndexKey (Workflow t) (IdempotencyKey t)) \<noteq> None
               then (Some ErrIdempotencyConflict, s)
               else (None, put_key t (put_task (ID t) t s))))"

definition Get :: "context_err \<Rightarrow> string \<Rightarrow> MemoryTaskStore \<Rightarrow> Task result" where
  "Get ctx tid s =
     (case ctx of
        Some e \<Rightarrow> Inl e
      | None \<Rightarrow> (case lookup_task s tid of None \<Rightarrow> Inl ErrTaskNotFound | Some t \<Rightarrow> Inr t))"

definition Update :: "context_err \<Rightarrow> Task option \<Rightarrow> MemoryTaskStore \<Rightarrow> error option \<times> MemoryTaskStore" where
  "Update ctx task s =
     (case ctx of
        Some e \<Rightarrow> (Some e, s)
      | None \<Rightarrow>
          (case task of
             None \<Rightarrow> (Some ErrNilTask, s)
           | Some t \<Rightarrow>
               (case lookup_task s (ID t) of
                  None \<Rightarrow> (Some ErrTaskNotFound, s)
                | Some stored \<Rightarrow>
                    if Version stored \<noteq> Version t then (Some ErrTaskConflict, s)
                    else if IdempotencyKey stored \<noteq> IdempotencyKey t then (Some ErrTaskConflict, s)
                    else (None, put_task (ID t) (t\<lparr>Version := Version t + 1\<rparr>) s))))"

subsection \<open>Claiming\<close>

definition workflow_skip :: "ClaimOptions \<Rightarrow> Task \<Rightarrow> bool" where
  "workflow_skip o1 t \<longleftrightarrow> Workflow_co o1 \<noteq> [] \<and> Workflow t \<noteq> Workflow_co o1"

text \<open>The filter and the comparison of the first loop of \<open>claimNextLocked\<close>.\<close>

definition expired_claimable :: "ClaimOptions \<Rightarrow> Task \<Rightarrow> bool" where
  "expired_claimable o1 t \<longleftrightarrow>
     \<not> workflow_skip o1 t \<and>
     \<not> (Status t \<noteq> TaskStatusRunning \<or>
        (case LeaseExpiresAt t of None \<Rightarrow> True | Some l \<Rightarrow> l > Now_co o1) \<or>
        RetryCount t \<ge> MaxRetries t)"

definition lease_before :: "Task \<Rightarrow> Task \<Rightarrow> bool" where
  "lease_before t sel \<longleftrightarrow>
     the (LeaseExpiresAt t) < the (LeaseExpiresAt sel) \<or>
     (the (LeaseExpiresAt t) = the (LeaseExpiresAt sel) \<and> ID t < ID sel)"

text \<open>The filter and the comparison of the second loop.\<close>

definition ready_claimable :: "ClaimOptions \<Rightarrow> Task \<Rightarrow> bool" where
  "ready_claimable o1 t \<longleftrightarrow>
     \<not> workflow_skip o1 t \<and>
     \<not> ((Status t \<noteq> TaskStatusQueued \<and> Status t \<noteq> TaskStatusRetrying) \<or>
        AvailableAt t > Now_co o1)"

definition ready_before :: "Task \<Rightarrow> Task \<Rightarrow> bool" where
  "ready_before t sel \<longleftrightarrow>
     AvailableAt t < AvailableAt sel \<or>
     (AvailableAt t = AvailableAt sel \<and> CreatedAt t < CreatedAt sel) \<or>
     (AvailableAt t = AvailableAt sel \<and> CreatedAt t = CreatedAt sel \<and> ID t < ID sel)"

definition scan_tasks ::
  "(Task \<Rightarrow> bool) \<Rightarrow> (Task \<Rightarrow> Task \<Rightarrow> bool) \<Rightarrow> (string, Task) gomap \<Rightarrow> (string \<times> Task) option" where
  "scan_tasks keep better m =
     scan_best (\<lambda>(k, t). keep t) (\<lambda>(k, t) (k', t'). better t t') m None"

definition select_claim ::
  "task_range \<Rightarrow> task_range \<Rightarrow> ClaimOptions \<Rightarrow> MemoryTaskStore \<Rightarrow> ((string \<times> Task) \<times> ClaimKind) option" where
  "select_claim rng1 rng2 o1 s =
     (case scan_tasks (expired_claimable o1) lease_before (rng1 (tasks s)) of
        Some kt \<Rightarrow> Some (kt, ClaimRecovery)
      | None \<Rightarrow>
          (case scan_tasks (ready_claimable o1) ready_before (rng2 (tasks s)) of
             None \<Rightarrow> None
           | Some (k, t) \<Rightarrow>
               Some ((k, t), if Status t = TaskStatusRetrying then ClaimRetry else ClaimInitial)))"

definition grant_lease :: "ClaimOptions \<Rightarrow> Task \<Rightarrow> Task" where
  "grant_lease o1 t =
     t\<lparr>LeaseOwner := WorkerID_co o1,
       LeaseExpiresAt := Some (Add_time (Now_co o1) (LeaseDuration_co o1)),
       LastHeartbeatAt := None, Version := Version t + 1\<rparr>"

text \<open>The claimed task, the task as it was before, and the kind of the claim.\<close>

definition claimNextLocked ::
  "task_range \<Rightarrow> task_range \<Rightarrow> ClaimOptions \<Rightarrow> MemoryTaskStore \<Rightarrow>
     (Task \<times> Task \<times> ClaimKind) result \<times> MemoryTaskStore" where
  "claimNextLocked rng1 rng2 o1 s =
     (case select_claim rng1 rng2 o1 s of
        None \<Rightarrow> (Inl ErrNoTaskAvailable, s)
      | Some ((k, t), kind) \<Rightarrow>
          (case (if kind = ClaimRecovery
                 then Inr (t\<lparr>RetryCount := i64 (RetryCount t + 1), UpdatedAt := Now_co o1\<rparr>)
                 else MoveTo (Some t) TaskStatusRunning (Now_co o1)) of
             Inl e \<Rightarrow> (Inl e, s)
           | Inr t1 \<Rightarrow> (Inr (grant_lease o1 t1, t, kind), put_task k (grant_lease o1 t1) s)))"

definition ClaimNext ::
  "task_range \<Rightarrow> task_range \<Rightarrow> context_err \<Rightarrow> ClaimOptions \<Rightarrow> MemoryTaskStore \<Rightarrow>
     Task result \<times> MemoryTaskStore" where
  "ClaimNext rng1 rng2 ctx o1 s =
     (case ctx of
        Some e \<Rightarrow> (Inl e, s)
      | None \<Rightarrow>
          (case Validate_claim o1 of
             Some e \<Rightarrow> (Inl e, s)
           | None \<Rightarrow>
               (case claimNextLocked rng1 rng2 o1 s of
                  (Inl e, s') \<Rightarrow> (Inl e, s')
                | (Inr (t, _, _), s') \<Rightarrow> (Inr t, s'))))"

subsection \<open>Renewing and expiring leases\<close>

text \<open>The test that \<open>RenewLease\<close> makes on the stored task.\<close>

definition lease_held :: "string \<Rightarrow> time \<Rightarrow> Task \<Rightarrow> bool" where
  "lease_held worker now t \<longleftrightarrow>
     Status t = TaskStatusRunning \<and> LeaseOwner t = worker \<and>
     (case LeaseExpiresAt t of None \<Rightarrow> False | Some l \<Rightarrow> l > now)"

definition RenewLease ::
  "context_err \<Rightarrow> RenewLeaseOptions \<Rightarrow> MemoryTaskStore \<Rightarrow> error option \<times> MemoryTaskStore" where
  "RenewLease ctx o1 s =
     (case ctx of
        Some e \<Rightarrow> (Some e, s)
      | None \<Rightarrow>
          (case Validate_renew o1 of
             Some e \<Rightarrow> (Some e, s)
           | None \<Rightarrow>
               (case lookup_task s (TaskID_rl o1) of
                  None \<Rightarrow> (Some ErrLeaseLost, s)
                | Some t \<Rightarrow>
                    if \<not> lease_held (WorkerID_rl o1) (Now_rl o1) t then (Some ErrLeaseLost, s)
                    else (None, put_task (TaskID_rl o1)
                        (t\<lparr>LeaseExpiresAt := Some (Add_time (Now_rl o1) (LeaseDuration_rl o1)),
                           LastHeartbeatAt := Some (Now_rl o1), UpdatedAt := Now_rl o1\<rparr>) s))))"

definition expired_exhausted :: "time \<Rightarrow> Task \<Rightarrow> bool" where
  "expired_exhausted now t \<longleftrightarrow>
     \<not> (Status t \<noteq> TaskStatusRunning \<or>
        (case LeaseExpiresAt t of None \<Rightarrow> True | Some l \<Rightarrow> l > now) \<or>
        RetryCount t < MaxRetries t)"

definition expired_message :: string where
  "expired_message = ''task lease expired and retry budget exhausted''"

definition failNextExpiredLocked ::
  "task_range \<Rightarrow> time \<Rightarrow> MemoryTaskStore \<Rightarrow> (Task \<times> Task) result \<times> MemoryTaskStore" where
  "failNextExpiredLocked rng now s =
     (case scan_tasks (expired_exhausted now) lease_before (rng (tasks s)) of
        None \<Rightarrow> (Inl ErrNoExpiredTask, s)
      | Some (k, t) \<Rightarrow>
          let t0 = t\<lparr>ErrorMessage := expired_message\<rparr> in
          (case MoveTo (Some t0) TaskStatusFailed now of
             Inl e \<Rightarrow> (Inl e, put_task k t0 s)
           | Inr t1 \<Rightarrow>
               (Inr (t1\<lparr>Version := Version t1 + 1\<rparr>, t), put_task k (t1\<lparr>Version := Version t1 + 1\<rparr>) s)))"

definition FailNextExpired ::
  "task_range \<Rightarrow> context_err \<Rightarrow> time \<Rightarrow> MemoryTaskStore \<Rightarrow> Task result \<times> MemoryTaskStore" where
  "FailNextExpired rng ctx now s =
     (case ctx of
        Some e \<Rightarrow> (Inl e, s)
      | None \<Rightarrow>
          if IsZero now then (Inl ErrInvalidCleanupTime, s)
          else (case failNextExpiredLocked rng now s of
              (Inl e, s') \<Rightarrow> (Inl e, s')
            | (Inr (t, _), s') \<Rightarrow> (Inr t, s')))"

section \<open>MemoryEventStore\<close>

record MemoryEventStore =
  eventsByID :: "string \<rightharpoonup> TaskEvent"
  eventsByTaskID :: "string \<rightharpoonup> TaskEvent list"

definition NewMemoryEventStore :: MemoryEventStore where
  "NewMemoryEventStore = \<lparr>eventsByID = Map.empty, eventsByTaskID = Map.empty\<rparr>"

definition events_of :: "MemoryEventStore \<Rightarrow> string \<Rightarrow> TaskEvent list" where
  "events_of s tid = (case eventsByTaskID s tid of None \<Rightarrow> [] | Some es \<Rightarrow> es)"

definition put_event :: "TaskEvent \<Rightarrow> MemoryEventStore \<Rightarrow> MemoryEventStore" where
  "put_event e s =
     s\<lparr>eventsByID := (eventsByID s)(ID_ev e \<mapsto> e),
       eventsByTaskID := (eventsByTaskID s)(TaskID_ev e \<mapsto> events_of s (TaskID_ev e) @ [e])\<rparr>"

definition Append ::
  "context_err \<Rightarrow> TaskEvent option \<Rightarrow> MemoryEventStore \<Rightarrow> error option \<times> MemoryEventStore" where
  "Append ctx event s =
     (case ctx of
        Some e \<Rightarrow> (Some e, s)
      | None \<Rightarrow>
          (case event of
             None \<Rightarrow> (Some ErrNilEvent, s)
           | Some ev \<Rightarrow>
               if eventsByID s (ID_ev ev) \<noteq> None then (Some ErrEventAlreadyExists, s)
               else (None, put_event ev s)))"

definition ListByTaskID :: "context_err \<Rightarrow> string \<Rightarrow> MemoryEventStore \<Rightarrow> TaskEvent list result" where
  "ListByTaskID ctx tid s =
     (case ctx of
        Some e \<Rightarrow> Inl e
      | None \<Rightarrow> Inr (sort_key CreatedAt_ev (events_of s tid)))"

end
