(* ===== verification/JsonValue.thy ===== *)
theory JsonValue
  imports Json
begin

text \<open>
  Decoded JSON values as the program compares them.  Decoding an object into a Go map
  keeps the last of two equal keys and forgets the order, so a decoded object is kept as
  a list sorted by key.  Numbers are kept as their literal when the decoder uses
  \<open>UseNumber\<close>, and as an IEEE double otherwise.  Two decoded values are equal under
  \<open>reflect.DeepEqual\<close>, and marshal to the same text (keys sorted, shortest float that
  reads back), exactly when they are equal here.
\<close>

datatype 'n jval =
    VNull
  | VBool bool
  | VNum 'n
  | VStr string
  | VArr "'n jval list"
  | VObj "(string \<times> 'n jval) list"

fun ins_member :: "string \<Rightarrow> 'a \<Rightarrow> (string \<times> 'a) list \<Rightarrow> (string \<times> 'a) list" where
  "ins_member k v [] = [(k, v)]"
| "ins_member k v ((k', v') # kvs) =
     (if k < k' then (k, v) # (k', v') # kvs
      else if k = k' then (k, v) # kvs
      else (k', v') # ins_member k v kvs)"

definition sort_members :: "(string \<times> 'a) list \<Rightarrow> (string \<times> 'a) list" where
  "sort_members kvs = foldl (\<lambda>m (k, v). ins_member k v m) [] kvs"

fun canon :: "(string \<Rightarrow> 'n option) \<Rightarrow> json \<Rightarrow> 'n jval option" where
  "canon conv JNull = Some VNull"
| "canon conv (JBool b) = Some (VBool b)"
| "canon conv (JNumber l) = map_option VNum (conv l)"
| "canon conv (JString s) = Some (VStr s)"
| "canon conv (JArray vs) = map_option VArr (those (map (canon conv) vs))"
| "canon conv (JObject kvs) =
     map_option (\<lambda>ms. VObj (sort_members ms))
       (those (map (\<lambda>(k, v). map_option (\<lambda>x. (k, x)) (canon conv v)) kvs))"

section \<open>IEEE doubles\<close>

text \<open>
  \<open>F64 neg m e\<close> is \<open>m * 2 ^ e\<close>, negative if \<open>neg\<close>, in the unique form of a double: zero is
  \<open>m = 0, e = 0\<close>; otherwise \<open>m\<close> has 53 bits, or \<open>e = -1074\<close>.
\<close>

datatype f64 = F64 bool nat int

fun nat_bits :: "nat \<Rightarrow> nat" where
  "nat_bits n = (if n = 0 then 0 else Suc (nat_bits (n div 2)))"

declare nat_bits.simps [simp del]

text \<open>Round \<open>num / den\<close> to the nearest integer, ties to even.\<close>

definition round_even :: "nat \<Rightarrow> nat \<Rightarrow> nat" where
  "round_even num den =
     (let q = num div den; r = num mod den in
      if 2 * r < den then q
      else if den < 2 * r then q + 1
      else if even q then q else q + 1)"

text \<open>The double nearest to \<open>num / den\<close> (both positive); \<open>None\<close> on overflow.\<close>

definition round_f64 :: "bool \<Rightarrow> nat \<Rightarrow> nat \<Rightarrow> f64 option" where
  "round_f64 neg num den =
     (let e0 = int (nat_bits num) - int (nat_bits den) - 53;
          big = (if e0 \<ge> 0 then num \<ge> den * 2 ^ (nat e0 + 53) else num * 2 ^ nat (- e0) \<ge> den * 2 ^ 53);
          e = max (- 1074) (if big then e0 + 1 else e0);
          m = (if e \<ge> 0 then round_even num (den * 2 ^ nat e) else round_even (num * 2 ^ nat (- e)) den);
          (m', e') = (if m = 2 ^ 53 then (2 ^ 52, e + 1) else (m, e))
      in if m' = 0 then Some (F64 neg 0 0)
         else if e' > 971 then None
         else Some (F64 neg m' e'))"

definition f64_of_literal :: "string \<Rightarrow> f64 option" where
  "f64_of_literal l =
     (let neg = (take 1 l = ''-''); u = (if neg then drop 1 l else l);
          i = takeWhile is_digit u; u1 = dropWhile is_digit u;
          f = (if take 1 u1 = ''.'' then takeWhile is_digit (drop 1 u1) else []);
          u2 = (if take 1 u1 = ''.'' then dropWhile is_digit (drop 1 u1) else u1);
          x = (if u2 = [] then 0
               else if take 1 (drop 1 u2) = ''-'' then - int (read_nat (drop 2 u2))
               else if take 1 (drop 1 u2) = ''+'' then int (read_nat (drop 2 u2))
               else int (read_nat (drop 1 u2)));
          d = read_nat (i @ f); k = x - int (length f)
      in if d = 0 then Some (F64 neg 0 0)
         else if k \<ge> 0 then round_f64 neg (d * 10 ^ nat k) 1
         else round_f64 neg d (10 ^ nat (- k)))"

section \<open>Decoding a whole text\<close>

text \<open>\<open>json.Unmarshal(raw, &v)\<close> with \<open>v any\<close>.\<close>

definition unmarshal_any :: "raw_json \<Rightarrow> f64 jval option" where
  "unmarshal_any raw = (case parse_json raw of None \<Rightarrow> None | Some v \<Rightarrow> canon f64_of_literal v)"

end
