(* ===== verification/TransitionStore.thy ===== *)
theory TransitionStore
  imports MemoryStore JsonValue
begin

text \<open>
  The stores of \<open>internal/store\<close> that change a task and append its event in one step:
  \<open>MemoryTaskCreationStore\<close> and \<open>MemoryTaskTransitionStore\<close> (with its cancellation half).
  Both hold the task store and the event store and lock the two mutexes for the whole of
  an operation, so that an operation is one atomic change of the pair \<open>MemoryStores\<close>.
\<close>

record MemoryStores =
  taskStore :: MemoryTaskStore
  eventStore :: MemoryEventStore

definition NewMemoryStores :: MemoryStores where
  "NewMemoryStores = \<lparr>taskStore = NewMemoryTaskStore, eventStore = NewMemoryEventStore\<rparr>"

abbreviation stored_task :: "MemoryStores \<Rightarrow> string \<Rightarrow> Task option" where
  "stored_task s \<equiv> lookup_task (taskStore s)"

abbreviation stored_events :: "MemoryStores \<Rightarrow> string \<Rightarrow> TaskEvent list" where
  "stored_events s \<equiv> events_of (eventStore s)"

abbreviation event_known :: "MemoryStores \<Rightarrow> string \<Rightarrow> bool" where
  "event_known s eid \<equiv> eventsByID (eventStore s) eid \<noteq> None"

text \<open>Storing a task and appending an event, the last step of every operation here.\<close>

definition commit :: "string \<Rightarrow> Task \<Rightarrow> TaskEvent \<Rightarrow> MemoryStores \<Rightarrow> MemoryStores" where
  "commit k t e s =
     s\<lparr>taskStore := put_task k t (taskStore s), eventStore := put_event e (eventStore s)\<rparr>"

section \<open>Creation\<close>

text \<open>
  \<open>decodeJSONValue\<close> with a destination of type \<open>any\<close>: one JSON value and nothing after it,
  numbers kept as their literals.
\<close>

definition decodeJSONValue :: "raw_json \<Rightarrow> string jval option" where
  "decodeJSONValue raw = (case parse_json raw of None \<Rightarrow> None | Some v \<Rightarrow> canon Some v)"

definition SameTaskCreationRequest :: "Task option \<Rightarrow> Task option \<Rightarrow> bool" where
  "SameTaskCreationRequest left right =
     (case (left, right) of
        (Some l, Some r) \<Rightarrow>
          if IdempotencyKey l \<noteq> IdempotencyKey r \<or> Workflow l \<noteq> Workflow r
             \<or> MaxRetries l \<noteq> MaxRetries r then False
          else (case decodeJSONValue (Input l) of
              None \<Rightarrow> Input l = Input r
            | Some lv \<Rightarrow>
                (case decodeJSONValue (Input r) of None \<Rightarrow> False | Some rv \<Rightarrow> lv = rv))
      | _ \<Rightarrow> False)"

record TaskCreationResult =
  Task_cr :: "Task option"
  Created_cr :: bool

definition CreateTaskWithEvent ::
  "context_err \<Rightarrow> Task option \<Rightarrow> TaskEvent option \<Rightarrow> MemoryStores \<Rightarrow>
     TaskCreationResult result \<times> MemoryStores" where
  "CreateTaskWithEvent ctx task event s =
     (case ctx of Some e \<Rightarrow> (Inl e, s) | None \<Rightarrow>
     (case task of None \<Rightarrow> (Inl ErrNilTask, s) | Some t \<Rightarrow>
     (case event of None \<Rightarrow> (Inl ErrNilEvent, s) | Some ev \<Rightarrow>
      if TaskID_ev ev \<noteq> ID t then (Inl ErrTaskEventMismatch, s)
      else
        let indexKey = idempotencyIndexKey (Workflow t) (IdempotencyKey t);
            known = (if IdempotencyKey t \<noteq> []
                     then taskIDsByIdempotencyKey (taskStore s) indexKey else None)
        in case known of
             Some taskID \<Rightarrow>
               let existing = stored_task s taskID in
               if \<not> SameTaskCreationRequest existing (Some t) then (Inl ErrIdempotencyConflict, s)
               else (Inr \<lparr>Task_cr = existing, Created_cr = False\<rparr>, s)
           | None \<Rightarrow>
               if stored_task s (ID t) \<noteq> None then (Inl ErrTaskAlreadyExists, s)
               else if event_known s (ID_ev ev) then (Inl ErrEventAlreadyExists, s)
               else (Inr \<lparr>Task_cr = Some t, Created_cr = True\<rparr>,
                     s\<lparr>taskStore := put_key t (put_task (ID t) t (taskStore s)),
                       eventStore := put_event ev (eventStore s)\<rparr>))))"

section \<open>Transitions\<close>

definition ClaimNextWithEvent ::
  "task_range \<Rightarrow> task_range \<Rightarrow> context_err \<Rightarrow> ClaimOptions \<Rightarrow> string \<Rightarrow> MemoryStores \<Rightarrow>
     Task result \<times> MemoryStores" where
  "ClaimNextWithEvent rng1 rng2 ctx o1 eventID s =
     (case ctx of Some e \<Rightarrow> (Inl e, s) | None \<Rightarrow>
     (case Validate_claim o1 of Some e \<Rightarrow> (Inl e, s) | None \<Rightarrow>
      if eventID = [] then (Inl ErrInvalidEventID, s)
      else if event_known s eventID then (Inl ErrEventAlreadyExists, s)
      else
        (case claimNextLocked rng1 rng2 o1 (taskStore s) of
           (Inl e, ts) \<Rightarrow> (Inl e, s\<lparr>taskStore := ts\<rparr>)
         | (Inr (t, previous, claimKind), ts) \<Rightarrow>
             (case NewTaskClaimedEvent eventID (Some t) claimKind (Now_co o1) of
                Inl e \<Rightarrow> (Inl e, s\<lparr>taskStore := put_task (ID previous) previous ts\<rparr>)
              | Inr ev \<Rightarrow>
                  (Inr t, s\<lparr>taskStore := ts, eventStore := put_event ev (eventStore s)\<rparr>)))))"

definition FailNextExpiredWithEvent ::
  "task_range \<Rightarrow> context_err \<Rightarrow> time \<Rightarrow> string \<Rightarrow> MemoryStores \<Rightarrow> Task result \<times> MemoryStores" where
  "FailNextExpiredWithEvent rng ctx now eventID s =
     (case ctx of Some e \<Rightarrow> (Inl e, s) | None \<Rightarrow>
      if IsZero now then (Inl ErrInvalidCleanupTime, s)
      else if eventID = [] then (Inl ErrInvalidEventID, s)
      else if event_known s eventID then (Inl ErrEventAlreadyExists, s)
      else
        (case failNextExpiredLocked rng now (taskStore s) of
           (Inl e, ts) \<Rightarrow> (Inl e, s\<lparr>taskStore := ts\<rparr>)
         | (Inr (t, previous), ts) \<Rightarrow>
             (case NewTaskExpiredEvent eventID (Some t) now of
                Inl e \<Rightarrow> (Inl e, s\<lparr>taskStore := put_task (ID previous) previous ts\<rparr>)
              | Inr ev \<Rightarrow>
                  (Inr t, s\<lparr>taskStore := ts, eventStore := put_event ev (eventStore s)\<rparr>))))"

definition UpdateTaskWithEvent ::
  "context_err \<Rightarrow> Task option \<Rightarrow> TaskEvent option \<Rightarrow> MemoryStores \<Rightarrow>
     error option \<times> MemoryStores" where
  "UpdateTaskWithEvent ctx task event s =
     (case ctx of Some e \<Rightarrow> (Some e, s) | None \<Rightarrow>
     (case task of None \<Rightarrow> (Some ErrNilTask, s) | Some t \<Rightarrow>
     (case event of None \<Rightarrow> (Some ErrNilEvent, s) | Some ev \<Rightarrow>
      if TaskID_ev ev \<noteq> ID t then (Some ErrTaskEventMismatch, s)
      else
        (case stored_task s (ID t) of
           None \<Rightarrow> (Some ErrTaskNotFound, s)
         | Some stored \<Rightarrow>
             if Version stored \<noteq> Version t then (Some ErrTaskConflict, s)
             else if event_known s (ID_ev ev) then (Some ErrEventAlreadyExists, s)
             else (None, commit (ID t) (t\<lparr>Version := Version t + 1\<rparr>) ev s)))))"

section \<open>Cancellation\<close>

record TaskCancellationResult =
  Task_ca :: Task
  Canceled_ca :: bool

definition CancelTaskWithEvent ::
  "context_err \<Rightarrow> string \<Rightarrow> string \<Rightarrow> time \<Rightarrow> MemoryStores \<Rightarrow>
     TaskCancellationResult result \<times> MemoryStores" where
  "CancelTaskWithEvent ctx taskID eventID now s =
     (case ctx of Some e \<Rightarrow> (Inl e, s) | None \<Rightarrow>
      if taskID = [] then (Inl ErrTaskNotFound, s)
      else if eventID = [] then (Inl ErrInvalidEventID, s)
      else if IsZero now then (Inl ErrInvalidCancellationTime, s)
      else
        (case stored_task s taskID of
           None \<Rightarrow> (Inl ErrTaskNotFound, s)
         | Some stored \<Rightarrow>
             if Status stored = TaskStatusCanceled then
               (Inr \<lparr>Task_ca = stored, Canceled_ca = False\<rparr>, s)
             else if Status stored \<noteq> TaskStatusQueued \<and> Status stored \<noteq> TaskStatusRetrying
               \<and> Status stored \<noteq> TaskStatusRunning then (Inl ErrTaskNotCancelable, s)
             else if event_known s eventID then (Inl ErrEventAlreadyExists, s)
             else
               (case MoveTo (Some stored) TaskStatusCanceled now of
                  Inl e \<Rightarrow> (Inl e, s)
                | Inr t \<Rightarrow>
                    let t1 = t\<lparr>Version := Version t + 1\<rparr> in
                    (case NewTaskCanceledEvent eventID (Some t1) now of
                       Inl e \<Rightarrow> (Inl e, s\<lparr>taskStore := put_task taskID stored (taskStore s)\<rparr>)
                     | Inr ev \<Rightarrow>
                         (Inr \<lparr>Task_ca = t1, Canceled_ca = True\<rparr>, commit taskID t1 ev s)))))"

end
