(* ===== verification/DomainFacts.thy ===== *)
theory DomainFacts
  imports Domain
begin

text \<open>
  What the domain operations keep: the well-formedness of a task (\<open>task_wf\<close>), the fields
  fixed at creation (\<open>task_frame\<close>), the status graph as a relation, and the meaning of an
  event for the status of its task (\<open>event_status\<close>).
\<close>

section \<open>Well-formed tasks\<close>

definition task_wf :: "Task \<Rightarrow> bool" where
  "task_wf t \<longleftrightarrow>
     ID t \<noteq> [] \<and> Workflow t \<noteq> [] \<and> Input t \<noteq> [] \<and>
     (\<forall>s. Status t \<noteq> OtherStatus s) \<and>
     (LeaseExpiresAt t \<noteq> None \<longleftrightarrow> Status t = TaskStatusRunning) \<and>
     (LeaseOwner t \<noteq> [] \<longleftrightarrow> Status t = TaskStatusRunning) \<and>
     (Status t = TaskStatusRunning \<longrightarrow> StartedAt t \<noteq> None) \<and>
     (FinishedAt t \<noteq> None \<longleftrightarrow> Status t \<in> terminalStatuses) \<and>
     0 \<le> RetryCount t \<and> RetryCount t \<le> MaxRetries t \<and> in_i64 (MaxRetries t) \<and>
     0 \<le> Progress t \<and> Progress t \<le> 100 \<and>
     (Status t = TaskStatusRetrying \<longrightarrow> 0 < RetryCount t) \<and>
     LeaseToken t = [] \<and> TaskID t = [] \<and> LeaseUntil t = None"

text \<open>The fields that no operation after the creation may change.\<close>

definition task_frame :: "Task \<Rightarrow> Task \<Rightarrow> bool" where
  "task_frame t u \<longleftrightarrow>
     ID u = ID t \<and> IdempotencyKey u = IdempotencyKey t \<and> Workflow u = Workflow t \<and>
     Input u = Input t \<and> MaxRetries u = MaxRetries t \<and> CreatedAt u = CreatedAt t \<and>
     (StartedAt t \<noteq> None \<longrightarrow> StartedAt u = StartedAt t)"

lemma task_frame_refl [simp]: "task_frame t t"
  by (simp add: task_frame_def)

lemma task_frame_trans: "task_frame t u \<Longrightarrow> task_frame u v \<Longrightarrow> task_frame t v"
  by (auto simp: task_frame_def)

lemma terminal_mem [simp]:
  "TaskStatusSucceeded \<in> terminalStatuses" "TaskStatusPartial \<in> terminalStatuses"
  "TaskStatusFailed \<in> terminalStatuses" "TaskStatusCanceled \<in> terminalStatuses"
  "TaskStatusQueued \<notin> terminalStatuses" "TaskStatusRunning \<notin> terminalStatuses"
  "TaskStatusRetrying \<notin> terminalStatuses" "OtherStatus s \<notin> terminalStatuses"
  by (simp_all add: terminalStatuses_def)

lemma terminal_no_transition: "st \<in> terminalStatuses \<Longrightarrow> \<not> CanTransition st next"
  by (auto simp: terminalStatuses_def)

lemma task_wf_retry_i64 [go_simps]:
  "task_wf t \<Longrightarrow> RetryCount t < MaxRetries t \<Longrightarrow> i64 (RetryCount t + 1) = RetryCount t + 1"
  by (rule i64_id) (auto simp: task_wf_def in_i64_def)

section \<open>The operations\<close>

lemma NewTask_wf:
  assumes "NewTask tid w i n now = Inr t" and "in_i64 n"
  shows "task_wf t"
    and "ID t = tid" "Workflow t = w" "MaxRetries t = n" "Status t = TaskStatusQueued"
      "Version t = 0" "RetryCount t = 0" "Progress t = 0" "IdempotencyKey t = []"
      "CreatedAt t = now" "AvailableAt t = now" "Input t = (if i = [] then ''{}'' else i)"
  using assms by (auto simp: NewTask_def task_wf_def split: if_splits)

lemma task_wf_IdempotencyKey [simp]: "task_wf (t\<lparr>IdempotencyKey := k\<rparr>) \<longleftrightarrow> task_wf t"
  by (simp add: task_wf_def)

lemma task_wf_Version [simp]: "task_wf (t\<lparr>Version := v\<rparr>) \<longleftrightarrow> task_wf t"
  by (simp add: task_wf_def)

lemma task_wf_LastHeartbeatAt [simp]: "task_wf (t\<lparr>LastHeartbeatAt := v\<rparr>) \<longleftrightarrow> task_wf t"
  by (simp add: task_wf_def)

lemma task_wf_UpdatedAt [simp]: "task_wf (t\<lparr>UpdatedAt := v\<rparr>) \<longleftrightarrow> task_wf t"
  by (simp add: task_wf_def)

lemma task_wf_ErrorMessage [simp]: "task_wf (t\<lparr>ErrorMessage := m\<rparr>) \<longleftrightarrow> task_wf t"
  by (simp add: task_wf_def)

lemma task_wf_Result [simp]: "task_wf (t\<lparr>Result := r\<rparr>) \<longleftrightarrow> task_wf t"
  by (simp add: task_wf_def)

lemma task_wf_Progress: "task_wf t \<Longrightarrow> 0 \<le> p \<Longrightarrow> p \<le> 100 \<Longrightarrow> task_wf (t\<lparr>Progress := p\<rparr>)"
  by (simp add: task_wf_def)

lemma MoveTo_Inr [go_dest]:
  "MoveTo (Some t) next now = Inr u \<Longrightarrow>
     CanTransition (Status t) next \<and> u = enter_status next now (t\<lparr>Status := next, UpdatedAt := now\<rparr>)"
  by (simp add: MoveTo_def split: if_splits)

lemma MoveTo_eq: 
  "CanTransition (Status t) next \<Longrightarrow>
     MoveTo (Some t) next now = Inr (enter_status next now (t\<lparr>Status := next, UpdatedAt := now\<rparr>))"
  by (simp add: MoveTo_def)

lemma enter_status_fields [simp]:
  "ID (enter_status next now t) = ID t"
  "IdempotencyKey (enter_status next now t) = IdempotencyKey t"
  "Workflow (enter_status next now t) = Workflow t"
  "Status (enter_status next now t) = Status t"
  "Input (enter_status next now t) = Input t"
  "Result (enter_status next now t) = Result t"
  "ErrorMessage (enter_status next now t) = ErrorMessage t"
  "Progress (enter_status next now t) = Progress t"
  "RetryCount (enter_status next now t) = RetryCount t"
  "MaxRetries (enter_status next now t) = MaxRetries t"
  "AvailableAt (enter_status next now t) = AvailableAt t"
  "Version (enter_status next now t) = Version t"
  "LastHeartbeatAt (enter_status next now t) = LastHeartbeatAt t"
  "CreatedAt (enter_status next now t) = CreatedAt t"
  "UpdatedAt (enter_status next now t) = UpdatedAt t"
  by (simp_all add: enter_status_def split: TaskStatus.splits)

lemma MoveTo_frame: "MoveTo (Some t) next now = Inr u \<Longrightarrow> task_frame t u"
  by (auto dest!: MoveTo_Inr simp: task_frame_def enter_status_def split: TaskStatus.splits)

text \<open>
  \<open>MoveTo\<close> to a terminal status leaves a well-formed, finished task.  A move to running still
  lacks its lease, and a move to retrying its raised counter; the operations that make those
  moves add them.
\<close>

lemma MoveTo_terminal_wf:
  assumes "MoveTo (Some t) next now = Inr u" and "task_wf t" and "next \<in> terminalStatuses"
  shows "task_wf u \<and> Status u = next \<and> FinishedAt u = Some now"
proof -
  from MoveTo_Inr [OF assms(1)]
  have u: "CanTransition (Status t) next" "u = enter_status next now (t\<lparr>Status := next, UpdatedAt := now\<rparr>)"
    by auto
  from assms(2,3) u show ?thesis
    by (cases "next") (auto simp: task_wf_def enter_status_def)
qed

lemma ScheduleRetry_Inr [go_dest]:
  assumes "ScheduleRetry (Some t) now at = Inr u"
  shows "now < at \<and> RetryCount t < MaxRetries t \<and> CanTransition (Status t) TaskStatusRetrying \<and>
    u = t\<lparr>Status := TaskStatusRetrying, UpdatedAt := now, LeaseOwner := [], LeaseExpiresAt := None,
          RetryCount := i64 (RetryCount t + 1), AvailableAt := at\<rparr>"
  using assms
  by (cases "CanTransition (Status t) TaskStatusRetrying")
    (simp_all add: ScheduleRetry_def MoveTo_def enter_status_def split: if_splits)

lemma ScheduleRetry_wf:
  assumes "ScheduleRetry (Some t) now at = Inr u" and "task_wf t"
  shows "task_wf u \<and> RetryCount u = RetryCount t + 1 \<and> Status t = TaskStatusRunning"
proof -
  from ScheduleRetry_Inr [OF assms(1)]
  have u: "RetryCount t < MaxRetries t" "CanTransition (Status t) TaskStatusRetrying"
    "u = t\<lparr>Status := TaskStatusRetrying, UpdatedAt := now, LeaseOwner := [], LeaseExpiresAt := None,
          RetryCount := i64 (RetryCount t + 1), AvailableAt := at\<rparr>" by auto
  from u(2) have run: "Status t = TaskStatusRunning" by (cases "Status t") auto
  from task_wf_retry_i64 [OF assms(2) u(1)] u(1,3) run assms(2) show ?thesis
    by (simp add: task_wf_def)
qed

lemma RequeueForRelease_Inr [go_dest]:
  "RequeueForRelease (Some t) now = Inr u \<Longrightarrow>
     Status t = TaskStatusRunning \<and> now \<noteq> 0 \<and>
     u = t\<lparr>Status := TaskStatusQueued, Progress := 0, ErrorMessage := [],
           AvailableAt := now, LeaseOwner := [], LeaseExpiresAt := None, UpdatedAt := now\<rparr>"
  by (simp add: RequeueForRelease_def IsZero_def split: if_splits)

lemma RequeueForRelease_wf:
  assumes "RequeueForRelease (Some t) now = Inr u" and "task_wf t"
  shows "task_wf u \<and> Status u = TaskStatusQueued"
  using RequeueForRelease_Inr [OF assms(1)] assms(2) by (simp add: task_wf_def)

section \<open>The status an event stands for\<close>

fun event_status :: "EventType \<Rightarrow> TaskStatus option" where
  "event_status EventTaskCreated = Some TaskStatusQueued"
| "event_status EventTaskStarted = Some TaskStatusRunning"
| "event_status EventTaskRetryStarted = Some TaskStatusRunning"
| "event_status EventTaskRecovered = Some TaskStatusRunning"
| "event_status EventTaskRetrying = Some TaskStatusRetrying"
| "event_status EventTaskReleased = Some TaskStatusQueued"
| "event_status EventTaskProgress = Some TaskStatusRunning"
| "event_status EventTaskSucceeded = Some TaskStatusSucceeded"
| "event_status EventTaskPartial = Some TaskStatusPartial"
| "event_status EventTaskFailed = Some TaskStatusFailed"
| "event_status EventTaskCanceled = Some TaskStatusCanceled"
| "event_status _ = None"

definition event_retries :: "TaskEvent \<Rightarrow> int" where
  "event_retries e = (if Type_ev e \<in> {EventTaskRetrying, EventTaskRecovered} then 1 else 0)"

text \<open>
  The events of a task tell its status (by the last event), its progress, and how many
  retries it has used (retries scheduled and recoveries after a lost lease).
\<close>

definition log_matches :: "TaskEvent list \<Rightarrow> Task \<Rightarrow> bool" where
  "log_matches es t \<longleftrightarrow>
     es \<noteq> [] \<and>
     event_status (Type_ev (last es)) = Some (Status t) \<and>
     Progress_ev (last es) = Progress t \<and>
     sum_list (map event_retries es) = RetryCount t \<and>
     of_nat (length es) = Version t + 1 \<and>
     (\<forall>e \<in> set es. TaskID_ev e = ID t)"

lemma log_matches_snoc:
  assumes "log_matches es t"
    and "event_status (Type_ev e) = Some (Status u)" "Progress_ev e = Progress u"
      "RetryCount u = RetryCount t + event_retries e" "Version u = Version t + 1"
      "TaskID_ev e = ID t" "ID u = ID t"
  shows "log_matches (es @ [e]) u"
  using assms by (auto simp: log_matches_def algebra_simps)

text \<open>What the event constructors put into an event.\<close>

lemma NewTaskEvent_Inr [go_dest]:
  "NewTaskEvent eid tid ty msg pl pr now = Inr e \<Longrightarrow>
     eid \<noteq> [] \<and> tid \<noteq> [] \<and> 0 \<le> pr \<and> pr \<le> 100 \<and> ID_ev e = eid \<and> TaskID_ev e = tid \<and>
     Type_ev e = ty \<and> Message_ev e = msg \<and> Progress_ev e = pr \<and> CreatedAt_ev e = now \<and>
     Payload_ev e = (if pl = [] then ''{}'' else pl)"
  by (auto simp: NewTaskEvent_def split: if_splits)

lemma NewTaskClaimedEvent_Inr [go_dest]:
  "NewTaskClaimedEvent eid (Some t) kind now = Inr e \<Longrightarrow>
     eid \<noteq> [] \<and> ID_ev e = eid \<and> TaskID_ev e = ID t \<and> Progress_ev e = Progress t \<and>
     CreatedAt_ev e = now \<and>
     Type_ev e = (case kind of ClaimInitial \<Rightarrow> EventTaskStarted | ClaimRetry \<Rightarrow> EventTaskRetryStarted
        | _ \<Rightarrow> EventTaskRecovered)"
  by (auto simp: NewTaskClaimedEvent_def claim_event_kind_def dest!: NewTaskEvent_Inr
      split: sum.splits prod.splits ClaimKind.splits)

lemma NewTaskExpiredEvent_Inr [go_dest]:
  "NewTaskExpiredEvent eid (Some t) now = Inr e \<Longrightarrow>
     eid \<noteq> [] \<and> ID_ev e = eid \<and> TaskID_ev e = ID t \<and> Progress_ev e = Progress t \<and>
     CreatedAt_ev e = now \<and> Type_ev e = EventTaskFailed"
  by (auto simp: NewTaskExpiredEvent_def dest!: NewTaskEvent_Inr)

lemma NewTaskReleasedEvent_Inr [go_dest]:
  "NewTaskReleasedEvent eid (Some t) now = Inr e \<Longrightarrow>
     eid \<noteq> [] \<and> ID_ev e = eid \<and> TaskID_ev e = ID t \<and> Progress_ev e = Progress t \<and>
     CreatedAt_ev e = now \<and> Type_ev e = EventTaskReleased"
  by (auto simp: NewTaskReleasedEvent_def dest!: NewTaskEvent_Inr split: if_splits)

lemma NewTaskCanceledEvent_Inr [go_dest]:
  "NewTaskCanceledEvent eid (Some t) now = Inr e \<Longrightarrow>
     eid \<noteq> [] \<and> ID_ev e = eid \<and> TaskID_ev e = ID t \<and> Progress_ev e = Progress t \<and>
     CreatedAt_ev e = now \<and> Type_ev e = EventTaskCanceled"
  by (auto simp: NewTaskCanceledEvent_def dest!: NewTaskEvent_Inr split: if_splits)

lemma NewTaskRetryingEvent_Inr [go_dest]:
  "NewTaskRetryingEvent eid (Some t) code d now = Inr e \<Longrightarrow>
     eid \<noteq> [] \<and> ID_ev e = eid \<and> TaskID_ev e = ID t \<and> Progress_ev e = Progress t \<and>
     CreatedAt_ev e = now \<and> Type_ev e = EventTaskRetrying \<and> code \<noteq> [] \<and> 0 < d"
  by (auto simp: NewTaskRetryingEvent_def dest!: NewTaskEvent_Inr split: if_splits sum.splits)

end
