(* ===== verification/StoreFacts.thy ===== *)
theory StoreFacts
  imports TransitionStore DomainFacts
begin

text \<open>
  What the memory stores keep.  \<open>stores_wf\<close> says that the two maps of the task store and
  the two indexes of the event store are consistent, that every stored task is well-formed
  and that its event log matches it.  For each operation a case lemma lists its outcomes:
  an error that leaves the stores as they were, or one committed change.
\<close>

section \<open>Lookups after writes\<close>

lemma put_task_simps [simp]:
  "lookup_task (put_task k t s) = (lookup_task s)(k \<mapsto> t)"
  "taskIDsByIdempotencyKey (put_task k t s) = taskIDsByIdempotencyKey s"
  "gomap_wf (tasks s) \<Longrightarrow> gomap_wf (tasks (put_task k t s))"
  by (simp_all add: put_task_def map_of_update)

lemma put_key_simps [simp]:
  "tasks (put_key t s) = tasks s"
  "taskIDsByIdempotencyKey (put_key t s) =
     (if IdempotencyKey t = [] then taskIDsByIdempotencyKey s
      else (taskIDsByIdempotencyKey s)(idempotencyIndexKey (Workflow t) (IdempotencyKey t) \<mapsto> ID t))"
  by (simp_all add: put_key_def)

lemma put_event_simps [simp]:
  "eventsByID (put_event e s) = (eventsByID s)(ID_ev e \<mapsto> e)"
  "events_of (put_event e s) tid = (if tid = TaskID_ev e then events_of s tid @ [e] else events_of s tid)"
  by (simp_all add: put_event_def events_of_def)

lemma commit_simps [simp]:
  "stored_task (commit k t e s) = (stored_task s)(k \<mapsto> t)"
  "taskIDsByIdempotencyKey (taskStore (commit k t e s)) = taskIDsByIdempotencyKey (taskStore s)"
  "gomap_wf (tasks (taskStore s)) \<Longrightarrow> gomap_wf (tasks (taskStore (commit k t e s)))"
  "eventStore (commit k t e s) = put_event e (eventStore s)"
  by (simp_all add: commit_def)

text \<open>Writing back the value an entry had undoes an assignment.\<close>

lemma put_task_undo:
  assumes "lookup_task s k = Some t0" and "gomap_wf (tasks s)"
  shows "put_task k t0 (put_task k t s) = s"
proof -
  have "AList.update k t0 (AList.update k t m) = m" if "map_of m k = Some t0" "distinct (map fst m)" for m
    using that by (induction m) (auto split: if_splits simp: map_of_eq_None_iff)
  with assms show ?thesis by (simp add: put_task_def gomap_wf_def)
qed

lemma put_task_same:
  assumes a: "lookup_task s k = Some t" "gomap_wf (tasks s)"
  shows "put_task k t s = s"
proof -
  have "AList.update k t m = m" if "map_of m k = Some t" "distinct (map fst m)" for m
    using that by (induction m) (auto split: if_splits simp: map_of_eq_None_iff)
  with a show ?thesis by (simp add: put_task_def gomap_wf_def)
qed

section \<open>The invariant\<close>

definition task_map_wf :: "MemoryTaskStore \<Rightarrow> bool" where
  "task_map_wf s \<longleftrightarrow>
     gomap_wf (tasks s) \<and>
     (\<forall>k t. lookup_task s k = Some t \<longrightarrow> ID t = k \<and> task_wf t)"

text \<open>
  The idempotency index holds exactly the stored tasks that have a key.
\<close>

definition key_index_wf :: "MemoryTaskStore \<Rightarrow> bool" where
  "key_index_wf s \<longleftrightarrow>
     (\<forall>k tid. taskIDsByIdempotencyKey s k = Some tid \<longleftrightarrow>
        (\<exists>t. lookup_task s tid = Some t \<and> IdempotencyKey t \<noteq> [] \<and>
             k = idempotencyIndexKey (Workflow t) (IdempotencyKey t)))"

definition event_index_wf :: "MemoryEventStore \<Rightarrow> bool" where
  "event_index_wf s \<longleftrightarrow>
     (\<forall>eid e. eventsByID s eid = Some e \<longleftrightarrow>
        ID_ev e = eid \<and> (\<exists>tid. e \<in> set (events_of s tid))) \<and>
     (\<forall>tid e. e \<in> set (events_of s tid) \<longrightarrow> TaskID_ev e = tid) \<and>
     (\<forall>tid. distinct (map ID_ev (events_of s tid)))"

definition logs_wf :: "MemoryStores \<Rightarrow> bool" where
  "logs_wf s \<longleftrightarrow>
     (\<forall>tid. case stored_task s tid of
        None \<Rightarrow> stored_events s tid = []
      | Some t \<Rightarrow> log_matches (stored_events s tid) t)"

definition stores_wf :: "MemoryStores \<Rightarrow> bool" where
  "stores_wf s \<longleftrightarrow>
     task_map_wf (taskStore s) \<and> key_index_wf (taskStore s) \<and> event_index_wf (eventStore s) \<and>
     logs_wf s"

lemma stores_wf_lookup:
  assumes "stores_wf s" and "stored_task s tid = Some t"
  shows "ID t = tid" "task_wf t" "log_matches (stored_events s tid) t"
  using assms by (auto simp: stores_wf_def task_map_wf_def logs_wf_def split: option.splits)

lemma stores_wf_gomap [simp]: "stores_wf s \<Longrightarrow> gomap_wf (tasks (taskStore s))"
  by (simp add: stores_wf_def task_map_wf_def)

lemma stores_wf_entry:
  "stores_wf s \<Longrightarrow> (k, t) \<in> set (tasks (taskStore s)) \<Longrightarrow> stored_task s k = Some t \<and> ID t = k"
  using stores_wf_lookup(1) [of s k t] by (simp add: gomap_in_set [symmetric])

lemma NewMemoryStores_wf: "stores_wf NewMemoryStores"
  by (simp add: stores_wf_def task_map_wf_def key_index_wf_def event_index_wf_def logs_wf_def
      events_of_def NewMemoryStores_def NewMemoryTaskStore_def NewMemoryEventStore_def)

lemma put_event_logged:
  "(\<exists>tid. x \<in> set (events_of (put_event e s) tid)) \<longleftrightarrow> x = e \<or> (\<exists>tid. x \<in> set (events_of s tid))"
proof (cases "x = e")
  case False
  then have "x \<in> set (events_of (put_event e s) tid) \<longleftrightarrow> x \<in> set (events_of s tid)" for tid
    by simp
  with False show ?thesis by simp
qed auto

lemma logs_wf_iff:
  "logs_wf s \<longleftrightarrow>
     (\<forall>tid. stored_task s tid = None \<longrightarrow> stored_events s tid = []) \<and>
     (\<forall>tid t. stored_task s tid = Some t \<longrightarrow> log_matches (stored_events s tid) t)"
proof -
  have "(case stored_task s tid of None \<Rightarrow> stored_events s tid = []
      | Some t \<Rightarrow> log_matches (stored_events s tid) t) \<longleftrightarrow>
    (stored_task s tid = None \<longrightarrow> stored_events s tid = []) \<and>
    (\<forall>t. stored_task s tid = Some t \<longrightarrow> log_matches (stored_events s tid) t)" for tid
    by (cases "stored_task s tid") simp_all
  then show ?thesis unfolding logs_wf_def by simp blast
qed

text \<open>Appending one event with a new id keeps the two indexes of the event store consistent.\<close>

lemma event_index_wf_put:
  assumes "event_index_wf s" and "eventsByID s (ID_ev e) = None"
  shows "event_index_wf (put_event e s)"
proof -
  from assms(1) have idx: "\<And>eid x. eventsByID s eid = Some x \<longleftrightarrow> ID_ev x = eid \<and> (\<exists>tid. x \<in> set (events_of s tid))"
    and own: "\<And>tid x. x \<in> set (events_of s tid) \<Longrightarrow> TaskID_ev x = tid"
    and dist: "\<And>tid. distinct (map ID_ev (events_of s tid))"
    by (auto simp: event_index_wf_def)
  have fresh: "x \<in> set (events_of s tid) \<Longrightarrow> ID_ev x \<noteq> ID_ev e" for x tid
    using idx [of "ID_ev x" x] assms(2) by auto
  show ?thesis
    unfolding event_index_wf_def
  proof (intro conjI allI impI)
    fix eid x
    show "(eventsByID (put_event e s) eid = Some x) =
        (ID_ev x = eid \<and> (\<exists>tid. x \<in> set (events_of (put_event e s) tid)))"
      using idx [of eid x] fresh [of x] unfolding put_event_logged by auto
  next
    fix tid x
    assume "x \<in> set (events_of (put_event e s) tid)"
    then show "TaskID_ev x = tid" using own by (auto split: if_splits)
  next
    fix tid
    show "distinct (map ID_ev (events_of (put_event e s) tid))"
      using dist [of tid] fresh [of _ tid] by (auto simp: image_iff) (metis fresh)
  qed
qed

text \<open>
  A commit of a well-formed successor of the stored task, with an event that tells its new
  state, keeps the invariant.
\<close>

lemma commit_wf:
  assumes wf: "stores_wf s" and t0: "stored_task s tid = Some t0"
    and t: "task_wf t" "task_frame t0 t" "Version t = Version t0 + 1"
    and e: "\<not> event_known s (ID_ev e)" "TaskID_ev e = tid" "event_status (Type_ev e) = Some (Status t)"
      "Progress_ev e = Progress t" "RetryCount t = RetryCount t0 + event_retries e"
  shows "stores_wf (commit tid t e s)"
proof -
  note l0 = stores_wf_lookup [OF wf t0]
  from t(2) l0(1) have tid: "ID t = tid" "IdempotencyKey t = IdempotencyKey t0" "Workflow t = Workflow t0"
    by (simp_all add: task_frame_def)
  have "task_map_wf (taskStore (commit tid t e s))"
    using wf t(1) tid(1) by (auto simp: stores_wf_def task_map_wf_def)
  moreover have "key_index_wf (taskStore (commit tid t e s))"
    using wf t0 tid by (auto simp: stores_wf_def key_index_wf_def)
  moreover have "event_index_wf (eventStore (commit tid t e s))"
    using wf e(1) by (simp add: stores_wf_def event_index_wf_put)
  moreover have "logs_wf (commit tid t e s)"
    using wf log_matches_snoc [OF l0(3) e(3,4,5) t(3)] e(2) tid(1) l0(1)
    by (simp add: stores_wf_def logs_wf_iff)
  ultimately show ?thesis by (simp add: stores_wf_def)
qed

section \<open>Outcomes of the operations\<close>

lemma UpdateTaskWithEvent_cases:
  assumes "UpdateTaskWithEvent ctx task event s = (r, s')"
  obtains (error) e where "r = Some e" "s' = s"
  | (commit) t ev st where "r = None" "ctx = None" "task = Some t" "event = Some ev" "TaskID_ev ev = ID t"
      "stored_task s (ID t) = Some st" "Version st = Version t" "\<not> event_known s (ID_ev ev)"
      "s' = commit (ID t) (t\<lparr>Version := Version t + 1\<rparr>) ev s"
proof -
  from assms have "(\<exists>e. r = Some e \<and> s' = s) \<or>
    (\<exists>t ev st. r = None \<and> ctx = None \<and> task = Some t \<and> event = Some ev \<and> TaskID_ev ev = ID t \<and>
      stored_task s (ID t) = Some st \<and> Version st = Version t \<and> \<not> event_known s (ID_ev ev) \<and>
      s' = TransitionStore.commit (ID t) (t\<lparr>Version := Version t + 1\<rparr>) ev s)"
    by (auto simp: UpdateTaskWithEvent_def split: option.splits if_splits)
  with error commit show ?thesis by blast
qed

lemma CreateTaskWithEvent_cases:
  assumes "CreateTaskWithEvent ctx task event s = (r, s')"
  obtains (error) e where "r = Inl e" "s' = s"
  | (replay) t existing tid where "r = Inr \<lparr>Task_cr = existing, Created_cr = False\<rparr>" "s' = s"
      "task = Some t" "IdempotencyKey t \<noteq> []"
      "taskIDsByIdempotencyKey (taskStore s) (idempotencyIndexKey (Workflow t) (IdempotencyKey t)) = Some tid"
      "existing = stored_task s tid" "SameTaskCreationRequest existing (Some t)"
  | (created) t ev where "r = Inr \<lparr>Task_cr = Some t, Created_cr = True\<rparr>" "task = Some t" "event = Some ev"
      "TaskID_ev ev = ID t" "stored_task s (ID t) = None" "\<not> event_known s (ID_ev ev)"
      "IdempotencyKey t \<noteq> [] \<Longrightarrow>
         taskIDsByIdempotencyKey (taskStore s) (idempotencyIndexKey (Workflow t) (IdempotencyKey t)) = None"
      "s' = s\<lparr>taskStore := put_key t (put_task (ID t) t (taskStore s)),
              eventStore := put_event ev (eventStore s)\<rparr>"
proof (cases "ctx = None \<and> task \<noteq> None \<and> event \<noteq> None \<and> TaskID_ev (the event) = ID (the task)")
  case False
  then have "\<exists>e. r = Inl e \<and> s' = s"
    using assms by (auto simp: CreateTaskWithEvent_def split: option.splits if_splits)
  with error show ?thesis by blast
next
  case True
  then obtain t ev where te: "ctx = None" "task = Some t" "event = Some ev" "TaskID_ev ev = ID t" by auto
  define known where "known = (if IdempotencyKey t \<noteq> [] then taskIDsByIdempotencyKey (taskStore s)
      (idempotencyIndexKey (Workflow t) (IdempotencyKey t)) else None)"
  show ?thesis
  proof (cases known)
    case None
    with te assms have "(\<exists>e. r = Inl e \<and> s' = s) \<or>
      (stored_task s (ID t) = None \<and> \<not> event_known s (ID_ev ev) \<and>
       r = Inr \<lparr>Task_cr = Some t, Created_cr = True\<rparr> \<and>
       s' = s\<lparr>taskStore := put_key t (put_task (ID t) t (taskStore s)),
              eventStore := put_event ev (eventStore s)\<rparr>)"
      unfolding CreateTaskWithEvent_def known_def [symmetric] by (auto simp: Let_def known_def split: if_splits)
    with te None error created [of t ev] show ?thesis unfolding known_def by metis
  next
    case (Some tid)
    with te assms have "(\<exists>e. r = Inl e \<and> s' = s) \<or>
      (SameTaskCreationRequest (stored_task s tid) (Some t) \<and> s' = s \<and>
       r = Inr \<lparr>Task_cr = stored_task s tid, Created_cr = False\<rparr>)"
      by (auto simp: CreateTaskWithEvent_def Let_def known_def split: if_splits)
    with te Some error replay [of "stored_task s tid" t tid] show ?thesis
      unfolding known_def by (metis option.distinct(1))
  qed
qed

lemma CancelTaskWithEvent_cases:
  assumes "CancelTaskWithEvent ctx tid eid now s = (r, s')" and wf: "stores_wf s"
  obtains (error) e where "r = Inl e" "s' = s"
  | (replay) t where "r = Inr \<lparr>Task_ca = t, Canceled_ca = False\<rparr>" "s' = s"
      "stored_task s tid = Some t" "Status t = TaskStatusCanceled"
  | (canceled) t0 t ev where "r = Inr \<lparr>Task_ca = t\<lparr>Version := Version t + 1\<rparr>, Canceled_ca = True\<rparr>"
      "stored_task s tid = Some t0" "MoveTo (Some t0) TaskStatusCanceled now = Inr t"
      "NewTaskCanceledEvent eid (Some (t\<lparr>Version := Version t + 1\<rparr>)) now = Inr ev"
      "\<not> event_known s eid" "s' = commit tid (t\<lparr>Version := Version t + 1\<rparr>) ev s"
proof (cases "ctx = None \<and> tid \<noteq> [] \<and> eid \<noteq> [] \<and> \<not> IsZero now \<and> stored_task s tid \<noteq> None")
  case False
  then have "\<exists>e. r = Inl e \<and> s' = s"
    using assms(1) by (auto simp: CancelTaskWithEvent_def split: option.splits if_splits)
  with error show ?thesis by blast
next
  case True
  then obtain t0 where t0: "stored_task s tid = Some t0" by auto
  have undo: "s\<lparr>taskStore := put_task tid t0 (taskStore s)\<rparr> = s"
    using put_task_same [OF t0] wf by simp
  from assms(1) True t0 undo have "(\<exists>e. r = Inl e \<and> s' = s) \<or>
    (r = Inr \<lparr>Task_ca = t0, Canceled_ca = False\<rparr> \<and> s' = s \<and> Status t0 = TaskStatusCanceled) \<or>
    (\<exists>t ev. r = Inr \<lparr>Task_ca = t\<lparr>Version := Version t + 1\<rparr>, Canceled_ca = True\<rparr> \<and>
      MoveTo (Some t0) TaskStatusCanceled now = Inr t \<and>
      NewTaskCanceledEvent eid (Some (t\<lparr>Version := Version t + 1\<rparr>)) now = Inr ev \<and>
      \<not> event_known s eid \<and> s' = commit tid (t\<lparr>Version := Version t + 1\<rparr>) ev s)"
    by (auto simp: CancelTaskWithEvent_def Let_def split: if_splits sum.splits)
  with t0 error replay canceled show ?thesis by blast
qed

subsection \<open>Claims\<close>

lemma scan_tasks_Some:
  assumes "scan_tasks keep better m = Some (k, t)"
  shows "(k, t) \<in> set m \<and> keep t"
  using assms by (auto simp: scan_tasks_def dest: scan_best_Some)

text \<open>The task after a claim of the given kind.\<close>

definition claimed :: "ClaimOptions \<Rightarrow> ClaimKind \<Rightarrow> Task \<Rightarrow> Task" where
  "claimed o1 kind t =
     grant_lease o1 (if kind = ClaimRecovery
       then t\<lparr>RetryCount := i64 (RetryCount t + 1), UpdatedAt := Now_co o1\<rparr>
       else enter_status TaskStatusRunning (Now_co o1)
              (t\<lparr>Status := TaskStatusRunning, UpdatedAt := Now_co o1\<rparr>))"

text \<open>Which tasks a claim of each kind may take.\<close>

definition claimable :: "ClaimOptions \<Rightarrow> ClaimKind \<Rightarrow> Task \<Rightarrow> bool" where
  "claimable o1 kind t \<longleftrightarrow>
     (kind = ClaimRecovery \<and> expired_claimable o1 t) \<or>
     (kind = ClaimRetry \<and> ready_claimable o1 t \<and> Status t = TaskStatusRetrying) \<or>
     (kind = ClaimInitial \<and> ready_claimable o1 t \<and> Status t = TaskStatusQueued)"

lemma select_claim_Some:
  assumes "select_claim rng1 rng2 o1 s = Some ((k, t), kind)" "range_order rng1" "range_order rng2"
  shows "(k, t) \<in> set (tasks s) \<and> claimable o1 kind t"
  using assms
  by (auto simp: select_claim_def claimable_def ready_claimable_def range_order_set
      dest!: scan_tasks_Some split: option.splits if_splits)

lemma claimNextLocked_cases:
  assumes "claimNextLocked rng1 rng2 o1 s = (r, s')" "range_order rng1" "range_order rng2"
  obtains (none) "r = Inl ErrNoTaskAvailable" "s' = s" "select_claim rng1 rng2 o1 s = None"
  | (some) k t kind where "r = Inr (claimed o1 kind t, t, kind)" "s' = put_task k (claimed o1 kind t) s"
      "(k, t) \<in> set (tasks s)" "claimable o1 kind t" "select_claim rng1 rng2 o1 s = Some ((k, t), kind)"
proof (cases "select_claim rng1 rng2 o1 s")
  case None
  with assms(1) none show ?thesis by (simp add: claimNextLocked_def)
next
  case (Some sel)
  obtain k t kind where sel: "sel = ((k, t), kind)" by (metis prod.exhaust)
  note c = select_claim_Some [OF Some [unfolded sel] assms(2,3)]
  then have "kind \<noteq> ClaimRecovery \<Longrightarrow> CanTransition (Status t) TaskStatusRunning"
    by (auto simp: claimable_def)
  with assms(1) Some sel have "r = Inr (claimed o1 kind t, t, kind)" "s' = put_task k (claimed o1 kind t) s"
    by (auto simp: claimNextLocked_def claimed_def MoveTo_def split: if_splits)
  with c Some sel some show ?thesis by blast
qed

lemma claimed_wf:
  assumes "task_wf t" "claimable o1 kind t" "Validate_claim o1 = None"
  shows "task_wf (claimed o1 kind t)" "task_frame t (claimed o1 kind t)"
    "Version (claimed o1 kind t) = Version t + 1" "Status (claimed o1 kind t) = TaskStatusRunning"
    "Progress (claimed o1 kind t) = Progress t"
    "RetryCount (claimed o1 kind t) = RetryCount t + (if kind = ClaimRecovery then 1 else 0)"
    "LeaseOwner (claimed o1 kind t) = WorkerID_co o1"
    "LeaseExpiresAt (claimed o1 kind t) = Some (Now_co o1 + LeaseDuration_co o1)"
proof -
  from assms(3) have w: "WorkerID_co o1 \<noteq> []" by (auto simp: Validate_claim_def split: if_splits)
  have r: "kind = ClaimRecovery \<Longrightarrow> RetryCount t < MaxRetries t \<and> Status t = TaskStatusRunning"
    "kind \<noteq> ClaimRecovery \<Longrightarrow> Status t = TaskStatusQueued \<or> Status t = TaskStatusRetrying"
    using assms(2) by (auto simp: claimable_def expired_claimable_def)
  then show "task_wf (claimed o1 kind t)"
    using assms(1) w task_wf_retry_i64 [OF assms(1)]
    by (cases "kind = ClaimRecovery")
      (auto simp: claimed_def grant_lease_def task_wf_def enter_status_def)
  show "task_frame t (claimed o1 kind t)"
    using assms(1) r by (auto simp: claimed_def grant_lease_def task_frame_def task_wf_def enter_status_def)
  show "RetryCount (claimed o1 kind t) = RetryCount t + (if kind = ClaimRecovery then 1 else 0)"
    using r task_wf_retry_i64 [OF assms(1)] by (simp add: claimed_def grant_lease_def)
qed (use assms(2) in \<open>auto simp: claimed_def grant_lease_def Add_time_def claimable_def expired_claimable_def\<close>)

lemma ClaimNextWithEvent_cases:
  assumes "ClaimNextWithEvent rng1 rng2 ctx o1 eid s = (r, s')" "range_order rng1" "range_order rng2"
    and wf: "stores_wf s"
  obtains (error) e where "r = Inl e" "s' = s"
  | (claimed) t kind ev where "r = Inr (claimed o1 kind t)" "stored_task s (ID t) = Some t"
      "claimable o1 kind t" "Validate_claim o1 = None" "\<not> event_known s eid"
      "select_claim rng1 rng2 o1 (taskStore s) = Some ((ID t, t), kind)"
      "NewTaskClaimedEvent eid (Some (claimed o1 kind t)) kind (Now_co o1) = Inr ev"
      "s' = commit (ID t) (claimed o1 kind t) ev s"
proof (cases "ctx = None \<and> Validate_claim o1 = None \<and> eid \<noteq> [] \<and> \<not> event_known s eid")
  case False
  then have "\<exists>e. r = Inl e \<and> s' = s"
    using assms(1) by (auto simp: ClaimNextWithEvent_def split: option.splits if_splits)
  with error show ?thesis by blast
next
  case True
  obtain r1 ts where locked: "claimNextLocked rng1 rng2 o1 (taskStore s) = (r1, ts)" by force
  from locked assms(2,3) show ?thesis
  proof (cases rule: claimNextLocked_cases)
    case none
    with True locked assms(1) error [of ErrNoTaskAvailable] show ?thesis
      by (simp add: ClaimNextWithEvent_def)
  next
    case (some k t kind)
    note entry = stores_wf_entry [OF wf some(3)]
    show ?thesis
    proof (cases "NewTaskClaimedEvent eid (Some (StoreFacts.claimed o1 kind t)) kind (Now_co o1)")
      case (Inl e)
      with True locked some assms(1) entry wf error [of e] show ?thesis
        by (simp add: ClaimNextWithEvent_def put_task_undo)
    next
      case (Inr ev)
      with True locked some assms(1) entry claimed [of kind t ev] show ?thesis
        by (simp add: ClaimNextWithEvent_def commit_def)
    qed
  qed
qed

subsection \<open>Expired leases and renewals\<close>

definition expired_failed :: "time \<Rightarrow> Task \<Rightarrow> Task" where
  "expired_failed now t =
     (let u = enter_status TaskStatusFailed now
                (t\<lparr>ErrorMessage := expired_message, Status := TaskStatusFailed, UpdatedAt := now\<rparr>)
      in u\<lparr>Version := Version u + 1\<rparr>)"

lemma expired_failed_wf:
  assumes "task_wf t" "expired_exhausted now t"
  shows "task_wf (expired_failed now t)" "task_frame t (expired_failed now t)"
    "Version (expired_failed now t) = Version t + 1" "Status (expired_failed now t) = TaskStatusFailed"
    "Progress (expired_failed now t) = Progress t" "RetryCount (expired_failed now t) = RetryCount t"
  using assms
  by (auto simp: expired_failed_def expired_exhausted_def enter_status_def task_wf_def task_frame_def Let_def)

lemma FailNextExpiredWithEvent_cases:
  assumes "FailNextExpiredWithEvent rng ctx now eid s = (r, s')" "range_order rng"
    and wf: "stores_wf s"
  obtains (error) e where "r = Inl e" "s' = s"
  | (failed) t ev where "r = Inr (expired_failed now t)" "stored_task s (ID t) = Some t"
      "expired_exhausted now t" "\<not> event_known s eid"
      "scan_tasks (expired_exhausted now) lease_before (rng (tasks (taskStore s))) = Some (ID t, t)"
      "NewTaskExpiredEvent eid (Some (expired_failed now t)) now = Inr ev"
      "s' = commit (ID t) (expired_failed now t) ev s"
proof (cases "ctx = None \<and> \<not> IsZero now \<and> eid \<noteq> [] \<and> \<not> event_known s eid")
  case False
  then have "\<exists>e. r = Inl e \<and> s' = s"
    using assms(1) by (auto simp: FailNextExpiredWithEvent_def split: option.splits if_splits)
  with error show ?thesis by blast
next
  case True
  show ?thesis
  proof (cases "scan_tasks (expired_exhausted now) lease_before (rng (tasks (taskStore s)))")
    case None
    with True assms(1) error [of ErrNoExpiredTask] show ?thesis
      by (simp add: FailNextExpiredWithEvent_def failNextExpiredLocked_def)
  next
    case (Some kt)
    obtain k t where kt: "kt = (k, t)" by force
    with scan_tasks_Some [OF Some [unfolded kt]] assms(2)
    have sel: "(k, t) \<in> set (tasks (taskStore s))" "expired_exhausted now t" by (auto simp: range_order_set)
    note entry = stores_wf_entry [OF wf sel(1)]
    have locked: "failNextExpiredLocked rng now (taskStore s) =
        (Inr (expired_failed now t, t), put_task k (expired_failed now t) (taskStore s))"
      using Some kt sel(2)
      by (simp add: failNextExpiredLocked_def expired_failed_def MoveTo_def expired_exhausted_def Let_def)
    show ?thesis
    proof (cases "NewTaskExpiredEvent eid (Some (expired_failed now t)) now")
      case (Inl e)
      with True locked assms(1) entry wf error [of e] show ?thesis
        by (simp add: FailNextExpiredWithEvent_def put_task_undo)
    next
      case (Inr ev)
      with True locked assms(1) entry sel Some kt failed [of t ev] show ?thesis
        by (simp add: FailNextExpiredWithEvent_def commit_def)
    qed
  qed
qed

text \<open>The task after a renewal of its lease.\<close>

definition renewed :: "time \<Rightarrow> duration \<Rightarrow> Task \<Rightarrow> Task" where
  "renewed now d t =
     t\<lparr>LeaseExpiresAt := Some (Add_time now d), LastHeartbeatAt := Some now, UpdatedAt := now\<rparr>"

lemma RenewLease_cases:
  assumes "RenewLease ctx o1 s = (r, s')"
  obtains (error) e where "r = Some e" "s' = s"
  | (renewed) t where "r = None" "lookup_task s (TaskID_rl o1) = Some t"
      "lease_held (WorkerID_rl o1) (Now_rl o1) t" "0 < LeaseDuration_rl o1"
      "s' = put_task (TaskID_rl o1) (renewed (Now_rl o1) (LeaseDuration_rl o1) t) s"
proof -
  from assms have "(\<exists>e. r = Some e \<and> s' = s) \<or>
    (\<exists>t. r = None \<and> lookup_task s (TaskID_rl o1) = Some t \<and> lease_held (WorkerID_rl o1) (Now_rl o1) t \<and>
      0 < LeaseDuration_rl o1 \<and>
      s' = put_task (TaskID_rl o1) (StoreFacts.renewed (Now_rl o1) (LeaseDuration_rl o1) t) s)"
    by (auto simp: RenewLease_def StoreFacts.renewed_def Validate_renew_def split: option.splits if_splits)
  with error renewed show ?thesis by blast
qed

lemma renewed_wf:
  assumes "task_wf t" "lease_held w now t"
  shows "task_wf (renewed now d t)" "task_frame t (renewed now d t)"
  using assms by (auto simp: renewed_def lease_held_def task_wf_def task_frame_def)

end
