(* ===== verification/StoreSteps.thy ===== *)
theory StoreSteps
  imports StoreFacts
begin

text \<open>
  The stores as a state machine.  A step is one call of a store operation, with any
  context, clock reading, event id and map order; the task handed to
  \<open>UpdateTaskWithEvent\<close> is one that a worker may produce from the task it read
  (\<open>worker_edit\<close>).  The services are shown elsewhere to make only such calls, so what holds
  of every reachable state here holds of the program under any interleaving of requests.
\<close>

section \<open>What clients hand to the stores\<close>

text \<open>A request to create a task: a fresh task and its creation event.\<close>

definition new_task :: "Task \<Rightarrow> TaskEvent \<Rightarrow> bool" where
  "new_task t ev \<longleftrightarrow>
     task_wf t \<and> Status t = TaskStatusQueued \<and> Version t = 0 \<and> RetryCount t = 0 \<and>
     Type_ev ev = EventTaskCreated \<and> Progress_ev ev = Progress t \<and> TaskID_ev ev = ID t"

text \<open>Two versions of a task that differ by renewals of the lease only.\<close>

definition without_heartbeat :: "Task \<Rightarrow> Task" where
  "without_heartbeat t = t\<lparr>LeaseExpiresAt := None, LastHeartbeatAt := None, UpdatedAt := 0\<rparr>"

definition same_claim :: "Task \<Rightarrow> Task \<Rightarrow> bool" where
  "same_claim t u \<longleftrightarrow> without_heartbeat t = without_heartbeat u"

text \<open>
  A worker's change \<open>t\<close> of the running task \<open>t0\<close> it read, with its event.
\<close>

definition worker_edit :: "Task \<Rightarrow> Task \<Rightarrow> TaskEvent \<Rightarrow> bool" where
  "worker_edit t0 t ev \<longleftrightarrow>
     Status t0 = TaskStatusRunning \<and> task_wf t0 \<and> task_wf t \<and> task_frame t0 t \<and>
     Version t = Version t0 \<and> TaskID_ev ev = ID t \<and>
     event_status (Type_ev ev) = Some (Status t) \<and> Progress_ev ev = Progress t \<and>
     RetryCount t = RetryCount t0 + event_retries ev \<and>
     Type_ev ev \<in> {EventTaskProgress, EventTaskSucceeded, EventTaskPartial, EventTaskFailed,
       EventTaskRetrying, EventTaskReleased}"

lemma same_claim_refl [simp]: "same_claim t t"
  by (simp add: same_claim_def)

lemma same_claim_trans: "same_claim t u \<Longrightarrow> same_claim u v \<Longrightarrow> same_claim t v"
  by (simp add: same_claim_def)

lemma same_claim_frame:
  assumes "same_claim t u"
  shows "task_frame t u" "Version u = Version t" "Status u = Status t" "LeaseOwner u = LeaseOwner t"
    "RetryCount u = RetryCount t" "Progress u = Progress t"
proof -
  have f: "f (without_heartbeat t) = f (without_heartbeat u)" for f :: "Task \<Rightarrow> 'a"
    using assms by (simp add: same_claim_def)
  note fs = f [of ID] f [of IdempotencyKey] f [of Workflow] f [of Input] f [of MaxRetries] f [of CreatedAt]
    f [of StartedAt] f [of Version] f [of Status] f [of LeaseOwner] f [of RetryCount] f [of Progress]
  from fs show "task_frame t u" "Version u = Version t" "Status u = Status t" "LeaseOwner u = LeaseOwner t"
    "RetryCount u = RetryCount t" "Progress u = Progress t"
    by (simp_all add: without_heartbeat_def task_frame_def)
qed

lemma renewed_same_claim [simp]: "same_claim t (renewed now d t)"
  by (simp add: same_claim_def without_heartbeat_def renewed_def)

section \<open>Steps\<close>

inductive store_step :: "MemoryStores \<Rightarrow> MemoryStores \<Rightarrow> bool" where
  create: "CreateTaskWithEvent ctx (Some t) (Some ev) m = (r, m') \<Longrightarrow> new_task t ev \<Longrightarrow> store_step m m'"
| claim: "ClaimNextWithEvent rng1 rng2 ctx o1 eid m = (rt, m') \<Longrightarrow>
    range_order rng1 \<Longrightarrow> range_order rng2 \<Longrightarrow> store_step m m'"
| reap: "FailNextExpiredWithEvent rng ctx now eid m = (rt, m') \<Longrightarrow> range_order rng \<Longrightarrow> store_step m m'"
| cancel: "CancelTaskWithEvent ctx tid eid now m = (rc, m') \<Longrightarrow> store_step m m'"
| renew: "RenewLease ctx o2 (taskStore m) = (re, ts) \<Longrightarrow> store_step m (m\<lparr>taskStore := ts\<rparr>)"
| update: "UpdateTaskWithEvent ctx (Some t) (Some ev) m = (re, m') \<Longrightarrow> worker_edit t0 t ev \<Longrightarrow>
    (\<And>st. stored_task m (ID t) = Some st \<Longrightarrow> Version st = Version t \<Longrightarrow> same_claim t0 st) \<Longrightarrow>
    store_step m m'"

inductive reachable :: "MemoryStores \<Rightarrow> bool" where
  init: "reachable NewMemoryStores"
| step: "reachable m \<Longrightarrow> store_step m m' \<Longrightarrow> reachable m'"

text \<open>
  The effect of a step on the two stores: nothing, a new task, a renewed lease, or one
  commit of a successor of a live task with its event.
\<close>

definition live_commit :: "MemoryStores \<Rightarrow> MemoryStores \<Rightarrow> bool" where
  "live_commit m m' \<longleftrightarrow>
     (\<exists>t0 t ev. stored_task m (ID t0) = Some t0 \<and> Status t0 \<notin> terminalStatuses \<and>
        task_wf t \<and> task_frame t0 t \<and> Version t = Version t0 + 1 \<and>
        \<not> event_known m (ID_ev ev) \<and> TaskID_ev ev = ID t0 \<and>
        event_status (Type_ev ev) = Some (Status t) \<and> Progress_ev ev = Progress t \<and>
        RetryCount t = RetryCount t0 + event_retries ev \<and> m' = commit (ID t0) t ev m)"

definition insertion :: "MemoryStores \<Rightarrow> MemoryStores \<Rightarrow> bool" where
  "insertion m m' \<longleftrightarrow>
     (\<exists>t ev. new_task t ev \<and> stored_task m (ID t) = None \<and> \<not> event_known m (ID_ev ev) \<and>
        (IdempotencyKey t \<noteq> [] \<longrightarrow> taskIDsByIdempotencyKey (taskStore m)
           (idempotencyIndexKey (Workflow t) (IdempotencyKey t)) = None) \<and>
        m' = m\<lparr>taskStore := put_key t (put_task (ID t) t (taskStore m)),
               eventStore := put_event ev (eventStore m)\<rparr>)"

definition renewal :: "MemoryStores \<Rightarrow> MemoryStores \<Rightarrow> bool" where
  "renewal m m' \<longleftrightarrow>
     (\<exists>t0 now d. stored_task m (ID t0) = Some t0 \<and> Status t0 = TaskStatusRunning \<and>
        m' = m\<lparr>taskStore := put_task (ID t0) (renewed now d t0) (taskStore m)\<rparr>)"

lemma claim_effect:
  assumes "ClaimNextWithEvent rng1 rng2 ctx o1 eid m = (r, m')" "range_order rng1" "range_order rng2"
    "stores_wf m"
  shows "m' = m \<or> live_commit m m'"
  using assms
proof (cases rule: ClaimNextWithEvent_cases)
  case (claimed t kind ev)
  note w = claimed_wf [OF stores_wf_lookup(2) [OF assms(4) claimed(2)] claimed(3,4)]
  have live: "Status t \<notin> terminalStatuses"
    using claimed(3) by (auto simp: claimable_def expired_claimable_def)
  have ev: "event_status (Type_ev ev) = Some TaskStatusRunning" "Progress_ev ev = Progress t"
    "TaskID_ev ev = ID t" "ID_ev ev = eid" "event_retries ev = (if kind = ClaimRecovery then 1 else 0)"
    using NewTaskClaimedEvent_Inr [OF claimed(7)] claimed(3) w(2,5)
    by (auto simp: claimable_def event_retries_def task_frame_def)
  show ?thesis
    using claimed(2,5,8) w ev live unfolding live_commit_def
    by (intro disjI2 exI [of _ t] exI [of _ "StoreFacts.claimed o1 kind t"] exI [of _ ev]) simp
qed simp

lemma reap_effect:
  assumes "FailNextExpiredWithEvent rng ctx now eid m = (r, m')" "range_order rng" "stores_wf m"
  shows "m' = m \<or> live_commit m m'"
  using assms
proof (cases rule: FailNextExpiredWithEvent_cases)
  case (failed t ev)
  note w = expired_failed_wf [OF stores_wf_lookup(2) [OF assms(3) failed(2)] failed(3)]
  have live: "Status t \<notin> terminalStatuses" using failed(3) by (auto simp: expired_exhausted_def)
  have ev: "event_status (Type_ev ev) = Some TaskStatusFailed" "Progress_ev ev = Progress t"
    "TaskID_ev ev = ID t" "ID_ev ev = eid" "event_retries ev = 0"
    using NewTaskExpiredEvent_Inr [OF failed(6)] w(2,5) by (auto simp: event_retries_def task_frame_def)
  show ?thesis
    using failed(2,4,7) w ev live unfolding live_commit_def
    by (intro disjI2 exI [of _ t] exI [of _ "expired_failed now t"] exI [of _ ev]) simp
qed simp

lemma cancel_effect:
  assumes "CancelTaskWithEvent ctx tid eid now m = (r, m')" "stores_wf m"
  shows "m' = m \<or> live_commit m m'"
  using assms
proof (cases rule: CancelTaskWithEvent_cases)
  case (canceled t0 t ev)
  note l0 = stores_wf_lookup [OF assms(2) canceled(2)]
  note mv = MoveTo_Inr [OF canceled(3)]
  note w = MoveTo_terminal_wf [OF canceled(3) l0(2)]
  have live: "Status t0 \<notin> terminalStatuses" using mv terminal_no_transition by blast
  have ev: "event_status (Type_ev ev) = Some TaskStatusCanceled" "Progress_ev ev = Progress t"
    "TaskID_ev ev = ID t" "ID_ev ev = eid" "event_retries ev = 0"
    using NewTaskCanceledEvent_Inr [OF canceled(4)] by (auto simp: event_retries_def)
  have "task_frame t0 (t\<lparr>Version := Version t + 1\<rparr>)" "Version t = Version t0"
    "RetryCount t = RetryCount t0" "ID t = ID t0"
    using MoveTo_frame [OF canceled(3)] mv by (auto simp: task_frame_def)
  then show ?thesis
    using canceled(2,5,6) w ev live l0(1) unfolding live_commit_def
    by (intro disjI2 exI [of _ t0] exI [of _ "t\<lparr>Version := Version t + 1\<rparr>"] exI [of _ ev]) simp
qed simp_all

lemma update_effect:
  assumes "UpdateTaskWithEvent ctx (Some t) (Some ev) m = (r, m')" "worker_edit t0 t ev"
    "\<And>st. stored_task m (ID t) = Some st \<Longrightarrow> Version st = Version t \<Longrightarrow> same_claim t0 st"
    "stores_wf m"
  shows "m' = m \<or> live_commit m m'"
  using assms(1)
proof (cases rule: UpdateTaskWithEvent_cases)
  case (commit t' ev' st)
  then have st: "stored_task m (ID t) = Some st" "Version st = Version t" by simp_all
  note sc = same_claim_frame [OF assms(3) [OF st]]
  note l = stores_wf_lookup [OF assms(4) st(1)]
  have "task_frame st (t\<lparr>Version := Version t + 1\<rparr>)" "RetryCount st = RetryCount t0"
    using assms(2) sc by (auto simp: worker_edit_def task_frame_def task_wf_def)
  then show ?thesis
    using commit assms(2) sc st l unfolding live_commit_def worker_edit_def
    by (intro disjI2 exI [of _ st] exI [of _ "t\<lparr>Version := Version t + 1\<rparr>"] exI [of _ ev]) simp
qed simp

lemma store_step_effect:
  assumes "store_step m m'" "stores_wf m"
  shows "m' = m \<or> insertion m m' \<or> renewal m m' \<or> live_commit m m'"
  using assms(1)
proof cases
  case (create ctx t ev r)
  from create(1) show ?thesis
  proof (cases rule: CreateTaskWithEvent_cases)
    case (created t' ev')
    with create(2) show ?thesis unfolding insertion_def by blast
  qed simp_all
next
  case (renew ctx o2 re ts)
  from renew(2) show ?thesis
  proof (cases rule: RenewLease_cases)
    case (renewed t)
    with stores_wf_lookup(1) [OF assms(2) renewed(2)] have "renewal m (m\<lparr>taskStore := ts\<rparr>)"
      unfolding renewal_def lease_held_def by metis
    with renew(1) show ?thesis by simp
  qed (use renew(1) in simp)
next
  case (claim rng1 rng2 ctx o1 eid rt)
  from claim_effect [OF claim assms(2)] show ?thesis by blast
next
  case (reap rng ctx now eid rt)
  from reap_effect [OF reap assms(2)] show ?thesis by blast
next
  case (cancel ctx tid eid now rc)
  from cancel_effect [OF cancel assms(2)] show ?thesis by blast
next
  case (update ctx t ev re t0)
  from update_effect [OF update(1,2,3) assms(2)] show ?thesis by blast
qed

lemma live_commit_wf: "live_commit m m' \<Longrightarrow> stores_wf m \<Longrightarrow> stores_wf m'"
  unfolding live_commit_def by (auto intro!: commit_wf)

lemma renewal_wf:
  assumes "renewal m m'" "stores_wf m"
  shows "stores_wf m'"
proof -
  from assms(1) obtain t0 now d where t0: "stored_task m (ID t0) = Some t0" "Status t0 = TaskStatusRunning"
    and m': "m' = m\<lparr>taskStore := put_task (ID t0) (renewed now d t0) (taskStore m)\<rparr>"
    unfolding renewal_def by blast
  note l = stores_wf_lookup [OF assms(2) t0(1)]
  have w: "task_wf (renewed now d t0)" using l(2) t0(2) by (simp add: renewed_def task_wf_def)
  have fields: "ID (renewed now d t0) = ID t0" "IdempotencyKey (renewed now d t0) = IdempotencyKey t0"
    "Workflow (renewed now d t0) = Workflow t0" by (simp_all add: renewed_def)
  have log: "log_matches (stored_events m (ID t0)) (renewed now d t0)"
    using l(3) by (simp add: log_matches_def renewed_def)
  have "task_map_wf (taskStore m')" using assms(2) w m' fields by (simp add: stores_wf_def task_map_wf_def)
  moreover have "key_index_wf (taskStore m')"
    using assms(2) m' t0 fields by (simp add: stores_wf_def key_index_wf_def)
  moreover have "event_index_wf (eventStore m')" using assms(2) m' by (simp add: stores_wf_def)
  moreover have "logs_wf m'" using assms(2) m' log by (simp add: stores_wf_def logs_wf_iff)
  ultimately show ?thesis by (simp add: stores_wf_def)
qed

lemma insertion_wf:
  assumes "insertion m m'" "stores_wf m"
  shows "stores_wf m'"
proof -
  from assms(1) obtain t ev where nt: "new_task t ev" "stored_task m (ID t) = None"
    and nev: "eventsByID (eventStore m) (ID_ev ev) = None"
    and key: "IdempotencyKey t \<noteq> [] \<Longrightarrow> taskIDsByIdempotencyKey (taskStore m)
           (idempotencyIndexKey (Workflow t) (IdempotencyKey t)) = None"
    and m': "m' = m\<lparr>taskStore := put_key t (put_task (ID t) t (taskStore m)),
               eventStore := put_event ev (eventStore m)\<rparr>"
    unfolding insertion_def by auto
  from assms(2) nt(2) have "stored_events m (ID t) = []" by (simp add: stores_wf_def logs_wf_iff)
  then have "log_matches (stored_events m (ID t) @ [ev]) t"
    using nt(1) by (simp add: log_matches_def new_task_def event_retries_def)
  moreover have "key_index_wf (taskStore m')"
    unfolding key_index_wf_def
  proof (intro allI)
    fix k tid
    have old: "taskIDsByIdempotencyKey (taskStore m) k = Some tid \<longleftrightarrow>
        (\<exists>t. stored_task m tid = Some t \<and> IdempotencyKey t \<noteq> [] \<and>
             k = idempotencyIndexKey (Workflow t) (IdempotencyKey t))" for k tid
      using assms(2) by (auto simp: stores_wf_def key_index_wf_def)
    show "(taskIDsByIdempotencyKey (taskStore m') k = Some tid) =
        (\<exists>t. stored_task m' tid = Some t \<and> IdempotencyKey t \<noteq> [] \<and>
             k = idempotencyIndexKey (Workflow t) (IdempotencyKey t))"
      using old [of k tid] key m' nt(2) by (cases "tid = ID t") auto
  qed
  moreover have "task_map_wf (taskStore m')"
    using assms(2) nt m' by (simp add: stores_wf_def task_map_wf_def new_task_def)
  moreover have "event_index_wf (eventStore m')"
    using assms(2) nev m' by (simp add: stores_wf_def event_index_wf_put)
  ultimately show ?thesis
    using assms(2) nt m' by (simp add: stores_wf_def logs_wf_iff new_task_def)
qed

lemma store_step_wf: "store_step m m' \<Longrightarrow> stores_wf m \<Longrightarrow> stores_wf m'"
  using store_step_effect insertion_wf renewal_wf live_commit_wf by blast

lemma reachable_wf: "reachable m \<Longrightarrow> stores_wf m"
  by (induction rule: reachable.induct) (auto intro: NewMemoryStores_wf store_step_wf)

section \<open>What a step does to one task\<close>

text \<open>
  A task stays in the store, keeps the fields fixed at its creation, and either keeps its
  version (then only its lease was renewed, and only while it runs) or its version rises by
  one and one event is appended to its log; in that case it was not in a terminal status.
\<close>

definition task_succ :: "Task \<Rightarrow> TaskEvent list \<Rightarrow> Task \<Rightarrow> TaskEvent list \<Rightarrow> bool" where
  "task_succ t es u fs \<longleftrightarrow>
     task_frame t u \<and>
     (u = t \<and> fs = es \<or>
      Status t = TaskStatusRunning \<and> same_claim t u \<and> fs = es \<or>
      Status t \<notin> terminalStatuses \<and> Version u = Version t + 1 \<and> (\<exists>e. fs = es @ [e]))"

lemma store_step_task:
  assumes "store_step m m'" "stores_wf m" "stored_task m tid = Some t"
  shows "\<exists>u. stored_task m' tid = Some u \<and> task_succ t (stored_events m tid) u (stored_events m' tid)"
  using store_step_effect [OF assms(1,2)]
proof (elim disjE)
  assume "m' = m"
  with assms(3) show ?thesis by (simp add: task_succ_def)
next
  assume "insertion m m'"
  then obtain t' ev where "new_task t' ev" "stored_task m (ID t') = None"
    "m' = m\<lparr>taskStore := put_key t' (put_task (ID t') t' (taskStore m)),
            eventStore := put_event ev (eventStore m)\<rparr>"
    unfolding insertion_def by blast
  moreover from this assms(3) have "tid \<noteq> ID t'" by auto
  ultimately show ?thesis using assms(3) by (simp add: task_succ_def new_task_def)
next
  assume "renewal m m'"
  then obtain t0 now d where t0: "stored_task m (ID t0) = Some t0" "Status t0 = TaskStatusRunning"
    "m' = m\<lparr>taskStore := put_task (ID t0) (renewed now d t0) (taskStore m)\<rparr>"
    unfolding renewal_def by blast
  with assms(3) same_claim_frame(1) [of t0 "renewed now d t0"] show ?thesis
    by (cases "tid = ID t0") (simp_all add: task_succ_def)
next
  assume "live_commit m m'"
  then obtain t0 u ev where t0: "stored_task m (ID t0) = Some t0" "Status t0 \<notin> terminalStatuses"
    "task_frame t0 u" "Version u = Version t0 + 1" "TaskID_ev ev = ID t0" "m' = commit (ID t0) u ev m"
    unfolding live_commit_def by blast
  with assms(3) show ?thesis
    by (cases "tid = ID t0") (simp_all add: task_succ_def)
qed

text \<open>
  Steps that do not wrap the 64-bit version counter of a task around: what other clients of
  the stores do while a request is being served.
\<close>

definition env_step :: "MemoryStores \<Rightarrow> MemoryStores \<Rightarrow> bool" where
  "env_step m m' \<longleftrightarrow> store_step m m' \<and>
     (\<forall>tid t u. stored_task m tid = Some t \<longrightarrow> stored_task m' tid = Some u \<longrightarrow> Version t \<le> Version u)"

lemma env_steps_wf: "env_step\<^sup>*\<^sup>* m m' \<Longrightarrow> stores_wf m \<Longrightarrow> stores_wf m'"
  by (induction rule: rtranclp_induct) (auto simp: env_step_def intro: store_step_wf)

text \<open>
  Optimistic concurrency is sound: if a task has the same version before and after any
  number of such steps, then at most its lease was renewed in between.
\<close>

lemma env_steps_task:
  assumes "env_step\<^sup>*\<^sup>* m m'" "stores_wf m" "stored_task m tid = Some t"
  shows "\<exists>u. stored_task m' tid = Some u \<and> task_frame t u \<and>
    (same_claim t u \<or> Version t < Version u)"
  using assms(1)
proof (induction rule: rtranclp_induct)
  case base
  then show ?case using assms(3) by simp
next
  case (step m1 m2)
  from step.IH obtain u where u: "stored_task m1 tid = Some u" "task_frame t u"
    "same_claim t u \<or> Version t < Version u" by blast
  from step.hyps(2) have st: "store_step m1 m2" by (simp add: env_step_def)
  from store_step_task [OF st env_steps_wf [OF step.hyps(1) assms(2)] u(1)] obtain v where
    v: "stored_task m2 tid = Some v" "task_succ u (stored_events m1 tid) v (stored_events m2 tid)" by blast
  from step.hyps(2) u(1) v(1) have le: "Version u \<le> Version v" by (auto simp: env_step_def)
  from v(2) have fr: "task_frame u v" by (simp add: task_succ_def)
  have "same_claim u v \<or> Version v = Version u + 1" using v(2) by (auto simp: task_succ_def)
  then have "same_claim t v \<or> Version t < Version v"
  proof
    assume "same_claim u v"
    with u(3) same_claim_frame(2) [of u v] same_claim_trans show ?thesis by (metis)
  next
    assume up: "Version v = Version u + 1"
    with le have "Version u < Version v" by (metis add_cancel_right_right order_le_less zero_neq_one)
    with u(3) same_claim_frame(2) [of t u] show ?thesis by auto
  qed
  with v(1) fr u(2) task_frame_trans show ?case by blast
qed

lemma env_steps_cas:
  assumes "env_step\<^sup>*\<^sup>* m m'" "stores_wf m" "stored_task m tid = Some t"
    "stored_task m' tid = Some u" "Version u = Version t"
  shows "same_claim t u"
  using env_steps_task [OF assms(1-3)] assms(4,5) by auto

end
