(* ===== verification/Ops.thy ===== *)
theory Ops
  imports Errors
begin

text \<open>
  Stateful calls that may fail.  A call of type \<open>('s, 'a) op\<close> takes the state of the
  program and returns an error or a value, with the state it leaves.  \<open>bind\<close> is the Go idiom
  \<^verbatim>\<open>x, err := f(); if err != nil { return err }; ...\<close>; \<open>attempt\<close> hands the outcome, error or
  value, to the code that inspects it.
\<close>

type_synonym ('s, 'a) op = "'s \<Rightarrow> 'a result \<times> 's"

definition ret :: "'a \<Rightarrow> ('s, 'a) op" where
  "ret x s = (Inr x, s)"

definition raise :: "error \<Rightarrow> ('s, 'a) op" where
  "raise e s = (Inl e, s)"

definition bind :: "('s, 'a) op \<Rightarrow> ('a \<Rightarrow> ('s, 'b) op) \<Rightarrow> ('s, 'b) op" where
  "bind f k s = (case f s of (Inl e, s1) \<Rightarrow> (Inl e, s1) | (Inr x, s1) \<Rightarrow> k x s1)"

definition attempt :: "('s, 'a) op \<Rightarrow> ('a result \<Rightarrow> ('s, 'b) op) \<Rightarrow> ('s, 'b) op" where
  "attempt f k s = (case f s of (r, s1) \<Rightarrow> k r s1)"

text \<open>A computation without effect that may fail, and one that only reports an error.\<close>

definition of_result :: "'a result \<Rightarrow> ('s, 'a) op" where
  "of_result r s = (r, s)"

definition err_result :: "error option \<Rightarrow> unit result" where
  "err_result r = (case r of None \<Rightarrow> Inr () | Some e \<Rightarrow> Inl e)"

lemma err_result_simps [simp]:
  "err_result None = Inr ()" "err_result (Some e) = Inl e"
  "err_result r = Inr u \<longleftrightarrow> r = None" "err_result r = Inl e \<longleftrightarrow> r = Some e"
  by (auto simp: err_result_def split: option.splits)

text \<open>An effect that cannot fail (a metric, a change of local state), then the rest.\<close>

definition effect :: "('s \<Rightarrow> 's) \<Rightarrow> ('s, 'a) op \<Rightarrow> ('s, 'a) op" where
  "effect f k s = k (f s)"

lemmas op_defs = ret_def raise_def of_result_def effect_def

lemma ret_eq [go_simps]: "ret x s = (r, s') \<longleftrightarrow> r = Inr x \<and> s' = s"
  by (auto simp: ret_def)

lemma raise_eq [go_simps]: "raise e s = (r, s') \<longleftrightarrow> r = Inl e \<and> s' = s"
  by (auto simp: raise_def)

lemma of_result_eq [go_simps]: "of_result x s = (r, s') \<longleftrightarrow> r = x \<and> s' = s"
  by (auto simp: of_result_def)

lemma bind_cases:
  assumes "bind f k s = (r, s')"
  obtains (fail) e where "f s = (Inl e, s')" "r = Inl e"
  | (ok) x s1 where "f s = (Inr x, s1)" "k x s1 = (r, s')"
proof (cases "f s")
  case (Pair r1 s1)
  with assms that show ?thesis by (cases r1) (auto simp: bind_def)
qed

lemma attempt_cases:
  assumes "attempt f k s = (r, s')"
  obtains x s1 where "f s = (x, s1)" "k x s1 = (r, s')"
  using assms by (auto simp: attempt_def split: prod.splits)

lemma bind_Inr: "f s = (Inr x, s1) \<Longrightarrow> bind f k s = k x s1"
  by (simp add: bind_def)

lemma bind_Inl: "f s = (Inl e, s1) \<Longrightarrow> bind f k s = (Inl e, s1)"
  by (simp add: bind_def)

lemma bind_ret [simp]: "bind (ret x) k = k x"
  by (simp add: fun_eq_iff bind_def ret_def)

lemma bind_raise [simp]: "bind (raise e) k = raise e"
  by (simp add: fun_eq_iff bind_def raise_def)

lemma bind_of_Inr [simp]: "bind (of_result (Inr x)) k = k x"
  by (simp add: fun_eq_iff bind_def of_result_def)

lemma bind_of_Inl [simp]: "bind (of_result (Inl e)) k = raise e"
  by (simp add: fun_eq_iff bind_def of_result_def raise_def)

section \<open>Properties of the states a call passes through\<close>

text \<open>
  \<open>spec P f Q\<close>: started in a state that satisfies \<open>P\<close>, the call \<open>f\<close> ends with an outcome and
  a state that satisfy \<open>Q\<close>.
\<close>

definition spec :: "('s \<Rightarrow> bool) \<Rightarrow> ('s, 'a) op \<Rightarrow> ('a result \<Rightarrow> 's \<Rightarrow> bool) \<Rightarrow> bool" where
  "spec P f Q \<longleftrightarrow> (\<forall>s r s'. P s \<longrightarrow> f s = (r, s') \<longrightarrow> Q r s')"

lemma specI: "(\<And>s r s'. P s \<Longrightarrow> f s = (r, s') \<Longrightarrow> Q r s') \<Longrightarrow> spec P f Q"
  by (simp add: spec_def)

lemma specD: "spec P f Q \<Longrightarrow> P s \<Longrightarrow> f s = (r, s') \<Longrightarrow> Q r s'"
  by (simp add: spec_def)

lemma spec_weaken: "spec P f R \<Longrightarrow> (\<And>r s. R r s \<Longrightarrow> Q r s) \<Longrightarrow> spec P f Q"
  by (auto simp: spec_def)

lemma spec_pre: "spec P f Q \<Longrightarrow> (\<And>s. P' s \<Longrightarrow> P s) \<Longrightarrow> spec P' f Q"
  by (auto simp: spec_def)

lemma spec_bind:
  assumes "spec P f R" "\<And>x. spec (R (Inr x)) (k x) Q" "\<And>e s. R (Inl e) s \<Longrightarrow> Q (Inl e) s"
  shows "spec P (bind f k) Q"
  using assms by (fastforce simp: spec_def elim!: bind_cases)

lemma spec_attempt:
  assumes "spec P f R" "\<And>x. spec (R x) (k x) Q"
  shows "spec P (attempt f k) Q"
  using assms by (fastforce simp: spec_def elim!: attempt_cases)

lemma spec_ret: "(\<And>s. P s \<Longrightarrow> Q (Inr x) s) \<Longrightarrow> spec P (ret x) Q"
  by (simp add: spec_def ret_def)

lemma spec_raise: "(\<And>s. P s \<Longrightarrow> Q (Inl e) s) \<Longrightarrow> spec P (raise e) Q"
  by (simp add: spec_def raise_def)

lemma spec_of_result: "(\<And>s. P s \<Longrightarrow> Q r s) \<Longrightarrow> spec P (of_result r) Q"
  by (simp add: spec_def of_result_def)

lemma spec_effect: "spec P' k Q \<Longrightarrow> (\<And>s. P s \<Longrightarrow> P' (f s)) \<Longrightarrow> spec P (effect f k) Q"
  by (auto simp: spec_def effect_def)

lemma spec_if: "(b \<Longrightarrow> spec P f Q) \<Longrightarrow> (\<not> b \<Longrightarrow> spec P g Q) \<Longrightarrow> spec P (if b then f else g) Q"
  by simp

end
