(* ===== verification/StoreInterface.thy ===== *)
theory StoreInterface
  imports StoreSteps Ops
begin

text \<open>
  The store interfaces the services depend on.  \<open>runtimeStores\<close> has the fields of the struct
  of the same name in \<open>cmd/taskpulse/storage.go\<close>, unfolded to the operations the services
  call; \<open>memory_stores\<close> is what \<open>openRuntimeStores\<close> builds for the memory backend.  The
  program is concurrent: other requests may act on the stores before each operation of a
  request.  The state of a running program therefore carries a schedule, one entry per
  operation still to come: the value of \<open>ctx.Err()\<close> it sees and what the other clients do
  to the stores before it.  An empty schedule is a program that serves one request at a time.
\<close>

section \<open>Metrics\<close>

text \<open>The calls of the metrics recorders of the packages \<open>application\<close> and \<open>worker\<close>.\<close>

datatype metric_call =
    RecordClaimAttempt string | RecordClaimMiss string | RecordTaskClaimed string
  | RecordTaskReleased string | RecordTaskCompleted string TaskStatus duration
  | RecordTaskRetried string string | RecordLeaseRenewed string | RecordLeaseLost string
  | RecordReaperExpiredFailure string

section \<open>The interface\<close>

record 's runtimeStores =
  Get_rs :: "string \<Rightarrow> ('s, Task) op"
  RenewLease_rs :: "RenewLeaseOptions \<Rightarrow> ('s, unit) op"
  ListByTaskID_rs :: "string \<Rightarrow> ('s, TaskEvent list) op"
  CreateTaskWithEvent_rs :: "Task option \<Rightarrow> TaskEvent option \<Rightarrow> ('s, TaskCreationResult) op"
  ClaimNextWithEvent_rs :: "ClaimOptions \<Rightarrow> string \<Rightarrow> ('s, Task) op"
  FailNextExpiredWithEvent_rs :: "time \<Rightarrow> string \<Rightarrow> ('s, Task) op"
  UpdateTaskWithEvent_rs :: "Task option \<Rightarrow> TaskEvent option \<Rightarrow> ('s, unit) op"
  CancelTaskWithEvent_rs :: "string \<Rightarrow> string \<Rightarrow> time \<Rightarrow> ('s, TaskCancellationResult) op"
  ctx_Err_rs :: "('s, unit) op"
  metrics_rs :: "metric_call \<Rightarrow> 's \<Rightarrow> 's"

section \<open>The memory backend\<close>

record runtime =
  stores_rt :: MemoryStores
  schedule_rt :: "(context_err \<times> (MemoryStores \<Rightarrow> MemoryStores)) list"
  metrics_rt :: "metric_call list"

definition start_runtime :: "MemoryStores \<Rightarrow> runtime" where
  "start_runtime m = \<lparr>stores_rt = m, schedule_rt = [], metrics_rt = []\<rparr>"

text \<open>The next operation begins: the others act, and the context has the scheduled value.\<close>

definition arrive :: "runtime \<Rightarrow> context_err \<times> runtime" where
  "arrive s =
     (case schedule_rt s of
        [] \<Rightarrow> (None, s)
      | (ctx, others) # rest \<Rightarrow> (ctx, s\<lparr>stores_rt := others (stores_rt s), schedule_rt := rest\<rparr>))"

definition on_stores ::
  "(context_err \<Rightarrow> MemoryStores \<Rightarrow> 'a result \<times> MemoryStores) \<Rightarrow> (runtime, 'a) op" where
  "on_stores f s =
     (case arrive s of (ctx, s1) \<Rightarrow> (case f ctx (stores_rt s1) of (r, m) \<Rightarrow> (r, s1\<lparr>stores_rt := m\<rparr>)))"

definition memory_stores :: "task_range \<Rightarrow> task_range \<Rightarrow> task_range \<Rightarrow> runtime runtimeStores" where
  "memory_stores rng1 rng2 rng3 = \<lparr>
     Get_rs = (\<lambda>tid. on_stores (\<lambda>ctx m. (Get ctx tid (taskStore m), m))),
     RenewLease_rs = (\<lambda>o1. on_stores (\<lambda>ctx m.
        case RenewLease ctx o1 (taskStore m) of (r, ts) \<Rightarrow> (err_result r, m\<lparr>taskStore := ts\<rparr>))),
     ListByTaskID_rs = (\<lambda>tid. on_stores (\<lambda>ctx m. (ListByTaskID ctx tid (eventStore m), m))),
     CreateTaskWithEvent_rs = (\<lambda>t ev. on_stores (\<lambda>ctx. CreateTaskWithEvent ctx t ev)),
     ClaimNextWithEvent_rs = (\<lambda>o1 eid. on_stores (\<lambda>ctx. ClaimNextWithEvent rng1 rng2 ctx o1 eid)),
     FailNextExpiredWithEvent_rs = (\<lambda>now eid. on_stores (\<lambda>ctx. FailNextExpiredWithEvent rng3 ctx now eid)),
     UpdateTaskWithEvent_rs = (\<lambda>t ev. on_stores (\<lambda>ctx m.
        case UpdateTaskWithEvent ctx t ev m of (r, m') \<Rightarrow> (err_result r, m'))),
     CancelTaskWithEvent_rs = (\<lambda>tid eid now. on_stores (\<lambda>ctx. CancelTaskWithEvent ctx tid eid now)),
     ctx_Err_rs = on_stores (\<lambda>ctx m. (err_result ctx, m)),
     metrics_rs = (\<lambda>c s. s\<lparr>metrics_rt := metrics_rt s @ [c]\<rparr>)\<rparr>"

section \<open>The contract\<close>

text \<open>The values \<open>ctx.Err()\<close> may return.\<close>

definition valid_ctx :: "context_err \<Rightarrow> bool" where
  "valid_ctx ctx \<longleftrightarrow> ctx \<in> {None, Some ContextCanceled, Some ContextDeadlineExceeded}"

text \<open>
  \<open>mem\<close> reads the stored data out of the program state, \<open>ok\<close> tells the states in which the
  other clients behave.  Every operation acts at one instant, on a state \<open>m\<close> that the other
  clients may have produced meanwhile, as the operation of the memory store does.
\<close>

locale task_stores =
  fixes S :: "'s runtimeStores" and mem :: "'s \<Rightarrow> MemoryStores" and ok :: "'s \<Rightarrow> bool"
  assumes Get_law: "ok s \<Longrightarrow> stores_wf (mem s) \<Longrightarrow> Get_rs S tid s = (r, s') \<Longrightarrow>
      ok s' \<and> env_step\<^sup>*\<^sup>* (mem s) (mem s') \<and> (\<exists>ctx. r = Get ctx tid (taskStore (mem s')))"
    and ListByTaskID_law: "ok s \<Longrightarrow> stores_wf (mem s) \<Longrightarrow> ListByTaskID_rs S tid s = (es, s') \<Longrightarrow>
      ok s' \<and> env_step\<^sup>*\<^sup>* (mem s) (mem s') \<and> (\<exists>ctx. es = ListByTaskID ctx tid (eventStore (mem s')))"
    and RenewLease_law: "ok s \<Longrightarrow> stores_wf (mem s) \<Longrightarrow> RenewLease_rs S o2 s = (u, s') \<Longrightarrow>
      ok s' \<and> (\<exists>m ctx re ts. valid_ctx ctx \<and> env_step\<^sup>*\<^sup>* (mem s) m \<and>
        RenewLease ctx o2 (taskStore m) = (re, ts) \<and> u = err_result re \<and> mem s' = m\<lparr>taskStore := ts\<rparr>)"
    and CreateTaskWithEvent_law: "ok s \<Longrightarrow> stores_wf (mem s) \<Longrightarrow>
      CreateTaskWithEvent_rs S t ev s = (cr, s') \<Longrightarrow>
      ok s' \<and> (\<exists>m ctx. env_step\<^sup>*\<^sup>* (mem s) m \<and> CreateTaskWithEvent ctx t ev m = (cr, mem s'))"
    and ClaimNextWithEvent_law: "ok s \<Longrightarrow> stores_wf (mem s) \<Longrightarrow>
      ClaimNextWithEvent_rs S o1 eid s = (r, s') \<Longrightarrow>
      ok s' \<and> (\<exists>m ctx rng1 rng2. range_order rng1 \<and> range_order rng2 \<and> env_step\<^sup>*\<^sup>* (mem s) m \<and>
        ClaimNextWithEvent rng1 rng2 ctx o1 eid m = (r, mem s'))"
    and FailNextExpiredWithEvent_law: "ok s \<Longrightarrow> stores_wf (mem s) \<Longrightarrow>
      FailNextExpiredWithEvent_rs S now eid s = (r, s') \<Longrightarrow>
      ok s' \<and> (\<exists>m ctx rng. range_order rng \<and> env_step\<^sup>*\<^sup>* (mem s) m \<and>
        FailNextExpiredWithEvent rng ctx now eid m = (r, mem s'))"
    and UpdateTaskWithEvent_law: "ok s \<Longrightarrow> stores_wf (mem s) \<Longrightarrow>
      UpdateTaskWithEvent_rs S t ev s = (u, s') \<Longrightarrow>
      ok s' \<and> (\<exists>m ctx re. valid_ctx ctx \<and> env_step\<^sup>*\<^sup>* (mem s) m \<and>
        UpdateTaskWithEvent ctx t ev m = (re, mem s') \<and> u = err_result re)"
    and CancelTaskWithEvent_law: "ok s \<Longrightarrow> stores_wf (mem s) \<Longrightarrow>
      CancelTaskWithEvent_rs S tid eid now s = (ca, s') \<Longrightarrow>
      ok s' \<and> (\<exists>m ctx. env_step\<^sup>*\<^sup>* (mem s) m \<and> CancelTaskWithEvent ctx tid eid now m = (ca, mem s'))"
    and ctx_Err_law: "ok s \<Longrightarrow> stores_wf (mem s) \<Longrightarrow> ctx_Err_rs S s = (u, s') \<Longrightarrow>
      ok s' \<and> env_step\<^sup>*\<^sup>* (mem s) (mem s') \<and> (\<exists>ctx. valid_ctx ctx \<and> u = err_result ctx)"
    and metrics_law: "mem (metrics_rs S c s) = mem s" "ok s \<Longrightarrow> ok (metrics_rs S c s)"

text \<open>The scheduled actions of the other clients are sequences of steps of the stores.\<close>

definition fair_schedule :: "runtime \<Rightarrow> bool" where
  "fair_schedule s \<longleftrightarrow>
     (\<forall>ctx others m. (ctx, others) \<in> set (schedule_rt s) \<longrightarrow>
        valid_ctx ctx \<and> (stores_wf m \<longrightarrow> env_step\<^sup>*\<^sup>* m (others m)))"

lemma fair_schedule_start [simp]: "fair_schedule (start_runtime m)"
  by (simp add: fair_schedule_def start_runtime_def)

lemma arrive_fair:
  assumes "fair_schedule s" "stores_wf (stores_rt s)" "arrive s = (ctx, s1)"
  shows "fair_schedule s1 \<and> valid_ctx ctx \<and> env_step\<^sup>*\<^sup>* (stores_rt s) (stores_rt s1)"
proof (cases "schedule_rt s")
  case Nil
  with assms show ?thesis by (auto simp: arrive_def valid_ctx_def)
next
  case (Cons x xs)
  obtain c f where "x = (c, f)" by force
  with Cons assms show ?thesis by (auto simp: arrive_def fair_schedule_def)
qed

lemma on_stores_law:
  assumes "fair_schedule s" "stores_wf (stores_rt s)" "on_stores f s = (r, s')"
  shows "fair_schedule s' \<and>
    (\<exists>m ctx. valid_ctx ctx \<and> env_step\<^sup>*\<^sup>* (stores_rt s) m \<and> f ctx m = (r, stores_rt s'))"
proof -
  obtain ctx s1 where a: "arrive s = (ctx, s1)" by force
  from arrive_fair [OF assms(1,2) a] have
    "fair_schedule s1" "valid_ctx ctx" "env_step\<^sup>*\<^sup>* (stores_rt s) (stores_rt s1)" by auto
  moreover obtain r1 m where "f ctx (stores_rt s1) = (r1, m)" by force
  ultimately show ?thesis
    using assms(3) a
    by (intro conjI exI [of _ "stores_rt s1"] exI [of _ ctx]) (auto simp: on_stores_def fair_schedule_def)
qed

lemma on_stores_idle:
  "schedule_rt s = [] \<Longrightarrow>
     on_stores f s = (fst (f None (stores_rt s)), s\<lparr>stores_rt := snd (f None (stores_rt s))\<rparr>)"
  by (simp add: on_stores_def arrive_def split: prod.splits)

lemma memory_task_stores:
  assumes "range_order rng1" "range_order rng2" "range_order rng3"
  shows "task_stores (memory_stores rng1 rng2 rng3) stores_rt fair_schedule"
proof
  fix s s' assume ok: "fair_schedule s" "stores_wf (stores_rt s)"
  note law = on_stores_law [OF ok]
  show "fair_schedule s' \<and> env_step\<^sup>*\<^sup>* (stores_rt s) (stores_rt s') \<and> (\<exists>ctx. r = Get ctx tid (taskStore (stores_rt s')))"
    if "Get_rs (memory_stores rng1 rng2 rng3) tid s = (r, s')" for tid r
    using law that by (fastforce simp: memory_stores_def)
  show "fair_schedule s' \<and> env_step\<^sup>*\<^sup>* (stores_rt s) (stores_rt s') \<and>
      (\<exists>ctx. r = ListByTaskID ctx tid (eventStore (stores_rt s')))"
    if "ListByTaskID_rs (memory_stores rng1 rng2 rng3) tid s = (r, s')" for tid r
    using law that by (fastforce simp: memory_stores_def)
  show "fair_schedule s' \<and> (\<exists>m ctx re ts. valid_ctx ctx \<and> env_step\<^sup>*\<^sup>* (stores_rt s) m \<and>
      RenewLease ctx o2 (taskStore m) = (re, ts) \<and> u = err_result re \<and> stores_rt s' = m\<lparr>taskStore := ts\<rparr>)"
    if "RenewLease_rs (memory_stores rng1 rng2 rng3) o2 s = (u, s')" for o2 u
    using law [of _ u s'] that by (fastforce simp: memory_stores_def split: prod.splits)
  show "fair_schedule s' \<and> (\<exists>m ctx. env_step\<^sup>*\<^sup>* (stores_rt s) m \<and>
      CreateTaskWithEvent ctx t ev m = (cr, stores_rt s'))"
    if "CreateTaskWithEvent_rs (memory_stores rng1 rng2 rng3) t ev s = (cr, s')" for t ev cr
    using law [of _ cr s'] that by (simp add: memory_stores_def) blast
  show "fair_schedule s' \<and> (\<exists>m ctx rng1 rng2. range_order rng1 \<and> range_order rng2 \<and>
      env_step\<^sup>*\<^sup>* (stores_rt s) m \<and> ClaimNextWithEvent rng1 rng2 ctx o1 eid m = (r, stores_rt s'))"
    if "ClaimNextWithEvent_rs (memory_stores rng1 rng2 rng3) o1 eid s = (r, s')" for o1 eid r
    using law [of "\<lambda>ctx. ClaimNextWithEvent rng1 rng2 ctx o1 eid" r s'] that assms
    by (simp add: memory_stores_def) blast
  show "fair_schedule s' \<and> (\<exists>m ctx rng. range_order rng \<and>
      env_step\<^sup>*\<^sup>* (stores_rt s) m \<and> FailNextExpiredWithEvent rng ctx now eid m = (r, stores_rt s'))"
    if "FailNextExpiredWithEvent_rs (memory_stores rng1 rng2 rng3) now eid s = (r, s')" for now eid r
    using law [of "\<lambda>ctx. FailNextExpiredWithEvent rng3 ctx now eid" r s'] that assms
    by (simp add: memory_stores_def) blast
  show "fair_schedule s' \<and> (\<exists>m ctx re. valid_ctx ctx \<and> env_step\<^sup>*\<^sup>* (stores_rt s) m \<and>
      UpdateTaskWithEvent ctx t ev m = (re, stores_rt s') \<and> u = err_result re)"
    if "UpdateTaskWithEvent_rs (memory_stores rng1 rng2 rng3) t ev s = (u, s')" for t ev u
    using law [of _ u s'] that by (fastforce simp: memory_stores_def split: prod.splits)
  show "fair_schedule s' \<and> (\<exists>m ctx. env_step\<^sup>*\<^sup>* (stores_rt s) m \<and>
      CancelTaskWithEvent ctx tid eid now m = (ca, stores_rt s'))"
    if "CancelTaskWithEvent_rs (memory_stores rng1 rng2 rng3) tid eid now s = (ca, s')" for tid eid now ca
    using law [of _ ca s'] that by (simp add: memory_stores_def) blast
  show "fair_schedule s' \<and> env_step\<^sup>*\<^sup>* (stores_rt s) (stores_rt s') \<and> (\<exists>ctx. valid_ctx ctx \<and> u = err_result ctx)"
    if "ctx_Err_rs (memory_stores rng1 rng2 rng3) s = (u, s')" for u
    using law that by (fastforce simp: memory_stores_def)
qed (simp_all add: memory_stores_def fair_schedule_def)

interpretation mem: task_stores "memory_stores (\<lambda>m. m) (\<lambda>m. m) (\<lambda>m. m)" stores_rt fair_schedule
  by (rule memory_task_stores) simp_all

end
