(* ===== verification/Retry.thy ===== *)
theory Retry
  imports StoreInterface
begin

text \<open>
  Execution errors, retry policies, exponential backoff with jitter, and the retry
  scheduler of \<open>internal/worker\<close>, with the scheduler for external workers of
  \<open>cmd/taskpulse/main.go\<close>.  The jitter source (\<open>math/rand\<close>) is a parameter: a function that
  is given the argument of \<open>Int63n\<close>.
\<close>

section \<open>Execution errors\<close>

record ExecutionError =
  Kind_ee :: string
  Code_ee :: string
  RetryAfter_ee :: duration
  Err_ee :: "error option"

definition ErrorTransient :: string where "ErrorTransient = ''transient''"
definition ErrorPermanent :: string where "ErrorPermanent = ''permanent''"

definition Validate_ee :: "ExecutionError option \<Rightarrow> error option" where
  "Validate_ee ee =
     (case ee of
        None \<Rightarrow> Some ErrNilExecutionError
      | Some e \<Rightarrow>
          if Kind_ee e \<noteq> ErrorTransient \<and> Kind_ee e \<noteq> ErrorPermanent then Some ErrInvalidErrorKind
          else if TrimSpace (Code_ee e) = [] then Some ErrEmptyErrorCode
          else if RetryAfter_ee e < 0 then Some ErrInvalidRetryAfter
          else if Kind_ee e = ErrorPermanent \<and> RetryAfter_ee e \<noteq> 0 then Some ErrPermanentRetryAfter
          else None)"

definition NewExecutionError ::
  "string \<Rightarrow> string \<Rightarrow> duration \<Rightarrow> error option \<Rightarrow> ExecutionError result" where
  "NewExecutionError kind code retryAfter cause =
     (let ee = \<lparr>Kind_ee = kind, Code_ee = code, RetryAfter_ee = retryAfter, Err_ee = cause\<rparr> in
      case Validate_ee (Some ee) of Some e \<Rightarrow> Inl e | None \<Rightarrow> Inr ee)"

definition Retryable :: "ExecutionError option \<Rightarrow> bool" where
  "Retryable ee = (case ee of None \<Rightarrow> False | Some e \<Rightarrow> Kind_ee e = ErrorTransient)"

text \<open>An execution error as an \<open>error\<close> value, and \<open>errors.As\<close> back.\<close>

definition of_ee :: "ExecutionError \<Rightarrow> error" where
  "of_ee e = ExecutionErr (Kind_ee e) (Code_ee e) (RetryAfter_ee e) (Err_ee e)"

fun AsExecutionError :: "error \<Rightarrow> ExecutionError option" where
  "AsExecutionError (ExecutionErr k c r e) =
     Some \<lparr>Kind_ee = k, Code_ee = c, RetryAfter_ee = r, Err_ee = e\<rparr>"
| "AsExecutionError (Wrap pre e post) = AsExecutionError e"
| "AsExecutionError e = None"

section \<open>Backoff\<close>

record RetryPolicy =
  MaxRetries_rp :: int
  BaseDelay_rp :: duration
  MaxDelay_rp :: duration

definition Validate_rp :: "RetryPolicy \<Rightarrow> error option" where
  "Validate_rp p =
     (if MaxRetries_rp p < 0 then Some ErrInvalidMaxRetries
      else if BaseDelay_rp p \<le> 0 then Some ErrInvalidBaseDelay
      else if MaxDelay_rp p < BaseDelay_rp p then Some ErrInvalidMaxDelay
      else None)"

text \<open>
  The doubling loop of \<open>Delay\<close>.  The counter stays below \<open>retryCount\<close>, so its increment
  does not wrap.
\<close>

function cap_loop :: "int \<Rightarrow> int \<Rightarrow> duration \<Rightarrow> duration \<Rightarrow> duration" where
  "cap_loop retry retryCount maxDelay capDelay =
     (if retry < retryCount \<and> capDelay < maxDelay then
        if capDelay > go_div maxDelay 2 then maxDelay
        else cap_loop (retry + 1) retryCount maxDelay (i64 (capDelay * 2))
      else capDelay)"
  by pat_completeness auto
termination
  by (relation "measure (\<lambda>(retry, retryCount, _, _). nat (retryCount - retry))") auto

declare cap_loop.simps [simp del]

definition Delay ::
  "(int \<Rightarrow> int) \<Rightarrow> RetryPolicy \<Rightarrow> int \<Rightarrow> duration \<Rightarrow> duration result" where
  "Delay Int63n policy retryCount retryAfter =
     (case Validate_rp policy of Some e \<Rightarrow> Inl e | None \<Rightarrow>
      if retryCount < 1 \<or> retryCount > MaxRetries_rp policy then Inl ErrInvalidRetryCount
      else if retryAfter < 0 then Inl ErrInvalidRetryAfter
      else
        let capDelay = cap_loop 1 retryCount (MaxDelay_rp policy) (BaseDelay_rp policy);
            half = go_div capDelay 2;
            delay = (if half > 0 then i64 (half + Int63n (i64 (half + 1))) else capDelay)
        in if retryAfter > delay then Inr retryAfter else Inr delay)"

section \<open>The scheduler\<close>

text \<open>
  \<open>RetryScheduler.Schedule\<close> changes the task it is given; the model returns that task
  beside the outcome.
\<close>

definition Schedule ::
  "'s runtimeStores \<Rightarrow> (int \<Rightarrow> int) \<Rightarrow> string \<Rightarrow> Task option \<Rightarrow> ExecutionError option \<Rightarrow>
     RetryPolicy \<Rightarrow> time \<Rightarrow> 's \<Rightarrow> unit result \<times> Task option \<times> 's" where
  "Schedule S Int63n newEventID task executionError policy now s =
     (case ctx_Err_rs S s of (Inl e, s1) \<Rightarrow> (Inl e, task, s1) | (Inr _, s1) \<Rightarrow>
     (case task of None \<Rightarrow> (Inl ErrNilTask, task, s1) | Some t \<Rightarrow>
     (case executionError of None \<Rightarrow> (Inl ErrNilExecutionError, task, s1) | Some ee \<Rightarrow>
     (case Validate_ee executionError of Some e \<Rightarrow> (Inl e, task, s1) | None \<Rightarrow>
      if \<not> Retryable executionError then (Inl ErrExecutionNotRetryable, task, s1)
      else if IsZero now then (Inl ErrInvalidRetryNow, task, s1)
      else (case Validate_rp policy of Some e \<Rightarrow> (Inl e, task, s1) | None \<Rightarrow>
        let nextRetryCount = i64 (RetryCount t + 1) in
        if nextRetryCount > MaxRetries t \<or> nextRetryCount > MaxRetries_rp policy
        then (Inl ErrRetryBudgetExhausted, task, s1)
        else (case Delay Int63n policy nextRetryCount (RetryAfter_ee ee) of
            Inl e \<Rightarrow> (Inl e, task, s1)
          | Inr delay \<Rightarrow>
              (case ScheduleRetry (Some t) now (Add_time now delay) of
                 Inl e \<Rightarrow> (Inl e, task, s1)
               | Inr t1 \<Rightarrow>
                   let t2 = t1\<lparr>ErrorMessage := Code_ee ee\<rparr> in
                   (case NewTaskRetryingEvent newEventID (Some t2) (Code_ee ee) delay now of
                      Inl e \<Rightarrow> (Inl e, Some t2, s1)
                    | Inr event \<Rightarrow>
                        (case UpdateTaskWithEvent_rs S (Some t2) (Some event) s1 of
                           (r, s2) \<Rightarrow> (r, Some t2, s2))))))))))"

text \<open>The policies of \<open>newExternalRetryScheduler\<close>, and the policy for other workflows.\<close>

definition external_policies :: "string \<rightharpoonup> RetryPolicy" where
  "external_policies =
     [''llm_analysis'' \<mapsto> \<lparr>MaxRetries_rp = 3, BaseDelay_rp = Second, MaxDelay_rp = 30 * Second\<rparr>]"

definition external_policy :: "Task \<Rightarrow> RetryPolicy" where
  "external_policy t =
     (case external_policies (Workflow t) of
        Some p \<Rightarrow> p
      | None \<Rightarrow> \<lparr>MaxRetries_rp = MaxRetries t, BaseDelay_rp = Second, MaxDelay_rp = 30 * Second\<rparr>)"

definition externalSchedule ::
  "'s runtimeStores \<Rightarrow> (int \<Rightarrow> int) \<Rightarrow> string \<Rightarrow> time \<Rightarrow> Task \<Rightarrow> string \<Rightarrow> string \<Rightarrow> duration \<Rightarrow>
     's \<Rightarrow> unit result \<times> Task \<times> 's" where
  "externalSchedule S Int63n newEventID now task code message retryAfter s =
     (case NewExecutionError ErrorTransient code retryAfter (Some (ErrNew message)) of
        Inl e \<Rightarrow> (Inl e, task, s)
      | Inr ee \<Rightarrow>
          (case Schedule S Int63n newEventID (Some task) (Some ee) (external_policy task) now s of
             (r, t, s') \<Rightarrow> (r, the t, s')))"

section \<open>The delay\<close>

text \<open>The delay cap is the base delay doubled for each earlier retry, cut at the maximum.\<close>

lemma cap_loop_spec:
  assumes "0 < cap" "cap \<le> mx" "in_i64 mx" "retry \<le> n"
  shows "cap_loop retry n mx cap = min mx (cap * 2 ^ nat (n - retry))"
  using assms
proof (induction retry n mx cap rule: cap_loop.induct)
  case (1 retry n mx cap)
  show ?case
  proof (cases "retry < n \<and> cap < mx")
    case False
    with "1.prems" show ?thesis
      by (cases "retry < n") (auto simp: cap_loop.simps [of _ n] min_def mult_le_cancel_left1)
  next
    case True
    then have e: "nat (n - retry) = Suc (nat (n - (retry + 1)))" by linarith
    have half: "go_div mx 2 = mx div 2" using "1.prems" by (simp add: go_div_pos)
    show ?thesis
    proof (cases "cap > mx div 2")
      case big: True
      have "mx \<le> cap * 2" using big by linarith
      also have "\<dots> \<le> cap * 2 ^ nat (n - retry)" using "1.prems"(1) by (simp add: e)
      finally show ?thesis using True big half by (simp add: cap_loop.simps [of retry] min_def)
    next
      case small: False
      then have le: "cap * 2 \<le> mx" by linarith
      with "1.prems" have w: "i64 (cap * 2) = cap * 2" by (intro i64_id) (simp add: in_i64_def)
      have "cap_loop (retry + 1) n mx (cap * 2) = min mx (cap * 2 * 2 ^ nat (n - (retry + 1)))"
        using "1.IH" True small half w le "1.prems" by simp
      with True small half w e show ?thesis by (simp add: cap_loop.simps [of retry] mult.assoc)
    qed
  qed
qed

definition jitter_ok :: "(int \<Rightarrow> int) \<Rightarrow> bool" where
  "jitter_ok Int63n \<longleftrightarrow> (\<forall>n > 0. 0 \<le> Int63n n \<and> Int63n n < n)"

lemma Delay_bounds:
  assumes "Delay Int63n p n after = Inr d" "jitter_ok Int63n" "in_i64 (MaxDelay_rp p)"
  defines "cap \<equiv> min (MaxDelay_rp p) (BaseDelay_rp p * 2 ^ nat (n - 1))"
  shows "max after (cap div 2) \<le> d" "d \<le> max after cap" "0 < d" "1 \<le> n" "n \<le> MaxRetries_rp p"
proof -
  from assms(1) have v: "Validate_rp p = None" "1 \<le> n" "n \<le> MaxRetries_rp p" "0 \<le> after"
    by (auto simp: Delay_def split: option.splits if_splits)
  then have pol: "0 < BaseDelay_rp p" "BaseDelay_rp p \<le> MaxDelay_rp p"
    by (auto simp: Validate_rp_def split: if_splits)
  have cap: "cap_loop 1 n (MaxDelay_rp p) (BaseDelay_rp p) = cap"
    unfolding cap_def by (rule cap_loop_spec [OF pol assms(3) v(2)])
  have pos: "0 < cap" "cap \<le> MaxDelay_rp p" using pol by (auto simp: cap_def)
  have half: "go_div cap 2 = cap div 2" using pos by (simp add: go_div_pos)
  define j where "j = (if cap div 2 > 0 then cap div 2 + Int63n (cap div 2 + 1) else cap)"
  have bound: "cap div 2 \<le> j" "j \<le> cap" "0 < j"
  proof -
    have "0 \<le> Int63n (cap div 2 + 1) \<and> Int63n (cap div 2 + 1) < cap div 2 + 1" if "cap div 2 > 0"
      using assms(2) [unfolded jitter_ok_def, rule_format, of "cap div 2 + 1"] that by simp
    with pos show "cap div 2 \<le> j" "j \<le> cap" "0 < j" by (auto simp: j_def)
  qed
  have lt: "cap < 2 ^ 63" using assms(3) pos by (simp add: in_i64_def)
  then have "cap < 9223372036854775808" by simp
  then have "cap div 2 + 1 < 9223372036854775808" by linarith
  then have wrap: "i64 (cap div 2 + 1) = cap div 2 + 1"
    using pos by (intro i64_id) (simp add: in_i64_def)
  have wrapj: "i64 (cap div 2 + Int63n (cap div 2 + 1)) = j" if "cap div 2 > 0"
  proof -
    have "j = cap div 2 + Int63n (cap div 2 + 1)" using that by (simp add: j_def)
    moreover have "i64 j = j" using bound lt by (intro i64_id) (simp add: in_i64_def)
    ultimately show ?thesis by simp
  qed
  have "d = max after j"
    using assms(1) v wrap wrapj cap half
    by (auto simp: Delay_def Let_def max_def j_def split: if_splits)
  with bound v show "max after (cap div 2) \<le> d" "d \<le> max after cap" "0 < d" "1 \<le> n" "n \<le> MaxRetries_rp p"
    by (auto simp: max_def)
qed

end
