(* ===== verification/JsonRoundtrip.thy ===== *)
theory JsonRoundtrip
  imports Json
begin

text \<open>
  Reading back what the program marshals: \<open>parse_json_print\<close> states that the reader of
  theory \<open>Json\<close> returns the marshalled value for every value whose strings are valid
  UTF-8, whose numbers are integers and which is not nested beyond Go's limit.
\<close>

section \<open>Runes\<close>

lemma rune_size_le: "rune_size s \<le> length s"
  by (cases s rule: rune_size.cases) auto

lemma rune_size_ascii [simp]: "byte_in 0 127 c \<Longrightarrow> rune_size (c # cs) = 1"
  by (cases "c # cs" rule: rune_size.cases) auto

text \<open>A rune at the front of a string is recognised whatever follows it.\<close>

lemma valid_utf8_ascii: "list_all (byte_in 0 127) s \<Longrightarrow> valid_utf8 s"
  by (induction s) (simp_all add: valid_utf8.simps [of "_ # _"] valid_utf8.simps [of "[]"])

lemma rune_size_2: "\<not> byte_in 0 127 b0 \<Longrightarrow> rune2 b0 b1 \<Longrightarrow> rune_size (b0 # b1 # t) = 2"
  by (cases "b0 # b1 # t" rule: rune_size.cases) auto

lemma rune_size_3:
  "\<not> byte_in 0 127 b0 \<Longrightarrow> \<not> rune2 b0 b1 \<Longrightarrow> rune3 b0 b1 b2 \<Longrightarrow> rune_size (b0 # b1 # b2 # t) = 3"
  by (cases "b0 # b1 # b2 # t" rule: rune_size.cases) auto

lemma rune_size_take:
  "0 < rune_size s \<Longrightarrow> rune_size (take (rune_size s) s @ t) = rune_size s"
  by (cases s rule: rune_size.cases) (auto simp: rune_size_2 rune_size_3 split: if_splits)

section \<open>Strings\<close>

lemma hex_val_char [simp]: "n < 16 \<Longrightarrow> hex_val (hex_char n) = Some n"
  by (auto simp: hex_val_def hex_char_def Let_def)

lemma hex_val_0 [simp]: "hex_val (CHR ''0'') = Some 0"
  by (simp add: hex_val_def)

lemma hex4_ascii [simp]:
  "hex4 (CHR ''0'' # CHR ''0'' # hex_char (of_char c div 16) # hex_char (of_char c mod 16) # t)
     = Some (of_char c)"
proof -
  have "of_char c div 16 < (16::nat)"
    using of_char_bound [of c] by linarith
  then show ?thesis by (simp add: hex4_def)
qed

lemma byte_in_ascii: "byte_in 0 127 c \<longleftrightarrow> of_char c < (128::nat)"
  by (auto simp: byte_in_def)

lemma unicode_escape_ascii [simp]:
  "byte_in 0 127 c \<Longrightarrow> unicode_escape (of_char c) s = ([c], 0)"
  by (simp add: unicode_escape_def encode_rune_def byte_in_ascii)

text \<open>One rune of a marshalled string is read back as that rune.\<close>

lemma parse_str_ascii:
  assumes "byte_in 0 127 c"
  shows "parse_str (escape_ascii c @ t) = prepend [c] (parse_str t)"
proof -
  have u: "parse_str (CHR 0x5C # CHR ''u'' # CHR ''0'' # CHR ''0'' #
      hex_char (of_char c div 16) # hex_char (of_char c mod 16) # t) = prepend [c] (parse_str t)"
    using assms by (subst parse_str.simps) simp
  have e: "parse_str (CHR 0x5C # x # t) = prepend [the (simple_escape x)] (parse_str t)"
    if "simple_escape x \<noteq> None" "x \<noteq> CHR ''u''" for x
    using that by (subst parse_str.simps) auto
  have p: "parse_str (c # t) = prepend [c] (parse_str t)"
    if "c \<noteq> CHR 0x22" "c \<noteq> CHR 0x5C" "\<not> of_char c < (32::nat)"
    using assms that by (subst parse_str.simps) simp
  show ?thesis
    by (simp add: escape_ascii_def u e p simple_escape_def)
qed

lemma non_ascii_byte: "\<not> byte_in 0 127 c \<Longrightarrow> c \<noteq> CHR 0x22 \<and> c \<noteq> CHR 0x5C \<and> \<not> of_char c < (32::nat)"
  by (auto simp: byte_in_ascii)

lemma separators_u2028:
  "encode_rune 8232 = [CHR 0xE2, CHR 0x80, CHR 0xA8]" "encode_rune 8233 = [CHR 0xE2, CHR 0x80, CHR 0xA9]"
  by (simp_all add: encode_rune_def char_of_eq_iff)

lemma parse_str_u2028:
  "parse_str (CHR 0x5C # CHR ''u'' # CHR ''2'' # CHR ''0'' # CHR ''2'' # CHR ''8'' # t) =
     prepend (encode_rune 8232) (parse_str t)"
  "parse_str (CHR 0x5C # CHR ''u'' # CHR ''2'' # CHR ''0'' # CHR ''2'' # CHR ''9'' # t) =
     prepend (encode_rune 8233) (parse_str t)"
  by (subst parse_str.simps, simp add: hex4_def hex_val_def unicode_escape_def)+

lemma parse_str_rune:
  assumes "0 < rune_size s" and "\<not> byte_in 0 127 (hd s)"
  shows "parse_str (escape_rune (take (rune_size s) s) @ t) =
    prepend (take (rune_size s) s) (parse_str t)"
proof -
  let ?r = "take (rune_size s) s"
  obtain c cs where s: "s = c # cs"
    using assms by (cases s) auto
  obtain n where n: "rune_size s = Suc n"
    using assms(1) by (cases "rune_size s") auto
  have r: "?r = c # take n cs"
    unfolding n by (simp add: s)
  have "length (take n cs) = n"
    using rune_size_le [of s] by (simp add: n) (simp add: s)
  moreover have "rune_size (c # take n cs @ t) = Suc n"
    using rune_size_take [OF assms(1), of t] by (simp add: r) (simp add: n)
  moreover have "c \<noteq> CHR 0x22 \<and> c \<noteq> CHR 0x5C \<and> \<not> of_char c < (32::nat)"
    using assms(2) by (intro non_ascii_byte) (simp add: s)
  ultimately have "parse_str (c # take n cs @ t) = prepend (c # take n cs) (parse_str t)"
    by (subst parse_str.simps) simp
  then have "parse_str (?r @ t) = prepend ?r (parse_str t)"
    by (simp add: r)
  then show ?thesis
    by (auto simp: escape_rune_def parse_str_u2028 separators_u2028)
qed

lemma parse_str_quote_body:
  "valid_utf8 s \<Longrightarrow> parse_str (quote_body s @ CHR 0x22 # t) = Some (s, t)"
proof (induction s rule: quote_body.induct)
  case (1 s)
  show ?case
  proof (cases s)
    case Nil
    then show ?thesis by (simp add: quote_body.simps [of "[]"] parse_str.simps [of "CHR 0x22 # t"])
  next
    case (Cons c cs)
    with "1.prems" have v: "0 < rune_size s" "valid_utf8 (drop (rune_size s) s)"
      by (simp_all add: valid_utf8.simps [of "c # cs"] split: if_splits)
    show ?thesis
    proof (cases "byte_in 0 127 c")
      case True
      with Cons "1.IH"(1) [of c cs] v show ?thesis
        by (simp add: quote_body.simps [of "c # cs"] parse_str_ascii prepend_def)
    next
      case False
      with Cons "1.IH"(3) [of c cs] v parse_str_rune [of s] show ?thesis
        by (simp add: quote_body.simps [of "c # cs"] prepend_def)
    qed
  qed
qed

section \<open>Numbers\<close>

definition number_stop :: "string \<Rightarrow> bool" where
  "number_stop t \<longleftrightarrow>
     (case t of [] \<Rightarrow> True
      | c # _ \<Rightarrow> \<not> is_digit c \<and> c \<noteq> CHR ''.'' \<and> c \<noteq> CHR ''e'' \<and> c \<noteq> CHR ''E'')"

lemma takeWhile_digits: "\<forall>c \<in> set ds. is_digit c \<Longrightarrow> number_stop t \<Longrightarrow>
    takeWhile is_digit (ds @ t) = ds \<and> dropWhile is_digit (ds @ t) = t"
  by (induction ds) (auto simp: number_stop_def split: list.splits)

lemma show_nat_head: "show_nat n = c # cs \<Longrightarrow> c = CHR ''0'' \<Longrightarrow> n = 0"
proof (induction n arbitrary: c cs rule: show_nat.induct)
  case (1 n)
  show ?case
  proof (cases "n < 10")
    case True
    then have "digit_char n = CHR ''0''"
      using "1.prems" by (simp add: show_nat.simps [of n])
    then have "digit_val (digit_char n) = 0" by (simp add: digit_val_def)
    with True show ?thesis by simp
  next
    case False
    then obtain d ds where d: "show_nat (n div 10) = d # ds"
      by (cases "show_nat (n div 10)") auto
    with False "1.prems" have "d = CHR ''0''" by (simp add: show_nat.simps [of n])
    with "1.IH" [OF False d] have "n div 10 = 0" by simp
    with False show ?thesis by simp
  qed
qed

lemma lex_unsigned_show_nat: "number_stop t \<Longrightarrow> lex_unsigned (show_nat n @ t) = Some (show_nat n, t)"
proof -
  assume t: "number_stop t"
  obtain c cs where c: "show_nat n = c # cs" by (cases "show_nat n") auto
  have "is_digit c" and cs: "\<forall>x \<in> set cs. is_digit x"
    using show_nat_digits [of n] by (auto simp: c)
  have "c = CHR ''0'' \<Longrightarrow> cs = []"
    using show_nat_head [OF c] c by (auto simp: show_nat.simps)
  with \<open>is_digit c\<close> takeWhile_digits [OF cs t] have "lex_int (show_nat n @ t) = Some (show_nat n, t)"
    by (auto simp: lex_int_def c)
  moreover have "lex_frac t = Some ([], t)" "lex_exp t = Some ([], t)"
    using t by (auto simp: lex_frac_def lex_exp_def number_stop_def split: list.splits)
  ultimately show ?thesis by (simp add: lex_unsigned_def)
qed

lemma is_digit_minus [simp]: "\<not> is_digit (CHR ''-'')"
  by (simp add: is_digit_def)

lemma lex_number_show_int: "number_stop t \<Longrightarrow> lex_number (show_int i @ t) = Some (show_int i, t)"
proof -
  assume t: "number_stop t"
  obtain c cs where c: "show_nat (nat i) = c # cs" by (cases "show_nat (nat i)") auto
  with show_nat_digits [of "nat i"] have "c \<noteq> CHR ''-''" by auto
  then show ?thesis
    using lex_unsigned_show_nat [OF t, of "nat i"] lex_unsigned_show_nat [OF t, of "nat (- i)"]
    by (auto simp: lex_number_def show_int_def c)
qed

section \<open>Values\<close>

fun json_ok :: "json \<Rightarrow> bool" where
  "json_ok JNull = True"
| "json_ok (JBool b) = True"
| "json_ok (JNumber l) = (\<exists>i. l = show_int i)"
| "json_ok (JString s) = valid_utf8 s"
| "json_ok (JArray vs) = list_all json_ok vs"
| "json_ok (JObject kvs) = list_all (\<lambda>(k, v). valid_utf8 k \<and> json_ok v) kvs"

fun jdepth :: "json \<Rightarrow> nat" where
  "jdepth (JArray vs) = Suc (foldr (\<lambda>v. max (jdepth v)) vs 0)"
| "jdepth (JObject kvs) = Suc (foldr (\<lambda>(k, v). max (jdepth v)) kvs 0)"
| "jdepth v = 0"

fun jfuel :: "json \<Rightarrow> nat" where
  "jfuel (JArray vs) = Suc (sum_list (map (\<lambda>v. Suc (jfuel v)) vs))"
| "jfuel (JObject kvs) = Suc (sum_list (map (\<lambda>(k, v). Suc (jfuel v)) kvs))"
| "jfuel v = 1"

lemma skip_ws_head [simp]: "\<not> is_ws c \<Longrightarrow> skip_ws (c # cs) = c # cs"
  by (simp add: skip_ws_def)

lemma is_ws_chars [simp]:
  "\<not> is_ws (CHR 0x22)" "\<not> is_ws (CHR '','')" "\<not> is_ws (CHR '']'')" "\<not> is_ws (CHR ''}'')"
  "\<not> is_ws (CHR ''['')" "\<not> is_ws (CHR ''{'')" "\<not> is_ws (CHR '':'')" "\<not> is_ws (CHR ''n'')"
  "\<not> is_ws (CHR ''t'')" "\<not> is_ws (CHR ''f'')" "\<not> is_ws (CHR ''-'')"
  by (simp_all add: is_ws_def)

lemma number_stop_sep [simp]:
  "number_stop (CHR '','' # t)" "number_stop (CHR '']'' # t)" "number_stop (CHR ''}'' # t)" "number_stop []"
  by (simp_all add: number_stop_def is_digit_def)

text \<open>The first byte of a value decides how it is read; it is never white space.\<close>

lemma show_int_head:
  obtains c cs where "show_int i = c # cs" "is_digit c \<or> c = CHR ''-''"
proof (cases "i < 0")
  case True
  then show ?thesis using that by (simp add: show_int_def)
next
  case False
  obtain c cs where "show_nat (nat i) = c # cs" by (cases "show_nat (nat i)") auto
  with False show_nat_digits [of "nat i"] show ?thesis by (intro that) (auto simp: show_int_def)
qed

lemma digit_not_structural [simp]:
  assumes "is_digit c \<or> c = CHR ''-''"
  shows "\<not> is_ws c" "c \<noteq> CHR 0x22" "c \<noteq> CHR ''[''" "c \<noteq> CHR ''{''" "c \<noteq> CHR ''n''"
    "c \<noteq> CHR ''t''" "c \<noteq> CHR ''f''" "c \<noteq> CHR '']''" "c \<noteq> CHR ''}''"
  using assms by (auto simp: is_digit_def is_ws_def)

lemma json_print_head:
  "json_ok v \<Longrightarrow> \<exists>c cs. json_print v = c # cs \<and> \<not> is_ws c \<and> c \<noteq> CHR '']'' \<and> c \<noteq> CHR ''}''"
proof (cases v)
  case (JNumber l)
  moreover assume "json_ok v"
  ultimately obtain i where "v = JNumber (show_int i)" by auto
  then show ?thesis using show_int_head [of i] digit_not_structural by (metis json_print.simps(3))
qed (auto simp: json_quote_def)

lemma parse_value_number:
  "number_stop t \<Longrightarrow> parse_value (Suc n) d (show_int i @ t) = Some (JNumber (show_int i), t)"
proof -
  assume t: "number_stop t"
  obtain c cs where c: "show_int i = c # cs" "is_digit c \<or> c = CHR ''-''" by (rule show_int_head)
  then have "c \<noteq> CHR ''n''" "c \<noteq> CHR ''t''" "c \<noteq> CHR ''f''" by simp_all
  with c lex_number_show_int [OF t, of i] show ?thesis by simp
qed

text \<open>What the main induction provides for a value, whatever follows it.\<close>

definition reads_back :: "json \<Rightarrow> bool" where
  "reads_back v \<longleftrightarrow>
     (\<forall>n d t. jfuel v \<le> n \<longrightarrow> jdepth v \<le> d \<longrightarrow> number_stop t \<longrightarrow>
        parse_value n d (json_print v @ t) = Some (v, t))"

lemma skip_ws_print [simp]: "json_ok v \<Longrightarrow> skip_ws (json_print v @ t) = json_print v @ t"
  using json_print_head [of v] by auto

lemma skip_ws_quote [simp]: "skip_ws (json_quote k @ t) = json_quote k @ t"
  by (simp add: json_quote_def)

lemma skip_ws_elems:
  "vs \<noteq> [] \<Longrightarrow> list_all json_ok vs \<Longrightarrow>
     skip_ws (join '','' (map json_print vs) @ t) = join '','' (map json_print vs) @ t"
  by (cases vs; cases "tl vs") auto

lemma parse_elems_print:
  "vs \<noteq> [] \<Longrightarrow> list_all json_ok vs \<Longrightarrow> list_all reads_back vs \<Longrightarrow>
   foldr (\<lambda>v. max (jdepth v)) vs 0 \<le> d \<Longrightarrow> sum_list (map (\<lambda>v. Suc (jfuel v)) vs) \<le> n \<Longrightarrow>
   parse_elems n d (join '','' (map json_print vs) @ CHR '']'' # t) = Some (vs, t)"
proof (induction vs arbitrary: n)
  case (Cons v vs)
  then obtain m where n: "n = Suc m" and m: "jfuel v \<le> m" "sum_list (map (\<lambda>v. Suc (jfuel v)) vs) \<le> m"
    by (cases n) auto
  from Cons.prems have v: "reads_back v" "jdepth v \<le> d" by auto
  show ?case
  proof (cases vs)
    case Nil
    with n m v show ?thesis by (simp add: reads_back_def)
  next
    case (Cons w ws)
    with Cons.IH [of m] Cons.prems m
    have "parse_elems m d (join '','' (map json_print vs) @ CHR '']'' # t) = Some (vs, t)" by simp
    with n m v Cons Cons.prems skip_ws_elems [of vs "CHR '']'' # t"] show ?thesis
      by (simp add: reads_back_def)
  qed
qed simp

lemma parse_members_print:
  "kvs \<noteq> [] \<Longrightarrow> list_all (\<lambda>(k, v). valid_utf8 k \<and> json_ok v) kvs \<Longrightarrow>
   list_all (\<lambda>(k, v). reads_back v) kvs \<Longrightarrow>
   foldr (\<lambda>(k, v). max (jdepth v)) kvs 0 \<le> d \<Longrightarrow> sum_list (map (\<lambda>(k, v). Suc (jfuel v)) kvs) \<le> n \<Longrightarrow>
   parse_members n d
     (join '','' (map (\<lambda>(k, v). json_quote k @ '':'' @ json_print v) kvs) @ CHR ''}'' # t) = Some (kvs, t)"
proof (induction kvs arbitrary: n)
  case (Cons kv kvs)
  obtain k v where kv: "kv = (k, v)" by fastforce
  from Cons.prems obtain m where n: "n = Suc m"
    and m: "jfuel v \<le> m" "sum_list (map (\<lambda>(k, v). Suc (jfuel v)) kvs) \<le> m"
    by (cases n) (auto simp: kv)
  from Cons.prems have v: "reads_back v" "jdepth v \<le> d" "json_ok v" "valid_utf8 k" by (auto simp: kv)
  show ?case
  proof (cases kvs)
    case Nil
    with n m v show ?thesis by (simp add: reads_back_def kv json_quote_def parse_str_quote_body)
  next
    case (Cons w ws)
    with Cons.IH [of m] Cons.prems m
    have "parse_members m d
       (join '','' (map (\<lambda>(k, v). json_quote k @ '':'' @ json_print v) kvs) @ CHR ''}'' # t) = Some (kvs, t)"
      by (simp add: kv)
    moreover have "skip_ws (join '','' (map (\<lambda>(k, v). json_quote k @ '':'' @ json_print v) kvs) @ u) =
       join '','' (map (\<lambda>(k, v). json_quote k @ '':'' @ json_print v) kvs) @ u" for u
      by (cases ws; cases w) (simp_all add: Cons)
    ultimately show ?thesis
      using n m v Cons by (simp add: reads_back_def kv json_quote_def parse_str_quote_body)
  qed
qed simp

lemma reads_back_print: "json_ok v \<Longrightarrow> reads_back v"
proof (induction v)
  case (JNumber l)
  then obtain i where "l = show_int i" by auto
  then show ?case by (auto simp: reads_back_def le_Suc_eq gr0_conv_Suc Suc_le_eq parse_value_number
        simp del: parse_value.simps)
next
  case (JArray vs)
  then have ih: "list_all reads_back vs" by (simp add: list_all_iff)
  show ?case
    unfolding reads_back_def
  proof (intro allI impI)
    fix n d t
    assume a: "jfuel (JArray vs) \<le> n" "jdepth (JArray vs) \<le> d" "number_stop t"
    then obtain m e where [simp]: "n = Suc m" "d = Suc e" by (cases n; cases d) auto
    have "skip_ws (join '','' (map json_print vs) @ CHR '']'' # t) \<noteq> [] \<and>
      hd (join '','' (map json_print vs) @ CHR '']'' # t) \<noteq> CHR '']''" if "vs \<noteq> []"
    proof -
      from that obtain w ws where vs: "vs = w # ws" by (cases vs) auto
      with JArray.prems obtain c cs where "json_print w = c # cs" "c \<noteq> CHR '']''"
        using json_print_head [of w] by auto
      then show ?thesis using JArray skip_ws_elems [of vs "CHR '']'' # t"] vs by (cases ws) auto
    qed
    with a JArray.prems ih parse_elems_print [of vs e m t] skip_ws_elems [of vs "CHR '']'' # t"]
    show "parse_value n d (json_print (JArray vs) @ t) = Some (JArray vs, t)"
      by (cases "vs = []") (auto simp: take_Suc hd_append split: if_splits)
  qed
next
  case (JObject kvs)
  then have ih: "list_all (\<lambda>(k, v). reads_back v) kvs" by (fastforce simp: list_all_iff)
  show ?case
    unfolding reads_back_def
  proof (intro allI impI)
    fix n d t
    assume a: "jfuel (JObject kvs) \<le> n" "jdepth (JObject kvs) \<le> d" "number_stop t"
    then obtain m e where [simp]: "n = Suc m" "d = Suc e" by (cases n; cases d) auto
    let ?body = "join '','' (map (\<lambda>(k, v). json_quote k @ '':'' @ json_print v) kvs) @ CHR ''}'' # t"
    have "\<exists>r. ?body = CHR 0x22 # r" if "kvs \<noteq> []"
      using that by (cases kvs; cases "tl kvs") (auto simp: json_quote_def split: prod.splits)
    with a JObject.prems ih parse_members_print [of kvs e m t]
    show "parse_value n d (json_print (JObject kvs) @ t) = Some (JObject kvs, t)"
      by (cases "kvs = []") auto
  qed
qed (auto simp: reads_back_def Suc_le_eq gr0_conv_Suc json_quote_def parse_str_quote_body)

text \<open>The fuel that \<open>parse_json\<close> supplies is enough.\<close>

lemma join_length_ge:
  "xs \<noteq> [] \<Longrightarrow> length sep = 1 \<Longrightarrow> sum_list (map length xs) + length xs \<le> Suc (length (join sep xs))"
  by (induction sep xs rule: join.induct) auto

lemma jfuel_elems:
  "\<forall>x \<in> set xs. f x \<le> 2 * length (g x) \<Longrightarrow>
   sum_list (map (\<lambda>x. Suc (f x)) xs) \<le> 2 * sum_list (map (\<lambda>x. length (g x)) xs) + length xs"
  by (induction xs) auto

lemma jfuel_le: "json_ok v \<Longrightarrow> jfuel v \<le> 2 * length (json_print v)"
proof (induction v)
  case (JNumber l)
  then obtain i where "l = show_int i" by auto
  moreover have "show_int i \<noteq> []" by (simp add: show_int_def)
  ultimately show ?case by (simp add: Suc_le_eq)
next
  case (JArray vs)
  then have "\<forall>v \<in> set vs. jfuel v \<le> 2 * length (json_print v)" by (simp add: list_all_iff)
  from jfuel_elems [OF this] join_length_ge [of "map json_print vs" "'',''"] show ?case
    by (cases "vs = []") (auto simp: comp_def)
next
  case (JObject kvs)
  let ?g = "\<lambda>(k, v). json_quote k @ '':'' @ json_print v"
  have "\<forall>kv \<in> set kvs. jfuel (snd kv) \<le> 2 * length (?g kv)"
    using JObject by (fastforce simp: list_all_iff)
  from jfuel_elems [OF this] join_length_ge [of "map ?g kvs" "'',''"] show ?case
    by (cases "kvs = []") (auto simp: comp_def case_prod_beta')
qed (auto simp: json_quote_def)

lemma parse_json_print:
  assumes "json_ok v" and "jdepth v \<le> max_nesting"
  shows "parse_json (json_print v) = Some v"
proof -
  have "skip_ws (json_print v) = json_print v"
    using skip_ws_print [OF assms(1), of "[]"] by simp
  moreover have "parse_value (2 * length (json_print v) + 2) max_nesting (json_print v @ []) = Some (v, [])"
    using reads_back_print [OF assms(1)] jfuel_le [OF assms(1)] assms(2) number_stop_sep(4)
    unfolding reads_back_def by (meson trans_le_add1)
  ultimately show ?thesis by (simp add: parse_json_def skip_ws_def)
qed

end
