(* ===== verification/LeaseToken.thy ===== *)
theory LeaseToken
  imports JsonRoundtrip Base64 Domain
begin

text \<open>
  The lease tokens of \<open>internal/application/worker_task_service.go\<close>: the triple of task id,
  worker id and version as a JSON object in unpadded URL-safe base64, and its decoding by
  \<open>encoding/json\<close> into a struct (members matched to fields ignoring case, later members
  win, \<open>null\<close> leaves a field alone, a member of the wrong type fails the whole).
\<close>

record leaseTokenPayload =
  TaskID_lt :: string
  WorkerID_lt :: string
  Version_lt :: uint64

section \<open>Decoding JSON into struct fields\<close>

text \<open>\<open>strconv.ParseUint(l, 10, 64)\<close> on a JSON number literal.\<close>

definition ParseUint :: "string \<Rightarrow> uint64 option" where
  "ParseUint l =
     (if l \<noteq> [] \<and> list_all is_digit l \<and> read_nat l < 2 ^ 64 then Some (of_nat (read_nat l)) else None)"

definition string_field :: "json \<Rightarrow> string \<Rightarrow> string option" where
  "string_field v old = (case v of JNull \<Rightarrow> Some old | JString s \<Rightarrow> Some s | _ \<Rightarrow> None)"

definition uint64_field :: "json \<Rightarrow> uint64 \<Rightarrow> uint64 option" where
  "uint64_field v old = (case v of JNull \<Rightarrow> Some old | JNumber l \<Rightarrow> ParseUint l | _ \<Rightarrow> None)"

fun token_members :: "(string \<times> json) list \<Rightarrow> leaseTokenPayload \<Rightarrow> leaseTokenPayload option" where
  "token_members [] p = Some p"
| "token_members ((k, v) # kvs) p =
     (if field_match ''task_id'' k then
        (case string_field v (TaskID_lt p) of
           None \<Rightarrow> None | Some x \<Rightarrow> token_members kvs (p\<lparr>TaskID_lt := x\<rparr>))
      else if field_match ''worker_id'' k then
        (case string_field v (WorkerID_lt p) of
           None \<Rightarrow> None | Some x \<Rightarrow> token_members kvs (p\<lparr>WorkerID_lt := x\<rparr>))
      else if field_match ''version'' k then
        (case uint64_field v (Version_lt p) of
           None \<Rightarrow> None | Some x \<Rightarrow> token_members kvs (p\<lparr>Version_lt := x\<rparr>))
      else token_members kvs p)"

definition empty_payload :: leaseTokenPayload where
  "empty_payload = \<lparr>TaskID_lt = [], WorkerID_lt = [], Version_lt = 0\<rparr>"

definition unmarshal_token :: "raw_json \<Rightarrow> leaseTokenPayload option" where
  "unmarshal_token raw =
     (case parse_json raw of
        Some (JObject kvs) \<Rightarrow> token_members kvs empty_payload
      | Some JNull \<Rightarrow> Some empty_payload
      | _ \<Rightarrow> None)"

section \<open>Tokens\<close>

definition token_json :: "Task \<Rightarrow> json" where
  "token_json t =
     JObject [(''task_id'', JString (ID t)), (''worker_id'', JString (LeaseOwner t)),
              (''version'', JInt (uint (Version t)))]"

definition makeLeaseToken :: "Task \<Rightarrow> string" where
  "makeLeaseToken t = EncodeToString (json_print (token_json t))"

definition parseLeaseToken :: "string \<Rightarrow> leaseTokenPayload result" where
  "parseLeaseToken raw =
     (case DecodeString raw of
        None \<Rightarrow> Inl ErrLeaseLost
      | Some decoded \<Rightarrow>
          (case unmarshal_token decoded of
             None \<Rightarrow> Inl ErrLeaseLost
           | Some p \<Rightarrow>
               if TaskID_lt p = [] \<or> WorkerID_lt p = [] \<or> Version_lt p = 0 then Inl ErrLeaseLost
               else Inr p))"

definition withLeaseToken :: "Task \<Rightarrow> Task" where
  "withLeaseToken t =
     (if LeaseOwner t = [] then t
      else t\<lparr>LeaseToken := makeLeaseToken t, TaskID := ID t, LeaseUntil := LeaseExpiresAt t\<rparr>)"

section \<open>Round trip\<close>

lemma ParseUint_show: "ParseUint (show_int (uint v)) = Some v"
proof -
  have n: "nat (uint v) = unat v" by simp
  have "show_int (uint v) = show_nat (unat v)" by (simp add: show_int_def n)
  moreover have "unat v < 2 ^ 64" using unsigned_less [of v] by simp
  ultimately show ?thesis
    using show_nat_digits [of "unat v"] by (simp add: ParseUint_def read_show_nat list_all_iff)
qed

lemma token_members_token_json:
  "unmarshal_token (json_print (token_json t)) =
     Some \<lparr>TaskID_lt = ID t, WorkerID_lt = LeaseOwner t, Version_lt = Version t\<rparr>"
  if "valid_utf8 (ID t)" "valid_utf8 (LeaseOwner t)"
proof -
  have "json_ok (token_json t)"
    using that by (auto simp: token_json_def intro!: valid_utf8_ascii simp: byte_in_def)
  moreover have "jdepth (token_json t) \<le> max_nesting"
    by (simp add: token_json_def max_nesting_def)
  ultimately have "parse_json (json_print (token_json t)) = Some (token_json t)"
    by (rule parse_json_print)
  then show ?thesis
    by (simp add: unmarshal_token_def token_json_def field_match_def string_field_def uint64_field_def
        ParseUint_show empty_payload_def byte_in_def)
qed

text \<open>The token of a leased task is read back as its id, its owner and its version.\<close>

lemma parse_makeLeaseToken:
  assumes "valid_utf8 (ID t)" "valid_utf8 (LeaseOwner t)" "ID t \<noteq> []" "LeaseOwner t \<noteq> []" "Version t \<noteq> 0"
  shows "parseLeaseToken (makeLeaseToken t) =
    Inr \<lparr>TaskID_lt = ID t, WorkerID_lt = LeaseOwner t, Version_lt = Version t\<rparr>"
  using token_members_token_json [OF assms(1,2)] assms(3-5)
  by (simp add: parseLeaseToken_def makeLeaseToken_def DecodeString_EncodeToString)

lemma parseLeaseToken_Inr [go_dest]:
  "parseLeaseToken raw = Inr p \<Longrightarrow> TaskID_lt p \<noteq> [] \<and> WorkerID_lt p \<noteq> [] \<and> Version_lt p \<noteq> 0"
  by (auto simp: parseLeaseToken_def split: option.splits if_splits)

lemma parseLeaseToken_Inl: "parseLeaseToken raw = Inl e \<Longrightarrow> e = ErrLeaseLost"
  by (auto simp: parseLeaseToken_def split: option.splits if_splits)

end
