(* ===== verification/WorkerService.thy ===== *)
theory WorkerService
  imports Retry LeaseToken JsonValue
begin

text \<open>
  \<open>WorkerTaskService\<close> of \<open>internal/application/worker_task_service.go\<close>: the operations of the
  worker protocol, over any stores.  Every reading of the clock and every generated id is an
  argument, in the order in which the code takes them (\<open>pnow\<close> is the reading inside
  \<open>prepareRunningTask\<close>).
\<close>

section \<open>Requests\<close>

record ClaimTaskInput =
  WorkerID_ci :: string
  Workflow_ci :: string
  LeaseDuration_ci :: duration

record HeartbeatTaskInput =
  TaskID_hi :: string
  WorkerID_hi :: string
  LeaseToken_hi :: string
  LeaseDuration_hi :: duration

record CompleteTaskInput =
  TaskID_cm :: string
  WorkerID_cm :: string
  Version_cm :: uint64
  LeaseToken_cm :: string
  Output_cm :: raw_json
  ResultRef_cm :: raw_json

record ReportProgressInput =
  TaskID_pi :: string
  WorkerID_pi :: string
  Version_pi :: uint64
  LeaseToken_pi :: string
  Progress_pi :: int
  Message_pi :: string

record FailTaskInput =
  TaskID_fi :: string
  WorkerID_fi :: string
  Version_fi :: uint64
  LeaseToken_fi :: string
  ErrorCode_fi :: string
  ErrorMessage_fi :: string
  Retryable_fi :: bool
  RetryAfter_fi :: duration

record ReleaseTaskInput =
  TaskID_ri :: string
  WorkerID_ri :: string
  Version_ri :: uint64
  LeaseToken_ri :: string

section \<open>Helpers\<close>

definition jsonSemanticallyEqual :: "raw_json \<Rightarrow> raw_json \<Rightarrow> bool" where
  "jsonSemanticallyEqual left right =
     (case (unmarshal_any left, unmarshal_any right) of
        (Some l, Some r) \<Rightarrow> l = r
      | _ \<Rightarrow> False)"

definition taskElapsed :: "Task option \<Rightarrow> time \<Rightarrow> duration" where
  "taskElapsed task now =
     (case task of
        None \<Rightarrow> 0
      | Some t \<Rightarrow>
          let startedAt = (case StartedAt t of Some u \<Rightarrow> u | None \<Rightarrow> CreatedAt t) in
          if now < startedAt then 0 else Sub_time now startedAt)"

definition recordLeaseLoss :: "'s runtimeStores \<Rightarrow> string \<Rightarrow> error \<Rightarrow> 's \<Rightarrow> 's" where
  "recordLeaseLoss S taskID err s =
     (if \<not> errors_Is err ErrLeaseLost then s
      else (case Get_rs S taskID s of
          (Inl _, s1) \<Rightarrow> s1
        | (Inr t, s1) \<Rightarrow> metrics_rs S (RecordLeaseLost (Workflow t)) s1))"

text \<open>The checks on a token that do not need the store.\<close>

definition token_claims :: "string \<Rightarrow> string \<Rightarrow> string \<Rightarrow> leaseTokenPayload result" where
  "token_claims taskID workerID token =
     (if TrimSpace token = [] then Inl ErrLeaseLost
      else (case parseLeaseToken token of
          Inl _ \<Rightarrow> Inl ErrLeaseLost
        | Inr p \<Rightarrow>
            if TaskID_lt p \<noteq> taskID \<or> WorkerID_lt p \<noteq> workerID then Inl ErrLeaseLost else Inr p))"

definition validateLeaseToken ::
  "'s runtimeStores \<Rightarrow> string \<Rightarrow> string \<Rightarrow> string \<Rightarrow> ('s, unit) op" where
  "validateLeaseToken S taskID workerID token =
     bind (of_result (token_claims taskID workerID token)) (\<lambda>p.
     bind (Get_rs S taskID) (\<lambda>t.
       if Version t \<noteq> Version_lt p \<or> LeaseOwner t \<noteq> workerID then raise ErrLeaseLost else ret ()))"

definition resolveLeaseVersion ::
  "'s runtimeStores \<Rightarrow> string \<Rightarrow> string \<Rightarrow> uint64 \<Rightarrow> string \<Rightarrow> ('s, uint64) op" where
  "resolveLeaseVersion S taskID workerID version token =
     bind (of_result (token_claims taskID workerID token)) (\<lambda>p.
     bind (validateLeaseToken S taskID workerID token) (\<lambda>_.
       ret (Version_lt p)))"

text \<open>The task, when the request was served before (\<open>replayed\<close>), or nothing.\<close>

definition replayWorkerOperation ::
  "'s runtimeStores \<Rightarrow> string \<Rightarrow> string \<Rightarrow> string \<Rightarrow> TaskStatus list \<Rightarrow> ('s, Task option) op" where
  "replayWorkerOperation S taskID workerID token statuses =
     bind (of_result (token_claims taskID workerID token)) (\<lambda>p.
     bind (Get_rs S taskID) (\<lambda>t.
       if Version t \<noteq> Version_lt p + 1 then ret None
       else if Status t \<in> set statuses then ret (Some t) else ret None))"

definition prepareRunningTask ::
  "'s runtimeStores \<Rightarrow> time \<Rightarrow> string \<Rightarrow> string \<Rightarrow> uint64 \<Rightarrow> ('s, Task) op" where
  "prepareRunningTask S now taskID workerID version =
     (if taskID = [] \<or> TrimSpace workerID = [] then raise ErrInvalidWorkerRequest
      else bind (Get_rs S taskID) (\<lambda>t.
        if Status t \<noteq> TaskStatusRunning \<or> LeaseOwner t \<noteq> workerID \<or>
           (case LeaseExpiresAt t of None \<Rightarrow> True | Some l \<Rightarrow> \<not> l > now)
        then raise ErrLeaseLost
        else if Version t \<noteq> version then raise ErrTaskConflict
        else ret t))"

section \<open>Claim and heartbeat\<close>

definition ClaimTask ::
  "'s runtimeStores \<Rightarrow> time \<Rightarrow> string \<Rightarrow> ClaimTaskInput \<Rightarrow> ('s, Task) op" where
  "ClaimTask S now eventID input =
     (if TrimSpace (WorkerID_ci input) = [] \<or> TrimSpace (Workflow_ci input) = []
         \<or> LeaseDuration_ci input \<le> 0
      then raise ErrInvalidWorkerRequest
      else bind (ClaimNextWithEvent_rs S
          \<lparr>WorkerID_co = WorkerID_ci input, Workflow_co = TrimSpace (Workflow_ci input),
           Now_co = now, LeaseDuration_co = LeaseDuration_ci input\<rparr> eventID) (\<lambda>t.
        effect (metrics_rs S (RecordTaskClaimed (Workflow t))) (ret (withLeaseToken t))))"

definition HeartbeatTask ::
  "'s runtimeStores \<Rightarrow> time \<Rightarrow> HeartbeatTaskInput \<Rightarrow> ('s, Task) op" where
  "HeartbeatTask S now input =
     (if TaskID_hi input = [] \<or> TrimSpace (WorkerID_hi input) = [] \<or> LeaseDuration_hi input \<le> 0
      then raise ErrInvalidWorkerRequest
      else attempt (validateLeaseToken S (TaskID_hi input) (WorkerID_hi input) (LeaseToken_hi input)) (\<lambda>r.
        case r of
          Inl e \<Rightarrow> effect (recordLeaseLoss S (TaskID_hi input) e) (raise e)
        | Inr _ \<Rightarrow>
            attempt (RenewLease_rs S \<lparr>TaskID_rl = TaskID_hi input, WorkerID_rl = WorkerID_hi input,
                Now_rl = now, LeaseDuration_rl = LeaseDuration_hi input\<rparr>) (\<lambda>r.
              case r of
                Inl e \<Rightarrow> effect (recordLeaseLoss S (TaskID_hi input) e) (raise e)
              | Inr _ \<Rightarrow>
                  bind (Get_rs S (TaskID_hi input)) (\<lambda>t.
                    effect (metrics_rs S (RecordLeaseRenewed (Workflow t))) (ret (withLeaseToken t))))))"

section \<open>Complete\<close>

definition completion_result :: "CompleteTaskInput \<Rightarrow> raw_json" where
  "completion_result input =
     (let r = (if ResultRef_cm input = [] then Output_cm input else ResultRef_cm input) in
      if r = [] then ''{}'' else r)"

definition worker_payload :: "string \<Rightarrow> raw_json" where
  "worker_payload workerID = json_print (JObject [(''worker_id'', JString workerID)])"

definition CompleteTask ::
  "'s runtimeStores \<Rightarrow> time \<Rightarrow> time \<Rightarrow> string \<Rightarrow> CompleteTaskInput \<Rightarrow> ('s, Task) op" where
  "CompleteTask S pnow now eventID input =
     (let result = completion_result input in
      bind (replayWorkerOperation S (TaskID_cm input) (WorkerID_cm input) (LeaseToken_cm input)
        [TaskStatusSucceeded]) (\<lambda>replayed.
      case replayed of
        Some t \<Rightarrow> if \<not> jsonSemanticallyEqual (Result t) result then raise ErrTaskConflict else ret t
      | None \<Rightarrow>
          bind (resolveLeaseVersion S (TaskID_cm input) (WorkerID_cm input) (Version_cm input)
            (LeaseToken_cm input)) (\<lambda>version.
          bind (prepareRunningTask S pnow (TaskID_cm input) (WorkerID_cm input) version) (\<lambda>t.
          bind (of_result (MoveTo (Some (t\<lparr>Result := result, Progress := 100\<rparr>)) TaskStatusSucceeded now)) (\<lambda>t1.
          bind (of_result (NewTaskEvent eventID (ID t1) EventTaskSucceeded
            ''task succeeded by external worker'' (worker_payload (WorkerID_cm input)) (Progress t1) now)) (\<lambda>ev.
          bind (UpdateTaskWithEvent_rs S (Some t1) (Some ev)) (\<lambda>_.
            effect (metrics_rs S (RecordTaskCompleted (Workflow t1) TaskStatusSucceeded
              (taskElapsed (Some t1) now))) (ret t1))))))))"

section \<open>Progress\<close>

definition progress_message :: "ReportProgressInput \<Rightarrow> string" where
  "progress_message input =
     (let m = TrimSpace (Message_pi input) in if m = [] then ''task progress updated'' else m)"

definition ReportProgress ::
  "'s runtimeStores \<Rightarrow> time \<Rightarrow> time \<Rightarrow> string \<Rightarrow> ReportProgressInput \<Rightarrow> ('s, Task) op" where
  "ReportProgress S pnow now eventID input =
     (if Progress_pi input < 0 \<or> Progress_pi input \<ge> 100
      then raise (Wrap [] ErrInvalidWorkerRequest '': progress must be between 0 and 99'')
      else
        bind (resolveLeaseVersion S (TaskID_pi input) (WorkerID_pi input) (Version_pi input)
          (LeaseToken_pi input)) (\<lambda>version.
        bind (prepareRunningTask S pnow (TaskID_pi input) (WorkerID_pi input) version) (\<lambda>t0.
        let t = t0\<lparr>Progress := Progress_pi input, UpdatedAt := now\<rparr>;
            message = progress_message input;
            payload = json_print (JObject [(''message'', JString message),
              (''progress'', JInt (Progress_pi input)), (''worker_id'', JString (WorkerID_pi input))]) in
        bind (of_result (NewTaskEvent eventID (ID t) EventTaskProgress message payload
          (Progress_pi input) now)) (\<lambda>ev.
        bind (UpdateTaskWithEvent_rs S (Some t) (Some ev)) (\<lambda>_.
        bind (Get_rs S (ID t)) (\<lambda>updated.
          ret (withLeaseToken updated)))))))"

section \<open>Fail\<close>

text \<open>The interface \<open>TaskRetryScheduler\<close>; \<open>None\<close> is a service without a scheduler.\<close>

type_synonym 's retryScheduler =
  "(Task \<Rightarrow> string \<Rightarrow> string \<Rightarrow> duration \<Rightarrow> 's \<Rightarrow> unit result \<times> Task \<times> 's) option"

definition failure_message :: "FailTaskInput \<Rightarrow> string" where
  "failure_message input = ErrorCode_fi input @ '': '' @ ErrorMessage_fi input"

text \<open>The end of \<open>FailTask\<close>: the task is failed for good.\<close>

definition fail_finally ::
  "'s runtimeStores \<Rightarrow> time \<Rightarrow> string \<Rightarrow> FailTaskInput \<Rightarrow> Task \<Rightarrow> ('s, Task) op" where
  "fail_finally S now eventID input t =
     bind (of_result (MoveTo (Some (t\<lparr>ErrorMessage := failure_message input\<rparr>)) TaskStatusFailed now)) (\<lambda>t1.
     let payload = json_print (JObject [(''error_code'', JString (ErrorCode_fi input)),
           (''retryable'', JBool (Retryable_fi input)), (''worker_id'', JString (WorkerID_fi input))]) in
     bind (of_result (NewTaskEvent eventID (ID t1) EventTaskFailed ''task failed by external worker''
       payload (Progress t1) now)) (\<lambda>ev.
     bind (UpdateTaskWithEvent_rs S (Some t1) (Some ev)) (\<lambda>_.
       effect (metrics_rs S (RecordTaskCompleted (Workflow t1) TaskStatusFailed
         (taskElapsed (Some t1) now))) (ret t1))))"

definition FailTask ::
  "'s runtimeStores \<Rightarrow> 's retryScheduler \<Rightarrow> time \<Rightarrow> time \<Rightarrow> string \<Rightarrow> FailTaskInput \<Rightarrow> ('s, Task) op" where
  "FailTask S scheduler pnow now eventID input =
     bind (replayWorkerOperation S (TaskID_fi input) (WorkerID_fi input) (LeaseToken_fi input)
       [TaskStatusRetrying, TaskStatusFailed]) (\<lambda>replayed.
     case replayed of
       Some t \<Rightarrow> if ErrorMessage t \<noteq> failure_message input then raise ErrTaskConflict else ret t
     | None \<Rightarrow>
         bind (resolveLeaseVersion S (TaskID_fi input) (WorkerID_fi input) (Version_fi input)
           (LeaseToken_fi input)) (\<lambda>version.
         bind (prepareRunningTask S pnow (TaskID_fi input) (WorkerID_fi input) version) (\<lambda>t.
         if TrimSpace (ErrorCode_fi input) = [] \<or> TrimSpace (ErrorMessage_fi input) = [] then
           raise (Wrap [] ErrInvalidWorkerRequest '': error_code and error_message are required'')
         else if RetryAfter_fi input < 0 then
           raise (Wrap [] ErrInvalidWorkerRequest '': retry_after cannot be negative'')
         else
           (case (if Retryable_fi input then scheduler else None) of
              None \<Rightarrow> fail_finally S now eventID input t
            | Some sched \<Rightarrow>
                (\<lambda>s. case sched t (ErrorCode_fi input) (ErrorMessage_fi input) (RetryAfter_fi input) s of
                   (Inr _, t1, s1) \<Rightarrow>
                     effect (metrics_rs S (RecordTaskRetried (Workflow t1) (ErrorCode_fi input)))
                       (Get_rs S (ID t1)) s1
                 | (Inl e, t1, s1) \<Rightarrow>
                     if \<not> errors_Is e ErrRetryBudgetExhausted then raise e s1
                     else fail_finally S now eventID input t1 s1)))))"

section \<open>Release\<close>

definition ReleaseTask ::
  "'s runtimeStores \<Rightarrow> time \<Rightarrow> time \<Rightarrow> string \<Rightarrow> ReleaseTaskInput \<Rightarrow> ('s, Task) op" where
  "ReleaseTask S pnow now eventID input =
     bind (replayWorkerOperation S (TaskID_ri input) (WorkerID_ri input) (LeaseToken_ri input)
       [TaskStatusQueued]) (\<lambda>replayed.
     case replayed of
       Some t \<Rightarrow> ret t
     | None \<Rightarrow>
         bind (resolveLeaseVersion S (TaskID_ri input) (WorkerID_ri input) (Version_ri input)
           (LeaseToken_ri input)) (\<lambda>version.
         bind (prepareRunningTask S pnow (TaskID_ri input) (WorkerID_ri input) version) (\<lambda>t.
         bind (of_result (RequeueForRelease (Some t) now)) (\<lambda>t1.
         bind (of_result (NewTaskReleasedEvent eventID (Some t1) now)) (\<lambda>ev.
         bind (UpdateTaskWithEvent_rs S (Some t1) (Some ev)) (\<lambda>_.
           effect (metrics_rs S (RecordTaskReleased (Workflow t1))) (Get_rs S (ID t1))))))))"

end
