(* ===== verification/ClaimOrder.thy ===== *)
theory ClaimOrder
  imports StoreSteps
begin

text \<open>
  Which task a claim takes.  The loops of \<open>claimNextLocked\<close> and \<open>failNextExpiredLocked\<close> range
  over a Go map, in an order that differs from run to run; the comparison they use orders
  the candidates totally, so the chosen task does not depend on that order: it is the least
  candidate by lease expiry and id, or by availability, creation time and id.
\<close>

definition lease_key :: "Task \<Rightarrow> time \<times> string" where
  "lease_key t = (the (LeaseExpiresAt t), ID t)"

definition ready_key :: "Task \<Rightarrow> time \<times> time \<times> string" where
  "ready_key t = (AvailableAt t, CreatedAt t, ID t)"

lemma lease_before_key: "lease_before t u \<longleftrightarrow> lease_key t < lease_key u"
  by (auto simp: lease_before_def lease_key_def less_prod_def less_le)

lemma ready_before_key: "ready_before t u \<longleftrightarrow> ready_key t < ready_key u"
  by (auto simp: ready_before_def ready_key_def less_prod_def less_le)

lemma entries_inj:
  assumes "stores_wf m" "\<And>t u. key t = key u \<Longrightarrow> ID t = ID u"
  shows "inj_on (\<lambda>(k :: string, t). key t) (set (tasks (taskStore m)))"
proof (rule inj_onI, clarify)
  fix k t k' t'
  assume e: "(k, t) \<in> set (tasks (taskStore m))" "(k', t') \<in> set (tasks (taskStore m))" "key t = key t'"
  from stores_wf_entry [OF assms(1) e(1)] stores_wf_entry [OF assms(1) e(2)] assms(2) [OF e(3)]
  show "k = k' \<and> t = t'" by auto
qed

lemma scan_tasks_order:
  fixes key :: "Task \<Rightarrow> 'k::linorder"
  assumes "stores_wf m" "range_order rng" "range_order rng'"
    and "\<And>t u. better t u \<longleftrightarrow> key t < key u" "\<And>t u. key t = key u \<Longrightarrow> ID t = ID u"
  shows "scan_tasks keep better (rng (tasks (taskStore m))) = scan_tasks keep better (rng' (tasks (taskStore m)))"
  unfolding scan_tasks_def
proof (rule scan_best_order [where key = "\<lambda>(k, t). key t"])
  show "inj_on (\<lambda>(k, t). key t) (set (rng (tasks (taskStore m))))"
    using entries_inj [OF assms(1,5)] by (simp add: range_order_set [OF assms(2)])
qed (auto simp: assms(4) range_order_set [OF assms(2)] range_order_set [OF assms(3)])

lemma scan_tasks_least:
  fixes key :: "Task \<Rightarrow> 'k::linorder"
  assumes "stores_wf m" "range_order rng" and "\<And>t u. better t u \<longleftrightarrow> key t < key u"
  shows "case scan_tasks keep better (rng (tasks (taskStore m))) of
      None \<Rightarrow> \<forall>k t. stored_task m k = Some t \<longrightarrow> \<not> keep t
    | Some (k, t) \<Rightarrow> stored_task m k = Some t \<and> keep t \<and>
        (\<forall>k' u. stored_task m k' = Some u \<longrightarrow> keep u \<longrightarrow> key t \<le> key u)"
proof -
  have key: "(case x of (k, t) \<Rightarrow> \<lambda>(k', t'). better t t') y \<longleftrightarrow> (\<lambda>(k :: string, t). key t) x < (\<lambda>(k, t). key t) y" for x y
    using assms(3) by (auto split: prod.splits)
  have set: "(k, t) \<in> set (rng (tasks (taskStore m))) \<longleftrightarrow> stored_task m k = Some t" for k t
    using range_order_set [OF assms(2)] gomap_in_set [OF stores_wf_gomap [OF assms(1)]] by simp
  from scan_best_least [of "\<lambda>(k, t). keep t" "\<lambda>(k, t) (k', t'). better t t'" "\<lambda>(k :: string, t). key t" None
      "rng (tasks (taskStore m))", OF key] set
  show ?thesis unfolding scan_tasks_def by (fastforce split: option.splits)
qed

lemmas lease_scan_least =
  scan_tasks_least [where key = lease_key and better = lease_before, OF _ _ lease_before_key]
lemmas ready_scan_least =
  scan_tasks_least [where key = ready_key and better = ready_before, OF _ _ ready_before_key]

lemma lease_scan_order:
  assumes "stores_wf m" "range_order rng" "range_order rng'"
  shows "scan_tasks keep lease_before (rng (tasks (taskStore m))) =
    scan_tasks keep lease_before (rng' (tasks (taskStore m)))"
  by (rule scan_tasks_order [where key = lease_key, OF assms]) (simp_all add: lease_before_key lease_key_def)

lemma ready_scan_order:
  assumes "stores_wf m" "range_order rng" "range_order rng'"
  shows "scan_tasks keep ready_before (rng (tasks (taskStore m))) =
    scan_tasks keep ready_before (rng' (tasks (taskStore m)))"
  by (rule scan_tasks_order [where key = ready_key, OF assms]) (simp_all add: ready_before_key ready_key_def)

lemma select_claim_order:
  assumes "stores_wf m" "range_order rng1" "range_order rng2" "range_order rng1'" "range_order rng2'"
  shows "select_claim rng1 rng2 o1 (taskStore m) = select_claim rng1' rng2' o1 (taskStore m)"
  unfolding select_claim_def
    lease_scan_order [OF assms(1,2,4)] ready_scan_order [OF assms(1,3,5)] ..

lemma claim_order:
  assumes "stores_wf m" "range_order rng1" "range_order rng2" "range_order rng1'" "range_order rng2'"
  shows "ClaimNextWithEvent rng1 rng2 ctx o1 eid m = ClaimNextWithEvent rng1' rng2' ctx o1 eid m"
  unfolding ClaimNextWithEvent_def claimNextLocked_def select_claim_order [OF assms] ..

lemma reap_order:
  assumes "stores_wf m" "range_order rng" "range_order rng'"
  shows "FailNextExpiredWithEvent rng ctx now eid m = FailNextExpiredWithEvent rng' ctx now eid m"
  unfolding FailNextExpiredWithEvent_def failNextExpiredLocked_def lease_scan_order [OF assms] ..

text \<open>The selected task is the least candidate, and an expired one comes before a ready one.\<close>

lemma select_claim_least:
  assumes "stores_wf m" "range_order rng1" "range_order rng2"
    and "select_claim rng1 rng2 o1 (taskStore m) = Some ((k, t), kind)"
  shows "if kind = ClaimRecovery
    then \<forall>k' u. stored_task m k' = Some u \<longrightarrow> expired_claimable o1 u \<longrightarrow> lease_key t \<le> lease_key u
    else (\<forall>k' u. stored_task m k' = Some u \<longrightarrow> \<not> expired_claimable o1 u) \<and>
      (\<forall>k' u. stored_task m k' = Some u \<longrightarrow> ready_claimable o1 u \<longrightarrow> ready_key t \<le> ready_key u)"
  using assms(4) lease_scan_least [OF assms(1,2), of "expired_claimable o1"]
    ready_scan_least [OF assms(1,3), of "ready_claimable o1"]
  by (auto simp: select_claim_def split: option.splits if_splits)

lemma select_claim_None:
  assumes "stores_wf m" "range_order rng1" "range_order rng2"
  shows "select_claim rng1 rng2 o1 (taskStore m) = None \<longleftrightarrow>
    (\<forall>k t. stored_task m k = Some t \<longrightarrow> \<not> expired_claimable o1 t \<and> \<not> ready_claimable o1 t)"
  using lease_scan_least [OF assms(1,2), of "expired_claimable o1"]
    ready_scan_least [OF assms(1,3), of "ready_claimable o1"]
  by (auto simp: select_claim_def split: option.splits)

text \<open>
  A valid claim with a fresh event id never fails while a task can be claimed, as long as
  the end of the lease can be written as a timestamp.
\<close>

lemma claim_succeeds:
  assumes wf: "stores_wf m" and rng: "range_order rng1" "range_order rng2"
    and v: "Validate_claim o1 = None" "eid \<noteq> []" "\<not> event_known m eid"
    and lease: "MarshalTime (Now_co o1 + LeaseDuration_co o1) \<noteq> None"
    and cand: "stored_task m k = Some t" "expired_claimable o1 t \<or> ready_claimable o1 t"
  shows "\<exists>u m'. ClaimNextWithEvent rng1 rng2 None o1 eid m = (Inr u, m')"
proof -
  from cand select_claim_None [OF wf rng] obtain k' t' kind where
    sel: "select_claim rng1 rng2 o1 (taskStore m) = Some ((k', t'), kind)"
    by (metis not_Some_eq prod.exhaust)
  note c = select_claim_Some [OF sel rng]
  from stores_wf_lookup(2) [OF wf] stores_wf_entry [OF wf] c have wt: "task_wf t'" by blast
  note cw = claimed_wf [OF wt conjunct2 [OF c] v(1)]
  have ev: "\<exists>ev. NewTaskClaimedEvent eid (Some (claimed o1 kind t')) kind (Now_co o1) = Inr ev"
  proof -
    obtain ty msg where k: "claim_event_kind kind = Inr (ty, msg)" "ty \<noteq> OtherEvent []"
      using c by (auto simp: claimable_def claim_event_kind_def)
    have "ID (claimed o1 kind t') \<noteq> []" "0 \<le> Progress (claimed o1 kind t')" "Progress (claimed o1 kind t') \<le> 100"
      using cw(1) by (simp_all add: task_wf_def)
    moreover obtain x where "time_member ''lease_until'' (LeaseExpiresAt (claimed o1 kind t')) = Inr x"
      using lease cw(8) by (auto simp: time_member_def)
    ultimately show ?thesis using k v(2) by (simp add: NewTaskClaimedEvent_def NewTaskEvent_def)
  qed
  obtain r ts where l: "claimNextLocked rng1 rng2 o1 (taskStore m) = (r, ts)" by force
  from l rng show ?thesis
  proof (cases rule: claimNextLocked_cases)
    case none
    with sel show ?thesis by simp
  next
    case (some k'' t'' kind'')
    with sel ev l v show ?thesis by (auto simp: ClaimNextWithEvent_def)
  qed
qed

end
