(* ===== verification/Query.thy ===== *)
theory Query
  imports ClaimOrder
begin

text \<open>
  The read side of the memory store: \<open>task_query_store.go\<close> (pages of tasks, newest first)
  and \<open>task_stats_store.go\<close> (counts and ages per status).
\<close>

section \<open>Listing tasks\<close>

record ListTasksOptions =
  Workflow_lo :: string
  Status_lo :: TaskStatus
  BeforeCreatedAt_lo :: "time option"
  BeforeID_lo :: string
  Limit_lo :: int

definition isKnownTaskStatus :: "TaskStatus \<Rightarrow> bool" where
  "isKnownTaskStatus st = (case st of OtherStatus _ \<Rightarrow> False | _ \<Rightarrow> True)"

abbreviation any_status :: TaskStatus where
  "any_status \<equiv> OtherStatus []"

definition Validate_list :: "ListTasksOptions \<Rightarrow> error option" where
  "Validate_list o1 =
     (if Limit_lo o1 \<le> 0 \<or> Limit_lo o1 > 101 then Some ErrInvalidTaskQuery
      else if Status_lo o1 \<noteq> any_status \<and> \<not> isKnownTaskStatus (Status_lo o1) then Some ErrInvalidTaskQuery
      else if (BeforeCreatedAt_lo o1 = None) \<noteq> (BeforeID_lo o1 = []) then Some ErrInvalidTaskQuery
      else None)"

record TaskListItem =
  ID_li :: string
  Workflow_li :: string
  Status_li :: TaskStatus
  ErrorMessage_li :: string
  Progress_li :: int
  RetryCount_li :: int
  MaxRetries_li :: int
  LeaseOwner_li :: string
  LeaseExpiresAt_li :: "time option"
  CreatedAt_li :: time
  UpdatedAt_li :: time

definition newTaskListItem :: "Task \<Rightarrow> TaskListItem" where
  "newTaskListItem t = \<lparr>
     ID_li = ID t, Workflow_li = Workflow t, Status_li = Status t, ErrorMessage_li = ErrorMessage t,
     Progress_li = Progress t, RetryCount_li = RetryCount t, MaxRetries_li = MaxRetries t,
     LeaseOwner_li = LeaseOwner t, LeaseExpiresAt_li = LeaseExpiresAt t, CreatedAt_li = CreatedAt t,
     UpdatedAt_li = UpdatedAt t\<rparr>"

definition isBeforeTaskCursor :: "time \<Rightarrow> string \<Rightarrow> ListTasksOptions \<Rightarrow> bool" where
  "isBeforeTaskCursor createdAt tid o1 =
     (case BeforeCreatedAt_lo o1 of
        None \<Rightarrow> True
      | Some c \<Rightarrow> createdAt < c \<or> (createdAt = c \<and> tid < BeforeID_lo o1))"

definition list_keep :: "ListTasksOptions \<Rightarrow> Task \<Rightarrow> bool" where
  "list_keep o1 t \<longleftrightarrow>
     \<not> (Workflow_lo o1 \<noteq> [] \<and> Workflow t \<noteq> Workflow_lo o1) \<and>
     \<not> (Status_lo o1 \<noteq> any_status \<and> Status t \<noteq> Status_lo o1) \<and>
     isBeforeTaskCursor (CreatedAt t) (ID t) o1"

text \<open>
  \<open>sort.Slice\<close> with the comparison of \<open>ListTasks\<close>: by creation time and id, both descending.
  The comparison is a strict total order on items with different ids, so the sorted list is
  determined.
\<close>

definition item_key :: "TaskListItem \<Rightarrow> time \<times> string" where
  "item_key i = (CreatedAt_li i, ID_li i)"

definition sort_items :: "TaskListItem list \<Rightarrow> TaskListItem list" where
  "sort_items items = rev (sort_key item_key items)"

definition ListTasks ::
  "task_range \<Rightarrow> context_err \<Rightarrow> ListTasksOptions \<Rightarrow> MemoryTaskStore \<Rightarrow> TaskListItem list result" where
  "ListTasks rng ctx o1 s =
     (case ctx of Some e \<Rightarrow> Inl e | None \<Rightarrow>
     (case Validate_list o1 of Some e \<Rightarrow> Inl e | None \<Rightarrow>
        Inr (take (nat (Limit_lo o1))
          (sort_items (map newTaskListItem (filter (list_keep o1) (map snd (rng (tasks s)))))))))"

section \<open>Statistics\<close>

record TaskStatsFilter =
  Workflow_sf :: string
  Status_sf :: TaskStatus

definition Validate_stats :: "TaskStatsFilter \<Rightarrow> error option" where
  "Validate_stats f =
     (if Status_sf f \<noteq> any_status \<and> \<not> isKnownTaskStatus (Status_sf f) then Some ErrInvalidTaskQuery else None)"

record TaskStatsSnapshot =
  StatusCounts :: "TaskStatus \<rightharpoonup> int"
  AvailableCounts :: "TaskStatus \<rightharpoonup> int"
  OldestAvailableAge :: "TaskStatus \<rightharpoonup> duration"

definition NewTaskStatsSnapshot :: TaskStatsSnapshot where
  "NewTaskStatsSnapshot =
     \<lparr>StatusCounts = Map.empty, AvailableCounts = Map.empty, OldestAvailableAge = Map.empty\<rparr>"

definition isAvailableTask :: "Task option \<Rightarrow> time \<Rightarrow> bool" where
  "isAvailableTask task now =
     (case task of
        None \<Rightarrow> False
      | Some t \<Rightarrow>
          if Status t \<noteq> TaskStatusQueued \<and> Status t \<noteq> TaskStatusRetrying then False
          else \<not> AvailableAt t > now)"

text \<open>\<open>m[k]++\<close> on a Go map of counters.\<close>

definition incr :: "('k \<rightharpoonup> int) \<Rightarrow> 'k \<Rightarrow> ('k \<rightharpoonup> int)" where
  "incr m k = m(k \<mapsto> (case m k of None \<Rightarrow> 0 | Some n \<Rightarrow> n) + 1)"

definition stats_keep :: "TaskStatsFilter \<Rightarrow> Task \<Rightarrow> bool" where
  "stats_keep f t \<longleftrightarrow>
     \<not> (Workflow_sf f \<noteq> [] \<and> Workflow t \<noteq> Workflow_sf f) \<and>
     \<not> (Status_sf f \<noteq> any_status \<and> Status t \<noteq> Status_sf f)"

text \<open>The body of the loop of \<open>SnapshotFilteredTaskStats\<close>.\<close>

definition stats_step :: "TaskStatsFilter \<Rightarrow> time \<Rightarrow> TaskStatsSnapshot \<Rightarrow> Task \<Rightarrow> TaskStatsSnapshot" where
  "stats_step f now snap t =
     (if \<not> stats_keep f t then snap
      else
        let snap1 = snap\<lparr>StatusCounts := incr (StatusCounts snap) (Status t)\<rparr> in
        if \<not> isAvailableTask (Some t) now then snap1
        else
          let age = Sub_time now (AvailableAt t);
              snap2 = snap1\<lparr>AvailableCounts := incr (AvailableCounts snap1) (Status t)\<rparr> in
          if (case OldestAvailableAge snap2 (Status t) of None \<Rightarrow> True | Some previous \<Rightarrow> age > previous)
          then snap2\<lparr>OldestAvailableAge := (OldestAvailableAge snap2)(Status t \<mapsto> age)\<rparr>
          else snap2)"

text \<open>\<open>clock\<close> is the reading of \<open>time.Now()\<close> when the caller passes the zero time.\<close>

definition SnapshotFilteredTaskStats ::
  "task_range \<Rightarrow> context_err \<Rightarrow> time \<Rightarrow> time \<Rightarrow> TaskStatsFilter \<Rightarrow> MemoryTaskStore \<Rightarrow> TaskStatsSnapshot result" where
  "SnapshotFilteredTaskStats rng ctx clock now f s =
     (case ctx of Some e \<Rightarrow> Inl e | None \<Rightarrow>
     (case Validate_stats f of Some e \<Rightarrow> Inl e | None \<Rightarrow>
        let now = (if IsZero now then clock else now) in
        Inr (foldl (stats_step f now) NewTaskStatsSnapshot (map snd (rng (tasks s))))))"

definition SnapshotTaskStats ::
  "task_range \<Rightarrow> context_err \<Rightarrow> time \<Rightarrow> time \<Rightarrow> MemoryTaskStore \<Rightarrow> TaskStatsSnapshot result" where
  "SnapshotTaskStats rng ctx clock now s =
     SnapshotFilteredTaskStats rng ctx clock now \<lparr>Workflow_sf = [], Status_sf = any_status\<rparr> s"

section \<open>Pages\<close>

text \<open>All items a query without a cursor selects, newest first.\<close>

definition all_items :: "ListTasksOptions \<Rightarrow> MemoryTaskStore \<Rightarrow> TaskListItem list" where
  "all_items o1 s =
     sort_items (map newTaskListItem
       (filter (list_keep (o1\<lparr>BeforeCreatedAt_lo := None, BeforeID_lo := []\<rparr>)) (map snd (tasks s))))"

lemma item_key_new [simp]: "item_key (newTaskListItem t) = (CreatedAt t, ID t)"
  by (simp add: item_key_def newTaskListItem_def)

lemma item_keys_distinct:
  assumes "stores_wf m" "range_order rng"
  shows "distinct (map item_key (map newTaskListItem (filter P (map snd (rng (tasks (taskStore m)))))))"
proof -
  have "mset (rng (tasks (taskStore m))) = mset (tasks (taskStore m))"
    using assms(2) by (simp add: range_order_def)
  then have "distinct (map fst (rng (tasks (taskStore m))))"
    using stores_wf_gomap [OF assms(1)] unfolding gomap_wf_def
    by (metis mset_map mset_eq_imp_distinct_iff)
  moreover have "\<forall>(k, t) \<in> set (rng (tasks (taskStore m))). ID t = k"
    using stores_wf_entry [OF assms(1)] by (auto simp: range_order_set [OF assms(2)])
  then have "map (\<lambda>x. ID (snd x)) (rng (tasks (taskStore m))) = map fst (rng (tasks (taskStore m)))"
    by (auto intro!: map_cong)
  moreover have "map ID (map snd (rng (tasks (taskStore m)))) = map (\<lambda>x. ID (snd x)) (rng (tasks (taskStore m)))"
    by simp
  ultimately have "distinct (map ID (map snd (rng (tasks (taskStore m)))))"
    by metis
  then have "distinct (map ID (filter P (map snd (rng (tasks (taskStore m))))))"
    by (rule distinct_map_filter)
  then show ?thesis
    by (auto simp: distinct_map comp_def inj_on_def)
qed

lemma sorted_list_unique_key:
  fixes f :: "'a \<Rightarrow> 'k::linorder"
  assumes "distinct (map f xs)" "mset xs = mset ys"
  shows "sort_key f xs = sort_key f ys"
proof (rule map_sorted_distinct_set_unique [where f = f])
  have "set ys = set xs" by (rule mset_eq_setD [OF assms(2) [symmetric]])
  then show "inj_on f (set (sort_key f xs) \<union> set (sort_key f ys))"
    using assms(1) by (simp add: distinct_map)
  show "set (sort_key f xs) = set (sort_key f ys)" using \<open>set ys = set xs\<close> by simp
  have "mset (map f (sort_key f xs)) = mset (map f xs)" by simp
  then show "distinct (map f (sort_key f xs))" using assms(1) mset_eq_imp_distinct_iff by blast
  have "mset (map f (sort_key f ys)) = mset (map f xs)" using assms(2) by simp
  then show "distinct (map f (sort_key f ys))" using assms(1) mset_eq_imp_distinct_iff by blast
qed simp_all

text \<open>The items of a page after a cursor are the items of the whole list that follow it.\<close>

lemma sort_items_filter: "sort_items (filter P items) = filter P (sort_items items)"
  by (simp add: sort_items_def filter_sort rev_filter [symmetric])

end
