(* ===== verification/Rfc3339Parse.thy ===== *)
theory Rfc3339Parse
  imports Rfc3339
begin

text \<open>
  Reading timestamps.  \<open>parseRFC3339\<close> is the fast path of package \<open>time\<close> for RFC 3339
  texts; what it does not accept goes to the general \<open>time.Parse\<close>, which is a parameter
  (\<open>lenient\<close>).  Every timestamp that \<open>MarshalTime\<close> writes is read back by the fast path.
\<close>

definition days_before_year :: "int \<Rightarrow> int" where
  "days_before_year y = 365 * (y - 1) + (y - 1) div 4 - (y - 1) div 100 + (y - 1) div 400"

definition days_in :: "int \<Rightarrow> int \<Rightarrow> int" where
  "days_in y mo = (if 1 \<le> mo \<and> mo \<le> 12 then month_lengths y ! nat (mo - 1) else 0)"

definition date_days :: "int \<Rightarrow> int \<Rightarrow> int \<Rightarrow> int" where
  "date_days y mo dd = days_before_year y + sum_list (take (nat (mo - 1)) (month_lengths y)) + dd - 1"

definition parse_uint :: "string \<Rightarrow> int \<Rightarrow> int \<Rightarrow> int option" where
  "parse_uint s lo hi =
     (if list_all is_digit s \<and> lo \<le> int (read_nat s) \<and> int (read_nat s) \<le> hi
      then Some (int (read_nat s)) else None)"

text \<open>\<open>parseNanoseconds\<close> on the digits after the point: the first nine count.\<close>

definition parse_nanos :: "string \<Rightarrow> int" where
  "parse_nanos ds = int (read_nat (take 9 ds)) * 10 ^ (9 - length (take 9 ds))"

definition parse_zone :: "string \<Rightarrow> int option" where
  "parse_zone s =
     (if s = ''Z'' then Some 0
      else if length s \<noteq> 6 then None
      else (case (parse_uint (take 2 (drop 1 s)) 0 23, parse_uint (take 2 (drop 4 s)) 0 59) of
          (Some hr, Some mm) \<Rightarrow>
            if (s ! 0 = CHR ''-'' \<or> s ! 0 = CHR ''+'') \<and> s ! 3 = CHR '':'' then
              Some (if s ! 0 = CHR ''-'' then - ((hr * 60 + mm) * 60) else (hr * 60 + mm) * 60)
            else None
        | _ \<Rightarrow> None))"

definition split_fraction :: "string \<Rightarrow> string \<times> string" where
  "split_fraction s =
     (if take 1 s = ''.'' \<and> takeWhile is_digit (drop 1 s) \<noteq> []
      then (takeWhile is_digit (drop 1 s), dropWhile is_digit (drop 1 s)) else ([], s))"

definition parseRFC3339 :: "string \<Rightarrow> time option" where
  "parseRFC3339 s =
     (if length s < 19 then None
      else if \<not> (s ! 4 = CHR ''-'' \<and> s ! 7 = CHR ''-'' \<and> s ! 10 = CHR ''T'' \<and> s ! 13 = CHR '':''
                 \<and> s ! 16 = CHR '':'') then None
      else
        (case parse_uint (take 4 s) 0 9999 of None \<Rightarrow> None | Some y \<Rightarrow>
        (case parse_uint (take 2 (drop 5 s)) 1 12 of None \<Rightarrow> None | Some mo \<Rightarrow>
        (case parse_uint (take 2 (drop 8 s)) 1 (days_in y mo) of None \<Rightarrow> None | Some dd \<Rightarrow>
        (case parse_uint (take 2 (drop 11 s)) 0 23 of None \<Rightarrow> None | Some hh \<Rightarrow>
        (case parse_uint (take 2 (drop 14 s)) 0 59 of None \<Rightarrow> None | Some mi \<Rightarrow>
        (case parse_uint (take 2 (drop 17 s)) 0 59 of None \<Rightarrow> None | Some ss \<Rightarrow>
          (case split_fraction (drop 19 s) of (frac, zone) \<Rightarrow>
          (case parse_zone zone of None \<Rightarrow> None | Some off \<Rightarrow>
             Some (date_days y mo dd * ns_per_day + (hh * 3600 + mi * 60 + ss - off) * Second
                   + parse_nanos frac))))))))))"

definition UnmarshalTime :: "(string \<Rightarrow> time option) \<Rightarrow> string \<Rightarrow> time option" where
  "UnmarshalTime lenient s = (case parseRFC3339 s of Some t \<Rightarrow> Some t | None \<Rightarrow> lenient s)"

section \<open>Padded numbers\<close>

lemma read_nat_append: "read_nat (a @ b) = read_nat a * 10 ^ length b + read_nat b"
proof -
  have "foldl (\<lambda>n c. 10 * n + digit_val c) n b = n * 10 ^ length b + read_nat b" for n
  proof (induction b arbitrary: n)
    case (Cons c b)
    have "read_nat (c # b) = digit_val c * 10 ^ length b + read_nat b"
      using Cons.IH [of "digit_val c"] by (simp add: read_nat_def)
    with Cons.IH [of "10 * n + digit_val c"] show ?case by (simp add: distrib_right)
  qed (simp add: read_nat_def)
  from this [of "read_nat a"] show ?thesis by (simp add: read_nat_def)
qed

lemma digit_val_0 [simp]: "digit_val (CHR ''0'') = 0"
  by (simp add: digit_val_def)

lemma is_digit_0 [simp]: "is_digit (CHR ''0'')"
  by (simp add: is_digit_def)

lemma read_nat_zeros [simp]: "read_nat (replicate n (CHR ''0'')) = 0"
  by (induction n) (simp_all add: read_nat_def)

lemma show_nat_length: "n < 10 ^ k \<Longrightarrow> 0 < k \<Longrightarrow> length (show_nat n) \<le> k"
proof (induction n arbitrary: k rule: show_nat.induct)
  case (1 n)
  show ?case
  proof (cases "n < 10")
    case True
    then show ?thesis using "1.prems" by (simp add: show_nat_eval)
  next
    case False
    with "1.prems" obtain j where k: "k = Suc j" "0 < j" by (cases k; cases "k - 1") auto
    with "1.prems" have "n div 10 < 10 ^ j" by (simp add: div_less_iff_less_mult mult.commute)
    with "1.IH" [OF False] k have "length (show_nat (n div 10)) \<le> j" by simp
    with False k show ?thesis by (simp add: show_nat_eval(2))
  qed
qed

lemma pad_int_props:
  assumes "0 \<le> i" "i < 10 ^ n" "0 < n"
  shows "length (pad_int n i) = n" "read_nat (pad_int n i) = nat i" "list_all is_digit (pad_int n i)"
proof -
  have "nat i < 10 ^ n" using assms by (metis nat_less_iff of_nat_numeral of_nat_power)
  then have "length (show_nat (nat i)) \<le> n" using assms(3) by (rule show_nat_length)
  then show "length (pad_int n i) = n" by (simp add: pad_int_def Let_def)
  show "read_nat (pad_int n i) = nat i"
    by (simp add: pad_int_def Let_def read_nat_append read_show_nat)
  show "list_all is_digit (pad_int n i)"
    using show_nat_digits [of "nat i"] by (auto simp: pad_int_def Let_def list_all_iff)
qed

lemma parse_uint_pad:
  assumes "lo \<le> i" "i \<le> hi" "0 \<le> lo" "i < 10 ^ n" "0 < n"
  shows "parse_uint (pad_int n i) lo hi = Some i"
  using pad_int_props [of i n] assms by (simp add: parse_uint_def)

section \<open>Dates\<close>

lemma year_yday_days:
  assumes "year_yday d = (y, yd)"
  shows "days_before_year y + yd = d" "0 \<le> yd" "yd < (if is_leap y then 366 else 365)"
proof -
  define n400 d1 where "n400 = d div 146097" and "d1 = d mod 146097"
  define n100 where "n100 = min 3 (d1 div 36524)"
  define d2 where "d2 = d1 - n100 * 36524"
  define n4 d3 where "n4 = d2 div 1461" and "d3 = d2 mod 1461"
  define n1 where "n1 = min 3 (d3 div 365)"
  have y: "y = 400 * n400 + 100 * n100 + 4 * n4 + n1 + 1" and yd: "yd = d3 - n1 * 365"
    using assms unfolding year_yday_def Let_def n400_def d1_def n100_def d2_def n4_def d3_def n1_def by auto
  have b: "0 \<le> d1" "d1 < 146097" unfolding d1_def by simp_all
  have n100: "0 \<le> n100" "n100 \<le> 3" "n100 * 36524 \<le> d1" "n100 < 3 \<Longrightarrow> d1 < (n100 + 1) * 36524"
    using b unfolding n100_def by auto
  have d2: "0 \<le> d2" "n100 < 3 \<Longrightarrow> d2 < 36524" using n100 unfolding d2_def by auto
  moreover have "d2 \<le> 36524" if "n100 = 3" using b that unfolding d2_def by simp
  ultimately have d2': "d2 \<le> 36524" using n100(2) by fastforce
  have n4: "0 \<le> n4" "n4 \<le> 24" "d2 = 1461 * n4 + d3" "0 \<le> d3" "d3 < 1461"
    using d2 d2' unfolding n4_def d3_def by auto
  have n1: "0 \<le> n1" "n1 \<le> 3" "n1 * 365 \<le> d3" "n1 < 3 \<Longrightarrow> d3 < (n1 + 1) * 365"
    using n4(4,5) unfolding n1_def by auto
  have lt: "4 * n4 + n1 \<le> 99" using n4 n1 by simp
  have q: "(r + q * k) div k = q" if "0 \<le> r" "r < k" for r q k :: int
    using that by (simp add: div_pos_pos_trivial)
  have "y - 1 = n1 + (100 * n400 + 25 * n100 + n4) * 4" using y by simp
  with q [of n1 4] n1 have e4: "(y - 1) div 4 = 100 * n400 + 25 * n100 + n4" by simp
  have "y - 1 = (4 * n4 + n1) + (4 * n400 + n100) * 100" using y by simp
  with q [of "4 * n4 + n1" 100] lt n4(1) n1(1) have e100: "(y - 1) div 100 = 4 * n400 + n100" by simp
  have "y - 1 = (100 * n100 + 4 * n4 + n1) + n400 * 400" using y by simp
  with q [of "100 * n100 + 4 * n4 + n1" 400] lt n4(1) n1(1) n100(1,2) have e400: "(y - 1) div 400 = n400" by simp
  have d: "d = 146097 * n400 + d1" unfolding n400_def d1_def by simp
  show "days_before_year y + yd = d"
    unfolding days_before_year_def e4 e100 e400 yd using y d d2_def n4(3) by simp
  show "0 \<le> yd" using yd n1(3) by simp
  have leap: "is_leap y" if "n1 = 3" "n4 < 24 \<or> n100 = 3"
  proof -
    have y4: "y = (100 * n400 + 25 * n100 + n4 + 1) * 4" using y that(1) by simp
    show ?thesis
    proof (cases "n4 = 24")
      case True
      with that y have "y = (n400 + 1) * 400" by simp
      then show ?thesis unfolding is_leap_def by simp
    next
      case False
      have "y = (4 * n4 + 4) + (4 * n400 + n100) * 100" using y that(1) by simp
      moreover have "(4 * n4 + 4) mod 100 = 4 * n4 + 4"
        using False n4(1,2) by (intro mod_pos_pos_trivial) auto
      ultimately have "y mod 100 = 4 * n4 + 4" by (simp only: mod_mult_self1)
      with n4(1) y4 show ?thesis unfolding is_leap_def by simp
    qed
  qed
  show "yd < (if is_leap y then 366 else 365)"
  proof (cases "n1 < 3")
    case True
    with n1(4) yd show ?thesis by simp
  next
    case False
    with n1 have three: "n1 = 3" by simp
    with yd n4(5) have "yd \<le> 365" by simp
    moreover have "yd < 365" if "\<not> is_leap y"
    proof -
      from that leap [OF three] have "\<not> (n4 < 24 \<or> n100 = 3)" by blast
      with n4(2) n100(2) have "n4 = 24" "n100 < 3" by auto
      with d2(2) n4(3) have "d3 < 1460" by simp
      with yd three show ?thesis by simp
    qed
    ultimately show ?thesis by auto
  qed
qed

lemma month_day_sum:
  assumes "month_day m ls yd = (mo, dd)" "0 \<le> yd" "yd < sum_list ls" "\<forall>l \<in> set ls. 0 < l"
  shows "m \<le> mo \<and> mo < m + int (length ls) \<and> 1 \<le> dd \<and> dd \<le> ls ! nat (mo - m) \<and>
    sum_list (take (nat (mo - m)) ls) + dd - 1 = yd"
  using assms
proof (induction m ls yd rule: month_day.induct)
  case (2 m l ls yd)
  show ?case
  proof (cases "yd < l")
    case True
    with "2.prems" show ?thesis by auto
  next
    case False
    with "2.prems" "2.IH" have ih: "m + 1 \<le> mo" "mo < m + 1 + int (length ls)" "1 \<le> dd"
      "dd \<le> ls ! nat (mo - (m + 1))" "sum_list (take (nat (mo - (m + 1))) ls) + dd - 1 = yd - l"
      by auto
    then have "nat (mo - m) = Suc (nat (mo - (m + 1)))" by simp
    with ih show ?thesis by simp
  qed
qed simp

lemma month_lengths_props:
  "length (month_lengths y) = 12" "\<forall>l \<in> set (month_lengths y). 0 < l \<and> l \<le> 31"
  "sum_list (month_lengths y) = (if is_leap y then 366 else 365)"
  by (simp_all add: month_lengths_def)

lemma date_round_trip:
  assumes "year_yday d = (y, yd)" "month_day 1 (month_lengths y) yd = (mo, dd)"
  shows "date_days y mo dd = d" "1 \<le> mo" "mo \<le> 12" "1 \<le> dd" "dd \<le> days_in y mo" "dd \<le> 31"
proof -
  note yy = year_yday_days [OF assms(1)]
  from month_day_sum [OF assms(2) yy(2)] yy(3) month_lengths_props [of y]
  have m: "1 \<le> mo" "mo < 1 + int (length (month_lengths y))" "1 \<le> dd" "dd \<le> month_lengths y ! nat (mo - 1)"
    "sum_list (take (nat (mo - 1)) (month_lengths y)) + dd - 1 = yd" by auto
  then show "1 \<le> mo" "mo \<le> 12" "1 \<le> dd" using month_lengths_props(1) [of y] by auto
  then show "dd \<le> days_in y mo" using m(4) by (simp add: days_in_def)
  have "nat (mo - 1) < 12" using m(1,2) month_lengths_props(1) [of y] by simp
  then have "month_lengths y ! nat (mo - 1) \<le> 31"
    using month_lengths_props(1,2) [of y] by (metis nth_mem)
  then show "dd \<le> 31" using m(4) by simp
  show "date_days y mo dd = d" using m(5) yy(1) by (simp add: date_days_def)
qed

section \<open>Fractions\<close>

lemma trim_zeros_split: "\<exists>k. s = trim_zeros s @ replicate k (CHR ''0'')"
proof -
  define p q where "p = takeWhile (\<lambda>c. c = CHR ''0'') (rev s)" and "q = dropWhile (\<lambda>c. c = CHR ''0'') (rev s)"
  have "rev s = p @ q" by (simp add: p_def q_def)
  then have "s = rev q @ rev p" by (metis rev_append rev_rev_ident)
  moreover have "\<forall>c \<in> set p. c = CHR ''0''" unfolding p_def by (auto dest: set_takeWhileD)
  then have "replicate (length p) (CHR ''0'') = p" by (simp add: replicate_length_same)
  then have "rev p = replicate (length p) (CHR ''0'')" by (metis rev_replicate)
  moreover have "trim_zeros s = rev q" by (simp add: trim_zeros_def q_def)
  ultimately show ?thesis by metis
qed

lemma parse_nanos_trim:
  assumes "0 \<le> ns" "ns < Second"
  shows "parse_nanos (trim_zeros (pad_int 9 ns)) = ns" "list_all is_digit (trim_zeros (pad_int 9 ns))"
    "ns \<noteq> 0 \<Longrightarrow> trim_zeros (pad_int 9 ns) \<noteq> []"
proof -
  let ?t = "trim_zeros (pad_int 9 ns)"
  have p: "length (pad_int 9 ns) = 9" "read_nat (pad_int 9 ns) = nat ns" "list_all is_digit (pad_int 9 ns)"
    using pad_int_props [of ns 9] assms by (simp_all add: Second_def)
  obtain k where k: "pad_int 9 ns = ?t @ replicate k (CHR ''0'')" using trim_zeros_split by blast
  have len: "length ?t + k = 9" using arg_cong [OF k, of length] p(1) by simp
  have "read_nat (pad_int 9 ns) = read_nat ?t * 10 ^ k"
    using arg_cong [OF k, of read_nat] by (simp add: read_nat_append)
  then have v: "nat ns = read_nat ?t * 10 ^ k" using p(2) by simp
  have "9 - length ?t = k" "take 9 ?t = ?t" using len by simp_all
  moreover have "ns = int (read_nat ?t) * 10 ^ k" using arg_cong [OF v, of int] assms(1) by simp
  ultimately show "parse_nanos ?t = ns" unfolding parse_nanos_def by simp
  show "list_all is_digit ?t" using p(3) k by (metis list_all_append)
  show "?t \<noteq> []" if "ns \<noteq> 0" using v that assms(1) by (auto simp: read_nat_def)
qed

lemma split_fraction_format:
  assumes "list_all is_digit ds" "ds \<noteq> []"
  shows "split_fraction (''.'' @ ds @ ''Z'') = (ds, ''Z'')" "split_fraction ''Z'' = ([], ''Z'')"
proof -
  have z: "\<not> is_digit (CHR ''Z'')" by (simp add: is_digit_def)
  have "\<forall>c \<in> set ds. is_digit c" using assms(1) by (simp add: list_all_iff)
  then have "takeWhile is_digit (ds @ ''Z'') = ds" "dropWhile is_digit (ds @ ''Z'') = ''Z''"
    using z by (simp_all add: takeWhile_append2 dropWhile_append2)
  then show "split_fraction (''.'' @ ds @ ''Z'') = (ds, ''Z'')"
    using assms(2) by (simp add: split_fraction_def)
  show "split_fraction ''Z'' = ([], ''Z'')" by (simp add: split_fraction_def)
qed

section \<open>Round trip\<close>

text \<open>The fixed part of a timestamp, taken apart by position.\<close>

lemma parseRFC3339_parts:
  assumes len: "length y = 4" "length mo = 2" "length dd = 2" "length hh = 2" "length mi = 2" "length ss = 2"
    and s: "s = y @ ''-'' @ mo @ ''-'' @ dd @ ''T'' @ hh @ '':'' @ mi @ '':'' @ ss @ rest"
  shows "\<not> length s < 19" "s ! 4 = CHR ''-''" "s ! 7 = CHR ''-''" "s ! 10 = CHR ''T''" "s ! 13 = CHR '':''"
    "s ! 16 = CHR '':''" "take 4 s = y" "take 2 (drop 5 s) = mo" "take 2 (drop 8 s) = dd"
    "take 2 (drop 11 s) = hh" "take 2 (drop 14 s) = mi" "take 2 (drop 17 s) = ss" "drop 19 s = rest"
  using len unfolding s by (simp_all add: nth_append)

lemma parseRFC3339_format:
  assumes "0 \<le> year_of t" "year_of t \<le> 9999"
  shows "parseRFC3339 (format_time t) = Some t"
proof -
  define d r where "d = t div ns_per_day" and "r = t mod ns_per_day"
  obtain y yd where y: "year_yday d = (y, yd)" by force
  obtain mo dd where m: "month_day 1 (month_lengths y) yd = (mo, dd)" by force
  define secs ns where "secs = r div Second" and "ns = r mod Second"
  note dt = date_round_trip [OF y m]
  have yr: "0 \<le> y" "y \<le> 9999" using assms y by (simp_all add: year_of_def d_def)
  have r: "0 \<le> r" "r < 86400000000000" by (simp_all add: r_def ns_per_day_def)
  have secs: "0 \<le> secs" "secs < 86400" "0 \<le> ns" "ns < Second" "r = secs * Second + ns"
    using r by (auto simp: secs_def ns_def Second_def)
  define hh mi ss where "hh = secs div 3600" and "mi = secs div 60 mod 60" and "ss = secs mod 60"
  have "secs div (60 * 60) = secs div 60 div 60" by (rule zdiv_zmult2_eq) simp
  then have "hh * 60 + mi = secs div 60" by (simp add: hh_def mi_def)
  moreover have "secs div 60 * 60 + ss = secs" by (simp add: ss_def)
  ultimately have sum: "hh * 3600 + mi * 60 + ss = secs" by linarith
  have clock: "0 \<le> hh" "hh \<le> 23" "0 \<le> mi" "mi \<le> 59" "0 \<le> ss" "ss \<le> 59" "hh * 3600 + mi * 60 + ss = secs"
    using secs(1,2) sum by (auto simp: hh_def mi_def ss_def)
  define frac where "frac = (if ns = 0 then [] else ''.'' @ trim_zeros (pad_int 9 ns)) @ ''Z''"
  have f: "format_time t = pad_int 4 y @ ''-'' @ pad_int 2 mo @ ''-'' @ pad_int 2 dd @ ''T''
         @ pad_int 2 hh @ '':'' @ pad_int 2 mi @ '':'' @ pad_int 2 ss @ frac"
    by (simp add: format_time_def d_def [symmetric] r_def [symmetric] y m secs_def [symmetric] ns_def [symmetric]
        hh_def mi_def ss_def frac_def Let_def)
  have len: "length (pad_int 4 y) = 4" "length (pad_int 2 mo) = 2" "length (pad_int 2 dd) = 2"
    "length (pad_int 2 hh) = 2" "length (pad_int 2 mi) = 2" "length (pad_int 2 ss) = 2"
    using yr dt clock by (auto intro!: pad_int_props(1))
  have nums: "parse_uint (pad_int 4 y) 0 9999 = Some y" "parse_uint (pad_int 2 mo) 1 12 = Some mo"
    "parse_uint (pad_int 2 dd) 1 (days_in y mo) = Some dd" "parse_uint (pad_int 2 hh) 0 23 = Some hh"
    "parse_uint (pad_int 2 mi) 0 59 = Some mi" "parse_uint (pad_int 2 ss) 0 59 = Some ss"
    using yr dt clock by (auto intro!: parse_uint_pad)
  have sf: "\<exists>ds. split_fraction frac = (ds, ''Z'') \<and> parse_nanos ds = ns"
    using parse_nanos_trim [OF secs(3,4)] split_fraction_format
    by (cases "ns = 0") (auto simp: frac_def parse_nanos_def read_nat_def split_fraction_def)
  have "date_days y mo dd * ns_per_day + secs * Second + ns = t"
    using dt(1) secs(5) div_mult_mod_eq [of t ns_per_day] by (simp add: d_def [symmetric] r_def [symmetric])
  with sf nums clock(7) parseRFC3339_parts [OF len f] show ?thesis
    by (auto simp: parseRFC3339_def parse_zone_def)
qed

lemma UnmarshalTime_MarshalTime: "MarshalTime t = Some s \<Longrightarrow> UnmarshalTime lenient s = Some t"
  by (auto simp: MarshalTime_def UnmarshalTime_def parseRFC3339_format split: if_splits)

end
