(* ===== verification/TaskService.thy ===== *)
theory TaskService
  imports Complex_Main WorkerService Query Rfc3339Parse
begin

text \<open>
  \<open>TaskService\<close> of \<open>internal/application/task_service.go\<close>: creating, reading, listing and
  canceling tasks.  Clock readings and generated ids are arguments.  \<open>lenient\<close> stands for
  the general \<open>time.Parse\<close>, for timestamps that are not plain RFC 3339.
\<close>

section \<open>Creating\<close>

record CreateTaskInput =
  IdempotencyKey_in :: string
  Workflow_in :: string
  Input_in :: raw_json
  MaxRetries_in :: int

definition invalid_input :: "string \<Rightarrow> error" where
  "invalid_input msg = Wrap [] ErrInvalidInput ('': '' @ msg)"

definition CreateTask ::
  "'s runtimeStores \<Rightarrow> time \<Rightarrow> string \<Rightarrow> string \<Rightarrow> CreateTaskInput \<Rightarrow> ('s, TaskCreationResult) op" where
  "CreateTask S now taskID eventID input =
     (if Workflow_in input = [] then raise (invalid_input ''workflow is required'')
      else if MaxRetries_in input < 0 then raise (invalid_input ''max retries cannot be negative'')
      else if IdempotencyKey_in input \<noteq> [] \<and> TrimSpace (IdempotencyKey_in input) \<noteq> IdempotencyKey_in input
        then raise (invalid_input ''idempotency key cannot have surrounding whitespace'')
      else if IdempotencyKey_in input \<noteq> [] \<and> length (IdempotencyKey_in input) > 128
        then raise (invalid_input ''idempotency key exceeds 128 bytes'')
      else
        bind (of_result (NewTask taskID (Workflow_in input) (Input_in input) (MaxRetries_in input) now)) (\<lambda>t0.
        let t = t0\<lparr>IdempotencyKey := IdempotencyKey_in input\<rparr> in
        bind (of_result (NewTaskEvent eventID (ID t) EventTaskCreated ''task created'' ''{}'' (Progress t) now)) (\<lambda>ev.
          CreateTaskWithEvent_rs S (Some t) (Some ev))))"

section \<open>Reading\<close>

definition GetTask :: "'s runtimeStores \<Rightarrow> string \<Rightarrow> ('s, Task) op" where
  "GetTask S taskID =
     (if taskID = [] then raise (invalid_input ''task id is required'') else Get_rs S taskID)"

record TaskDetailResult =
  ID_td :: string
  IdempotencyKey_td :: string
  Workflow_td :: string
  Status_td :: TaskStatus
  Input_td :: raw_json
  Result_td :: raw_json
  ResultRef_td :: raw_json
  ErrorMessage_td :: string
  ErrorCode_td :: string
  Retryable_td :: "bool option"
  Progress_td :: int
  RetryCount_td :: int
  MaxRetries_td :: int
  AvailableAt_td :: time
  NextRetryAt_td :: "time option"
  Version_td :: uint64
  WorkerID_td :: string
  LeaseUntil_td :: "time option"
  LastHeartbeatAt_td :: "time option"
  QueueDurationMS_td :: int
  ExecutionDurationMS_td :: int
  TotalDurationMS_td :: int
  CreatedAt_td :: time
  UpdatedAt_td :: time
  StartedAt_td :: "time option"
  FinishedAt_td :: "time option"

definition nonNegativeDuration :: "time \<Rightarrow> time \<Rightarrow> duration" where
  "nonNegativeDuration start end1 = (if end1 < start then 0 else Sub_time end1 start)"

text \<open>
  The two anonymous payload structs.  \<open>null\<close> leaves a string alone and empties a pointer.
\<close>

fun failure_members :: "(string \<times> json) list \<Rightarrow> string \<times> bool option \<Rightarrow> (string \<times> bool option) option" where
  "failure_members [] p = Some p"
| "failure_members ((k, v) # kvs) (code, retryable) =
     (if field_match ''error_code'' k then
        (case string_field v code of None \<Rightarrow> None | Some x \<Rightarrow> failure_members kvs (x, retryable))
      else if field_match ''retryable'' k then
        (case v of
           JNull \<Rightarrow> failure_members kvs (code, None)
         | JBool b \<Rightarrow> failure_members kvs (code, Some b)
         | _ \<Rightarrow> None)
      else failure_members kvs (code, retryable))"

definition failure_payload :: "raw_json \<Rightarrow> (string \<times> bool option) option" where
  "failure_payload raw =
     (case parse_json raw of
        Some (JObject kvs) \<Rightarrow> failure_members kvs ([], None)
      | Some JNull \<Rightarrow> Some ([], None)
      | _ \<Rightarrow> None)"

fun worker_members ::
  "(string \<Rightarrow> time option) \<Rightarrow> (string \<times> json) list \<Rightarrow> string \<times> time option \<Rightarrow> (string \<times> time option) option" where
  "worker_members lenient [] p = Some p"
| "worker_members lenient ((k, v) # kvs) (worker, lease) =
     (if field_match ''worker_id'' k then
        (case string_field v worker of None \<Rightarrow> None | Some x \<Rightarrow> worker_members lenient kvs (x, lease))
      else if field_match ''lease_until'' k then
        (case v of
           JNull \<Rightarrow> worker_members lenient kvs (worker, None)
         | JString s \<Rightarrow>
             (case UnmarshalTime lenient s of
                None \<Rightarrow> None | Some t \<Rightarrow> worker_members lenient kvs (worker, Some t))
         | _ \<Rightarrow> None)
      else worker_members lenient kvs (worker, lease))"

definition worker_diag_payload :: "(string \<Rightarrow> time option) \<Rightarrow> raw_json \<Rightarrow> (string \<times> time option) option" where
  "worker_diag_payload lenient raw =
     (case parse_json raw of
        Some (JObject kvs) \<Rightarrow> worker_members lenient kvs ([], None)
      | Some JNull \<Rightarrow> Some ([], None)
      | _ \<Rightarrow> None)"

text \<open>The loops run over the events from the last to the first.\<close>

fun failure_scan :: "TaskEvent list \<Rightarrow> TaskDetailResult \<Rightarrow> TaskDetailResult" where
  "failure_scan [] r = r"
| "failure_scan (e # es) r =
     (if Type_ev e \<noteq> EventTaskRetrying \<and> Type_ev e \<noteq> EventTaskFailed then failure_scan es r
      else
        (case failure_payload (Payload_ev e) of
           None \<Rightarrow> failure_scan es r
         | Some (code, retryable) \<Rightarrow>
             if code = [] then failure_scan es r
             else r\<lparr>ErrorCode_td := code,
                    Retryable_td := (if Type_ev e = EventTaskRetrying \<and> retryable = None then Some True
                                     else retryable)\<rparr>))"

definition populateFailureDiagnostics :: "TaskDetailResult \<Rightarrow> TaskEvent list \<Rightarrow> TaskDetailResult" where
  "populateFailureDiagnostics r events = failure_scan (rev events) r"

fun worker_scan :: "(string \<Rightarrow> time option) \<Rightarrow> TaskEvent list \<Rightarrow> TaskDetailResult \<Rightarrow> TaskDetailResult" where
  "worker_scan lenient [] r = r"
| "worker_scan lenient (e # es) r =
     (case worker_diag_payload lenient (Payload_ev e) of
        None \<Rightarrow> worker_scan lenient es r
      | Some (worker, lease) \<Rightarrow>
          let r1 = (if WorkerID_td r = [] \<and> worker \<noteq> [] then r\<lparr>WorkerID_td := worker\<rparr> else r);
              r2 = (if LeaseUntil_td r1 = None \<and> lease \<noteq> None then r1\<lparr>LeaseUntil_td := lease\<rparr> else r1) in
          if WorkerID_td r2 \<noteq> [] \<and> LeaseUntil_td r2 \<noteq> None then r2 else worker_scan lenient es r2)"

definition populateWorkerDiagnostics ::
  "(string \<Rightarrow> time option) \<Rightarrow> TaskDetailResult \<Rightarrow> TaskEvent list \<Rightarrow> TaskDetailResult" where
  "populateWorkerDiagnostics lenient r events = worker_scan lenient (rev events) r"

definition newTaskDetailResult ::
  "(string \<Rightarrow> time option) \<Rightarrow> Task \<Rightarrow> TaskEvent list \<Rightarrow> time \<Rightarrow> TaskDetailResult" where
  "newTaskDetailResult lenient t events now =
     (let r0 = \<lparr>
        ID_td = ID t, IdempotencyKey_td = IdempotencyKey t, Workflow_td = Workflow t, Status_td = Status t,
        Input_td = Input t, Result_td = Result t, ResultRef_td = Result t, ErrorMessage_td = ErrorMessage t,
        ErrorCode_td = [], Retryable_td = None, Progress_td = Progress t, RetryCount_td = RetryCount t,
        MaxRetries_td = MaxRetries t, AvailableAt_td = AvailableAt t,
        NextRetryAt_td = (if Status t = TaskStatusRetrying then Some (AvailableAt t) else None),
        Version_td = Version t, WorkerID_td = LeaseOwner t, LeaseUntil_td = LeaseExpiresAt t,
        LastHeartbeatAt_td = LastHeartbeatAt t, QueueDurationMS_td = 0, ExecutionDurationMS_td = 0,
        TotalDurationMS_td = 0, CreatedAt_td = CreatedAt t, UpdatedAt_td = UpdatedAt t,
        StartedAt_td = StartedAt t, FinishedAt_td = FinishedAt t\<rparr>;
          r = populateWorkerDiagnostics lenient (populateFailureDiagnostics r0 events) events;
          end1 = (case FinishedAt t of Some f \<Rightarrow> f | None \<Rightarrow> now);
          queueEnd = (case StartedAt t of Some s \<Rightarrow> s | None \<Rightarrow> end1)
      in r\<lparr>QueueDurationMS_td := Milliseconds (nonNegativeDuration (CreatedAt t) queueEnd),
           ExecutionDurationMS_td := (case StartedAt t of
              Some s \<Rightarrow> Milliseconds (nonNegativeDuration s end1) | None \<Rightarrow> 0),
           TotalDurationMS_td := Milliseconds (nonNegativeDuration (CreatedAt t) end1)\<rparr>)"

definition GetTaskDetail ::
  "'s runtimeStores \<Rightarrow> (string \<Rightarrow> time option) \<Rightarrow> time \<Rightarrow> string \<Rightarrow> ('s, TaskDetailResult) op" where
  "GetTaskDetail S lenient now taskID =
     bind (GetTask S taskID) (\<lambda>t.
     bind (ListByTaskID_rs S taskID) (\<lambda>events.
       ret (newTaskDetailResult lenient t events now)))"

definition CancelTask :: "'s runtimeStores \<Rightarrow> string \<Rightarrow> time \<Rightarrow> string \<Rightarrow> ('s, Task) op" where
  "CancelTask S eventID now taskID =
     (if taskID = [] then raise (invalid_input ''task id is required'')
      else bind (CancelTaskWithEvent_rs S taskID eventID now) (\<lambda>r. ret (Task_ca r)))"

definition ListTaskEvents :: "'s runtimeStores \<Rightarrow> string \<Rightarrow> ('s, TaskEvent list) op" where
  "ListTaskEvents S taskID =
     (if taskID = [] then raise (invalid_input ''task id is required'')
      else bind (Get_rs S taskID) (\<lambda>_. ListByTaskID_rs S taskID))"

section \<open>Listing and statistics\<close>

text \<open>
  The interfaces \<open>TaskQueryStore\<close> and \<open>FilteredTaskStatsStore\<close> are found by a type assertion
  on the task store; \<open>None\<close> when the store does not have them.
\<close>

type_synonym 's taskQueryStore = "(ListTasksOptions \<Rightarrow> ('s, TaskListItem list) op) option"
type_synonym 's taskStatsStore = "(time \<Rightarrow> TaskStatsFilter \<Rightarrow> ('s, TaskStatsSnapshot) op) option"

record TaskStatsInput =
  Workflow_si :: string
  Status_si :: TaskStatus

record TaskStatsResult =
  Workflow_sr :: string
  Status_sr :: TaskStatus
  StatusCounts_sr :: "TaskStatus \<rightharpoonup> int"
  AvailableCounts_sr :: "TaskStatus \<rightharpoonup> int"
  OldestAvailableAge_sr :: "TaskStatus \<rightharpoonup> rat"

text \<open>\<open>Duration.Seconds\<close>, before its rounding to a float.\<close>

definition Seconds :: "duration \<Rightarrow> rat" where
  "Seconds d = of_int d / of_int Second"

definition GetTaskStats ::
  "'s taskStatsStore \<Rightarrow> time \<Rightarrow> TaskStatsInput \<Rightarrow> ('s, TaskStatsResult) op" where
  "GetTaskStats statsStore now input =
     (case statsStore of
        None \<Rightarrow> raise (ErrNew ''task stats store is not configured'')
      | Some snapshot \<Rightarrow>
          if TrimSpace (Workflow_si input) \<noteq> Workflow_si input
          then raise (invalid_input ''workflow cannot have surrounding whitespace'')
          else
            let f = \<lparr>Workflow_sf = Workflow_si input, Status_sf = Status_si input\<rparr> in
            if Validate_stats f \<noteq> None then raise (invalid_input ''invalid task stats filter'')
            else bind (snapshot now f) (\<lambda>snap.
              ret \<lparr>Workflow_sr = Workflow_si input, Status_sr = Status_si input,
                StatusCounts_sr = StatusCounts snap, AvailableCounts_sr = AvailableCounts snap,
                OldestAvailableAge_sr = (\<lambda>st. map_option Seconds (OldestAvailableAge snap st))\<rparr>))"

record ListTasksInput =
  Workflow_ti :: string
  Status_ti :: TaskStatus
  Cursor_ti :: string
  Limit_ti :: int

record ListTasksResult =
  Items_lr :: "TaskListItem list"
  NextCursor_lr :: string
  HasMore_lr :: bool

record taskListCursor =
  CreatedAt_cu :: time
  ID_cu :: string

definition cursor_json :: "taskListCursor \<Rightarrow> json option" where
  "cursor_json c =
     (case MarshalTime (CreatedAt_cu c) of
        None \<Rightarrow> None
      | Some s \<Rightarrow> Some (JObject [(''created_at'', JString s), (''id'', JString (ID_cu c))]))"

definition encodeTaskListCursor :: "taskListCursor \<Rightarrow> string" where
  "encodeTaskListCursor c =
     EncodeToString (case cursor_json c of None \<Rightarrow> [] | Some j \<Rightarrow> json_print j)"

fun cursor_members ::
  "(string \<Rightarrow> time option) \<Rightarrow> (string \<times> json) list \<Rightarrow> taskListCursor \<Rightarrow> taskListCursor option" where
  "cursor_members lenient [] c = Some c"
| "cursor_members lenient ((k, v) # kvs) c =
     (if field_match ''created_at'' k then
        (case v of
           JNull \<Rightarrow> cursor_members lenient kvs c
         | JString s \<Rightarrow>
             (case UnmarshalTime lenient s of
                None \<Rightarrow> None | Some t \<Rightarrow> cursor_members lenient kvs (c\<lparr>CreatedAt_cu := t\<rparr>))
         | _ \<Rightarrow> None)
      else if field_match ''id'' k then
        (case string_field v (ID_cu c) of
           None \<Rightarrow> None | Some x \<Rightarrow> cursor_members lenient kvs (c\<lparr>ID_cu := x\<rparr>))
      else cursor_members lenient kvs c)"

definition decodeTaskListCursor :: "(string \<Rightarrow> time option) \<Rightarrow> string \<Rightarrow> taskListCursor option" where
  "decodeTaskListCursor lenient raw =
     (case DecodeString raw of None \<Rightarrow> None | Some decoded \<Rightarrow>
     (case (case parse_json decoded of
              Some (JObject kvs) \<Rightarrow> cursor_members lenient kvs \<lparr>CreatedAt_cu = 0, ID_cu = []\<rparr>
            | Some JNull \<Rightarrow> Some \<lparr>CreatedAt_cu = 0, ID_cu = []\<rparr>
            | _ \<Rightarrow> None) of
        None \<Rightarrow> None
      | Some c \<Rightarrow> if ID_cu c = [] \<or> IsZero (CreatedAt_cu c) then None else Some c))"

definition page_result :: "int \<Rightarrow> TaskListItem list \<Rightarrow> ListTasksResult" where
  "page_result limit items =
     (if int (length items) > limit then
        let shown = take (nat limit) items; l = last shown in
        \<lparr>Items_lr = shown,
         NextCursor_lr = encodeTaskListCursor \<lparr>CreatedAt_cu = CreatedAt_li l, ID_cu = ID_li l\<rparr>,
         HasMore_lr = True\<rparr>
      else \<lparr>Items_lr = items, NextCursor_lr = [], HasMore_lr = False\<rparr>)"

definition ListTasks_svc ::
  "'s taskQueryStore \<Rightarrow> (string \<Rightarrow> time option) \<Rightarrow> ListTasksInput \<Rightarrow> ('s, ListTasksResult) op" where
  "ListTasks_svc queryStore lenient input =
     (case queryStore of
        None \<Rightarrow> raise (ErrNew ''task query store is not configured'')
      | Some query \<Rightarrow>
          if TrimSpace (Workflow_ti input) \<noteq> Workflow_ti input
          then raise (invalid_input ''workflow cannot have surrounding whitespace'')
          else
            let limit = (if Limit_ti input = 0 then 50 else Limit_ti input) in
            if limit < 1 \<or> limit > 100 then raise (invalid_input ''limit must be between 1 and 100'')
            else
              bind (if Cursor_ti input = [] then ret (None, [])
                    else (case decodeTaskListCursor lenient (Cursor_ti input) of
                        None \<Rightarrow> raise (invalid_input ''invalid cursor'')
                      | Some c \<Rightarrow> ret (Some (CreatedAt_cu c), ID_cu c))) (\<lambda>(before, beforeID).
              let o1 = \<lparr>Workflow_lo = Workflow_ti input, Status_lo = Status_ti input,
                        BeforeCreatedAt_lo = before, BeforeID_lo = beforeID, Limit_lo = limit + 1\<rparr> in
              if Validate_list o1 \<noteq> None then raise (invalid_input ''invalid task query'')
              else bind (query o1) (\<lambda>items. ret (page_result limit items))))"

section \<open>The memory backend\<close>

definition memory_query :: "task_range \<Rightarrow> runtime taskQueryStore" where
  "memory_query rng = Some (\<lambda>o1. on_stores (\<lambda>ctx m. (ListTasks rng ctx o1 (taskStore m), m)))"

definition memory_stats :: "task_range \<Rightarrow> time \<Rightarrow> runtime taskStatsStore" where
  "memory_stats rng clock =
     Some (\<lambda>now f. on_stores (\<lambda>ctx m. (SnapshotFilteredTaskStats rng ctx clock now f (taskStore m), m)))"

end
