(* ===== verification/WorkerFacts.thy ===== *)
theory WorkerFacts
  imports WorkerService
begin

text \<open>
  What the worker protocol guarantees over any stores that keep the contract
  \<open>task_stores\<close>, whatever other clients do meanwhile: a request changes the stores at most
  once, in one step of the store machine, and only a task that its token fences
  (\<open>fenced_commit\<close>).
\<close>

section \<open>The effect of a request\<close>

text \<open>Between two states only other clients acted.\<close>

definition only_others :: "('s \<Rightarrow> MemoryStores) \<Rightarrow> ('s \<Rightarrow> bool) \<Rightarrow> 's \<Rightarrow> 's \<Rightarrow> bool" where
  "only_others mem ok s s' \<longleftrightarrow> ok s' \<and> stores_wf (mem s') \<and> env_step\<^sup>*\<^sup>* (mem s) (mem s')"

text \<open>The request has read \<open>t0\<close> as task \<open>tid\<close>; since then only other clients acted.\<close>

definition was_read :: "('s \<Rightarrow> MemoryStores) \<Rightarrow> string \<Rightarrow> Task \<Rightarrow> 's \<Rightarrow> bool" where
  "was_read mem tid t0 s \<longleftrightarrow>
     (\<exists>m0. stores_wf m0 \<and> stored_task m0 tid = Some t0 \<and> env_step\<^sup>*\<^sup>* m0 (mem s))"

lemma was_read_now: "stores_wf (mem s) \<Longrightarrow> stored_task (mem s) tid = Some t0 \<Longrightarrow> was_read mem tid t0 s"
  unfolding was_read_def by blast

lemma was_read_later: "was_read mem tid t0 s \<Longrightarrow> only_others mem ok s s1 \<Longrightarrow> was_read mem tid t0 s1"
  unfolding was_read_def only_others_def by (meson rtranclp_trans)

text \<open>
  The request changed task \<open>tid\<close> at one instant: the stored task was running, leased to
  \<open>wid\<close> and at version \<open>v\<close>; it had been read as \<open>t0\<close> before (only its lease may have been
  renewed since) and was replaced by \<open>t\<close> with the event \<open>ev\<close>.
\<close>

definition fenced_step ::
  "string \<Rightarrow> string \<Rightarrow> uint64 \<Rightarrow> (Task \<Rightarrow> Task \<Rightarrow> TaskEvent \<Rightarrow> bool) \<Rightarrow> MemoryStores \<Rightarrow> MemoryStores \<Rightarrow> bool"
  where
  "fenced_step tid wid v Q m1 m2 \<longleftrightarrow>
     store_step m1 m2 \<and>
     (\<exists>st t0 t ev. stored_task m1 tid = Some st \<and> Status st = TaskStatusRunning \<and> LeaseOwner st = wid \<and>
        Version st = v \<and> same_claim t0 st \<and> worker_edit t0 t ev \<and>
        m2 = commit tid (t\<lparr>Version := v + 1\<rparr>) ev m1 \<and> Q t0 t ev)"

definition fenced_commit ::
  "string \<Rightarrow> string \<Rightarrow> uint64 \<Rightarrow> (Task \<Rightarrow> Task \<Rightarrow> TaskEvent \<Rightarrow> bool) \<Rightarrow> MemoryStores \<Rightarrow> MemoryStores \<Rightarrow> bool"
  where
  "fenced_commit tid wid v Q m m' \<longleftrightarrow>
     (\<exists>m1 m2. env_step\<^sup>*\<^sup>* m m1 \<and> fenced_step tid wid v Q m1 m2 \<and> env_step\<^sup>*\<^sup>* m2 m')"

lemma fenced_commit_mono:
  "fenced_commit tid wid v Q m m' \<Longrightarrow> (\<And>t0 t ev. Q t0 t ev \<Longrightarrow> R t0 t ev) \<Longrightarrow> fenced_commit tid wid v R m m'"
  unfolding fenced_commit_def fenced_step_def by blast

lemma fenced_commit_after:
  "fenced_commit tid wid v Q m m' \<Longrightarrow> env_step\<^sup>*\<^sup>* m' m'' \<Longrightarrow> fenced_commit tid wid v Q m m''"
  unfolding fenced_commit_def by (meson rtranclp_trans)

lemma fenced_commit_before:
  "fenced_commit tid wid v Q m' m'' \<Longrightarrow> env_step\<^sup>*\<^sup>* m m' \<Longrightarrow> fenced_commit tid wid v Q m m''"
  unfolding fenced_commit_def by (meson rtranclp_trans)

text \<open>
  How a request with a lease token may end: with an error and no change; with the answer
  \<open>t\<close> to a repeated request, the task being one version past the token (\<open>R\<close> tells which
  answers count); or with a change that the token fences.
\<close>

definition fenced_outcome ::
  "('s \<Rightarrow> MemoryStores) \<Rightarrow> ('s \<Rightarrow> bool) \<Rightarrow> string \<Rightarrow> string \<Rightarrow> string \<Rightarrow> (Task \<Rightarrow> bool) \<Rightarrow>
     (Task result \<Rightarrow> Task \<Rightarrow> Task \<Rightarrow> TaskEvent \<Rightarrow> bool) \<Rightarrow> 's \<Rightarrow> Task result \<Rightarrow> 's \<Rightarrow> bool" where
  "fenced_outcome mem ok tid wid token R Q s r s' \<longleftrightarrow>
     ok s' \<and> stores_wf (mem s') \<and>
     (env_step\<^sup>*\<^sup>* (mem s) (mem s') \<and> (\<exists>e. r = Inl e) \<or>
      (\<exists>p. token_claims tid wid token = Inr p \<and>
        ((\<exists>t. r = Inr t \<and> env_step\<^sup>*\<^sup>* (mem s) (mem s') \<and> stored_task (mem s') tid = Some t \<and>
            Version t = Version_lt p + 1 \<and> R t) \<or>
         fenced_commit tid wid (Version_lt p) (Q r) (mem s) (mem s'))))"

lemma fenced_outcome_before:
  assumes "fenced_outcome mem ok tid wid token R Q s1 r s'" "env_step\<^sup>*\<^sup>* (mem s) (mem s1)"
  shows "fenced_outcome mem ok tid wid token R Q s r s'"
proof -
  have "env_step\<^sup>*\<^sup>* (mem s1) (mem s') \<Longrightarrow> env_step\<^sup>*\<^sup>* (mem s) (mem s')"
    using assms(2) by simp
  with assms(1) fenced_commit_before [OF _ assms(2)] show ?thesis
    unfolding fenced_outcome_def by fast
qed

lemma token_claims_Inr [go_dest]:
  "token_claims tid wid token = Inr p \<Longrightarrow>
     TrimSpace token \<noteq> [] \<and> parseLeaseToken token = Inr p \<and> TaskID_lt p = tid \<and> WorkerID_lt p = wid"
  by (auto simp: token_claims_def split: if_splits sum.splits)

lemma Get_Inr: "Get ctx tid s = Inr t \<Longrightarrow> lookup_task s tid = Some t"
  by (auto simp: Get_def split: option.splits)

text \<open>The errors after which a failed retry becomes a final failure.\<close>

abbreviation budget_error :: "error \<Rightarrow> bool" where
  "budget_error e \<equiv> errors_Is e ErrRetryBudgetExhausted \<or> errors_Is e ErrInvalidRetryCount"

lemma UpdateTaskWithEvent_err:
  "UpdateTaskWithEvent ctx (Some t) (Some ev) m = (Some e, m') \<Longrightarrow> valid_ctx ctx \<Longrightarrow>
     \<not> budget_error e"
  by (auto simp: UpdateTaskWithEvent_def valid_ctx_def split: option.splits if_splits)

section \<open>Edits\<close>

lemma complete_edit:
  assumes "task_wf t0" "Status t0 = TaskStatusRunning"
    "MoveTo (Some (t0\<lparr>Result := res, Progress := 100\<rparr>)) TaskStatusSucceeded now = Inr t"
    "NewTaskEvent eid (ID t) EventTaskSucceeded msg pl (Progress t) now = Inr ev"
  shows "worker_edit t0 t ev"
proof -
  let ?t = "t0\<lparr>Result := res, Progress := 100\<rparr>"
  have w: "task_wf ?t" using assms(1) by (simp add: task_wf_def)
  have "task_frame t0 t" using MoveTo_frame [OF assms(3)] by (simp add: task_frame_def)
  with MoveTo_terminal_wf [OF assms(3) w] MoveTo_Inr [OF assms(3)] NewTaskEvent_Inr [OF assms(4)] assms(1,2)
  show ?thesis by (simp add: worker_edit_def event_retries_def)
qed

lemma fail_edit:
  assumes "task_wf t0" "Status t0 = TaskStatusRunning"
    "MoveTo (Some (t0\<lparr>ErrorMessage := em\<rparr>)) TaskStatusFailed now = Inr t"
    "NewTaskEvent eid (ID t) EventTaskFailed msg pl (Progress t) now = Inr ev"
  shows "worker_edit t0 t ev"
proof -
  have "task_frame t0 t" using MoveTo_frame [OF assms(3)] by (simp add: task_frame_def)
  with MoveTo_terminal_wf [OF assms(3)] MoveTo_Inr [OF assms(3)] NewTaskEvent_Inr [OF assms(4)] assms(1,2)
  show ?thesis by (simp add: worker_edit_def event_retries_def)
qed

lemma progress_edit:
  assumes "task_wf t0" "Status t0 = TaskStatusRunning" "t = t0\<lparr>Progress := p, UpdatedAt := now\<rparr>"
    "NewTaskEvent eid (ID t) EventTaskProgress msg pl p now = Inr ev"
  shows "worker_edit t0 t ev"
proof -
  from NewTaskEvent_Inr [OF assms(4)] have ev: "0 \<le> p" "p \<le> 100" "Type_ev ev = EventTaskProgress"
    "TaskID_ev ev = ID t" "Progress_ev ev = p" by auto
  have "task_wf t" using assms(1,3) ev by (simp add: task_wf_Progress)
  with assms(1-3) ev show ?thesis by (simp add: worker_edit_def event_retries_def task_frame_def)
qed

lemma release_edit:
  assumes "task_wf t0" "RequeueForRelease (Some t0) now = Inr t"
    "NewTaskReleasedEvent eid (Some t) now = Inr ev"
  shows "worker_edit t0 t ev"
proof -
  note w = RequeueForRelease_wf [OF assms(2,1)]
  from RequeueForRelease_Inr [OF assms(2)] have "task_frame t0 t" "Status t0 = TaskStatusRunning"
    "Version t = Version t0" "RetryCount t = RetryCount t0" by (auto simp: task_frame_def)
  with w NewTaskReleasedEvent_Inr [OF assms(3)] assms(1) show ?thesis
    by (simp add: worker_edit_def event_retries_def)
qed

lemma retry_edit:
  assumes "task_wf t0" "ScheduleRetry (Some t0) now at = Inr t1" "t = t1\<lparr>ErrorMessage := em\<rparr>"
    "NewTaskRetryingEvent eid (Some t) code d now = Inr ev"
  shows "worker_edit t0 t ev"
proof -
  note w = ScheduleRetry_wf [OF assms(2,1)]
  from ScheduleRetry_Inr [OF assms(2)] assms(3) have "task_frame t0 t" "Version t = Version t0"
    "Status t = TaskStatusRetrying" by (auto simp: task_frame_def)
  with w NewTaskRetryingEvent_Inr [OF assms(4)] assms(1,3) show ?thesis
    by (simp add: worker_edit_def event_retries_def)
qed

section \<open>Over any stores\<close>

context task_stores
begin

lemma only_others_refl: "ok s \<Longrightarrow> stores_wf (mem s) \<Longrightarrow> only_others mem ok s s"
  by (simp add: only_others_def)

lemma only_others_trans: "only_others mem ok s s1 \<Longrightarrow> only_others mem ok s1 s2 \<Longrightarrow> only_others mem ok s s2"
  by (auto simp: only_others_def)

lemma only_others_metrics: "only_others mem ok s s1 \<Longrightarrow> only_others mem ok s (metrics_rs S c s1)"
  by (simp add: only_others_def metrics_law)

lemma Get_spec:
  assumes "ok s" "stores_wf (mem s)" "Get_rs S tid s = (r, s')"
  shows "only_others mem ok s s' \<and> (\<forall>t. r = Inr t \<longrightarrow> stored_task (mem s') tid = Some t)"
  using Get_law [OF assms] env_steps_wf [OF _ assms(2)] by (auto simp: only_others_def dest: Get_Inr)

lemma ctx_Err_spec:
  "ok s \<Longrightarrow> stores_wf (mem s) \<Longrightarrow> ctx_Err_rs S s = (r, s') \<Longrightarrow> only_others mem ok s s'"
  using ctx_Err_law [of s r s'] env_steps_wf [of "mem s" "mem s'"] by (auto simp: only_others_def)

lemma recordLeaseLoss_spec:
  assumes "ok s" "stores_wf (mem s)"
  shows "only_others mem ok s (recordLeaseLoss S tid e s)"
proof (cases "Get_rs S tid s")
  case (Pair r s1)
  with Get_spec [OF assms Pair] assms show ?thesis
    by (cases r) (auto simp: recordLeaseLoss_def only_others_refl only_others_metrics)
qed

lemma validateLeaseToken_spec:
  assumes "ok s" "stores_wf (mem s)" "validateLeaseToken S tid wid token s = (r, s')"
  shows "only_others mem ok s s' \<and> (r = Inr u \<longrightarrow> (\<exists>p t. token_claims tid wid token = Inr p \<and>
    stored_task (mem s') tid = Some t \<and> Version t = Version_lt p \<and> LeaseOwner t = wid))"
proof (cases "token_claims tid wid token")
  case (Inl e)
  with assms show ?thesis by (auto simp: validateLeaseToken_def raise_eq only_others_refl)
next
  case (Inr p)
  with assms(3) have "bind (Get_rs S tid) (\<lambda>t. if Version t \<noteq> Version_lt p \<or> LeaseOwner t \<noteq> wid
      then raise ErrLeaseLost else ret ()) s = (r, s')"
    by (simp add: validateLeaseToken_def)
  then show ?thesis
  proof (cases rule: bind_cases)
    case (fail e)
    with Get_spec [OF assms(1,2) fail(1)] show ?thesis by simp
  next
    case (ok t s1)
    from Get_spec [OF assms(1,2) ok(1)] have "only_others mem ok s s1" "stored_task (mem s1) tid = Some t"
      by auto
    with ok(2) Inr show ?thesis by (auto simp: raise_eq ret_eq split: if_splits)
  qed
qed

lemma resolveLeaseVersion_spec:
  assumes "ok s" "stores_wf (mem s)" "resolveLeaseVersion S tid wid v token s = (r, s')"
  shows "only_others mem ok s s' \<and>
    (\<forall>x. r = Inr x \<longrightarrow> (\<exists>p. token_claims tid wid token = Inr p \<and> x = Version_lt p))"
proof (cases "token_claims tid wid token")
  case (Inl e)
  with assms show ?thesis by (auto simp: resolveLeaseVersion_def raise_eq only_others_refl)
next
  case (Inr p)
  with assms(3) have "bind (validateLeaseToken S tid wid token) (\<lambda>_. ret (Version_lt p)) s = (r, s')"
    by (simp add: resolveLeaseVersion_def)
  then show ?thesis
  proof (cases rule: bind_cases)
    case (fail e)
    with validateLeaseToken_spec [OF assms(1,2) fail(1)] show ?thesis by simp
  next
    case (ok u s1)
    with validateLeaseToken_spec [OF assms(1,2) ok(1)] Inr show ?thesis by (auto simp: ret_eq)
  qed
qed

lemma replayWorkerOperation_spec:
  assumes "ok s" "stores_wf (mem s)" "replayWorkerOperation S tid wid token sts s = (r, s')"
  shows "only_others mem ok s s' \<and> (\<forall>t. r = Inr (Some t) \<longrightarrow>
    (\<exists>p. token_claims tid wid token = Inr p \<and> stored_task (mem s') tid = Some t \<and>
         Version t = Version_lt p + 1 \<and> Status t \<in> set sts))"
proof (cases "token_claims tid wid token")
  case (Inl e)
  with assms show ?thesis by (auto simp: replayWorkerOperation_def raise_eq only_others_refl)
next
  case (Inr p)
  with assms(3) have "bind (Get_rs S tid) (\<lambda>t. if Version t \<noteq> Version_lt p + 1 then ret None
       else if Status t \<in> set sts then ret (Some t) else ret None) s = (r, s')"
    by (simp add: replayWorkerOperation_def)
  then show ?thesis
  proof (cases rule: bind_cases)
    case (fail e)
    with Get_spec [OF assms(1,2) fail(1)] show ?thesis by simp
  next
    case (ok t s1)
    with Get_spec [OF assms(1,2) ok(1)] Inr show ?thesis by (auto simp: ret_eq split: if_splits)
  qed
qed

lemma prepareRunningTask_spec:
  assumes "ok s" "stores_wf (mem s)" "prepareRunningTask S now tid wid v s = (r, s')"
  shows "only_others mem ok s s' \<and> (\<forall>t. r = Inr t \<longrightarrow>
    stored_task (mem s') tid = Some t \<and> Status t = TaskStatusRunning \<and> LeaseOwner t = wid \<and>
    Version t = v \<and> (\<exists>l. LeaseExpiresAt t = Some l \<and> now < l))"
proof (cases "tid = [] \<or> TrimSpace wid = []")
  case True
  with assms show ?thesis by (auto simp: prepareRunningTask_def raise_eq only_others_refl)
next
  case False
  with assms(3) have "bind (Get_rs S tid) (\<lambda>t.
        if Status t \<noteq> TaskStatusRunning \<or> LeaseOwner t \<noteq> wid \<or>
           (case LeaseExpiresAt t of None \<Rightarrow> True | Some l \<Rightarrow> \<not> l > now)
        then raise ErrLeaseLost
        else if Version t \<noteq> v then raise ErrTaskConflict
        else ret t) s = (r, s')"
    by (simp add: prepareRunningTask_def)
  then show ?thesis
  proof (cases rule: bind_cases)
    case (fail e)
    with Get_spec [OF assms(1,2) fail(1)] show ?thesis by simp
  next
    case (ok t s1)
    with Get_spec [OF assms(1,2) ok(1)] show ?thesis
      by (auto simp: ret_eq raise_eq split: if_splits option.splits)
  qed
qed

text \<open>
  An update computed from a task read in this request either fails and changes nothing, or
  replaces that task.
\<close>

lemma Update_spec:
  assumes "ok s" "stores_wf (mem s)" "was_read mem tid t0 s" "worker_edit t0 t ev"
    "UpdateTaskWithEvent_rs S (Some t) (Some ev) s = (r, s')" "LeaseOwner t0 = wid" "Version t0 = v" "Q t0 t ev"
  shows "(\<exists>e. r = Inl e \<and> only_others mem ok s s' \<and> \<not> budget_error e) \<or>
    (r = Inr () \<and> ok s' \<and> stores_wf (mem s') \<and> fenced_commit tid wid v Q (mem s) (mem s'))"
proof -
  from UpdateTaskWithEvent_law [OF assms(1,2,5)] obtain m ctx re where ok': "ok s'"
    and m: "env_step\<^sup>*\<^sup>* (mem s) m" "UpdateTaskWithEvent ctx (Some t) (Some ev) m = (re, mem s')"
      "r = err_result re" and ctx: "valid_ctx ctx" by blast
  note wf = env_steps_wf [OF m(1) assms(2)]
  from assms(3) obtain m0 where m0: "stores_wf m0" "stored_task m0 tid = Some t0" "env_step\<^sup>*\<^sup>* m0 (mem s)"
    unfolding was_read_def by blast
  have tid: "ID t = tid" "Version t = v"
    using stores_wf_lookup(1) [OF m0(1,2)] assms(4,7) by (auto simp: worker_edit_def task_frame_def)
  have cas: "same_claim t0 st" if "stored_task m (ID t) = Some st" "Version st = Version t" for st
    using env_steps_cas [OF rtranclp_trans [OF m0(3) m(1)] m0(1,2)] that tid assms(7) by simp
  from store_step.update [OF m(2) assms(4) cas] have step: "store_step m (mem s')" .
  from m(2) show ?thesis
  proof (cases rule: UpdateTaskWithEvent_cases)
    case (error e)
    with ok' m wf UpdateTaskWithEvent_err [OF m(2) [unfolded error] ctx] show ?thesis
      by (simp add: only_others_def)
  next
    case (commit t' ev' st)
    then have st: "stored_task m (ID t) = Some st" "Version st = Version t" by auto
    note sc = same_claim_frame [OF cas [OF st]]
    have "fenced_commit tid wid v Q (mem s) (mem s')"
      unfolding fenced_commit_def fenced_step_def
      using m(1) step st sc tid commit assms(4,6,8) cas [OF st]
      by (intro exI [of _ m] exI [of _ "mem s'"] conjI exI [of _ st] exI [of _ t0] exI [of _ t] exI [of _ ev])
        (simp_all add: worker_edit_def)
    with commit m ok' store_step_wf [OF step wf] show ?thesis by simp
  qed
qed

text \<open>The checks every operation on a leased task begins with.\<close>

lemma lease_guard:
  assumes "ok s" "stores_wf (mem s)"
    "bind (resolveLeaseVersion S tid wid v token) (\<lambda>version.
       bind (prepareRunningTask S pnow tid wid version) k) s = (r, s')"
  shows "(\<exists>e. r = Inl e \<and> only_others mem ok s s') \<or>
    (\<exists>p t s1. token_claims tid wid token = Inr p \<and> only_others mem ok s s1 \<and>
       stored_task (mem s1) tid = Some t \<and> task_wf t \<and> ID t = tid \<and> Status t = TaskStatusRunning \<and>
       LeaseOwner t = wid \<and> Version t = Version_lt p \<and> (\<exists>l. LeaseExpiresAt t = Some l \<and> pnow < l) \<and>
       k t s1 = (r, s'))"
  using assms(3)
proof (cases rule: bind_cases)
  case (fail e)
  with resolveLeaseVersion_spec [OF assms(1,2) fail(1)] show ?thesis by simp
next
  case (ok version s1)
  from resolveLeaseVersion_spec [OF assms(1,2) ok(1)] obtain p where
    p: "only_others mem ok s s1" "token_claims tid wid token = Inr p" "version = Version_lt p" by auto
  from p(1) have ok1: "ok s1" "stores_wf (mem s1)" by (auto simp: only_others_def)
  from ok(2) show ?thesis
  proof (cases rule: bind_cases)
    case (fail e)
    with prepareRunningTask_spec [OF ok1 fail(1)] p(1) only_others_trans show ?thesis by blast
  next
    case (ok t s2)
    from prepareRunningTask_spec [OF ok1 ok(1)] have t: "only_others mem ok s1 s2"
      "stored_task (mem s2) tid = Some t" "Status t = TaskStatusRunning" "LeaseOwner t = wid"
      "Version t = version" "\<exists>l. LeaseExpiresAt t = Some l \<and> pnow < l" by auto
    then have "stores_wf (mem s2)" by (simp add: only_others_def)
    with t p ok(2) stores_wf_lookup(1,2) [OF this t(2)] only_others_trans [OF p(1) t(1)] show ?thesis by blast
  qed
qed

text \<open>The end of every such operation: compute the new task and its event, and store both.\<close>

lemma edit_commit:
  assumes "ok s" "stores_wf (mem s)" "was_read mem tid t0 s" "LeaseOwner t0 = wid" "Version t0 = v"
    "bind (of_result mv) (\<lambda>t. bind (of_result (evr t)) (\<lambda>ev.
       bind (UpdateTaskWithEvent_rs S (Some t) (Some ev)) (\<lambda>_. k t))) s = (r, s')"
    "\<forall>t ev. mv = Inr t \<longrightarrow> evr t = Inr ev \<longrightarrow> worker_edit t0 t ev \<and> Q t0 t ev"
  shows "(\<exists>e. r = Inl e \<and> only_others mem ok s s') \<or>
    (\<exists>t ev s1. mv = Inr t \<and> evr t = Inr ev \<and> ok s1 \<and> stores_wf (mem s1) \<and>
       fenced_commit tid wid v (\<lambda>a b c. a = t0 \<and> b = t \<and> c = ev \<and> Q a b c) (mem s) (mem s1) \<and> k t s1 = (r, s'))"
proof (cases "\<exists>t ev. mv = Inr t \<and> evr t = Inr ev")
  case False
  then have "\<exists>e. r = Inl e \<and> s' = s"
    using assms(6) by (cases mv; cases "evr (projr mv)") (auto simp: raise_eq)
  with only_others_refl [OF assms(1,2)] show ?thesis by auto
next
  case True
  then obtain t ev where te: "mv = Inr t" "evr t = Inr ev" by blast
  with assms(7) have edit: "worker_edit t0 t ev" "Q t0 t ev" by auto
  from te assms(6) have "bind (UpdateTaskWithEvent_rs S (Some t) (Some ev)) (\<lambda>_. k t) s = (r, s')" by simp
  then show ?thesis
  proof (cases rule: bind_cases)
    case (fail e)
    from Update_spec [OF assms(1-3) _ fail(1) assms(4,5), of "\<lambda>_ _ _. True"] edit fail show ?thesis by auto
  next
    case (ok u s1)
    from Update_spec [OF assms(1-3) _ ok(1) assms(4,5), of "\<lambda>a b c. a = t0 \<and> b = t \<and> c = ev \<and> Q a b c"]
      edit ok te show ?thesis by auto
  qed
qed

text \<open>
  The shape shared by the operations on a leased task.  What remains to be shown of an
  operation is that its body, started on a task the token fences, changes that task or fails.
\<close>

lemma fenced_body:
  assumes "ok s" "stores_wf (mem s)"
    "bind (resolveLeaseVersion S tid wid v token) (\<lambda>version.
       bind (prepareRunningTask S pnow tid wid version) body) s = (r, s')"
    and body: "\<And>(p :: leaseTokenPayload) t0 s1. ok s1 \<Longrightarrow> stores_wf (mem s1) \<Longrightarrow> stored_task (mem s1) tid = Some t0 \<Longrightarrow>
      was_read mem tid t0 s1 \<Longrightarrow> task_wf t0 \<Longrightarrow> ID t0 = tid \<Longrightarrow> Status t0 = TaskStatusRunning \<Longrightarrow> LeaseOwner t0 = wid \<Longrightarrow> Version t0 = Version_lt p \<Longrightarrow>
      \<exists>l. LeaseExpiresAt t0 = Some l \<and> pnow < l \<Longrightarrow> body t0 s1 = (r, s') \<Longrightarrow>
      (\<exists>e. r = Inl e) \<and> only_others mem ok s1 s' \<or>
      ok s' \<and> stores_wf (mem s') \<and> fenced_commit tid wid (Version_lt p) (Q r) (mem s1) (mem s')"
  shows "fenced_outcome mem ok tid wid token R Q s r s'"
  using lease_guard [OF assms(1-3)]
proof (elim disjE exE conjE)
  fix e assume "r = Inl e" "only_others mem ok s s'"
  then show ?thesis by (simp add: fenced_outcome_def only_others_def)
next
  fix p t0 s1 l
  assume p: "token_claims tid wid token = Inr p" and o: "only_others mem ok s s1"
    and t0: "stored_task (mem s1) tid = Some t0" "task_wf t0" "ID t0 = tid" "Status t0 = TaskStatusRunning"
      "LeaseOwner t0 = wid" "Version t0 = Version_lt p" "LeaseExpiresAt t0 = Some l" "pnow < l"
    and run: "body t0 s1 = (r, s')"
  from o have o1: "ok s1" "stores_wf (mem s1)" "env_step\<^sup>*\<^sup>* (mem s) (mem s1)" by (auto simp: only_others_def)
  from t0(7,8) have "\<exists>l. LeaseExpiresAt t0 = Some l \<and> pnow < l" by blast
  from body [OF o1(1,2) t0(1) was_read_now [of mem s1, OF o1(2) t0(1)] t0(2-6) this run] consider
    "\<exists>e. r = Inl e" "only_others mem ok s1 s'"
    | "ok s'" "stores_wf (mem s')" "fenced_commit tid wid (Version_lt p) (Q r) (mem s1) (mem s')" by blast
  then show ?thesis
  proof cases
    case 1
    with o1(3) show ?thesis by (auto simp: fenced_outcome_def only_others_def)
  next
    case 2
    from fenced_commit_before [OF 2(3) o1(3)] 2 p show ?thesis by (auto simp: fenced_outcome_def)
  qed
qed

lemma fenced_replay:
  assumes "ok s" "stores_wf (mem s)"
    "bind (replayWorkerOperation S tid wid token sts) (\<lambda>rep.
       case rep of Some t \<Rightarrow> if bad t then raise ErrTaskConflict else ret t | None \<Rightarrow> rest) s = (r, s')"
    and rest: "\<And>s1. ok s1 \<Longrightarrow> stores_wf (mem s1) \<Longrightarrow> rest s1 = (r, s') \<Longrightarrow>
      fenced_outcome mem ok tid wid token R Q s1 r s'"
    and R: "\<And>t. Status t \<in> set sts \<Longrightarrow> \<not> bad t \<Longrightarrow> R t"
  shows "fenced_outcome mem ok tid wid token R Q s r s'"
  using assms(3)
proof (cases rule: bind_cases)
  case (fail e)
  with replayWorkerOperation_spec [OF assms(1,2) fail(1)] show ?thesis
    by (simp add: fenced_outcome_def only_others_def)
next
  case (ok rep s1)
  note rs = replayWorkerOperation_spec [OF assms(1,2) ok(1)]
  then have o1: "ok s1" "stores_wf (mem s1)" "env_step\<^sup>*\<^sup>* (mem s) (mem s1)" by (auto simp: only_others_def)
  show ?thesis
  proof (cases rep)
    case (Some t)
    with rs obtain p where p: "token_claims tid wid token = Inr p" "stored_task (mem s1) tid = Some t"
      "Version t = Version_lt p + 1" "Status t \<in> set sts" by auto
    with ok(2) o1 Some R [OF p(4)] show ?thesis
      by (auto simp: fenced_outcome_def raise_eq ret_eq split: if_splits)
  next
    case None
    with ok(2) have "fenced_outcome mem ok tid wid token R Q s1 r s'" by (simp add: rest [OF o1(1,2)])
    with o1(3) show ?thesis by (rule fenced_outcome_before [rotated])
  qed
qed

end

end
