(* ===== verification/WorkerSpecs.thy ===== *)
theory WorkerSpecs
  imports WorkerFacts
begin

text \<open>
  One specification per operation of the worker protocol, over any stores that keep the
  contract.  For \<open>FailTask\<close> the retry scheduler is an interface of its own
  (\<open>retry_service\<close>); \<open>externalSchedule\<close> keeps its contract.
\<close>

context task_stores
begin

lemma ClaimTask_spec:
  assumes "ok s" "stores_wf (mem s)" "ClaimTask S now eid input s = (r, s')"
  shows "ok s' \<and> stores_wf (mem s') \<and>
    ((\<exists>e. r = Inl e \<and> env_step\<^sup>*\<^sup>* (mem s) (mem s')) \<or>
     (\<exists>m t kind ev o1. r = Inr (withLeaseToken (claimed o1 kind t)) \<and> env_step\<^sup>*\<^sup>* (mem s) m \<and>
        o1 = \<lparr>WorkerID_co = WorkerID_ci input, Workflow_co = TrimSpace (Workflow_ci input),
              Now_co = now, LeaseDuration_co = LeaseDuration_ci input\<rparr> \<and>
        stored_task m (ID t) = Some t \<and> claimable o1 kind t \<and> store_step m (mem s') \<and>
        mem s' = commit (ID t) (claimed o1 kind t) ev m))"
proof (cases "TrimSpace (WorkerID_ci input) = [] \<or> TrimSpace (Workflow_ci input) = []
         \<or> LeaseDuration_ci input \<le> 0")
  case True
  with assms show ?thesis by (auto simp: ClaimTask_def raise_eq)
next
  case False
  let ?o = "\<lparr>WorkerID_co = WorkerID_ci input, Workflow_co = TrimSpace (Workflow_ci input),
      Now_co = now, LeaseDuration_co = LeaseDuration_ci input\<rparr>"
  from False assms(3) have "bind (ClaimNextWithEvent_rs S ?o eid) (\<lambda>t.
        effect (metrics_rs S (RecordTaskClaimed (Workflow t))) (ret (withLeaseToken t))) s = (r, s')"
    by (simp add: ClaimTask_def)
  then obtain r1 s1 where c: "ClaimNextWithEvent_rs S ?o eid s = (r1, s1)" "ok s1 \<longleftrightarrow> ok s1"
    and r1: "(\<exists>e. r1 = Inl e \<and> r = Inl e \<and> s' = s1) \<or>
       (\<exists>t. r1 = Inr t \<and> r = Inr (withLeaseToken t) \<and> s' = metrics_rs S (RecordTaskClaimed (Workflow t)) s1)"
    by (cases rule: bind_cases) (auto simp: effect_def ret_eq)
  from ClaimNextWithEvent_law [OF assms(1,2) c(1)] obtain m ctx rng1 rng2 where ok1: "ok s1"
    and rng: "range_order rng1" "range_order rng2" and m: "env_step\<^sup>*\<^sup>* (mem s) m"
      "ClaimNextWithEvent rng1 rng2 ctx ?o eid m = (r1, mem s1)" by blast
  note wf = env_steps_wf [OF m(1) assms(2)]
  have mem': "mem s' = mem s1" "ok s'" using r1 ok1 metrics_law by auto
  have step: "store_step m (mem s1)" by (rule store_step.claim [OF m(2) rng])
  from m(2) rng wf show ?thesis
  proof (cases rule: ClaimNextWithEvent_cases)
    case (error e)
    with r1 mem' m(1) wf show ?thesis by auto
  next
    case (claimed t kind ev)
    with r1 mem' have "r = Inr (withLeaseToken (StoreFacts.claimed ?o kind t))" by auto
    with claimed mem' m(1) step store_step_wf [OF step wf] show ?thesis by metis
  qed
qed

lemma HeartbeatTask_spec:
  assumes "ok s" "stores_wf (mem s)" "HeartbeatTask S now input s = (r, s')"
  shows "ok s' \<and> stores_wf (mem s') \<and>
    (env_step\<^sup>*\<^sup>* (mem s) (mem s') \<and> (\<exists>e. r = Inl e) \<or>
     (\<exists>m0 m1 m2 p t t0. env_step\<^sup>*\<^sup>* (mem s) m0 \<and> env_step\<^sup>*\<^sup>* m0 m1 \<and>
        env_step\<^sup>*\<^sup>* (mem s) m1 \<and> store_step m1 m2 \<and> env_step\<^sup>*\<^sup>* m2 (mem s') \<and>
        token_claims (TaskID_hi input) (WorkerID_hi input) (LeaseToken_hi input) = Inr p \<and>
        stored_task m0 (TaskID_hi input) = Some t \<and> Version t = Version_lt p \<and> LeaseOwner t = WorkerID_hi input \<and>
        stored_task m1 (TaskID_hi input) = Some t0 \<and> lease_held (WorkerID_hi input) now t0 \<and> 0 < LeaseDuration_hi input \<and>
        m2 = m1\<lparr>taskStore := put_task (TaskID_hi input) (renewed now (LeaseDuration_hi input) t0) (taskStore m1)\<rparr> \<and>
        (\<forall>u. r = Inr u \<longrightarrow> (\<exists>v. stored_task (mem s') (TaskID_hi input) = Some v \<and> u = withLeaseToken v))))"
proof (cases "TaskID_hi input = [] \<or> TrimSpace (WorkerID_hi input) = [] \<or> LeaseDuration_hi input \<le> 0")
  case True
  with assms show ?thesis by (auto simp: HeartbeatTask_def raise_eq)
next
  case False
  let ?v = "validateLeaseToken S (TaskID_hi input) (WorkerID_hi input) (LeaseToken_hi input)"
  let ?o = "\<lparr>TaskID_rl = TaskID_hi input, WorkerID_rl = WorkerID_hi input, Now_rl = now,
      LeaseDuration_rl = LeaseDuration_hi input\<rparr>"
  obtain r1 s1 where v: "?v s = (r1, s1)" by force
  note vs = validateLeaseToken_spec [OF assms(1,2) v]
  then have o1: "only_others mem ok s s1" "ok s1" "stores_wf (mem s1)" by (auto simp: only_others_def)
  show ?thesis
  proof (cases r1)
    case (Inl e)
    with False v assms(3) have "s' = recordLeaseLoss S (TaskID_hi input) e s1" "r = Inl e"
      by (auto simp: HeartbeatTask_def attempt_def effect_def raise_eq)
    with only_others_trans [OF o1(1) recordLeaseLoss_spec [OF o1(2,3)]] show ?thesis
      by (simp add: only_others_def)
  next
    case (Inr u)
    with vs obtain p t where p: "token_claims (TaskID_hi input) (WorkerID_hi input) (LeaseToken_hi input) = Inr p"
      "stored_task (mem s1) (TaskID_hi input) = Some t" "Version t = Version_lt p" "LeaseOwner t = WorkerID_hi input"
      by auto
    obtain r2 s2 where n: "RenewLease_rs S ?o s1 = (r2, s2)" by force
    from RenewLease_law [OF o1(2,3) n] obtain m ctx re ts where ok2: "ok s2" and m: "env_step\<^sup>*\<^sup>* (mem s1) m"
      "RenewLease ctx ?o (taskStore m) = (re, ts)" "r2 = err_result re" "mem s2 = m\<lparr>taskStore := ts\<rparr>" by blast
    note wf = env_steps_wf [OF m(1) o1(3)]
    have step: "store_step m (mem s2)" unfolding m(4) by (rule store_step.renew [OF m(2)])
    note wf2 = store_step_wf [OF step wf]
    from m(2) show ?thesis
    proof (cases rule: RenewLease_cases)
      case (error e)
      with False v Inr n m assms(3) have "s' = recordLeaseLoss S (TaskID_hi input) e s2" "r = Inl e"
        by (auto simp: HeartbeatTask_def attempt_def effect_def raise_eq)
      moreover have "mem s2 = m" using error m(4) by simp
      moreover from this have "only_others mem ok s s2"
        using o1(1) m(1) ok2 wf2 by (auto simp: only_others_def)
      from only_others_trans [OF this recordLeaseLoss_spec [OF ok2 wf2]] calculation show ?thesis
        by (simp add: only_others_def)
    next
      case (renewed t0)
      with False v Inr n m assms(3) have g: "bind (Get_rs S (TaskID_hi input)) (\<lambda>t.
          effect (metrics_rs S (RecordLeaseRenewed (Workflow t))) (ret (withLeaseToken t))) s2 = (r, s')"
        by (auto simp: HeartbeatTask_def attempt_def)
      then obtain r3 s3 where g3: "Get_rs S (TaskID_hi input) s2 = (r3, s3)" "mem s' = mem s3"
        "ok s3 \<Longrightarrow> ok s'" "\<forall>t. r = Inr t \<longrightarrow> (\<exists>u. r3 = Inr u \<and> t = withLeaseToken u)"
        by (cases rule: bind_cases) (auto simp: effect_def ret_eq metrics_law)
      from Get_spec [OF ok2 wf2 g3(1)] g3 have
        "ok s'" "stores_wf (mem s')" "env_step\<^sup>*\<^sup>* (mem s2) (mem s')"
        "\<forall>t. r = Inr t \<longrightarrow> (\<exists>u. stored_task (mem s') (TaskID_hi input) = Some u \<and> t = withLeaseToken u)"
        by (auto simp: only_others_def)
      moreover have "env_step\<^sup>*\<^sup>* (mem s) (mem s1)" "env_step\<^sup>*\<^sup>* (mem s) m"
        using o1(1) m(1) by (auto simp: only_others_def)
      moreover have "mem s2 = m\<lparr>taskStore := put_task (TaskID_hi input)
          (StoreFacts.renewed now (LeaseDuration_hi input) t0) (taskStore m)\<rparr>"
        using renewed m(4) by simp
      moreover have "stored_task m (TaskID_hi input) = Some t0" "lease_held (WorkerID_hi input) now t0"
        "0 < LeaseDuration_hi input"
        using renewed by simp_all
      ultimately show ?thesis using p step m(1) by (intro conjI disjI2) (simp, simp, metis)
    qed
  qed
qed

lemma CompleteTask_spec:
  assumes "ok s" "stores_wf (mem s)" "CompleteTask S pnow now eid input s = (r, s')"
  shows "fenced_outcome mem ok (TaskID_cm input) (WorkerID_cm input) (LeaseToken_cm input)
    (\<lambda>t. Status t = TaskStatusSucceeded \<and> jsonSemanticallyEqual (Result t) (completion_result input))
    (\<lambda>r t0 t ev. r = Inr t \<and> Status t = TaskStatusSucceeded \<and> Result t = completion_result input \<and>
       Progress t = 100 \<and> FinishedAt t = Some now \<and> Type_ev ev = EventTaskSucceeded \<and>
       (\<exists>l. LeaseExpiresAt t0 = Some l \<and> pnow < l)) s r s'"
proof (rule fenced_replay [OF assms(1,2) assms(3) [unfolded CompleteTask_def Let_def]])
  fix s1
  let ?mv = "\<lambda>t. MoveTo (Some (t\<lparr>Result := completion_result input, Progress := 100\<rparr>)) TaskStatusSucceeded now"
  let ?ev = "\<lambda>t1. NewTaskEvent eid (ID t1) EventTaskSucceeded
      ''task succeeded by external worker'' (worker_payload (WorkerID_cm input)) (Progress t1) now"
  let ?Q = "\<lambda>t0 t ev. Status t = TaskStatusSucceeded \<and> Result t = completion_result input \<and>
       Progress t = 100 \<and> FinishedAt t = Some now \<and> Type_ev ev = EventTaskSucceeded \<and>
       (\<exists>l. LeaseExpiresAt t0 = Some l \<and> pnow < l)"
  assume "ok s1" "stores_wf (mem s1)"
    "bind (resolveLeaseVersion S (TaskID_cm input) (WorkerID_cm input) (Version_cm input) (LeaseToken_cm input))
       (\<lambda>version. bind (prepareRunningTask S pnow (TaskID_cm input) (WorkerID_cm input) version) (\<lambda>t.
        bind (of_result (?mv t)) (\<lambda>t1. bind (of_result (?ev t1)) (\<lambda>ev.
          bind (UpdateTaskWithEvent_rs S (Some t1) (Some ev)) (\<lambda>_.
            effect (metrics_rs S (RecordTaskCompleted (Workflow t1) TaskStatusSucceeded
              (taskElapsed (Some t1) now))) (ret t1)))))) s1 = (r, s')"
  then show "fenced_outcome mem ok (TaskID_cm input) (WorkerID_cm input) (LeaseToken_cm input)
    (\<lambda>t. Status t = TaskStatusSucceeded \<and> jsonSemanticallyEqual (Result t) (completion_result input))
    (\<lambda>r t0 t ev. r = Inr t \<and> ?Q t0 t ev) s1 r s'"
  proof (rule fenced_body)
    fix p t0 s2
    assume t0: "ok s2" "stores_wf (mem s2)" "was_read mem (TaskID_cm input) t0 s2" "task_wf t0"
      "Status t0 = TaskStatusRunning" "LeaseOwner t0 = WorkerID_cm input" "Version t0 = Version_lt p"
      "\<exists>l. LeaseExpiresAt t0 = Some l \<and> pnow < l"
      and run: "bind (of_result (?mv t0)) (\<lambda>t1. bind (of_result (?ev t1)) (\<lambda>ev.
          bind (UpdateTaskWithEvent_rs S (Some t1) (Some ev)) (\<lambda>_.
            effect (metrics_rs S (RecordTaskCompleted (Workflow t1) TaskStatusSucceeded
              (taskElapsed (Some t1) now))) (ret t1)))) s2 = (r, s')"
    have edit: "worker_edit t0 t ev \<and> ?Q t0 t ev" if "?mv t0 = Inr t" "?ev t = Inr ev" for t ev
      using complete_edit [OF t0(4,5) that] MoveTo_Inr [OF that(1)] NewTaskEvent_Inr [OF that(2)] t0(8)
      by (simp add: enter_status_def)
    from edit have "\<forall>t ev. ?mv t0 = Inr t \<longrightarrow> ?ev t = Inr ev \<longrightarrow> worker_edit t0 t ev \<and> ?Q t0 t ev" by blast
    from edit_commit [where Q = ?Q, OF t0(1-3,6,7) run this]
    show "(\<exists>e. r = Inl e) \<and> only_others mem ok s2 s' \<or> ok s' \<and> stores_wf (mem s') \<and>
      fenced_commit (TaskID_cm input) (WorkerID_cm input) (Version_lt p)
        (\<lambda>t0 t ev. r = Inr t \<and> ?Q t0 t ev) (mem s2) (mem s')"
      by (auto simp: effect_def ret_eq metrics_law elim!: fenced_commit_mono)
  qed
qed auto

text \<open>A read after the change leaves the outcome as it is.\<close>

lemma fenced_then_Get:
  assumes "ok s1" "stores_wf (mem s1)" "fenced_commit tid wid v Q m (mem s1)" "Get_rs S tid' s1 = (r, s')"
  shows "ok s' \<and> stores_wf (mem s') \<and> fenced_commit tid wid v Q m (mem s')"
  using Get_spec [OF assms(1,2,4)] fenced_commit_after [OF assms(3)] by (auto simp: only_others_def)

lemma ReportProgress_spec:
  assumes "ok s" "stores_wf (mem s)" "ReportProgress S pnow now eid input s = (r, s')"
  shows "fenced_outcome mem ok (TaskID_pi input) (WorkerID_pi input) (LeaseToken_pi input) (\<lambda>_. False)
    (\<lambda>_ t0 t ev. t = t0\<lparr>Progress := Progress_pi input, UpdatedAt := now\<rparr> \<and> 0 \<le> Progress t \<and> Progress t < 100 \<and>
       Type_ev ev = EventTaskProgress \<and> Message_ev ev = progress_message input \<and>
       (\<exists>l. LeaseExpiresAt t0 = Some l \<and> pnow < l)) s r s'"
proof (cases "Progress_pi input < 0 \<or> Progress_pi input \<ge> 100")
  case True
  with assms show ?thesis by (auto simp: ReportProgress_def raise_eq fenced_outcome_def)
next
  case False
  let ?t = "\<lambda>t0. t0\<lparr>Progress := Progress_pi input, UpdatedAt := now\<rparr>"
  let ?pl = "json_print (JObject [(''message'', JString (progress_message input)),
              (''progress'', JInt (Progress_pi input)), (''worker_id'', JString (WorkerID_pi input))])"
  let ?ev = "\<lambda>t. NewTaskEvent eid (ID t) EventTaskProgress (progress_message input) ?pl (Progress_pi input) now"
  let ?Q = "\<lambda>t0 t ev. t = ?t t0 \<and> 0 \<le> Progress t \<and> Progress t < 100 \<and>
       Type_ev ev = EventTaskProgress \<and> Message_ev ev = progress_message input \<and>
       (\<exists>l. LeaseExpiresAt t0 = Some l \<and> pnow < l)"
  let ?k = "\<lambda>t. bind (Get_rs S (ID t)) (\<lambda>updated. ret (withLeaseToken updated))"
  let ?body = "\<lambda>t0. bind (of_result (Inr (?t t0))) (\<lambda>t. bind (of_result (?ev t)) (\<lambda>ev.
     bind (UpdateTaskWithEvent_rs S (Some t) (Some ev)) (\<lambda>_. ?k t)))"
  from False assms(3) have
    "bind (resolveLeaseVersion S (TaskID_pi input) (WorkerID_pi input) (Version_pi input) (LeaseToken_pi input))
       (\<lambda>version. bind (prepareRunningTask S pnow (TaskID_pi input) (WorkerID_pi input) version) ?body) s = (r, s')"
    by (simp add: ReportProgress_def Let_def)
  with assms(1,2) show ?thesis
  proof (rule fenced_body)
    fix p t0 s2
    assume t0: "ok s2" "stores_wf (mem s2)" "was_read mem (TaskID_pi input) t0 s2" "task_wf t0"
      "Status t0 = TaskStatusRunning" "LeaseOwner t0 = WorkerID_pi input" "Version t0 = Version_lt p"
      "\<exists>l. LeaseExpiresAt t0 = Some l \<and> pnow < l" and run: "?body t0 s2 = (r, s')"
    have edit: "worker_edit t0 t ev \<and> ?Q t0 t ev" if t: "Inr (?t t0) = Inr t" and ev: "?ev t = Inr ev" for t ev
    proof -
      from t have t': "t = ?t t0" by simp
      from progress_edit [OF t0(4,5) t' ev] NewTaskEvent_Inr [OF ev] False t0(8) t' show ?thesis by simp
    qed
    from edit have "\<forall>t ev. Inr (?t t0) = Inr t \<longrightarrow> ?ev t = Inr ev \<longrightarrow> worker_edit t0 t ev \<and> ?Q t0 t ev" by blast
    from edit_commit [where Q = ?Q, OF t0(1-3,6,7) run this]
    show "(\<exists>e. r = Inl e) \<and> only_others mem ok s2 s' \<or> ok s' \<and> stores_wf (mem s') \<and>
      fenced_commit (TaskID_pi input) (WorkerID_pi input) (Version_lt p) ?Q (mem s2) (mem s')"
    proof (elim disjE exE conjE)
      fix t ev s3
      assume c: "ok s3" "stores_wf (mem s3)" "?k t s3 = (r, s')"
        "fenced_commit (TaskID_pi input) (WorkerID_pi input) (Version_lt p)
           (\<lambda>a b c. a = t0 \<and> b = t \<and> c = ev \<and> ?Q a b c) (mem s2) (mem s3)"
      from c(3) obtain r3 where "Get_rs S (ID t) s3 = (r3, s')"
        by (cases rule: bind_cases) (auto simp: ret_eq)
      moreover have "fenced_commit (TaskID_pi input) (WorkerID_pi input) (Version_lt p) ?Q (mem s2) (mem s3)"
        by (rule fenced_commit_mono [OF c(4)]) simp
      ultimately show ?thesis using fenced_then_Get [OF c(1,2)] by blast
    qed blast
  qed
qed

lemma ReleaseTask_spec:
  assumes "ok s" "stores_wf (mem s)" "ReleaseTask S pnow now eid input s = (r, s')"
  shows "fenced_outcome mem ok (TaskID_ri input) (WorkerID_ri input) (LeaseToken_ri input)
    (\<lambda>t. Status t = TaskStatusQueued)
    (\<lambda>_ t0 t ev. RequeueForRelease (Some t0) now = Inr t \<and> Type_ev ev = EventTaskReleased \<and>
       (\<exists>l. LeaseExpiresAt t0 = Some l \<and> pnow < l)) s r s'"
proof (rule fenced_replay [where bad = "\<lambda>_. False", OF assms(1,2)])
  let ?Q = "\<lambda>t0 t ev. RequeueForRelease (Some t0) now = Inr t \<and> Type_ev ev = EventTaskReleased \<and>
       (\<exists>l. LeaseExpiresAt t0 = Some l \<and> pnow < l)"
  let ?ev = "\<lambda>t1. NewTaskReleasedEvent eid (Some t1) now"
  let ?k = "\<lambda>t1. effect (metrics_rs S (RecordTaskReleased (Workflow t1))) (Get_rs S (ID t1))"
  let ?body = "\<lambda>t. bind (of_result (RequeueForRelease (Some t) now)) (\<lambda>t1. bind (of_result (?ev t1)) (\<lambda>ev.
         bind (UpdateTaskWithEvent_rs S (Some t1) (Some ev)) (\<lambda>_. ?k t1)))"
  let ?rest = "bind (resolveLeaseVersion S (TaskID_ri input) (WorkerID_ri input) (Version_ri input) (LeaseToken_ri input))
       (\<lambda>version. bind (prepareRunningTask S pnow (TaskID_ri input) (WorkerID_ri input) version) ?body)"
  show "bind (replayWorkerOperation S (TaskID_ri input) (WorkerID_ri input) (LeaseToken_ri input) [TaskStatusQueued])
     (\<lambda>rep. case rep of Some t \<Rightarrow> if False then raise ErrTaskConflict else ret t | None \<Rightarrow> ?rest) s = (r, s')"
    using assms(3) by (simp add: ReleaseTask_def cong: option.case_cong)
  fix s1
  assume "ok s1" "stores_wf (mem s1)" "?rest s1 = (r, s')"
  then show "fenced_outcome mem ok (TaskID_ri input) (WorkerID_ri input) (LeaseToken_ri input)
    (\<lambda>t. Status t = TaskStatusQueued) (\<lambda>_. ?Q) s1 r s'"
  proof (rule fenced_body)
    fix p t0 s2
    assume t0: "ok s2" "stores_wf (mem s2)" "was_read mem (TaskID_ri input) t0 s2" "task_wf t0"
      "Status t0 = TaskStatusRunning" "LeaseOwner t0 = WorkerID_ri input" "Version t0 = Version_lt p"
      "\<exists>l. LeaseExpiresAt t0 = Some l \<and> pnow < l" and run: "?body t0 s2 = (r, s')"
    have edit: "worker_edit t0 t ev \<and> ?Q t0 t ev" if "RequeueForRelease (Some t0) now = Inr t" "?ev t = Inr ev" for t ev
      using release_edit [OF t0(4) that] NewTaskReleasedEvent_Inr [OF that(2)] t0(8) that by simp
    from edit have "\<forall>t ev. RequeueForRelease (Some t0) now = Inr t \<longrightarrow> ?ev t = Inr ev \<longrightarrow> worker_edit t0 t ev \<and> ?Q t0 t ev" by blast
    from edit_commit [where Q = ?Q, OF t0(1-3,6,7) run this]
    show "(\<exists>e. r = Inl e) \<and> only_others mem ok s2 s' \<or> ok s' \<and> stores_wf (mem s') \<and>
      fenced_commit (TaskID_ri input) (WorkerID_ri input) (Version_lt p) ?Q (mem s2) (mem s')"
    proof (elim disjE exE conjE)
      fix t ev s3
      assume c: "ok s3" "stores_wf (mem s3)" "?k t s3 = (r, s')"
        "fenced_commit (TaskID_ri input) (WorkerID_ri input) (Version_lt p)
           (\<lambda>a b c. a = t0 \<and> b = t \<and> c = ev \<and> ?Q a b c) (mem s2) (mem s3)"
      have "ok (metrics_rs S (RecordTaskReleased (Workflow t)) s3)"
        "mem (metrics_rs S (RecordTaskReleased (Workflow t)) s3) = mem s3"
        using metrics_law c(1) by simp_all
      with c(2,3) fenced_then_Get [where Q = ?Q and ?s1.0 = "metrics_rs S (RecordTaskReleased (Workflow t)) s3"]
      have "fenced_commit (TaskID_ri input) (WorkerID_ri input) (Version_lt p) ?Q (mem s2) (mem s3) \<Longrightarrow> ?thesis"
        by (auto simp: effect_def)
      moreover have "fenced_commit (TaskID_ri input) (WorkerID_ri input) (Version_lt p) ?Q (mem s2) (mem s3)"
        by (rule fenced_commit_mono [OF c(4)]) simp
      ultimately show ?thesis by blast
    qed blast
  qed
qed auto

lemma fail_finally_spec:
  assumes t0: "ok s2" "stores_wf (mem s2)" "was_read mem tid t0 s2" "task_wf t0"
      "Status t0 = TaskStatusRunning" "LeaseOwner t0 = wid" "Version t0 = v"
    and run: "fail_finally S now eid input t0 s2 = (r, s')"
  shows "(\<exists>e. r = Inl e) \<and> only_others mem ok s2 s' \<or> ok s' \<and> stores_wf (mem s') \<and>
      fenced_commit tid wid v (\<lambda>a t ev. a = t0 \<and> r = Inr t \<and> Status t = TaskStatusFailed \<and>
        ErrorMessage t = failure_message input \<and> FinishedAt t = Some now \<and> Type_ev ev = EventTaskFailed)
      (mem s2) (mem s')"
proof -
  let ?mv = "MoveTo (Some (t0\<lparr>ErrorMessage := failure_message input\<rparr>)) TaskStatusFailed now"
  let ?pl = "json_print (JObject [(''error_code'', JString (ErrorCode_fi input)),
           (''retryable'', JBool (Retryable_fi input)), (''worker_id'', JString (WorkerID_fi input))])"
  let ?ev = "\<lambda>t1. NewTaskEvent eid (ID t1) EventTaskFailed ''task failed by external worker'' ?pl (Progress t1) now"
  let ?Q = "\<lambda>_ t ev. Status t = TaskStatusFailed \<and> ErrorMessage t = failure_message input \<and>
       FinishedAt t = Some now \<and> Type_ev ev = EventTaskFailed"
  have edit: "worker_edit t0 t ev \<and> ?Q t0 t ev" if "?mv = Inr t" "?ev t = Inr ev" for t ev
    using fail_edit [OF t0(4,5) that] MoveTo_Inr [OF that(1)] NewTaskEvent_Inr [OF that(2)]
    by (simp add: enter_status_def)
  then have "\<forall>t ev. ?mv = Inr t \<longrightarrow> ?ev t = Inr ev \<longrightarrow> worker_edit t0 t ev \<and> ?Q t0 t ev" by blast
  from edit_commit [where Q = ?Q, OF t0(1-3,6,7) run [unfolded fail_finally_def Let_def] this]
  show ?thesis by (auto simp: effect_def ret_eq metrics_law elim!: fenced_commit_mono)
qed

end

end
