(* ===== verification/RetrySpecs.thy ===== *)
theory RetrySpecs
  imports WorkerSpecs
begin

text \<open>
  Retries over any stores.  \<open>retry_service\<close> is the contract of the interface
  \<open>TaskRetryScheduler\<close>: a call that succeeds has put the task back for a later attempt, at one
  instant and only if the task is still the one that was read; a call that reports an
  exhausted budget has left the caller's task alone.  \<open>externalSchedule\<close> keeps it.
\<close>

section \<open>The scheduler's contract\<close>

definition retry_commit :: "string \<Rightarrow> Task \<Rightarrow> string \<Rightarrow> MemoryStores \<Rightarrow> MemoryStores \<Rightarrow> bool" where
  "retry_commit tid t0 code m m' \<longleftrightarrow>
     fenced_commit tid (LeaseOwner t0) (Version t0)
       (\<lambda>a t ev. a = t0 \<and> Status t = TaskStatusRetrying \<and> RetryCount t = RetryCount t0 + 1 \<and>
          ErrorMessage t = code \<and> UpdatedAt t < AvailableAt t \<and> Type_ev ev = EventTaskRetrying) m m'"

lemma retry_commit_before: "retry_commit tid t0 code m' m'' \<Longrightarrow> env_step\<^sup>*\<^sup>* m m' \<Longrightarrow> retry_commit tid t0 code m m''"
  unfolding retry_commit_def by (rule fenced_commit_before)

lemma NewTaskRetryingEvent_Inl:
  "NewTaskRetryingEvent eid (Some t) code d now = Inl e \<Longrightarrow> \<exists>x. e = ErrNew x"
  by (auto simp: NewTaskRetryingEvent_def NewTaskEvent_def time_member_def split: if_splits sum.splits option.splits)

locale retry_service = task_stores S mem ok
  for S :: "'s runtimeStores" and mem ok +
  fixes sched :: "Task \<Rightarrow> string \<Rightarrow> string \<Rightarrow> duration \<Rightarrow> 's \<Rightarrow> unit result \<times> Task \<times> 's"
  assumes sched_law: "ok s \<Longrightarrow> stores_wf (mem s) \<Longrightarrow> was_read mem tid t0 s \<Longrightarrow> task_wf t0 \<Longrightarrow>
      sched t0 code msg after s = (u, t, s') \<Longrightarrow>
      (\<exists>e. u = Inl e \<and> only_others mem ok s s' \<and> (errors_Is e ErrRetryBudgetExhausted \<longrightarrow> t = t0)) \<or>
      (u = Inr () \<and> ok s' \<and> stores_wf (mem s') \<and> ID t = ID t0 \<and> retry_commit tid t0 code (mem s) (mem s'))"

context task_stores
begin

text \<open>The scheduler reports an exhausted budget only when it is.\<close>

lemma Schedule_budget:
  assumes s: "ok s" "stores_wf (mem s)" "task_wf t0" and e: "budget_error e"
    and run: "Schedule S jit eid (Some t0) (Some ee) policy now s = (Inl e, t, s')"
  shows "MaxRetries t0 \<le> RetryCount t0 \<or> MaxRetries_rp policy \<le> RetryCount t0"
proof (rule ccontr)
  assume n: "\<not> ?thesis"
  with s(3) have i: "i64 (RetryCount t0 + 1) = RetryCount t0 + 1" "0 \<le> RetryCount t0"
    by (auto simp: task_wf_def in_i64_def intro!: i64_id)
  obtain c s1 where c: "ctx_Err_rs S s = (c, s1)" by force
  from ctx_Err_law [OF s(1,2) c] env_steps_wf [OF _ s(2)] have ok1: "ok s1" "stores_wf (mem s1)"
    and cv: "c = Inl x \<Longrightarrow> \<not> budget_error x" for x by (auto simp: valid_ctx_def)
  have upd: "\<not> budget_error x" if "UpdateTaskWithEvent_rs S (Some u) (Some ev) s1 = (Inl x, s2)" for u ev x s2
    using UpdateTaskWithEvent_law [OF ok1 that] UpdateTaskWithEvent_err by (metis err_result_simps(4))
  have del: "\<not> budget_error x" if "Delay jit policy (RetryCount t0 + 1) a = Inl x" for a x
    using that n i(2) by (auto simp: Delay_def Validate_rp_def Let_def split: option.splits if_splits)
  have sch: "\<not> budget_error x" if "ScheduleRetry (Some t0) now a = Inl x" for a x
    using that n by (auto simp: ScheduleRetry_def MoveTo_def split: if_splits sum.splits)
  have ev: "\<not> budget_error x" if "NewTaskRetryingEvent eid (Some u) code d now = Inl x" for u code d x
    using NewTaskRetryingEvent_Inl [OF that] by auto
  show False
    using run e c n i(1) cv upd del sch ev
    by (auto simp: Schedule_def Let_def Validate_ee_def Validate_rp_def split: sum.splits option.splits if_splits prod.splits)
qed

lemma Schedule_due:
  assumes "task_wf t0" and run: "Schedule S jit eid (Some t0) (Some ee) policy now s = (Inr u, t, s')"
  shows "Retryable (Some ee) \<and> RetryCount t0 < MaxRetries t0 \<and> RetryCount t0 < MaxRetries_rp policy"
proof -
  from run have r: "Retryable (Some ee)" "\<not> i64 (RetryCount t0 + 1) > MaxRetries_rp policy"
    "\<exists>d t1. Delay jit policy (i64 (RetryCount t0 + 1)) (RetryAfter_ee ee) = Inr d \<and> ScheduleRetry (Some t0) now (Add_time now d) = Inr t1"
    by (auto simp: Schedule_def Let_def split: sum.splits option.splits if_splits prod.splits)
  then have "RetryCount t0 < MaxRetries t0" by (auto dest: ScheduleRetry_Inr)
  moreover from this assms(1) have "i64 (RetryCount t0 + 1) = RetryCount t0 + 1"
    by (intro i64_id) (auto simp: task_wf_def in_i64_def)
  ultimately show ?thesis using r by simp
qed

lemma Schedule_spec:
  assumes s: "ok s" "stores_wf (mem s)" "was_read mem tid t0 s" "task_wf t0"
    and run: "Schedule S jit eid (Some t0) (Some ee) policy now s = (r, t, s')"
  shows "(\<exists>e. r = Inl e \<and> only_others mem ok s s' \<and> (budget_error e \<longrightarrow> t = Some t0)) \<or>
    (r = Inr () \<and> ok s' \<and> stores_wf (mem s') \<and> (\<exists>t1. t = Some t1 \<and> ID t1 = ID t0) \<and>
     retry_commit tid t0 (Code_ee ee) (mem s) (mem s'))"
proof -
  obtain c s1 where c: "ctx_Err_rs S s = (c, s1)" by force
  note o = ctx_Err_spec [OF s(1,2) c]
  then have o1: "ok s1" "stores_wf (mem s1)" "env_step\<^sup>*\<^sup>* (mem s) (mem s1)" by (auto simp: only_others_def)
  show ?thesis
  proof (cases "\<exists>d t1 ev. ScheduleRetry (Some t0) now (Add_time now d) = Inr t1 \<and>
      NewTaskRetryingEvent eid (Some (t1\<lparr>ErrorMessage := Code_ee ee\<rparr>)) (Code_ee ee) d now = Inr ev \<and>
      t = Some (t1\<lparr>ErrorMessage := Code_ee ee\<rparr>) \<and>
      UpdateTaskWithEvent_rs S t (Some ev) s1 = (r, s')")
    case False
    with run c have "\<exists>e. r = Inl e \<and> s' = s1 \<and> (t = Some t0 \<or> (\<exists>x. e = ErrNew x))"
      by (auto simp: Schedule_def Let_def dest: NewTaskRetryingEvent_Inl
          split: sum.splits option.splits if_splits prod.splits)
    with o show ?thesis by auto
  next
    case True
    then obtain d t1 ev where d: "ScheduleRetry (Some t0) now (Add_time now d) = Inr t1"
      "NewTaskRetryingEvent eid (Some (t1\<lparr>ErrorMessage := Code_ee ee\<rparr>)) (Code_ee ee) d now = Inr ev"
      "t = Some (t1\<lparr>ErrorMessage := Code_ee ee\<rparr>)" "UpdateTaskWithEvent_rs S t (Some ev) s1 = (r, s')" by blast
    let ?t = "t1\<lparr>ErrorMessage := Code_ee ee\<rparr>"
    let ?Q = "\<lambda>a t ev. a = t0 \<and> Status t = TaskStatusRetrying \<and> RetryCount t = RetryCount t0 + 1 \<and>
          ErrorMessage t = Code_ee ee \<and> UpdatedAt t < AvailableAt t \<and> Type_ev ev = EventTaskRetrying"
    have edit: "worker_edit t0 ?t ev" by (rule retry_edit [OF s(4) d(1) refl d(2)])
    have Q: "?Q t0 ?t ev"
      using ScheduleRetry_Inr [OF d(1)] ScheduleRetry_wf [OF d(1) s(4)] NewTaskRetryingEvent_Inr [OF d(2)] by auto
    from Update_spec [where Q = ?Q, OF o1(1,2) was_read_later [OF s(3) o] edit d(4) [unfolded d(3)] refl refl Q] o
      o1(3) d(3) edit
    show ?thesis
      by (auto simp: retry_commit_def only_others_def worker_edit_def task_frame_def
          intro: fenced_commit_before)
  qed
qed

lemma externalSchedule_spec:
  assumes s: "ok s" "stores_wf (mem s)" "was_read mem tid t0 s" "task_wf t0"
    and run: "externalSchedule S jit eid now t0 code msg after s = (r, t, s')"
  shows "(\<exists>e. r = Inl e \<and> only_others mem ok s s' \<and> (errors_Is e ErrRetryBudgetExhausted \<longrightarrow> t = t0)) \<or>
    (r = Inr () \<and> ok s' \<and> stores_wf (mem s') \<and> ID t = ID t0 \<and> retry_commit tid t0 code (mem s) (mem s'))"
proof (cases "NewExecutionError ErrorTransient code after (Some (ErrNew msg))")
  case (Inl e)
  with run only_others_refl [OF s(1,2)] show ?thesis by (auto simp: externalSchedule_def)
next
  case (Inr ee)
  then have code: "Code_ee ee = code"
    by (auto simp: NewExecutionError_def Let_def split: option.splits)
  obtain t' where t': "Schedule S jit eid (Some t0) (Some ee) (external_policy t0) now s = (r, t', s')" "t = the t'"
    using run Inr by (auto simp: externalSchedule_def split: prod.splits)
  from Schedule_spec [OF s t'(1)] t'(2) code show ?thesis by auto
qed

end

sublocale task_stores \<subseteq> ext: retry_service S mem ok "externalSchedule S jit seid snow" for jit seid snow
proof (unfold_locales)
  fix s tid t0 code msg after u t s'
  assume "ok s" "stores_wf (mem s)" "was_read mem tid t0 s" "task_wf t0"
    "externalSchedule S jit seid snow t0 code msg after s = (u, t, s')"
  then show "(\<exists>e. u = Inl e \<and> only_others mem ok s s' \<and> (errors_Is e ErrRetryBudgetExhausted \<longrightarrow> t = t0)) \<or>
      (u = Inr () \<and> ok s' \<and> stores_wf (mem s') \<and> ID t = ID t0 \<and> retry_commit tid t0 code (mem s) (mem s'))"
    by (rule externalSchedule_spec)
qed

end
