(* ===== verification/FailSpecs.thy ===== *)
theory FailSpecs
  imports RetrySpecs
begin

text \<open>
  The specification of \<open>FailTask\<close>, with any retry scheduler that keeps its contract and
  with none.
\<close>

text \<open>How \<open>FailTask\<close> may leave the task: failed for good, or waiting for another attempt.\<close>

definition failed_or_retried ::
  "FailTaskInput \<Rightarrow> time \<Rightarrow> Task result \<Rightarrow> Task \<Rightarrow> Task \<Rightarrow> TaskEvent \<Rightarrow> bool" where
  "failed_or_retried input now r t0 t ev \<longleftrightarrow>
     (r = Inr t \<and> Status t = TaskStatusFailed \<and> ErrorMessage t = failure_message input \<and>
        FinishedAt t = Some now \<and> Type_ev ev = EventTaskFailed) \<or>
     (Retryable_fi input \<and> Status t = TaskStatusRetrying \<and> RetryCount t = RetryCount t0 + 1 \<and>
        ErrorMessage t = ErrorCode_fi input \<and> UpdatedAt t < AvailableAt t \<and> Type_ev ev = EventTaskRetrying)"

text \<open>The body of \<open>FailTask\<close> after the checks of the lease.\<close>

definition fail_body ::
  "'s runtimeStores \<Rightarrow> 's retryScheduler \<Rightarrow> time \<Rightarrow> string \<Rightarrow> FailTaskInput \<Rightarrow> Task \<Rightarrow> ('s, Task) op" where
  "fail_body S scheduler now eid input t =
     (if TrimSpace (ErrorCode_fi input) = [] \<or> TrimSpace (ErrorMessage_fi input) = [] then
        raise (Wrap [] ErrInvalidWorkerRequest '': error_code and error_message are required'')
      else if RetryAfter_fi input < 0 then
        raise (Wrap [] ErrInvalidWorkerRequest '': retry_after cannot be negative'')
      else
        (case (if Retryable_fi input then scheduler else None) of
           None \<Rightarrow> fail_finally S now eid input t
         | Some sched \<Rightarrow>
             (\<lambda>s. case sched t (ErrorCode_fi input) (ErrorMessage_fi input) (RetryAfter_fi input) s of
                (Inr _, t1, s1) \<Rightarrow>
                  effect (metrics_rs S (RecordTaskRetried (Workflow t1) (ErrorCode_fi input)))
                    (Get_rs S (ID t1)) s1
              | (Inl e, t1, s1) \<Rightarrow>
                  if \<not> errors_Is e ErrRetryBudgetExhausted then raise e s1
                  else fail_finally S now eid input t1 s1)))"

lemma FailTask_body:
  "FailTask S scheduler pnow now eid input =
     bind (replayWorkerOperation S (TaskID_fi input) (WorkerID_fi input) (LeaseToken_fi input)
       [TaskStatusRetrying, TaskStatusFailed]) (\<lambda>rep.
     case rep of
       Some t \<Rightarrow> if ErrorMessage t \<noteq> failure_message input then raise ErrTaskConflict else ret t
     | None \<Rightarrow>
         bind (resolveLeaseVersion S (TaskID_fi input) (WorkerID_fi input) (Version_fi input)
           (LeaseToken_fi input)) (\<lambda>version.
         bind (prepareRunningTask S pnow (TaskID_fi input) (WorkerID_fi input) version)
           (fail_body S scheduler now eid input)))"
  unfolding FailTask_def fail_body_def ..

context task_stores
begin

text \<open>Failing for good, after the task was read at an earlier moment.\<close>

lemma fail_finally_outcome:
  assumes t0: "ok s2" "stores_wf (mem s2)" "was_read mem tid t0 s2" "task_wf t0"
      "Status t0 = TaskStatusRunning" "LeaseOwner t0 = wid" "Version t0 = v"
    and run: "fail_finally S now eid input t0 s2 = (r, s')"
  shows "(\<exists>e. r = Inl e) \<and> only_others mem ok s2 s' \<or> ok s' \<and> stores_wf (mem s') \<and>
      fenced_commit tid wid v (failed_or_retried input now r) (mem s2) (mem s')"
  using fail_finally_spec [OF assms]
proof (elim disjE conjE)
  assume "ok s'" "stores_wf (mem s')"
    and c: "fenced_commit tid wid v (\<lambda>a t ev. a = t0 \<and> r = Inr t \<and> Status t = TaskStatusFailed \<and>
        ErrorMessage t = failure_message input \<and> FinishedAt t = Some now \<and> Type_ev ev = EventTaskFailed)
      (mem s2) (mem s')"
  moreover have "fenced_commit tid wid v (failed_or_retried input now r) (mem s2) (mem s')"
    by (rule fenced_commit_mono [OF c]) (simp add: failed_or_retried_def)
  ultimately show ?thesis by blast
qed blast

lemma fail_errors:
  assumes "ok s" "stores_wf (mem s)" "raise e s = (r, s')"
  shows "(\<exists>e. r = Inl e) \<and> only_others mem ok s s'"
  using assms only_others_refl by (simp add: raise_eq)

end

context retry_service
begin

lemma fail_retry_outcome:
  assumes t0: "ok s2" "stores_wf (mem s2)" "was_read mem tid t0 s2" "task_wf t0"
      "Status t0 = TaskStatusRunning" "LeaseOwner t0 = wid" "Version t0 = v"
    and run: "(case sched t0 (ErrorCode_fi input) msg after s2 of
                (Inr _, t1, s1) \<Rightarrow>
                  effect (metrics_rs S (RecordTaskRetried (Workflow t1) (ErrorCode_fi input)))
                    (Get_rs S (ID t1)) s1
              | (Inl e, t1, s1) \<Rightarrow>
                  if \<not> errors_Is e ErrRetryBudgetExhausted then raise e s1
                  else fail_finally S now eid input t1 s1) = (r, s')"
    and retryable: "Retryable_fi input"
  shows "(\<exists>e. r = Inl e) \<and> only_others mem ok s2 s' \<or> ok s' \<and> stores_wf (mem s') \<and>
      fenced_commit tid wid v (failed_or_retried input now r) (mem s2) (mem s')"
proof -
  obtain u t1 s1 where c: "sched t0 (ErrorCode_fi input) msg after s2 = (u, t1, s1)" by (metis prod.exhaust)
  from sched_law [OF t0(1-4) c] show ?thesis
  proof (elim disjE exE conjE)
    fix e assume e: "u = Inl e" "only_others mem ok s2 s1" "errors_Is e ErrRetryBudgetExhausted \<longrightarrow> t1 = t0"
    then have o1: "ok s1" "stores_wf (mem s1)" "env_step\<^sup>*\<^sup>* (mem s2) (mem s1)" by (auto simp: only_others_def)
    show ?thesis
    proof (cases "errors_Is e ErrRetryBudgetExhausted")
      case False
      with run c e show ?thesis by (simp add: raise_eq)
    next
      case True
      with run c e have "fail_finally S now eid input t0 s1 = (r, s')" by simp
      from fail_finally_outcome [OF o1(1,2) was_read_later [OF t0(3) e(2)] t0(4-7) this] show ?thesis
        using only_others_trans [OF e(2)] fenced_commit_before [OF _ o1(3)] by blast
    qed
  next
    assume u: "u = Inr ()" "ok s1" "stores_wf (mem s1)" "retry_commit tid t0 (ErrorCode_fi input) (mem s2) (mem s1)"
    let ?s = "metrics_rs S (RecordTaskRetried (Workflow t1) (ErrorCode_fi input)) s1"
    from run c u(1) have g: "Get_rs S (ID t1) ?s = (r, s')" by (simp add: effect_def)
    have "fenced_commit tid wid v (failed_or_retried input now r) (mem s2) (mem s1)"
      using u(4) t0(6,7) retryable unfolding retry_commit_def
      by (auto intro: fenced_commit_mono simp: failed_or_retried_def)
    with fenced_then_Get [OF _ _ _ g] u(2,3) metrics_law show ?thesis by simp
  qed
qed

lemma FailTask_spec:
  assumes "ok s" "stores_wf (mem s)" "FailTask S (Some sched) pnow now eid input s = (r, s')"
  shows "fenced_outcome mem ok (TaskID_fi input) (WorkerID_fi input) (LeaseToken_fi input)
    (\<lambda>t. Status t \<in> {TaskStatusRetrying, TaskStatusFailed} \<and> ErrorMessage t = failure_message input)
    (failed_or_retried input now) s r s'"
proof (rule fenced_replay [OF assms(1,2) assms(3) [unfolded FailTask_body]])
  fix s1
  assume s1: "ok s1" "stores_wf (mem s1)"
    "bind (resolveLeaseVersion S (TaskID_fi input) (WorkerID_fi input) (Version_fi input) (LeaseToken_fi input))
      (\<lambda>version. bind (prepareRunningTask S pnow (TaskID_fi input) (WorkerID_fi input) version)
         (fail_body S (Some sched) now eid input)) s1 = (r, s')"
  then show "fenced_outcome mem ok (TaskID_fi input) (WorkerID_fi input) (LeaseToken_fi input)
    (\<lambda>t. Status t \<in> {TaskStatusRetrying, TaskStatusFailed} \<and> ErrorMessage t = failure_message input)
    (failed_or_retried input now) s1 r s'"
  proof (rule fenced_body)
    fix p t0 s2
    assume t0: "ok s2" "stores_wf (mem s2)" "was_read mem (TaskID_fi input) t0 s2" "task_wf t0"
      "Status t0 = TaskStatusRunning" "LeaseOwner t0 = WorkerID_fi input" "Version t0 = Version_lt p"
      and run: "fail_body S (Some sched) now eid input t0 s2 = (r, s')"
    show "(\<exists>e. r = Inl e) \<and> only_others mem ok s2 s' \<or> ok s' \<and> stores_wf (mem s') \<and>
      fenced_commit (TaskID_fi input) (WorkerID_fi input) (Version_lt p) (failed_or_retried input now r)
        (mem s2) (mem s')"
      using run fail_errors [OF t0(1,2)] fail_finally_outcome [OF t0] fail_retry_outcome [OF t0]
      by (auto simp: fail_body_def split: if_splits)
  qed
qed auto

end

text \<open>With the scheduler for external workers.\<close>

context task_stores
begin

lemma externalFailTask_spec:
  assumes "ok s" "stores_wf (mem s)"
    "FailTask S (Some (externalSchedule S jit seid snow)) pnow now eid input s = (r, s')"
  shows "fenced_outcome mem ok (TaskID_fi input) (WorkerID_fi input) (LeaseToken_fi input)
    (\<lambda>t. Status t \<in> {TaskStatusRetrying, TaskStatusFailed} \<and> ErrorMessage t = failure_message input)
    (failed_or_retried input now) s r s'"
  using assms by (rule ext.FailTask_spec)

end

end
