(* ===== verification/WorkerRuns.thy ===== *)
theory WorkerRuns
  imports FailSpecs
begin

text \<open>
  The worker protocol on the memory stores while no other client acts: a request of the
  worker that holds the lease succeeds and does exactly one commit, the same request sent
  again is answered without a change, and a token that is not current is refused.
\<close>

section \<open>Operations without interference\<close>

definition idle :: "runtime \<Rightarrow> bool" where
  "idle s \<longleftrightarrow> schedule_rt s = []"

lemma idle_start [simp]: "idle (start_runtime m)"
  by (simp add: idle_def start_runtime_def)

lemma stores_start [simp]: "stores_rt (start_runtime m) = m"
  by (simp add: start_runtime_def)

lemma idle_update [simp]:
  "idle (s\<lparr>stores_rt := m\<rparr>) = idle s" "idle (s\<lparr>metrics_rt := c\<rparr>) = idle s"
  by (simp_all add: idle_def)

lemma memory_idle:
  assumes "idle s"
  shows
    "Get_rs (memory_stores rng1 rng2 rng3) tid s = (Get None tid (taskStore (stores_rt s)), s)"
    "ListByTaskID_rs (memory_stores rng1 rng2 rng3) tid s = (ListByTaskID None tid (eventStore (stores_rt s)), s)"
    "UpdateTaskWithEvent_rs (memory_stores rng1 rng2 rng3) t ev s =
       (let (r, m) = UpdateTaskWithEvent None t ev (stores_rt s) in (err_result r, s\<lparr>stores_rt := m\<rparr>))"
    "RenewLease_rs (memory_stores rng1 rng2 rng3) o2 s =
       (let (r, ts) = RenewLease None o2 (taskStore (stores_rt s))
        in (err_result r, s\<lparr>stores_rt := (stores_rt s)\<lparr>taskStore := ts\<rparr>\<rparr>))"
    "CreateTaskWithEvent_rs (memory_stores rng1 rng2 rng3) t ev s =
       (let (r, m) = CreateTaskWithEvent None t ev (stores_rt s) in (r, s\<lparr>stores_rt := m\<rparr>))"
    "ClaimNextWithEvent_rs (memory_stores rng1 rng2 rng3) o1 eid s =
       (let (r, m) = ClaimNextWithEvent rng1 rng2 None o1 eid (stores_rt s) in (r, s\<lparr>stores_rt := m\<rparr>))"
    "CancelTaskWithEvent_rs (memory_stores rng1 rng2 rng3) tid eid now s =
       (let (r, m) = CancelTaskWithEvent None tid eid now (stores_rt s) in (r, s\<lparr>stores_rt := m\<rparr>))"
    "ctx_Err_rs (memory_stores rng1 rng2 rng3) s = (Inr (), s)"
    "metrics_rs (memory_stores rng1 rng2 rng3) c s = s\<lparr>metrics_rt := metrics_rt s @ [c]\<rparr>"
  using assms
  by (simp_all add: memory_stores_def on_stores_idle idle_def err_result_def Let_def split: prod.splits)

section \<open>Tokens as strings\<close>

definition visible :: "char \<Rightarrow> bool" where
  "visible c \<longleftrightarrow> (32::nat) < of_char c \<and> of_char c < (128::nat)"

lemma strip_front_id: "(\<And>w. w \<in> set ws \<Longrightarrow> w \<noteq> [] \<Longrightarrow> \<not> prefix w s) \<Longrightarrow> strip_front ws s = s"
  by (subst strip_front.simps) (auto simp: find_Some_iff split: option.splits)

lemma white_space_ends: "w \<in> set white_space \<Longrightarrow> w \<noteq> [] \<and> \<not> visible (hd w) \<and> \<not> visible (last w)"
  by (auto simp: white_space_def visible_def)

lemma TrimSpace_visible:
  assumes "s \<noteq> []" "visible (hd s)" "visible (last s)"
  shows "TrimSpace s = s"
proof -
  have "strip_front white_space s = s"
    using assms white_space_ends by (intro strip_front_id) (fastforce simp: prefix_def)
  moreover have "strip_front (map rev white_space) (rev s) = rev s"
  proof (rule strip_front_id)
    fix w assume "w \<in> set (map rev white_space)"
    then obtain v where v: "v \<in> set white_space" "w = rev v" by auto
    show "\<not> prefix w (rev s)"
    proof
      assume "prefix w (rev s)"
      then obtain z where "rev s = rev v @ z" using v by (auto simp: prefix_def)
      then have "s = rev z @ v" by (metis rev_append rev_rev_ident)
      with white_space_ends [OF v(1)] assms(3) show False by auto
    qed
  qed
  ultimately show ?thesis by (simp add: TrimSpace_def)
qed

lemma b64_char_visible: "n < 64 \<Longrightarrow> visible (b64_char n)"
  by (auto simp: b64_char_def visible_def)

lemma EncodeToString_visible: "c \<in> set (EncodeToString s) \<Longrightarrow> visible c"
proof -
  assume "c \<in> set (EncodeToString s)"
  then obtain d where "d \<in> set (b64_encode_bytes (map of_char s))" "c = b64_char d"
    by (auto simp: EncodeToString_def)
  moreover have "\<forall>d \<in> set (b64_encode_bytes (map of_char s)). d < 64"
    by (rule b64_encode_bytes_digits) auto
  ultimately show ?thesis using b64_char_visible by auto
qed

lemma makeLeaseToken_visible: "TrimSpace (makeLeaseToken t) = makeLeaseToken t" "makeLeaseToken t \<noteq> []"
proof -
  show ne: "makeLeaseToken t \<noteq> []"
    by (simp add: makeLeaseToken_def token_json_def)
  show "TrimSpace (makeLeaseToken t) = makeLeaseToken t"
    using ne EncodeToString_visible [of _ "json_print (token_json t)"] unfolding makeLeaseToken_def
    by (metis TrimSpace_visible hd_in_set last_in_set)
qed

text \<open>A task whose ids survive JSON and whose token can be used.\<close>

definition token_ok :: "Task \<Rightarrow> bool" where
  "token_ok t \<longleftrightarrow> valid_utf8 (ID t) \<and> valid_utf8 (LeaseOwner t) \<and> ID t \<noteq> [] \<and> LeaseOwner t \<noteq> [] \<and> Version t \<noteq> 0"

lemma token_claims_makeLeaseToken:
  assumes "token_ok t"
  shows "token_claims (ID t) (LeaseOwner t) (makeLeaseToken t) =
    Inr \<lparr>TaskID_lt = ID t, WorkerID_lt = LeaseOwner t, Version_lt = Version t\<rparr>"
  using assms parse_makeLeaseToken [of t] makeLeaseToken_visible [of t]
  by (simp add: token_claims_def token_ok_def)

text \<open>The claims of a token are what its maker put in: another task, worker or version is refused.\<close>

lemma token_claims_inv:
  assumes "token_ok t" "token_claims tid wid (makeLeaseToken t) = Inr p"
  shows "tid = ID t" "wid = LeaseOwner t" "Version_lt p = Version t"
  using assms parse_makeLeaseToken [of t] makeLeaseToken_visible [of t]
  by (auto simp: token_claims_def token_ok_def split: if_splits)

section \<open>A request of the lease holder\<close>

text \<open>
  The state in which the worker named in the request holds the lease of task \<open>t\<close> at time
  \<open>now\<close>, and the event id \<open>eid\<close> is fresh.
\<close>

definition holds_lease :: "runtime \<Rightarrow> Task \<Rightarrow> time \<Rightarrow> string \<Rightarrow> bool" where
  "holds_lease s t now eid \<longleftrightarrow>
     idle s \<and> stores_wf (stores_rt s) \<and> stored_task (stores_rt s) (ID t) = Some t \<and> token_ok t \<and>
     TrimSpace (LeaseOwner t) \<noteq> [] \<and>
     Status t = TaskStatusRunning \<and> (\<exists>l. LeaseExpiresAt t = Some l \<and> now < l) \<and>
     eid \<noteq> [] \<and> \<not> event_known (stores_rt s) eid"

lemma Get_stored: "lookup_task s tid = Some t \<Longrightarrow> Get None tid s = Inr t"
  by (simp add: Get_def)

lemma replay_fresh:
  assumes "holds_lease s t now eid"
  shows "replayWorkerOperation (memory_stores rng1 rng2 rng3) (ID t) (LeaseOwner t) (makeLeaseToken t) sts s =
    (Inr None, s)"
  using assms
  by (simp add: holds_lease_def replayWorkerOperation_def token_claims_makeLeaseToken bind_def memory_idle
      Get_stored ret_def)

lemma resolve_holder:
  assumes "holds_lease s t now eid"
  shows "resolveLeaseVersion (memory_stores rng1 rng2 rng3) (ID t) (LeaseOwner t) v (makeLeaseToken t) s =
    (Inr (Version t), s)"
  using assms
  by (simp add: holds_lease_def resolveLeaseVersion_def validateLeaseToken_def token_claims_makeLeaseToken
      bind_def memory_idle Get_stored ret_def)

lemma prepare_holder:
  assumes "holds_lease s t now eid"
  shows "prepareRunningTask (memory_stores rng1 rng2 rng3) now (ID t) (LeaseOwner t) (Version t) s = (Inr t, s)"
  using assms
  by (auto simp: holds_lease_def prepareRunningTask_def token_ok_def bind_def memory_idle Get_stored ret_def)

lemmas holder_simps = replay_fresh resolve_holder prepare_holder

lemma Update_holder:
  assumes "holds_lease s t0 now eid" "ID t = ID t0" "Version t = Version t0" "TaskID_ev ev = ID t0" "ID_ev ev = eid"
  shows "UpdateTaskWithEvent_rs (memory_stores rng1 rng2 rng3) (Some t) (Some ev) s =
    (Inr (), s\<lparr>stores_rt := commit (ID t0) (t\<lparr>Version := Version t0 + 1\<rparr>) ev (stores_rt s)\<rparr>)"
  using assms by (simp add: holds_lease_def memory_idle UpdateTaskWithEvent_def)

section \<open>Complete\<close>

definition completed :: "Task \<Rightarrow> raw_json \<Rightarrow> time \<Rightarrow> Task" where
  "completed t result now =
     t\<lparr>Status := TaskStatusSucceeded, Result := result, Progress := 100, UpdatedAt := now,
       FinishedAt := Some now, LeaseOwner := [], LeaseExpiresAt := None\<rparr>"

lemma MoveTo_completed:
  "Status t = TaskStatusRunning \<Longrightarrow>
     MoveTo (Some (t\<lparr>Result := result, Progress := 100\<rparr>)) TaskStatusSucceeded now = Inr (completed t result now)"
  by (simp add: MoveTo_def enter_status_def completed_def)

definition succeeded_event :: "string \<Rightarrow> Task \<Rightarrow> time \<Rightarrow> TaskEvent" where
  "succeeded_event eid t now =
     \<lparr>ID_ev = eid, TaskID_ev = ID t, Type_ev = EventTaskSucceeded,
      Message_ev = ''task succeeded by external worker'', Payload_ev = worker_payload (LeaseOwner t),
      Progress_ev = 100, CreatedAt_ev = now\<rparr>"

lemma CompleteTask_holder:
  fixes now :: time
  assumes h: "holds_lease s t pnow eid"
    and input: "TaskID_cm input = ID t" "WorkerID_cm input = LeaseOwner t" "LeaseToken_cm input = makeLeaseToken t"
  defines "t' \<equiv> completed t (completion_result input) now"
  shows "CompleteTask (memory_stores rng1 rng2 rng3) pnow now eid input s =
    (Inr t', s\<lparr>stores_rt := commit (ID t) (t'\<lparr>Version := Version t + 1\<rparr>) (succeeded_event eid t now) (stores_rt s),
       metrics_rt := metrics_rt s @ [RecordTaskCompleted (Workflow t) TaskStatusSucceeded (taskElapsed (Some t') now)]\<rparr>)"
proof -
  have t: "Status t = TaskStatusRunning" "ID t \<noteq> []" "eid \<noteq> []" "idle s"
    using h by (auto simp: holds_lease_def token_ok_def)
  have ev: "NewTaskEvent eid (ID t') EventTaskSucceeded ''task succeeded by external worker''
      (worker_payload (LeaseOwner t)) (Progress t') now = Inr (succeeded_event eid t now)"
    using t by (simp add: NewTaskEvent_def succeeded_event_def t'_def completed_def worker_payload_def)
  have upd: "UpdateTaskWithEvent_rs (memory_stores rng1 rng2 rng3) (Some t') (Some (succeeded_event eid t now)) s =
    (Inr (), s\<lparr>stores_rt := commit (ID t) (t'\<lparr>Version := Version t + 1\<rparr>) (succeeded_event eid t now) (stores_rt s)\<rparr>)"
    by (rule Update_holder [OF h]) (simp_all add: t'_def completed_def succeeded_event_def)
  show ?thesis
    using t input ev upd MoveTo_completed [OF t(1), of "completion_result input" now, folded t'_def]
    by (simp add: CompleteTask_def Let_def bind_def [of "replayWorkerOperation _ _ _ _ _"]
        bind_def [of "resolveLeaseVersion _ _ _ _ _"] bind_def [of "prepareRunningTask _ _ _ _ _"]
        bind_def [of "UpdateTaskWithEvent_rs _ _ _"] holder_simps [OF h] effect_def ret_def memory_idle)
      (simp add: t'_def completed_def)
qed

text \<open>
  The same request once more: the answer is the stored task, and nothing changes.
\<close>

lemma replay_consumed:
  assumes "idle s" "stored_task (stores_rt s) (ID t) = Some u" "token_ok t" "Version u = Version t + 1"
    "Status u \<in> set sts"
  shows "replayWorkerOperation (memory_stores rng1 rng2 rng3) (ID t) (LeaseOwner t) (makeLeaseToken t) sts s =
    (Inr (Some u), s)"
  using assms
  by (simp add: replayWorkerOperation_def token_claims_makeLeaseToken bind_def memory_idle Get_stored ret_def)

lemma CompleteTask_replay:
  assumes "idle s" "stored_task (stores_rt s) (ID t) = Some u" "token_ok t" "Version u = Version t + 1"
    "Status u = TaskStatusSucceeded" "jsonSemanticallyEqual (Result u) (completion_result input)"
    and input: "TaskID_cm input = ID t" "WorkerID_cm input = LeaseOwner t" "LeaseToken_cm input = makeLeaseToken t"
  shows "CompleteTask (memory_stores rng1 rng2 rng3) pnow now eid input s = (Inr u, s)"
  using replay_consumed [OF assms(1-4), of "[TaskStatusSucceeded]"] assms(5,6) input
  by (simp add: CompleteTask_def Let_def bind_def ret_def)

text \<open>A token whose version is neither current nor just consumed is refused.\<close>

lemma stale_token_refused:
  assumes "idle s" "stored_task (stores_rt s) (ID t) = Some u" "token_ok t" "Version u \<noteq> Version t"
  shows "resolveLeaseVersion (memory_stores rng1 rng2 rng3) (ID t) (LeaseOwner t) v (makeLeaseToken t) s =
    (Inl ErrLeaseLost, s)"
  using assms
  by (simp add: resolveLeaseVersion_def validateLeaseToken_def token_claims_makeLeaseToken
      bind_def memory_idle Get_stored raise_def)

end
