(* ===== verification/QueryFacts.thy ===== *)
theory QueryFacts
  imports TaskService WorkerRuns
begin

text \<open>
  Pages: a query after the cursor of the \<open>i\<close>-th task returns the tasks that follow it, so
  that following the cursors of \<open>ListTasks\<close> visits every matching task once, newest first.
  Statistics: the counters count, and the oldest age is the largest.
\<close>

section \<open>Pages\<close>

lemma sort_items_desc:
  assumes "distinct (map item_key items)"
  shows "sorted_wrt (\<lambda>x y. item_key y < item_key x) (sort_items items)"
proof -
  have d: "distinct (map item_key (sort_key item_key items))"
    using assms mset_eq_imp_distinct_iff [of "map item_key (sort_key item_key items)" "map item_key items"] by simp
  have "sorted (map item_key (sort_key item_key items))" by simp
  with d have "sorted_wrt (<) (map item_key (sort_key item_key items))" by (simp add: strict_sorted_iff)
  then have "sorted_wrt (\<lambda>x y. item_key x < item_key y) (sort_key item_key items)"
    by (simp add: sorted_wrt_map)
  then show ?thesis by (simp add: sort_items_def sorted_wrt_rev)
qed

lemma desc_filter_drop:
  fixes f :: "'a \<Rightarrow> 'k::linorder"
  assumes "sorted_wrt (\<lambda>x y. f y < f x) L" "i < length L"
  shows "filter (\<lambda>x. f x < f (L ! i)) L = drop (Suc i) L"
proof -
  have L: "L = take i L @ L ! i # drop (Suc i) L" using assms(2) by (simp add: id_take_nth_drop)
  have s: "sorted_wrt (\<lambda>x y. f y < f x) (take i L @ L ! i # drop (Suc i) L)" using assms(1) L by simp
  then have "\<forall>x \<in> set (take i L). \<not> f x < f (L ! i)" "\<forall>x \<in> set (drop (Suc i) L). f x < f (L ! i)"
    by (auto simp: sorted_wrt_append)
  then have "filter (\<lambda>x. f x < f (L ! i)) (take i L @ L ! i # drop (Suc i) L) = drop (Suc i) L"
    by (simp add: filter_empty_conv)
  with L show ?thesis by metis
qed

definition without_cursor :: "ListTasksOptions \<Rightarrow> ListTasksOptions" where
  "without_cursor o1 = o1\<lparr>BeforeCreatedAt_lo := None, BeforeID_lo := []\<rparr>"

lemma all_items_desc:
  assumes "stores_wf m"
  shows "sorted_wrt (\<lambda>x y. item_key y < item_key x) (all_items o1 (taskStore m))"
  unfolding all_items_def
  by (rule sort_items_desc) (rule item_keys_distinct [OF assms range_order_id])

lemma sorted_items_order:
  assumes "stores_wf m" "range_order rng"
  shows "sort_items (map newTaskListItem (filter P (map snd (rng (tasks (taskStore m)))))) =
    sort_items (map newTaskListItem (filter P (map snd (tasks (taskStore m)))))"
proof -
  have "mset (map newTaskListItem (filter P (map snd (rng (tasks (taskStore m)))))) =
      mset (map newTaskListItem (filter P (map snd (tasks (taskStore m)))))"
    using assms(2) by (simp add: range_order_def mset_filter)
  with sorted_list_unique_key [OF item_keys_distinct [OF assms]] show ?thesis
    unfolding sort_items_def by metis
qed

lemma list_keep_cursor:
  "list_keep o1 t \<longleftrightarrow> list_keep (without_cursor o1) t \<and>
     (case BeforeCreatedAt_lo o1 of None \<Rightarrow> True | Some c \<Rightarrow> item_key (newTaskListItem t) < (c, BeforeID_lo o1))"
  by (auto simp: list_keep_def without_cursor_def isBeforeTaskCursor_def less_prod_def less_le
      split: option.splits)

text \<open>The first page, and the page after the \<open>i\<close>-th item.\<close>

lemma ListTasks_first:
  assumes "stores_wf m" "range_order rng" "Validate_list o1 = None" "BeforeCreatedAt_lo o1 = None"
  shows "ListTasks rng None o1 (taskStore m) = Inr (take (nat (Limit_lo o1)) (all_items o1 (taskStore m)))"
proof -
  have "list_keep o1 = list_keep (without_cursor o1)"
    using assms(4) list_keep_cursor [of o1] by (simp add: fun_eq_iff)
  with assms(3) sorted_items_order [OF assms(1,2)] show ?thesis
    by (simp add: ListTasks_def all_items_def without_cursor_def)
qed

lemma ListTasks_after:
  assumes "stores_wf m" "range_order rng" "Validate_list o1 = None"
    and i: "i < length (all_items o1 (taskStore m))" "item_key (all_items o1 (taskStore m) ! i) = (c, BeforeID_lo o1)"
      "BeforeCreatedAt_lo o1 = Some c"
  shows "ListTasks rng None o1 (taskStore m) =
    Inr (take (nat (Limit_lo o1)) (drop (Suc i) (all_items o1 (taskStore m))))"
proof -
  let ?ts = "map snd (tasks (taskStore m))"
  have "filter (list_keep o1) ?ts =
      filter (\<lambda>t. item_key (newTaskListItem t) < (c, BeforeID_lo o1)) (filter (list_keep (without_cursor o1)) ?ts)"
    using i(3) by (auto simp: list_keep_cursor [of o1] intro: filter_cong)
  then have "map newTaskListItem (filter (list_keep o1) ?ts) =
      filter (\<lambda>x. item_key x < (c, BeforeID_lo o1)) (map newTaskListItem (filter (list_keep (without_cursor o1)) ?ts))"
    by (simp add: filter_map comp_def)
  then have "sort_items (map newTaskListItem (filter (list_keep o1) ?ts)) =
      filter (\<lambda>x. item_key x < (c, BeforeID_lo o1)) (all_items o1 (taskStore m))"
    by (simp add: sort_items_filter all_items_def without_cursor_def)
  also have "\<dots> = drop (Suc i) (all_items o1 (taskStore m))"
    using desc_filter_drop [OF all_items_desc [OF assms(1)] i(1)] i(2) by simp
  finally show ?thesis
    using assms(3) sorted_items_order [OF assms(1,2)] by (simp add: ListTasks_def)
qed

section \<open>Cursors\<close>

lemma digits_ascii: "list_all is_digit s \<Longrightarrow> list_all (byte_in 0 127) s"
  by (auto simp: list_all_iff is_digit_def byte_in_def)

lemma pad_int_digits: "list_all is_digit (pad_int n i)"
  using show_nat_digits [of "nat i"] by (auto simp: pad_int_def Let_def list_all_iff)

lemma trim_zeros_digits: "list_all is_digit s \<Longrightarrow> list_all is_digit (trim_zeros s)"
  using trim_zeros_split [of s] by (metis list_all_append)

lemma format_time_ascii: "list_all (byte_in 0 127) (format_time t)"
proof -
  have p: "list_all (byte_in 0 127) (pad_int n i)" "list_all (byte_in 0 127) (trim_zeros (pad_int n i))" for n i
    using pad_int_digits trim_zeros_digits digits_ascii by blast+
  have c: "byte_in 0 127 (CHR ''-'')" "byte_in 0 127 (CHR ''T'')" "byte_in 0 127 (CHR '':'')"
    "byte_in 0 127 (CHR ''Z'')" "byte_in 0 127 (CHR ''.'')" by (simp_all add: byte_in_def)
  show ?thesis unfolding format_time_def Let_def by (simp add: p c split: prod.splits)
qed

lemma decode_encode_cursor:
  assumes "MarshalTime (CreatedAt_cu c) \<noteq> None" "valid_utf8 (ID_cu c)" "ID_cu c \<noteq> []" "CreatedAt_cu c \<noteq> 0"
  shows "decodeTaskListCursor lenient (encodeTaskListCursor c) = Some c"
proof -
  from assms(1) obtain s where s: "MarshalTime (CreatedAt_cu c) = Some s" by auto
  let ?j = "JObject [(''created_at'', JString s), (''id'', JString (ID_cu c))]"
  have "list_all (byte_in 0 127) s"
    using s by (auto simp: MarshalTime_def format_time_ascii split: if_splits)
  then have "json_ok ?j"
    using assms(2) by (auto intro!: valid_utf8_ascii simp: byte_in_def)
  moreover have "jdepth ?j \<le> max_nesting" by (simp add: max_nesting_def)
  ultimately have "parse_json (json_print ?j) = Some ?j" by (rule parse_json_print)
  with s assms(3,4) UnmarshalTime_MarshalTime [OF s, of lenient] show ?thesis
    by (simp add: decodeTaskListCursor_def encodeTaskListCursor_def cursor_json_def DecodeString_EncodeToString
        field_match_def string_field_def IsZero_def byte_in_def)
qed

section \<open>Following the cursors\<close>

text \<open>
  A client that reads page after page, at most \<open>n\<close> of them, and collects the items.
\<close>

fun follow ::
  "nat \<Rightarrow> task_range \<Rightarrow> (string \<Rightarrow> time option) \<Rightarrow> ListTasksInput \<Rightarrow> runtime \<Rightarrow> TaskListItem list option" where
  "follow 0 rng lenient input s = None"
| "follow (Suc n) rng lenient input s =
     (case ListTasks_svc (memory_query rng) lenient input s of
        (Inl _, _) \<Rightarrow> None
      | (Inr r, s') \<Rightarrow>
          if HasMore_lr r
          then map_option ((@) (Items_lr r)) (follow n rng lenient (input\<lparr>Cursor_ti := NextCursor_lr r\<rparr>) s')
          else Some (Items_lr r))"

text \<open>The items of a query, and what a request must satisfy.\<close>

definition matching :: "ListTasksInput \<Rightarrow> MemoryStores \<Rightarrow> TaskListItem list" where
  "matching input m =
     all_items \<lparr>Workflow_lo = Workflow_ti input, Status_lo = Status_ti input, BeforeCreatedAt_lo = None,
       BeforeID_lo = [], Limit_lo = 1\<rparr> (taskStore m)"

definition page_limit :: "ListTasksInput \<Rightarrow> int" where
  "page_limit input = (if Limit_ti input = 0 then 50 else Limit_ti input)"

definition list_request_ok :: "ListTasksInput \<Rightarrow> bool" where
  "list_request_ok input \<longleftrightarrow>
     TrimSpace (Workflow_ti input) = Workflow_ti input \<and> 1 \<le> page_limit input \<and> page_limit input \<le> 100 \<and>
     (Status_ti input = any_status \<or> isKnownTaskStatus (Status_ti input))"

text \<open>Items whose keys can be carried by a cursor.\<close>

definition cursor_ok :: "TaskListItem \<Rightarrow> bool" where
  "cursor_ok i \<longleftrightarrow> MarshalTime (CreatedAt_li i) \<noteq> None \<and> CreatedAt_li i \<noteq> 0 \<and> valid_utf8 (ID_li i) \<and> ID_li i \<noteq> []"

definition cursor_of :: "TaskListItem \<Rightarrow> string" where
  "cursor_of i = encodeTaskListCursor \<lparr>CreatedAt_cu = CreatedAt_li i, ID_cu = ID_li i\<rparr>"

lemma cursor_of_ne: "cursor_ok i \<Longrightarrow> cursor_of i \<noteq> []"
  using decode_encode_cursor [of "\<lparr>CreatedAt_cu = CreatedAt_li i, ID_cu = ID_li i\<rparr>" "\<lambda>_. None"]
  by (auto simp: cursor_ok_def cursor_of_def decodeTaskListCursor_def DecodeString_def parse_json_def skip_ws_def)

lemma all_items_cong:
  "Workflow_lo o1 = Workflow_lo o2 \<Longrightarrow> Status_lo o1 = Status_lo o2 \<Longrightarrow> all_items o1 s = all_items o2 s"
  by (simp add: all_items_def list_keep_def [abs_def] isBeforeTaskCursor_def)

text \<open>The page that starts at position \<open>i\<close>.\<close>

lemma ListTasks_svc_page:
  assumes s: "idle s" "stores_wf (stores_rt s)" "range_order rng" and ok: "list_request_ok input"
    and c: "i = 0 \<and> Cursor_ti input = [] \<or>
      0 < i \<and> i \<le> length (matching input (stores_rt s)) \<and>
      cursor_ok (matching input (stores_rt s) ! (i - 1)) \<and>
      Cursor_ti input = cursor_of (matching input (stores_rt s) ! (i - 1))"
  shows "ListTasks_svc (memory_query rng) lenient input s =
    (Inr (page_result (page_limit input)
       (take (nat (page_limit input) + 1) (drop i (matching input (stores_rt s))))), s)"
proof -
  let ?m = "stores_rt s" and ?l = "page_limit input"
  have lim: "1 \<le> ?l" "?l \<le> 100" "nat (?l + 1) = nat ?l + 1" using ok by (auto simp: list_request_ok_def)
  have query: "the (memory_query rng) o1 s = (ListTasks rng None o1 (taskStore ?m), s)" for o1
    using s(1) by (simp add: memory_query_def on_stores_idle idle_def)
  from c show ?thesis
  proof
    assume "i = 0 \<and> Cursor_ti input = []"
    let ?o = "\<lparr>Workflow_lo = Workflow_ti input, Status_lo = Status_ti input, BeforeCreatedAt_lo = None,
       BeforeID_lo = [], Limit_lo = ?l + 1\<rparr>"
    have v: "Validate_list ?o = None" using ok lim by (auto simp: Validate_list_def list_request_ok_def)
    have "all_items ?o (taskStore ?m) = matching input ?m"
      unfolding matching_def by (rule all_items_cong) simp_all
    with ListTasks_first [OF s(2,3) v] lim(3)
    have "ListTasks rng None ?o (taskStore ?m) = Inr (take (nat ?l + 1) (matching input ?m))" by simp
    with query [of ?o] v lim(1,2) ok \<open>i = 0 \<and> _\<close> show ?thesis
      unfolding ListTasks_svc_def list_request_ok_def page_limit_def [symmetric]
      by (simp add: memory_query_def Let_def bind_def ret_def page_limit_def [symmetric])
  next
    assume i: "0 < i \<and> i \<le> length (matching input ?m) \<and> cursor_ok (matching input ?m ! (i - 1)) \<and>
      Cursor_ti input = cursor_of (matching input ?m ! (i - 1))"
    define x where "x = matching input ?m ! (i - 1)"
    let ?o = "\<lparr>Workflow_lo = Workflow_ti input, Status_lo = Status_ti input,
       BeforeCreatedAt_lo = Some (CreatedAt_li x), BeforeID_lo = ID_li x, Limit_lo = ?l + 1\<rparr>"
    have x: "cursor_ok x" "Cursor_ti input = cursor_of x" using i by (simp_all add: x_def)
    have dec: "decodeTaskListCursor lenient (Cursor_ti input) = Some \<lparr>CreatedAt_cu = CreatedAt_li x, ID_cu = ID_li x\<rparr>"
      using x decode_encode_cursor [of "\<lparr>CreatedAt_cu = CreatedAt_li x, ID_cu = ID_li x\<rparr>" lenient]
      by (simp add: cursor_ok_def cursor_of_def)
    have v: "Validate_list ?o = None"
      using ok lim x(1) by (auto simp: Validate_list_def list_request_ok_def cursor_ok_def)
    have all: "all_items ?o (taskStore ?m) = matching input ?m"
      unfolding matching_def by (rule all_items_cong) simp_all
    have "ListTasks rng None ?o (taskStore ?m) = Inr (take (nat (Limit_lo ?o)) (drop (Suc (i - 1)) (all_items ?o (taskStore ?m))))"
    proof (rule ListTasks_after [OF s(2,3) v])
      show "i - 1 < length (all_items ?o (taskStore ?m))" using i unfolding all by linarith
      show "item_key (all_items ?o (taskStore ?m) ! (i - 1)) = (CreatedAt_li x, BeforeID_lo ?o)"
        unfolding all by (simp add: x_def item_key_def)
    qed simp
    then have "ListTasks rng None ?o (taskStore ?m) = Inr (take (nat ?l + 1) (drop i (matching input ?m)))"
      using i lim(3) by (simp add: all)
    with query [of ?o] v lim(1,2) ok dec cursor_of_ne [OF x(1)] x(2) show ?thesis
      unfolding ListTasks_svc_def list_request_ok_def page_limit_def [symmetric]
      by (simp add: memory_query_def Let_def bind_def ret_def page_limit_def [symmetric])
  qed
qed

lemma follow_from:
  assumes s: "idle s" "stores_wf (stores_rt s)" "range_order rng" and ok: "list_request_ok input"
    and all: "list_all cursor_ok (matching input (stores_rt s))"
    and c: "i = 0 \<and> Cursor_ti input = [] \<or>
      0 < i \<and> i \<le> length (matching input (stores_rt s)) \<and>
      Cursor_ti input = cursor_of (matching input (stores_rt s) ! (i - 1))"
    and n: "length (matching input (stores_rt s)) < i + n"
  shows "follow n rng lenient input s = Some (drop i (matching input (stores_rt s)))"
  using ok c n all
proof (induction n arbitrary: i input)
  case 0
  then show ?case by auto
next
  case (Suc n)
  define L where "L = matching input (stores_rt s)"
  define l where "l = nat (page_limit input)"
  have lim: "1 \<le> l" "int l = page_limit input" using Suc.prems(1) by (auto simp: l_def list_request_ok_def)
  have c: "i = 0 \<and> Cursor_ti input = [] \<or> 0 < i \<and> i \<le> length L \<and> cursor_ok (L ! (i - 1)) \<and>
      Cursor_ti input = cursor_of (L ! (i - 1))"
    using Suc.prems(2,4) by (auto simp: L_def list_all_length)
  from ListTasks_svc_page [OF s Suc.prems(1), of i lenient] c
  have page: "ListTasks_svc (memory_query rng) lenient input s = (Inr (page_result (int l) (take (l + 1) (drop i L))), s)"
    unfolding lim(2) by (simp add: L_def l_def)
  show ?case
  proof (cases "i + l < length L")
    case False
    then have "page_result (int l) (take (l + 1) (drop i L)) =
        \<lparr>Items_lr = drop i L, NextCursor_lr = [], HasMore_lr = False\<rparr>"
      by (auto simp: page_result_def min_def)
    with page show ?thesis by (simp add: L_def)
  next
    case True
    have last: "last (take l (drop i L)) = L ! (i + l - 1)"
      using True lim(1) by (simp add: last_conv_nth min_def)
    have res: "page_result (int l) (take (l + 1) (drop i L)) =
        \<lparr>Items_lr = take l (drop i L), NextCursor_lr = cursor_of (L ! (i + l - 1)), HasMore_lr = True\<rparr>"
      using True last by (auto simp: page_result_def Let_def cursor_of_def min_def)
    let ?in = "input\<lparr>Cursor_ti := cursor_of (L ! (i + l - 1))\<rparr>"
    have "follow n rng lenient ?in s = Some (drop (i + l) (matching ?in (stores_rt s)))"
      using Suc.prems True lim(1)
      by (intro Suc.IH) (auto simp: list_request_ok_def page_limit_def matching_def L_def)
    also have "matching ?in (stores_rt s) = L" by (simp add: matching_def L_def)
    finally have "follow (Suc n) rng lenient input s = Some (take l (drop i L) @ drop (i + l) L)"
      using page res by simp
    also have "take l (drop i L) @ drop (i + l) L = drop i L"
      by (metis add.commute append_take_drop_id drop_drop)
    finally show ?thesis by (simp add: L_def)
  qed
qed

lemma matching_complete:
  assumes "stores_wf m"
  shows "set (matching input m) = newTaskListItem `
      {t. \<exists>tid. stored_task m tid = Some t \<and>
         (Workflow_ti input = [] \<or> Workflow t = Workflow_ti input) \<and>
         (Status_ti input = any_status \<or> Status t = Status_ti input)}"
    and "sorted_wrt (\<lambda>x y. item_key y < item_key x) (matching input m)"
proof -
  show "sorted_wrt (\<lambda>x y. item_key y < item_key x) (matching input m)"
    unfolding matching_def by (rule all_items_desc [OF assms])
  show "set (matching input m) = newTaskListItem `
      {t. \<exists>tid. stored_task m tid = Some t \<and>
         (Workflow_ti input = [] \<or> Workflow t = Workflow_ti input) \<and>
         (Status_ti input = any_status \<or> Status t = Status_ti input)}"
    using gomap_in_set [OF stores_wf_gomap [OF assms]]
    by (force simp: matching_def all_items_def sort_items_def list_keep_def isBeforeTaskCursor_def)
qed

end
