(* ===== verification/Quote.thy ===== *)
theory Quote
  imports Json
begin

text \<open>
  The verb \<open>%q\<close> of package \<open>fmt\<close> on a string, that is \<open>strconv.Quote\<close>.  \<open>isPrint\<close> stands
  for \<open>strconv.IsPrint\<close> on runes outside ASCII; on ASCII it is written out.
\<close>

definition rune_value :: "string \<Rightarrow> nat" where
  "rune_value r =
     (case map of_char r of
        [a] \<Rightarrow> a
      | [a, b] \<Rightarrow> (a - 0xC0) * 64 + (b - 0x80)
      | [a, b, c] \<Rightarrow> (a - 0xE0) * 4096 + (b - 0x80) * 64 + (c - 0x80)
      | [a, b, c, d] \<Rightarrow> (a - 0xF0) * 262144 + (b - 0x80) * 4096 + (c - 0x80) * 64 + (d - 0x80)
      | _ \<Rightarrow> 0)"

fun hex_digits :: "nat \<Rightarrow> nat \<Rightarrow> string" where
  "hex_digits 0 v = []"
| "hex_digits (Suc n) v = hex_digits n (v div 16) @ [hex_char (v mod 16)]"

definition quote_ascii :: "char \<Rightarrow> string" where
  "quote_ascii c =
     (if c = CHR 0x22 \<or> c = CHR 0x5C then [CHR 0x5C, c]
      else if byte_in 0x20 0x7E c then [c]
      else if c = CHR 0x07 then [CHR 0x5C, CHR ''a'']
      else if c = CHR 0x08 then [CHR 0x5C, CHR ''b'']
      else if c = CHR 0x0C then [CHR 0x5C, CHR ''f'']
      else if c = CHR 0x0A then [CHR 0x5C, CHR ''n'']
      else if c = CHR 0x0D then [CHR 0x5C, CHR ''r'']
      else if c = CHR 0x09 then [CHR 0x5C, CHR ''t'']
      else if c = CHR 0x0B then [CHR 0x5C, CHR ''v'']
      else [CHR 0x5C, CHR ''x''] @ hex_digits 2 (of_char c))"

definition quote_wide :: "(nat \<Rightarrow> bool) \<Rightarrow> string \<Rightarrow> string" where
  "quote_wide isPrint r =
     (let v = rune_value r in
      if isPrint v then r
      else if v < 0x10000 then [CHR 0x5C, CHR ''u''] @ hex_digits 4 v
      else [CHR 0x5C, CHR ''U''] @ hex_digits 8 v)"

function Quote_body :: "(nat \<Rightarrow> bool) \<Rightarrow> string \<Rightarrow> string" where
  "Quote_body isPrint s =
     (case s of
        [] \<Rightarrow> []
      | c # cs \<Rightarrow>
          if byte_in 0 0x7F c then quote_ascii c @ Quote_body isPrint cs
          else if rune_size s = 0 then [CHR 0x5C, CHR ''x''] @ hex_digits 2 (of_char c) @ Quote_body isPrint cs
          else quote_wide isPrint (take (rune_size s) s) @ Quote_body isPrint (drop (rune_size s) s))"
  by pat_completeness auto
termination
  by (relation "measure (\<lambda>(_, s). length s)") auto

declare Quote_body.simps [simp del]

definition Quote :: "(nat \<Rightarrow> bool) \<Rightarrow> string \<Rightarrow> string" where
  "Quote isPrint s = CHR 0x22 # Quote_body isPrint s @ [CHR 0x22]"

text \<open>A string of printable ASCII without quotes and backslashes is quoted as it stands.\<close>

lemma Quote_plain:
  assumes "list_all (\<lambda>c. byte_in 0x20 0x7E c \<and> c \<noteq> CHR 0x22 \<and> c \<noteq> CHR 0x5C) s"
  shows "Quote isPrint s = CHR 0x22 # s @ [CHR 0x22]"
proof -
  have "Quote_body isPrint s = s"
    using assms
    by (induction s) (auto simp: Quote_body.simps [of isPrint "_ # _"] Quote_body.simps [of isPrint "[]"]
        quote_ascii_def byte_in_def)
  then show ?thesis by (simp add: Quote_def)
qed

end
