(* ===== verification/InternalWorker.thy ===== *)
theory InternalWorker
  imports FailSpecs Quote
begin

text \<open>
  The workers that run inside the server (\<open>internal/worker/worker.go\<close>) and the reaper
  (\<open>internal/worker/reaper.go\<close>).  A worker runs an executor while a second goroutine renews
  the lease; the executor is a parameter, an operation on the state of the program.  The
  readings of the clock, the generated ids and the ticks of the renewal timer during one
  call of \<open>ProcessNext\<close> are given by a record.  Log lines are left out.
\<close>

section \<open>The worker\<close>

datatype ExecutionOutcome = OutcomeSucceeded | OutcomePartial | OutcomeFailed | OtherOutcome string

record ExecutionResult =
  Output_er :: raw_json
  Outcome_er :: ExecutionOutcome
  ErrorMessage_er :: string

type_synonym 's executor = "Task \<Rightarrow> ('s, ExecutionResult) op"

record 's Worker =
  executors_w :: "string \<rightharpoonup> 's executor"
  retryPolicies_w :: "string \<rightharpoonup> RetryPolicy"
  jitter_w :: "int \<Rightarrow> int"
  id_w :: string
  leaseDuration_w :: duration

definition defaultLeaseDuration :: duration where
  "defaultLeaseDuration = 30 * Second"

definition New_worker ::
  "(string \<rightharpoonup> 's executor) \<Rightarrow> (string \<rightharpoonup> RetryPolicy) \<Rightarrow> (int \<Rightarrow> int) \<Rightarrow> string \<Rightarrow> 's Worker" where
  "New_worker executors retryPolicies jitter wid =
     \<lparr>executors_w = executors, retryPolicies_w = retryPolicies, jitter_w = jitter, id_w = wid,
      leaseDuration_w = defaultLeaseDuration\<rparr>"

definition SetLeaseDuration :: "duration \<Rightarrow> 's Worker \<Rightarrow> 's Worker result" where
  "SetLeaseDuration d w =
     (if d \<le> 0 then Inl ErrInvalidLeaseDuration else Inr (w\<lparr>leaseDuration_w := d\<rparr>))"

text \<open>
  What one call of \<open>ProcessNext\<close> takes from its surroundings: the readings of \<open>w.now()\<close> in
  the order of the code, the ids of the claim event and of the closing event, the instants
  at which the renewal timer fires before the executor returns, and \<open>strconv.IsPrint\<close>.
\<close>

record process_env =
  claimAt_pe :: time
  startedAt_pe :: time
  retryAt_pe :: time
  executedAt_pe :: time
  finishedAt_pe :: time
  claimEvent_pe :: string
  finishEvent_pe :: string
  ticks_pe :: "time list"
  isPrint_pe :: "nat \<Rightarrow> bool"

definition newEvent :: "string \<Rightarrow> Task \<Rightarrow> EventType \<Rightarrow> string \<Rightarrow> time \<Rightarrow> TaskEvent result" where
  "newEvent eid t eventType message now = NewTaskEvent eid (ID t) eventType message ''{}'' (Progress t) now"

text \<open>An error of an inner call, wrapped by \<open>fmt.Errorf\<close> with the verb \<open>%w\<close> at the end.\<close>

definition wrapped :: "string \<Rightarrow> ('s, 'a) op \<Rightarrow> ('s, 'a) op" where
  "wrapped pre f s = (case f s of (Inl e, s1) \<Rightarrow> (Inl (Wrap pre e []), s1) | (Inr x, s1) \<Rightarrow> (Inr x, s1))"

definition finishFailed ::
  "'s runtimeStores \<Rightarrow> time \<Rightarrow> string \<Rightarrow> Task \<Rightarrow> error \<Rightarrow> duration \<Rightarrow> ('s, unit) op" where
  "finishFailed S now eid t cause elapsed =
     bind (wrapped ''mark task failed: ''
       (of_result (MoveTo (Some (t\<lparr>ErrorMessage := error_text cause\<rparr>)) TaskStatusFailed now))) (\<lambda>t1.
     bind (wrapped ''create task failed event: ''
       (of_result (newEvent eid t1 EventTaskFailed ''task failed'' now))) (\<lambda>ev.
     bind (wrapped ''save failed task and event: ''
       (UpdateTaskWithEvent_rs S (Some t1) (Some ev))) (\<lambda>_.
     effect (metrics_rs S (RecordTaskCompleted (Workflow t1) TaskStatusFailed elapsed)) (ret ()))))"

definition outcome_text :: "ExecutionOutcome \<Rightarrow> string" where
  "outcome_text oc =
     (case oc of OutcomeSucceeded \<Rightarrow> ''succeeded'' | OutcomePartial \<Rightarrow> ''partially_succeeded''
      | OutcomeFailed \<Rightarrow> ''failed'' | OtherOutcome x \<Rightarrow> x)"

text \<open>The \<open>switch\<close> of \<open>finishWithResult\<close>: status, event type and message.\<close>

definition outcome_target :: "ExecutionOutcome \<Rightarrow> (TaskStatus \<times> EventType \<times> string) option" where
  "outcome_target oc =
     (case oc of
        OutcomeSucceeded \<Rightarrow> Some (TaskStatusSucceeded, EventTaskSucceeded, ''task succeeded'')
      | OutcomePartial \<Rightarrow> Some (TaskStatusPartial, EventTaskPartial, ''task partially succeeded'')
      | OutcomeFailed \<Rightarrow> Some (TaskStatusFailed, EventTaskFailed, ''task failed'')
      | OtherOutcome _ \<Rightarrow> None)"

definition with_result :: "ExecutionResult \<Rightarrow> Task \<Rightarrow> Task" where
  "with_result res t =
     t\<lparr>Result := Output_er res, Progress := 100,
       ErrorMessage := (if Outcome_er res = OutcomeFailed \<and> ErrorMessage_er res = []
                        then ''executor reported failure'' else ErrorMessage_er res)\<rparr>"

definition finishWithResult ::
  "'s runtimeStores \<Rightarrow> process_env \<Rightarrow> Task \<Rightarrow> ExecutionResult \<Rightarrow> duration \<Rightarrow> ('s, unit) op" where
  "finishWithResult S env t res d =
     (case outcome_target (Outcome_er res) of
        None \<Rightarrow>
          finishFailed S (finishedAt_pe env) (finishEvent_pe env) (with_result res t)
            (ErrNew (''invalid execution outcome '' @ Quote (isPrint_pe env) (outcome_text (Outcome_er res)))) 0
      | Some (status, eventType, message) \<Rightarrow>
          bind (wrapped (''move task to '' @ status_text status @ '': '')
            (of_result (MoveTo (Some (with_result res t)) status (finishedAt_pe env)))) (\<lambda>t1.
          bind (wrapped (''create '' @ status_text status @ '' event: '')
            (of_result (newEvent (finishEvent_pe env) t1 eventType message (finishedAt_pe env)))) (\<lambda>ev.
          bind (wrapped (''save '' @ status_text status @ '' task and event: '')
            (UpdateTaskWithEvent_rs S (Some t1) (Some ev))) (\<lambda>_.
          effect (metrics_rs S (RecordTaskCompleted (Workflow t1) status d)) (ret ())))))"

section \<open>Renewing the lease while the executor runs\<close>

text \<open>
  The loop of \<open>maintainLease\<close> over the ticks that come before the context is done; the
  value sent on the result channel.  A renewal that fails after the context was canceled is
  not a lost lease.
\<close>

fun maintainLease ::
  "'s runtimeStores \<Rightarrow> 's Worker \<Rightarrow> (nat \<Rightarrow> bool) \<Rightarrow> Task \<Rightarrow> time list \<Rightarrow> 's \<Rightarrow> error option \<times> 's" where
  "maintainLease S w isPrint t [] s = (None, s)"
| "maintainLease S w isPrint t (now # ticks) s =
     (case RenewLease_rs S \<lparr>TaskID_rl = ID t, WorkerID_rl = id_w w, Now_rl = now,
                            LeaseDuration_rl = leaseDuration_w w\<rparr> s of
        (Inr _, s1) \<Rightarrow> maintainLease S w isPrint t ticks (metrics_rs S (RecordLeaseRenewed (Workflow t)) s1)
      | (Inl e, s1) \<Rightarrow>
          (case ctx_Err_rs S s1 of
             (Inl _, s2) \<Rightarrow> (None, s2)
           | (Inr _, s2) \<Rightarrow>
               (Some (Wrap (''renew task '' @ Quote isPrint (ID t) @ '' lease: '') e []),
                metrics_rs S (RecordLeaseLost (Workflow t)) s2)))"

text \<open>
  The executor has no access to the stores, so its run and the renewals can be taken one
  after the other; its result counts only when no renewal failed.
\<close>

definition executeWithHeartbeat ::
  "'s runtimeStores \<Rightarrow> 's Worker \<Rightarrow> process_env \<Rightarrow> Task \<Rightarrow> 's executor \<Rightarrow> ('s, ExecutionResult) op" where
  "executeWithHeartbeat S w env t ex s =
     (case maintainLease S w (isPrint_pe env) t (ticks_pe env) s of
        (heartbeatErr, s1) \<Rightarrow>
          (case ex t s1 of
             (r, s2) \<Rightarrow> (case heartbeatErr of Some e \<Rightarrow> (Inl e, s2) | None \<Rightarrow> (r, s2))))"

section \<open>One task\<close>

text \<open>What follows an execution that failed.\<close>

definition execution_failed ::
  "'s runtimeStores \<Rightarrow> 's Worker \<Rightarrow> process_env \<Rightarrow> Task \<Rightarrow> error \<Rightarrow> ('s, unit) op" where
  "execution_failed S w env t executeErr =
     (let failed = (\<lambda>t1 e. finishFailed S (finishedAt_pe env) (finishEvent_pe env) t1 e
                      (Sub_time (executedAt_pe env) (startedAt_pe env)))
      in if errors_Is executeErr ErrLeaseLost then raise executeErr
         else (case AsExecutionError executeErr of
             None \<Rightarrow> failed t executeErr
           | Some ee \<Rightarrow>
               (case (if Retryable (Some ee) then retryPolicies_w w (Workflow t) else None) of
                  None \<Rightarrow> failed t (ErrNew (Code_ee ee))
                | Some policy \<Rightarrow>
                    (\<lambda>s. case Schedule S (jitter_w w) (finishEvent_pe env) (Some t) (Some ee) policy
                                 (retryAt_pe env) s of
                       (Inr _, t1, s1) \<Rightarrow>
                         effect (metrics_rs S (RecordTaskRetried (Workflow (the t1)) (Code_ee ee))) (ret ()) s1
                     | (Inl e, t1, s1) \<Rightarrow>
                         if \<not> errors_Is e ErrRetryBudgetExhausted \<and> \<not> errors_Is e ErrInvalidRetryCount
                         then raise (Wrap ''schedule task retry: '' e []) s1
                         else failed (the t1) (ErrNew (Code_ee ee)) s1))))"

text \<open>The rest of \<open>ProcessNext\<close> after a task was claimed.\<close>

definition process_task :: "'s runtimeStores \<Rightarrow> 's Worker \<Rightarrow> process_env \<Rightarrow> Task \<Rightarrow> ('s, unit) op" where
  "process_task S w env t =
     (case executors_w w (Workflow t) of
        None \<Rightarrow>
          finishFailed S (finishedAt_pe env) (finishEvent_pe env) t
            (ErrNew (''no executor registered for workflow '' @ Quote (isPrint_pe env) (Workflow t))) 0
      | Some ex \<Rightarrow>
          attempt (executeWithHeartbeat S w env t ex) (\<lambda>r.
            case r of
              Inl e \<Rightarrow> execution_failed S w env t e
            | Inr res \<Rightarrow> finishWithResult S env t res (Sub_time (executedAt_pe env) (startedAt_pe env))))"

definition claim_options :: "'s Worker \<Rightarrow> process_env \<Rightarrow> ClaimOptions" where
  "claim_options w env =
     \<lparr>WorkerID_co = id_w w, Workflow_co = [], Now_co = claimAt_pe env, LeaseDuration_co = leaseDuration_w w\<rparr>"

text \<open>The result tells whether a task was claimed, and the error.\<close>

definition err_of :: "unit result \<Rightarrow> error option" where
  "err_of r = (case r of Inl e \<Rightarrow> Some e | Inr _ \<Rightarrow> None)"

definition ProcessNext ::
  "'s runtimeStores \<Rightarrow> 's Worker \<Rightarrow> process_env \<Rightarrow> 's \<Rightarrow> (bool \<times> error option) \<times> 's" where
  "ProcessNext S w env s =
     (case ClaimNextWithEvent_rs S (claim_options w env) (claimEvent_pe env)
             (metrics_rs S (RecordClaimAttempt ''all'') s) of
        (Inl e, s1) \<Rightarrow>
          if errors_Is e ErrNoTaskAvailable then ((False, None), metrics_rs S (RecordClaimMiss ''all'') s1)
          else ((False, Some (Wrap ''claim task and append event: '' e [])), s1)
      | (Inr t, s1) \<Rightarrow>
          (case process_task S w env t (metrics_rs S (RecordTaskClaimed (Workflow t)) s1) of
             (r, s2) \<Rightarrow> ((True, err_of r), s2)))"

section \<open>The loops\<close>

text \<open>
  How a wait between two rounds ends.  The loops may run for ever: they are given the rounds
  they have run so far, and \<open>None\<close> means that they are still running.
\<close>

datatype wait = CtxDone | TimerFired

fun Run_loop ::
  "'s runtimeStores \<Rightarrow> 's Worker \<Rightarrow> (process_env \<times> wait) list \<Rightarrow> 's \<Rightarrow> error option option \<times> 's" where
  "Run_loop S w [] s = (None, s)"
| "Run_loop S w ((env, wt) # rounds) s =
     (case ProcessNext S w env s of
        ((processed, Some e), s1) \<Rightarrow>
          if errors_Is e ContextCanceled then (Some None, s1)
          else if errors_Is e ErrLeaseLost then Run_loop S w rounds s1
          else (Some (Some e), s1)
      | ((processed, None), s1) \<Rightarrow>
          if processed then Run_loop S w rounds s1
          else (case wt of CtxDone \<Rightarrow> (Some None, s1) | TimerFired \<Rightarrow> Run_loop S w rounds s1))"

definition Run ::
  "'s runtimeStores \<Rightarrow> 's Worker \<Rightarrow> duration \<Rightarrow> (process_env \<times> wait) list \<Rightarrow> 's \<Rightarrow> error option option \<times> 's" where
  "Run S w pollInterval rounds s =
     (if pollInterval \<le> 0 then (Some (Some (ErrNew ''poll interval must be positive'')), s)
      else Run_loop S w rounds s)"

section \<open>The reaper\<close>

definition ProcessNext_reaper ::
  "'s runtimeStores \<Rightarrow> time \<Rightarrow> string \<Rightarrow> 's \<Rightarrow> (bool \<times> error option) \<times> 's" where
  "ProcessNext_reaper S now eid s =
     (case FailNextExpiredWithEvent_rs S now eid s of
        (Inl e, s1) \<Rightarrow>
          if errors_Is e ErrNoExpiredTask then ((False, None), s1)
          else ((False, Some (Wrap ''fail expired task and append event: '' e [])), s1)
      | (Inr t, s1) \<Rightarrow> ((True, None), metrics_rs S (RecordReaperExpiredFailure (Workflow t)) s1))"

fun Run_loop_reaper ::
  "'s runtimeStores \<Rightarrow> (time \<times> string \<times> wait) list \<Rightarrow> 's \<Rightarrow> error option option \<times> 's" where
  "Run_loop_reaper S [] s = (None, s)"
| "Run_loop_reaper S ((now, eid, wt) # rounds) s =
     (case ProcessNext_reaper S now eid s of
        ((processed, Some e), s1) \<Rightarrow>
          if errors_Is e ContextCanceled then (Some None, s1) else (Some (Some e), s1)
      | ((processed, None), s1) \<Rightarrow>
          if processed then Run_loop_reaper S rounds s1
          else (case wt of CtxDone \<Rightarrow> (Some None, s1) | TimerFired \<Rightarrow> Run_loop_reaper S rounds s1))"

definition Run_reaper ::
  "'s runtimeStores \<Rightarrow> duration \<Rightarrow> (time \<times> string \<times> wait) list \<Rightarrow> 's \<Rightarrow> error option option \<times> 's" where
  "Run_reaper S pollInterval rounds s =
     (if pollInterval \<le> 0 then (Some (Some (ErrNew ''poll interval must be positive'')), s)
      else Run_loop_reaper S rounds s)"

end
