(* ===== verification/QueueSpec.thy ===== *)
theory QueueSpec
  imports StoreInterface ClaimOrder
begin

text \<open>
  What a queue of tasks promises, without the maps, indexes, scans and undo steps of its
  implementation: a state is a partial function from ids to tasks and a log of events per task,
  and every operation is specified by its answer and the entry it changes, on every branch.  The
  memory backend is shown to keep this contract under any interleaving (\<open>at_once\<close>).
\<close>

section \<open>The contract\<close>

text \<open>The outcome of an operation on the state \<open>m\<close>: its answer and the state it leaves.\<close>

type_synonym 'a outcome = "MemoryStores \<Rightarrow> 'a result \<Rightarrow> MemoryStores \<Rightarrow> bool"

text \<open>Refused: an error, and nothing changed.  Stored: one task and one event were written.\<close>

definition refused_with :: "error \<Rightarrow> 'a outcome" where
  "refused_with e m r m' \<longleftrightarrow> r = Inl e \<and> m' = m"

definition stored :: "string \<Rightarrow> Task \<Rightarrow> TaskEvent \<Rightarrow> MemoryStores \<Rightarrow> MemoryStores \<Rightarrow> bool" where
  "stored tid t ev m m' \<longleftrightarrow>
     stored_task m' = (stored_task m)(tid \<mapsto> t) \<and>
     stored_events m' = (stored_events m)(tid := stored_events m tid @ [ev])"

text \<open>An event id that was used before, and an event that tells the state of a task.\<close>

definition used_id :: "MemoryStores \<Rightarrow> string \<Rightarrow> bool" where
  "used_id m eid \<longleftrightarrow> (\<exists>tid. eid \<in> ID_ev ` set (stored_events m tid))"

definition tells :: "string \<Rightarrow> EventType \<Rightarrow> Task \<Rightarrow> time \<Rightarrow> TaskEvent \<Rightarrow> bool" where
  "tells eid ty t now ev \<longleftrightarrow>
     ID_ev ev = eid \<and> TaskID_ev ev = ID t \<and> Type_ev ev = ty \<and> Progress_ev ev = Progress t \<and> CreatedAt_ev ev = now"

text \<open>
  A running task whose lease has run out; the tasks a claim may take; a task on its new lease; and
  the order in which tasks are taken.
\<close>

definition lease_run_out :: "time \<Rightarrow> Task \<Rightarrow> bool" where
  "lease_run_out now t \<longleftrightarrow> Status t = TaskStatusRunning \<and> (\<exists>l. LeaseExpiresAt t = Some l \<and> l \<le> now)"

definition may_take :: "time \<Rightarrow> string \<Rightarrow> ClaimKind \<Rightarrow> Task \<Rightarrow> bool" where
  "may_take now workflow kind t \<longleftrightarrow>
     (workflow = [] \<or> Workflow t = workflow) \<and>
     (kind = ClaimInitial \<and> Status t = TaskStatusQueued \<and> AvailableAt t \<le> now \<or>
      kind = ClaimRetry \<and> Status t = TaskStatusRetrying \<and> AvailableAt t \<le> now \<or>
      kind = ClaimRecovery \<and> lease_run_out now t \<and> RetryCount t < MaxRetries t)"

definition on_lease :: "string \<Rightarrow> time \<Rightarrow> duration \<Rightarrow> ClaimKind \<Rightarrow> Task \<Rightarrow> Task" where
  "on_lease worker now d kind t =
     t\<lparr>Status := TaskStatusRunning, LeaseOwner := worker, LeaseExpiresAt := Some (now + d), LastHeartbeatAt := None,
       UpdatedAt := now, StartedAt := Some (case StartedAt t of None \<Rightarrow> now | Some u \<Rightarrow> u), Version := Version t + 1,
       RetryCount := RetryCount t + (if kind = ClaimRecovery then 1 else 0)\<rparr>"

definition claim_event_type :: "ClaimKind \<Rightarrow> EventType" where
  "claim_event_type kind =
     (case kind of ClaimInitial \<Rightarrow> EventTaskStarted | ClaimRetry \<Rightarrow> EventTaskRetryStarted | _ \<Rightarrow> EventTaskRecovered)"

definition takes_before :: "ClaimKind \<Rightarrow> Task \<Rightarrow> ClaimKind \<Rightarrow> Task \<Rightarrow> bool" where
  "takes_before kind t kind' u \<longleftrightarrow>
     (if kind = ClaimRecovery
      then kind' = ClaimRecovery \<longrightarrow> (the (LeaseExpiresAt t), ID t) \<le> (the (LeaseExpiresAt u), ID u)
      else kind' \<noteq> ClaimRecovery \<and> (AvailableAt t, CreatedAt t, ID t) \<le> (AvailableAt u, CreatedAt u, ID u))"

text \<open>A held lease, and the task after its renewal.\<close>

definition holds :: "string \<Rightarrow> time \<Rightarrow> Task \<Rightarrow> bool" where
  "holds worker now t \<longleftrightarrow>
     Status t = TaskStatusRunning \<and> LeaseOwner t = worker \<and> (\<exists>l. LeaseExpiresAt t = Some l \<and> now < l)"

definition with_renewal :: "time \<Rightarrow> duration \<Rightarrow> Task \<Rightarrow> Task" where
  "with_renewal now d t = t\<lparr>LeaseExpiresAt := Some (now + d), LastHeartbeatAt := Some now, UpdatedAt := now\<rparr>"

text \<open>A task that was ended from outside: by a cancellation or by the reaper.\<close>

definition ended :: "TaskStatus \<Rightarrow> time \<Rightarrow> Task \<Rightarrow> Task" where
  "ended st now t =
     t\<lparr>Status := st, UpdatedAt := now, FinishedAt := Some now, LeaseOwner := [], LeaseExpiresAt := None,
       Version := Version t + 1\<rparr>"

text \<open>Requests of creation with the same idempotency key that ask for the same task.\<close>

definition same_request_key :: "Task \<Rightarrow> Task \<Rightarrow> bool" where
  "same_request_key t u \<longleftrightarrow>
     IdempotencyKey t \<noteq> [] \<and> IdempotencyKey u \<noteq> [] \<and>
     Workflow t @ CHR 0x00 # IdempotencyKey t = Workflow u @ CHR 0x00 # IdempotencyKey u"

definition same_request :: "Task \<Rightarrow> Task \<Rightarrow> bool" where
  "same_request u t \<longleftrightarrow>
     IdempotencyKey u = IdempotencyKey t \<and> Workflow u = Workflow t \<and> MaxRetries u = MaxRetries t \<and>
     (if decodeJSONValue (Input u) = None then Input u = Input t
      else decodeJSONValue (Input u) = decodeJSONValue (Input t))"

subsection \<open>The operations\<close>

definition get_spec :: "string \<Rightarrow> Task outcome" where
  "get_spec tid m r m' \<longleftrightarrow>
     m' = m \<and> r = (case stored_task m tid of None \<Rightarrow> Inl ErrTaskNotFound | Some t \<Rightarrow> Inr t)"

definition events_spec :: "string \<Rightarrow> TaskEvent list outcome" where
  "events_spec tid m r m' \<longleftrightarrow>
     m' = m \<and> (\<exists>es. r = Inr es \<and> mset es = mset (stored_events m tid) \<and> sorted (map CreatedAt_ev es) \<and>
       (\<forall>x. filter (\<lambda>e. CreatedAt_ev e = x) es = filter (\<lambda>e. CreatedAt_ev e = x) (stored_events m tid)))"

definition renew_spec :: "string \<Rightarrow> string \<Rightarrow> time \<Rightarrow> duration \<Rightarrow> unit outcome" where
  "renew_spec tid worker now d m r m' \<longleftrightarrow>
     (if tid = [] \<or> worker = [] \<or> now = 0 \<or> d \<le> 0 then refused_with ErrInvalidLeaseRenewal m r m'
      else case stored_task m tid of
        None \<Rightarrow> refused_with ErrLeaseLost m r m'
      | Some t \<Rightarrow>
          if holds worker now t
          then r = Inr () \<and> eventStore m' = eventStore m \<and> stored_task m' = (stored_task m)(tid \<mapsto> with_renewal now d t)
          else refused_with ErrLeaseLost m r m')"

definition create_spec :: "Task \<Rightarrow> TaskEvent \<Rightarrow> TaskCreationResult outcome" where
  "create_spec t ev m r m' \<longleftrightarrow>
     (if TaskID_ev ev \<noteq> ID t then refused_with ErrTaskEventMismatch m r m'
      else if \<exists>tid u. stored_task m tid = Some u \<and> same_request_key u t then
        (\<exists>tid u. stored_task m tid = Some u \<and> same_request_key u t \<and>
           (if same_request u t then r = Inr \<lparr>Task_cr = Some u, Created_cr = False\<rparr> \<and> m' = m
            else refused_with ErrIdempotencyConflict m r m'))
      else if stored_task m (ID t) \<noteq> None then refused_with ErrTaskAlreadyExists m r m'
      else if used_id m (ID_ev ev) then refused_with ErrEventAlreadyExists m r m'
      else r = Inr \<lparr>Task_cr = Some t, Created_cr = True\<rparr> \<and> stored (ID t) t ev m m')"

definition claim_spec :: "string \<Rightarrow> string \<Rightarrow> time \<Rightarrow> duration \<Rightarrow> string \<Rightarrow> Task outcome" where
  "claim_spec worker workflow now d eid m r m' \<longleftrightarrow>
     (if worker = [] \<or> now = 0 \<or> d \<le> 0 then refused_with ErrInvalidClaim m r m'
      else if eid = [] then refused_with ErrInvalidEventID m r m'
      else if used_id m eid then refused_with ErrEventAlreadyExists m r m'
      else if \<forall>tid t kind. stored_task m tid = Some t \<longrightarrow> \<not> may_take now workflow kind t
      then refused_with ErrNoTaskAvailable m r m'
      else if year_of (now + d) < 0 \<or> 9999 < year_of (now + d) then \<exists>e. refused_with e m r m'
      else \<exists>t kind ev. stored_task m (ID t) = Some t \<and> may_take now workflow kind t \<and>
        (\<forall>tid u kind'. stored_task m tid = Some u \<longrightarrow> may_take now workflow kind' u \<longrightarrow> takes_before kind t kind' u) \<and>
        r = Inr (on_lease worker now d kind t) \<and> tells eid (claim_event_type kind) t now ev \<and>
        stored (ID t) (on_lease worker now d kind t) ev m m')"

definition reap_spec :: "time \<Rightarrow> string \<Rightarrow> Task outcome" where
  "reap_spec now eid m r m' \<longleftrightarrow>
     (if now = 0 then refused_with ErrInvalidCleanupTime m r m'
      else if eid = [] then refused_with ErrInvalidEventID m r m'
      else if used_id m eid then refused_with ErrEventAlreadyExists m r m'
      else if \<forall>tid t. stored_task m tid = Some t \<longrightarrow> \<not> (lease_run_out now t \<and> MaxRetries t \<le> RetryCount t)
      then refused_with ErrNoExpiredTask m r m'
      else \<exists>t u ev. stored_task m (ID t) = Some t \<and> lease_run_out now t \<and> MaxRetries t \<le> RetryCount t \<and>
        (\<forall>tid v. stored_task m tid = Some v \<longrightarrow> lease_run_out now v \<longrightarrow> MaxRetries v \<le> RetryCount v \<longrightarrow>
           (the (LeaseExpiresAt t), ID t) \<le> (the (LeaseExpiresAt v), ID v)) \<and>
        u = (ended TaskStatusFailed now t)\<lparr>ErrorMessage := ''task lease expired and retry budget exhausted''\<rparr> \<and>
        r = Inr u \<and> tells eid EventTaskFailed t now ev \<and> stored (ID t) u ev m m')"

definition update_spec :: "Task \<Rightarrow> TaskEvent \<Rightarrow> unit outcome" where
  "update_spec t ev m r m' \<longleftrightarrow>
     (if TaskID_ev ev \<noteq> ID t then refused_with ErrTaskEventMismatch m r m'
      else case stored_task m (ID t) of
        None \<Rightarrow> refused_with ErrTaskNotFound m r m'
      | Some u \<Rightarrow>
          if Version u \<noteq> Version t then refused_with ErrTaskConflict m r m'
          else if used_id m (ID_ev ev) then refused_with ErrEventAlreadyExists m r m'
          else r = Inr () \<and> stored (ID t) (t\<lparr>Version := Version t + 1\<rparr>) ev m m')"

definition cancel_spec :: "string \<Rightarrow> string \<Rightarrow> time \<Rightarrow> TaskCancellationResult outcome" where
  "cancel_spec tid eid now m r m' \<longleftrightarrow>
     (if tid = [] then refused_with ErrTaskNotFound m r m'
      else if eid = [] then refused_with ErrInvalidEventID m r m'
      else if now = 0 then refused_with ErrInvalidCancellationTime m r m'
      else case stored_task m tid of
        None \<Rightarrow> refused_with ErrTaskNotFound m r m'
      | Some t \<Rightarrow>
          if Status t = TaskStatusCanceled then r = Inr \<lparr>Task_ca = t, Canceled_ca = False\<rparr> \<and> m' = m
          else if Status t \<in> {TaskStatusSucceeded, TaskStatusPartial, TaskStatusFailed}
          then refused_with ErrTaskNotCancelable m r m'
          else if used_id m eid then refused_with ErrEventAlreadyExists m r m'
          else \<exists>ev. tells eid EventTaskCanceled t now ev \<and>
            r = Inr \<lparr>Task_ca = ended TaskStatusCanceled now t, Canceled_ca = True\<rparr> \<and>
            stored tid (ended TaskStatusCanceled now t) ev m m')"

section \<open>The memory stores keep the contract\<close>

lemma event_known_used: "stores_wf m \<Longrightarrow> event_known m eid \<longleftrightarrow> used_id m eid"
  unfolding used_id_def stores_wf_def event_index_wf_def by auto

lemma commit_stored: "TaskID_ev ev = tid \<Longrightarrow> stored tid t ev m (commit tid t ev m)"
  by (auto simp: stored_def fun_eq_iff)

lemma abandoned_iff:
  "expired_claimable o1 t \<longleftrightarrow> may_take (Now_co o1) (Workflow_co o1) ClaimRecovery t"
  "expired_exhausted now t \<longleftrightarrow> lease_run_out now t \<and> MaxRetries t \<le> RetryCount t"
  by (auto simp: expired_claimable_def expired_exhausted_def may_take_def lease_run_out_def workflow_skip_def split: option.splits)

lemma ready_iff:
  "ready_claimable o1 t \<longleftrightarrow> (\<exists>kind. kind \<noteq> ClaimRecovery \<and> may_take (Now_co o1) (Workflow_co o1) kind t)"
  by (auto simp: ready_claimable_def may_take_def workflow_skip_def)

lemma claimable_iff: "claimable o1 kind t \<longleftrightarrow> may_take (Now_co o1) (Workflow_co o1) kind t"
  unfolding claimable_def abandoned_iff(1) by (auto simp: ready_claimable_def may_take_def workflow_skip_def)

lemma holds_iff: "lease_held worker now t \<longleftrightarrow> holds worker now t"
  by (auto simp: lease_held_def holds_def split: option.splits)

lemma claimed_eq:
  assumes "task_wf t" "claimable o1 kind t"
  shows "claimed o1 kind t = on_lease (WorkerID_co o1) (Now_co o1) (LeaseDuration_co o1) kind t"
proof (cases "kind = ClaimRecovery")
  case True
  with assms have "Status t = TaskStatusRunning" "RetryCount t < MaxRetries t"
    by (auto simp: claimable_iff may_take_def lease_run_out_def)
  with True assms(1) task_wf_retry_i64 [OF assms(1)] show ?thesis
    by (auto simp: claimed_def grant_lease_def on_lease_def Add_time_def task_wf_def)
next
  case False
  then show ?thesis
    by (cases "StartedAt t") (simp_all add: claimed_def grant_lease_def on_lease_def Add_time_def enter_status_def)
qed

lemma renewed_eq: "renewed now d t = with_renewal now d t"
  by (simp add: renewed_def with_renewal_def Add_time_def)


lemmas queue_iffs = claimable_iff abandoned_iff ready_iff holds_iff

lemma get_meets: "get_spec tid m (Get None tid (taskStore m)) m"
  by (simp add: get_spec_def Get_def split: option.split)

lemma events_meet: "events_spec tid m (ListByTaskID None tid (eventStore m)) m"
  by (simp add: events_spec_def ListByTaskID_def sort_key_stable)

lemma renew_meets:
  assumes "RenewLease None \<lparr>TaskID_rl = tid, WorkerID_rl = w, Now_rl = now, LeaseDuration_rl = d\<rparr> (taskStore m) = (re, ts)"
  shows "renew_spec tid w now d m (err_result re) (m\<lparr>taskStore := ts\<rparr>)"
  using assms
  by (auto simp: RenewLease_def renew_spec_def Validate_renew_def IsZero_def refused_with_def holds_iff with_renewal_def
      Add_time_def split: option.splits if_splits)

lemma update_meets:
  assumes "stores_wf m" "UpdateTaskWithEvent None (Some t) (Some ev) m = (re, m')"
  shows "update_spec t ev m (err_result re) m'"
  using assms(2)
  by (auto simp: UpdateTaskWithEvent_def update_spec_def refused_with_def commit_stored event_known_used [OF assms(1)]
      simp flip: event_known_used [OF assms(1)] split: option.splits if_splits)

lemma same_request_iff: "SameTaskCreationRequest (Some u) (Some t) \<longleftrightarrow> same_request u t"
  by (auto simp: SameTaskCreationRequest_def same_request_def split: option.splits)

lemma create_meets:
  assumes wf: "stores_wf m" and run: "CreateTaskWithEvent None (Some t) (Some ev) m = (r, m')"
  shows "create_spec t ev m r m'"
proof (cases "TaskID_ev ev = ID t \<and> (\<exists>tid u. stored_task m tid = Some u \<and> same_request_key u t)")
  case True
  then obtain tid u where u: "stored_task m tid = Some u" "same_request_key u t" by blast
  then have "taskIDsByIdempotencyKey (taskStore m) (idempotencyIndexKey (Workflow t) (IdempotencyKey t)) = Some tid"
    using wf by (auto simp: stores_wf_def key_index_wf_def same_request_key_def idempotencyIndexKey_def)
  with u run True show ?thesis
    by (auto simp: CreateTaskWithEvent_def create_spec_def refused_with_def same_request_key_def same_request_iff split: if_splits)
next
  case False
  have "IdempotencyKey t \<noteq> [] \<Longrightarrow> TaskID_ev ev = ID t \<Longrightarrow>
      taskIDsByIdempotencyKey (taskStore m) (idempotencyIndexKey (Workflow t) (IdempotencyKey t)) = None"
    using False wf by (auto simp: stores_wf_def key_index_wf_def same_request_key_def idempotencyIndexKey_def)
      (metis option.exhaust)
  with run False show ?thesis
    by (auto simp: CreateTaskWithEvent_def create_spec_def refused_with_def stored_def fun_eq_iff Let_def
        simp flip: event_known_used [OF wf] split: if_splits)
qed

text \<open>The events of claims, reaps and cancellations never fail on a well-formed task.\<close>

lemma new_event_ok:
  assumes "task_wf t" "eid \<noteq> []" "ty \<noteq> OtherEvent []"
  shows "\<exists>ev. NewTaskEvent eid (ID t) ty msg pl (Progress t) now = Inr ev \<and> tells eid ty t now ev"
  using assms by (auto simp: NewTaskEvent_def task_wf_def tells_def)

lemma cancel_meets:
  assumes wf: "stores_wf m" and run: "CancelTaskWithEvent None tid eid now m = (r, m')"
  shows "cancel_spec tid eid now m r m'"
proof (cases "tid \<noteq> [] \<and> eid \<noteq> [] \<and> now \<noteq> 0")
  case False
  with run show ?thesis by (auto simp: CancelTaskWithEvent_def cancel_spec_def refused_with_def IsZero_def split: if_splits)
next
  case valid: True
  show ?thesis
  proof (cases "stored_task m tid")
    case None
    with run valid show ?thesis by (simp add: CancelTaskWithEvent_def cancel_spec_def refused_with_def IsZero_def)
  next
    case (Some t)
    note t = stores_wf_lookup [OF wf Some]
    show ?thesis
    proof (cases "Status t \<in> {TaskStatusQueued, TaskStatusRetrying, TaskStatusRunning} \<and> \<not> event_known m eid")
      case False
      moreover have "Status t \<noteq> OtherStatus x" for x using t(2) by (simp add: task_wf_def)
      ultimately show ?thesis using run valid Some event_known_used [OF wf, of eid]
        by (cases "Status t") (auto simp: CancelTaskWithEvent_def cancel_spec_def refused_with_def IsZero_def)
    next
      case True
      let ?t = "ended TaskStatusCanceled now t"
      have move: "MoveTo (Some t) TaskStatusCanceled now = Inr (?t\<lparr>Version := Version t\<rparr>)"
        using True by (auto simp: MoveTo_def enter_status_def ended_def)
      have wt: "ID ?t = ID t" "Progress ?t = Progress t" by (simp_all add: ended_def)
      obtain ev where ev: "NewTaskCanceledEvent eid (Some ?t) now = Inr ev" "tells eid EventTaskCanceled t now ev"
        using new_event_ok [OF t(2), of eid EventTaskCanceled] valid by (fastforce simp: NewTaskCanceledEvent_def ended_def)
      have "(?t\<lparr>Version := Version t\<rparr>)\<lparr>Version := Version t + 1\<rparr> = ?t" by (simp add: ended_def)
      with run valid Some True move ev have "r = Inr \<lparr>Task_ca = ?t, Canceled_ca = True\<rparr>" "m' = commit tid ?t ev m"
        by (auto simp: CancelTaskWithEvent_def IsZero_def Let_def)
      moreover have "TaskID_ev ev = tid" using ev(2) t(1) by (simp add: tells_def)
      ultimately show ?thesis using valid Some True ev(2) event_known_used [OF wf, of eid]
        by (auto simp: cancel_spec_def commit_stored)
    qed
  qed
qed

lemma reap_meets:
  assumes wf: "stores_wf m" and rng: "range_order rng" and run: "FailNextExpiredWithEvent rng None now eid m = (r, m')"
  shows "reap_spec now eid m r m'"
proof (cases "now = 0 \<or> eid = [] \<or> event_known m eid")
  case True
  with run event_known_used [OF wf, of eid] show ?thesis
    by (auto simp: FailNextExpiredWithEvent_def reap_spec_def refused_with_def IsZero_def split: if_splits)
next
  case valid: False
  note least = lease_scan_least [OF wf rng, of "expired_exhausted now", unfolded lease_key_def]
  show ?thesis
  proof (cases "scan_tasks (expired_exhausted now) lease_before (rng (tasks (taskStore m)))")
    case None
    with run valid have "r = Inl ErrNoExpiredTask \<and> m' = m"
      by (simp add: FailNextExpiredWithEvent_def failNextExpiredLocked_def IsZero_def)
    moreover have "\<forall>k t. stored_task m k = Some t \<longrightarrow> \<not> expired_exhausted now t" using None least by simp
    ultimately show ?thesis using valid event_known_used [OF wf, of eid]
      by (auto simp: reap_spec_def refused_with_def abandoned_iff)
  next
    case (Some kt)
    obtain k t where kt: "kt = (k, t)" by force
    with Some least have t: "stored_task m k = Some t" "lease_run_out now t" "MaxRetries t \<le> RetryCount t"
      "\<forall>k' u. stored_task m k' = Some u \<longrightarrow> lease_run_out now u \<and> MaxRetries u \<le> RetryCount u \<longrightarrow>
         (the (LeaseExpiresAt t), ID t) \<le> (the (LeaseExpiresAt u), ID u)"
      by (auto simp: abandoned_iff)
    note w = stores_wf_lookup [OF wf t(1)]
    let ?u = "(ended TaskStatusFailed now t)\<lparr>ErrorMessage := ''task lease expired and retry budget exhausted''\<rparr>"
    have u: "expired_failed now t = ?u"
      by (simp add: expired_failed_def ended_def enter_status_def expired_message_def Let_def)
    have locked: "failNextExpiredLocked rng now (taskStore m) = (Inr (?u, t), put_task k ?u (taskStore m))"
      using Some kt t(2) unfolding u [symmetric]
      by (simp add: failNextExpiredLocked_def expired_failed_def MoveTo_def lease_run_out_def Let_def)
    obtain ev where ev: "NewTaskExpiredEvent eid (Some ?u) now = Inr ev" "tells eid EventTaskFailed t now ev"
      using new_event_ok [OF w(2), of eid EventTaskFailed] valid by (fastforce simp: NewTaskExpiredEvent_def ended_def)
    have "r = Inr ?u" "m' = commit k ?u ev m"
      using run valid locked ev(1) by (auto simp: FailNextExpiredWithEvent_def IsZero_def commit_def)
    moreover have "TaskID_ev ev = k" using ev(2) w(1) by (simp add: tells_def)
    ultimately show ?thesis using valid t ev(2) w(1) event_known_used [OF wf, of eid]
      by (simp add: reap_spec_def) (metis commit_stored)
  qed
qed

lemma claim_meets:
  assumes wf: "stores_wf m" and rng: "range_order rng1" "range_order rng2"
    and run: "ClaimNextWithEvent rng1 rng2 None
      \<lparr>WorkerID_co = w, Workflow_co = workflow, Now_co = now, LeaseDuration_co = d\<rparr> eid m = (r, m')"
  shows "claim_spec w workflow now d eid m r m'"
proof (cases "w = [] \<or> now = 0 \<or> d \<le> 0 \<or> eid = [] \<or> event_known m eid")
  case True
  with run event_known_used [OF wf, of eid] show ?thesis
    by (auto simp: ClaimNextWithEvent_def claim_spec_def refused_with_def IsZero_def Validate_claim_def split: if_splits)
next
  case valid: False
  let ?o = "\<lparr>WorkerID_co = w, Workflow_co = workflow, Now_co = now, LeaseDuration_co = d\<rparr>"
  note used = event_known_used [OF wf, of eid]
  show ?thesis
  proof (cases "select_claim rng1 rng2 ?o (taskStore m)")
    case None
    with run valid have "r = Inl ErrNoTaskAvailable \<and> m' = m"
      by (simp add: ClaimNextWithEvent_def claimNextLocked_def IsZero_def Validate_claim_def)
    moreover have "\<forall>tid t kind. stored_task m tid = Some t \<longrightarrow> \<not> may_take now workflow kind t"
      using None select_claim_None [OF wf rng, of ?o] by (auto simp: abandoned_iff ready_iff may_take_def)
    ultimately show ?thesis using valid used by (simp add: claim_spec_def refused_with_def)
  next
    case (Some sel)
    obtain k t kind where sel: "sel = ((k, t), kind)" by (metis prod.exhaust)
    note c = select_claim_Some [OF Some [unfolded sel] rng]
    from stores_wf_entry [OF wf conjunct1 [OF c]] have k: "stored_task m (ID t) = Some t" "k = ID t" by auto
    note tw = stores_wf_lookup(2) [OF wf k(1)]
    from c have take: "may_take now workflow kind t" by (simp add: claimable_iff)
    let ?t = "on_lease w now d kind t"
    have eq: "claimed ?o kind t = ?t" using claimed_eq [OF tw conjunct2 [OF c]] by simp
    have "kind \<noteq> ClaimRecovery \<Longrightarrow> CanTransition (Status t) TaskStatusRunning" using take by (auto simp: may_take_def)
    then have locked: "claimNextLocked rng1 rng2 ?o (taskStore m) = (Inr (?t, t, kind), put_task k ?t (taskStore m))"
      using Some sel eq by (auto simp: claimNextLocked_def claimed_def MoveTo_def)
    have order: "\<forall>tid u kind'. stored_task m tid = Some u \<longrightarrow> may_take now workflow kind' u \<longrightarrow> takes_before kind t kind' u"
    proof (intro allI impI)
      fix tid u kind' assume u: "stored_task m tid = Some u" "may_take now workflow kind' u"
      note least = select_claim_least [OF wf rng Some [unfolded sel], unfolded abandoned_iff ready_iff lease_key_def ready_key_def]
      show "takes_before kind t kind' u"
      proof (cases "kind = ClaimRecovery")
        case True
        with least u show ?thesis by (auto simp: takes_before_def simp del: less_eq_prod_simp)
      next
        case False
        with least u have "kind' \<noteq> ClaimRecovery" by (auto simp del: less_eq_prod_simp)
        with False least u show ?thesis unfolding takes_before_def if_not_P [OF False] by (simp del: less_eq_prod_simp) blast
      qed
    qed
    obtain msg where ty: "claim_event_kind kind = Inr (claim_event_type kind, msg)" "claim_event_type kind \<noteq> OtherEvent []"
      using take by (auto simp: may_take_def claim_event_kind_def claim_event_type_def)
    have fields: "ID ?t = ID t" "Progress ?t = Progress t" "LeaseExpiresAt ?t = Some (now + d)" by (simp_all add: on_lease_def)
    show ?thesis
    proof (cases "MarshalTime (now + d)")
      case None
      with ty(1) fields have "\<exists>e. NewTaskClaimedEvent eid (Some ?t) kind now = Inl e"
        by (simp add: NewTaskClaimedEvent_def time_member_def)
      then have "\<exists>e. r = Inl e \<and> m' = m" using run valid locked k put_task_undo [OF k(1) stores_wf_gomap [OF wf]]
        by (auto simp: ClaimNextWithEvent_def IsZero_def Validate_claim_def)
      moreover have "year_of (now + d) < 0 \<or> 9999 < year_of (now + d)"
        using None by (simp add: MarshalTime_def not_le split: if_splits)
      ultimately show ?thesis using valid used k(1) take by (auto simp: claim_spec_def refused_with_def)
    next
      case (Some lease)
      then have y: "\<not> (year_of (now + d) < 0 \<or> 9999 < year_of (now + d))" by (simp add: MarshalTime_def not_le split: if_splits)
      obtain ev where ev: "NewTaskClaimedEvent eid (Some ?t) kind now = Inr ev" "tells eid (claim_event_type kind) t now ev"
        using new_event_ok [OF tw, of eid "claim_event_type kind"] valid ty fields Some
        by (fastforce simp: NewTaskClaimedEvent_def time_member_def)
      have "r = Inr ?t" "m' = commit (ID t) ?t ev m"
        using run valid locked ev(1) k(2) by (auto simp: ClaimNextWithEvent_def IsZero_def Validate_claim_def commit_def)
      moreover have "TaskID_ev ev = ID t" using ev(2) by (simp add: tells_def)
      ultimately have "\<exists>ev. r = Inr ?t \<and> tells eid (claim_event_type kind) t now ev \<and> stored (ID t) ?t ev m m'"
        using ev(2) commit_stored by blast
      moreover have v: "\<not> (w = [] \<or> now = 0 \<or> d \<le> 0)" "\<not> eid = []" "\<not> used_id m eid"
        "\<not> (\<forall>tid t kind. stored_task m tid = Some t \<longrightarrow> \<not> may_take now workflow kind t)"
        using valid used k(1) take by auto
      ultimately show ?thesis using k(1) take order
        unfolding claim_spec_def if_not_P [OF v(1)] if_not_P [OF v(2)] if_not_P [OF v(3)] if_not_P [OF v(4)] if_not_P [OF y]
        by blast
    qed
  qed
qed

section \<open>Under any interleaving\<close>

text \<open>
  The operation acts at one instant, on a state that the other clients may have produced
  meanwhile (none, when no action of theirs is scheduled), as its specification says; or it
  changes nothing and reports that its context has ended.
\<close>

definition at_once :: "runtime \<Rightarrow> 'a result \<times> runtime \<Rightarrow> 'a outcome \<Rightarrow> bool" where
  "at_once s out P \<longleftrightarrow>
     (case out of (r, s') \<Rightarrow>
        fair_schedule s' \<and>
        (\<exists>m. env_step\<^sup>*\<^sup>* (stores_rt s) m \<and> (schedule_rt s = [] \<longrightarrow> m = stores_rt s) \<and>
           (P m r (stores_rt s') \<or>
            schedule_rt s \<noteq> [] \<and> (refused_with ContextCanceled m r (stores_rt s') \<or> refused_with ContextDeadlineExceeded m r (stores_rt s')))))"

lemma on_stores_at_once:
  assumes s: "fair_schedule s" "stores_wf (stores_rt s)"
    and quiet: "\<And>m. stores_wf m \<Longrightarrow> P m (fst (f None m)) (snd (f None m))"
    and ctx: "\<And>e m. f (Some e) m = (Inl e, m)"
  shows "at_once s (on_stores f s) P"
proof -
  obtain c s1 where a: "arrive s = (c, s1)" by force
  note fair = arrive_fair [OF s a]
  have m1: "schedule_rt s = [] \<longrightarrow> stores_rt s1 = stores_rt s \<and> c = None"
    using a by (auto simp: arrive_def split: list.splits)
  have wf: "stores_wf (stores_rt s1)" using fair s(2) env_steps_wf by blast
  let ?out = "f c (stores_rt s1)"
  have out: "on_stores f s = (fst ?out, s1\<lparr>stores_rt := snd ?out\<rparr>)"
    by (simp add: on_stores_def a split: prod.split)
  have fs: "fair_schedule (s1\<lparr>stores_rt := snd ?out\<rparr>)" using fair by (simp add: fair_schedule_def)
  have "P (stores_rt s1) (fst ?out) (snd ?out) \<or> schedule_rt s \<noteq> [] \<and>
      (refused_with ContextCanceled (stores_rt s1) (fst ?out) (snd ?out) \<or>
       refused_with ContextDeadlineExceeded (stores_rt s1) (fst ?out) (snd ?out))"
  proof (cases c)
    case None
    with quiet [OF wf] show ?thesis by simp
  next
    case (Some e)
    with fair m1 ctx [of e "stores_rt s1"] show ?thesis by (auto simp: valid_ctx_def refused_with_def)
  qed
  with fair fs m1 show ?thesis unfolding at_once_def out by auto
qed

text \<open>Each operation of the memory backend meets its specification.\<close>

lemma memory_reads_meet:
  assumes s: "fair_schedule s" "stores_wf (stores_rt s)"
  shows "at_once s (Get_rs (memory_stores rng1 rng2 rng3) tid s) (get_spec tid)"
    and "at_once s (ListByTaskID_rs (memory_stores rng1 rng2 rng3) tid s) (events_spec tid)"
proof -
  have "at_once s (on_stores (\<lambda>ctx m. (Get ctx tid (taskStore m), m)) s) (get_spec tid)"
    by (rule on_stores_at_once [OF s]) (simp_all add: get_meets, simp add: Get_def)
  then show "at_once s (Get_rs (memory_stores rng1 rng2 rng3) tid s) (get_spec tid)" by (simp add: memory_stores_def)
  have "at_once s (on_stores (\<lambda>ctx m. (ListByTaskID ctx tid (eventStore m), m)) s) (events_spec tid)"
    by (rule on_stores_at_once [OF s]) (simp_all add: events_meet, simp add: ListByTaskID_def)
  then show "at_once s (ListByTaskID_rs (memory_stores rng1 rng2 rng3) tid s) (events_spec tid)"
    by (simp add: memory_stores_def)
qed

lemma memory_renew_meets:
  assumes s: "fair_schedule s" "stores_wf (stores_rt s)"
  shows "at_once s (RenewLease_rs (memory_stores rng1 rng2 rng3)
    \<lparr>TaskID_rl = tid, WorkerID_rl = w, Now_rl = now, LeaseDuration_rl = d\<rparr> s) (renew_spec tid w now d)"
proof -
  let ?o = "\<lparr>TaskID_rl = tid, WorkerID_rl = w, Now_rl = now, LeaseDuration_rl = d\<rparr>"
  have "at_once s (on_stores (\<lambda>ctx m. case RenewLease ctx ?o (taskStore m) of (r, ts) \<Rightarrow> (err_result r, m\<lparr>taskStore := ts\<rparr>)) s)
    (renew_spec tid w now d)"
    by (rule on_stores_at_once [OF s]) (simp_all add: case_prod_unfold renew_meets [OF surjective_pairing], simp add: RenewLease_def)
  then show ?thesis by (simp add: memory_stores_def)
qed

lemma memory_writes_meet:
  assumes s: "fair_schedule s" "stores_wf (stores_rt s)"
  shows "at_once s (CreateTaskWithEvent_rs (memory_stores rng1 rng2 rng3) (Some t) (Some ev) s) (create_spec t ev)"
    and "at_once s (UpdateTaskWithEvent_rs (memory_stores rng1 rng2 rng3) (Some t) (Some ev) s) (update_spec t ev)"
    and "at_once s (CancelTaskWithEvent_rs (memory_stores rng1 rng2 rng3) tid eid now s) (cancel_spec tid eid now)"
proof -
  have "at_once s (on_stores (\<lambda>ctx. CreateTaskWithEvent ctx (Some t) (Some ev)) s) (create_spec t ev)"
    by (rule on_stores_at_once [OF s]) (simp_all add: create_meets, simp add: CreateTaskWithEvent_def)
  then show "at_once s (CreateTaskWithEvent_rs (memory_stores rng1 rng2 rng3) (Some t) (Some ev) s) (create_spec t ev)"
    by (simp add: memory_stores_def)
  have "at_once s (on_stores (\<lambda>ctx m. case UpdateTaskWithEvent ctx (Some t) (Some ev) m of (r, m') \<Rightarrow> (err_result r, m')) s)
    (update_spec t ev)"
    by (rule on_stores_at_once [OF s]) (simp_all add: case_prod_unfold update_meets [OF _ surjective_pairing], simp add: UpdateTaskWithEvent_def)
  then show "at_once s (UpdateTaskWithEvent_rs (memory_stores rng1 rng2 rng3) (Some t) (Some ev) s) (update_spec t ev)"
    by (simp add: memory_stores_def)
  have "at_once s (on_stores (\<lambda>ctx. CancelTaskWithEvent ctx tid eid now) s) (cancel_spec tid eid now)"
    by (rule on_stores_at_once [OF s]) (simp_all add: cancel_meets, simp add: CancelTaskWithEvent_def)
  then show "at_once s (CancelTaskWithEvent_rs (memory_stores rng1 rng2 rng3) tid eid now s) (cancel_spec tid eid now)"
    by (simp add: memory_stores_def)
qed

lemma memory_takes_meet:
  assumes s: "fair_schedule s" "stores_wf (stores_rt s)" and rng: "range_order rng1" "range_order rng2" "range_order rng3"
  shows "at_once s (ClaimNextWithEvent_rs (memory_stores rng1 rng2 rng3)
      \<lparr>WorkerID_co = w, Workflow_co = workflow, Now_co = now, LeaseDuration_co = d\<rparr> eid s) (claim_spec w workflow now d eid)"
    and "at_once s (FailNextExpiredWithEvent_rs (memory_stores rng1 rng2 rng3) now eid s) (reap_spec now eid)"
proof -
  let ?o = "\<lparr>WorkerID_co = w, Workflow_co = workflow, Now_co = now, LeaseDuration_co = d\<rparr>"
  have "at_once s (on_stores (\<lambda>ctx. ClaimNextWithEvent rng1 rng2 ctx ?o eid) s) (claim_spec w workflow now d eid)"
    by (rule on_stores_at_once [OF s]) (simp_all add: claim_meets [OF _ rng(1,2)], simp add: ClaimNextWithEvent_def)
  then show "at_once s (ClaimNextWithEvent_rs (memory_stores rng1 rng2 rng3) ?o eid s) (claim_spec w workflow now d eid)"
    by (simp add: memory_stores_def)
  have "at_once s (on_stores (\<lambda>ctx. FailNextExpiredWithEvent rng3 ctx now eid) s) (reap_spec now eid)"
    by (rule on_stores_at_once [OF s]) (simp_all add: reap_meets [OF _ rng(3)], simp add: FailNextExpiredWithEvent_def)
  then show "at_once s (FailNextExpiredWithEvent_rs (memory_stores rng1 rng2 rng3) now eid s) (reap_spec now eid)"
    by (simp add: memory_stores_def)
qed

end
