(* ===== verification/InternalSpecs.thy ===== *)
theory InternalSpecs
  imports InternalWorker QueueSpec
begin

text \<open>
  What one round of an internal worker does to the stores, whatever else happens meanwhile:
  it claims at most one task, and changes that task at most once more, under the lease it
  was granted; it reports success exactly when it did.  The same for the reaper, and for the
  loops of both.
\<close>

section \<open>Outcomes\<close>

text \<open>An executor cannot reach the stores: while it runs only other clients act.\<close>

definition storeless :: "('s \<Rightarrow> MemoryStores) \<Rightarrow> ('s \<Rightarrow> bool) \<Rightarrow> 's executor \<Rightarrow> bool" where
  "storeless mem ok ex \<longleftrightarrow>
     (\<forall>t s r s'. ok s \<longrightarrow> stores_wf (mem s) \<longrightarrow> ex t s = (r, s') \<longrightarrow> only_others mem ok s s')"

definition storeless_worker :: "('s \<Rightarrow> MemoryStores) \<Rightarrow> ('s \<Rightarrow> bool) \<Rightarrow> 's Worker \<Rightarrow> bool" where
  "storeless_worker mem ok w \<longleftrightarrow> (\<forall>wf ex. executors_w w wf = Some ex \<longrightarrow> storeless mem ok ex)"

text \<open>
  The task the worker leaves, given what the executor answered; \<open>None\<close> stands for a workflow
  without an executor.
\<close>

definition closed_as :: "TaskStatus \<Rightarrow> EventType \<Rightarrow> string \<Rightarrow> process_env \<Rightarrow> Task \<Rightarrow> TaskEvent \<Rightarrow> bool" where
  "closed_as st ty em env t ev \<longleftrightarrow>
     Status t = st \<and> Type_ev ev = ty \<and> ErrorMessage t = em \<and> FinishedAt t = Some (finishedAt_pe env)"

definition result_outcome :: "process_env \<Rightarrow> ExecutionResult \<Rightarrow> Task \<Rightarrow> TaskEvent \<Rightarrow> bool" where
  "result_outcome env res t ev \<longleftrightarrow>
     Result t = Output_er res \<and> Progress t = 100 \<and>
     (case Outcome_er res of
        OutcomeSucceeded \<Rightarrow> closed_as TaskStatusSucceeded EventTaskSucceeded (ErrorMessage_er res) env t ev
      | OutcomePartial \<Rightarrow> closed_as TaskStatusPartial EventTaskPartial (ErrorMessage_er res) env t ev
      | OutcomeFailed \<Rightarrow>
          closed_as TaskStatusFailed EventTaskFailed
            (if ErrorMessage_er res = [] then ''executor reported failure'' else ErrorMessage_er res) env t ev
      | OtherOutcome x \<Rightarrow>
          closed_as TaskStatusFailed EventTaskFailed (''invalid execution outcome '' @ Quote (isPrint_pe env) x) env t ev)"

text \<open>A transient error is retried under the policy of the workflow, while it and the task have retries left.\<close>

definition retry_due :: "'s Worker \<Rightarrow> error \<Rightarrow> Task \<Rightarrow> bool" where
  "retry_due w e t0 \<longleftrightarrow>
     (\<exists>ee policy. AsExecutionError e = Some ee \<and> Kind_ee ee = ''transient'' \<and>
        retryPolicies_w w (Workflow t0) = Some policy \<and> RetryCount t0 < MaxRetries t0 \<and>
        RetryCount t0 < MaxRetries_rp policy)"

definition error_outcome :: "'s Worker \<Rightarrow> process_env \<Rightarrow> error \<Rightarrow> Task \<Rightarrow> Task \<Rightarrow> TaskEvent \<Rightarrow> bool" where
  "error_outcome w env e t0 t ev \<longleftrightarrow>
     \<not> errors_Is e ErrLeaseLost \<and>
     (let code = (case AsExecutionError e of None \<Rightarrow> error_text e | Some ee \<Rightarrow> Code_ee ee) in
      if retry_due w e t0
      then Status t = TaskStatusRetrying \<and> RetryCount t = RetryCount t0 + 1 \<and> ErrorMessage t = code \<and>
        UpdatedAt t < AvailableAt t \<and> Type_ev ev = EventTaskRetrying
      else closed_as TaskStatusFailed EventTaskFailed code env t ev \<and> Result t = Result t0 \<and> Progress t = Progress t0)"

definition process_outcome ::
  "'s Worker \<Rightarrow> process_env \<Rightarrow> ExecutionResult result option \<Rightarrow> Task \<Rightarrow> Task \<Rightarrow> TaskEvent \<Rightarrow> bool" where
  "process_outcome w env er t0 t ev \<longleftrightarrow>
     (case er of
        None \<Rightarrow>
          closed_as TaskStatusFailed EventTaskFailed
            (''no executor registered for workflow '' @ Quote (isPrint_pe env) (Workflow t0)) env t ev
      | Some (Inr res) \<Rightarrow> result_outcome env res t ev
      | Some (Inl e) \<Rightarrow> error_outcome w env e t0 t ev)"

text \<open>
  The answer \<open>er\<close> that closes the task \<open>t\<close> claimed in \<open>m1\<close>: none when the workflow has no executor,
  else what the executor answered when it ran on the task; or, when a tick of the renewal timer came
  in between and the store refused that renewal, the error of the renewal.
\<close>

definition renewal_refused :: "'s Worker \<Rightarrow> Task \<Rightarrow> time \<Rightarrow> MemoryStores \<Rightarrow> error \<Rightarrow> bool" where
  "renewal_refused w t now m e \<longleftrightarrow>
     e \<in> {ContextCanceled, ContextDeadlineExceeded} \<or>
     renew_spec (ID t) (id_w w) now (leaseDuration_w w) m (Inl e) m"

definition answered ::
  "('s \<Rightarrow> MemoryStores) \<Rightarrow> 's Worker \<Rightarrow> process_env \<Rightarrow> Task \<Rightarrow> MemoryStores \<Rightarrow> ExecutionResult result option \<Rightarrow> bool" where
  "answered mem w env t m1 er \<longleftrightarrow>
     (case executors_w w (Workflow t) of
        None \<Rightarrow> er = None
      | Some ex \<Rightarrow>
          (\<exists>s1 r s2. ex t s1 = (r, s2) \<and> env_step\<^sup>*\<^sup>* m1 (mem s1) \<and>
             (er = Some r \<or>
              (\<exists>now \<in> set (ticks_pe env). \<exists>m e. env_step\<^sup>*\<^sup>* m1 m \<and> renewal_refused w t now m e \<and>
                 er = Some (Inl (Wrap (''renew task '' @ Quote (isPrint_pe env) (ID t) @ '' lease: '') e []))))))"

text \<open>
  What one round of a worker may do: claim nothing, or claim one task and then either report
  an error and leave it to its lease, or close it once, under that lease.
\<close>

definition worker_round ::
  "('s \<Rightarrow> MemoryStores) \<Rightarrow> ('s \<Rightarrow> bool) \<Rightarrow> 's Worker \<Rightarrow> process_env \<Rightarrow> 's \<Rightarrow> bool \<times> error option \<Rightarrow> 's \<Rightarrow> bool" where
  "worker_round mem ok w env s r s' \<longleftrightarrow>
     ok s' \<and> stores_wf (mem s') \<and>
     (\<not> fst r \<and> env_step\<^sup>*\<^sup>* (mem s) (mem s') \<or>
      fst r \<and> (\<exists>m t kind ev m1 u. env_step\<^sup>*\<^sup>* (mem s) m \<and> stored_task m (ID t) = Some t \<and>
        may_take (claimAt_pe env) [] kind t \<and> store_step m m1 \<and>
        u = on_lease (id_w w) (claimAt_pe env) (leaseDuration_w w) kind t \<and> m1 = commit (ID t) u ev m \<and>
        (snd r \<noteq> None \<and> env_step\<^sup>*\<^sup>* m1 (mem s') \<or>
         snd r = None \<and> (\<exists>er. answered mem w env u m1 er \<and>
           fenced_commit (ID t) (id_w w) (Version t + 1)
             (\<lambda>t0 t ev. t0 = u \<and> process_outcome w env er t0 t ev) m1 (mem s')))))"

text \<open>Failing, succeeding and partly succeeding are edits of the running task.\<close>

lemma finish_edit:
  assumes "task_wf t0" "Status t0 = TaskStatusRunning" "0 \<le> p" "p \<le> 100"
    "MoveTo (Some (t0\<lparr>Result := res, Progress := p, ErrorMessage := em\<rparr>)) st now = Inr t"
    "newEvent eid t ty msg now = Inr ev"
    "(st, ty) \<in> {(TaskStatusSucceeded, EventTaskSucceeded), (TaskStatusPartial, EventTaskPartial),
       (TaskStatusFailed, EventTaskFailed)}"
  shows "worker_edit t0 t ev \<and> Status t = st \<and> Result t = res \<and> Progress t = p \<and> ErrorMessage t = em \<and>
    FinishedAt t = Some now \<and> Type_ev ev = ty \<and> Message_ev ev = msg"
proof -
  let ?t = "t0\<lparr>Result := res, Progress := p, ErrorMessage := em\<rparr>"
  have w: "task_wf ?t" using assms(1,3,4) by (simp add: task_wf_def)
  have st: "st \<in> terminalStatuses" using assms(7) by auto
  have "task_frame t0 t" using MoveTo_frame [OF assms(5)] by (simp add: task_frame_def)
  with MoveTo_terminal_wf [OF assms(5) w st] MoveTo_Inr [OF assms(5)]
    NewTaskEvent_Inr [OF assms(6) [unfolded newEvent_def]] assms(1,2,7)
  show ?thesis by (auto simp: worker_edit_def event_retries_def)
qed

lemma wrapped_Inl: "wrapped pre f s = (Inl e, s') \<Longrightarrow> \<exists>e'. f s = (Inl e', s')"
  by (auto simp: wrapped_def split: prod.splits sum.splits)

lemma wrapped_Inr: "wrapped pre f s = (Inr x, s') \<Longrightarrow> f s = (Inr x, s')"
  by (auto simp: wrapped_def split: prod.splits sum.splits)

section \<open>Over any stores\<close>

context task_stores
begin

lemma wrapped_commit:
  assumes "ok s" "stores_wf (mem s)" "was_read mem tid t0 s" "LeaseOwner t0 = wid" "Version t0 = v"
    "bind (wrapped p1 (of_result mv)) (\<lambda>t. bind (wrapped p2 (of_result (evr t))) (\<lambda>ev.
       bind (wrapped p3 (UpdateTaskWithEvent_rs S (Some t) (Some ev))) (\<lambda>_.
       effect (metrics_rs S (mc t)) (ret ())))) s = (r, s')"
    "\<forall>t ev. mv = Inr t \<longrightarrow> evr t = Inr ev \<longrightarrow> worker_edit t0 t ev \<and> Q t0 t ev"
  shows "(\<exists>e. r = Inl e) \<and> only_others mem ok s s' \<or>
    r = Inr () \<and> ok s' \<and> stores_wf (mem s') \<and> fenced_commit tid wid v Q (mem s) (mem s')"
proof (cases "\<exists>t ev. mv = Inr t \<and> evr t = Inr ev")
  case False
  then have "(\<exists>e. r = Inl e) \<and> s' = s"
    using assms(6)
    by (cases mv; cases "evr (projr mv)") (auto simp: bind_def wrapped_def of_result_def)
  with only_others_refl [OF assms(1,2)] show ?thesis by auto
next
  case True
  then obtain t ev where te: "mv = Inr t" "evr t = Inr ev" by blast
  with assms(7) have edit: "worker_edit t0 t ev" "Q t0 t ev" by auto
  from te have "wrapped p1 (of_result mv) s = (Inr t, s)" "wrapped p2 (of_result (evr t)) s = (Inr ev, s)"
    by (simp_all add: wrapped_def of_result_def)
  with assms(6) have "bind (wrapped p3 (UpdateTaskWithEvent_rs S (Some t) (Some ev))) (\<lambda>_.
       effect (metrics_rs S (mc t)) (ret ())) s = (r, s')"
    by (simp add: bind_Inr)
  then show ?thesis
  proof (cases rule: bind_cases)
    case (fail e)
    from wrapped_Inl [OF fail(1)] obtain e' where "UpdateTaskWithEvent_rs S (Some t) (Some ev) s = (Inl e', s')" ..
    from Update_spec [OF assms(1-3) edit(1) this assms(4,5), of Q] edit(2) fail(2) show ?thesis by auto
  next
    case (ok u s1)
    from Update_spec [OF assms(1-3) edit(1) wrapped_Inr [OF ok(1)] assms(4,5), of Q] edit(2)
    have "ok s1" "stores_wf (mem s1)" "fenced_commit tid wid v Q (mem s) (mem s1)" by auto
    with ok(2) metrics_law show ?thesis by (simp add: effect_def ret_eq)
  qed
qed

lemma finishFailed_spec:
  assumes s: "ok s" "stores_wf (mem s)" "was_read mem tid t0 s" "task_wf t0" "Status t0 = TaskStatusRunning"
    and p: "0 \<le> p" "p \<le> 100"
    and run: "finishFailed S now eid (t0\<lparr>Result := res, Progress := p, ErrorMessage := em\<rparr>) cause d s = (r, s')"
  shows "(\<exists>e. r = Inl e) \<and> only_others mem ok s s' \<or>
    r = Inr () \<and> ok s' \<and> stores_wf (mem s') \<and>
    fenced_commit tid (LeaseOwner t0) (Version t0) (\<lambda>a t ev. a = t0 \<and> Status t = TaskStatusFailed \<and>
      Result t = res \<and> Progress t = p \<and> ErrorMessage t = error_text cause \<and> FinishedAt t = Some now \<and>
      Type_ev ev = EventTaskFailed) (mem s) (mem s')"
proof -
  let ?Q = "\<lambda>a t ev. a = t0 \<and> Status t = TaskStatusFailed \<and>
      Result t = res \<and> Progress t = p \<and> ErrorMessage t = error_text cause \<and> FinishedAt t = Some now \<and>
      Type_ev ev = EventTaskFailed"
  have "\<forall>t ev. MoveTo (Some (t0\<lparr>Result := res, Progress := p, ErrorMessage := error_text cause\<rparr>))
      TaskStatusFailed now = Inr t \<longrightarrow> newEvent eid t EventTaskFailed ''task failed'' now = Inr ev \<longrightarrow>
      worker_edit t0 t ev \<and> ?Q t0 t ev"
    using finish_edit [OF s(4,5) p, where st = TaskStatusFailed and ty = EventTaskFailed] by blast
  from wrapped_commit [where Q = ?Q, OF s(1-3) refl refl run [unfolded finishFailed_def, simplified] this] show ?thesis .
qed

lemma finishWithResult_spec:
  assumes s: "ok s" "stores_wf (mem s)" "was_read mem tid t0 s" "task_wf t0" "Status t0 = TaskStatusRunning"
    and run: "finishWithResult S env t0 res d s = (r, s')"
  shows "(\<exists>e. r = Inl e) \<and> only_others mem ok s s' \<or>
    r = Inr () \<and> ok s' \<and> stores_wf (mem s') \<and>
    fenced_commit tid (LeaseOwner t0) (Version t0) (\<lambda>a t ev. a = t0 \<and> result_outcome env res t ev) (mem s) (mem s')"
proof (cases "outcome_target (Outcome_er res)")
  case None
  then obtain x where x: "Outcome_er res = OtherOutcome x" by (cases "Outcome_er res") (auto simp: outcome_target_def)
  let ?cause = "ErrNew (''invalid execution outcome '' @ Quote (isPrint_pe env) (outcome_text (Outcome_er res)))"
  from run None have f: "finishFailed S (finishedAt_pe env) (finishEvent_pe env)
      (t0\<lparr>Result := Output_er res, Progress := 100, ErrorMessage := (if Outcome_er res = OutcomeFailed \<and>
        ErrorMessage_er res = [] then ''executor reported failure'' else ErrorMessage_er res)\<rparr>) ?cause 0 s = (r, s')"
    by (simp add: finishWithResult_def with_result_def)
  from finishFailed_spec [OF s _ _ f] x show ?thesis
    by (auto elim!: fenced_commit_mono simp: result_outcome_def closed_as_def outcome_text_def)
next
  case (Some x)
  obtain st ty msg where x: "x = (st, ty, msg)" by (metis prod.exhaust)
  with Some have pair: "(st, ty) \<in> {(TaskStatusSucceeded, EventTaskSucceeded), (TaskStatusPartial, EventTaskPartial),
       (TaskStatusFailed, EventTaskFailed)}"
    by (auto simp: outcome_target_def split: ExecutionOutcome.splits)
  have edit: "\<forall>t ev. MoveTo (Some (with_result res t0)) st (finishedAt_pe env) = Inr t \<longrightarrow>
      newEvent (finishEvent_pe env) t ty msg (finishedAt_pe env) = Inr ev \<longrightarrow>
      worker_edit t0 t ev \<and> t0 = t0 \<and> result_outcome env res t ev"
    using finish_edit [OF s(4,5) _ _ _ _ pair, of 100] Some x
    unfolding with_result_def result_outcome_def closed_as_def
    by (auto simp: outcome_target_def split: ExecutionOutcome.splits)
  from wrapped_commit [where Q = "\<lambda>a t ev. a = t0 \<and> result_outcome env res t ev",
      OF s(1-3) refl refl run [unfolded finishWithResult_def Some x option.case prod.case] edit]
  show ?thesis .
qed

text \<open>A renewal is a step any client may take; it leaves the version of the task.\<close>

lemma RenewLease_spec:
  assumes "ok s" "stores_wf (mem s)"
    "RenewLease_rs S \<lparr>TaskID_rl = ID t, WorkerID_rl = id_w w, Now_rl = now, LeaseDuration_rl = leaseDuration_w w\<rparr> s = (r, s')"
  shows "only_others mem ok s s' \<and> (\<forall>e. r = Inl e \<longrightarrow> renewal_refused w t now (mem s') e)"
proof -
  let ?o = "\<lparr>TaskID_rl = ID t, WorkerID_rl = id_w w, Now_rl = now, LeaseDuration_rl = leaseDuration_w w\<rparr>"
  from RenewLease_law [OF assms] obtain m ctx re ts where m: "ok s'" "env_step\<^sup>*\<^sup>* (mem s) m"
    "RenewLease ctx ?o (taskStore m) = (re, ts)" "mem s' = m\<lparr>taskStore := ts\<rparr>" "r = err_result re" "valid_ctx ctx" by blast
  have "env_step m (mem s')"
    using m(3)
  proof (cases rule: RenewLease_cases)
    case (error e)
    with store_step.renew [OF m(3)] m(4) show ?thesis by (simp add: env_step_def)
  next
    case (renewed t)
    with store_step.renew [OF m(3)] m(4) show ?thesis
      by (auto simp: env_step_def StoreFacts.renewed_def)
  qed
  with m(2) have steps: "env_step\<^sup>*\<^sup>* (mem s) (mem s')" by simp
  have "renewal_refused w t now (mem s') e" if r: "r = Inl e" for e
  proof (cases ctx)
    case None
    from m(3) r m(5) have same: "mem s' = m" using m(4) by (cases rule: RenewLease_cases) simp_all
    from renew_meets [OF m(3) [unfolded None]] m(4,5) r same show ?thesis by (simp add: renewal_refused_def)
  next
    case (Some x)
    with m(3,5,6) r show ?thesis by (auto simp: RenewLease_def valid_ctx_def renewal_refused_def)
  qed
  with m(1) env_steps_wf [OF steps assms(2)] steps show ?thesis by (simp add: only_others_def)
qed

lemma maintainLease_spec:
  assumes "ok s" "stores_wf (mem s)" "maintainLease S w isPrint t ticks s = (r, s')"
  shows "only_others mem ok s s' \<and> (\<forall>x. r = Some x \<longrightarrow> (\<exists>now \<in> set ticks. \<exists>m e. env_step\<^sup>*\<^sup>* (mem s) m \<and>
    renewal_refused w t now m e \<and> x = Wrap (''renew task '' @ Quote isPrint (ID t) @ '' lease: '') e []))"
  using assms
proof (induction ticks arbitrary: s)
  case Nil
  then show ?case by (simp add: only_others_refl)
next
  case (Cons now ticks)
  obtain u s1 where u: "RenewLease_rs S \<lparr>TaskID_rl = ID t, WorkerID_rl = id_w w, Now_rl = now,
      LeaseDuration_rl = leaseDuration_w w\<rparr> s = (u, s1)" by force
  from RenewLease_spec [OF Cons.prems(1,2) u] have o1: "only_others mem ok s s1"
    and ref: "\<And>e. u = Inl e \<Longrightarrow> renewal_refused w t now (mem s1) e" by auto
  then have s1: "ok s1" "stores_wf (mem s1)" "env_step\<^sup>*\<^sup>* (mem s) (mem s1)" by (auto simp: only_others_def)
  show ?case
  proof (cases u)
    case (Inr x)
    let ?s = "metrics_rs S (RecordLeaseRenewed (Workflow t)) s1"
    have s2: "ok ?s" "stores_wf (mem ?s)" "mem ?s = mem s1" using s1 metrics_law by simp_all
    have run: "maintainLease S w isPrint t ticks ?s = (r, s')" using Cons.prems(3) u Inr by simp
    note rest = Cons.IH [OF s2(1,2) run]
    have "only_others mem ok s s'" using only_others_trans [OF only_others_metrics [OF o1]] rest by blast
    moreover have "env_step\<^sup>*\<^sup>* (mem ?s) m \<Longrightarrow> env_step\<^sup>*\<^sup>* (mem s) m" for m using s2(3) s1(3) by simp
    ultimately show ?thesis using rest by (fastforce intro: list.set_intros(2))
  next
    case (Inl e)
    obtain c s2 where c: "ctx_Err_rs S s1 = (c, s2)" by force
    note o2 = only_others_trans [OF o1 ctx_Err_spec [OF s1(1,2) c]]
    with Cons.prems(3) u Inl c only_others_metrics [OF o2] ref [OF Inl] s1(3) show ?thesis by (cases c) auto
  qed
qed

text \<open>Where the outcome of an execution comes from.\<close>

lemma executeWithHeartbeat_spec:
  assumes "ok s" "stores_wf (mem s)" "storeless mem ok ex" "executors_w w (Workflow t) = Some ex"
    and "executeWithHeartbeat S w env t ex s = (r, s')"
  shows "only_others mem ok s s' \<and> answered mem w env t (mem s) (Some r)"
proof -
  obtain h s1 where h: "maintainLease S w (isPrint_pe env) t (ticks_pe env) s = (h, s1)" by force
  obtain r2 s2 where e: "ex t s1 = (r2, s2)" by force
  note m = maintainLease_spec [OF assms(1,2) h]
  with e assms(3) have o2: "only_others mem ok s1 s2" by (auto simp: storeless_def only_others_def)
  have r: "s' = s2" "r = (case h of None \<Rightarrow> r2 | Some x \<Rightarrow> Inl x)"
    using h e assms(5) by (auto simp: executeWithHeartbeat_def split: option.splits)
  have s1: "env_step\<^sup>*\<^sup>* (mem s) (mem s1)" using m by (simp add: only_others_def)
  have "only_others mem ok s s'" using m o2 r(1) only_others_trans by blast
  moreover have "answered mem w env t (mem s) (Some r)"
  proof (cases h)
    case None
    with r(2) e s1 assms(4) show ?thesis by (auto simp: answered_def)
  next
    case (Some x)
    with m obtain now m' e' where "now \<in> set (ticks_pe env)" "env_step\<^sup>*\<^sup>* (mem s) m'" "renewal_refused w t now m' e'"
      "x = Wrap (''renew task '' @ Quote (isPrint_pe env) (ID t) @ '' lease: '') e' []" by blast
    with Some r(2) e s1 assms(4) show ?thesis unfolding answered_def by simp blast
  qed
  ultimately show ?thesis by simp
qed

lemma execution_failed_spec:
  assumes s: "ok s" "stores_wf (mem s)" "was_read mem tid t0 s" "task_wf t0" "Status t0 = TaskStatusRunning"
    and run: "execution_failed S w env t0 e s = (r, s')"
  shows "(\<exists>e. r = Inl e) \<and> only_others mem ok s s' \<or>
    r = Inr () \<and> ok s' \<and> stores_wf (mem s') \<and>
    fenced_commit tid (LeaseOwner t0) (Version t0) (\<lambda>a t ev. a = t0 \<and> error_outcome w env e a t ev) (mem s) (mem s')"
proof -
  let ?P = "\<lambda>a t ev. a = t0 \<and> error_outcome w env e a t ev"
  let ?cause = "case AsExecutionError e of None \<Rightarrow> e | Some ee \<Rightarrow> ErrNew (Code_ee ee)"
  have failed: "(\<exists>e. r = Inl e) \<and> only_others mem ok s s' \<or>
      r = Inr () \<and> ok s' \<and> stores_wf (mem s') \<and>
      fenced_commit tid (LeaseOwner t0) (Version t0) ?P (mem s) (mem s')"
    if f: "finishFailed S (finishedAt_pe env) eid t0 ?cause d s1 = (r, s')" and o1: "only_others mem ok s s1"
      and lost: "\<not> errors_Is e ErrLeaseLost" "\<not> retry_due w e t0" for eid d s1
  proof -
    have s1: "ok s1" "stores_wf (mem s1)" "env_step\<^sup>*\<^sup>* (mem s) (mem s1)" using o1 by (auto simp: only_others_def)
    have f': "finishFailed S (finishedAt_pe env) eid (t0\<lparr>Result := Result t0, Progress := Progress t0,
        ErrorMessage := ErrorMessage t0\<rparr>) ?cause d s1 = (r, s')" using f by simp
    have p: "0 \<le> Progress t0" "Progress t0 \<le> 100" using s(4) by (auto simp: task_wf_def)
    have Q: "fenced_commit tid (LeaseOwner t0) (Version t0) ?P (mem s1) (mem s')"
      if c: "fenced_commit tid (LeaseOwner t0) (Version t0) (\<lambda>a t ev. a = t0 \<and> Status t = TaskStatusFailed \<and>
        Result t = Result t0 \<and> Progress t = Progress t0 \<and> ErrorMessage t = error_text ?cause \<and>
        FinishedAt t = Some (finishedAt_pe env) \<and> Type_ev ev = EventTaskFailed) (mem s1) (mem s')"
      using lost by (intro fenced_commit_mono [OF c]) (auto simp: error_outcome_def closed_as_def split: option.splits)
    from finishFailed_spec [OF s1(1,2) was_read_later [OF s(3) o1] s(4,5) p f'] Q
      only_others_trans [OF o1] fenced_commit_before [OF _ s1(3)] show ?thesis by blast
  qed
  note refl' = only_others_refl [OF s(1,2)]
  show ?thesis
  proof (cases "errors_Is e ErrLeaseLost")
    case True
    with run refl' show ?thesis by (simp add: execution_failed_def raise_eq)
  next
    case lost: False
    show ?thesis
    proof (cases "\<exists>ee policy. AsExecutionError e = Some ee \<and> Retryable (Some ee) \<and>
        retryPolicies_w w (Workflow t0) = Some policy")
      case False
      then have "finishFailed S (finishedAt_pe env) (finishEvent_pe env) t0 ?cause
          (Sub_time (executedAt_pe env) (startedAt_pe env)) s = (r, s')"
        using run lost by (auto simp: execution_failed_def Let_def split: option.splits if_splits)
      moreover have "\<not> retry_due w e t0" using False by (auto simp: retry_due_def Retryable_def ErrorTransient_def)
      ultimately show ?thesis using failed refl' lost by blast
    next
      case True
      then obtain ee policy where ee: "AsExecutionError e = Some ee" "Retryable (Some ee)"
        "retryPolicies_w w (Workflow t0) = Some policy" by blast
      obtain u t1 s1 where u: "Schedule S (jitter_w w) (finishEvent_pe env) (Some t0) (Some ee) policy
          (retryAt_pe env) s = (u, t1, s1)" by (metis prod.exhaust)
      from Schedule_spec [OF s(1-4) u] show ?thesis
      proof (elim disjE exE conjE)
        fix x assume x: "u = Inl x" "only_others mem ok s s1" "budget_error x \<longrightarrow> t1 = Some t0"
        show ?thesis
        proof (cases "budget_error x")
          case False
          with run lost ee u x show ?thesis by (auto simp: execution_failed_def Let_def raise_eq)
        next
          case True
          with run lost ee u x have "finishFailed S (finishedAt_pe env) (finishEvent_pe env) t0 ?cause
             (Sub_time (executedAt_pe env) (startedAt_pe env)) s1 = (r, s')"
            by (auto simp: execution_failed_def Let_def)
          moreover have "\<not> retry_due w e t0"
            using Schedule_budget [OF s(1,2,4) True u [unfolded x(1)]] ee by (auto simp: retry_due_def)
          ultimately show ?thesis using failed x(2) lost by blast
        qed
      next
        assume c: "u = Inr ()" "ok s1" "stores_wf (mem s1)" "retry_commit tid t0 (Code_ee ee) (mem s) (mem s1)"
        have due: "retry_due w e t0"
          using Schedule_due [OF s(4) u [unfolded c(1)]] ee by (auto simp: retry_due_def Retryable_def ErrorTransient_def)
        have "fenced_commit tid (LeaseOwner t0) (Version t0) ?P (mem s) (mem s1)"
          using fenced_commit_mono [OF c(4) [unfolded retry_commit_def], of ?P] ee lost due
          by (auto simp: error_outcome_def)
        with run lost ee u c metrics_law show ?thesis
          by (auto simp: execution_failed_def Let_def effect_def ret_eq)
      qed
    qed
  qed
qed

lemma process_task_spec:
  assumes s: "ok s" "stores_wf (mem s)" "was_read mem tid t0 s" "task_wf t0" "Status t0 = TaskStatusRunning"
    and w: "storeless_worker mem ok w" and run: "process_task S w env t0 s = (r, s')"
  shows "(\<exists>e. r = Inl e) \<and> only_others mem ok s s' \<or>
    r = Inr () \<and> ok s' \<and> stores_wf (mem s') \<and>
    (\<exists>er. answered mem w env t0 (mem s) er \<and>
       fenced_commit tid (LeaseOwner t0) (Version t0) (\<lambda>a t ev. a = t0 \<and> process_outcome w env er a t ev) (mem s) (mem s'))"
proof (cases "executors_w w (Workflow t0)")
  case None
  let ?cause = "ErrNew (''no executor registered for workflow '' @ Quote (isPrint_pe env) (Workflow t0))"
  have f: "finishFailed S (finishedAt_pe env) (finishEvent_pe env) (t0\<lparr>Result := Result t0,
      Progress := Progress t0, ErrorMessage := ErrorMessage t0\<rparr>) ?cause 0 s = (r, s')"
    using run None by (simp add: process_task_def)
  have p: "0 \<le> Progress t0" "Progress t0 \<le> 100" using s(4) by (auto simp: task_wf_def)
  from finishFailed_spec [OF s p f]
  have "(\<exists>e. r = Inl e) \<and> only_others mem ok s s' \<or> r = Inr () \<and> ok s' \<and> stores_wf (mem s') \<and>
      fenced_commit tid (LeaseOwner t0) (Version t0) (\<lambda>a t ev. a = t0 \<and> process_outcome w env None a t ev) (mem s) (mem s')"
    by (auto elim!: fenced_commit_mono simp: process_outcome_def closed_as_def)
  moreover have "answered mem w env t0 (mem s) None" using None by (simp add: answered_def)
  ultimately show ?thesis by blast
next
  case (Some ex)
  obtain er s1 where e: "executeWithHeartbeat S w env t0 ex s = (er, s1)" by force
  have "storeless mem ok ex" using w Some by (auto simp: storeless_worker_def)
  from executeWithHeartbeat_spec [OF s(1,2) this Some e]
  have o1: "only_others mem ok s s1" and a: "answered mem w env t0 (mem s) (Some er)" by auto
  then have s1: "ok s1" "stores_wf (mem s1)" "env_step\<^sup>*\<^sup>* (mem s) (mem s1)" by (auto simp: only_others_def)
  note r1 = was_read_later [OF s(3) o1]
  have "(\<exists>e. r = Inl e) \<and> only_others mem ok s1 s' \<or> r = Inr () \<and> ok s' \<and> stores_wf (mem s') \<and>
      fenced_commit tid (LeaseOwner t0) (Version t0) (\<lambda>a t ev. a = t0 \<and> process_outcome w env (Some er) a t ev) (mem s1) (mem s')"
  proof (cases er)
    case (Inl x)
    with run Some e have "execution_failed S w env t0 x s1 = (r, s')"
      by (simp add: process_task_def attempt_def)
    from execution_failed_spec [OF s1(1,2) r1 s(4,5) this] Inl show ?thesis by (simp add: process_outcome_def)
  next
    case (Inr res)
    with run Some e have "finishWithResult S env t0 res (Sub_time (executedAt_pe env) (startedAt_pe env)) s1 = (r, s')"
      by (simp add: process_task_def attempt_def)
    from finishWithResult_spec [OF s1(1,2) r1 s(4,5) this] Inr show ?thesis by (simp add: process_outcome_def)
  qed
  with a only_others_trans [OF o1] fenced_commit_before [OF _ s1(3)] show ?thesis by blast
qed

lemma ProcessNext_spec:
  assumes s: "ok s" "stores_wf (mem s)" and w: "storeless_worker mem ok w"
    and run: "ProcessNext S w env s = (r, s')"
  shows "worker_round mem ok w env s r s'"
proof -
  let ?o = "claim_options w env"
  let ?s = "metrics_rs S (RecordClaimAttempt ''all'') s"
  have s0: "ok ?s" "stores_wf (mem ?s)" "mem ?s = mem s" using s metrics_law by simp_all
  obtain c s1 where c: "ClaimNextWithEvent_rs S ?o (claimEvent_pe env) ?s = (c, s1)" by force
  from ClaimNextWithEvent_law [OF s0(1,2) c] s0(3) obtain m ctx rng1 rng2 where ok1: "ok s1"
    and rng: "range_order rng1" "range_order rng2" and m: "env_step\<^sup>*\<^sup>* (mem s) m"
      "ClaimNextWithEvent rng1 rng2 ctx ?o (claimEvent_pe env) m = (c, mem s1)" by auto
  note wf = env_steps_wf [OF m(1) s(2)]
  have step: "store_step m (mem s1)" by (rule store_step.claim [OF m(2) rng])
  from m(2) rng wf show ?thesis
  proof (cases rule: ClaimNextWithEvent_cases)
    case (error e)
    with run c m(1) wf ok1 metrics_law show ?thesis
      by (auto simp: ProcessNext_def worker_round_def split: if_splits)
  next
    case (claimed t kind ev)
    let ?t = "StoreFacts.claimed ?o kind t"
    let ?s1 = "metrics_rs S (RecordTaskClaimed (Workflow ?t)) s1"
    note wf1 = store_step_wf [OF step wf]
    note t = claimed_wf [OF stores_wf_lookup(2) [OF wf claimed(2)] claimed(3,4)]
    have lease: "?t = on_lease (id_w w) (claimAt_pe env) (leaseDuration_w w) kind t"
      using claimed_eq [OF stores_wf_lookup(2) [OF wf claimed(2)] claimed(3)] by (simp add: claim_options_def)
    have take: "may_take (claimAt_pe env) [] kind t" using claimed(3) by (simp add: claimable_iff claim_options_def)
    have own: "LeaseOwner ?t = id_w w" using t(7) by (simp add: claim_options_def)
    have s1: "ok ?s1" "stores_wf (mem ?s1)" "mem ?s1 = mem s1" using ok1 wf1 metrics_law by simp_all
    have "stored_task (mem ?s1) (ID t) = Some ?t" using claimed(8) s1(3) by simp
    note read = was_read_now [where mem = mem, OF s1(2) this]
    obtain pr s2 where p: "process_task S w env ?t ?s1 = (pr, s2)" by force
    have r: "r = (True, err_of pr)" "s' = s2" using run c claimed(1) p by (auto simp: ProcessNext_def)
    from process_task_spec [OF s1(1,2) read t(1,4) w p] show ?thesis
    proof (elim disjE exE conjE)
      fix e assume e: "pr = Inl e" "only_others mem ok ?s1 s2"
      with r s1(3) have "ok s'" "stores_wf (mem s')" "env_step\<^sup>*\<^sup>* (mem s1) (mem s')" "snd r \<noteq> None"
        by (auto simp: only_others_def err_of_def)
      with m(1) claimed step r take lease show ?thesis unfolding worker_round_def by auto
    next
      fix er assume e: "pr = Inr ()" "ok s2" "stores_wf (mem s2)" "answered mem w env ?t (mem ?s1) er"
        "fenced_commit (ID t) (LeaseOwner ?t) (Version ?t) (\<lambda>a u ev. a = ?t \<and> process_outcome w env er a u ev) (mem ?s1) (mem s2)"
      then have "fenced_commit (ID t) (id_w w) (Version t + 1) (\<lambda>a u ev. a = ?t \<and> process_outcome w env er a u ev) (mem s1) (mem s')"
        "answered mem w env ?t (mem s1) er"
        using own t(3) s1(3) r by simp_all
      moreover have "snd r = None" "fst r" using e(1) r by (simp_all add: err_of_def)
      ultimately show ?thesis using m(1) claimed step r e take unfolding worker_round_def lease by auto blast
    qed
  qed
qed

text \<open>The reaper fails one task whose lease ran out with no retries left, or nothing.\<close>

lemma ProcessNext_reaper_spec:
  assumes s: "ok s" "stores_wf (mem s)" and run: "ProcessNext_reaper S now eid s = (r, s')"
  shows "ok s' \<and> stores_wf (mem s') \<and> (\<exists>m. env_step\<^sup>*\<^sup>* (mem s) m \<and>
    (\<not> fst r \<and> mem s' = m \<or>
     r = (True, None) \<and> store_step m (mem s') \<and> (\<exists>t ev. stored_task m (ID t) = Some t \<and>
       expired_exhausted now t \<and> mem s' = commit (ID t) (expired_failed now t) ev m)))"
proof -
  obtain c s1 where c: "FailNextExpiredWithEvent_rs S now eid s = (c, s1)" by force
  from FailNextExpiredWithEvent_law [OF s c] obtain m ctx rng where ok1: "ok s1"
    and rng: "range_order rng" and m: "env_step\<^sup>*\<^sup>* (mem s) m"
      "FailNextExpiredWithEvent rng ctx now eid m = (c, mem s1)" by blast
  note wf = env_steps_wf [OF m(1) s(2)]
  have step: "store_step m (mem s1)" by (rule store_step.reap [OF m(2) rng])
  from m(2) rng wf show ?thesis
  proof (cases rule: FailNextExpiredWithEvent_cases)
    case (error e)
    with run c m(1) wf ok1 show ?thesis by (auto simp: ProcessNext_reaper_def split: if_splits)
  next
    case (failed t ev)
    then have "r = (True, None)" "mem s' = mem s1" "ok s'"
      using run c ok1 metrics_law by (auto simp: ProcessNext_reaper_def)
    with failed m(1) step store_step_wf [OF step wf] show ?thesis by metis
  qed
qed

text \<open>
  The loops act on the stores by steps of the store machine only.  A worker stops with an
  error neither when its context is canceled nor when it loses a lease.
\<close>

lemma env_steps_store: "env_step\<^sup>*\<^sup>* m m' \<Longrightarrow> store_step\<^sup>*\<^sup>* m m'"
  by (induction rule: rtranclp_induct) (auto simp: env_step_def intro: rtranclp.rtrancl_into_rtrancl)

lemma fenced_commit_steps: "fenced_commit tid wid v Q m m' \<Longrightarrow> store_step\<^sup>*\<^sup>* m m'"
  unfolding fenced_commit_def fenced_step_def
  by (meson env_steps_store r_into_rtranclp rtranclp_trans)

lemma worker_round_steps: "worker_round mem ok w env s r s' \<Longrightarrow> store_step\<^sup>*\<^sup>* (mem s) (mem s')"
  unfolding worker_round_def
  by (meson env_steps_store fenced_commit_steps r_into_rtranclp rtranclp_trans)

lemma Run_loop_spec:
  assumes "ok s" "stores_wf (mem s)" "storeless_worker mem ok w" "Run_loop S w rounds s = (r, s')"
  shows "ok s' \<and> stores_wf (mem s') \<and> store_step\<^sup>*\<^sup>* (mem s) (mem s') \<and>
    (\<forall>e. r = Some (Some e) \<longrightarrow> \<not> errors_Is e ContextCanceled \<and> \<not> errors_Is e ErrLeaseLost)"
  using assms
proof (induction rounds arbitrary: s)
  case Nil
  then show ?case by simp
next
  case (Cons rd rounds)
  obtain env wt where rd: "rd = (env, wt)" by force
  obtain b e s1 where p: "ProcessNext S w env s = ((b, e), s1)" by (metis prod.exhaust)
  note round = ProcessNext_spec [OF Cons.prems(1-3) p]
  then have s1: "ok s1" "stores_wf (mem s1)" by (auto simp: worker_round_def)
  have here: "ok s1 \<and> stores_wf (mem s1) \<and> store_step\<^sup>*\<^sup>* (mem s) (mem s1)"
    using s1 worker_round_steps [OF round] by simp
  have again: ?case if "Run_loop S w rounds s1 = (r, s')"
    using Cons.IH [OF s1 Cons.prems(3) that] worker_round_steps [OF round] by auto
  show ?case
  proof (cases e)
    case None
    with Cons.prems(4) p rd here again show ?thesis by (cases wt) (auto split: if_splits)
  next
    case (Some x)
    with Cons.prems(4) p rd here again show ?thesis by (auto split: if_splits)
  qed
qed

lemma Run_loop_reaper_spec:
  assumes "ok s" "stores_wf (mem s)" "Run_loop_reaper S rounds s = (r, s')"
  shows "ok s' \<and> stores_wf (mem s') \<and> store_step\<^sup>*\<^sup>* (mem s) (mem s') \<and>
    (\<forall>e. r = Some (Some e) \<longrightarrow> \<not> errors_Is e ContextCanceled)"
  using assms
proof (induction rounds arbitrary: s)
  case Nil
  then show ?case by simp
next
  case (Cons rd rounds)
  obtain now eid wt where rd: "rd = (now, eid, wt)" by (metis prod.exhaust)
  obtain b e s1 where p: "ProcessNext_reaper S now eid s = ((b, e), s1)" by (metis prod.exhaust)
  note round = ProcessNext_reaper_spec [OF Cons.prems(1,2) p]
  then have s1: "ok s1" "stores_wf (mem s1)" by auto
  have here: "store_step\<^sup>*\<^sup>* (mem s) (mem s1)"
    using round by (meson env_steps_store r_into_rtranclp rtranclp_trans)
  have again: ?case if "Run_loop_reaper S rounds s1 = (r, s')"
    using Cons.IH [OF s1 that] here by auto
  show ?case
  proof (cases e)
    case None
    with Cons.prems(3) p rd s1 here again show ?thesis by (cases wt) (auto split: if_splits)
  next
    case (Some x)
    with Cons.prems(3) p rd s1 here show ?thesis by (auto split: if_splits)
  qed
qed

end

end
