(* ===== verification/GoDuration.thy ===== *)
theory GoDuration
  imports JsonValue
begin

text \<open>
  \<open>time.ParseDuration\<close> and \<open>strconv.Atoi\<close>, which read the durations and limits of HTTP
  requests.  The fraction of a duration is computed in doubles, as the library does; \<open>None\<close>
  stands for the double \<open>+Inf\<close>.
\<close>

section \<open>Positive doubles\<close>

fun f64_fraction :: "f64 \<Rightarrow> nat \<times> nat" where
  "f64_fraction (F64 neg m e) = (if 0 \<le> e then (m * 2 ^ nat e, 1) else (m, 2 ^ nat (- e)))"

definition round_pos :: "nat \<Rightarrow> nat \<Rightarrow> f64 option" where
  "round_pos num den = (if num = 0 then Some (F64 False 0 0) else round_f64 False num den)"

definition f64_of_nat :: "nat \<Rightarrow> f64 option" where
  "f64_of_nat n = round_pos n 1"

definition f64_mul :: "f64 option \<Rightarrow> f64 option \<Rightarrow> f64 option" where
  "f64_mul x y =
     (case (x, y) of
        (Some a, Some b) \<Rightarrow>
          (case (f64_fraction a, f64_fraction b) of ((n, d), (n', d')) \<Rightarrow> round_pos (n * n') (d * d'))
      | _ \<Rightarrow> None)"

definition f64_div :: "f64 option \<Rightarrow> f64 option \<Rightarrow> f64 option" where
  "f64_div x y =
     (case (x, y) of
        (Some a, Some b) \<Rightarrow>
          (case (f64_fraction a, f64_fraction b) of ((n, d), (n', d')) \<Rightarrow> round_pos (n * d') (d * n'))
      | (Some a, None) \<Rightarrow> Some (F64 False 0 0)
      | _ \<Rightarrow> None)"

definition f64_trunc :: "f64 option \<Rightarrow> nat" where
  "f64_trunc x = (case x of None \<Rightarrow> 0 | Some a \<Rightarrow> (case f64_fraction a of (n, d) \<Rightarrow> n div d))"

section \<open>Durations\<close>

text \<open>
  \<open>leadingInt\<close> fails when the number exceeds \<open>2 ^ 63\<close>; \<open>leadingFraction\<close> drops the digits that
  would.
\<close>

definition leadingInt :: "string \<Rightarrow> (nat \<times> string) option" where
  "leadingInt s =
     (let v = read_nat (takeWhile is_digit s) in
      if v > 2 ^ 63 then None else Some (v, dropWhile is_digit s))"

fun fraction_digits :: "string \<Rightarrow> bool \<Rightarrow> nat \<Rightarrow> f64 option \<Rightarrow> nat \<times> f64 option" where
  "fraction_digits [] overflow x scale = (x, scale)"
| "fraction_digits (c # cs) overflow x scale =
     (if overflow then fraction_digits cs True x scale
      else if x > (2 ^ 63 - 1) div 10 then fraction_digits cs True x scale
      else
        let y = x * 10 + digit_val c in
        if y > 2 ^ 63 then fraction_digits cs True x scale
        else fraction_digits cs False y (f64_mul scale (f64_of_nat 10)))"

definition leadingFraction :: "string \<Rightarrow> nat \<times> f64 option \<times> string" where
  "leadingFraction s =
     (case fraction_digits (takeWhile is_digit s) False 0 (f64_of_nat 1) of
        (x, scale) \<Rightarrow> (x, scale, dropWhile is_digit s))"

definition duration_unit :: "string \<Rightarrow> nat option" where
  "duration_unit u =
     (if u = ''ns'' then Some 1
      else if u = ''us'' \<or> u = [CHR 0xC2, CHR 0xB5, CHR ''s''] \<or> u = [CHR 0xCE, CHR 0xBC, CHR ''s''] then Some 1000
      else if u = ''ms'' then Some 1000000
      else if u = ''s'' then Some 1000000000
      else if u = ''m'' then Some 60000000000
      else if u = ''h'' then Some 3600000000000
      else None)"

text \<open>One term of a duration: a number, its fraction, its unit.  The rest is shorter.\<close>

definition duration_term :: "string \<Rightarrow> (nat \<times> string) option" where
  "duration_term s =
     (if \<not> (take 1 s = ''.'' \<or> (s \<noteq> [] \<and> is_digit (hd s))) then None
      else (case leadingInt s of
          None \<Rightarrow> None
        | Some (v, s1) \<Rightarrow>
            let pre = (length s1 \<noteq> length s);
                dot = (take 1 s1 = ''.'');
                (f, scale, s2) = (if dot then leadingFraction (drop 1 s1) else (0, f64_of_nat 1, s1));
                post = (dot \<and> length s2 \<noteq> length (drop 1 s1));
                u = takeWhile (\<lambda>c. \<not> (c = CHR ''.'' \<or> is_digit c)) s2;
                s3 = dropWhile (\<lambda>c. \<not> (c = CHR ''.'' \<or> is_digit c)) s2
            in if \<not> pre \<and> \<not> post then None
               else if u = [] then None
               else (case duration_unit u of
                   None \<Rightarrow> None
                 | Some unit \<Rightarrow>
                     if v > 2 ^ 63 div unit then None
                     else
                       let w = v * unit;
                           w' = (if f > 0 then w + f64_trunc (f64_mul (f64_of_nat f) (f64_div (f64_of_nat unit) scale))
                                 else w)
                       in if w' > 2 ^ 63 then None else Some (w', s3))))"

lemma takeWhile_drop_shorter: "takeWhile P x \<noteq> [] \<Longrightarrow> length (dropWhile P x) < length x"
  by (cases x) (auto simp: less_Suc_eq_le length_dropWhile_le split: if_splits)

lemma leadingFraction_rest: "leadingFraction s = (x, scale, r) \<Longrightarrow> length r \<le> length s"
  by (auto simp: leadingFraction_def length_dropWhile_le split: prod.splits)

lemma leadingInt_rest: "leadingInt s = Some (x, r) \<Longrightarrow> length r \<le> length s"
  by (auto simp: leadingInt_def Let_def length_dropWhile_le split: if_splits)

lemma duration_term_shorter:
  assumes d: "duration_term s = Some (v, r)"
  shows "length r < length s"
proof -
  let ?u = "\<lambda>c. \<not> (c = CHR ''.'' \<or> is_digit c)"
  obtain w s1 where i: "leadingInt s = Some (w, s1)"
    using d by (cases "leadingInt s") (auto simp: duration_term_def split: if_splits)
  obtain f sc s2 where f: "(if take 1 s1 = ''.'' then leadingFraction (drop 1 s1) else (0, f64_of_nat 1, s1)) = (f, sc, s2)"
    using prod_cases3 by metis
  have "length s2 \<le> length s1"
    using f leadingFraction_rest [of "drop 1 s1" f sc s2] by (auto split: if_splits)
  moreover have "takeWhile ?u s2 \<noteq> [] \<and> r = dropWhile ?u s2"
    using d unfolding duration_term_def Let_def i option.case prod.case f
    by (auto split: if_splits option.splits)
  ultimately show ?thesis
    using takeWhile_drop_shorter [of ?u s2] leadingInt_rest [OF i] by auto
qed

function duration_terms :: "string \<Rightarrow> nat \<Rightarrow> nat option" where
  "duration_terms s d =
     (if s = [] then Some d
      else (case duration_term s of
          None \<Rightarrow> None
        | Some (v, r) \<Rightarrow> if d + v > 2 ^ 63 then None else duration_terms r (d + v)))"
  by pat_completeness auto
termination
  by (relation "measure (\<lambda>(s, _). length s)") (auto dest: duration_term_shorter)

declare duration_terms.simps [simp del]

definition ParseDuration :: "string \<Rightarrow> duration option" where
  "ParseDuration raw =
     (let neg = (take 1 raw = ''-'');
          s = (if neg \<or> take 1 raw = ''+'' then drop 1 raw else raw)
      in if s = ''0'' then Some 0
         else if s = [] then None
         else (case duration_terms s 0 of
             None \<Rightarrow> None
           | Some d \<Rightarrow>
               if neg then Some (- int d)
               else if d > 2 ^ 63 - 1 then None
               else Some (int d)))"

section \<open>Integers\<close>

text \<open>\<open>strconv.ParseInt(s, 10, 64)\<close>, which is \<open>strconv.Atoi\<close> up to the error.\<close>

definition Atoi :: "string \<Rightarrow> int option" where
  "Atoi s =
     (let neg = (take 1 s = ''-'');
          u = (if neg \<or> take 1 s = ''+'' then drop 1 s else s);
          i = (if neg then - int (read_nat u) else int (read_nat u))
      in if u \<noteq> [] \<and> list_all is_digit u \<and> in_i64 i then Some i else None)"

section \<open>Facts\<close>

text \<open>A parsed duration fits in 64 bits.\<close>

lemma duration_terms_bound: "duration_terms s d = Some n \<Longrightarrow> d \<le> 2 ^ 63 \<Longrightarrow> n \<le> 2 ^ 63"
proof (induction s d rule: duration_terms.induct)
  case (1 s d)
  then show ?case
    by (subst (asm) (2) duration_terms.simps) (auto split: if_splits option.splits)
qed

lemma ParseDuration_bound: "ParseDuration s = Some d \<Longrightarrow> in_i64 d"
proof -
  assume "ParseDuration s = Some d"
  moreover have "n \<le> 2 ^ 63" if "duration_terms u 0 = Some n" for u n
    using duration_terms_bound [OF that] by simp
  ultimately show ?thesis
    by (fastforce simp: ParseDuration_def Let_def in_i64_def split: if_splits option.splits)
qed

text \<open>Whole numbers of one unit are read exactly.\<close>

lemma ParseDuration_whole:
  assumes "duration_unit u = Some k" "n * k < 2 ^ 63" "list_all (\<lambda>c. \<not> (c = CHR ''.'' \<or> is_digit c)) u" "u \<noteq> []"
  shows "ParseDuration (show_nat n @ u) = Some (int (n * k))"
proof -
  have dig: "list_all is_digit (show_nat n)" "show_nat n \<noteq> []"
    using show_nat_digits [of n] show_nat_nonempty [of n] by (auto simp: list_all_iff)
  have hu: "\<not> is_digit (hd u)" "hd u \<noteq> CHR ''.''" using assms(3,4) by (cases u; simp)+
  have tw: "takeWhile is_digit (show_nat n @ u) = show_nat n" "dropWhile is_digit (show_nat n @ u) = u"
    using dig hu assms(4) by (auto simp: takeWhile_append dropWhile_append list_all_iff takeWhile_eq_Nil_iff
        dropWhile_eq_self_iff)
  have tu: "takeWhile (\<lambda>c. \<not> (c = CHR ''.'' \<or> is_digit c)) u = u" "dropWhile (\<lambda>c. \<not> (c = CHR ''.'' \<or> is_digit c)) u = []"
    using assms(3) by (auto simp: list_all_iff takeWhile_eq_all_conv)
  have k: "0 < k" using assms(1) by (auto simp: duration_unit_def split: if_splits)
  have le: "n \<le> 2 ^ 63 div k" using assms(2) k by (simp add: less_eq_div_iff_mult_less_eq)
  have n: "n \<le> 2 ^ 63" using le order_trans div_le_dividend by blast
  have d0: "is_digit (hd (show_nat n @ u))" using dig by (cases "show_nat n") auto
  have li: "leadingInt (show_nat n @ u) = Some (n, u)"
    using tw n by (simp add: leadingInt_def read_show_nat)
  have t1: "take 1 u \<noteq> ''.''" "u \<noteq> show_nat n @ u" using hu assms(4) dig(2) by (cases u; simp)+
  have "duration_term (show_nat n @ u) = Some (n * k, [])"
    using assms(1,2,4) le d0 dig(2) t1
    unfolding duration_term_def li option.case prod.case Let_def if_not_P [OF t1(1)] tu by simp
  then have "duration_terms (show_nat n @ u) 0 = Some (n * k)"
    using assms(2,4) by (simp add: duration_terms.simps [of "show_nat n @ u"] duration_terms.simps [of "[]"])
  moreover have "show_nat n @ u \<noteq> ''0''"
    using assms(4) dig(2) by (cases "show_nat n"; cases u) auto
  moreover have "take 1 (show_nat n @ u) \<noteq> ''-''" "take 1 (show_nat n @ u) \<noteq> ''+''"
    using dig by (cases "show_nat n"; auto simp: is_digit_def byte_in_def)+
  ultimately show ?thesis using assms(2,4) by (simp add: ParseDuration_def)
qed

end
