(* ===== verification/RequestBody.thy ===== *)
theory RequestBody
  imports LeaseToken GoDuration
begin

text \<open>
  Request bodies of \<open>internal/transport/http/handler.go\<close>: \<open>decodeJSON\<close> and the structs it
  fills.  A body is one JSON value of at most \<open>maxRequestBodyBytes\<close> bytes; a member that no
  field takes is an error; a \<open>json.RawMessage\<close> field keeps the text of its member.
\<close>

section \<open>Members with their text\<close>

text \<open>
  \<open>raw_members\<close> reads the rest of a non-empty object as \<open>parse_members\<close> does, and also
  returns the text of each value.
\<close>

fun raw_members :: "nat \<Rightarrow> nat \<Rightarrow> string \<Rightarrow> ((string \<times> json \<times> raw_json) list \<times> string) option" where
  "raw_members 0 d s = None"
| "raw_members (Suc n) d s =
     (if take 1 s = [CHR 0x22] then
        (case parse_str (drop 1 s) of
           None \<Rightarrow> None
         | Some (k, r) \<Rightarrow>
             if take 1 (skip_ws r) = '':'' then
               (let t = skip_ws (drop 1 (skip_ws r)) in
                case parse_value n d t of
                  None \<Rightarrow> None
                | Some (v, q) \<Rightarrow>
                    let m = (k, v, take (length t - length q) t) in
                    if take 1 (skip_ws q) = ''}'' then Some ([m], drop 1 (skip_ws q))
                    else if take 1 (skip_ws q) = '','' then
                      map_option (map_prod (\<lambda>ms. m # ms) id)
                        (raw_members n d (skip_ws (drop 1 (skip_ws q))))
                    else None)
             else None)
      else None)"

definition body_members :: "string \<Rightarrow> (string \<times> json \<times> raw_json) list option" where
  "body_members body =
     (case parse_json body of
        Some JNull \<Rightarrow> Some []
      | Some (JObject []) \<Rightarrow> Some []
      | Some (JObject (kv # kvs)) \<Rightarrow>
          map_option fst (raw_members (2 * length body + 1) (max_nesting - 1) (skip_ws (drop 1 (skip_ws body))))
      | _ \<Rightarrow> None)"

lemma raw_members_parse:
  "parse_members n d s = map_option (map_prod (map (\<lambda>(k, v, raw). (k, v))) id) (raw_members n d s)"
proof (induction n d s rule: raw_members.induct)
  case (2 n d s)
  then show ?case
    by (auto simp: Let_def option.map_comp map_prod_def comp_def split: option.splits prod.splits
        intro!: option.map_cong)
qed simp

text \<open>The members with their text are the members of the parsed object.\<close>

lemma body_members_object:
  assumes "parse_json body = Some (JObject kvs)"
  shows "\<exists>ms. body_members body = Some ms \<and> map (\<lambda>(k, v, raw). (k, v)) ms = kvs"
proof (cases kvs)
  case Nil
  with assms show ?thesis by (simp add: body_members_def)
next
  case (Cons kv kvs')
  from assms obtain r where p: "parse_value (2 * length body + 2) max_nesting (skip_ws body) = Some (JObject kvs, r)"
    by (auto simp: parse_json_def split: option.splits if_splits)
  then obtain q where "parse_members (2 * length body + 1) (max_nesting - 1) (skip_ws (drop 1 (skip_ws body))) = Some (kvs, q)"
    using Cons by (cases "skip_ws body") (auto split: if_splits simp: numeral_2_eq_2)
  with assms Cons show ?thesis
    by (auto simp: raw_members_parse body_members_def simp del: raw_members.simps)
qed

text \<open>In a printed object the text of each value is the printed value.\<close>

lemma raw_members_print:
  "kvs \<noteq> [] \<Longrightarrow> list_all (\<lambda>(k, v). valid_utf8 k \<and> json_ok v) kvs \<Longrightarrow>
   foldr (\<lambda>(k, v). max (jdepth v)) kvs 0 \<le> d \<Longrightarrow> sum_list (map (\<lambda>(k, v). Suc (jfuel v)) kvs) \<le> n \<Longrightarrow>
   raw_members n d
     (join '','' (map (\<lambda>(k, v). json_quote k @ '':'' @ json_print v) kvs) @ CHR ''}'' # t) =
   Some (map (\<lambda>(k, v). (k, v, json_print v)) kvs, t)"
proof (induction kvs arbitrary: n)
  case (Cons kv kvs)
  obtain k v where kv: "kv = (k, v)" by fastforce
  from Cons.prems obtain m where n: "n = Suc m"
    and m: "jfuel v \<le> m" "sum_list (map (\<lambda>(k, v). Suc (jfuel v)) kvs) \<le> m"
    by (cases n) (auto simp: kv)
  from Cons.prems have v: "reads_back v" "jdepth v \<le> d" "json_ok v" "valid_utf8 k"
    by (auto simp: kv intro: reads_back_print)
  show ?case
  proof (cases kvs)
    case Nil
    with n m v show ?thesis by (simp add: reads_back_def kv json_quote_def parse_str_quote_body)
  next
    case (Cons w ws)
    with Cons.IH [of m] Cons.prems m
    have "raw_members m d
       (join '','' (map (\<lambda>(k, v). json_quote k @ '':'' @ json_print v) kvs) @ CHR ''}'' # t) =
       Some (map (\<lambda>(k, v). (k, v, json_print v)) kvs, t)"
      by (simp add: kv)
    moreover have "skip_ws (join '','' (map (\<lambda>(k, v). json_quote k @ '':'' @ json_print v) kvs) @ u) =
       join '','' (map (\<lambda>(k, v). json_quote k @ '':'' @ json_print v) kvs) @ u" for u
      by (cases ws; cases w) (simp_all add: Cons)
    ultimately show ?thesis
      using n m v Cons by (simp add: reads_back_def kv json_quote_def parse_str_quote_body)
  qed
qed simp

lemma body_members_print:
  assumes "json_ok (JObject kvs)" "jdepth (JObject kvs) \<le> max_nesting"
  shows "body_members (json_print (JObject kvs)) = Some (map (\<lambda>(k, v). (k, v, json_print v)) kvs)"
proof (cases kvs)
  case Nil
  then show ?thesis using parse_json_print [OF assms] by (simp add: body_members_def)
next
  case (Cons kv kvs')
  let ?b = "join '','' (map (\<lambda>(k, v). json_quote k @ '':'' @ json_print v) kvs) @ ''}''"
  have ws: "skip_ws ?b = ?b" by (cases kvs'; cases kv) (simp_all add: Cons)
  have "raw_members (2 * length (json_print (JObject kvs)) + 1) (max_nesting - 1) ?b =
      Some (map (\<lambda>(k, v). (k, v, json_print v)) kvs, [])"
  proof (rule raw_members_print)
    show "sum_list (map (\<lambda>(k, v). Suc (jfuel v)) kvs) \<le> 2 * length (json_print (JObject kvs)) + 1"
      using jfuel_le [OF assms(1)] by simp
  qed (use assms Cons in auto)
  with parse_json_print [OF assms] Cons ws show ?thesis
    by (simp add: body_members_def del: raw_members.simps)
qed

section \<open>The decoder\<close>

definition maxRequestBodyBytes :: nat where
  "maxRequestBodyBytes = 2 ^ 20"

text \<open>
  \<open>field\<close> stores one member in its struct field, \<open>None\<close> if the struct has no such field or the
  value is of another type.
\<close>

fun decode_members ::
  "(string \<times> json \<times> raw_json \<Rightarrow> 'r \<Rightarrow> 'r option) \<Rightarrow> (string \<times> json \<times> raw_json) list \<Rightarrow> 'r \<Rightarrow> 'r option" where
  "decode_members field [] r = Some r"
| "decode_members field (m # ms) r =
     (case field m r of None \<Rightarrow> None | Some r1 \<Rightarrow> decode_members field ms r1)"

definition decodeJSON :: "(string \<times> json \<times> raw_json \<Rightarrow> 'r \<Rightarrow> 'r option) \<Rightarrow> 'r \<Rightarrow> string \<Rightarrow> 'r option" where
  "decodeJSON field destination body =
     (if length body > maxRequestBodyBytes then None
      else (case body_members body of
          None \<Rightarrow> None
        | Some ms \<Rightarrow> decode_members field ms destination))"

definition int_field :: "json \<Rightarrow> int \<Rightarrow> int option" where
  "int_field v old = (case v of JNull \<Rightarrow> Some old | JNumber l \<Rightarrow> Atoi l | _ \<Rightarrow> None)"

definition bool_field :: "json \<Rightarrow> bool \<Rightarrow> bool option" where
  "bool_field v old = (case v of JNull \<Rightarrow> Some old | JBool b \<Rightarrow> Some b | _ \<Rightarrow> None)"

section \<open>The structs\<close>

record createTaskRequest =
  Workflow_cq :: string
  Input_cq :: raw_json
  MaxRetries_cq :: int

definition create_field :: "string \<times> json \<times> raw_json \<Rightarrow> createTaskRequest \<Rightarrow> createTaskRequest option" where
  "create_field m r =
     (case m of (k, v, raw) \<Rightarrow>
        if field_match ''workflow'' k then map_option (\<lambda>x. r\<lparr>Workflow_cq := x\<rparr>) (string_field v (Workflow_cq r))
        else if field_match ''input'' k then Some (r\<lparr>Input_cq := raw\<rparr>)
        else if field_match ''max_retries'' k then map_option (\<lambda>x. r\<lparr>MaxRetries_cq := x\<rparr>) (int_field v (MaxRetries_cq r))
        else None)"

definition decode_create :: "string \<Rightarrow> createTaskRequest option" where
  "decode_create = decodeJSON create_field \<lparr>Workflow_cq = [], Input_cq = [], MaxRetries_cq = 0\<rparr>"

record workerClaimRequest =
  WorkerID_wc :: string
  Workflow_wc :: string
  LeaseDuration_wc :: string

definition claim_field :: "string \<times> json \<times> raw_json \<Rightarrow> workerClaimRequest \<Rightarrow> workerClaimRequest option" where
  "claim_field m r =
     (case m of (k, v, raw) \<Rightarrow>
        if field_match ''worker_id'' k then map_option (\<lambda>x. r\<lparr>WorkerID_wc := x\<rparr>) (string_field v (WorkerID_wc r))
        else if field_match ''workflow'' k then map_option (\<lambda>x. r\<lparr>Workflow_wc := x\<rparr>) (string_field v (Workflow_wc r))
        else if field_match ''lease_duration'' k then
          map_option (\<lambda>x. r\<lparr>LeaseDuration_wc := x\<rparr>) (string_field v (LeaseDuration_wc r))
        else None)"

definition decode_claim :: "string \<Rightarrow> workerClaimRequest option" where
  "decode_claim = decodeJSON claim_field \<lparr>WorkerID_wc = [], Workflow_wc = [], LeaseDuration_wc = []\<rparr>"

record workerHeartbeatRequest =
  WorkerID_wh :: string
  LeaseToken_wh :: string
  LeaseDuration_wh :: string

definition heartbeat_field ::
  "string \<times> json \<times> raw_json \<Rightarrow> workerHeartbeatRequest \<Rightarrow> workerHeartbeatRequest option" where
  "heartbeat_field m r =
     (case m of (k, v, raw) \<Rightarrow>
        if field_match ''worker_id'' k then map_option (\<lambda>x. r\<lparr>WorkerID_wh := x\<rparr>) (string_field v (WorkerID_wh r))
        else if field_match ''lease_token'' k then
          map_option (\<lambda>x. r\<lparr>LeaseToken_wh := x\<rparr>) (string_field v (LeaseToken_wh r))
        else if field_match ''lease_duration'' k then
          map_option (\<lambda>x. r\<lparr>LeaseDuration_wh := x\<rparr>) (string_field v (LeaseDuration_wh r))
        else None)"

definition decode_heartbeat :: "string \<Rightarrow> workerHeartbeatRequest option" where
  "decode_heartbeat = decodeJSON heartbeat_field \<lparr>WorkerID_wh = [], LeaseToken_wh = [], LeaseDuration_wh = []\<rparr>"

record workerCompleteRequest =
  WorkerID_wd :: string
  LeaseToken_wd :: string
  Version_wd :: uint64
  Output_wd :: raw_json
  ResultRef_wd :: raw_json

definition complete_field ::
  "string \<times> json \<times> raw_json \<Rightarrow> workerCompleteRequest \<Rightarrow> workerCompleteRequest option" where
  "complete_field m r =
     (case m of (k, v, raw) \<Rightarrow>
        if field_match ''worker_id'' k then map_option (\<lambda>x. r\<lparr>WorkerID_wd := x\<rparr>) (string_field v (WorkerID_wd r))
        else if field_match ''lease_token'' k then
          map_option (\<lambda>x. r\<lparr>LeaseToken_wd := x\<rparr>) (string_field v (LeaseToken_wd r))
        else if field_match ''version'' k then map_option (\<lambda>x. r\<lparr>Version_wd := x\<rparr>) (uint64_field v (Version_wd r))
        else if field_match ''output'' k then Some (r\<lparr>Output_wd := raw\<rparr>)
        else if field_match ''result_ref'' k then Some (r\<lparr>ResultRef_wd := raw\<rparr>)
        else None)"

definition decode_complete :: "string \<Rightarrow> workerCompleteRequest option" where
  "decode_complete =
     decodeJSON complete_field \<lparr>WorkerID_wd = [], LeaseToken_wd = [], Version_wd = 0, Output_wd = [], ResultRef_wd = []\<rparr>"

record workerProgressRequest =
  WorkerID_wp :: string
  LeaseToken_wp :: string
  Version_wp :: uint64
  Progress_wp :: int
  Message_wp :: string

definition progress_field ::
  "string \<times> json \<times> raw_json \<Rightarrow> workerProgressRequest \<Rightarrow> workerProgressRequest option" where
  "progress_field m r =
     (case m of (k, v, raw) \<Rightarrow>
        if field_match ''worker_id'' k then map_option (\<lambda>x. r\<lparr>WorkerID_wp := x\<rparr>) (string_field v (WorkerID_wp r))
        else if field_match ''lease_token'' k then
          map_option (\<lambda>x. r\<lparr>LeaseToken_wp := x\<rparr>) (string_field v (LeaseToken_wp r))
        else if field_match ''version'' k then map_option (\<lambda>x. r\<lparr>Version_wp := x\<rparr>) (uint64_field v (Version_wp r))
        else if field_match ''progress'' k then map_option (\<lambda>x. r\<lparr>Progress_wp := x\<rparr>) (int_field v (Progress_wp r))
        else if field_match ''message'' k then map_option (\<lambda>x. r\<lparr>Message_wp := x\<rparr>) (string_field v (Message_wp r))
        else None)"

definition decode_progress :: "string \<Rightarrow> workerProgressRequest option" where
  "decode_progress =
     decodeJSON progress_field \<lparr>WorkerID_wp = [], LeaseToken_wp = [], Version_wp = 0, Progress_wp = 0, Message_wp = []\<rparr>"

record workerFailRequest =
  WorkerID_wf :: string
  LeaseToken_wf :: string
  Version_wf :: uint64
  ErrorCode_wf :: string
  ErrorMessage_wf :: string
  Retryable_wf :: bool
  RetryAfter_wf :: string

definition fail_field :: "string \<times> json \<times> raw_json \<Rightarrow> workerFailRequest \<Rightarrow> workerFailRequest option" where
  "fail_field m r =
     (case m of (k, v, raw) \<Rightarrow>
        if field_match ''worker_id'' k then map_option (\<lambda>x. r\<lparr>WorkerID_wf := x\<rparr>) (string_field v (WorkerID_wf r))
        else if field_match ''lease_token'' k then
          map_option (\<lambda>x. r\<lparr>LeaseToken_wf := x\<rparr>) (string_field v (LeaseToken_wf r))
        else if field_match ''version'' k then map_option (\<lambda>x. r\<lparr>Version_wf := x\<rparr>) (uint64_field v (Version_wf r))
        else if field_match ''error_code'' k then
          map_option (\<lambda>x. r\<lparr>ErrorCode_wf := x\<rparr>) (string_field v (ErrorCode_wf r))
        else if field_match ''error_message'' k then
          map_option (\<lambda>x. r\<lparr>ErrorMessage_wf := x\<rparr>) (string_field v (ErrorMessage_wf r))
        else if field_match ''retryable'' k then
          map_option (\<lambda>x. r\<lparr>Retryable_wf := x\<rparr>) (bool_field v (Retryable_wf r))
        else if field_match ''retry_after'' k then
          map_option (\<lambda>x. r\<lparr>RetryAfter_wf := x\<rparr>) (string_field v (RetryAfter_wf r))
        else None)"

definition decode_fail :: "string \<Rightarrow> workerFailRequest option" where
  "decode_fail =
     decodeJSON fail_field \<lparr>WorkerID_wf = [], LeaseToken_wf = [], Version_wf = 0, ErrorCode_wf = [],
       ErrorMessage_wf = [], Retryable_wf = False, RetryAfter_wf = []\<rparr>"

record workerReleaseRequest =
  WorkerID_wr :: string
  LeaseToken_wr :: string
  Version_wr :: uint64

definition release_field ::
  "string \<times> json \<times> raw_json \<Rightarrow> workerReleaseRequest \<Rightarrow> workerReleaseRequest option" where
  "release_field m r =
     (case m of (k, v, raw) \<Rightarrow>
        if field_match ''worker_id'' k then map_option (\<lambda>x. r\<lparr>WorkerID_wr := x\<rparr>) (string_field v (WorkerID_wr r))
        else if field_match ''lease_token'' k then
          map_option (\<lambda>x. r\<lparr>LeaseToken_wr := x\<rparr>) (string_field v (LeaseToken_wr r))
        else if field_match ''version'' k then map_option (\<lambda>x. r\<lparr>Version_wr := x\<rparr>) (uint64_field v (Version_wr r))
        else None)"

definition decode_release :: "string \<Rightarrow> workerReleaseRequest option" where
  "decode_release = decodeJSON release_field \<lparr>WorkerID_wr = [], LeaseToken_wr = [], Version_wr = 0\<rparr>"

section \<open>Facts\<close>

text \<open>The integers of a decoded body fit in 64 bits.\<close>

lemma Atoi_bound: "Atoi s = Some i \<Longrightarrow> in_i64 i"
  by (auto simp: Atoi_def Let_def split: if_splits)

text \<open>A printed integer is read back.\<close>

lemma Atoi_show: "in_i64 i \<Longrightarrow> Atoi (show_int i) = Some i"
proof -
  assume i: "in_i64 i"
  have d: "list_all is_digit (show_nat n)" for n using show_nat_digits [of n] by (simp add: list_all_iff)
  have h: "take 1 (show_nat n) \<noteq> ''-''" "take 1 (show_nat n) \<noteq> ''+''" for n
    using d [of n] by (cases "show_nat n"; auto simp: is_digit_def)+
  show ?thesis
    using i d h by (simp add: Atoi_def show_int_def read_show_nat Let_def)
qed

lemma decode_members_inv:
  "decode_members field ms r = Some r' \<Longrightarrow> P r \<Longrightarrow> (\<And>m r r'. field m r = Some r' \<Longrightarrow> P r \<Longrightarrow> P r') \<Longrightarrow> P r'"
  by (induction ms arbitrary: r) (auto split: option.splits)

lemma decodeJSON_inv:
  assumes "decodeJSON field z body = Some r" "P z" "\<And>m r r'. field m r = Some r' \<Longrightarrow> P r \<Longrightarrow> P r'"
  shows "P r"
proof -
  obtain ms where "decode_members field ms z = Some r"
    using assms(1) by (auto simp: decodeJSON_def split: if_splits option.splits)
  then show ?thesis using assms(2,3) by (rule decode_members_inv)
qed

lemma decode_create_bound: "decode_create body = Some r \<Longrightarrow> in_i64 (MaxRetries_cq r)"
  unfolding decode_create_def
  by (erule decodeJSON_inv)
    (auto simp: in_i64_def create_field_def int_field_def dest!: Atoi_bound split: if_splits json.splits)

end
