(* ===== verification/Http.thy ===== *)
theory Http
  imports RequestBody TaskService
begin

text \<open>
  The HTTP transport, \<open>internal/transport/http\<close>: the handlers, the mapping of errors to
  statuses and the routes.  A request is what a handler reads of \<open>http.Request\<close>: its method,
  the segments of its cleaned path, two headers, the parameters of its query and its body.  A
  response is its status and the value that is encoded as its body.
\<close>

section \<open>Requests and responses\<close>

record http_request =
  Method_rq :: string
  Path_rq :: "string list"
  Authorization_rq :: string
  IdempotencyKey_rq :: string
  Query_rq :: "string \<Rightarrow> string"
  Body_rq :: string

datatype http_body =
    TaskBody "Task option"
  | DetailBody TaskDetailResult
  | ListBody ListTasksResult
  | StatsBody TaskStatsResult
  | EventsBody "TaskEvent list"
  | ErrorBody string
  | PageBody string
  | NoBody

record http_response =
  Status_rs :: nat
  Body_rs :: http_body

text \<open>
  What a handler takes from its surroundings while it runs: readings of the clock, in the
  order in which it takes them, and generated ids.
\<close>

record http_env =
  now1_he :: time
  now2_he :: time
  retryNow_he :: time
  taskID_he :: string
  eventID_he :: string
  retryEventID_he :: string
  jitter_he :: "int \<Rightarrow> int"

record 's TaskService =
  stores_ts :: "'s runtimeStores"
  query_ts :: "'s taskQueryStore"
  stats_ts :: "'s taskStatsStore"
  lenient_ts :: "string \<Rightarrow> time option"

record 's WorkerTaskService =
  stores_ws :: "'s runtimeStores"
  scheduler_ws :: "http_env \<Rightarrow> 's retryScheduler"

record 's Handler =
  taskService_h :: "'s TaskService"
  workerTaskService_h :: "'s WorkerTaskService option"
  claimMetrics_h :: "(metric_call \<Rightarrow> 's \<Rightarrow> 's) option"
  workerAuthToken_h :: string

definition NewHandler :: "'s TaskService \<Rightarrow> 's Handler" where
  "NewHandler ts = \<lparr>taskService_h = ts, workerTaskService_h = None, claimMetrics_h = None, workerAuthToken_h = []\<rparr>"

definition NewHandlerWithWorker :: "'s TaskService \<Rightarrow> 's WorkerTaskService option \<Rightarrow> 's Handler" where
  "NewHandlerWithWorker ts ws =
     \<lparr>taskService_h = ts, workerTaskService_h = ws, claimMetrics_h = None, workerAuthToken_h = []\<rparr>"

definition WithClaimMetrics :: "(metric_call \<Rightarrow> 's \<Rightarrow> 's) option \<Rightarrow> 's Handler \<Rightarrow> 's Handler" where
  "WithClaimMetrics metrics h = h\<lparr>claimMetrics_h := metrics\<rparr>"

definition WithWorkerAuthToken :: "string \<Rightarrow> 's Handler \<Rightarrow> 's Handler" where
  "WithWorkerAuthToken token h = h\<lparr>workerAuthToken_h := TrimSpace token\<rparr>"

type_synonym 's handler = "'s \<Rightarrow> http_response \<times> 's"

section \<open>Writing responses\<close>

definition writeJSON :: "nat \<Rightarrow> http_body \<Rightarrow> http_response" where
  "writeJSON status value = \<lparr>Status_rs = status, Body_rs = value\<rparr>"

definition writeError :: "nat \<Rightarrow> string \<Rightarrow> http_response" where
  "writeError status message = writeJSON status (ErrorBody message)"

definition writeApplicationError :: "error \<Rightarrow> http_response" where
  "writeApplicationError err =
     (if errors_Is err ErrInvalidInput then writeError 400 (error_text err)
      else if errors_Is err ErrInvalidWorkerRequest then writeError 400 (error_text err)
      else if errors_Is err ErrTaskNotFound then writeError 404 (error_text err)
      else if errors_Is err ErrTaskAlreadyExists then writeError 409 (error_text err)
      else if errors_Is err ErrIdempotencyConflict then writeError 409 (error_text err)
      else if errors_Is err ErrTaskNotCancelable then writeError 409 (error_text err)
      else if errors_Is err ErrLeaseLost \<or> errors_Is err ErrTaskConflict then writeError 409 (error_text err)
      else writeError 500 ''internal server error'')"

definition invalid_body :: http_response where
  "invalid_body = writeError 400 ''invalid request body''"

text \<open>The end of most handlers: the error of the service, or its value.\<close>

definition respond :: "('s, 'a) op \<Rightarrow> ('a \<Rightarrow> http_response) \<Rightarrow> 's handler" where
  "respond f k s =
     (case f s of (Inl e, s1) \<Rightarrow> (writeApplicationError e, s1) | (Inr x, s1) \<Rightarrow> (k x, s1))"

section \<open>Handlers for clients\<close>

text \<open>
  The argument \<open>taskID\<close> is \<open>r.PathValue("task_id")\<close>, the segment that the wildcard of the
  route matched.
\<close>

definition CreateTask_http :: "'s Handler \<Rightarrow> http_env \<Rightarrow> http_request \<Rightarrow> 's handler" where
  "CreateTask_http h env r s =
     (case decode_create (Body_rq r) of
        None \<Rightarrow> (invalid_body, s)
      | Some q \<Rightarrow>
          respond (CreateTask (stores_ts (taskService_h h)) (now1_he env) (taskID_he env) (eventID_he env)
            \<lparr>IdempotencyKey_in = IdempotencyKey_rq r, Workflow_in = Workflow_cq q, Input_in = Input_cq q,
             MaxRetries_in = MaxRetries_cq q\<rparr>)
            (\<lambda>result. writeJSON (if Created_cr result then 201 else 200) (TaskBody (Task_cr result))) s)"

definition GetTask_http :: "'s Handler \<Rightarrow> http_env \<Rightarrow> string \<Rightarrow> 's handler" where
  "GetTask_http h env taskID =
     respond (GetTaskDetail (stores_ts (taskService_h h)) (lenient_ts (taskService_h h)) (now1_he env) taskID)
       (\<lambda>task. writeJSON 200 (DetailBody task))"

definition ListTasks_http :: "'s Handler \<Rightarrow> http_request \<Rightarrow> 's handler" where
  "ListTasks_http h r s =
     (case (if Query_rq r ''limit'' = [] then Some 50 else Atoi (Query_rq r ''limit'')) of
        None \<Rightarrow> (writeError 400 ''invalid limit'', s)
      | Some limit \<Rightarrow>
          respond (ListTasks_svc (query_ts (taskService_h h)) (lenient_ts (taskService_h h))
            \<lparr>Workflow_ti = Query_rq r ''workflow'', Status_ti = status_of_text (Query_rq r ''status''),
             Cursor_ti = Query_rq r ''cursor'', Limit_ti = limit\<rparr>)
            (\<lambda>result. writeJSON 200 (ListBody result)) s)"

definition GetTaskStats_http :: "'s Handler \<Rightarrow> http_env \<Rightarrow> http_request \<Rightarrow> 's handler" where
  "GetTaskStats_http h env r =
     respond (GetTaskStats (stats_ts (taskService_h h)) (now1_he env)
       \<lparr>Workflow_si = Query_rq r ''workflow'', Status_si = status_of_text (Query_rq r ''status'')\<rparr>)
       (\<lambda>result. writeJSON 200 (StatsBody result))"

definition CancelTask_http :: "'s Handler \<Rightarrow> http_env \<Rightarrow> string \<Rightarrow> 's handler" where
  "CancelTask_http h env taskID =
     respond
       (bind (CancelTask (stores_ts (taskService_h h)) (eventID_he env) (now1_he env) taskID) (\<lambda>_.
          GetTaskDetail (stores_ts (taskService_h h)) (lenient_ts (taskService_h h)) (now2_he env) taskID))
       (\<lambda>detail. writeJSON 200 (DetailBody detail))"

definition ListTaskEvents_http :: "'s Handler \<Rightarrow> string \<Rightarrow> 's handler" where
  "ListTaskEvents_http h taskID =
     respond (ListTaskEvents (stores_ts (taskService_h h)) taskID) (\<lambda>events. writeJSON 200 (EventsBody events))"

section \<open>Handlers for workers\<close>

definition authorizeWorker :: "'s Handler \<Rightarrow> http_request \<Rightarrow> http_response option" where
  "authorizeWorker h r =
     (if workerAuthToken_h h = [] then None
      else if \<not> prefix ''Bearer '' (Authorization_rq r)
        then Some (writeError 401 ''worker authentication is required'')
      else if drop (length ''Bearer '') (Authorization_rq r) \<noteq> workerAuthToken_h h
        then Some (writeError 401 ''worker authentication is required'')
      else None)"

text \<open>
  The three steps that every handler of the worker protocol begins with: there is a worker
  service, the caller is authorized, the body can be decoded.
\<close>

definition worker_request ::
  "'s Handler \<Rightarrow> http_request \<Rightarrow> (string \<Rightarrow> 'q option) \<Rightarrow> ('s WorkerTaskService \<Rightarrow> 'q \<Rightarrow> 's handler) \<Rightarrow> 's handler" where
  "worker_request h r decode k s =
     (case workerTaskService_h h of
        None \<Rightarrow> (writeError 404 ''worker protocol is not configured'', s)
      | Some ws \<Rightarrow>
          (case authorizeWorker h r of
             Some resp \<Rightarrow> (resp, s)
           | None \<Rightarrow>
               (case decode (Body_rq r) of None \<Rightarrow> (invalid_body, s) | Some q \<Rightarrow> k ws q s)))"

definition parseOptionalDuration :: "string \<Rightarrow> duration result" where
  "parseOptionalDuration raw =
     (if raw = [] then Inr 0
      else (case ParseDuration raw of
          Some d \<Rightarrow> if d < 0
            then Inl (Wrap [] ErrInvalidWorkerRequest '': retry_after must be a non-negative duration'') else Inr d
        | None \<Rightarrow> Inl (Wrap [] ErrInvalidWorkerRequest '': retry_after must be a non-negative duration'')))"

definition parseLeaseDuration :: "string \<Rightarrow> duration result" where
  "parseLeaseDuration raw =
     (if raw = [] then Inl (Wrap [] ErrInvalidWorkerRequest '': lease_duration is required'')
      else (case ParseDuration raw of
          Some d \<Rightarrow> if d \<le> 0
            then Inl (Wrap [] ErrInvalidWorkerRequest '': lease_duration must be a positive duration'') else Inr d
        | None \<Rightarrow> Inl (Wrap [] ErrInvalidWorkerRequest '': lease_duration must be a positive duration'')))"

definition claim_metric :: "'s Handler \<Rightarrow> metric_call \<Rightarrow> 's \<Rightarrow> 's" where
  "claim_metric h c s = (case claimMetrics_h h of None \<Rightarrow> s | Some record \<Rightarrow> record c s)"

definition ClaimWorkerTask :: "'s Handler \<Rightarrow> http_env \<Rightarrow> http_request \<Rightarrow> 's handler" where
  "ClaimWorkerTask h env r =
     worker_request h r decode_claim (\<lambda>ws q s.
       case parseLeaseDuration (LeaseDuration_wc q) of
         Inl e \<Rightarrow> (writeApplicationError e, s)
       | Inr leaseDuration \<Rightarrow>
           (case ClaimTask (stores_ws ws) (now1_he env) (eventID_he env)
               \<lparr>WorkerID_ci = WorkerID_wc q, Workflow_ci = Workflow_wc q, LeaseDuration_ci = leaseDuration\<rparr>
               (claim_metric h (RecordClaimAttempt (Workflow_wc q)) s) of
              (Inl e, s1) \<Rightarrow>
                if errors_Is e ErrNoTaskAvailable
                then (\<lparr>Status_rs = 204, Body_rs = NoBody\<rparr>, claim_metric h (RecordClaimMiss (Workflow_wc q)) s1)
                else (writeApplicationError e, s1)
            | (Inr task, s1) \<Rightarrow> (writeJSON 200 (TaskBody (Some task)), s1)))"

definition HeartbeatWorkerTask :: "'s Handler \<Rightarrow> http_env \<Rightarrow> http_request \<Rightarrow> string \<Rightarrow> 's handler" where
  "HeartbeatWorkerTask h env r taskID =
     worker_request h r decode_heartbeat (\<lambda>ws q.
       respond (bind (of_result (parseLeaseDuration (LeaseDuration_wh q))) (\<lambda>leaseDuration.
           HeartbeatTask (stores_ws ws) (now1_he env)
             \<lparr>TaskID_hi = taskID, WorkerID_hi = WorkerID_wh q, LeaseToken_hi = LeaseToken_wh q,
              LeaseDuration_hi = leaseDuration\<rparr>))
         (\<lambda>task. writeJSON 200 (TaskBody (Some task))))"

definition CompleteWorkerTask :: "'s Handler \<Rightarrow> http_env \<Rightarrow> http_request \<Rightarrow> string \<Rightarrow> 's handler" where
  "CompleteWorkerTask h env r taskID =
     worker_request h r decode_complete (\<lambda>ws q.
       respond (CompleteTask (stores_ws ws) (now1_he env) (now2_he env) (eventID_he env)
           \<lparr>TaskID_cm = taskID, WorkerID_cm = WorkerID_wd q, Version_cm = Version_wd q,
            LeaseToken_cm = LeaseToken_wd q, Output_cm = Output_wd q, ResultRef_cm = ResultRef_wd q\<rparr>)
         (\<lambda>task. writeJSON 200 (TaskBody (Some task))))"

definition ReportWorkerProgress :: "'s Handler \<Rightarrow> http_env \<Rightarrow> http_request \<Rightarrow> string \<Rightarrow> 's handler" where
  "ReportWorkerProgress h env r taskID =
     worker_request h r decode_progress (\<lambda>ws q.
       respond (ReportProgress (stores_ws ws) (now1_he env) (now2_he env) (eventID_he env)
           \<lparr>TaskID_pi = taskID, WorkerID_pi = WorkerID_wp q, Version_pi = Version_wp q,
            LeaseToken_pi = LeaseToken_wp q, Progress_pi = Progress_wp q, Message_pi = Message_wp q\<rparr>)
         (\<lambda>task. writeJSON 200 (TaskBody (Some task))))"

definition FailWorkerTask :: "'s Handler \<Rightarrow> http_env \<Rightarrow> http_request \<Rightarrow> string \<Rightarrow> 's handler" where
  "FailWorkerTask h env r taskID =
     worker_request h r decode_fail (\<lambda>ws q.
       respond (bind (of_result (parseOptionalDuration (RetryAfter_wf q))) (\<lambda>retryAfter.
           FailTask (stores_ws ws) (scheduler_ws ws env) (now1_he env) (now2_he env) (eventID_he env)
             \<lparr>TaskID_fi = taskID, WorkerID_fi = WorkerID_wf q, Version_fi = Version_wf q,
              LeaseToken_fi = LeaseToken_wf q, ErrorCode_fi = ErrorCode_wf q, ErrorMessage_fi = ErrorMessage_wf q,
              Retryable_fi = Retryable_wf q, RetryAfter_fi = retryAfter\<rparr>))
         (\<lambda>task. writeJSON 200 (TaskBody (Some task))))"

definition ReleaseWorkerTask :: "'s Handler \<Rightarrow> http_env \<Rightarrow> http_request \<Rightarrow> string \<Rightarrow> 's handler" where
  "ReleaseWorkerTask h env r taskID =
     worker_request h r decode_release (\<lambda>ws q.
       respond (ReleaseTask (stores_ws ws) (now1_he env) (now2_he env) (eventID_he env)
           \<lparr>TaskID_ri = taskID, WorkerID_ri = WorkerID_wr q, Version_ri = Version_wr q,
            LeaseToken_ri = LeaseToken_wr q\<rparr>)
         (\<lambda>task. writeJSON 200 (TaskBody (Some task))))"

section \<open>Pages and routes\<close>

definition Dashboard :: http_response where
  "Dashboard = \<lparr>Status_rs = 200, Body_rs = PageBody ''dashboard.html''\<rparr>"

definition DashboardScript :: http_response where
  "DashboardScript = \<lparr>Status_rs = 200, Body_rs = PageBody ''dashboard.js''\<rparr>"

text \<open>
  The segments of a path are those \<open>http.ServeMux\<close> matches, after it has cleaned the path; a
  trailing slash is the segment \<open>/\<close>, which no wildcard matches.  \<open>GET\<close> patterns also match
  \<open>HEAD\<close>.  The pattern \<open>GET /\<close> matches every path, so a request that no pattern matches has
  another method and is answered with 405.
\<close>

datatype route =
    DashboardR | DashboardScriptR | CreateTaskR | ListTasksR | GetTaskStatsR | GetTaskR string
  | CancelTaskR string | ListTaskEventsR string | ClaimR | HeartbeatR string | ProgressR string
  | CompleteR string | FailR string | ReleaseR string | MetricsR

definition wildcard :: "string \<Rightarrow> bool" where
  "wildcard seg \<longleftrightarrow> seg \<noteq> ''/''"

definition get_route :: "bool \<Rightarrow> string list \<Rightarrow> route" where
  "get_route metrics path =
     (case path of
        [a] \<Rightarrow>
          if a = ''dashboard'' then DashboardR
          else if a = ''dashboard.js'' then DashboardScriptR
          else if a = ''tasks'' then ListTasksR
          else if a = ''task-stats'' then GetTaskStatsR
          else if a = ''metrics'' \<and> metrics then MetricsR
          else DashboardR
      | [a, b] \<Rightarrow> if a = ''tasks'' \<and> wildcard b then GetTaskR b else DashboardR
      | [a, b, c] \<Rightarrow> if a = ''tasks'' \<and> wildcard b \<and> c = ''events'' then ListTaskEventsR b else DashboardR
      | _ \<Rightarrow> DashboardR)"

definition post_route :: "bool \<Rightarrow> string list \<Rightarrow> route option" where
  "post_route worker path =
     (case path of
        [a] \<Rightarrow> if a = ''tasks'' then Some CreateTaskR else None
      | [a, b, c] \<Rightarrow>
          if a = ''tasks'' \<and> wildcard b \<and> c = ''cancel'' then Some (CancelTaskR b)
          else if worker \<and> a = ''worker'' \<and> b = ''tasks'' \<and> c = ''claim'' then Some ClaimR
          else None
      | [a, b, c, d] \<Rightarrow>
          if \<not> (worker \<and> a = ''worker'' \<and> b = ''tasks'' \<and> wildcard c) then None
          else if d = ''heartbeat'' then Some (HeartbeatR c)
          else if d = ''progress'' then Some (ProgressR c)
          else if d = ''complete'' then Some (CompleteR c)
          else if d = ''fail'' then Some (FailR c)
          else if d = ''release'' then Some (ReleaseR c)
          else None
      | _ \<Rightarrow> None)"

definition find_route :: "bool \<Rightarrow> bool \<Rightarrow> http_request \<Rightarrow> route option" where
  "find_route worker metrics r =
     (if Method_rq r = ''GET'' \<or> Method_rq r = ''HEAD'' then Some (get_route metrics (Path_rq r))
      else if Method_rq r = ''POST'' then post_route worker (Path_rq r)
      else None)"

fun serve_route :: "'s Handler \<Rightarrow> 's handler option \<Rightarrow> http_env \<Rightarrow> http_request \<Rightarrow> route \<Rightarrow> 's handler" where
  "serve_route h metrics env r DashboardR = (\<lambda>s. (Dashboard, s))"
| "serve_route h metrics env r DashboardScriptR = (\<lambda>s. (DashboardScript, s))"
| "serve_route h metrics env r CreateTaskR = CreateTask_http h env r"
| "serve_route h metrics env r ListTasksR = ListTasks_http h r"
| "serve_route h metrics env r GetTaskStatsR = GetTaskStats_http h env r"
| "serve_route h metrics env r (GetTaskR tid) = GetTask_http h env tid"
| "serve_route h metrics env r (CancelTaskR tid) = CancelTask_http h env tid"
| "serve_route h metrics env r (ListTaskEventsR tid) = ListTaskEvents_http h tid"
| "serve_route h metrics env r ClaimR = ClaimWorkerTask h env r"
| "serve_route h metrics env r (HeartbeatR tid) = HeartbeatWorkerTask h env r tid"
| "serve_route h metrics env r (ProgressR tid) = ReportWorkerProgress h env r tid"
| "serve_route h metrics env r (CompleteR tid) = CompleteWorkerTask h env r tid"
| "serve_route h metrics env r (FailR tid) = FailWorkerTask h env r tid"
| "serve_route h metrics env r (ReleaseR tid) = ReleaseWorkerTask h env r tid"
| "serve_route h metrics env r MetricsR = (case metrics of Some m \<Rightarrow> m | None \<Rightarrow> (\<lambda>s. (Dashboard, s)))"

definition NewRouter :: "'s Handler \<Rightarrow> 's handler option \<Rightarrow> http_env \<Rightarrow> http_request \<Rightarrow> 's handler" where
  "NewRouter h metrics env r s =
     (case find_route (workerTaskService_h h \<noteq> None) (metrics \<noteq> None) r of
        Some route \<Rightarrow> serve_route h metrics env r route s
      | None \<Rightarrow> (\<lparr>Status_rs = 405, Body_rs = PageBody ''Method Not Allowed''\<rparr>, s))"

section \<open>The server\<close>

text \<open>
  The handler that \<open>main\<close> builds, over the memory backend.  \<open>clock\<close> is what the statistics
  read when they are given no time.
\<close>

definition memory_handler ::
  "(nat \<Rightarrow> task_range) \<Rightarrow> time \<Rightarrow> (string \<Rightarrow> time option) \<Rightarrow> string \<Rightarrow> runtime Handler" where
  "memory_handler rng clock lenient token =
     (let S = memory_stores (rng 1) (rng 2) (rng 3);
          taskService = \<lparr>stores_ts = S, query_ts = memory_query (rng 4), stats_ts = memory_stats (rng 5) clock,
            lenient_ts = lenient\<rparr>;
          workerTaskService = \<lparr>stores_ws = S, scheduler_ws = (\<lambda>env.
            Some (externalSchedule S (jitter_he env) (retryEventID_he env) (retryNow_he env)))\<rparr>
      in WithClaimMetrics (Some (metrics_rs S))
           (WithWorkerAuthToken token (NewHandlerWithWorker taskService (Some workerTaskService))))"

end
