(* ===== verification/ServiceSpecs.thy ===== *)
theory ServiceSpecs
  imports TaskService WorkerFacts
begin

text \<open>
  Creating and canceling tasks over any stores that keep the contract, and the meaning of
  an idempotency key: once a request with a key was accepted, every later request that
  agrees with it is answered with the task it created, whatever happened to the task since.
\<close>

section \<open>Equal requests\<close>

lemma SameTaskCreationRequest_iff:
  "SameTaskCreationRequest (Some l) (Some r) \<longleftrightarrow>
     IdempotencyKey l = IdempotencyKey r \<and> Workflow l = Workflow r \<and> MaxRetries l = MaxRetries r \<and>
     (Input l = Input r \<or> decodeJSONValue (Input l) \<noteq> None \<and> decodeJSONValue (Input l) = decodeJSONValue (Input r))"
  by (auto simp: SameTaskCreationRequest_def split: option.splits)

lemma SameTaskCreationRequest_frame:
  assumes "SameTaskCreationRequest (Some t) (Some r)" "task_frame t u"
    "IdempotencyKey r' = IdempotencyKey r" "Workflow r' = Workflow r" "MaxRetries r' = MaxRetries r" "Input r' = Input r"
  shows "SameTaskCreationRequest (Some u) (Some r')"
  using assms by (auto simp: SameTaskCreationRequest_iff task_frame_def)

lemma SameTaskCreationRequest_refl: "SameTaskCreationRequest (Some t) (Some t)"
  by (simp add: SameTaskCreationRequest_iff)

text \<open>An accepted request leaves a stored task that agrees with it.\<close>

lemma create_accepted:
  assumes "CreateTaskWithEvent ctx (Some t) (Some ev) m = (Inr cr, m')" "stores_wf m"
  shows "\<exists>u. Task_cr cr = Some u \<and> stored_task m' (ID u) = Some u \<and> SameTaskCreationRequest (Some u) (Some t)"
  using assms(1)
proof (cases rule: CreateTaskWithEvent_cases)
  case (replay t' existing tid)
  then obtain u where u: "stored_task m tid = Some u" "SameTaskCreationRequest (Some u) (Some t)"
    by (auto simp: SameTaskCreationRequest_def split: option.splits)
  with stores_wf_lookup(1) [OF assms(2) u(1)] replay show ?thesis by auto
next
  case (created t' ev')
  then show ?thesis by (auto simp: SameTaskCreationRequest_refl)
qed simp

lemma create_replayed:
  assumes wf: "stores_wf m" and u: "stored_task m tid = Some u" "IdempotencyKey t \<noteq> []"
    "SameTaskCreationRequest (Some u) (Some t)" and ev: "TaskID_ev ev = ID t"
  shows "CreateTaskWithEvent None (Some t) (Some ev) m = (Inr \<lparr>Task_cr = Some u, Created_cr = False\<rparr>, m)"
proof -
  have "IdempotencyKey u = IdempotencyKey t" "Workflow u = Workflow t"
    using u(3) by (simp_all add: SameTaskCreationRequest_iff)
  then have "taskIDsByIdempotencyKey (taskStore m) (idempotencyIndexKey (Workflow t) (IdempotencyKey t)) = Some tid"
    using wf u(1,2) by (auto simp: stores_wf_def key_index_wf_def)
  with u ev show ?thesis by (simp add: CreateTaskWithEvent_def Let_def)
qed

section \<open>Over any stores\<close>

context task_stores
begin

text \<open>The task and the event that \<open>CreateTask\<close> hands to the store.\<close>

lemma CreateTask_call:
  assumes "CreateTask S now tid eid input s = (r, s')" "in_i64 (MaxRetries_in input)"
  obtains (refused) e where "r = Inl e" "s' = s"
  | (call) t ev where "CreateTaskWithEvent_rs S (Some t) (Some ev) s = (r, s')" "new_task t ev"
      "ID t = tid" "Workflow t = Workflow_in input" "IdempotencyKey t = IdempotencyKey_in input"
      "MaxRetries t = MaxRetries_in input" "Input t = (if Input_in input = [] then ''{}'' else Input_in input)"
proof -
  consider (e) e where "r = Inl e" "s' = s"
    | (k) t0 ev where "NewTask tid (Workflow_in input) (Input_in input) (MaxRetries_in input) now = Inr t0"
        "NewTaskEvent eid (ID t0) EventTaskCreated ''task created'' ''{}'' (Progress t0) now = Inr ev"
        "CreateTaskWithEvent_rs S (Some (t0\<lparr>IdempotencyKey := IdempotencyKey_in input\<rparr>)) (Some ev) s = (r, s')"
    using assms(1)
    by (auto simp: CreateTask_def Let_def raise_def bind_def of_result_def split: if_splits sum.splits)
  then show thesis
  proof cases
    case e
    then show thesis by (rule refused)
  next
    case k
    let ?t = "t0\<lparr>IdempotencyKey := IdempotencyKey_in input\<rparr>"
    note nt = NewTask_wf [OF k(1) assms(2)]
    have "new_task ?t ev" using nt NewTaskEvent_Inr [OF k(2)] by (simp add: new_task_def)
    with k(3) nt call [of ?t ev] show thesis by simp
  qed
qed

text \<open>
  \<open>CreateTask\<close> fails and changes nothing, or finds the task of an earlier request with its
  key, or stores one new queued task with its creation event.
\<close>

lemma CreateTask_spec:
  assumes "ok s" "stores_wf (mem s)" "CreateTask S now tid eid input s = (r, s')" "in_i64 (MaxRetries_in input)"
  shows "ok s' \<and> stores_wf (mem s') \<and> (\<exists>m. env_step\<^sup>*\<^sup>* (mem s) m \<and>
    ((\<exists>e. r = Inl e) \<and> mem s' = m \<or>
     (\<exists>t. r = Inr \<lparr>Task_cr = Some t, Created_cr = False\<rparr> \<and> mem s' = m \<and> stored_task m (ID t) = Some t \<and>
        IdempotencyKey_in input \<noteq> [] \<and> IdempotencyKey t = IdempotencyKey_in input \<and>
        Workflow t = Workflow_in input \<and> MaxRetries t = MaxRetries_in input) \<or>
     (\<exists>t ev. r = Inr \<lparr>Task_cr = Some t, Created_cr = True\<rparr> \<and> store_step m (mem s') \<and> new_task t ev \<and> ID t = tid \<and>
        Workflow t = Workflow_in input \<and> MaxRetries t = MaxRetries_in input \<and> stored_task m tid = None \<and>
        stored_task (mem s') tid = Some t \<and> stored_events (mem s') tid = [ev])))"
  using assms(3,4)
proof (cases rule: CreateTask_call)
  case (refused e)
  with assms show ?thesis by auto
next
  case (call t ev)
  from CreateTaskWithEvent_law [OF assms(1,2) call(1)] obtain m ctx where ok': "ok s'"
    and m: "env_step\<^sup>*\<^sup>* (mem s) m" "CreateTaskWithEvent ctx (Some t) (Some ev) m = (r, mem s')" by blast
  note wf = env_steps_wf [OF m(1) assms(2)]
  note step = store_step.create [OF m(2) call(2)]
  note wf' = store_step_wf [OF step wf]
  from m(2) show ?thesis
  proof (cases rule: CreateTaskWithEvent_cases)
    case (error e)
    with ok' wf' m(1) show ?thesis by auto
  next
    case (replay t' existing k)
    then obtain u where u: "stored_task m k = Some u" "SameTaskCreationRequest (Some u) (Some t)" "existing = Some u"
      by (auto simp: SameTaskCreationRequest_def split: option.splits)
    with stores_wf_lookup(1) [OF wf u(1)] replay call ok' wf' m(1) show ?thesis
      by (auto simp: SameTaskCreationRequest_iff)
  next
    case (created t' ev')
    then have "stored_events m tid = []" using wf call(3) by (simp add: stores_wf_def logs_wf_iff)
    with created call ok' wf' m(1) step show ?thesis by (auto simp: new_task_def)
  qed
qed

lemma CancelTask_spec:
  assumes "ok s" "stores_wf (mem s)" "CancelTask S eid now tid s = (r, s')"
  shows "ok s' \<and> stores_wf (mem s') \<and> (\<exists>m. env_step\<^sup>*\<^sup>* (mem s) m \<and>
    ((\<exists>e. r = Inl e) \<and> mem s' = m \<or>
     (\<exists>t. r = Inr t \<and> mem s' = m \<and> stored_task m tid = Some t \<and> Status t = TaskStatusCanceled) \<or>
     (\<exists>t0 t ev. r = Inr t \<and> store_step m (mem s') \<and> stored_task m tid = Some t0 \<and>
        Status t0 \<notin> terminalStatuses \<and> Status t = TaskStatusCanceled \<and> FinishedAt t = Some now \<and>
        LeaseOwner t = [] \<and> LeaseExpiresAt t = None \<and> Version t = Version t0 + 1 \<and>
        Type_ev ev = EventTaskCanceled \<and> mem s' = commit tid t ev m)))"
proof (cases "tid = []")
  case True
  with assms show ?thesis by (auto simp: CancelTask_def raise_eq)
next
  case False
  with assms(3) have "bind (CancelTaskWithEvent_rs S tid eid now) (\<lambda>c. ret (Task_ca c)) s = (r, s')"
    by (simp add: CancelTask_def)
  then obtain c where c: "CancelTaskWithEvent_rs S tid eid now s = (c, s')"
    and r: "r = (case c of Inl e \<Rightarrow> Inl e | Inr x \<Rightarrow> Inr (Task_ca x))"
    by (cases rule: bind_cases) (auto simp: ret_eq)
  from CancelTaskWithEvent_law [OF assms(1,2) c] obtain m ctx where ok': "ok s'"
    and m: "env_step\<^sup>*\<^sup>* (mem s) m" "CancelTaskWithEvent ctx tid eid now m = (c, mem s')" by blast
  note wf = env_steps_wf [OF m(1) assms(2)]
  note step = store_step.cancel [OF m(2)]
  note wf' = store_step_wf [OF step wf]
  from m(2) wf show ?thesis
  proof (cases rule: CancelTaskWithEvent_cases)
    case (error e)
    with ok' wf' m(1) r show ?thesis by auto
  next
    case (replay t)
    with ok' wf' m(1) r show ?thesis by auto
  next
    case (canceled t0 t ev)
    note mv = MoveTo_Inr [OF canceled(3)]
    have w: "task_wf t \<and> Status t = TaskStatusCanceled \<and> FinishedAt t = Some now"
      by (rule MoveTo_terminal_wf [OF canceled(3) stores_wf_lookup(2) [OF wf canceled(2)]]) simp
    have "Status t0 \<notin> terminalStatuses" using mv terminal_no_transition by blast
    moreover have "Version t = Version t0" using mv by simp
    moreover have "LeaseOwner t = []" "LeaseExpiresAt t = None"
      using w by (auto simp: task_wf_def)
    ultimately show ?thesis
      using w ok' wf' m(1) r canceled(1,2,6) step NewTaskCanceledEvent_Inr [OF canceled(4)]
      by (intro conjI exI [of _ m] disjI2 exI [of _ t0] exI [of _ "t\<lparr>Version := Version t + 1\<rparr>"] exI [of _ ev])
        simp_all
  qed
qed

end

end
