(* ===== verification/HttpSpecs.thy ===== *)
theory HttpSpecs
  imports Http FailSpecs ServiceSpecs WorkerSpecs
begin

text \<open>
  What a request over HTTP may do: under any interleaving with other clients it changes the
  stores at most once, by one step of the store machine, and a request that is not a \<open>POST\<close>
  changes nothing.
\<close>

section \<open>Effects\<close>

definition one_step :: "('s \<Rightarrow> MemoryStores) \<Rightarrow> ('s \<Rightarrow> bool) \<Rightarrow> 's \<Rightarrow> 's \<Rightarrow> bool" where
  "one_step mem ok s s' \<longleftrightarrow> ok s' \<and> stores_wf (mem s') \<and>
     (\<exists>m1 m2. env_step\<^sup>*\<^sup>* (mem s) m1 \<and> (m1 = m2 \<or> store_step m1 m2) \<and> env_step\<^sup>*\<^sup>* m2 (mem s'))"

lemma one_step_others: "only_others mem ok s s' \<Longrightarrow> one_step mem ok s s'"
  unfolding only_others_def one_step_def by blast

lemma one_stepI:
  "ok s' \<Longrightarrow> stores_wf (mem s') \<Longrightarrow> env_step\<^sup>*\<^sup>* (mem s) m1 \<Longrightarrow> store_step m1 m2 \<Longrightarrow> env_step\<^sup>*\<^sup>* m2 (mem s') \<Longrightarrow>
     one_step mem ok s s'"
  unfolding one_step_def by blast

lemma one_step_fenced: "fenced_outcome mem ok tid wid token R Q s r s' \<Longrightarrow> one_step mem ok s s'"
  unfolding fenced_outcome_def fenced_commit_def fenced_step_def one_step_def by blast

lemma one_step_then: "one_step mem ok s s1 \<Longrightarrow> only_others mem ok s1 s2 \<Longrightarrow> one_step mem ok s s2"
  unfolding one_step_def only_others_def by (blast intro: rtranclp_trans)

definition has_effect ::
  "('s \<Rightarrow> MemoryStores) \<Rightarrow> ('s \<Rightarrow> bool) \<Rightarrow> ('s \<Rightarrow> 's \<Rightarrow> bool) \<Rightarrow> ('s \<Rightarrow> 'r \<times> 's) \<Rightarrow> bool" where
  "has_effect mem ok E f \<longleftrightarrow> (\<forall>s r s'. ok s \<longrightarrow> stores_wf (mem s) \<longrightarrow> f s = (r, s') \<longrightarrow> E s s')"

lemma has_effectI:
  "(\<And>s r s'. ok s \<Longrightarrow> stores_wf (mem s) \<Longrightarrow> f s = (r, s') \<Longrightarrow> E s s') \<Longrightarrow> has_effect mem ok E f"
  unfolding has_effect_def by blast

lemma has_effectD: "has_effect mem ok E f \<Longrightarrow> ok s \<Longrightarrow> stores_wf (mem s) \<Longrightarrow> f s = (r, s') \<Longrightarrow> E s s'"
  unfolding has_effect_def by blast

abbreviation reads :: "('s \<Rightarrow> MemoryStores) \<Rightarrow> ('s \<Rightarrow> bool) \<Rightarrow> ('s \<Rightarrow> 'r \<times> 's) \<Rightarrow> bool" where
  "reads mem ok \<equiv> has_effect mem ok (only_others mem ok)"

abbreviation steps_once :: "('s \<Rightarrow> MemoryStores) \<Rightarrow> ('s \<Rightarrow> bool) \<Rightarrow> ('s \<Rightarrow> 'r \<times> 's) \<Rightarrow> bool" where
  "steps_once mem ok \<equiv> has_effect mem ok (one_step mem ok)"

lemma reads_steps_once: "reads mem ok f \<Longrightarrow> steps_once mem ok f"
  unfolding has_effect_def by (blast intro: one_step_others)

lemma reads_same: "(\<And>s. snd (f s) = s) \<Longrightarrow> reads mem ok f"
  by (rule has_effectI) (metis only_others_def rtranclp.rtrancl_refl snd_conv)

lemma reads_ret: "reads mem ok (ret x)" "reads mem ok (raise e)" "reads mem ok (of_result r)"
  by (auto intro!: reads_same simp: ret_def raise_def of_result_def)

lemma reads_bind: "reads mem ok f \<Longrightarrow> (\<And>x. reads mem ok (k x)) \<Longrightarrow> reads mem ok (bind f k)"
proof (rule has_effectI)
  fix s r s' assume a: "reads mem ok f" "\<And>x. reads mem ok (k x)" "ok s" "stores_wf (mem s)" "bind f k s = (r, s')"
  from a(5) show "only_others mem ok s s'"
  proof (cases rule: bind_cases)
    case (fail e)
    with a show ?thesis by (blast dest: has_effectD)
  next
    case (ok x s1)
    with has_effectD [OF a(1,3,4) ok(1)] has_effectD [OF a(2) _ _ ok(2)] show ?thesis
      unfolding only_others_def by (meson rtranclp_trans)
  qed
qed

lemma steps_bind_reads: "steps_once mem ok f \<Longrightarrow> (\<And>x. reads mem ok (k x)) \<Longrightarrow> steps_once mem ok (bind f k)"
proof (rule has_effectI)
  fix s r s' assume a: "steps_once mem ok f" "\<And>x. reads mem ok (k x)" "ok s" "stores_wf (mem s)" "bind f k s = (r, s')"
  from a(5) show "one_step mem ok s s'"
  proof (cases rule: bind_cases)
    case (fail e)
    with a show ?thesis by (blast dest: has_effectD)
  next
    case (ok x s1)
    note one = has_effectD [OF a(1,3,4) ok(1)]
    with has_effectD [OF a(2) _ _ ok(2)] show ?thesis
      by (intro one_step_then [OF one]) (auto simp: one_step_def)
  qed
qed

lemma effect_respond: "has_effect mem ok E f \<Longrightarrow> has_effect mem ok E (respond f k)"
  unfolding has_effect_def respond_def by (auto split: prod.splits sum.splits)

lemma effect_worker_request:
  assumes "\<And>ws q. workerTaskService_h h = Some ws \<Longrightarrow> has_effect mem ok E (k ws q)"
    "\<And>s. ok s \<Longrightarrow> stores_wf (mem s) \<Longrightarrow> E s s"
  shows "has_effect mem ok E (worker_request h r decode k)"
  using assms unfolding has_effect_def worker_request_def
  by (auto split: option.splits)

section \<open>The services\<close>

context task_stores
begin

lemma others_refl: "ok s \<Longrightarrow> stores_wf (mem s) \<Longrightarrow> one_step mem ok s s"
  by (rule one_step_others [OF only_others_refl])

lemma Get_reads: "reads mem ok (Get_rs S tid)"
  by (rule has_effectI) (use Get_spec in blast)

lemma ListByTaskID_reads: "reads mem ok (ListByTaskID_rs S tid)"
proof (rule has_effectI)
  fix s r s' assume a: "ok s" "stores_wf (mem s)" "ListByTaskID_rs S tid s = (r, s')"
  from ListByTaskID_law [OF this] env_steps_wf [OF _ a(2)] show "only_others mem ok s s'"
    by (auto simp: only_others_def)
qed

lemma GetTaskDetail_reads: "reads mem ok (GetTaskDetail S lenient now tid)"
  unfolding GetTaskDetail_def GetTask_def by (auto intro!: reads_bind reads_ret Get_reads ListByTaskID_reads)

lemma ListTaskEvents_reads: "reads mem ok (ListTaskEvents S tid)"
  unfolding ListTaskEvents_def by (auto intro!: reads_bind reads_ret Get_reads ListByTaskID_reads)

lemma CreateTask_once: "in_i64 (MaxRetries_in input) \<Longrightarrow> steps_once mem ok (CreateTask S now tid eid input)"
  by (rule has_effectI, drule (3) CreateTask_spec) (unfold one_step_def, blast)

lemma CancelTask_once: "steps_once mem ok (CancelTask S eid now tid)"
  by (rule has_effectI, drule (2) CancelTask_spec) (unfold one_step_def, blast)

lemma ClaimTask_once: "steps_once mem ok (ClaimTask S now eid input)"
  by (rule has_effectI, drule (2) ClaimTask_spec) (unfold one_step_def, blast)

lemma HeartbeatTask_once: "steps_once mem ok (HeartbeatTask S now input)"
  by (rule has_effectI, drule (2) HeartbeatTask_spec) (unfold one_step_def, blast)

lemma CompleteTask_once: "steps_once mem ok (CompleteTask S pnow now eid input)"
  by (rule has_effectI, drule (2) CompleteTask_spec) (rule one_step_fenced)

lemma ReportProgress_once: "steps_once mem ok (ReportProgress S pnow now eid input)"
  by (rule has_effectI, drule (2) ReportProgress_spec) (rule one_step_fenced)

lemma ReleaseTask_once: "steps_once mem ok (ReleaseTask S pnow now eid input)"
  by (rule has_effectI, drule (2) ReleaseTask_spec) (rule one_step_fenced)

lemma FailTask_once:
  "steps_once mem ok (FailTask S (Some (externalSchedule S jit seid snow)) pnow now eid input)"
  by (rule has_effectI, drule (2) externalFailTask_spec) (rule one_step_fenced)

end

section \<open>The server\<close>

text \<open>
  A server: its services work on stores that keep their contract, and its queries, its
  statistics and its metrics page only read.
\<close>

locale http_server = task_stores S mem ok
  for S :: "'s runtimeStores" and mem :: "'s \<Rightarrow> MemoryStores" and ok :: "'s \<Rightarrow> bool" +
  fixes h :: "'s Handler" and page :: "'s handler option"
  assumes services: "stores_ts (taskService_h h) = S"
    and worker_services: "workerTaskService_h h = Some ws \<Longrightarrow> stores_ws ws = S \<and>
      scheduler_ws ws env = Some (externalSchedule S (jitter_he env) (retryEventID_he env) (retryNow_he env))"
    and query_law: "query_ts (taskService_h h) = Some q \<Longrightarrow> reads mem ok (q o1)"
    and stats_law: "stats_ts (taskService_h h) = Some q' \<Longrightarrow> reads mem ok (q' now f)"
    and claim_metrics_law: "claimMetrics_h h = Some rec \<Longrightarrow> mem (rec c s) = mem s \<and> (ok s \<longrightarrow> ok (rec c s))"
    and page_law: "page = Some p \<Longrightarrow> reads mem ok p"
begin

lemma ListTasks_reads: "reads mem ok (ListTasks_http h r)"
proof (rule has_effectI)
  fix s resp s' assume a: "ok s" "stores_wf (mem s)" "ListTasks_http h r s = (resp, s')"
  have "reads mem ok (ListTasks_svc (query_ts (taskService_h h)) lenient input)" for lenient input
    unfolding ListTasks_svc_def
    by (auto simp: Let_def intro!: reads_bind reads_ret query_law split: option.splits)
  from has_effectD [OF effect_respond [OF this] a(1,2)] a(3) only_others_refl [OF a(1,2)] show "only_others mem ok s s'"
    by (auto simp: ListTasks_http_def split: option.splits if_splits)
qed

lemma GetTaskStats_reads: "reads mem ok (GetTaskStats_http h env r)"
  unfolding GetTaskStats_http_def GetTaskStats_def
  by (rule effect_respond) (auto simp: Let_def intro!: reads_bind reads_ret stats_law split: option.splits)

lemma get_route_reads: "reads mem ok (serve_route h page env r (get_route m path))"
proof -
  have pages: "reads mem ok (\<lambda>s. (x, s))" for x :: http_response by (rule reads_same) simp
  have "reads mem ok (serve_route h page env r rt)"
    if "rt \<in> {DashboardR, DashboardScriptR, ListTasksR, GetTaskStatsR, MetricsR} \<union> range GetTaskR \<union> range ListTaskEventsR" for rt
    using that ListTasks_reads GetTaskStats_reads [of env r] pages page_law
      effect_respond [OF GetTaskDetail_reads] effect_respond [OF ListTaskEvents_reads]
    by (auto simp: GetTask_http_def ListTaskEvents_http_def services has_effect_def split: option.splits)
  moreover have "get_route m path \<in> {DashboardR, DashboardScriptR, ListTasksR, GetTaskStatsR, MetricsR} \<union> range GetTaskR \<union> range ListTaskEventsR"
    by (auto simp: get_route_def split: list.splits)
  ultimately show ?thesis by blast
qed

lemma claim_metric_law: "mem (claim_metric h c s) = mem s" "ok s \<Longrightarrow> ok (claim_metric h c s)"
  using claim_metrics_law by (auto simp: claim_metric_def split: option.splits)

lemma ClaimWorkerTask_once: "steps_once mem ok (ClaimWorkerTask h env r)"
  unfolding ClaimWorkerTask_def
proof (rule effect_worker_request [OF has_effectI others_refl])
  fix ws q s resp s'
  assume a: "workerTaskService_h h = Some ws" "ok s" "stores_wf (mem s)"
    and run: "(case parseLeaseDuration (LeaseDuration_wc q) of Inl e \<Rightarrow> (writeApplicationError e, s)
       | Inr leaseDuration \<Rightarrow>
           (case ClaimTask (stores_ws ws) (now1_he env) (eventID_he env)
               \<lparr>WorkerID_ci = WorkerID_wc q, Workflow_ci = Workflow_wc q, LeaseDuration_ci = leaseDuration\<rparr>
               (claim_metric h (RecordClaimAttempt (Workflow_wc q)) s) of
              (Inl e, s1) \<Rightarrow>
                if errors_Is e ErrNoTaskAvailable
                then (\<lparr>Status_rs = 204, Body_rs = NoBody\<rparr>, claim_metric h (RecordClaimMiss (Workflow_wc q)) s1)
                else (writeApplicationError e, s1)
            | (Inr task, s1) \<Rightarrow> (writeJSON 200 (TaskBody (Some task)), s1))) = (resp, s')"
  show "one_step mem ok s s'"
  proof (cases "parseLeaseDuration (LeaseDuration_wc q)")
    case (Inl e)
    with run a show ?thesis by (simp add: others_refl)
  next
    case (Inr d)
    let ?s0 = "claim_metric h (RecordClaimAttempt (Workflow_wc q)) s"
    obtain x s1 where c: "ClaimTask S (now1_he env) (eventID_he env)
        \<lparr>WorkerID_ci = WorkerID_wc q, Workflow_ci = Workflow_wc q, LeaseDuration_ci = d\<rparr> ?s0 = (x, s1)" by force
    have "one_step mem ok ?s0 s1"
      by (rule has_effectD [OF ClaimTask_once _ _ c]) (use a claim_metric_law in auto)
    then have one: "one_step mem ok s s1" by (simp add: one_step_def claim_metric_law)
    then have "only_others mem ok s1 (claim_metric h c s1)" for c
      by (simp add: one_step_def only_others_def claim_metric_law)
    moreover have "s' = s1 \<or> (\<exists>c. s' = claim_metric h c s1)"
      using run Inr c worker_services [OF a(1)] by (auto split: sum.splits if_splits)
    ultimately show ?thesis using one one_step_then [OF one] by blast
  qed
qed

lemma worker_service_eq:
  "workerTaskService_h h = Some ws \<Longrightarrow> ws = \<lparr>stores_ws = S, scheduler_ws = (\<lambda>env. Some (externalSchedule S (jitter_he env)
     (retryEventID_he env) (retryNow_he env)))\<rparr>"
proof -
  assume a: "workerTaskService_h h = Some ws"
  note w = worker_services [OF a]
  have "stores_ws ws = S" "scheduler_ws ws = (\<lambda>env. Some (externalSchedule S (jitter_he env)
     (retryEventID_he env) (retryNow_he env)))"
    using w by blast+
  then show ?thesis by (cases ws) simp
qed

lemma bind_checked_once: "(\<And>x. steps_once mem ok (k x)) \<Longrightarrow> steps_once mem ok (bind (of_result c) k)"
  by (cases c) (auto intro: reads_steps_once [OF reads_ret(2)])

lemmas operations_once = HeartbeatTask_once CompleteTask_once ReportProgress_once ReleaseTask_once FailTask_once

lemma CreateTask_http_once: "steps_once mem ok (CreateTask_http h env r)"
proof (cases "decode_create (Body_rq r)")
  case None
  then have "CreateTask_http h env r = (\<lambda>s. (invalid_body, s))" by (simp add: CreateTask_http_def fun_eq_iff)
  then show ?thesis by (simp add: reads_steps_once reads_same)
next
  case (Some q)
  note once = effect_respond [OF CreateTask_once]
  from Some show ?thesis
    unfolding CreateTask_http_def services by (auto intro!: once decode_create_bound)
qed

lemma post_route_once: "post_route w path = Some rt \<Longrightarrow> steps_once mem ok (serve_route h page env r rt)"
proof -
  assume "post_route w path = Some rt"
  then have "rt \<in> {CreateTaskR, ClaimR} \<union> range CancelTaskR \<union> range HeartbeatR \<union> range ProgressR \<union> range CompleteR \<union>
      range FailR \<union> range ReleaseR"
    by (auto simp: post_route_def split: list.splits if_splits)
  moreover have worker: "steps_once mem ok (worker_request h r dec (\<lambda>ws q. respond (f ws q) k'))"
    if "\<And>q. steps_once mem ok (f \<lparr>stores_ws = S, scheduler_ws = (\<lambda>env. Some (externalSchedule S (jitter_he env)
        (retryEventID_he env) (retryNow_he env)))\<rparr> q)" for dec f k'
    by (rule effect_worker_request) (auto intro!: effect_respond that others_refl dest!: worker_service_eq)
  ultimately show ?thesis
    using CreateTask_http_once [of env r] ClaimWorkerTask_once [of env r]
    by (auto simp: CancelTask_http_def services HeartbeatWorkerTask_def CompleteWorkerTask_def
        ReportWorkerProgress_def FailWorkerTask_def ReleaseWorkerTask_def
        intro!: effect_respond steps_bind_reads CancelTask_once GetTaskDetail_reads worker bind_checked_once operations_once)
qed

text \<open>A request changes the stores at most once; a request that is not a \<open>POST\<close> does not.\<close>

lemma NewRouter_spec:
  assumes "ok s" "stores_wf (mem s)" "NewRouter h page env r s = (resp, s')"
  shows "one_step mem ok s s' \<and> (Method_rq r \<noteq> ''POST'' \<longrightarrow> only_others mem ok s s')"
proof -
  consider (get) m p where "serve_route h page env r (get_route m p) s = (resp, s')" "Method_rq r \<noteq> ''POST''"
    | (post) w p rt where "post_route w p = Some rt" "serve_route h page env r rt s = (resp, s')" "Method_rq r = ''POST''"
    | (none) "s' = s"
    using assms(3) by (auto simp: NewRouter_def find_route_def split: option.splits if_splits)
  then show ?thesis
  proof cases
    case get
    from has_effectD [OF get_route_reads assms(1,2) get(1)] show ?thesis by (simp add: one_step_others)
  next
    case post
    from has_effectD [OF post_route_once [OF post(1)] assms(1,2) post(2)] post(3) show ?thesis by simp
  next
    case none
    with assms show ?thesis by (simp add: others_refl only_others_refl)
  qed
qed

end

section \<open>The memory backend\<close>

lemma on_stores_reads: "(\<And>ctx m. snd (f ctx m) = m) \<Longrightarrow> reads stores_rt fair_schedule (on_stores f)"
proof (rule has_effectI)
  fix s r s' assume f: "\<And>ctx m. snd (f ctx m) = m"
    and a: "fair_schedule s" "stores_wf (stores_rt s)" "on_stores f s = (r, s')"
  from on_stores_law [OF a] obtain m ctx where "fair_schedule s'" "env_step\<^sup>*\<^sup>* (stores_rt s) m" "f ctx m = (r, stores_rt s')"
    by blast
  with f [of ctx m] env_steps_wf [OF _ a(2)] show "only_others stores_rt fair_schedule s s'"
    by (auto simp: only_others_def)
qed

lemma memory_http_server:
  assumes "\<And>i. range_order (rng i)" "\<And>p. page = Some p \<Longrightarrow> reads stores_rt fair_schedule p"
  shows "http_server (memory_stores (rng 1) (rng 2) (rng 3)) stores_rt fair_schedule
    (memory_handler rng clock lenient token) page"
proof -
  have q: "reads stores_rt fair_schedule (on_stores (\<lambda>ctx m. (ListTasks g ctx o1 (taskStore m), m)))"
    "reads stores_rt fair_schedule (on_stores (\<lambda>ctx m. (SnapshotFilteredTaskStats g ctx clock now f (taskStore m), m)))"
    for g o1 now f by (auto intro: on_stores_reads)
  show ?thesis
    by (rule http_server.intro [OF memory_task_stores [OF assms(1) assms(1) assms(1)]], unfold_locales)
      (use q assms(2) in \<open>auto simp: memory_handler_def Let_def WithClaimMetrics_def WithWorkerAuthToken_def
        NewHandlerWithWorker_def memory_query_def memory_stats_def memory_stores_def fair_schedule_def\<close>)
qed

interpretation mem_http: http_server "memory_stores (\<lambda>m. m) (\<lambda>m. m) (\<lambda>m. m)" stores_rt fair_schedule
  "memory_handler (\<lambda>_ m. m) clock lenient token" None
  for clock lenient token
  by (rule memory_http_server [where rng = "\<lambda>_ m. m", simplified]) simp_all

end
