(* ===== verification/StoreHistory.thy ===== *)
theory StoreHistory
  imports StoreSteps
begin

text \<open>
  The history of one task over any number of steps: its identity and its log are kept, a
  terminal task never changes, and its status moves along the graph of \<open>CanTransition\<close>, with
  the release of a running task back to the queue as the one move beside it.
\<close>

lemma store_steps_wf: "store_step\<^sup>*\<^sup>* m m' \<Longrightarrow> stores_wf m \<Longrightarrow> stores_wf m'"
  by (induction rule: rtranclp_induct) (auto intro: store_step_wf)

lemma store_steps_task:
  assumes "store_step\<^sup>*\<^sup>* m m'" "stores_wf m" "stored_task m tid = Some t"
  shows "\<exists>u. stored_task m' tid = Some u \<and> task_frame t u \<and>
    prefix (stored_events m tid) (stored_events m' tid) \<and>
    (Status t \<in> terminalStatuses \<longrightarrow> u = t \<and> stored_events m' tid = stored_events m tid)"
  using assms(1)
proof (induction rule: rtranclp_induct)
  case base
  with assms(3) show ?case by simp
next
  case (step m1 m2)
  then obtain u where u: "stored_task m1 tid = Some u" "task_frame t u"
    "prefix (stored_events m tid) (stored_events m1 tid)"
    "Status t \<in> terminalStatuses \<longrightarrow> u = t \<and> stored_events m1 tid = stored_events m tid" by blast
  from store_step_task [OF step.hyps(2) store_steps_wf [OF step.hyps(1) assms(2)] u(1)] obtain v where
    v: "stored_task m2 tid = Some v" "task_succ u (stored_events m1 tid) v (stored_events m2 tid)" by blast
  then have "task_frame u v" "prefix (stored_events m1 tid) (stored_events m2 tid)"
    "Status u \<in> terminalStatuses \<longrightarrow> v = u \<and> stored_events m2 tid = stored_events m1 tid"
    by (auto simp: task_succ_def)
  with u v(1) task_frame_trans [OF u(2)] prefix_order.trans [OF u(3)] show ?case by auto
qed

definition status_move :: "TaskStatus \<Rightarrow> TaskStatus \<Rightarrow> bool" where
  "status_move a b \<longleftrightarrow> a = b \<or> CanTransition a b \<or> a = TaskStatusRunning \<and> b = TaskStatusQueued"

lemma store_step_status:
  assumes "store_step m m'" "stores_wf m" "stored_task m tid = Some t" "stored_task m' tid = Some u"
  shows "status_move (Status t) (Status u)"
  using assms(1)
proof cases
  case (create ctx t' ev r)
  from create(1) assms(3,4) show ?thesis
    by (cases rule: CreateTaskWithEvent_cases) (auto simp: status_move_def split: if_splits)
next
  case (claim rng1 rng2 ctx o1 eid rt)
  from claim(1-3) assms(2) show ?thesis
  proof (cases rule: ClaimNextWithEvent_cases)
    case (claimed t0 kind ev)
    have "Status (StoreFacts.claimed o1 kind t0) = TaskStatusRunning"
      by (rule claimed_wf(4) [OF stores_wf_lookup(2) [OF assms(2) claimed(2)] claimed(3,4)])
    with claimed assms(3,4) show ?thesis
      by (auto simp: status_move_def claimable_def expired_claimable_def ready_claimable_def split: if_splits)
  qed (use assms(3,4) in \<open>simp add: status_move_def\<close>)
next
  case (reap rng ctx now eid rt)
  from reap assms(2) show ?thesis
  proof (cases rule: FailNextExpiredWithEvent_cases)
    case (failed t0 ev)
    with assms(3,4) show ?thesis
      by (auto simp: status_move_def expired_exhausted_def expired_failed_def Let_def split: if_splits)
  qed (use assms(3,4) in \<open>simp add: status_move_def\<close>)
next
  case (cancel ctx tid' eid now rc)
  from cancel assms(2) show ?thesis
  proof (cases rule: CancelTaskWithEvent_cases)
    case (canceled t0 t1 ev)
    with assms(3,4) MoveTo_Inr [OF canceled(3)] show ?thesis
      by (auto simp: status_move_def split: if_splits)
  qed (use assms(3,4) in \<open>simp_all add: status_move_def\<close>)
next
  case (renew ctx o2 re ts)
  from renew(2) show ?thesis
  proof (cases rule: RenewLease_cases)
    case (renewed t0)
    with renew(1) assms(3,4) show ?thesis
      by (auto simp: status_move_def StoreFacts.renewed_def split: if_splits)
  qed (use renew(1) assms(3,4) in \<open>simp add: status_move_def\<close>)
next
  case (update ctx t1 ev re t0)
  from update(1) show ?thesis
  proof (cases rule: UpdateTaskWithEvent_cases)
    case (commit t' ev' st)
    with update(3) [of st] have "Status st = TaskStatusRunning"
      using same_claim_frame(3) [of t0 st] update(2) by (simp add: worker_edit_def)
    with commit update(2) assms(3,4) show ?thesis
      by (auto simp: status_move_def worker_edit_def split: if_splits)
  qed (use assms(3,4) in \<open>simp add: status_move_def\<close>)
qed

end
