(* ===== verification/ServiceRuns.thy ===== *)
theory ServiceRuns
  imports ServiceSpecs WorkerRuns StoreHistory
begin

text \<open>
  Requests of several components one after the other on the memory stores: complete and
  complete again, cancel and complete, create and create again.
\<close>

section \<open>Outdated tokens\<close>

text \<open>
  A task that has moved on refuses a completion with the old token, unless it moved on by
  that very completion.
\<close>

lemma CompleteTask_outdated:
  assumes "idle s" "stored_task (stores_rt s) (ID t) = Some u" "token_ok t" "Version u \<noteq> Version t"
    and "Version u = Version t + 1 \<Longrightarrow> Status u \<noteq> TaskStatusSucceeded"
    and input: "TaskID_cm input = ID t" "WorkerID_cm input = LeaseOwner t" "LeaseToken_cm input = makeLeaseToken t"
  shows "CompleteTask (memory_stores rng1 rng2 rng3) pnow now eid input s = (Inl ErrLeaseLost, s)"
proof -
  have "replayWorkerOperation (memory_stores rng1 rng2 rng3) (ID t) (LeaseOwner t) (makeLeaseToken t)
      [TaskStatusSucceeded] s = (Inr None, s)"
    using assms(1-3,5) by (auto simp: replayWorkerOperation_def token_claims_makeLeaseToken bind_def memory_idle
        Get_stored ret_def)
  with stale_token_refused [OF assms(1-4)] input show ?thesis
    by (simp add: CompleteTask_def Let_def bind_def)
qed

lemma CancelTask_idle:
  assumes "idle s" "stores_wf (stores_rt s)" "stored_task (stores_rt s) tid = Some t"
    "Status t = TaskStatusRunning" "CancelTask (memory_stores rng1 rng2 rng3) eid now tid s = (Inr u, s')"
  shows "idle s' \<and> stored_task (stores_rt s') tid = Some u \<and> Status u = TaskStatusCanceled \<and>
    Version u = Version t + 1 \<and> stores_wf (stores_rt s')"
proof -
  obtain c m where c: "CancelTaskWithEvent None tid eid now (stores_rt s) = (c, m)" by force
  have tid: "tid \<noteq> []" using assms(5) by (auto simp: CancelTask_def raise_def)
  with assms(1,5) c obtain x where x: "c = Inr x" "u = Task_ca x" "s' = s\<lparr>stores_rt := m\<rparr>"
    by (auto simp: CancelTask_def bind_def memory_idle ret_def Let_def split: sum.splits prod.splits)
  from c assms(2) show ?thesis
  proof (cases rule: CancelTaskWithEvent_cases)
    case (canceled t0 t1 ev)
    with x assms(1,3) MoveTo_Inr [OF canceled(3)] store_step_wf [OF store_step.cancel [OF c] assms(2)]
    show ?thesis by auto
  qed (use x assms(3,4) in auto)
qed

section \<open>Creating twice\<close>

text \<open>
  A request that was accepted, any steps of the program, and a request that agrees with it.
\<close>

lemma create_again:
  assumes "CreateTaskWithEvent ctx (Some t) (Some ev) m = (Inr cr, m1)" "stores_wf m" "new_task t ev"
    and later: "store_step\<^sup>*\<^sup>* m1 m2"
    and again: "IdempotencyKey t \<noteq> []" "IdempotencyKey t' = IdempotencyKey t" "Workflow t' = Workflow t"
      "MaxRetries t' = MaxRetries t" "Input t' = Input t" "TaskID_ev ev' = ID t'"
  shows "\<exists>u v. Task_cr cr = Some u \<and> stored_task m2 (ID u) = Some v \<and> task_frame u v \<and>
    CreateTaskWithEvent None (Some t') (Some ev') m2 = (Inr \<lparr>Task_cr = Some v, Created_cr = False\<rparr>, m2)"
proof -
  from create_accepted [OF assms(1,2)] obtain u where u: "Task_cr cr = Some u" "stored_task m1 (ID u) = Some u"
    "SameTaskCreationRequest (Some u) (Some t)" by blast
  note wf1 = store_step_wf [OF store_step.create [OF assms(1,3)] assms(2)]
  from store_steps_task [OF later wf1 u(2)] obtain v where v: "stored_task m2 (ID u) = Some v" "task_frame u v"
    by blast
  have "SameTaskCreationRequest (Some v) (Some t')"
    by (rule SameTaskCreationRequest_frame [OF u(3) v(2) again(2-5)])
  with create_replayed [OF store_steps_wf [OF later wf1] v(1)] again u(1) v show ?thesis by auto
qed

end
