(* ===== verification/HttpRuns.thy ===== *)
theory HttpRuns
  imports HttpSpecs ServiceRuns
begin

text \<open>
  Requests over HTTP one after the other: refused callers, the statuses of errors, and
  requests that a client repeats because it did not see the answer.
\<close>

section \<open>Refused requests\<close>

lemma worker_request_unauthorized:
  assumes "workerTaskService_h h \<noteq> None" "workerAuthToken_h h \<noteq> []"
    "Authorization_rq r \<noteq> ''Bearer '' @ workerAuthToken_h h"
  shows "worker_request h r decode k s = (writeError 401 ''worker authentication is required'', s)"
proof -
  have "prefix b a \<Longrightarrow> a = b @ drop (length b) a" for a b :: string by (auto simp: prefix_def)
  then have "\<not> prefix ''Bearer '' (Authorization_rq r) \<or>
      drop (length ''Bearer '') (Authorization_rq r) \<noteq> workerAuthToken_h h"
    using assms(3) by metis
  then have "authorizeWorker h r = Some (writeError 401 ''worker authentication is required'')"
    unfolding authorizeWorker_def using assms(2) by argo
  with assms(1) show ?thesis by (auto simp: worker_request_def)
qed

text \<open>No route of the worker protocol serves a caller without the token.\<close>

lemma worker_path_route:
  "post_route w (''worker'' # path) = Some rt \<Longrightarrow>
     rt \<in> {ClaimR} \<union> range HeartbeatR \<union> range ProgressR \<union> range CompleteR \<union> range FailR \<union> range ReleaseR"
  by (auto simp: post_route_def split: list.splits if_splits)

lemma unauthorized_worker_call:
  assumes "workerTaskService_h h \<noteq> None" "workerAuthToken_h h \<noteq> []"
    "Authorization_rq r \<noteq> ''Bearer '' @ workerAuthToken_h h"
    and "Method_rq r = ''POST''" "Path_rq r = ''worker'' # path"
  shows "\<exists>resp. NewRouter h page env r s = (resp, s) \<and> Status_rs resp \<in> {401, 405}"
proof (cases "post_route True (''worker'' # path)")
  case None
  with assms show ?thesis by (simp add: NewRouter_def find_route_def)
next
  case (Some rt)
  have "serve_route h page env r rt s = (writeError 401 ''worker authentication is required'', s)"
    using worker_path_route [OF Some]
    by (auto simp: worker_request_unauthorized [OF assms(1-3)] ClaimWorkerTask_def HeartbeatWorkerTask_def ReportWorkerProgress_def CompleteWorkerTask_def
        FailWorkerTask_def ReleaseWorkerTask_def)
  with Some assms show ?thesis
    by (simp add: NewRouter_def find_route_def writeError_def writeJSON_def)
qed

text \<open>An error answer has a status of at least 400, and its body is the text of the error.\<close>

lemma writeApplicationError_status:
  "Status_rs (writeApplicationError e) \<in> {400, 404, 409, 500}"
  "\<exists>msg. Body_rs (writeApplicationError e) = ErrorBody msg"
  by (auto simp: writeApplicationError_def writeError_def writeJSON_def)

lemma respond_ok:
  assumes "respond f k s = (resp, s')" "Status_rs resp < 400"
  obtains x where "f s = (Inr x, s')" "resp = k x"
proof -
  obtain x s1 where f: "f s = (x, s1)" by force
  show thesis
  proof (cases x)
    case (Inl e)
    with f assms writeApplicationError_status(1) [of e] show ?thesis by (auto simp: respond_def)
  next
    case (Inr y)
    with f assms(1) that show ?thesis by (simp add: respond_def)
  qed
qed

section \<open>Creating twice\<close>

lemma CreateTask_accepted_form:
  assumes "CreateTask S now tid eid input s = (Inr cr, s1)" "in_i64 (MaxRetries_in input)"
    "tid' \<noteq> []" "eid' \<noteq> []"
  shows "\<exists>t ev t' ev'. CreateTaskWithEvent_rs S (Some t) (Some ev) s = (Inr cr, s1) \<and> new_task t ev \<and>
    CreateTask S now' tid' eid' input = CreateTaskWithEvent_rs S (Some t') (Some ev') \<and>
    IdempotencyKey t = IdempotencyKey_in input \<and>
    IdempotencyKey t' = IdempotencyKey t \<and> Workflow t' = Workflow t \<and> MaxRetries t' = MaxRetries t \<and>
    Input t' = Input t \<and> TaskID_ev ev' = ID t'"
proof -
  obtain t0 ev where k: "NewTask tid (Workflow_in input) (Input_in input) (MaxRetries_in input) now = Inr t0"
      "NewTaskEvent eid (ID t0) EventTaskCreated ''task created'' ''{}'' (Progress t0) now = Inr ev"
      "CreateTaskWithEvent_rs S (Some (t0\<lparr>IdempotencyKey := IdempotencyKey_in input\<rparr>)) (Some ev) s = (Inr cr, s1)"
    using assms(1)
    by (auto simp: CreateTask_def Let_def raise_def bind_def of_result_def split: if_splits sum.splits)
  have v: "Workflow_in input \<noteq> []" "0 \<le> MaxRetries_in input"
    "\<not> (IdempotencyKey_in input \<noteq> [] \<and> TrimSpace (IdempotencyKey_in input) \<noteq> IdempotencyKey_in input)"
    "\<not> (IdempotencyKey_in input \<noteq> [] \<and> length (IdempotencyKey_in input) > 128)"
    using assms(1) by (auto simp: CreateTask_def raise_def split: if_splits)
  obtain t0' where k': "NewTask tid' (Workflow_in input) (Input_in input) (MaxRetries_in input) now' = Inr t0'"
    using v(1,2) assms(3) by (simp add: NewTask_def)
  note n = NewTask_wf [OF k(1) assms(2)] and n' = NewTask_wf [OF k' assms(2)]
  obtain ev' where e': "NewTaskEvent eid' (ID t0') EventTaskCreated ''task created'' ''{}'' (Progress t0') now' = Inr ev'"
    using assms(3,4) n' by (simp add: NewTaskEvent_def)
  have "CreateTask S now' tid' eid' input =
      CreateTaskWithEvent_rs S (Some (t0'\<lparr>IdempotencyKey := IdempotencyKey_in input\<rparr>)) (Some ev')"
    unfolding CreateTask_def if_not_P [OF v(3)] if_not_P [OF v(4)] using v(1,2) k' e' by simp
  moreover have "new_task (t0\<lparr>IdempotencyKey := IdempotencyKey_in input\<rparr>) ev"
    using n NewTaskEvent_Inr [OF k(2)] by (simp add: new_task_def)
  ultimately show ?thesis using k(3) n n' NewTaskEvent_Inr [OF e'] by fastforce
qed

lemma memory_handler_stores [simp]:
  "stores_ts (taskService_h (memory_handler rng clock lenient token)) = memory_stores (rng 1) (rng 2) (rng 3)"
  "workerTaskService_h (memory_handler rng clock lenient token) =
     Some \<lparr>stores_ws = memory_stores (rng 1) (rng 2) (rng 3), scheduler_ws = (\<lambda>env.
       Some (externalSchedule (memory_stores (rng 1) (rng 2) (rng 3)) (jitter_he env) (retryEventID_he env) (retryNow_he env)))\<rparr>"
  "workerAuthToken_h (memory_handler rng clock lenient token) = TrimSpace token"
  by (simp_all add: memory_handler_def Let_def WithClaimMetrics_def WithWorkerAuthToken_def NewHandlerWithWorker_def)

lemma http_create_again:
  assumes "idle s" "stores_wf (stores_rt s)"
    and r: "Method_rq r = ''POST''" "Path_rq r = [''tasks'']" "IdempotencyKey_rq r \<noteq> []"
    and first: "NewRouter (memory_handler rng clock lenient token) page env r s = (resp, s1)" "Status_rs resp < 400"
    and later: "store_step\<^sup>*\<^sup>* (stores_rt s1) (stores_rt s2)" "idle s2"
    and ids: "taskID_he env' \<noteq> []" "eventID_he env' \<noteq> []"
  shows "\<exists>u v. Body_rs resp = TaskBody (Some u) \<and> stored_task (stores_rt s2) (ID u) = Some v \<and> task_frame u v \<and>
    NewRouter (memory_handler rng clock lenient token) page env' r s2 =
      (\<lparr>Status_rs = 200, Body_rs = TaskBody (Some v)\<rparr>, s2)"
proof -
  let ?S = "memory_stores (rng 1) (rng 2) (rng 3)"
  have route: "NewRouter (memory_handler rng clock lenient token) page e r =
      CreateTask_http (memory_handler rng clock lenient token) e r" for e
    using r by (simp add: NewRouter_def find_route_def post_route_def fun_eq_iff)
  obtain q where q: "decode_create (Body_rq r) = Some q"
    using first by (cases "decode_create (Body_rq r)")
      (auto simp: route CreateTask_http_def invalid_body_def writeError_def writeJSON_def)
  define input where "input = \<lparr>IdempotencyKey_in = IdempotencyKey_rq r, Workflow_in = Workflow_cq q,
     Input_in = Input_cq q, MaxRetries_in = MaxRetries_cq q\<rparr>"
  have bound: "in_i64 (MaxRetries_in input)" using decode_create_bound [OF q] by (simp add: input_def)
  have run: "CreateTask_http (memory_handler rng clock lenient token) e r x =
      respond (CreateTask ?S (now1_he e) (taskID_he e) (eventID_he e) input)
        (\<lambda>result. writeJSON (if Created_cr result then 201 else 200) (TaskBody (Task_cr result))) x" for e x
    by (simp add: CreateTask_http_def q input_def)
  from first obtain cr where cr: "CreateTask ?S (now1_he env) (taskID_he env) (eventID_he env) input s = (Inr cr, s1)"
    "resp = writeJSON (if Created_cr cr then 201 else 200) (TaskBody (Task_cr cr))"
    unfolding route run by (rule respond_ok)
  from CreateTask_accepted_form [OF cr(1) bound ids, of "now1_he env'"] obtain t ev t' ev' where
    f: "CreateTaskWithEvent_rs ?S (Some t) (Some ev) s = (Inr cr, s1)" "new_task t ev"
      "CreateTask ?S (now1_he env') (taskID_he env') (eventID_he env') input = CreateTaskWithEvent_rs ?S (Some t') (Some ev')"
      "IdempotencyKey t = IdempotencyKey_in input" "IdempotencyKey t' = IdempotencyKey t" "Workflow t' = Workflow t"
      "MaxRetries t' = MaxRetries t" "Input t' = Input t" "TaskID_ev ev' = ID t'" by blast
  from f(1) assms(1) have c: "CreateTaskWithEvent None (Some t) (Some ev) (stores_rt s) = (Inr cr, stores_rt s1)"
    by (auto simp: memory_idle Let_def split: prod.splits)
  have key: "IdempotencyKey t \<noteq> []" using r(3) f(4) by (simp add: input_def)
  from create_again [OF c assms(2) f(2) later(1) key f(5-9)] obtain u v where uv: "Task_cr cr = Some u"
    "stored_task (stores_rt s2) (ID u) = Some v" "task_frame u v"
    "CreateTaskWithEvent None (Some t') (Some ev') (stores_rt s2) = (Inr \<lparr>Task_cr = Some v, Created_cr = False\<rparr>, stores_rt s2)"
    by blast
  with cr(2) later(2) show ?thesis
    unfolding route run respond_def f(3) by (auto simp: memory_idle writeJSON_def)
qed

section \<open>Completing twice\<close>

text \<open>The request with which a worker completes a task it holds.\<close>

definition complete_body :: "Task \<Rightarrow> json \<Rightarrow> string" where
  "complete_body t output =
     json_print (JObject [(''worker_id'', JString (LeaseOwner t)), (''lease_token'', JString (makeLeaseToken t)),
       (''version'', JInt (uint (Version t))), (''output'', output)])"

definition complete_request :: "string \<Rightarrow> Task \<Rightarrow> json \<Rightarrow> http_request" where
  "complete_request token t output =
     \<lparr>Method_rq = ''POST'', Path_rq = [''worker'', ''tasks'', ID t, ''complete''],
      Authorization_rq = ''Bearer '' @ TrimSpace token, IdempotencyKey_rq = [], Query_rq = (\<lambda>_. []),
      Body_rq = complete_body t output\<rparr>"

lemma makeLeaseToken_utf8: "valid_utf8 (makeLeaseToken t)"
  using EncodeToString_visible [of _ "json_print (token_json t)"] unfolding makeLeaseToken_def
  by (intro valid_utf8_ascii) (fastforce simp: list_all_iff visible_def byte_in_def)

lemma decode_complete_body:
  assumes "valid_utf8 (LeaseOwner t)" "json_ok output" "jdepth output < max_nesting"
    "length (complete_body t output) \<le> maxRequestBodyBytes"
  shows "decode_complete (complete_body t output) =
    Some \<lparr>WorkerID_wd = LeaseOwner t, LeaseToken_wd = makeLeaseToken t, Version_wd = Version t,
      Output_wd = json_print output, ResultRef_wd = []\<rparr>"
proof -
  let ?o = "JObject [(''worker_id'', JString (LeaseOwner t)), (''lease_token'', JString (makeLeaseToken t)),
       (''version'', JInt (uint (Version t))), (''output'', output)]"
  have "json_ok ?o" using assms(1,2) makeLeaseToken_utf8 by (auto intro!: valid_utf8_ascii simp: byte_in_def)
  then have "body_members (complete_body t output) =
      Some [(''worker_id'', JString (LeaseOwner t), json_print (JString (LeaseOwner t))),
        (''lease_token'', JString (makeLeaseToken t), json_print (JString (makeLeaseToken t))),
        (''version'', JInt (uint (Version t)), show_int (uint (Version t))), (''output'', output, json_print output)]"
    using assms(3) unfolding complete_body_def by (subst body_members_print) auto
  with assms(4) show ?thesis
    by (simp add: decode_complete_def decodeJSON_def complete_field_def field_match_def string_field_def
        uint64_field_def ParseUint_show byte_in_def)
qed

lemma http_complete_run:
  assumes "valid_utf8 (LeaseOwner t)" "json_ok output" "jdepth output < max_nesting" "wildcard (ID t)"
    "length (complete_body t output) \<le> maxRequestBodyBytes"
  shows "NewRouter (memory_handler rng clock lenient token) page env (complete_request token t output) s =
    respond (CompleteTask (memory_stores (rng 1) (rng 2) (rng 3)) (now1_he env) (now2_he env) (eventID_he env)
      \<lparr>TaskID_cm = ID t, WorkerID_cm = LeaseOwner t, Version_cm = Version t, LeaseToken_cm = makeLeaseToken t,
       Output_cm = json_print output, ResultRef_cm = []\<rparr>) (\<lambda>task. writeJSON 200 (TaskBody (Some task))) s"
proof -
  let ?h = "memory_handler rng clock lenient token"
  have auth: "authorizeWorker ?h (complete_request token t output) = None"
    by (simp add: authorizeWorker_def complete_request_def)
  have "find_route True m (complete_request token t output) = Some (CompleteR (ID t))" for m
    using assms(4) by (simp add: find_route_def post_route_def complete_request_def)
  then show ?thesis
    using auth decode_complete_body [OF assms(1-3,5)]
    by (simp add: NewRouter_def CompleteWorkerTask_def worker_request_def)
      (simp add: complete_request_def)
qed

lemma json_print_nonempty: "json_ok v \<Longrightarrow> json_print v \<noteq> []"
  using json_print_head [of v] by auto

lemma http_complete_twice:
  assumes h: "holds_lease s t (now1_he env) (eventID_he env)"
    and v: "json_ok output" "jdepth output < max_nesting" "unmarshal_any (json_print output) \<noteq> None"
    and r: "wildcard (ID t)" "length (complete_body t output) \<le> maxRequestBodyBytes"
  shows "\<exists>s1. NewRouter (memory_handler rng clock lenient token) page env (complete_request token t output) s =
      (\<lparr>Status_rs = 200, Body_rs = TaskBody (Some (completed t (json_print output) (now2_he env)))\<rparr>, s1) \<and>
    stores_rt s1 = commit (ID t) ((completed t (json_print output) (now2_he env))\<lparr>Version := Version t + 1\<rparr>)
      (succeeded_event (eventID_he env) t (now2_he env)) (stores_rt s) \<and>
    NewRouter (memory_handler rng clock lenient token) page env' (complete_request token t output) s1 =
      (\<lparr>Status_rs = 200, Body_rs = TaskBody (Some ((completed t (json_print output) (now2_he env))\<lparr>Version := Version t + 1\<rparr>))\<rparr>, s1)"
proof -
  have t: "valid_utf8 (LeaseOwner t)" "token_ok t" "idle s" using h by (auto simp: holds_lease_def token_ok_def)
  note run = http_complete_run [OF t(1) v(1,2) r]
  let ?in = "\<lparr>TaskID_cm = ID t, WorkerID_cm = LeaseOwner t, Version_cm = Version t, LeaseToken_cm = makeLeaseToken t,
       Output_cm = json_print output, ResultRef_cm = []\<rparr>"
  let ?u = "completed t (json_print output) (now2_he env)"
  have res: "completion_result ?in = json_print output"
    using json_print_nonempty [OF v(1)] by (simp add: completion_result_def)
  let ?S = "memory_stores (rng 1) (rng 2) (rng 3)"
  obtain s1 where s1: "CompleteTask ?S (now1_he env) (now2_he env) (eventID_he env) ?in s = (Inr ?u, s1)"
    "stores_rt s1 = commit (ID t) (?u\<lparr>Version := Version t + 1\<rparr>) (succeeded_event (eventID_he env) t (now2_he env)) (stores_rt s)"
    "idle s1"
    using CompleteTask_holder [OF h, where input = ?in and now = "now2_he env"] t(3) by (simp add: res)
  have "CompleteTask ?S (now1_he env') (now2_he env') (eventID_he env') ?in s1 = (Inr (?u\<lparr>Version := Version t + 1\<rparr>), s1)"
    using s1(2,3) t(2) v(3)
    by (intro CompleteTask_replay [where t = t]) (auto simp: res completed_def jsonSemanticallyEqual_def)
  with s1 show ?thesis unfolding run respond_def by (simp add: writeJSON_def)
qed

section \<open>Durations\<close>

lemma parseLeaseDuration_bound: "parseLeaseDuration raw = Inr d \<Longrightarrow> 0 < d \<and> in_i64 d"
  by (auto simp: parseLeaseDuration_def split: if_splits option.splits dest: ParseDuration_bound)

lemma duration_unit_chars:
  "duration_unit u = Some k \<Longrightarrow> list_all (\<lambda>c. \<not> (c = CHR ''.'' \<or> is_digit c)) u \<and> u \<noteq> [] \<and> 0 < k"
  by (auto simp: duration_unit_def is_digit_def split: if_splits)

lemma parseLeaseDuration_whole:
  "duration_unit u = Some k \<Longrightarrow> 0 < n \<Longrightarrow> n * k < 2 ^ 63 \<Longrightarrow> parseLeaseDuration (show_nat n @ u) = Inr (int (n * k))"
  using ParseDuration_whole [of u k n] duration_unit_chars [of u k]
  by (simp add: parseLeaseDuration_def not_le zero_less_mult_iff)

end
