(* ===== verification/Samples.thy ===== *)
theory Samples
  imports WorkerRuns InternalSpecs ClaimOrder TaskService HttpRuns
begin

text \<open>
  Concrete tasks, events and stores: a store with one queued task, and the same store after
  a worker \<open>w1\<close> has claimed it.  The properties are applied to them.
\<close>

definition sample_task :: Task where
  "sample_task = \<lparr>
        ID = ''task_1'', IdempotencyKey = ''k'', Workflow = ''demo'', Status = TaskStatusQueued,
        Input = ''{}'', Result = [], ErrorMessage = [],
        Progress = 0, RetryCount = 0, MaxRetries = 1, AvailableAt = 10, Version = 0,
        LeaseOwner = [], LeaseExpiresAt = None, LastHeartbeatAt = None, LeaseToken = [],
        TaskID = [], LeaseUntil = None, CreatedAt = 10, UpdatedAt = 10, StartedAt = None,
        FinishedAt = None\<rparr>"

definition sample_event :: TaskEvent where
  "sample_event = \<lparr>ID_ev = ''event_1'', TaskID_ev = ''task_1'', Type_ev = EventTaskCreated,
     Message_ev = ''task created'', Payload_ev = ''{}'', Progress_ev = 0, CreatedAt_ev = 10\<rparr>"

definition sample_stores :: MemoryStores where
  "sample_stores = snd (CreateTaskWithEvent None (Some sample_task) (Some sample_event) NewMemoryStores)"

definition leased_task :: Task where
  "leased_task = sample_task\<lparr>Status := TaskStatusRunning, Version := 1, LeaseOwner := ''w1'',
     LeaseExpiresAt := Some 100, UpdatedAt := 20, StartedAt := Some 20\<rparr>"

definition leased_event :: TaskEvent where
  "leased_event = \<lparr>ID_ev = ''event_2'', TaskID_ev = ''task_1'', Type_ev = EventTaskStarted,
     Message_ev = ''task started'', Payload_ev = ''{}'', Progress_ev = 0, CreatedAt_ev = 20\<rparr>"

definition leased_stores :: MemoryStores where
  "leased_stores = commit ''task_1'' leased_task leased_event sample_stores"

lemmas sample_defs = sample_task_def sample_event_def leased_task_def leased_event_def

lemma sample_stores_eq:
  "sample_stores =
     \<lparr>taskStore = put_key sample_task (put_task ''task_1'' sample_task NewMemoryTaskStore),
      eventStore = put_event sample_event NewMemoryEventStore\<rparr>"
  by (simp add: sample_stores_def CreateTaskWithEvent_def NewMemoryStores_def NewMemoryTaskStore_def
      NewMemoryEventStore_def sample_defs)

lemma sample_lookup: "stored_task sample_stores ''task_1'' = Some sample_task"
  by (simp add: sample_stores_eq)

lemma sample_reachable: "reachable sample_stores"
proof (rule reachable.step [OF reachable.init])
  have "new_task sample_task sample_event"
    by (simp add: new_task_def task_wf_def sample_defs in_i64_def)
  then show "store_step NewMemoryStores sample_stores"
    unfolding sample_stores_def by (rule store_step.create [rotated]) (rule surjective_pairing)
qed

lemma sample_wf: "stores_wf sample_stores"
  by (rule reachable_wf [OF sample_reachable])

lemma leased_wf: "stores_wf leased_stores"
  unfolding leased_stores_def
proof (rule commit_wf [OF sample_wf sample_lookup])
  show "task_wf leased_task" by (simp add: task_wf_def sample_defs in_i64_def)
qed (simp_all add: sample_defs task_frame_def event_retries_def sample_stores_eq NewMemoryEventStore_def)

lemma leased_lookup: "stored_task leased_stores ''task_1'' = Some leased_task"
  by (simp add: leased_stores_def)

lemma leased_holder:
  "now < 100 \<Longrightarrow> holds_lease (start_runtime leased_stores) leased_task now ''event_3''"
proof -
  have "TrimSpace ''w1'' = ''w1''" by (rule TrimSpace_visible) (simp_all add: visible_def)
  then show "now < 100 \<Longrightarrow> ?thesis"
    using leased_lookup leased_wf
    by (auto simp: holds_lease_def token_ok_def leased_task_def sample_task_def byte_in_def
        leased_stores_def sample_stores_eq NewMemoryEventStore_def sample_event_def leased_event_def
        intro!: valid_utf8_ascii)
qed

section \<open>A running program and requests\<close>

abbreviation sample_memory :: "runtime runtimeStores" where
  "sample_memory \<equiv> memory_stores (\<lambda>m. m) (\<lambda>m. m) (\<lambda>m. m)"

abbreviation sample_runtime :: runtime where
  "sample_runtime \<equiv> start_runtime sample_stores"

abbreviation leased_runtime :: runtime where
  "leased_runtime \<equiv> start_runtime leased_stores"

definition sample_token :: string where
  "sample_token = makeLeaseToken leased_task"

definition sample_claim :: ClaimTaskInput where
  "sample_claim = \<lparr>WorkerID_ci = ''w1'', Workflow_ci = ''demo'', LeaseDuration_ci = 50\<rparr>"

definition sample_complete :: CompleteTaskInput where
  "sample_complete = \<lparr>TaskID_cm = ''task_1'', WorkerID_cm = ''w1'', Version_cm = 1, LeaseToken_cm = sample_token,
     Output_cm = ''{}'', ResultRef_cm = []\<rparr>"

definition sample_progress :: ReportProgressInput where
  "sample_progress = \<lparr>TaskID_pi = ''task_1'', WorkerID_pi = ''w1'', Version_pi = 1, LeaseToken_pi = sample_token,
     Progress_pi = 40, Message_pi = ''halfway''\<rparr>"

definition sample_fail :: FailTaskInput where
  "sample_fail = \<lparr>TaskID_fi = ''task_1'', WorkerID_fi = ''w1'', Version_fi = 1, LeaseToken_fi = sample_token,
     ErrorCode_fi = ''boom'', ErrorMessage_fi = ''it broke'', Retryable_fi = True, RetryAfter_fi = 0\<rparr>"

definition sample_release :: ReleaseTaskInput where
  "sample_release = \<lparr>TaskID_ri = ''task_1'', WorkerID_ri = ''w1'', Version_ri = 1, LeaseToken_ri = sample_token\<rparr>"

definition sample_heartbeat :: HeartbeatTaskInput where
  "sample_heartbeat = \<lparr>TaskID_hi = ''task_1'', WorkerID_hi = ''w1'', LeaseToken_hi = sample_token, LeaseDuration_hi = 50\<rparr>"

definition sample_create :: CreateTaskInput where
  "sample_create = \<lparr>IdempotencyKey_in = ''k'', Workflow_in = ''demo'', Input_in = ''{ }'', MaxRetries_in = 1\<rparr>"

lemma leased_fields [simp]:
  "ID leased_task = ''task_1''" "LeaseOwner leased_task = ''w1''" "Version leased_task = 1"
  "Status leased_task = TaskStatusRunning" "LeaseExpiresAt leased_task = Some 100"
  by (simp_all add: leased_task_def sample_task_def)

lemma sample_complete_fields:
  "TaskID_cm sample_complete = ID leased_task" "WorkerID_cm sample_complete = LeaseOwner leased_task"
  "LeaseToken_cm sample_complete = makeLeaseToken leased_task" "completion_result sample_complete = ''{}''"
  by (simp_all add: sample_complete_def sample_token_def completion_result_def)

lemma unmarshal_empty_object: "unmarshal_any ''{}'' \<noteq> None"
  using parse_json_print [of "JObject []"] by (simp add: unmarshal_any_def max_nesting_def)

lemma leased_token_ok: "token_ok leased_task"
  using leased_holder [of 0] by (simp add: holds_lease_def)

section \<open>A worker and a claim\<close>

definition sample_executor :: "runtime executor" where
  "sample_executor t s = (Inr \<lparr>Output_er = ''{}'', Outcome_er = OutcomePartial, ErrorMessage_er = ''late''\<rparr>, s)"

definition sample_worker :: "runtime Worker" where
  "sample_worker = New_worker [''demo'' \<mapsto> sample_executor] Map.empty (\<lambda>_. 0) ''w9''"

definition sample_env :: process_env where
  "sample_env = \<lparr>claimAt_pe = 50, startedAt_pe = 51, retryAt_pe = 60, executedAt_pe = 60, finishedAt_pe = 61,
     claimEvent_pe = ''event_2'', finishEvent_pe = ''event_3'', ticks_pe = [55], isPrint_pe = (\<lambda>_. True)\<rparr>"

lemma sample_worker_storeless: "storeless_worker stores_rt fair_schedule sample_worker"
  by (auto simp: storeless_worker_def storeless_def sample_worker_def New_worker_def sample_executor_def
      only_others_def split: if_splits)

definition sample_claim_options :: ClaimOptions where
  "sample_claim_options = \<lparr>WorkerID_co = ''w1'', Workflow_co = ''demo'', Now_co = 20, LeaseDuration_co = 80\<rparr>"

lemma sample_select:
  "select_claim (\<lambda>m. m) (\<lambda>m. m) sample_claim_options (taskStore sample_stores) =
     Some ((''task_1'', sample_task), ClaimInitial)"
  by (simp add: select_claim_def scan_tasks_def sample_stores_eq put_task_def NewMemoryTaskStore_def
      expired_claimable_def ready_claimable_def workflow_skip_def sample_claim_options_def sample_defs put_key_def)

section \<open>HTTP\<close>

definition sample_http_env :: http_env where
  "sample_http_env = \<lparr>now1_he = 50, now2_he = 60, retryNow_he = 55, taskID_he = ''task_2'', eventID_he = ''event_3'',
     retryEventID_he = ''event_4'', jitter_he = (\<lambda>_. 0)\<rparr>"

lemma sample_secret: "TrimSpace ''secret'' = ''secret''"
  by (rule TrimSpace_visible) (simp_all add: visible_def)

lemma sample_null: "unmarshal_any ''null'' \<noteq> None"
  using parse_json_print [of JNull] by (simp add: unmarshal_any_def max_nesting_def)

lemma quote_body_length: "length (quote_body s) \<le> 6 * length s"
proof (induction s rule: quote_body.induct)
  case (1 s)
  show ?case
  proof (cases s)
    case Nil
    then show ?thesis by (simp add: quote_body.simps)
  next
    case (Cons c cs)
    consider (a) "byte_in 0 127 c" | (b) "\<not> byte_in 0 127 c" "rune_size s = 0" | (c) "\<not> byte_in 0 127 c" "rune_size s \<noteq> 0"
      by blast
    then show ?thesis
    proof cases
      case a
      have "length (escape_ascii c) \<le> 6" by (simp add: escape_ascii_def)
      with a "1.IH"(1) [OF Cons] Cons show ?thesis by (subst quote_body.simps) simp
    next
      case b
      with "1.IH"(2) [OF Cons] Cons show ?thesis by (subst quote_body.simps) simp
    next
      case c
      have "length (escape_rune (take (rune_size s) s)) \<le> 6 * rune_size s"
        using c rune_size_le [of s] by (simp add: escape_rune_def)
      with c "1.IH"(3) [OF Cons] Cons rune_size_le [of s] show ?thesis by (subst quote_body.simps) simp
    qed
  qed
qed

lemma EncodeToString_length: "length (EncodeToString s) \<le> 2 * length s"
proof -
  have "length (b64_encode_bytes bs) \<le> 2 * length bs" for bs
    by (induction bs rule: b64_encode_bytes.induct) simp_all
  from this [of "map of_char s"] show ?thesis by (simp add: EncodeToString_def)
qed

lemma sample_complete_body: "length (complete_body leased_task JNull) \<le> maxRequestBodyBytes"
proof -
  have q: "length (json_quote s) \<le> 6 * length s + 2" for s
    using quote_body_length [of s] by (simp add: json_quote_def)
  have "length (json_print (token_json leased_task)) \<le> 500"
    using q [of "''task_id''"] q [of "''worker_id''"] q [of "''version''"] q [of "''task_1''"] q [of "''w1''"]
    by (simp add: token_json_def show_int_def show_nat_eval)
  then have "length (makeLeaseToken leased_task) \<le> 1000"
    using EncodeToString_length [of "json_print (token_json leased_task)"] by (simp add: makeLeaseToken_def)
  then show ?thesis
    using q [of "''lease_token''"] q [of "''worker_id''"] q [of "''version''"] q [of "''output''"] q [of "''w1''"]
      q [of "makeLeaseToken leased_task"]
    by (simp add: complete_body_def show_int_def show_nat_eval maxRequestBodyBytes_def)
qed

definition sample_create_request :: http_request where
  "sample_create_request = \<lparr>Method_rq = ''POST'', Path_rq = [''tasks''], Authorization_rq = [], IdempotencyKey_rq = ''k'',
     Query_rq = (\<lambda>_. []), Body_rq = json_print (JObject [(''workflow'', JString ''demo''), (''max_retries'', JInt 1)])\<rparr>"

abbreviation sample_created_run :: "http_response \<times> runtime" where
  "sample_created_run \<equiv> NewRouter (memory_handler (\<lambda>_ m. m) 0 (\<lambda>_. None) ''secret'') None sample_http_env sample_create_request
     (start_runtime NewMemoryStores)"

lemma sample_decode_create:
  "decode_create (Body_rq sample_create_request) = Some \<lparr>Workflow_cq = ''demo'', Input_cq = [], MaxRetries_cq = 1\<rparr>"
proof -
  let ?o = "JObject [(''workflow'', JString ''demo''), (''max_retries'', JInt 1)]"
  have "json_ok ?o" by (auto intro!: valid_utf8_ascii simp: byte_in_def)
  then have m: "body_members (json_print ?o) =
      Some [(''workflow'', JString ''demo'', json_quote ''demo''), (''max_retries'', JInt 1, show_int 1)]"
    by (subst body_members_print) (auto simp: max_nesting_def)
  have "length (json_print ?o) \<le> maxRequestBodyBytes"
    using quote_body_length [of "''workflow''"] quote_body_length [of "''demo''"] quote_body_length [of "''max_retries''"]
    by (simp add: json_quote_def show_int_def show_nat_eval maxRequestBodyBytes_def)
  moreover have "Atoi (show_int 1) = Some 1"
    by (rule Atoi_show) (simp add: in_i64_def)
  ultimately show ?thesis
    using m by (simp add: sample_create_request_def decode_create_def decodeJSON_def create_field_def field_match_def
        string_field_def int_field_def byte_in_def del: json_print.simps)
qed

lemma sample_created:
  "NewRouter (memory_handler (\<lambda>_ m. m) 0 (\<lambda>_. None) ''secret'') None sample_http_env sample_create_request
     (start_runtime NewMemoryStores) = (fst sample_created_run, snd sample_created_run)"
  "Status_rs (fst sample_created_run) < 400" "idle (snd sample_created_run)"
proof -
  have k: "TrimSpace ''k'' = ''k''" by (rule TrimSpace_visible) (simp_all add: visible_def)
  have "\<exists>t m. sample_created_run = (writeJSON 201 (TaskBody (Some t)), (start_runtime NewMemoryStores)\<lparr>stores_rt := m\<rparr>)"
    using sample_decode_create k
    by (simp add: NewRouter_def find_route_def post_route_def sample_create_request_def CreateTask_http_def respond_def
        CreateTask_def NewTask_def NewTaskEvent_def sample_http_env_def memory_idle CreateTaskWithEvent_def
        NewMemoryStores_def NewMemoryTaskStore_def NewMemoryEventStore_def) blast
  then show "Status_rs (fst sample_created_run) < 400" "idle (snd sample_created_run)" by (auto simp: writeJSON_def)
qed simp

end
