(* ===== verification/LeaseSpecs.thy ===== *)
theory LeaseSpecs
  imports WorkerRuns QueueSpec
begin

text \<open>
  Claims and heartbeats of external workers, on every branch, in the terms of the contract of
  \<open>QueueSpec\<close>: which task a claim takes and the lease it grants, and which token renews a lease.
\<close>

text \<open>
  A task as the service hands it out: with a lease token, which is read back as the id of the task,
  its worker and its version (for ids that are text), and the end of the lease.
\<close>

definition with_token :: "Task \<Rightarrow> Task \<Rightarrow> bool" where
  "with_token t u \<longleftrightarrow>
     (\<exists>token. u = t\<lparr>LeaseToken := token, TaskID := ID t, LeaseUntil := LeaseExpiresAt t\<rparr> \<and>
        (token_ok t \<longrightarrow> token_claims (ID t) (LeaseOwner t) token =
           Inr \<lparr>TaskID_lt = ID t, WorkerID_lt = LeaseOwner t, Version_lt = Version t\<rparr>))"

lemma withLeaseToken_eq: "LeaseOwner t \<noteq> [] \<Longrightarrow> with_token t (withLeaseToken t)"
  unfolding with_token_def withLeaseToken_def by (auto simp: token_claims_makeLeaseToken)

section \<open>Claims\<close>

definition claim_task_spec :: "ClaimTaskInput \<Rightarrow> time \<Rightarrow> string \<Rightarrow> Task outcome" where
  "claim_task_spec input now eid m r m' \<longleftrightarrow>
     (if TrimSpace (WorkerID_ci input) = [] \<or> TrimSpace (Workflow_ci input) = [] \<or> LeaseDuration_ci input \<le> 0
      then refused_with ErrInvalidWorkerRequest m r m'
      else \<exists>r0. claim_spec (WorkerID_ci input) (TrimSpace (Workflow_ci input)) now (LeaseDuration_ci input) eid m r0 m' \<and>
        (case r0 of Inl e \<Rightarrow> r = Inl e | Inr t \<Rightarrow> (\<exists>u. r = Inr u \<and> with_token t u)))"

lemma claim_spec_owner: "claim_spec w workflow now d eid m (Inr t) m' \<Longrightarrow> LeaseOwner t = w"
  by (auto simp: claim_spec_def refused_with_def on_lease_def split: if_splits)

lemma ClaimTask_meets:
  assumes s: "fair_schedule s" "stores_wf (stores_rt s)" and rng: "range_order rng1" "range_order rng2" "range_order rng3"
  shows "at_once s (ClaimTask (memory_stores rng1 rng2 rng3) now eid input s) (claim_task_spec input now eid)"
proof (cases "TrimSpace (WorkerID_ci input) = [] \<or> TrimSpace (Workflow_ci input) = [] \<or> LeaseDuration_ci input \<le> 0")
  case True
  with s(1) show ?thesis
    by (auto simp: ClaimTask_def raise_def at_once_def claim_task_spec_def refused_with_def intro!: exI [of _ "stores_rt s"])
next
  case False
  let ?S = "memory_stores rng1 rng2 rng3"
  obtain r0 s1 where c: "ClaimNextWithEvent_rs ?S \<lparr>WorkerID_co = WorkerID_ci input, Workflow_co = TrimSpace (Workflow_ci input),
      Now_co = now, LeaseDuration_co = LeaseDuration_ci input\<rparr> eid s = (r0, s1)" by force
  have ne: "WorkerID_ci input \<noteq> []" using False by auto
  let ?r = "case r0 of Inl e \<Rightarrow> Inl e | Inr t \<Rightarrow> Inr (withLeaseToken t)"
  have out: "\<exists>s'. ClaimTask ?S now eid input s = (?r, s') \<and> stores_rt s' = stores_rt s1 \<and> schedule_rt s' = schedule_rt s1"
    using False c by (cases r0) (auto simp: ClaimTask_def bind_def effect_def ret_def memory_stores_def)
  have keep: "claim_task_spec input now eid m ?r m'"
    if "claim_spec (WorkerID_ci input) (TrimSpace (Workflow_ci input)) now (LeaseDuration_ci input) eid m r0 m'" for m m'
    using that False claim_spec_owner [of "WorkerID_ci input"] ne withLeaseToken_eq
    unfolding claim_task_spec_def by (cases r0) auto
  have ctx: "refused_with e m ?r m'" if "refused_with e m r0 m'" for e m m' using that by (simp add: refused_with_def)
  from memory_takes_meet(1) [OF s rng, of "WorkerID_ci input" "TrimSpace (Workflow_ci input)" now "LeaseDuration_ci input" eid]
    c out keep ctx show ?thesis unfolding at_once_def fair_schedule_def by auto
qed

section \<open>Heartbeats\<close>

definition heartbeat_spec :: "HeartbeatTaskInput \<Rightarrow> time \<Rightarrow> Task outcome" where
  "heartbeat_spec input now m r m' \<longleftrightarrow>
     (let tid = TaskID_hi input; worker = WorkerID_hi input; d = LeaseDuration_hi input in
      if tid = [] \<or> TrimSpace worker = [] \<or> d \<le> 0 then refused_with ErrInvalidWorkerRequest m r m'
      else case token_claims tid worker (LeaseToken_hi input) of
        Inl _ \<Rightarrow> refused_with ErrLeaseLost m r m'
      | Inr p \<Rightarrow>
          (case stored_task m tid of
             None \<Rightarrow> refused_with ErrTaskNotFound m r m'
           | Some t \<Rightarrow>
               if Version t \<noteq> Version_lt p \<or> LeaseOwner t \<noteq> worker then refused_with ErrLeaseLost m r m'
               else if now = 0 then refused_with ErrInvalidLeaseRenewal m r m'
               else if \<not> holds worker now t then refused_with ErrLeaseLost m r m'
               else (\<exists>u. r = Inr u \<and> with_token (with_renewal now d t) u) \<and> eventStore m' = eventStore m \<and>
                 stored_task m' = (stored_task m)(tid \<mapsto> with_renewal now d t)))"

lemma token_claims_Inl: "token_claims tid w token = Inl e \<Longrightarrow> e = ErrLeaseLost"
  by (auto simp: token_claims_def split: if_splits sum.splits)

lemma recordLeaseLoss_idle: "idle s \<Longrightarrow> stores_rt (recordLeaseLoss (memory_stores rng1 rng2 rng3) tid e s) = stores_rt s"
  by (auto simp: recordLeaseLoss_def memory_idle split: sum.split)

lemma HeartbeatTask_meets:
  assumes s: "idle s" and run: "HeartbeatTask (memory_stores rng1 rng2 rng3) now input s = (r, s')"
  shows "heartbeat_spec input now (stores_rt s) r (stores_rt s')"
proof -
  let ?S = "memory_stores rng1 rng2 rng3" and ?tid = "TaskID_hi input" and ?w = "WorkerID_hi input"
  let ?d = "LeaseDuration_hi input"
  note loss = recordLeaseLoss_idle [OF s]
  show ?thesis
  proof (cases "?tid = [] \<or> TrimSpace ?w = [] \<or> ?d \<le> 0")
    case True
    with run show ?thesis by (auto simp: HeartbeatTask_def raise_def heartbeat_spec_def refused_with_def Let_def)
  next
    case ok: False
    then have w: "?w \<noteq> []" by auto
    show ?thesis
    proof (cases "token_claims ?tid ?w (LeaseToken_hi input)")
      case (Inl e)
      with run ok s loss token_claims_Inl [OF Inl] show ?thesis
        by (auto simp: HeartbeatTask_def validateLeaseToken_def attempt_def effect_def raise_def heartbeat_spec_def refused_with_def)
    next
      case (Inr p)
      show ?thesis
      proof (cases "stored_task (stores_rt s) ?tid")
        case None
        with run ok Inr s loss show ?thesis
          by (auto simp: HeartbeatTask_def validateLeaseToken_def bind_def memory_idle Get_def attempt_def effect_def raise_def
              heartbeat_spec_def refused_with_def)
      next
        case (Some t)
        show ?thesis
        proof (cases "Version t \<noteq> Version_lt p \<or> LeaseOwner t \<noteq> ?w")
          case True
          with run ok Inr Some s loss show ?thesis
            by (auto simp: HeartbeatTask_def validateLeaseToken_def bind_def memory_idle Get_def attempt_def effect_def raise_def
                heartbeat_spec_def refused_with_def)
        next
          case False
          then have v: "validateLeaseToken ?S ?tid ?w (LeaseToken_hi input) s = (Inr (), s)"
            using Inr Some s by (simp add: validateLeaseToken_def bind_def memory_idle Get_def ret_def)
          show ?thesis
          proof (cases "now = 0 \<or> \<not> holds ?w now t")
            case True
            with run ok Inr Some s loss v False w show ?thesis
              by (auto simp: HeartbeatTask_def attempt_def effect_def raise_def memory_idle RenewLease_def Validate_renew_def
                  IsZero_def holds_iff heartbeat_spec_def refused_with_def)
          next
            case held: False
            have "RenewLease None \<lparr>TaskID_rl = ?tid, WorkerID_rl = ?w, Now_rl = now, LeaseDuration_rl = ?d\<rparr> (taskStore (stores_rt s)) =
                (None, put_task ?tid (with_renewal now ?d t) (taskStore (stores_rt s)))"
              using ok w held Some
              by (simp add: RenewLease_def Validate_renew_def IsZero_def holds_iff with_renewal_def Add_time_def)
            with run ok v s have "r = Inr (withLeaseToken (with_renewal now ?d t))"
              "stores_rt s' = (stores_rt s)\<lparr>taskStore := put_task ?tid (with_renewal now ?d t) (taskStore (stores_rt s))\<rparr>"
              by (auto simp: HeartbeatTask_def attempt_def memory_idle bind_def Get_def effect_def ret_def)
            moreover have "with_token (with_renewal now ?d t) (withLeaseToken (with_renewal now ?d t))"
              using False w by (intro withLeaseToken_eq) (simp add: with_renewal_def)
            ultimately show ?thesis using ok Inr Some False held
              by (auto simp: heartbeat_spec_def)
          qed
        qed
      qed
    qed
  qed
qed

text \<open>The same under any interleaving, as far as it can be told then.\<close>

lemma HeartbeatTask_interleaved:
  assumes "range_order rng1" "range_order rng2" "range_order rng3"
    and "fair_schedule s" "stores_wf (stores_rt s)"
    and "HeartbeatTask (memory_stores rng1 rng2 rng3) now input s = (r, s')"
  shows "fair_schedule s' \<and> stores_wf (stores_rt s') \<and>
    (env_step\<^sup>*\<^sup>* (stores_rt s) (stores_rt s') \<and> (\<exists>e. r = Inl e) \<or>
     (\<exists>m0 m1 m2 p t t0. env_step\<^sup>*\<^sup>* (stores_rt s) m0 \<and> env_step\<^sup>*\<^sup>* m0 m1 \<and> store_step m1 m2 \<and> env_step\<^sup>*\<^sup>* m2 (stores_rt s') \<and>
        token_claims (TaskID_hi input) (WorkerID_hi input) (LeaseToken_hi input) = Inr p \<and>
        stored_task m0 (TaskID_hi input) = Some t \<and> Version t = Version_lt p \<and> LeaseOwner t = WorkerID_hi input \<and>
        stored_task m1 (TaskID_hi input) = Some t0 \<and> holds (WorkerID_hi input) now t0 \<and> 0 < LeaseDuration_hi input \<and>
        stored_task m2 = (stored_task m1)(TaskID_hi input \<mapsto> with_renewal now (LeaseDuration_hi input) t0) \<and>
        eventStore m2 = eventStore m1 \<and>
        (\<forall>u. r = Inr u \<longrightarrow> (\<exists>v. stored_task (stores_rt s') (TaskID_hi input) = Some v \<and> u = withLeaseToken v))))"
  using task_stores.HeartbeatTask_spec [OF memory_task_stores [OF assms(1-3)] assms(4-6)]
proof (elim conjE disjE exE)
  fix m0 m1 m2 :: MemoryStores and p t t0
  assume h: "m2 = m1\<lparr>taskStore := put_task (TaskID_hi input) (renewed now (LeaseDuration_hi input) t0) (taskStore m1)\<rparr>"
    "lease_held (WorkerID_hi input) now t0"
  from h(1) have "stored_task m2 = (stored_task m1)(TaskID_hi input \<mapsto> with_renewal now (LeaseDuration_hi input) t0)"
    "eventStore m2 = eventStore m1" by (simp_all add: renewed_eq)
  moreover have "holds (WorkerID_hi input) now t0" using h(2) by (simp add: holds_iff)
  moreover assume "fair_schedule s'" "stores_wf (stores_rt s')" "env_step\<^sup>*\<^sup>* (stores_rt s) m0" "env_step\<^sup>*\<^sup>* m0 m1"
    "store_step m1 m2" "env_step\<^sup>*\<^sup>* m2 (stores_rt s')"
    "token_claims (TaskID_hi input) (WorkerID_hi input) (LeaseToken_hi input) = Inr p"
    "stored_task m0 (TaskID_hi input) = Some t" "Version t = Version_lt p" "LeaseOwner t = WorkerID_hi input"
    "stored_task m1 (TaskID_hi input) = Some t0" "0 < LeaseDuration_hi input"
    "\<forall>u. r = Inr u \<longrightarrow> (\<exists>v. stored_task (stores_rt s') (TaskID_hi input) = Some v \<and> u = withLeaseToken v)"
  ultimately show ?thesis by blast
qed blast

end
