(* ===== verification/InternalRounds.thy ===== *)
theory InternalRounds
  imports InternalSpecs LeaseSpecs
begin

text \<open>
  A round of an internal worker that no other client disturbs, on every branch of the claim: when
  the executor answers with a result, or there is none, and every renewal comes in time, the round
  has no error and leaves the claimed task as the answer says.
\<close>

section \<open>The contract\<close>

text \<open>Every tick of the renewal timer comes before the end of the lease.\<close>

fun in_time :: "duration \<Rightarrow> time \<Rightarrow> time list \<Rightarrow> bool" where
  "in_time d l [] \<longleftrightarrow> True"
| "in_time d l (now # ticks) \<longleftrightarrow> now \<noteq> 0 \<and> now < l \<and> in_time d (now + d) ticks"

definition plain_answer :: "'s Worker \<Rightarrow> process_env \<Rightarrow> Task \<Rightarrow> ExecutionResult result option \<Rightarrow> bool" where
  "plain_answer w env u er \<longleftrightarrow>
     (case executors_w w (Workflow u) of
        None \<Rightarrow> er = None
      | Some ex \<Rightarrow>
          in_time (leaseDuration_w w) (claimAt_pe env + leaseDuration_w w) (ticks_pe env) \<and>
          (\<exists>res. er = Some (Inr res) \<and> (\<forall>s. ex u s = (Inr res, s))))"

definition round_spec ::
  "'s Worker \<Rightarrow> process_env \<Rightarrow> MemoryStores \<Rightarrow> bool \<times> error option \<Rightarrow> MemoryStores \<Rightarrow> bool" where
  "round_spec w env m r m' \<longleftrightarrow>
     (\<exists>r0 m1. claim_spec (id_w w) [] (claimAt_pe env) (leaseDuration_w w) (claimEvent_pe env) m r0 m1 \<and>
        (case r0 of
           Inl e \<Rightarrow> m' = m \<and> r = (False, if errors_Is e ErrNoTaskAvailable then None
                                        else Some (Wrap ''claim task and append event: '' e []))
         | Inr u \<Rightarrow> fst r \<and>
             (\<forall>er. plain_answer w env u er \<longrightarrow> finishEvent_pe env \<noteq> [] \<longrightarrow> \<not> used_id m1 (finishEvent_pe env) \<longrightarrow>
                snd r = None \<and>
                (\<exists>t ev. process_outcome w env er u t ev \<and> Version t = Version u + 1 \<and> stored (ID u) t ev m1 m'))))"

section \<open>The worker keeps it\<close>

lemma maintainLease_in_time:
  assumes "idle s" "stored_task (stores_rt s) (ID t) = Some t0" "Status t0 = TaskStatusRunning" "LeaseOwner t0 = id_w w"
    "LeaseExpiresAt t0 = Some l" "id_w w \<noteq> []" "ID t \<noteq> []" "0 < leaseDuration_w w" "in_time (leaseDuration_w w) l ticks"
  shows "\<exists>s1 t1. maintainLease (memory_stores rng1 rng2 rng3) w p t ticks s = (None, s1) \<and> idle s1 \<and>
    stored_task (stores_rt s1) = (stored_task (stores_rt s))(ID t \<mapsto> t1) \<and> Version t1 = Version t0 \<and>
    eventStore (stores_rt s1) = eventStore (stores_rt s)"
  using assms
proof (induction ticks arbitrary: s t0 l)
  case Nil
  then show ?case by (auto intro!: exI [of _ s] exI [of _ t0])
next
  case (Cons now ticks)
  let ?d = "leaseDuration_w w" and ?S = "memory_stores rng1 rng2 rng3"
  let ?s1 = "s\<lparr>stores_rt := (stores_rt s)\<lparr>taskStore := put_task (ID t) (with_renewal now ?d t0) (taskStore (stores_rt s))\<rparr>\<rparr>"
  let ?s2 = "metrics_rs ?S (RecordLeaseRenewed (Workflow t)) ?s1"
  have "RenewLease_rs ?S \<lparr>TaskID_rl = ID t, WorkerID_rl = id_w w, Now_rl = now, LeaseDuration_rl = ?d\<rparr> s = (Inr (), ?s1)"
    using Cons.prems
    by (simp add: memory_idle RenewLease_def Validate_renew_def IsZero_def holds_iff holds_def with_renewal_def Add_time_def)
  then have run: "maintainLease ?S w p t (now # ticks) s = maintainLease ?S w p t ticks ?s2" by simp
  have s2: "idle ?s2" "stored_task (stores_rt ?s2) = (stored_task (stores_rt s))(ID t \<mapsto> with_renewal now ?d t0)"
    "eventStore (stores_rt ?s2) = eventStore (stores_rt s)"
    using Cons.prems(1) by (simp_all add: memory_stores_def idle_def)
  have t2: "Status (with_renewal now ?d t0) = TaskStatusRunning" "LeaseOwner (with_renewal now ?d t0) = id_w w"
    "LeaseExpiresAt (with_renewal now ?d t0) = Some (now + ?d)" "Version (with_renewal now ?d t0) = Version t0"
    "in_time ?d (now + ?d) ticks"
    using Cons.prems by (simp_all add: with_renewal_def)
  from s2(2) have look: "stored_task (stores_rt ?s2) (ID t) = Some (with_renewal now ?d t0)" by simp
  obtain s1 t1 where "maintainLease ?S w p t ticks ?s2 = (None, s1)" "idle s1"
    "stored_task (stores_rt s1) = (stored_task (stores_rt ?s2))(ID t \<mapsto> t1)" "Version t1 = Version t0"
    "eventStore (stores_rt s1) = eventStore (stores_rt ?s2)"
    using Cons.IH [OF s2(1) look t2(1-3) Cons.prems(6-8) t2(5)] unfolding t2(4) by (elim exE conjE)
  then show ?case unfolding run s2 by (auto intro!: exI [of _ t1] simp: fun_eq_iff)
qed

text \<open>The last write of a round, on a task whose stored version is still the claimed one.\<close>

lemma Update_in_round:
  assumes "idle s" "stored_task (stores_rt s) (ID u) = Some t1" "Version t1 = Version u" "\<not> event_known (stores_rt s) (ID_ev ev)"
    "ID t = ID u" "Version t = Version u" "TaskID_ev ev = ID u"
  shows "UpdateTaskWithEvent_rs (memory_stores rng1 rng2 rng3) (Some t) (Some ev) s =
    (Inr (), s\<lparr>stores_rt := commit (ID u) (t\<lparr>Version := Version u + 1\<rparr>) ev (stores_rt s)\<rparr>)"
  using assms by (simp add: memory_idle UpdateTaskWithEvent_def)

lemma finish_move:
  assumes "Status t = TaskStatusRunning" "st \<in> {TaskStatusSucceeded, TaskStatusPartial, TaskStatusFailed}"
  shows "\<exists>t'. MoveTo (Some t) st now = Inr t' \<and> ID t' = ID t \<and> Version t' = Version t \<and> Workflow t' = Workflow t \<and>
    Status t' = st \<and> Result t' = Result t \<and> Progress t' = Progress t \<and> ErrorMessage t' = ErrorMessage t \<and> FinishedAt t' = Some now"
  using assms by (auto simp: MoveTo_def enter_status_def)

lemma finish_event:
  assumes "eid \<noteq> []" "ID t \<noteq> []" "0 \<le> Progress t" "Progress t \<le> 100" "ty \<noteq> OtherEvent []"
  shows "\<exists>ev. newEvent eid t ty msg now = Inr ev \<and> ID_ev ev = eid \<and> TaskID_ev ev = ID t \<and> Type_ev ev = ty"
  using assms by (simp add: newEvent_def NewTaskEvent_def)

text \<open>The task \<open>u\<close> is still stored at its version, and the id of the closing event is fresh.\<close>

definition at_hand :: "runtime \<Rightarrow> Task \<Rightarrow> string \<Rightarrow> bool" where
  "at_hand s u eid \<longleftrightarrow>
     idle s \<and> Status u = TaskStatusRunning \<and> ID u \<noteq> [] \<and> 0 \<le> Progress u \<and> Progress u \<le> 100 \<and> eid \<noteq> [] \<and>
     \<not> event_known (stores_rt s) eid \<and> (\<exists>t1. stored_task (stores_rt s) (ID u) = Some t1 \<and> Version t1 = Version u)"

lemma finishFailed_at_hand:
  assumes h: "at_hand s u eid" and p: "0 \<le> p" "p \<le> 100"
  shows "\<exists>s' t ev. finishFailed (memory_stores rng1 rng2 rng3) now eid (u\<lparr>Result := res, Progress := p, ErrorMessage := em\<rparr>) cause d s =
      (Inr (), s') \<and> stores_rt s' = commit (ID u) t ev (stores_rt s) \<and> Version t = Version u + 1 \<and> TaskID_ev ev = ID u \<and>
      Status t = TaskStatusFailed \<and> Result t = res \<and> Progress t = p \<and> ErrorMessage t = error_text cause \<and>
      FinishedAt t = Some now \<and> Type_ev ev = EventTaskFailed"
proof -
  let ?u = "u\<lparr>Result := res, Progress := p, ErrorMessage := error_text cause\<rparr>"
  obtain t where t: "MoveTo (Some ?u) TaskStatusFailed now = Inr t" "ID t = ID u" "Version t = Version u"
    "Status t = TaskStatusFailed" "Result t = res" "Progress t = p" "ErrorMessage t = error_text cause" "FinishedAt t = Some now"
    using finish_move [of ?u TaskStatusFailed now] h by (auto simp: at_hand_def)
  obtain ev where ev: "newEvent eid t EventTaskFailed ''task failed'' now = Inr ev" "ID_ev ev = eid" "TaskID_ev ev = ID u"
    "Type_ev ev = EventTaskFailed"
    using finish_event [of eid t EventTaskFailed "''task failed''" now] t h p by (auto simp: at_hand_def)
  from h obtain t1 where t1: "stored_task (stores_rt s) (ID u) = Some t1" "Version t1 = Version u" "idle s"
    "\<not> event_known (stores_rt s) (ID_ev ev)" using ev(2) by (auto simp: at_hand_def)
  note upd = Update_in_round [OF t1(3,1,2,4) t(2,3) ev(3)]
  show ?thesis
    by (rule exI [of _ "s\<lparr>stores_rt := commit (ID u) (t\<lparr>Version := Version u + 1\<rparr>) ev (stores_rt s),
          metrics_rt := metrics_rt s @ [RecordTaskCompleted (Workflow t) TaskStatusFailed d]\<rparr>"],
        rule exI [of _ "t\<lparr>Version := Version u + 1\<rparr>"], rule exI [of _ ev])
      (use t ev upd in \<open>simp add: finishFailed_def wrapped_def of_result_def bind_def effect_def ret_def memory_stores_def\<close>)
qed

lemma finishWithResult_at_hand:
  assumes h: "at_hand s u (finishEvent_pe env)"
  shows "\<exists>s' t ev. finishWithResult (memory_stores rng1 rng2 rng3) env u res d s = (Inr (), s') \<and>
    stores_rt s' = commit (ID u) t ev (stores_rt s) \<and> Version t = Version u + 1 \<and> TaskID_ev ev = ID u \<and>
    result_outcome env res t ev"
proof (cases "outcome_target (Outcome_er res)")
  case None
  then obtain x where x: "Outcome_er res = OtherOutcome x" by (cases "Outcome_er res") (auto simp: outcome_target_def)
  have run: "finishWithResult (memory_stores rng1 rng2 rng3) env u res d s =
      finishFailed (memory_stores rng1 rng2 rng3) (finishedAt_pe env) (finishEvent_pe env)
        (u\<lparr>Result := Output_er res, Progress := 100, ErrorMessage := ErrorMessage_er res\<rparr>)
        (ErrNew (''invalid execution outcome '' @ Quote (isPrint_pe env) x)) 0 s"
    using x by (simp add: finishWithResult_def with_result_def outcome_target_def outcome_text_def)
  from finishFailed_at_hand [OF h, of 100 rng1 rng2 rng3 "finishedAt_pe env" "ErrorMessage_er res" "Output_er res"
      "ErrNew (''invalid execution outcome '' @ Quote (isPrint_pe env) x)" 0]
  obtain s' t ev where "finishFailed (memory_stores rng1 rng2 rng3) (finishedAt_pe env) (finishEvent_pe env)
        (u\<lparr>Result := Output_er res, Progress := 100, ErrorMessage := ErrorMessage_er res\<rparr>)
        (ErrNew (''invalid execution outcome '' @ Quote (isPrint_pe env) x)) 0 s = (Inr (), s')"
    "stores_rt s' = commit (ID u) t ev (stores_rt s)" "Version t = Version u + 1" "TaskID_ev ev = ID u"
    "Status t = TaskStatusFailed" "Result t = Output_er res" "Progress t = 100"
    "ErrorMessage t = error_text (ErrNew (''invalid execution outcome '' @ Quote (isPrint_pe env) x))"
    "FinishedAt t = Some (finishedAt_pe env)" "Type_ev ev = EventTaskFailed"
    by force
  then show ?thesis unfolding run
    by (intro exI [of _ s'] exI [of _ t] exI [of _ ev]) (simp add: result_outcome_def closed_as_def x)
next
  case (Some x)
  obtain st ty msg where x: "x = (st, ty, msg)" by (metis prod.exhaust)
  with Some have pair: "st \<in> {TaskStatusSucceeded, TaskStatusPartial, TaskStatusFailed}" "ty \<noteq> OtherEvent []"
    by (auto simp: outcome_target_def split: ExecutionOutcome.splits)
  let ?u = "with_result res u"
  have u: "Status ?u = TaskStatusRunning" "ID ?u = ID u" "Version ?u = Version u" "Progress ?u = 100" "Result ?u = Output_er res"
    using h by (simp_all add: with_result_def at_hand_def)
  obtain t where t: "MoveTo (Some ?u) st (finishedAt_pe env) = Inr t" "ID t = ID u" "Version t = Version u" "Status t = st"
    "Result t = Output_er res" "Progress t = 100" "ErrorMessage t = ErrorMessage ?u" "FinishedAt t = Some (finishedAt_pe env)"
    using finish_move [OF u(1) pair(1), of "finishedAt_pe env"] u by auto
  obtain ev where ev: "newEvent (finishEvent_pe env) t ty msg (finishedAt_pe env) = Inr ev" "ID_ev ev = finishEvent_pe env"
    "TaskID_ev ev = ID u" "Type_ev ev = ty"
    using finish_event [of "finishEvent_pe env" t ty msg "finishedAt_pe env"] t h pair(2) by (auto simp: at_hand_def)
  from h obtain t1 where t1: "stored_task (stores_rt s) (ID u) = Some t1" "Version t1 = Version u" "idle s"
    "\<not> event_known (stores_rt s) (ID_ev ev)" using ev(2) by (auto simp: at_hand_def)
  note upd = Update_in_round [OF t1(3,1,2,4) t(2,3) ev(3)]
  have out: "result_outcome env res (t\<lparr>Version := Version u + 1\<rparr>) ev"
    using Some x t ev(4) unfolding with_result_def result_outcome_def closed_as_def
    by (auto simp: outcome_target_def split: ExecutionOutcome.splits)
  show ?thesis
    by (rule exI [of _ "s\<lparr>stores_rt := commit (ID u) (t\<lparr>Version := Version u + 1\<rparr>) ev (stores_rt s),
          metrics_rt := metrics_rt s @ [RecordTaskCompleted (Workflow t) st d]\<rparr>"],
        rule exI [of _ "t\<lparr>Version := Version u + 1\<rparr>"], rule exI [of _ ev])
      (use t ev upd out in \<open>simp add: finishWithResult_def Some x wrapped_def of_result_def bind_def effect_def ret_def memory_stores_def\<close>)
qed

lemma process_task_at_hand:
  assumes s: "idle s" "stored_task (stores_rt s) (ID u) = Some u" "task_wf u" "LeaseExpiresAt u = Some (claimAt_pe env + leaseDuration_w w)"
    "LeaseOwner u = id_w w" "Status u = TaskStatusRunning" "id_w w \<noteq> []" "0 < leaseDuration_w w"
    and eid: "finishEvent_pe env \<noteq> []" "\<not> event_known (stores_rt s) (finishEvent_pe env)"
    and er: "plain_answer w env u er"
  shows "\<exists>s' t ev. process_task (memory_stores rng1 rng2 rng3) w env u s = (Inr (), s') \<and>
    stored (ID u) t ev (stores_rt s) (stores_rt s') \<and> Version t = Version u + 1 \<and> process_outcome w env er u t ev"
proof (cases "executors_w w (Workflow u)")
  case None
  have u: "0 \<le> Progress u" "Progress u \<le> 100" "ID u \<noteq> []" using s(3) by (simp_all add: task_wf_def)
  have h: "at_hand s u (finishEvent_pe env)" using s eid u by (simp add: at_hand_def)
  have "er = None" using er None by (simp add: plain_answer_def)
  let ?e = "ErrNew (''no executor registered for workflow '' @ Quote (isPrint_pe env) (Workflow u))"
  obtain s' t ev where f: "finishFailed (memory_stores rng1 rng2 rng3) (finishedAt_pe env) (finishEvent_pe env) u ?e 0 s = (Inr (), s')"
    "stores_rt s' = commit (ID u) t ev (stores_rt s)" "Version t = Version u + 1" "TaskID_ev ev = ID u"
    "Status t = TaskStatusFailed" "ErrorMessage t = error_text ?e" "FinishedAt t = Some (finishedAt_pe env)"
    "Type_ev ev = EventTaskFailed"
    using finishFailed_at_hand [OF h u(1,2), of rng1 rng2 rng3 "finishedAt_pe env" "ErrorMessage u" "Result u" ?e 0] by force
  have "process_outcome w env er u t ev" using f(5-8) \<open>er = None\<close> by (simp add: process_outcome_def closed_as_def)
  with f(1,3) None commit_stored [OF f(4), of t "stores_rt s", folded f(2)] show ?thesis
    unfolding process_task_def None option.case by blast
next
  case (Some ex)
  let ?S = "memory_stores rng1 rng2 rng3"
  have u: "0 \<le> Progress u" "Progress u \<le> 100" "ID u \<noteq> []" using s(3) by (simp_all add: task_wf_def)
  from er Some obtain res where res: "in_time (leaseDuration_w w) (claimAt_pe env + leaseDuration_w w) (ticks_pe env)"
    "er = Some (Inr res)" "\<forall>a. ex u a = (Inr res, a)" by (auto simp: plain_answer_def)
  obtain s1 t1 where s1: "maintainLease ?S w (isPrint_pe env) u (ticks_pe env) s = (None, s1)" "idle s1"
    "stored_task (stores_rt s1) = (stored_task (stores_rt s))(ID u \<mapsto> t1)" "Version t1 = Version u"
    "eventStore (stores_rt s1) = eventStore (stores_rt s)"
    using maintainLease_in_time [OF s(1,2,6,5,4,7) u(3) s(8) res(1)] by blast
  have h: "at_hand s1 u (finishEvent_pe env)" using s eid u s1 by (simp add: at_hand_def)
  from finishWithResult_at_hand [OF h, of rng1 rng2 rng3 res "Sub_time (executedAt_pe env) (startedAt_pe env)"]
  obtain s' t ev where f: "finishWithResult ?S env u res (Sub_time (executedAt_pe env) (startedAt_pe env)) s1 = (Inr (), s')"
    "stores_rt s' = commit (ID u) t ev (stores_rt s1)" "Version t = Version u + 1" "TaskID_ev ev = ID u" "result_outcome env res t ev"
    by blast
  have "stored (ID u) t ev (stores_rt s) (stores_rt s')"
    using commit_stored [OF f(4), of t "stores_rt s1"] unfolding f(2) by (simp add: stored_def s1(3,5))
  moreover have "process_task ?S w env u s = (Inr (), s')"
    using Some res(3) s1(1) f(1) by (simp add: process_task_def attempt_def executeWithHeartbeat_def)
  ultimately show ?thesis using f(3,5) res(2) by (auto simp: process_outcome_def)
qed

theorem ProcessNext_undisturbed:
  assumes rng: "range_order rng1" "range_order rng2" and s: "idle s" "stores_wf (stores_rt s)"
    and run: "ProcessNext (memory_stores rng1 rng2 rng3) w env s = (r, s')"
  shows "round_spec w env (stores_rt s) r (stores_rt s')"
proof -
  let ?S = "memory_stores rng1 rng2 rng3"
  obtain r0 m1 where c: "ClaimNextWithEvent rng1 rng2 None (claim_options w env) (claimEvent_pe env) (stores_rt s) = (r0, m1)"
    by force
  note spec = claim_meets [OF s(2) rng c [unfolded claim_options_def]]
  let ?s0 = "metrics_rs ?S (RecordClaimAttempt ''all'') s"
  have "idle ?s0" "stores_rt ?s0 = stores_rt s" using s(1) by (simp_all add: memory_stores_def idle_def)
  with c have run1: "ClaimNextWithEvent_rs ?S (claim_options w env) (claimEvent_pe env) ?s0 = (r0, ?s0\<lparr>stores_rt := m1\<rparr>)"
    by (simp add: memory_idle)
  show ?thesis
  proof (cases r0)
    case (Inl e)
    have "m1 = stores_rt s" using spec Inl by (auto simp: claim_spec_def refused_with_def split: if_splits)
    with run run1 Inl spec show ?thesis
      unfolding round_spec_def by (intro exI [of _ r0] exI [of _ m1]) (auto simp: ProcessNext_def memory_stores_def split: if_splits)
  next
    case (Inr u)
    let ?s1 = "metrics_rs ?S (RecordTaskClaimed (Workflow u)) (?s0\<lparr>stores_rt := m1\<rparr>)"
    have s1: "idle ?s1" "stores_rt ?s1 = m1" using s(1) by (simp_all add: memory_stores_def idle_def)
    obtain x s2 where x: "process_task ?S w env u ?s1 = (x, s2)" by force
    with run run1 Inr have r: "r = (True, err_of x)" "s' = s2" by (simp_all add: ProcessNext_def)
    have wf: "stores_wf m1" using store_step_wf [OF store_step.claim [OF c rng] s(2)] .
    from spec Inr obtain t kind ev where t: "u = on_lease (id_w w) (claimAt_pe env) (leaseDuration_w w) kind t"
      "stored (ID t) u ev (stores_rt s) m1" "id_w w \<noteq> []" "0 < leaseDuration_w w"
      by (auto simp: claim_spec_def refused_with_def split: if_splits)
    have u: "ID u = ID t" "LeaseExpiresAt u = Some (claimAt_pe env + leaseDuration_w w)" "LeaseOwner u = id_w w"
      "Status u = TaskStatusRunning" by (simp_all add: t(1) on_lease_def)
    have st: "stored_task m1 (ID u) = Some u" using t(2) u(1) by (simp add: stored_def)
    have "snd r = None \<and> (\<exists>t ev. process_outcome w env er u t ev \<and> Version t = Version u + 1 \<and> stored (ID u) t ev m1 (stores_rt s'))"
      if er: "plain_answer w env u er" "finishEvent_pe env \<noteq> []" "\<not> used_id m1 (finishEvent_pe env)" for er
    proof -
      have e: "\<not> event_known (stores_rt ?s1) (finishEvent_pe env)" using er(3) event_known_used [OF wf] by (simp add: s1(2))
      from process_task_at_hand [OF s1(1) _ stores_wf_lookup(2) [OF wf st] u(2-4) t(3,4) er(2) e er(1), of rng1 rng2 rng3] st s1(2) x r
      show ?thesis by (auto simp: err_of_def)
    qed
    with spec Inr r(1) show ?thesis
      unfolding round_spec_def by (intro exI [of _ r0] exI [of _ m1]) simp
  qed
qed

end
