(* ===== verification/LeaseSamples.thy ===== *)
theory LeaseSamples
  imports Samples InternalRounds
begin

text \<open>A claim of the sample task, and a round of the sample worker, as their specifications tell them.\<close>

lemma sample_tasks: "stored_task sample_stores = [''task_1'' \<mapsto> sample_task]"
  by (simp add: sample_stores_eq NewMemoryTaskStore_def)

lemma sample_log: "stored_events sample_stores = (\<lambda>_. [])(''task_1'' := [sample_event])"
proof -
  have "TaskID_ev sample_event = ''task_1''" by (simp add: sample_event_def)
  then show ?thesis by (auto simp: sample_stores_eq fun_eq_iff NewMemoryEventStore_def events_of_def put_event_def)
qed

lemma sample_may_take: "may_take now ''demo'' kind sample_task \<longleftrightarrow> kind = ClaimInitial \<and> 10 \<le> now"
  by (auto simp: may_take_def lease_run_out_def sample_task_def)

lemma sample_claim_spec:
  assumes "claim_task_spec sample_claim 50 ''event_2'' sample_stores r m'"
  shows "\<exists>u. r = Inr u \<and> ID u = ''task_1'' \<and> LeaseOwner u = ''w1'' \<and> LeaseExpiresAt u = Some 100 \<and> Version u = 1"
proof -
  have trim: "TrimSpace ''w1'' = ''w1''" "TrimSpace ''demo'' = ''demo''"
    by (rule TrimSpace_visible, simp_all add: visible_def)+
  have "\<not> used_id sample_stores ''event_2''" by (auto simp: used_id_def sample_log sample_event_def)
  moreover have "\<exists>tid t kind. stored_task sample_stores tid = Some t \<and> may_take 50 ''demo'' kind t"
    by (auto simp: sample_tasks sample_may_take)
  moreover have "year_of 100 = 1" by code_simp
  ultimately show ?thesis using assms trim
    by (auto simp: claim_task_spec_def claim_spec_def sample_claim_def sample_tasks sample_may_take with_token_def
        on_lease_def sample_task_def split: if_splits)
qed

lemma sample_round_spec:
  assumes "round_spec sample_worker sample_env sample_stores r m'"
  shows "r = (True, None) \<and> (\<exists>u. stored_task m' ''task_1'' = Some u \<and> Status u = TaskStatusPartial \<and> Result u = ''{}'' \<and>
    ErrorMessage u = ''late'' \<and> Version u = 2)"
proof -
  let ?u = "on_lease ''w9'' 50 (30 * Second) ClaimInitial sample_task"
  have w: "id_w sample_worker = ''w9''" "leaseDuration_w sample_worker = 30 * Second" "executors_w sample_worker = [''demo'' \<mapsto> sample_executor]"
    "claimAt_pe sample_env = 50" "claimEvent_pe sample_env = ''event_2''" "finishEvent_pe sample_env = ''event_3''" "ticks_pe sample_env = [55]"
    by (simp_all add: sample_worker_def New_worker_def defaultLeaseDuration_def sample_env_def)
  have take: "may_take now [] kind sample_task \<longleftrightarrow> kind = ClaimInitial \<and> 10 \<le> now" for now kind
    by (auto simp: may_take_def lease_run_out_def sample_task_def)
  have u: "ID ?u = ''task_1''" "Version ?u = 1" "Workflow ?u = ''demo''" "ID sample_task = ''task_1''"
    by (simp_all add: on_lease_def sample_task_def)
  from assms obtain r0 m1 where c: "claim_spec ''w9'' [] 50 (30 * Second) ''event_2'' sample_stores r0 m1"
    and r: "case r0 of
           Inl e \<Rightarrow> m' = sample_stores \<and> r = (False, if errors_Is e ErrNoTaskAvailable then None
                                        else Some (Wrap ''claim task and append event: '' e []))
         | Inr u \<Rightarrow> fst r \<and>
             (\<forall>er. plain_answer sample_worker sample_env u er \<longrightarrow> ''event_3'' \<noteq> [] \<longrightarrow> \<not> used_id m1 ''event_3'' \<longrightarrow>
                snd r = None \<and>
                (\<exists>t ev. process_outcome sample_worker sample_env er u t ev \<and> Version t = Version u + 1 \<and> stored (ID u) t ev m1 m'))"
    unfolding round_spec_def w by blast
  have "\<not> used_id sample_stores ''event_2''" by (auto simp: used_id_def sample_log sample_event_def)
  moreover have "\<exists>tid t kind. stored_task sample_stores tid = Some t \<and> may_take 50 [] kind t"
    by (auto simp: sample_tasks take)
  moreover have "year_of (50 + 30 * Second) = 1" by code_simp
  ultimately obtain ev where r0: "r0 = Inr ?u" "ID_ev ev = ''event_2''" "stored ''task_1'' ?u ev sample_stores m1"
    using c u(4) by (auto simp: claim_spec_def sample_tasks take tells_def Second_def split: if_splits)
  have "plain_answer sample_worker sample_env ?u (Some (Inr \<lparr>Output_er = ''{}'', Outcome_er = OutcomePartial, ErrorMessage_er = ''late''\<rparr>))"
    unfolding plain_answer_def w by (simp add: on_lease_def sample_task_def sample_executor_def Second_def)
  moreover have "\<not> used_id m1 ''event_3''"
    using r0(2,3) by (auto simp: used_id_def stored_def sample_log sample_event_def split: if_splits)
  ultimately obtain t ev' where t: "fst r" "snd r = None" "process_outcome sample_worker sample_env
      (Some (Inr \<lparr>Output_er = ''{}'', Outcome_er = OutcomePartial, ErrorMessage_er = ''late''\<rparr>)) ?u t ev'"
    "Version t = 2" "stored ''task_1'' t ev' m1 m'"
    using r unfolding r0(1) by (auto simp: u)
  then show ?thesis
    by (cases r) (auto simp: stored_def process_outcome_def result_outcome_def closed_as_def)
qed

end
