(* ===== verification/StatsFacts.thy ===== *)
theory StatsFacts
  imports Query
begin

text \<open>
  What \<open>SnapshotFilteredTaskStats\<close> computes: the counters count the stored tasks of each
  status, the age is the largest age of an available task, and neither depends on the order
  in which the map is visited.
\<close>

section \<open>Folding the counters\<close>

definition counted :: "int option \<Rightarrow> nat \<Rightarrow> int option" where
  "counted c n = (if n = 0 then c else Some ((case c of None \<Rightarrow> 0 | Some k \<Rightarrow> k) + int n))"

lemma counted_simps [simp]: "counted c 0 = c" "counted (counted c a) b = counted c (a + b)"
  by (auto simp: counted_def)

lemma incr_counted: "incr m k j = counted (m j) (if j = k then 1 else 0)"
  by (simp add: incr_def counted_def)

definition oldest :: "duration option \<Rightarrow> duration set \<Rightarrow> duration option" where
  "oldest c A = (if set_option c \<union> A = {} then None else Some (Max (set_option c \<union> A)))"

lemma oldest_empty [simp]: "oldest c {} = c"
  by (cases c) (simp_all add: oldest_def)

lemma oldest_oldest:
  assumes "finite A" "finite B"
  shows "oldest (oldest c A) B = oldest c (A \<union> B)"
proof (cases "set_option c \<union> A = {}")
  case True
  then show ?thesis by (simp add: oldest_def)
next
  case False
  let ?X = "set_option c \<union> A"
  have "Max ({Max ?X} \<union> B) = Max (?X \<union> B)"
    using False assms by (cases "B = {}") (simp_all add: Max_Un [symmetric] Max_insert)
  with False show ?thesis by (simp add: oldest_def Un_assoc)
qed

definition kept :: "TaskStatsFilter \<Rightarrow> TaskStatus \<Rightarrow> Task \<Rightarrow> bool" where
  "kept f st t \<longleftrightarrow> stats_keep f t \<and> Status t = st"

lemma stats_step_counts:
  "StatusCounts (stats_step f now snap t) st = counted (StatusCounts snap st) (if kept f st t then 1 else 0)"
  "AvailableCounts (stats_step f now snap t) st =
     counted (AvailableCounts snap st) (if kept f st t \<and> isAvailableTask (Some t) now then 1 else 0)"
  by (auto simp: stats_step_def Let_def incr_counted kept_def)

lemma stats_step_age:
  "OldestAvailableAge (stats_step f now snap t) st =
     oldest (OldestAvailableAge snap st)
       (if kept f st t \<and> isAvailableTask (Some t) now then {Sub_time now (AvailableAt t)} else {})"
  by (cases "OldestAvailableAge snap st")
    (auto simp: stats_step_def Let_def kept_def oldest_def max_def split: option.splits)

lemma stats_fold:
  "StatusCounts (foldl (stats_step f now) snap ts) st =
     counted (StatusCounts snap st) (length (filter (kept f st) ts))"
  "AvailableCounts (foldl (stats_step f now) snap ts) st =
     counted (AvailableCounts snap st) (length (filter (\<lambda>t. kept f st t \<and> isAvailableTask (Some t) now) ts))"
  "OldestAvailableAge (foldl (stats_step f now) snap ts) st =
     oldest (OldestAvailableAge snap st)
       ((\<lambda>t. Sub_time now (AvailableAt t)) ` {t \<in> set ts. kept f st t \<and> isAvailableTask (Some t) now})"
proof (induction ts arbitrary: snap)
  case (Cons t ts)
  let ?A = "(\<lambda>t. Sub_time now (AvailableAt t)) ` {t \<in> set ts. kept f st t \<and> isAvailableTask (Some t) now}"
  let ?P = "kept f st t \<and> isAvailableTask (Some t) now"
  case 1 then show ?case using Cons by (simp add: stats_step_counts)
  case 2 then show ?case using Cons by (simp add: stats_step_counts)
  case 3
  have "(\<lambda>t. Sub_time now (AvailableAt t)) ` {u \<in> set (t # ts). kept f st u \<and> isAvailableTask (Some u) now} =
      (if ?P then {Sub_time now (AvailableAt t)} else {}) \<union> ?A"
    by auto
  with Cons(3) [of "stats_step f now snap t"] show ?case
    by (simp add: stats_step_age oldest_oldest)
qed simp_all

section \<open>The snapshot\<close>

text \<open>The number of stored tasks with a property.\<close>

definition count_tasks :: "MemoryStores \<Rightarrow> (Task \<Rightarrow> bool) \<Rightarrow> nat" where
  "count_tasks m P = card {tid. \<exists>t. stored_task m tid = Some t \<and> P t}"

lemma count_tasks_range:
  assumes "stores_wf m" "range_order rng"
  shows "length (filter P (map snd (rng (tasks (taskStore m))))) = count_tasks m P"
proof -
  let ?xs = "rng (tasks (taskStore m))"
  have d: "distinct (map fst ?xs)"
    using assms(2) stores_wf_gomap [OF assms(1)] unfolding gomap_wf_def range_order_def
    by (metis mset_map mset_eq_imp_distinct_iff)
  have "length (filter P (map snd ?xs)) = length (filter (\<lambda>x. P (snd x)) ?xs)"
    by (simp add: filter_map comp_def)
  also have "\<dots> = card (fst ` set (filter (\<lambda>x. P (snd x)) ?xs))"
    using d distinct_map_filter [OF d, of "\<lambda>x. P (snd x)"]
    by (metis distinct_card length_map list.set_map)
  also have "fst ` set (filter (\<lambda>x. P (snd x)) ?xs) = {tid. \<exists>t. stored_task m tid = Some t \<and> P t}"
    using range_order_set [OF assms(2)] gomap_in_set [OF stores_wf_gomap [OF assms(1)]]
    by (auto simp: image_iff)
  finally show ?thesis by (simp add: count_tasks_def)
qed

lemma SnapshotFilteredTaskStats_spec:
  assumes "stores_wf m" "range_order rng" "Validate_stats f = None" "\<not> IsZero now"
  shows "\<exists>snap. SnapshotFilteredTaskStats rng None clock now f (taskStore m) = Inr snap \<and>
    (\<forall>st. StatusCounts snap st = counted None (count_tasks m (kept f st)) \<and>
      AvailableCounts snap st = counted None (count_tasks m (\<lambda>t. kept f st t \<and> isAvailableTask (Some t) now)) \<and>
      OldestAvailableAge snap st = oldest None
        {Sub_time now (AvailableAt t) | tid t. stored_task m tid = Some t \<and> kept f st t \<and> isAvailableTask (Some t) now})"
proof -
  let ?ts = "map snd (rng (tasks (taskStore m)))"
  have "(\<lambda>t. Sub_time now (AvailableAt t)) ` {t \<in> set ?ts. kept f st t \<and> isAvailableTask (Some t) now} =
      {Sub_time now (AvailableAt t) | tid t. stored_task m tid = Some t \<and> kept f st t \<and> isAvailableTask (Some t) now}" for st
    using range_order_set [OF assms(2)] gomap_in_set [OF stores_wf_gomap [OF assms(1)]]
    by (force simp: image_iff)
  with assms(3,4) count_tasks_range [OF assms(1,2)] show ?thesis
    by (simp add: SnapshotFilteredTaskStats_def stats_fold NewTaskStatsSnapshot_def)
qed

end
