(* ===== verification/ReaperRuns.thy ===== *)
theory ReaperRuns
  imports InternalWorker WorkerRuns ClaimOrder StatsFacts
begin

text \<open>
  The reaper on the memory stores while no other client acts: it takes the abandoned tasks
  one by one, and enough rounds leave none.
\<close>

lemma FailNextExpired_idle:
  "idle s \<Longrightarrow> FailNextExpiredWithEvent_rs (memory_stores rng1 rng2 rng3) now eid s =
     (let (r, m) = FailNextExpiredWithEvent rng3 None now eid (stores_rt s) in (r, s\<lparr>stores_rt := m\<rparr>))"
  by (simp add: memory_stores_def on_stores_idle idle_def Let_def split: prod.splits)

lemma memory_metrics:
  "metrics_rs (memory_stores rng1 rng2 rng3) c s = s\<lparr>metrics_rt := metrics_rt s @ [c]\<rparr>"
  by (simp add: memory_stores_def)

abbreviation abandoned :: "MemoryStores \<Rightarrow> time \<Rightarrow> nat" where
  "abandoned m T \<equiv> count_tasks m (expired_exhausted T)"

lemma stored_finite: "finite {tid. \<exists>t. stored_task m tid = Some t \<and> P t}"
proof -
  have "{tid. \<exists>t. stored_task m tid = Some t \<and> P t} \<subseteq> dom (stored_task m)" by auto
  then show ?thesis using finite_dom_map_of finite_subset by blast
qed

lemma count_tasks_0: "count_tasks m P = 0 \<longleftrightarrow> (\<forall>tid t. stored_task m tid = Some t \<longrightarrow> \<not> P t)"
  unfolding count_tasks_def using stored_finite [of m P] by auto

lemma expired_mono: "expired_exhausted T t \<Longrightarrow> T \<le> now \<Longrightarrow> expired_exhausted now t"
  by (auto simp: expired_exhausted_def split: option.splits)

text \<open>One round: no task is left, or the one whose lease ran out first is failed.\<close>

lemma reap_round:
  assumes wf: "stores_wf m" "range_order rng" and now: "now \<noteq> 0" "eid \<noteq> []" "\<not> event_known m eid"
  shows "(abandoned m now = 0 \<and> FailNextExpiredWithEvent rng None now eid m = (Inl ErrNoExpiredTask, m)) \<or>
    (\<exists>t ev. stored_task m (ID t) = Some t \<and> expired_exhausted now t \<and> ID_ev ev = eid \<and>
       (\<forall>k u. stored_task m k = Some u \<longrightarrow> expired_exhausted now u \<longrightarrow> lease_key t \<le> lease_key u) \<and>
       FailNextExpiredWithEvent rng None now eid m =
         (Inr (expired_failed now t), commit (ID t) (expired_failed now t) ev m))"
proof (cases "scan_tasks (expired_exhausted now) lease_before (rng (tasks (taskStore m)))")
  case None
  with lease_scan_least [OF wf, of "expired_exhausted now"] now show ?thesis
    by (simp add: count_tasks_0 FailNextExpiredWithEvent_def failNextExpiredLocked_def IsZero_def)
next
  case (Some kt)
  obtain k t where kt: "kt = (k, t)" by force
  with lease_scan_least [OF wf, of "expired_exhausted now"] Some
  have t: "stored_task m k = Some t" "expired_exhausted now t"
    "\<forall>k u. stored_task m k = Some u \<longrightarrow> expired_exhausted now u \<longrightarrow> lease_key t \<le> lease_key u" by simp_all
  note w = expired_failed_wf [OF stores_wf_lookup(2) [OF wf(1) t(1)] t(2)]
  have "\<exists>ev. NewTaskExpiredEvent eid (Some (expired_failed now t)) now = Inr ev"
    using w(1) now(2) by (simp add: NewTaskExpiredEvent_def NewTaskEvent_def task_wf_def)
  then obtain ev where ev: "NewTaskExpiredEvent eid (Some (expired_failed now t)) now = Inr ev" ..
  obtain r m' where run: "FailNextExpiredWithEvent rng None now eid m = (r, m')" by force
  from run wf(2,1) show ?thesis
  proof (cases rule: FailNextExpiredWithEvent_cases)
    case (failed t' ev')
    with Some kt stores_wf_lookup(1) [OF wf(1) t(1)] t NewTaskExpiredEvent_Inr [OF failed(6)] run
    show ?thesis by (intro disjI2) auto
  next
    case (error e)
    have "Status t = TaskStatusRunning" using t(2) by (simp add: expired_exhausted_def)
    with run error Some kt ev now t(1) show ?thesis
      by (simp add: FailNextExpiredWithEvent_def failNextExpiredLocked_def IsZero_def MoveTo_def
          expired_failed_def Let_def)
  qed
qed

text \<open>A task that was failed is not abandoned any more; the others stay as they are.\<close>

lemma abandoned_commit:
  assumes "stored_task m (ID t) = Some t" "expired_exhausted T t"
  shows "abandoned (commit (ID t) (expired_failed now t) ev m) T = abandoned m T - 1"
    and "0 < abandoned m T"
proof -
  let ?A = "{tid. \<exists>u. stored_task m tid = Some u \<and> expired_exhausted T u}"
  have "{tid. \<exists>u. stored_task (commit (ID t) (expired_failed now t) ev m) tid = Some u \<and> expired_exhausted T u} =
      ?A - {ID t}"
    by (auto simp: expired_failed_def Let_def expired_exhausted_def enter_status_def)
  moreover have "ID t \<in> ?A" using assms by blast
  ultimately show "abandoned (commit (ID t) (expired_failed now t) ev m) T = abandoned m T - 1"
    unfolding count_tasks_def by (simp add: card_Diff_singleton)
  show "0 < abandoned m T" using assms count_tasks_0 [of m "expired_exhausted T"] by blast
qed

lemma abandoned_commit_le:
  assumes "stored_task m (ID t) = Some t"
  shows "abandoned (commit (ID t) (expired_failed now t) ev m) T \<le> abandoned m T"
  unfolding count_tasks_def
  by (rule card_mono [OF stored_finite])
    (auto simp: expired_failed_def Let_def expired_exhausted_def enter_status_def)

text \<open>
  The rounds of a reaper: at times from \<open>T\<close> on, with fresh event ids.
\<close>

definition reaper_rounds :: "time \<Rightarrow> MemoryStores \<Rightarrow> (time \<times> string \<times> wait) list \<Rightarrow> bool" where
  "reaper_rounds T m rounds \<longleftrightarrow>
     (\<forall>(now, eid, wt) \<in> set rounds. T \<le> now \<and> now \<noteq> 0 \<and> eid \<noteq> [] \<and> \<not> event_known m eid) \<and>
     distinct (map (\<lambda>(now, eid, wt). eid) rounds)"

lemma reaper_round_progress:
  assumes s: "idle s" "stores_wf (stores_rt s)" "range_order rng3"
    and now: "T \<le> now" "now \<noteq> 0" "eid \<noteq> []" "\<not> event_known (stores_rt s) eid"
    and run: "ProcessNext_reaper (memory_stores rng1 rng2 rng3) now eid s = ((b, e), s')"
  shows "idle s' \<and> stores_wf (stores_rt s') \<and> e = None \<and>
    (\<forall>x. event_known (stores_rt s') x \<longrightarrow> event_known (stores_rt s) x \<or> x = eid) \<and>
    (if b then abandoned (stores_rt s') T \<le> abandoned (stores_rt s) T - 1
     else abandoned (stores_rt s) T = 0 \<and> s' = s)"
  using reap_round [OF s(2,3) now(2-4)]
proof (elim disjE exE conjE)
  assume "abandoned (stores_rt s) now = 0"
    and f: "FailNextExpiredWithEvent rng3 None now eid (stores_rt s) = (Inl ErrNoExpiredTask, stores_rt s)"
  then have "abandoned (stores_rt s) T = 0" using expired_mono [OF _ now(1)] by (auto simp: count_tasks_0)
  with f run s show ?thesis by (simp add: ProcessNext_reaper_def FailNextExpired_idle)
next
  fix t ev
  assume t: "stored_task (stores_rt s) (ID t) = Some t" "expired_exhausted now t" "ID_ev ev = eid"
    "\<forall>k u. stored_task (stores_rt s) k = Some u \<longrightarrow> expired_exhausted now u \<longrightarrow> lease_key t \<le> lease_key u"
    and f: "FailNextExpiredWithEvent rng3 None now eid (stores_rt s) =
         (Inr (expired_failed now t), commit (ID t) (expired_failed now t) ev (stores_rt s))"
  let ?m = "commit (ID t) (expired_failed now t) ev (stores_rt s)"
  have out: "b" "e = None" "stores_rt s' = ?m" "idle s'"
    using f run s by (auto simp: ProcessNext_reaper_def FailNextExpired_idle memory_metrics)
  have "abandoned ?m T \<le> abandoned (stores_rt s) T - 1"
  proof (cases "abandoned (stores_rt s) T = 0")
    case True
    with abandoned_commit_le [OF t(1), of now ev T] show ?thesis by simp
  next
    case False
    then obtain k u where u: "stored_task (stores_rt s) k = Some u" "expired_exhausted T u"
      by (auto simp: count_tasks_0)
    with t(4) expired_mono [OF u(2) now(1)] have "lease_key t \<le> lease_key u" by blast
    with t(2) u(2) have "expired_exhausted T t"
      by (auto simp: expired_exhausted_def lease_key_def less_eq_prod_def split: option.splits)
    with abandoned_commit [OF t(1)] show ?thesis by simp
  qed
  moreover have "stores_wf ?m"
    using store_step_wf [OF store_step.reap [OF f s(3)] s(2)] .
  ultimately show ?thesis using out t(3) by auto
qed

lemma reaper_drains:
  assumes "idle s" "stores_wf (stores_rt s)" "range_order rng3" "reaper_rounds T (stores_rt s) rounds"
    "abandoned (stores_rt s) T \<le> length rounds"
    "Run_loop_reaper (memory_stores rng1 rng2 rng3) rounds s = (r, s')"
  shows "abandoned (stores_rt s') T = 0 \<and> (r = None \<or> r = Some None)"
  using assms
proof (induction rounds arbitrary: s)
  case Nil
  then show ?case by simp
next
  case (Cons rd rounds)
  obtain now eid wt where rd: "rd = (now, eid, wt)" by (metis prod.exhaust)
  obtain b e s1 where p: "ProcessNext_reaper (memory_stores rng1 rng2 rng3) now eid s = ((b, e), s1)"
    by (metis prod.exhaust)
  from Cons.prems(4) rd have now: "T \<le> now" "now \<noteq> 0" "eid \<noteq> []" "\<not> event_known (stores_rt s) eid"
    by (auto simp: reaper_rounds_def)
  note pr = reaper_round_progress [OF Cons.prems(1-3) now p]
  from Cons.prems(4) rd
  have old: "\<forall>(n, x, w) \<in> set rounds. T \<le> n \<and> n \<noteq> 0 \<and> x \<noteq> [] \<and> \<not> event_known (stores_rt s) x"
    and dist: "distinct (map (\<lambda>(n, x, w). x) rounds)" and new: "eid \<notin> (\<lambda>(n, x, w). x) ` set rounds"
    by (auto simp: reaper_rounds_def)
  have "\<forall>(n, x, w) \<in> set rounds. x \<noteq> eid" using new by force
  moreover have "\<forall>x. event_known (stores_rt s1) x \<longrightarrow> event_known (stores_rt s) x \<or> x = eid" using pr by blast
  ultimately have "\<forall>(n, x, w) \<in> set rounds. \<not> event_known (stores_rt s1) x" using old by blast
  with old dist have rounds: "reaper_rounds T (stores_rt s1) rounds"
    unfolding reaper_rounds_def by blast
  have le: "abandoned (stores_rt s1) T \<le> length rounds"
    using Cons.prems(5) pr by (auto split: if_splits)
  have again: "Run_loop_reaper (memory_stores rng1 rng2 rng3) rounds s1 = (r, s') \<Longrightarrow> ?case"
    using Cons.IH [OF _ _ Cons.prems(3) rounds le] pr by blast
  show ?case
    using Cons.prems(6) rd p pr again by (cases wt) (auto split: if_splits)
qed

end
