(* ===== verification/Wire.thy ===== *)
theory Wire
  imports RequestBody Rfc3339Parse
begin

text \<open>
  What the client library puts on the wire with the standard library's help: durations as
  text (\<open>time.Duration.String\<close>), raw JSON embedded in a marshalled struct
  (\<open>json.RawMessage\<close>), marshalled structs, and escaped path segments (\<open>url.PathEscape\<close>).
\<close>

section \<open>Durations as text\<close>

text \<open>\<open>fmtFrac\<close>: the last \<open>prec\<close> digits of \<open>v\<close> as a fraction without trailing zeros.\<close>

definition fmtFrac :: "nat \<Rightarrow> nat \<Rightarrow> string" where
  "fmtFrac v prec =
     (let f = v mod 10 ^ prec in if f = 0 then [] else ''.'' @ trim_zeros (pad_int prec (int f)))"

definition fmt_units :: "nat \<Rightarrow> string" where
  "fmt_units u =
     (if u = 0 then ''0s''
      else if u < 1000 then show_nat u @ ''ns''
      else if u < 1000000 then show_nat (u div 1000) @ fmtFrac u 3 @ [CHR 0xC2, CHR 0xB5, CHR ''s'']
      else if u < 1000000000 then show_nat (u div 1000000) @ fmtFrac u 6 @ ''ms''
      else
        let secs = u div 1000000000; mins = secs div 60; hours = mins div 60 in
        (if mins > 0 then (if hours > 0 then show_nat hours @ ''h'' else []) @ show_nat (mins mod 60) @ ''m'' else [])
        @ show_nat (secs mod 60) @ fmtFrac u 9 @ ''s'')"

definition Duration_String :: "duration \<Rightarrow> string" where
  "Duration_String d = (if d < 0 then ''-'' @ fmt_units (nat (- d)) else fmt_units (nat d))"

section \<open>Raw messages\<close>

text \<open>
  \<open>appendCompact\<close> with HTML escaping, on a text that is known to be valid: white space between
  tokens goes, and inside strings the characters that HTML treats specially are escaped.
\<close>

definition html_char :: "char \<Rightarrow> bool" where
  "html_char c \<longleftrightarrow> c = CHR ''<'' \<or> c = CHR ''>'' \<or> c = CHR ''&''"

definition line_separator :: "string \<Rightarrow> bool" where
  "line_separator s \<longleftrightarrow> take 3 s = [CHR 0xE2, CHR 0x80, CHR 0xA8] \<or> take 3 s = [CHR 0xE2, CHR 0x80, CHR 0xA9]"

text \<open>The first token of the text inside a string, as it is written, and how many bytes it takes.\<close>

definition compact_char :: "char \<Rightarrow> string \<Rightarrow> string \<times> nat" where
  "compact_char c cs =
     (if c = CHR 0x5C then (c # take 1 cs, 1)
      else if html_char c then
        ([CHR 0x5C, CHR ''u'', CHR ''0'', CHR ''0'', hex_char (of_char c div 16), hex_char (of_char c mod 16)], 0)
      else if line_separator (c # cs) then (escape_rune (take 3 (c # cs)), 2)
      else ([c], 0))"

function compact_text :: "bool \<Rightarrow> string \<Rightarrow> string" where
  "compact_text inside s =
     (case s of
        [] \<Rightarrow> []
      | c # cs \<Rightarrow>
          if \<not> inside \<and> is_ws c then compact_text False cs
          else if c = CHR 0x22 then c # compact_text (\<not> inside) cs
          else if \<not> inside then c # compact_text False cs
          else fst (compact_char c cs) @ compact_text True (drop (snd (compact_char c cs)) cs))"
  by pat_completeness auto
termination
  by (relation "measure (\<lambda>(_, s). length s)") auto

declare compact_text.simps [simp del]

definition marshal_raw :: "raw_json \<Rightarrow> string option" where
  "marshal_raw raw =
     (if raw = [] then Some ''null''
      else if parse_json raw = None then None
      else Some (compact_text False raw))"

section \<open>Structs\<close>

text \<open>
  A struct field: its name and its marshalled value; \<open>None\<close> when the value cannot be
  marshalled.  \<open>omit\<close> is \<open>omitempty\<close>.
\<close>

type_synonym wire_field = "(string \<times> string option) list"

definition field :: "string \<Rightarrow> string option \<Rightarrow> wire_field" where
  "field name v = [(name, v)]"

definition omit :: "bool \<Rightarrow> wire_field \<Rightarrow> wire_field" where
  "omit isEmpty fs = (if isEmpty then [] else fs)"

definition quoted :: "string \<Rightarrow> string option" where
  "quoted s = Some (json_quote s)"

definition number :: "int \<Rightarrow> string option" where
  "number i = Some (show_int i)"

definition boolean :: "bool \<Rightarrow> string option" where
  "boolean b = Some (if b then ''true'' else ''false'')"

definition timestamp :: "time \<Rightarrow> string option" where
  "timestamp t = map_option json_quote (MarshalTime t)"

definition print_fields :: "(string \<times> string) list \<Rightarrow> string" where
  "print_fields fs = ''{'' @ join '','' (map (\<lambda>(k, v). json_quote k @ '':'' @ v) fs) @ ''}''"

definition marshal_struct :: "wire_field list \<Rightarrow> string option" where
  "marshal_struct fss =
     map_option print_fields
       (those (map (\<lambda>(k, v). map_option (\<lambda>x. (k, x)) v) (concat fss)))"

section \<open>Path segments\<close>

definition unreserved :: "char \<Rightarrow> bool" where
  "unreserved c \<longleftrightarrow> byte_in 48 57 c \<or> byte_in 65 90 c \<or> byte_in 97 122 c \<or>
     c \<in> {CHR ''-'', CHR ''_'', CHR ''.'', CHR ''~'', CHR ''$'', CHR ''&'', CHR ''+'', CHR ''='', CHR '':'', CHR ''@''}"

text \<open>Upper-case hexadecimal digits, as \<open>url.PathEscape\<close> writes them.\<close>

definition upper_hex :: "nat \<Rightarrow> char" where
  "upper_hex n = (if n < 10 then char_of (48 + n) else char_of (55 + n))"

definition PathEscape :: "string \<Rightarrow> string" where
  "PathEscape s =
     concat (map (\<lambda>c. if unreserved c then [c]
       else [CHR ''%'', upper_hex (of_char c div 16), upper_hex (of_char c mod 16)]) s)"

text \<open>\<open>url.PathUnescape\<close>.\<close>

fun PathUnescape :: "string \<Rightarrow> string option" where
  "PathUnescape [] = Some []"
| "PathUnescape (c # cs) =
     (if c = CHR ''%'' then
        (case cs of
           a # b # ds \<Rightarrow>
             (case (hex_val a, hex_val b) of
                (Some x, Some y) \<Rightarrow> map_option (\<lambda>r. char_of (16 * x + y) # r) (PathUnescape ds)
              | _ \<Rightarrow> None)
         | _ \<Rightarrow> None)
      else map_option (\<lambda>r. c # r) (PathUnescape cs))"

lemma hex_val_upper: "n < 16 \<Longrightarrow> hex_val (upper_hex n) = Some n"
  by (auto simp: upper_hex_def hex_val_def Let_def)

lemma PathUnescape_hex:
  assumes "x < 16" "y < 16"
  shows "PathUnescape (CHR ''%'' # upper_hex x # upper_hex y # r) =
    map_option (\<lambda>z. char_of (16 * x + y) # z) (PathUnescape r)"
  using hex_val_upper [OF assms(1)] hex_val_upper [OF assms(2)] by simp

lemma PathUnescape_step:
  "PathUnescape ((if unreserved c then [c]
     else [CHR ''%'', upper_hex (of_char c div 16), upper_hex (of_char c mod 16)]) @ r) =
   map_option (\<lambda>x. c # x) (PathUnescape r)"
proof (cases "unreserved c")
  case True
  then have "c \<noteq> CHR ''%''" by (auto simp: unreserved_def byte_in_def)
  with True show ?thesis by simp
next
  case False
  have "of_char c div 16 < (16::nat)" using of_char_bound [of c] by linarith
  moreover have "16 * (of_char c div 16) + of_char c mod 16 = (of_char c :: nat)" by simp
  ultimately show ?thesis
    using False PathUnescape_hex [of "of_char c div 16" "of_char c mod 16" r] by (simp del: PathUnescape.simps)
qed

text \<open>An escaped segment is read back, and never contains a slash.\<close>

lemma PathUnescape_PathEscape: "PathUnescape (PathEscape s) = Some s"
  by (induction s) (simp add: PathEscape_def, simp add: PathEscape_def PathUnescape_step del: PathUnescape.simps(2))

lemma PathEscape_no_slash: "CHR ''/'' \<notin> set (PathEscape s)"
proof -
  have h: "n < 16 \<Longrightarrow> upper_hex n \<noteq> CHR ''/''" for n
    using hex_val_upper [of n] by (auto simp: hex_val_def)
  have u: "\<not> unreserved (CHR ''/'')" by (simp add: unreserved_def byte_in_def)
  have d: "of_char c div 16 < (16::nat)" for c using of_char_bound [of c] by linarith
  have "CHR ''/'' \<notin> set (if unreserved c then [c]
      else [CHR ''%'', upper_hex (of_char c div 16), upper_hex (of_char c mod 16)])" for c
    using u h [OF d [of c]] h [of "of_char c mod 16"] by (cases "unreserved c") (auto simp del: of_char_bound)
  then show ?thesis unfolding PathEscape_def by (simp only: set_concat set_map) blast
qed

end
