(* ===== verification/DurationFacts.thy ===== *)
theory DurationFacts
  imports Wire
begin

text \<open>
  \<open>time.ParseDuration\<close> reads back what \<open>time.Duration.String\<close> writes.  The fraction goes
  through doubles; every double on the way is a whole number below \<open>2 ^ 53\<close>, and exact.
\<close>

section \<open>Whole numbers as doubles\<close>

lemma nat_bits_le: "n < 2 ^ k \<Longrightarrow> nat_bits n \<le> k"
proof (induction k arbitrary: n)
  case 0
  then show ?case by (simp add: nat_bits.simps)
next
  case (Suc k)
  then have "n div 2 < 2 ^ k" by auto
  with Suc.IH show ?case by (subst nat_bits.simps) auto
qed

lemma nat_bits_less: "n < 2 ^ nat_bits n"
proof (induction n rule: nat_bits.induct)
  case (1 n)
  show ?case
  proof (cases "n = 0")
    case False
    with 1 have "n div 2 < 2 ^ nat_bits (n div 2)" by simp
    with False show ?thesis by (subst nat_bits.simps) auto
  qed simp
qed

definition f64_is :: "f64 option \<Rightarrow> nat \<Rightarrow> bool" where
  "f64_is x q \<longleftrightarrow> (\<exists>y a b. x = Some y \<and> f64_fraction y = (a, b) \<and> 0 < b \<and> a = q * b)"

lemma round_even_exact: "0 < den \<Longrightarrow> round_even (q * den) den = q"
  by (simp add: round_even_def Let_def)

lemma round_f64_whole:
  assumes "0 < den" "0 < q" "q < 2 ^ 53"
  shows "f64_is (round_f64 neg (q * den) den) q"
proof -
  define e0 where "e0 = int (nat_bits (q * den)) - int (nat_bits den) - 53"
  define big where "big = (if e0 \<ge> 0 then q * den \<ge> den * 2 ^ (nat e0 + 53) else q * den * 2 ^ nat (- e0) \<ge> den * 2 ^ 53)"
  define e where "e = max (- 1074) (if big then e0 + 1 else e0)"
  define m where "m = (if e \<ge> 0 then round_even (q * den) (den * 2 ^ nat e) else round_even (q * den * 2 ^ nat (- e)) den)"
  have "q * den < 2 ^ (53 + nat_bits den)"
    using assms(3) nat_bits_less [of den] by (simp add: power_add mult_strict_mono)
  then have e0: "e0 \<le> 0" using nat_bits_le unfolding e0_def by fastforce
  have nb: "e0 = 0 \<Longrightarrow> \<not> big" using assms by (auto simp: big_def)
  have e: "e \<le> 0" using e0 nb by (cases "e0 = 0") (auto simp: e_def)
  have m: "m = q * 2 ^ nat (- e)"
  proof (cases "e = 0")
    case True
    then show ?thesis using round_even_exact [OF assms(1), of q] by (simp add: m_def)
  next
    case False
    then have "\<not> e \<ge> 0" using e by simp
    then show ?thesis
      using round_even_exact [OF assms(1), of "q * 2 ^ nat (- e)"] by (simp add: m_def ac_simps)
  qed
  define m' e' where "m' = (if m = 2 ^ 53 then 2 ^ 52 else m)" and "e' = (if m = 2 ^ 53 then e + 1 else e)"
  have run: "round_f64 neg (q * den) den = (if m' = 0 then Some (F64 neg 0 0) else if e' > 971 then None else Some (F64 neg m' e'))"
    unfolding round_f64_def Let_def e0_def [symmetric] big_def [symmetric] e_def [symmetric] m_def [symmetric] m'_def e'_def
    by simp
  have ne: "m = 2 ^ 53 \<Longrightarrow> e < 0" using m e assms(3) by (cases "e = 0") auto
  then have e': "e' \<le> 0" using e by (auto simp: e'_def)
  have v: "m' = q * 2 ^ nat (- e')"
  proof (cases "m = 2 ^ 53")
    case True
    then have "nat (- e) = Suc (nat (- e'))" using ne by (simp add: e'_def nat_eq_iff)
    with True m have "2 * m' = 2 * (q * 2 ^ nat (- e'))" by (simp add: m'_def)
    then show ?thesis by simp
  next
    case False
    with m show ?thesis by (simp add: m'_def e'_def)
  qed
  then have "m' \<noteq> 0" using assms(2) by simp
  with run e' have r: "round_f64 neg (q * den) den = Some (F64 neg m' e')" by simp
  show ?thesis unfolding f64_is_def r using e' v by (cases "e' = 0") auto
qed

lemma round_pos_whole: "0 < den \<Longrightarrow> q < 2 ^ 53 \<Longrightarrow> f64_is (round_pos (q * den) den) q"
  using round_f64_whole [of den q False] by (cases "q = 0") (auto simp: round_pos_def f64_is_def)

lemma f64_of_nat_whole: "q < 2 ^ 53 \<Longrightarrow> f64_is (f64_of_nat q) q"
  using round_pos_whole [of 1 q] by (simp add: f64_of_nat_def)

lemma f64_mul_whole: "f64_is x p \<Longrightarrow> f64_is y q \<Longrightarrow> p * q < 2 ^ 53 \<Longrightarrow> f64_is (f64_mul x y) (p * q)"
proof -
  assume "f64_is x p" "f64_is y q" and le: "p * q < 2 ^ 53"
  then obtain x' y' b d where xy: "x = Some x'" "y = Some y'" "f64_fraction x' = (p * b, b)" "f64_fraction y' = (q * d, d)"
    "0 < b" "0 < d" by (auto simp: f64_is_def)
  have "f64_is (round_pos (p * q * (b * d)) (b * d)) (p * q)" by (rule round_pos_whole) (use xy le in auto)
  moreover have "p * b * (q * d) = p * q * (b * d)" by simp
  ultimately show ?thesis using xy by (simp add: f64_mul_def ac_simps)
qed

lemma f64_div_whole: "f64_is x (p * q) \<Longrightarrow> f64_is y q \<Longrightarrow> 0 < q \<Longrightarrow> p < 2 ^ 53 \<Longrightarrow> f64_is (f64_div x y) p"
proof -
  assume "f64_is x (p * q)" "f64_is y q" and q: "0 < q" "p < 2 ^ 53"
  then obtain x' y' b d where xy: "x = Some x'" "y = Some y'" "f64_fraction x' = (p * q * b, b)" "f64_fraction y' = (q * d, d)"
    "0 < b" "0 < d" by (auto simp: f64_is_def)
  have "f64_is (round_pos (p * (b * (q * d))) (b * (q * d))) p" by (rule round_pos_whole) (use xy q in auto)
  moreover have "p * q * b * d = p * (b * (q * d))" by simp
  ultimately show ?thesis using xy by (simp add: f64_div_def ac_simps)
qed

lemma f64_trunc_whole: "f64_is x q \<Longrightarrow> f64_trunc x = q"
  by (auto simp: f64_is_def f64_trunc_def)

section \<open>Fractions\<close>

lemma fraction_digits_exact:
  assumes "list_all is_digit ds" "j + length ds \<le> 15" "x < 10 ^ j" "f64_is scale (10 ^ j)"
  shows "\<exists>scale'. fraction_digits ds False x scale = (x * 10 ^ length ds + read_nat ds, scale') \<and>
    f64_is scale' (10 ^ (j + length ds))"
  using assms
proof (induction ds arbitrary: j x scale)
  case Nil
  then show ?case by (simp add: read_nat_def)
next
  case (Cons c ds)
  let ?y = "x * 10 + digit_val c"
  have d: "digit_val c < 10" using Cons.prems(1) by (auto simp: is_digit_def digit_val_def)
  have p: "(10::nat) ^ Suc j \<le> 10 ^ 15" using Cons.prems(2) by (intro power_increasing) auto
  have y: "?y < 10 ^ Suc j" using Cons.prems(3) d by simp
  have le: "x \<le> (2 ^ 63 - 1) div 10" "?y \<le> 2 ^ 63" using y p by auto
  have "f64_is (f64_mul scale (f64_of_nat 10)) (10 ^ j * 10)"
    by (rule f64_mul_whole [OF Cons.prems(4) f64_of_nat_whole]) (use p in auto)
  then have sc: "f64_is (f64_mul scale (f64_of_nat 10)) (10 ^ Suc j)" by (simp add: mult.commute)
  have "list_all is_digit ds" "Suc j + length ds \<le> 15" using Cons.prems by auto
  from Cons.IH [OF this y sc] obtain scale' where s: "fraction_digits ds False ?y (f64_mul scale (f64_of_nat 10)) =
      (?y * 10 ^ length ds + read_nat ds, scale')" "f64_is scale' (10 ^ (Suc j + length ds))" by blast
  have "?y * 10 ^ length ds + read_nat ds = x * 10 ^ length (c # ds) + read_nat (c # ds)"
    using read_nat_append [of "[c]" ds] by (simp add: read_nat_def algebra_simps)
  moreover have "fraction_digits (c # ds) False x scale = fraction_digits ds False ?y (f64_mul scale (f64_of_nat 10))"
    using le by (simp add: Let_def)
  ultimately show ?case using s by auto
qed

lemma digits_then:
  assumes "list_all is_digit ds" "r = [] \<or> \<not> is_digit (hd r)"
  shows "takeWhile is_digit (ds @ r) = ds" "dropWhile is_digit (ds @ r) = r"
proof -
  have "\<forall>c \<in> set ds. is_digit c" using assms(1) by (simp add: list_all_iff)
  then show "takeWhile is_digit (ds @ r) = ds" "dropWhile is_digit (ds @ r) = r"
    using assms(2) by (cases r; simp add: takeWhile_append2 dropWhile_append2)+
qed

lemma leadingFraction_exact:
  assumes "list_all is_digit ds" "length ds \<le> 15" "r = [] \<or> \<not> is_digit (hd r)"
  shows "\<exists>scale. leadingFraction (ds @ r) = (read_nat ds, scale, r) \<and> f64_is scale (10 ^ length ds)"
  using fraction_digits_exact [of ds 0 0 "f64_of_nat 1"] assms(1,2) f64_of_nat_whole [of 1] digits_then [OF assms(1,3)]
  by (auto simp: leadingFraction_def)

text \<open>The digits that \<open>fmtFrac\<close> writes.\<close>

lemma fmtFrac_digits:
  assumes "v mod 10 ^ prec \<noteq> 0" "0 < prec"
  obtains ds where "fmtFrac v prec = ''.'' @ ds" "list_all is_digit ds" "ds \<noteq> []" "length ds \<le> prec"
    "read_nat ds * 10 ^ (prec - length ds) = v mod 10 ^ prec" "read_nat ds < 10 ^ length ds"
proof -
  let ?f = "v mod 10 ^ prec" and ?p = "pad_int prec (int (v mod 10 ^ prec))"
  let ?t = "trim_zeros ?p"
  have "int ?f < 10 ^ prec" by (metis mod_less_divisor of_nat_less_iff of_nat_numeral of_nat_power zero_less_numeral zero_less_power)
  then have p: "length ?p = prec" "read_nat ?p = ?f" "list_all is_digit ?p"
    using pad_int_props [of "int ?f" prec] assms(2) by simp_all
  obtain k where k: "?p = ?t @ replicate k (CHR ''0'')" using trim_zeros_split by blast
  have len: "length ?t + k = prec" using arg_cong [OF k, of length] p(1) by simp
  have v: "?f = read_nat ?t * 10 ^ k" using arg_cong [OF k, of read_nat] p(2) by (simp add: read_nat_append)
  have dig: "list_all is_digit ?t" using p(3) k by (metis list_all_append)
  have kk: "prec - length ?t = k" using len by simp
  have "?f < 10 ^ length ?t * 10 ^ k" using len by (simp add: power_add [symmetric])
  then have "read_nat ?t * 10 ^ k < 10 ^ length ?t * 10 ^ k" by (rule ord_eq_less_trans [OF v [symmetric]])
  then have lt: "read_nat ?t < 10 ^ length ?t" by simp
  have ne: "?t \<noteq> []" using v assms(1) by (auto simp: read_nat_def)
  show thesis
  proof (rule that [of ?t])
    show "fmtFrac v prec = ''.'' @ ?t" using assms(1) by (simp add: fmtFrac_def)
  qed (use dig ne len lt v kk in auto)
qed

section \<open>Terms\<close>

definition unit_text :: "string \<Rightarrow> nat \<Rightarrow> bool" where
  "unit_text u k \<longleftrightarrow> duration_unit u = Some k \<and> 0 < k \<and> u \<noteq> [] \<and> (\<forall>c \<in> set u. c \<noteq> CHR ''.'' \<and> \<not> is_digit c)"

lemma unit_texts:
  "unit_text ''ns'' 1" "unit_text [CHR 0xC2, CHR 0xB5, CHR ''s''] 1000" "unit_text ''ms'' 1000000"
  "unit_text ''s'' 1000000000" "unit_text ''m'' 60000000000" "unit_text ''h'' 3600000000000"
  by (simp_all add: unit_text_def duration_unit_def is_digit_def)

lemma show_nat_digits_all: "list_all is_digit (show_nat n)"
  using show_nat_digits [of n] by (simp add: list_all_iff)

lemma show_nat_hd: "is_digit (hd (show_nat n @ r))"
  using show_nat_digits_all [of n] show_nat_nonempty [of n] by (cases "show_nat n") auto

lemma unit_then:
  assumes "unit_text u k" "r = [] \<or> is_digit (hd r)"
  shows "takeWhile (\<lambda>c. \<not> (c = CHR ''.'' \<or> is_digit c)) (u @ r) = u"
    "dropWhile (\<lambda>c. \<not> (c = CHR ''.'' \<or> is_digit c)) (u @ r) = r"
proof -
  let ?P = "\<lambda>c. \<not> (c = CHR ''.'' \<or> is_digit c)"
  have all: "\<And>c. c \<in> set u \<Longrightarrow> ?P c" using assms(1) by (simp add: unit_text_def)
  have r: "takeWhile ?P r = []" "dropWhile ?P r = r" using assms(2) by (cases r; simp)+
  show "takeWhile ?P (u @ r) = u" by (subst takeWhile_append2) (use all r(1) in simp_all)
  show "dropWhile ?P (u @ r) = r" by (subst dropWhile_append2) (use all r(2) in simp_all)
qed

text \<open>A number, with or without a fraction, and its unit.\<close>

lemma duration_term_whole:
  assumes u: "unit_text u k" and r: "r = [] \<or> is_digit (hd r)" and n: "n * k \<le> 2 ^ 63"
  shows "duration_term (show_nat n @ u @ r) = Some (n * k, r)"
proof -
  have hu: "\<not> is_digit (hd (u @ r))" "u \<noteq> []" "take 1 (u @ r) \<noteq> ''.''" using u by (cases u; simp add: unit_text_def)+
  have k: "0 < k" "duration_unit u = Some k" using u by (simp_all add: unit_text_def)
  have le: "n \<le> 2 ^ 63 div k" using n k by (simp add: less_eq_div_iff_mult_less_eq)
  then have n63: "n \<le> 2 ^ 63" by (rule order_trans) (rule div_le_dividend)
  have li: "leadingInt (show_nat n @ u @ r) = Some (n, u @ r)"
    using digits_then [OF show_nat_digits_all, of "u @ r" n] hu n63 by (simp add: leadingInt_def read_show_nat)
  show ?thesis
    using show_nat_hd [of n "u @ r"] k hu le n
    unfolding duration_term_def li option.case prod.case Let_def if_not_P [OF hu(3)] unit_then [OF u r] by simp
qed

lemma duration_term_fraction:
  assumes u: "unit_text u (10 ^ prec)" and f: "v mod 10 ^ prec \<noteq> 0" "0 < prec" "prec \<le> 9"
    and n: "n * 10 ^ prec + v mod 10 ^ prec \<le> 2 ^ 63"
  shows "duration_term (show_nat n @ fmtFrac v prec @ u) = Some (n * 10 ^ prec + v mod 10 ^ prec, [])"
proof -
  let ?k = "(10::nat) ^ prec"
  obtain ds where ds: "fmtFrac v prec = ''.'' @ ds" "list_all is_digit ds" "ds \<noteq> []" "length ds \<le> prec"
    "read_nat ds * 10 ^ (prec - length ds) = v mod ?k" "read_nat ds < 10 ^ length ds"
    by (rule fmtFrac_digits [OF f(1,2)])
  have k: "duration_unit u = Some ?k" using u by (simp add: unit_text_def)
  have hu: "\<not> is_digit (hd u)" "u \<noteq> []" using u by (cases u; simp add: unit_text_def)+
  have le: "n \<le> 2 ^ 63 div ?k" using n by (simp add: less_eq_div_iff_mult_less_eq)
  then have n63: "n \<le> 2 ^ 63" by (rule order_trans) (rule div_le_dividend)
  have li: "leadingInt (show_nat n @ fmtFrac v prec @ u) = Some (n, ''.'' @ ds @ u)"
    using digits_then [OF show_nat_digits_all, of "''.'' @ ds @ u" n] n63
    by (simp add: leadingInt_def read_show_nat ds(1) is_digit_def)
  obtain scale where lf: "leadingFraction (ds @ u) = (read_nat ds, scale, u)" "f64_is scale (10 ^ length ds)"
    using leadingFraction_exact [OF ds(2), of u] ds(4) f(3) hu by auto
  have p9: "?k \<le> 10 ^ 9" using f(3) by (intro power_increasing) auto
  have split: "?k = 10 ^ (prec - length ds) * 10 ^ length ds" using ds(4) by (simp add: power_add [symmetric])
  have b: "(10::nat) ^ (prec - length ds) \<le> ?k" by (rule power_increasing) auto
  have k53: "?k < 2 ^ 53" using p9 by simp
  have small: "?k < 2 ^ 53" "(10::nat) ^ (prec - length ds) < 2 ^ 53" "v mod ?k < 2 ^ 53"
    using le_less_trans [OF b k53] k53 less_trans [OF mod_less_divisor k53] by auto
  have pos: "0 < read_nat ds" using ds(5) f(1) by (cases "read_nat ds = 0") auto
  have rd: "read_nat ds < 2 ^ 53" using ds(5) small(3) by (metis One_nat_def le_less_trans mult_le_mono2 nat_mult_1_right
      one_le_numeral one_le_power)
  have "f64_is (f64_div (f64_of_nat ?k) scale) (10 ^ (prec - length ds))"
    by (rule f64_div_whole [OF _ lf(2)]) (use f64_of_nat_whole [OF small(1)] split small(2) in auto)
  then have "f64_is (f64_mul (f64_of_nat (read_nat ds)) (f64_div (f64_of_nat ?k) scale)) (v mod ?k)"
    using f64_mul_whole [OF f64_of_nat_whole [OF rd]] ds(5) small(3) by metis
  then have tr: "f64_trunc (f64_mul (f64_of_nat (read_nat ds)) (f64_div (f64_of_nat ?k) scale)) = v mod ?k"
    by (rule f64_trunc_whole)
  have dot: "take 1 (''.'' @ ds @ u) = ''.''" "drop 1 (''.'' @ ds @ u) = ds @ u" by simp_all
  note un = unit_then [OF u, of "[]", simplified append_Nil2, OF disjI1, OF refl]
  show ?thesis
    using show_nat_hd [of n "fmtFrac v prec @ u"] k hu le n ds(3)
    unfolding duration_term_def li option.case prod.case Let_def dot if_True simp_thms lf(1) un k option.case
    by (simp add: tr pos)
qed

lemma duration_term_last:
  assumes "unit_text u (10 ^ prec)" "0 < prec" "prec \<le> 9" "n * 10 ^ prec + v mod 10 ^ prec \<le> 2 ^ 63"
  shows "duration_term (show_nat n @ fmtFrac v prec @ u) = Some (n * 10 ^ prec + v mod 10 ^ prec, [])"
proof (cases "v mod 10 ^ prec = 0")
  case True
  with duration_term_whole [OF assms(1), of "[]" n] assms(4) show ?thesis by (simp add: fmtFrac_def)
next
  case False
  then show ?thesis by (rule duration_term_fraction [OF assms(1) _ assms(2-4)])
qed

section \<open>The whole text\<close>

lemma show_nat_0: "show_nat 0 = ''0''"
proof -
  have "char_of (of_char (CHR ''0'') :: nat) = CHR ''0''" by (rule char_of_char)
  then show ?thesis by (simp add: show_nat_eval digit_char_def)
qed

lemma duration_terms_Nil: "duration_terms [] d = Some d"
  by (simp add: duration_terms.simps)

lemma duration_terms_step:
  "duration_term s = Some (v, r) \<Longrightarrow> s \<noteq> [] \<Longrightarrow> d + v \<le> 2 ^ 63 \<Longrightarrow> duration_terms s d = duration_terms r (d + v)"
  by (subst duration_terms.simps) simp

lemma show_nat_append_ne: "show_nat n @ r \<noteq> []"
  using show_nat_nonempty [of n] by simp

lemma duration_terms_last:
  assumes "unit_text u (10 ^ prec)" "0 < prec" "prec \<le> 9" "d + (n * 10 ^ prec + v mod 10 ^ prec) \<le> 2 ^ 63"
  shows "duration_terms (show_nat n @ fmtFrac v prec @ u) d = Some (d + (n * 10 ^ prec + v mod 10 ^ prec))"
  using duration_terms_step [OF duration_term_last [OF assms(1-3), of n v] show_nat_append_ne assms(4)] assms(4)
  by (simp add: duration_terms_Nil)

lemma duration_terms_whole:
  assumes "unit_text u k" "r = [] \<or> is_digit (hd r)" "d + n * k \<le> 2 ^ 63"
  shows "duration_terms (show_nat n @ u @ r) d = duration_terms r (d + n * k)"
  by (rule duration_terms_step [OF duration_term_whole [OF assms(1,2)] show_nat_append_ne assms(3)]) (use assms(3) in simp)

lemma fmt_units_read:
  assumes "u \<le> 2 ^ 63"
  shows "duration_terms (fmt_units u) 0 = Some u"
proof -
  have last: "duration_terms (show_nat (u div 10 ^ prec) @ fmtFrac u prec @ t) 0 = Some u"
    if "unit_text t (10 ^ prec)" "0 < prec" "prec \<le> 9" for t prec
    using duration_terms_last [OF that, of 0 "u div 10 ^ prec" u] assms by (simp add: div_mult_mod_eq)
  consider "u = 0" | "0 < u" "u < 1000" | "1000 \<le> u" "u < 1000000" | "1000000 \<le> u" "u < 1000000000" | "1000000000 \<le> u"
    by linarith
  then show ?thesis
  proof cases
    case 1
    have "fmt_units u = show_nat 0 @ ''s'' @ []" using 1 by (simp add: fmt_units_def show_nat_0)
    with duration_terms_whole [OF unit_texts(4), of "[]" 0 0] 1 show ?thesis by (simp add: duration_terms_Nil)
  next
    case 2
    then have "fmt_units u = show_nat u @ ''ns'' @ []" by (simp add: fmt_units_def)
    with duration_terms_whole [OF unit_texts(1), of "[]" 0 u] assms show ?thesis by (simp add: duration_terms_Nil)
  next
    case 3
    with last [of "[CHR 0xC2, CHR 0xB5, CHR ''s'']" 3] unit_texts(2) show ?thesis by (simp add: fmt_units_def)
  next
    case 4
    with last [of "''ms''" 6] unit_texts(3) show ?thesis by (simp add: fmt_units_def)
  next
    case 5
    define secs mins hours where "secs = u div 1000000000" and "mins = secs div 60" and "hours = mins div 60"
    define tail where "tail = show_nat (secs mod 60) @ fmtFrac u 9 @ ''s''"
    have tot: "u = hours * 3600000000000 + mins mod 60 * 60000000000 + (secs mod 60 * 10 ^ 9 + u mod 10 ^ 9)"
    proof -
      have "u = secs * 1000000000 + u mod 1000000000" "secs = mins * 60 + secs mod 60" "mins = hours * 60 + mins mod 60"
        by (simp_all add: secs_def mins_def hours_def)
      then show ?thesis by simp
    qed
    have u9: "unit_text ''s'' (10 ^ 9)" using unit_texts(4) by simp
    have t: "duration_terms tail d = Some (d + (secs mod 60 * 10 ^ 9 + u mod 10 ^ 9))"
      if "d + (secs mod 60 * 10 ^ 9 + u mod 10 ^ 9) \<le> 2 ^ 63" for d
      unfolding tail_def by (rule duration_terms_last [OF u9 _ _ that]) simp_all
    have hd_tail: "is_digit (hd tail)" "\<And>n r. is_digit (hd (show_nat n @ r))"
      unfolding tail_def by (rule show_nat_hd)+
    have m: "duration_terms (show_nat (mins mod 60) @ ''m'' @ tail) d =
        Some (d + mins mod 60 * 60000000000 + (secs mod 60 * 10 ^ 9 + u mod 10 ^ 9))"
      if "d + mins mod 60 * 60000000000 + (secs mod 60 * 10 ^ 9 + u mod 10 ^ 9) \<le> 2 ^ 63" for d
      using duration_terms_whole [OF unit_texts(5), of tail d "mins mod 60"] hd_tail(1) that
        t [of "d + mins mod 60 * 60000000000"] by simp
    have h: "duration_terms (show_nat hours @ ''h'' @ show_nat (mins mod 60) @ ''m'' @ tail) 0 = Some u"
      using duration_terms_whole [OF unit_texts(6), of "show_nat (mins mod 60) @ ''m'' @ tail" 0 hours]
        hd_tail(2) [of "mins mod 60" "''m'' @ tail"] m [of "hours * 3600000000000"] tot assms by simp
    have form: "fmt_units u = (if mins > 0 then (if hours > 0 then show_nat hours @ ''h'' else []) @ show_nat (mins mod 60) @ ''m''
        else []) @ tail"
      using 5 by (simp add: fmt_units_def Let_def secs_def mins_def hours_def tail_def)
    show ?thesis
    proof (cases "hours > 0")
      case True
      then have "mins > 0" by (cases mins) (auto simp: hours_def)
      with True form h show ?thesis by simp
    next
      case False
      then have "hours = 0" by simp
      with False form t [of 0] m [of 0] tot assms show ?thesis by (cases "mins > 0") auto
    qed
  qed
qed

text \<open>Every duration is read back.\<close>

lemma fmt_units_start:
  "take 1 (fmt_units u) \<noteq> ''-''" "take 1 (fmt_units u) \<noteq> ''+''" "fmt_units u \<noteq> []" "fmt_units u \<noteq> ''0''"
proof -
  have l: "last (fmt_units u) = CHR ''s''" by (simp add: fmt_units_def Let_def)
  have h: "is_digit (hd (fmt_units u))"
    by (simp add: fmt_units_def Let_def show_nat_hd [where r = "[]", simplified] is_digit_def [of "CHR ''0''"])
  show ne: "fmt_units u \<noteq> []" by (simp add: fmt_units_def Let_def)
  show "fmt_units u \<noteq> ''0''" using l by auto
  show "take 1 (fmt_units u) \<noteq> ''-''" "take 1 (fmt_units u) \<noteq> ''+''"
    using h ne by (cases "fmt_units u"; auto simp: is_digit_def)+
qed

lemma ParseDuration_String: "in_i64 d \<Longrightarrow> ParseDuration (Duration_String d) = Some d"
proof -
  assume d: "in_i64 d"
  show ?thesis
  proof (cases "d < 0")
    case True
    have "nat (- d) \<le> 2 ^ 63" using d by (simp add: in_i64_def nat_le_iff)
    from fmt_units_read [OF this] fmt_units_start [of "nat (- d)"] True show ?thesis
      by (simp add: ParseDuration_def Duration_String_def Let_def)
  next
    case False
    have "nat d < 2 ^ 63" using d False by (simp add: in_i64_def)
    with fmt_units_read [of "nat d"] fmt_units_start [of "nat d"] False show ?thesis
      by (simp add: ParseDuration_def Duration_String_def Let_def)
  qed
qed

end
