(* ===== verification/Client.thy ===== *)
theory Client
  imports Wire Ops
begin

text \<open>
  Package \<open>taskpulse\<close> (\<open>pkg/taskpulse/client.go\<close>), the client library: its requests as text,
  the call over any transport, and the responses it decodes.  The transport stands for
  \<open>http.Client\<close> and the network.
\<close>

section \<open>The wire\<close>

record wire_request =
  Method_wq :: string
  URL_wq :: string
  Authorization_wq :: string
  IdempotencyKey_wq :: string
  Body_wq :: "string option"

text \<open>A response: its status, the bytes of its body that can be read, and the error that ends the reading.\<close>

record wire_response =
  Status_wp :: nat
  Data_wp :: string
  ReadErr_wp :: "error option"

text \<open>
  \<open>NewRequest_c\<close> is the error of \<open>http.NewRequestWithContext\<close> on a URL, \<open>Do_c\<close> is
  \<open>HTTPClient.Do\<close>, \<open>envToken_c\<close> the environment variable \<open>TASKPULSE_WORKER_AUTH_TOKEN\<close>;
  \<open>lenient_c\<close> reads timestamps that are not plain RFC 3339.
\<close>

record 's Client =
  BaseURL_c :: string
  WorkerAuthToken_c :: string
  envToken_c :: string
  NewRequest_c :: "string \<Rightarrow> error option"
  Do_c :: "wire_request \<Rightarrow> ('s, wire_response) op"
  lenient_c :: "string \<Rightarrow> time option"

section \<open>Responses\<close>

record client_task =
  ID_ct :: string
  IdempotencyKey_ct :: string
  Workflow_ct :: string
  Status_ct :: string
  Input_ct :: raw_json
  Result_ct :: raw_json
  ErrorMessage_ct :: string
  Progress_ct :: int
  RetryCount_ct :: int
  MaxRetries_ct :: int
  Version_ct :: uint64
  LeaseToken_ct :: string
  LeaseUntil_ct :: "time option"
  CreatedAt_ct :: time
  UpdatedAt_ct :: time
  StartedAt_ct :: "time option"
  FinishedAt_ct :: "time option"

record client_event =
  ID_ce :: string
  TaskID_ce :: string
  Type_ce :: string
  Message_ce :: string
  Payload_ce :: raw_json
  Progress_ce :: int
  CreatedAt_ce :: time

text \<open>\<open>json.Decoder.Decode\<close> reads the first value of the text and leaves the rest.\<close>

definition first_members :: "string \<Rightarrow> (string \<times> json \<times> raw_json) list option" where
  "first_members text =
     (case parse_value (2 * length text + 2) max_nesting (skip_ws text) of
        Some (JNull, _) \<Rightarrow> Some []
      | Some (JObject [], _) \<Rightarrow> Some []
      | Some (JObject (kv # kvs), _) \<Rightarrow>
          map_option fst (raw_members (2 * length text + 1) (max_nesting - 1) (skip_ws (drop 1 (skip_ws text))))
      | _ \<Rightarrow> None)"

definition time_field :: "(string \<Rightarrow> time option) \<Rightarrow> json \<Rightarrow> time \<Rightarrow> time option" where
  "time_field lenient v old =
     (case v of JNull \<Rightarrow> Some old | JString s \<Rightarrow> UnmarshalTime lenient s | _ \<Rightarrow> None)"

definition time_ptr_field :: "(string \<Rightarrow> time option) \<Rightarrow> json \<Rightarrow> time option option" where
  "time_ptr_field lenient v =
     (case v of JNull \<Rightarrow> Some None | JString s \<Rightarrow> map_option Some (UnmarshalTime lenient s) | _ \<Rightarrow> None)"

definition task_field ::
  "(string \<Rightarrow> time option) \<Rightarrow> string \<times> json \<times> raw_json \<Rightarrow> client_task \<Rightarrow> client_task option" where
  "task_field lenient m r =
     (case m of (k, v, raw) \<Rightarrow>
        if field_match ''id'' k then map_option (\<lambda>x. r\<lparr>ID_ct := x\<rparr>) (string_field v (ID_ct r))
        else if field_match ''idempotency_key'' k then
          map_option (\<lambda>x. r\<lparr>IdempotencyKey_ct := x\<rparr>) (string_field v (IdempotencyKey_ct r))
        else if field_match ''workflow'' k then map_option (\<lambda>x. r\<lparr>Workflow_ct := x\<rparr>) (string_field v (Workflow_ct r))
        else if field_match ''status'' k then map_option (\<lambda>x. r\<lparr>Status_ct := x\<rparr>) (string_field v (Status_ct r))
        else if field_match ''input'' k then Some (r\<lparr>Input_ct := raw\<rparr>)
        else if field_match ''result'' k then Some (r\<lparr>Result_ct := raw\<rparr>)
        else if field_match ''error_message'' k then
          map_option (\<lambda>x. r\<lparr>ErrorMessage_ct := x\<rparr>) (string_field v (ErrorMessage_ct r))
        else if field_match ''progress'' k then map_option (\<lambda>x. r\<lparr>Progress_ct := x\<rparr>) (int_field v (Progress_ct r))
        else if field_match ''retry_count'' k then
          map_option (\<lambda>x. r\<lparr>RetryCount_ct := x\<rparr>) (int_field v (RetryCount_ct r))
        else if field_match ''max_retries'' k then
          map_option (\<lambda>x. r\<lparr>MaxRetries_ct := x\<rparr>) (int_field v (MaxRetries_ct r))
        else if field_match ''version'' k then map_option (\<lambda>x. r\<lparr>Version_ct := x\<rparr>) (uint64_field v (Version_ct r))
        else if field_match ''lease_token'' k then
          map_option (\<lambda>x. r\<lparr>LeaseToken_ct := x\<rparr>) (string_field v (LeaseToken_ct r))
        else if field_match ''lease_until'' k then map_option (\<lambda>x. r\<lparr>LeaseUntil_ct := x\<rparr>) (time_ptr_field lenient v)
        else if field_match ''created_at'' k then
          map_option (\<lambda>x. r\<lparr>CreatedAt_ct := x\<rparr>) (time_field lenient v (CreatedAt_ct r))
        else if field_match ''updated_at'' k then
          map_option (\<lambda>x. r\<lparr>UpdatedAt_ct := x\<rparr>) (time_field lenient v (UpdatedAt_ct r))
        else if field_match ''started_at'' k then map_option (\<lambda>x. r\<lparr>StartedAt_ct := x\<rparr>) (time_ptr_field lenient v)
        else if field_match ''finished_at'' k then map_option (\<lambda>x. r\<lparr>FinishedAt_ct := x\<rparr>) (time_ptr_field lenient v)
        else Some r)"

definition zero_task :: client_task where
  "zero_task = \<lparr>ID_ct = [], IdempotencyKey_ct = [], Workflow_ct = [], Status_ct = [], Input_ct = [], Result_ct = [],
     ErrorMessage_ct = [], Progress_ct = 0, RetryCount_ct = 0, MaxRetries_ct = 0, Version_ct = 0, LeaseToken_ct = [],
     LeaseUntil_ct = None, CreatedAt_ct = 0, UpdatedAt_ct = 0, StartedAt_ct = None, FinishedAt_ct = None\<rparr>"

definition decode_task :: "(string \<Rightarrow> time option) \<Rightarrow> string \<Rightarrow> client_task option" where
  "decode_task lenient text =
     (case first_members text of
        None \<Rightarrow> None
      | Some ms \<Rightarrow> decode_members (task_field lenient) ms zero_task)"

definition event_field ::
  "(string \<Rightarrow> time option) \<Rightarrow> string \<times> json \<times> raw_json \<Rightarrow> client_event \<Rightarrow> client_event option" where
  "event_field lenient m r =
     (case m of (k, v, raw) \<Rightarrow>
        if field_match ''id'' k then map_option (\<lambda>x. r\<lparr>ID_ce := x\<rparr>) (string_field v (ID_ce r))
        else if field_match ''task_id'' k then map_option (\<lambda>x. r\<lparr>TaskID_ce := x\<rparr>) (string_field v (TaskID_ce r))
        else if field_match ''type'' k then map_option (\<lambda>x. r\<lparr>Type_ce := x\<rparr>) (string_field v (Type_ce r))
        else if field_match ''message'' k then map_option (\<lambda>x. r\<lparr>Message_ce := x\<rparr>) (string_field v (Message_ce r))
        else if field_match ''payload'' k then Some (r\<lparr>Payload_ce := raw\<rparr>)
        else if field_match ''progress'' k then map_option (\<lambda>x. r\<lparr>Progress_ce := x\<rparr>) (int_field v (Progress_ce r))
        else if field_match ''created_at'' k then
          map_option (\<lambda>x. r\<lparr>CreatedAt_ce := x\<rparr>) (time_field lenient v (CreatedAt_ce r))
        else Some r)"

definition zero_event :: client_event where
  "zero_event = \<lparr>ID_ce = [], TaskID_ce = [], Type_ce = [], Message_ce = [], Payload_ce = [], Progress_ce = 0,
     CreatedAt_ce = 0\<rparr>"

text \<open>The texts of the elements of a non-empty array, as \<open>parse_elems\<close> reads them.\<close>

fun raw_elems :: "nat \<Rightarrow> nat \<Rightarrow> string \<Rightarrow> raw_json list option" where
  "raw_elems 0 d s = None"
| "raw_elems (Suc n) d s =
     (case parse_value n d s of
        None \<Rightarrow> None
      | Some (v, r) \<Rightarrow>
          let raw = take (length s - length r) s in
          if take 1 (skip_ws r) = '']'' then Some [raw]
          else if take 1 (skip_ws r) = '','' then
            map_option (\<lambda>rs. raw # rs) (raw_elems n d (skip_ws (drop 1 (skip_ws r))))
          else None)"

definition decode_events :: "(string \<Rightarrow> time option) \<Rightarrow> string \<Rightarrow> client_event list option" where
  "decode_events lenient text =
     (case parse_value (2 * length text + 2) max_nesting (skip_ws text) of
        Some (JNull, _) \<Rightarrow> Some []
      | Some (JArray [], _) \<Rightarrow> Some []
      | Some (JArray (v # vs), _) \<Rightarrow>
          (case raw_elems (2 * length text + 1) (max_nesting - 1) (skip_ws (drop 1 (skip_ws text))) of
             None \<Rightarrow> None
           | Some raws \<Rightarrow>
               those (map (\<lambda>raw. case first_members raw of
                   None \<Rightarrow> None
                 | Some ms \<Rightarrow> decode_members (event_field lenient) ms zero_event) raws))
      | _ \<Rightarrow> None)"

section \<open>The call\<close>

definition TrimRight :: "string \<Rightarrow> char \<Rightarrow> string" where
  "TrimRight s c = rev (dropWhile (\<lambda>x. x = c) (rev s))"

text \<open>What the call makes of the answer of the transport.\<close>

definition decode_response :: "(string \<Rightarrow> 'r option) \<Rightarrow> wire_response result \<Rightarrow> 'r result" where
  "decode_response decode r =
     (case r of
        Inl e \<Rightarrow> Inl (Wrap ''call taskpulse: '' e [])
      | Inr response \<Rightarrow>
          if Status_wp response < 200 \<or> Status_wp response \<ge> 300 then
            (case (if length (Data_wp response) < 2 ^ 20 then ReadErr_wp response else None) of
               Some e \<Rightarrow> Inl (Wrap ''read taskpulse error response: '' e [])
             | None \<Rightarrow> Inl (HTTPError (Status_wp response) (TrimSpace (take (2 ^ 20) (Data_wp response)))))
          else if Status_wp response = 204 then Inl (HTTPError 204 [])
          else (case decode (Data_wp response) of
              Some x \<Rightarrow> Inr x
            | None \<Rightarrow> Inl (Wrap ''decode taskpulse response: ''
                (case ReadErr_wp response of Some e \<Rightarrow> e | None \<Rightarrow> ErrNew ''invalid JSON'') [])))"

text \<open>
  \<open>doJSON\<close>.  \<open>body\<close> is \<open>None\<close> without a body, \<open>Some None\<close> when the body cannot be marshalled;
  an empty header value stands for an absent header.
\<close>

definition doJSON ::
  "'s Client \<Rightarrow> string \<Rightarrow> string \<Rightarrow> string option option \<Rightarrow> string \<Rightarrow> string \<Rightarrow> (string \<Rightarrow> 'r option) \<Rightarrow> ('s, 'r) op" where
  "doJSON c method path body authorization key decode =
     (let baseURL = TrimRight (TrimSpace (BaseURL_c c)) (CHR ''/'') in
      if baseURL = [] then raise (ErrNew ''taskpulse base URL is required'')
      else if body = Some None then
        raise (Wrap ''encode taskpulse request: '' (ErrNew ''json: error calling MarshalJSON for type json.RawMessage'') [])
      else (case NewRequest_c c (baseURL @ path) of
          Some e \<Rightarrow> raise (Wrap ''create taskpulse request: '' e [])
        | None \<Rightarrow>
            attempt (Do_c c \<lparr>Method_wq = method, URL_wq = baseURL @ path, Authorization_wq = authorization,
                IdempotencyKey_wq = key, Body_wq = (case body of None \<Rightarrow> None | Some t \<Rightarrow> t)\<rparr>) (\<lambda>r.
              of_result (decode_response decode r))))"

definition workerHeaders :: "'s Client \<Rightarrow> string" where
  "workerHeaders c =
     (let token = TrimSpace (WorkerAuthToken_c c);
          token1 = (if token = [] then TrimSpace (envToken_c c) else token)
      in if token1 = [] then [] else ''Bearer '' @ token1)"

definition workerTask :: "'s Client \<Rightarrow> string \<Rightarrow> string \<Rightarrow> string option \<Rightarrow> ('s, client_task) op" where
  "workerTask c method path body =
     doJSON c method path (Some body) (workerHeaders c) [] (decode_task (lenient_c c))"

definition formatOptionalDuration :: "duration \<Rightarrow> string" where
  "formatOptionalDuration d = (if d \<le> 0 then [] else Duration_String d)"

section \<open>Requests\<close>

record CreateTaskRequest =
  Workflow_xr :: string
  Input_xr :: raw_json
  MaxRetries_xr :: int
  IdempotencyKey_xr :: string

record ClaimRequest =
  WorkerID_xc :: string
  Workflow_xc :: string
  LeaseDuration_xc :: duration

record CompleteRequest =
  TaskID_xd :: string
  WorkerID_xd :: string
  LeaseToken_xd :: string
  Version_xd :: uint64
  Output_xd :: raw_json
  ResultRef_xd :: raw_json

record FailRequest =
  TaskID_xf :: string
  WorkerID_xf :: string
  LeaseToken_xf :: string
  Version_xf :: uint64
  ErrorCode_xf :: string
  ErrorMessage_xf :: string
  Retryable_xf :: bool
  RetryAfter_xf :: duration

record ReleaseRequest =
  TaskID_xe :: string
  WorkerID_xe :: string
  LeaseToken_xe :: string
  Version_xe :: uint64

text \<open>The bodies, as \<open>json.Marshal\<close> writes the anonymous structs.\<close>

definition create_wire :: "CreateTaskRequest \<Rightarrow> string option" where
  "create_wire q = marshal_struct
     [field ''workflow'' (quoted (Workflow_xr q)),
      field ''input'' (marshal_raw (if Input_xr q = [] then ''{}'' else Input_xr q)),
      field ''max_retries'' (number (MaxRetries_xr q))]"

definition claim_wire :: "ClaimRequest \<Rightarrow> string option" where
  "claim_wire q = marshal_struct
     [field ''worker_id'' (quoted (WorkerID_xc q)),
      omit (Workflow_xc q = []) (field ''workflow'' (quoted (Workflow_xc q))),
      field ''lease_duration'' (quoted (Duration_String (LeaseDuration_xc q)))]"

definition heartbeat_wire :: "string \<Rightarrow> string \<Rightarrow> duration \<Rightarrow> string option" where
  "heartbeat_wire workerID leaseToken leaseDuration = marshal_struct
     [field ''worker_id'' (quoted workerID), field ''lease_token'' (quoted leaseToken),
      field ''lease_duration'' (quoted (Duration_String leaseDuration))]"

definition progress_wire :: "string \<Rightarrow> string \<Rightarrow> uint64 \<Rightarrow> int \<Rightarrow> string \<Rightarrow> string option" where
  "progress_wire workerID leaseToken version progress message = marshal_struct
     [field ''worker_id'' (quoted workerID), field ''lease_token'' (quoted leaseToken),
      field ''version'' (number (uint version)), field ''progress'' (number progress),
      field ''message'' (quoted message)]"

definition complete_wire :: "CompleteRequest \<Rightarrow> string option" where
  "complete_wire q = marshal_struct
     [field ''worker_id'' (quoted (WorkerID_xd q)), field ''lease_token'' (quoted (LeaseToken_xd q)),
      omit (Version_xd q = 0) (field ''version'' (number (uint (Version_xd q)))),
      omit (Output_xd q = []) (field ''output'' (marshal_raw (Output_xd q))),
      omit (ResultRef_xd q = []) (field ''result_ref'' (marshal_raw (ResultRef_xd q)))]"

definition fail_wire :: "FailRequest \<Rightarrow> string option" where
  "fail_wire q = marshal_struct
     [field ''worker_id'' (quoted (WorkerID_xf q)), field ''lease_token'' (quoted (LeaseToken_xf q)),
      omit (Version_xf q = 0) (field ''version'' (number (uint (Version_xf q)))),
      field ''error_code'' (quoted (ErrorCode_xf q)), field ''error_message'' (quoted (ErrorMessage_xf q)),
      field ''retryable'' (boolean (Retryable_xf q)),
      omit (formatOptionalDuration (RetryAfter_xf q) = [])
        (field ''retry_after'' (quoted (formatOptionalDuration (RetryAfter_xf q))))]"

definition release_wire :: "ReleaseRequest \<Rightarrow> string option" where
  "release_wire q = marshal_struct
     [field ''worker_id'' (quoted (WorkerID_xe q)), field ''lease_token'' (quoted (LeaseToken_xe q)),
      omit (Version_xe q = 0) (field ''version'' (number (uint (Version_xe q))))]"

section \<open>Operations\<close>

definition CreateTask_client :: "'s Client \<Rightarrow> CreateTaskRequest \<Rightarrow> ('s, client_task) op" where
  "CreateTask_client c q =
     doJSON c ''POST'' ''/tasks'' (Some (create_wire q)) [] (IdempotencyKey_xr q) (decode_task (lenient_c c))"

definition GetTask_client :: "'s Client \<Rightarrow> string \<Rightarrow> ('s, client_task) op" where
  "GetTask_client c taskID =
     doJSON c ''GET'' (''/tasks/'' @ PathEscape taskID) None [] [] (decode_task (lenient_c c))"

definition ListTaskEvents_client :: "'s Client \<Rightarrow> string \<Rightarrow> ('s, client_event list) op" where
  "ListTaskEvents_client c taskID =
     doJSON c ''GET'' (''/tasks/'' @ PathEscape taskID @ ''/events'') None [] [] (decode_events (lenient_c c))"

definition CancelTask_client :: "'s Client \<Rightarrow> string \<Rightarrow> ('s, client_task) op" where
  "CancelTask_client c taskID =
     doJSON c ''POST'' (''/tasks/'' @ PathEscape taskID @ ''/cancel'') None [] [] (decode_task (lenient_c c))"

text \<open>\<open>errors.As\<close> with an \<open>*HTTPError\<close> as target: the first one in the chain.\<close>

fun As_HTTPError :: "error \<Rightarrow> (nat \<times> string) option" where
  "As_HTTPError (HTTPError status body) = Some (status, body)"
| "As_HTTPError (Wrap pre e post) = As_HTTPError e"
| "As_HTTPError (UrlError call e) = As_HTTPError e"
| "As_HTTPError (ExecutionErr k c r (Some e)) = As_HTTPError e"
| "As_HTTPError (FailureErr c m r a (Some e)) = As_HTTPError e"
| "As_HTTPError e = None"

definition Claim_client :: "'s Client \<Rightarrow> ClaimRequest \<Rightarrow> ('s, client_task) op" where
  "Claim_client c q =
     attempt (doJSON c ''POST'' ''/worker/tasks/claim'' (Some (claim_wire q)) (workerHeaders c) []
       (decode_task (lenient_c c))) (\<lambda>r.
       case r of
         Inr task \<Rightarrow> ret task
       | Inl e \<Rightarrow>
           if (case As_HTTPError e of Some (status, _) \<Rightarrow> status = 204 | None \<Rightarrow> False)
           then raise ClientErrNoTaskAvailable else raise e)"

definition worker_path :: "string \<Rightarrow> string \<Rightarrow> string" where
  "worker_path taskID operation = ''/worker/tasks/'' @ PathEscape taskID @ ''/'' @ operation"

definition Heartbeat_client ::
  "'s Client \<Rightarrow> string \<Rightarrow> string \<Rightarrow> string \<Rightarrow> duration \<Rightarrow> ('s, client_task) op" where
  "Heartbeat_client c taskID workerID leaseToken leaseDuration =
     workerTask c ''POST'' (worker_path taskID ''heartbeat'') (heartbeat_wire workerID leaseToken leaseDuration)"

definition Progress_client ::
  "'s Client \<Rightarrow> string \<Rightarrow> string \<Rightarrow> string \<Rightarrow> uint64 \<Rightarrow> int \<Rightarrow> string \<Rightarrow> ('s, client_task) op" where
  "Progress_client c taskID workerID leaseToken version progress message =
     workerTask c ''POST'' (worker_path taskID ''progress'') (progress_wire workerID leaseToken version progress message)"

definition Complete_client :: "'s Client \<Rightarrow> CompleteRequest \<Rightarrow> ('s, client_task) op" where
  "Complete_client c q = workerTask c ''POST'' (worker_path (TaskID_xd q) ''complete'') (complete_wire q)"

definition Fail_client :: "'s Client \<Rightarrow> FailRequest \<Rightarrow> ('s, client_task) op" where
  "Fail_client c q = workerTask c ''POST'' (worker_path (TaskID_xf q) ''fail'') (fail_wire q)"

definition Release_client :: "'s Client \<Rightarrow> ReleaseRequest \<Rightarrow> ('s, client_task) op" where
  "Release_client c q = workerTask c ''POST'' (worker_path (TaskID_xe q) ''release'') (release_wire q)"

end
