(* ===== verification/WireFacts.thy ===== *)
theory WireFacts
  imports DurationFacts JsonRoundtrip Client
begin

text \<open>
  Marshalled structs are printed JSON objects: a raw message that is printed JSON is embedded
  unchanged, and the members are read back by the decoder of the other side.
\<close>

section \<open>Compacting printed JSON\<close>

definition plain_byte :: "char \<Rightarrow> bool" where
  "plain_byte c \<longleftrightarrow> c \<noteq> CHR 0x22 \<and> c \<noteq> CHR 0x5C \<and> \<not> html_char c \<and> c \<noteq> CHR 0xE2"

lemma compact_plain: "plain_byte c \<Longrightarrow> compact_text True (c # t) = c # compact_text True t"
  by (subst compact_text.simps) (auto simp: plain_byte_def compact_char_def line_separator_def)

lemma compact_plains: "list_all plain_byte s \<Longrightarrow> compact_text True (s @ t) = s @ compact_text True t"
  by (induction s) (simp_all add: compact_plain)

lemma compact_escape: "compact_text True (CHR 0x5C # d # t) = CHR 0x5C # d # compact_text True t"
  by (subst compact_text.simps) (simp add: compact_char_def)

lemma hex_char_plain: "n < 16 \<Longrightarrow> plain_byte (hex_char n)"
  using hex_val_char [of n] by (auto simp: plain_byte_def html_char_def hex_val_def)

lemma not_char: "\<not> P d \<Longrightarrow> P c \<Longrightarrow> c \<noteq> d"
  by auto

lemma ascii_no_lead: "byte_in 0 127 c \<Longrightarrow> c \<noteq> CHR 0xE2"
  by (rule not_char [of "byte_in 0 127"]) (simp_all add: byte_in_def)

lemma non_ascii_plain: "\<not> byte_in 0 127 c \<Longrightarrow> c \<noteq> CHR 0x22 \<and> c \<noteq> CHR 0x5C \<and> \<not> html_char c"
  unfolding html_char_def de_Morgan_disj
  by (intro conjI; rule not_char [of "\<lambda>c. \<not> byte_in 0 127 c"]) (simp_all add: byte_in_def)

lemma continuation_byte: "byte_in 0x80 0xBF c \<Longrightarrow> plain_byte c"
proof -
  assume c: "byte_in 0x80 0xBF c"
  then have "\<not> byte_in 0 127 c" by (simp add: byte_in_def)
  moreover have "c \<noteq> CHR 0xE2" using c by (intro not_char [of "byte_in 0x80 0xBF"]) (simp_all add: byte_in_def)
  ultimately show ?thesis using non_ascii_plain by (simp add: plain_byte_def)
qed

lemma compact_ascii: "byte_in 0 127 c \<Longrightarrow> compact_text True (escape_ascii c @ t) = escape_ascii c @ compact_text True t"
proof -
  assume c: "byte_in 0 127 c"
  have h: "of_char c div 16 < (16::nat)" using of_char_bound [of c] by linarith
  have z: "plain_byte (CHR ''0'')" by (simp add: plain_byte_def html_char_def)
  have u: "compact_text True (CHR ''0'' # CHR ''0'' # hex_char x # hex_char y # t) =
      CHR ''0'' # CHR ''0'' # hex_char x # hex_char y # compact_text True t" if "x < 16" "y < 16" for x y
    using hex_char_plain [OF that(1)] hex_char_plain [OF that(2)] z by (simp add: compact_plain)
  have p: "compact_text True (c # t) = c # compact_text True t"
    if "c \<noteq> CHR 0x22" "c \<noteq> CHR 0x5C" "c \<noteq> CHR ''<''" "c \<noteq> CHR ''>''" "c \<noteq> CHR ''&''"
    using that ascii_no_lead [OF c] by (simp add: compact_plain plain_byte_def html_char_def)
  show ?thesis using h by (simp add: escape_ascii_def u p compact_escape)
qed

lemma byte_in_mono: "byte_in a b c \<Longrightarrow> a' \<le> a \<Longrightarrow> b \<le> b' \<Longrightarrow> byte_in a' b' c"
  by (simp add: byte_in_def)

lemma rune_continuations:
  "rune2 a b \<Longrightarrow> byte_in 0x80 0xBF b"
  "rune3 a b c \<Longrightarrow> byte_in 0x80 0xBF b \<and> byte_in 0x80 0xBF c"
  "rune4 a b c d \<Longrightarrow> byte_in 0x80 0xBF b \<and> byte_in 0x80 0xBF c \<and> byte_in 0x80 0xBF d"
  unfolding rune2_def rune3_def rune4_def by (auto elim: byte_in_mono)

lemma rune_tail:
  "0 < rune_size s \<Longrightarrow> \<not> byte_in 0 127 (hd s) \<Longrightarrow> list_all plain_byte (tl (take (rune_size s) s))"
  by (cases s rule: rune_size.cases)
    (auto dest!: rune_continuations intro: continuation_byte split: if_splits)

lemma separator_rune_size: "line_separator s \<Longrightarrow> rune_size s = 3"
proof -
  assume "line_separator s"
  then obtain b t where "s = CHR 0xE2 # CHR 0x80 # b # t" "b = CHR 0xA8 \<or> b = CHR 0xA9"
    by (cases s; cases "tl s"; cases "tl (tl s)") (auto simp: line_separator_def)
  then show ?thesis by (auto intro!: rune_size_3 simp: byte_in_def rune2_def rune3_def)
qed

lemma compact_rune:
  assumes "0 < rune_size s" "\<not> byte_in 0 127 (hd s)"
  shows "compact_text True (escape_rune (take (rune_size s) s) @ t) = escape_rune (take (rune_size s) s) @ compact_text True t"
proof (cases "line_separator (take (rune_size s) s)")
  case True
  have d: "plain_byte (CHR ''2'')" "plain_byte (CHR ''0'')" "plain_byte (CHR ''8'')" "plain_byte (CHR ''9'')"
    by (simp_all add: plain_byte_def html_char_def)
  have "rune_size s = 3"
    using separator_rune_size [OF True] rune_size_take [OF assms(1), of "[]"] by simp
  with True have "take (rune_size s) s \<in> {[CHR 0xE2, CHR 0x80, CHR 0xA8], [CHR 0xE2, CHR 0x80, CHR 0xA9]}"
    by (auto simp: line_separator_def)
  with d show ?thesis by (auto simp: escape_rune_def compact_escape compact_plain)
next
  case False
  let ?r = "take (rune_size s) s"
  have ne: "?r \<noteq> []" using assms(1) by (cases s) auto
  then obtain c u where r: "?r = c # u" by (cases ?r) auto
  have c: "\<not> byte_in 0 127 c" using assms(2) r by (cases s; cases "rune_size s") auto
  have "\<not> line_separator (?r @ t)"
  proof
    assume sep: "line_separator (?r @ t)"
    then have "rune_size s = 3" using separator_rune_size [OF sep] rune_size_take [OF assms(1), of t] by simp
    then have "length ?r = 3" using rune_size_le [of s] by simp
    then have "take 3 (?r @ t) = take 3 ?r" by (simp only: take_append) simp
    with sep False show False unfolding line_separator_def by (simp only:)
  qed
  then have "compact_char c (u @ t) = ([c], 0)"
    using non_ascii_plain [OF c] unfolding r by (simp add: compact_char_def)
  then have "compact_text True (?r @ t) = c # compact_text True (u @ t)"
    using non_ascii_plain [OF c] unfolding r by (subst compact_text.simps) simp
  moreover have "list_all plain_byte u" using rune_tail [OF assms] r by simp
  moreover have "escape_rune ?r = ?r"
  proof -
    have "\<not> line_separator [CHR 0xE2, CHR 0x80, CHR 0xA8] \<Longrightarrow> P" "\<not> line_separator [CHR 0xE2, CHR 0x80, CHR 0xA9] \<Longrightarrow> P" for P
      by (simp_all add: line_separator_def)
    with False show ?thesis unfolding escape_rune_def by metis
  qed
  ultimately show ?thesis using r by (simp add: compact_plains)
qed

lemma compact_quote_body: "compact_text True (quote_body s @ CHR 0x22 # t) = quote_body s @ CHR 0x22 # compact_text False t"
proof (induction s rule: quote_body.induct)
  case (1 s)
  show ?case
  proof (cases s)
    case Nil
    then show ?thesis by (simp add: quote_body.simps [of "[]"] compact_text.simps [of True "CHR 0x22 # t"])
  next
    case (Cons c cs)
    have f: "plain_byte (CHR ''f'')" "plain_byte (CHR ''d'')" by (simp_all add: plain_byte_def html_char_def)
    consider "byte_in 0 127 c" | "\<not> byte_in 0 127 c" "rune_size s = 0" | "\<not> byte_in 0 127 c" "0 < rune_size s" by blast
    then show ?thesis
    proof cases
      case 1
      with Cons "1.IH"(1) [of c cs] show ?thesis by (simp add: quote_body.simps [of "c # cs"] compact_ascii)
    next
      case 2
      with Cons "1.IH"(2) [of c cs] f show ?thesis
        by (simp add: quote_body.simps [of "c # cs"] compact_escape compact_plain)
    next
      case 3
      with Cons "1.IH"(3) [of c cs] compact_rune [of s] show ?thesis by (simp add: quote_body.simps [of "c # cs"])
    qed
  qed
qed

lemma compact_quote: "compact_text False (json_quote s @ t) = json_quote s @ compact_text False t"
  by (simp add: json_quote_def compact_text.simps [of False "CHR 0x22 # _"] compact_quote_body)

lemma compact_outside:
  "\<not> is_ws c \<Longrightarrow> c \<noteq> CHR 0x22 \<Longrightarrow> compact_text False (c # t) = c # compact_text False t"
  by (subst compact_text.simps) simp

lemma compact_tokens:
  "list_all (\<lambda>c. \<not> is_ws c \<and> c \<noteq> CHR 0x22) s \<Longrightarrow> compact_text False (s @ t) = s @ compact_text False t"
  by (induction s) (simp_all add: compact_outside)

lemma show_int_tokens: "list_all (\<lambda>c. \<not> is_ws c \<and> c \<noteq> CHR 0x22) (show_int i)"
proof -
  have "c \<in> set (show_int i) \<Longrightarrow> is_digit c \<or> c = CHR ''-''" for c
    using show_nat_digits by (auto simp: show_int_def split: if_splits)
  then show ?thesis by (auto simp: list_all_iff)
qed

lemma compact_join:
  assumes "\<And>x t. x \<in> set xs \<Longrightarrow> compact_text False (x @ t) = x @ compact_text False t"
  shows "compact_text False (join '','' xs @ t) = join '','' xs @ compact_text False t"
  using assms
proof (induction xs)
  case (Cons x xs)
  then show ?case by (cases xs) (simp_all add: compact_outside)
qed simp

text \<open>A printed value is compact.\<close>

lemma compact_json_print: "json_ok v \<Longrightarrow> compact_text False (json_print v @ t) = json_print v @ compact_text False t"
proof (induction v arbitrary: t)
  case (JNumber l)
  then show ?case using show_int_tokens by (auto simp: compact_tokens)
next
  case (JArray vs)
  then have "compact_text False (join '','' (map json_print vs) @ CHR '']'' # t) =
      join '','' (map json_print vs) @ compact_text False (CHR '']'' # t)"
    by (intro compact_join) (auto simp: list_all_iff)
  then show ?case by (simp add: compact_outside)
next
  case (JObject kvs)
  have kv: "compact_text False (json_quote k @ CHR '':'' # json_print v @ u) =
      json_quote k @ CHR '':'' # json_print v @ compact_text False u" if "(k, v) \<in> set kvs" for k v u
    using JObject that by (simp add: compact_quote compact_outside list_all_iff) (metis case_prodD snd_conv snds.intros)
  have "compact_text False (join '','' (map (\<lambda>(k, v). json_quote k @ '':'' @ json_print v) kvs) @ CHR ''}'' # t) =
      join '','' (map (\<lambda>(k, v). json_quote k @ '':'' @ json_print v) kvs) @ compact_text False (CHR ''}'' # t)"
    by (intro compact_join) (auto simp: kv)
  then show ?case by (simp add: compact_outside)
qed (simp_all add: compact_quote compact_outside is_ws_def)

lemma marshal_raw_print: "json_ok v \<Longrightarrow> jdepth v \<le> max_nesting \<Longrightarrow> marshal_raw (json_print v) = Some (json_print v)"
  using compact_json_print [of v "[]"] json_print_head [of v]
  by (auto simp: marshal_raw_def parse_json_print compact_text.simps [of _ "[]"])

section \<open>Structs\<close>

text \<open>A marshalled struct whose fields are printed values is a printed object.\<close>

lemma marshal_struct_print:
  assumes "concat fss = map (\<lambda>(k, v). (k, Some (json_print v))) kvs"
  shows "marshal_struct fss = Some (json_print (JObject kvs))"
proof -
  have "those (map (\<lambda>(k, v). map_option (\<lambda>x. (k, x)) v) (concat fss)) = Some (map (\<lambda>(k, v). (k, json_print v)) kvs)"
    unfolding assms by (induction kvs) auto
  then show ?thesis by (simp add: marshal_struct_def print_fields_def comp_def split_def)
qed

end
