(* ===== verification/ClientSpecs.thy ===== *)
theory ClientSpecs
  imports WireFacts HttpRuns
begin

text \<open>
  The client library against the server: what the library marshals is what the server decodes,
  and a call of the library is one request, which the server answers with the operation of the
  service that the call is named after.
\<close>

section \<open>Texts\<close>

lemma valid_utf8_ascii_append: "list_all (byte_in 0 127) a \<Longrightarrow> valid_utf8 (a @ b) = valid_utf8 b"
  by (induction a) (simp_all add: valid_utf8.simps [of "_ # _"])

lemma all_digits_ascii: "list_all is_digit s \<Longrightarrow> list_all (byte_in 0 127) s"
  by (induction s) (auto simp: is_digit_def byte_in_def)

lemma show_nat_ascii: "list_all (byte_in 0 127) (show_nat n)"
  using show_nat_digits [of n] by (intro all_digits_ascii) (simp add: list_all_iff)

lemma fmtFrac_ascii: "list_all (byte_in 0 127) (fmtFrac v p)"
proof -
  have "list_all is_digit (trim_zeros (pad_int p (int f)))" for f
    by (auto simp: trim_zeros_def pad_int_def Let_def list_all_iff show_nat_digits dest!: set_dropWhileD split: if_splits)
  then show ?thesis by (simp add: fmtFrac_def Let_def all_digits_ascii byte_in_def)
qed

lemma fmt_units_utf8: "valid_utf8 (fmt_units u)"
proof -
  have e: "valid_utf8 ''s''" "valid_utf8 ''ns''" "valid_utf8 ''ms''" "valid_utf8 ''0s''"
    by (intro valid_utf8_ascii; simp add: byte_in_def)+
  have m: "valid_utf8 [CHR 0xC2, CHR 0xB5, CHR ''s'']"
    by (simp add: valid_utf8.simps [of "_ # _"] rune2_def byte_in_def valid_utf8.simps [of "[]"])
  show ?thesis
    by (simp add: fmt_units_def Let_def valid_utf8_ascii_append show_nat_ascii fmtFrac_ascii e m byte_in_def)
qed

lemma Duration_String_utf8: "valid_utf8 (Duration_String d)"
  by (simp add: Duration_String_def fmt_units_utf8 valid_utf8.simps [of "_ # _"] byte_in_def)

lemma formatOptionalDuration_utf8: "valid_utf8 (formatOptionalDuration d)"
  by (simp add: formatOptionalDuration_def Duration_String_utf8 valid_utf8.simps [of "[]"])

lemma Duration_String_ne: "in_i64 d \<Longrightarrow> Duration_String d \<noteq> []"
  using ParseDuration_String [of d] by (auto simp: ParseDuration_def)

lemma parseOptionalDuration_format:
  "in_i64 d \<Longrightarrow> parseOptionalDuration (formatOptionalDuration d) = Inr (max 0 d)"
  by (auto simp: parseOptionalDuration_def formatOptionalDuration_def ParseDuration_String Duration_String_ne)

lemma parseLeaseDuration_String: "0 < d \<Longrightarrow> in_i64 d \<Longrightarrow> parseLeaseDuration (Duration_String d) = Inr d"
  by (simp add: parseLeaseDuration_def ParseDuration_String Duration_String_ne)

section \<open>Bodies\<close>

lemma struct_decoded:
  assumes "concat fss = map (\<lambda>(k, v). (k, Some (json_print v))) kvs"
    "marshal_struct fss = Some body" "length body \<le> maxRequestBodyBytes"
    "json_ok (JObject kvs)" "jdepth (JObject kvs) \<le> max_nesting"
  shows "decodeJSON f d body = decode_members f (map (\<lambda>(k, v). (k, v, json_print v)) kvs) d"
proof -
  have "body = json_print (JObject kvs)" using marshal_struct_print [OF assms(1)] assms(2) by simp
  then show ?thesis using assms(3) by (simp only: decodeJSON_def body_members_print [OF assms(4,5)]) simp
qed

lemma decode_members_append:
  "decode_members f (xs @ ys) r = (case decode_members f xs r of None \<Rightarrow> None | Some r1 \<Rightarrow> decode_members f ys r1)"
  by (induction xs arbitrary: r) (auto split: option.splits)

text \<open>A raw message the library embeds unchanged: nothing, or a printed value.\<close>

definition raw_ok :: "raw_json \<Rightarrow> bool" where
  "raw_ok raw \<longleftrightarrow> raw = [] \<or> (\<exists>v. raw = json_print v \<and> json_ok v \<and> jdepth v < max_nesting)"

lemmas wire_defs = field_def omit_def quoted_def number_def boolean_def

lemmas decode_defs = field_match_def string_field_def uint64_field_def int_field_def bool_field_def ParseUint_show Atoi_show decode_members_append byte_in_def

lemmas wire_ok = Duration_String_utf8 formatOptionalDuration_utf8 max_nesting_def byte_in_def

lemma claim_wire_decoded:
  assumes "valid_utf8 (WorkerID_xc q)" "valid_utf8 (Workflow_xc q)"
    "claim_wire q = Some body" "length body \<le> maxRequestBodyBytes"
  shows "decode_claim body = Some \<lparr>WorkerID_wc = WorkerID_xc q, Workflow_wc = Workflow_xc q,
    LeaseDuration_wc = Duration_String (LeaseDuration_xc q)\<rparr>"
  unfolding decode_claim_def
  by (subst struct_decoded [OF _ assms(3) [unfolded claim_wire_def] assms(4), where kvs =
      "[(''worker_id'', JString (WorkerID_xc q))] @
       (if Workflow_xc q = [] then [] else [(''workflow'', JString (Workflow_xc q))]) @
       [(''lease_duration'', JString (Duration_String (LeaseDuration_xc q)))]"])
    (use assms(1,2) in \<open>auto intro!: valid_utf8_ascii simp: wire_defs wire_ok claim_field_def decode_defs\<close>)

lemma heartbeat_wire_decoded:
  assumes "valid_utf8 workerID" "valid_utf8 token"
    "heartbeat_wire workerID token d = Some body" "length body \<le> maxRequestBodyBytes"
  shows "decode_heartbeat body =
    Some \<lparr>WorkerID_wh = workerID, LeaseToken_wh = token, LeaseDuration_wh = Duration_String d\<rparr>"
  unfolding decode_heartbeat_def
  by (subst struct_decoded [OF _ assms(3) [unfolded heartbeat_wire_def] assms(4), where kvs =
      "[(''worker_id'', JString workerID), (''lease_token'', JString token), (''lease_duration'', JString (Duration_String d))]"])
    (use assms(1,2) in \<open>auto intro!: valid_utf8_ascii simp: wire_defs wire_ok heartbeat_field_def decode_defs\<close>)

lemma progress_wire_decoded:
  assumes "valid_utf8 workerID" "valid_utf8 token" "valid_utf8 message" "in_i64 progress"
    "progress_wire workerID token version progress message = Some body" "length body \<le> maxRequestBodyBytes"
  shows "decode_progress body =
    Some \<lparr>WorkerID_wp = workerID, LeaseToken_wp = token, Version_wp = version, Progress_wp = progress, Message_wp = message\<rparr>"
  unfolding decode_progress_def
  by (subst struct_decoded [OF _ assms(5) [unfolded progress_wire_def] assms(6), where kvs =
      "[(''worker_id'', JString workerID), (''lease_token'', JString token), (''version'', JInt (uint version)),
        (''progress'', JInt progress), (''message'', JString message)]"])
    (use assms(1-4) in \<open>auto intro!: valid_utf8_ascii simp: wire_defs wire_ok progress_field_def decode_defs\<close>)

lemma release_wire_decoded:
  assumes "valid_utf8 (WorkerID_xe q)" "valid_utf8 (LeaseToken_xe q)"
    "release_wire q = Some body" "length body \<le> maxRequestBodyBytes"
  shows "decode_release body =
    Some \<lparr>WorkerID_wr = WorkerID_xe q, LeaseToken_wr = LeaseToken_xe q, Version_wr = Version_xe q\<rparr>"
  unfolding decode_release_def
  by (subst struct_decoded [OF _ assms(3) [unfolded release_wire_def] assms(4), where kvs =
      "[(''worker_id'', JString (WorkerID_xe q)), (''lease_token'', JString (LeaseToken_xe q))] @
       (if Version_xe q = 0 then [] else [(''version'', JInt (uint (Version_xe q)))])"])
    (use assms(1,2) in \<open>auto intro!: valid_utf8_ascii simp: wire_defs wire_ok release_field_def decode_defs\<close>)

lemma fail_wire_decoded:
  assumes "valid_utf8 (WorkerID_xf q)" "valid_utf8 (LeaseToken_xf q)" "valid_utf8 (ErrorCode_xf q)"
    "valid_utf8 (ErrorMessage_xf q)" "fail_wire q = Some body" "length body \<le> maxRequestBodyBytes"
  shows "decode_fail body =
    Some \<lparr>WorkerID_wf = WorkerID_xf q, LeaseToken_wf = LeaseToken_xf q, Version_wf = Version_xf q,
      ErrorCode_wf = ErrorCode_xf q, ErrorMessage_wf = ErrorMessage_xf q, Retryable_wf = Retryable_xf q,
      RetryAfter_wf = formatOptionalDuration (RetryAfter_xf q)\<rparr>"
  unfolding decode_fail_def
  by (subst struct_decoded [OF _ assms(5) [unfolded fail_wire_def] assms(6), where kvs =
      "[(''worker_id'', JString (WorkerID_xf q)), (''lease_token'', JString (LeaseToken_xf q))] @
       (if Version_xf q = 0 then [] else [(''version'', JInt (uint (Version_xf q)))]) @
       [(''error_code'', JString (ErrorCode_xf q)), (''error_message'', JString (ErrorMessage_xf q)),
        (''retryable'', JBool (Retryable_xf q))] @
       (if formatOptionalDuration (RetryAfter_xf q) = [] then []
        else [(''retry_after'', JString (formatOptionalDuration (RetryAfter_xf q)))])"])
    (use assms(1-4) in \<open>auto intro!: valid_utf8_ascii simp: wire_defs wire_ok fail_field_def decode_defs\<close>)

text \<open>A raw message is a member of the body or, when it is empty, none.\<close>

lemma raw_field:
  assumes "raw_ok raw"
  obtains "raw = []" "omit (raw = []) (field n (marshal_raw raw)) = []"
  | v where "raw = json_print v" "json_ok v" "jdepth v < max_nesting"
      "omit (raw = []) (field n (marshal_raw raw)) = [(n, Some (json_print v))]"
  using assms marshal_raw_print json_print_nonempty unfolding raw_ok_def omit_def field_def
  by (cases "raw = []") (auto intro: less_imp_le)

lemma raw_field_map:
  assumes "raw_ok raw"
  obtains kvs where "omit (raw = []) (field n (marshal_raw raw)) = map (\<lambda>(k, v). (k, Some (json_print v))) kvs"
    "raw = [] \<and> kvs = [] \<or> (\<exists>v. raw = json_print v \<and> kvs = [(n, v)] \<and> json_ok v \<and> jdepth v < max_nesting)"
  by (rule raw_field [OF assms, of n]) (auto intro: that [of "[]"] that [of "[(n, _)]"])

lemma complete_wire_decoded:
  assumes "valid_utf8 (WorkerID_xd q)" "valid_utf8 (LeaseToken_xd q)" "raw_ok (Output_xd q)" "raw_ok (ResultRef_xd q)"
    "complete_wire q = Some body" "length body \<le> maxRequestBodyBytes"
  shows "decode_complete body =
    Some \<lparr>WorkerID_wd = WorkerID_xd q, LeaseToken_wd = LeaseToken_xd q, Version_wd = Version_xd q,
      Output_wd = Output_xd q, ResultRef_wd = ResultRef_xd q\<rparr>"
proof -
  obtain outs where outs: "omit (Output_xd q = []) (field ''output'' (marshal_raw (Output_xd q))) =
      map (\<lambda>(k, v). (k, Some (json_print v))) outs"
    "Output_xd q = [] \<and> outs = [] \<or>
      (\<exists>v. Output_xd q = json_print v \<and> outs = [(''output'', v)] \<and> json_ok v \<and> jdepth v < max_nesting)"
    by (rule raw_field_map [OF assms(3)])
  obtain refs where refs: "omit (ResultRef_xd q = []) (field ''result_ref'' (marshal_raw (ResultRef_xd q))) =
      map (\<lambda>(k, v). (k, Some (json_print v))) refs"
    "ResultRef_xd q = [] \<and> refs = [] \<or>
      (\<exists>v. ResultRef_xd q = json_print v \<and> refs = [(''result_ref'', v)] \<and> json_ok v \<and> jdepth v < max_nesting)"
    by (rule raw_field_map [OF assms(4)])
  let ?kvs = "[(''worker_id'', JString (WorkerID_xd q)), (''lease_token'', JString (LeaseToken_xd q))] @
    (if Version_xd q = 0 then [] else [(''version'', JInt (uint (Version_xd q)))]) @ outs @ refs"
  have ok: "json_ok (JObject ?kvs)" "jdepth (JObject ?kvs) \<le> max_nesting"
    using assms(1,2) outs(2) refs(2) by (auto intro!: valid_utf8_ascii simp: byte_in_def max_nesting_def)
  have "concat [field ''worker_id'' (quoted (WorkerID_xd q)), field ''lease_token'' (quoted (LeaseToken_xd q)),
      omit (Version_xd q = 0) (field ''version'' (number (uint (Version_xd q)))),
      omit (Output_xd q = []) (field ''output'' (marshal_raw (Output_xd q))),
      omit (ResultRef_xd q = []) (field ''result_ref'' (marshal_raw (ResultRef_xd q)))] =
    map (\<lambda>(k, v). (k, Some (json_print v))) ?kvs"
    unfolding outs(1) refs(1) by (simp add: wire_defs)
  note decoded = struct_decoded [OF this assms(5) [unfolded complete_wire_def] assms(6) ok]
  show ?thesis unfolding decode_complete_def decoded using outs(2) refs(2) by (auto simp: complete_field_def decode_defs)
qed

lemma create_wire_decoded:
  assumes "valid_utf8 (Workflow_xr q)" "raw_ok (Input_xr q)" "in_i64 (MaxRetries_xr q)"
    "create_wire q = Some body" "length body \<le> maxRequestBodyBytes"
  shows "decode_create body = Some \<lparr>Workflow_cq = Workflow_xr q,
    Input_cq = (if Input_xr q = [] then ''{}'' else Input_xr q), MaxRetries_cq = MaxRetries_xr q\<rparr>"
proof -
  obtain v where v: "(if Input_xr q = [] then ''{}'' else Input_xr q) = json_print v" "json_ok v" "jdepth v < max_nesting"
    using assms(2) unfolding raw_ok_def by (cases "Input_xr q = []") (auto intro: that [of "JObject []"] simp: max_nesting_def)
  show ?thesis
    unfolding decode_create_def v(1)
    by (subst struct_decoded [OF _ assms(4) [unfolded create_wire_def v(1)] assms(5), where kvs =
        "[(''workflow'', JString (Workflow_xr q)), (''input'', v), (''max_retries'', JInt (MaxRetries_xr q))]"])
      (use assms(1,3) v(2,3) in \<open>auto intro!: valid_utf8_ascii simp: wire_defs wire_ok marshal_raw_print create_field_def decode_defs\<close>)
qed

section \<open>Requests\<close>

text \<open>
  How the server sees a request: \<open>net/http\<close> splits the path at its slashes and unescapes the
  segments.  (A segment \<open>.\<close> or \<open>..\<close> or an empty one makes it redirect; such task ids are excluded
  below.)
\<close>

fun split_path :: "string \<Rightarrow> string list" where
  "split_path [] = [[]]"
| "split_path (c # cs) =
     (if c = CHR ''/'' then [] # split_path cs
      else (case split_path cs of [] \<Rightarrow> [[c]] | seg # segs \<Rightarrow> (c # seg) # segs))"

definition received :: "string \<Rightarrow> wire_request \<Rightarrow> http_request option" where
  "received base w =
     map_option (\<lambda>path. \<lparr>Method_rq = Method_wq w, Path_rq = path, Authorization_rq = Authorization_wq w,
         IdempotencyKey_rq = IdempotencyKey_wq w, Query_rq = (\<lambda>_. []),
         Body_rq = (case Body_wq w of None \<Rightarrow> [] | Some b \<Rightarrow> b)\<rparr>)
       (those (map PathUnescape (split_path (drop (Suc (length base)) (URL_wq w)))))"

lemma split_path_segment: "CHR ''/'' \<notin> set seg \<Longrightarrow> split_path (seg @ CHR ''/'' # r) = seg # split_path r"
  by (induction seg) auto

lemma split_path_last: "CHR ''/'' \<notin> set seg \<Longrightarrow> split_path seg = [seg]"
  by (induction seg) auto

lemma PathUnescape_plain: "CHR ''%'' \<notin> set s \<Longrightarrow> PathUnescape s = Some s"
  by (induction s) auto

lemma worker_path_received:
  assumes "CHR ''/'' \<notin> set operation" "CHR ''%'' \<notin> set operation"
  shows "those (map PathUnescape (split_path (drop 1 (worker_path taskID operation)))) =
    Some [''worker'', ''tasks'', taskID, operation]"
  using split_path_segment [of "''worker''"] split_path_segment [of "''tasks''"]
    split_path_segment [OF PathEscape_no_slash] split_path_last [OF assms(1)] assms(2)
  by (simp add: worker_path_def PathUnescape_PathEscape PathUnescape_plain)

text \<open>A client that reaches the server and is allowed to work for it.\<close>

definition baseURL :: "'c Client \<Rightarrow> string" where
  "baseURL c = TrimRight (TrimSpace (BaseURL_c c)) (CHR ''/'')"

definition url_path :: "string \<Rightarrow> bool" where
  "url_path path \<longleftrightarrow> list_all (\<lambda>c. unreserved c \<or> c = CHR ''/'' \<or> c = CHR ''%'') path"

definition connected :: "'c Client \<Rightarrow> 's Handler \<Rightarrow> bool" where
  "connected c h \<longleftrightarrow> baseURL c \<noteq> [] \<and> (\<forall>path. url_path path \<longrightarrow> NewRequest_c c (baseURL c @ path) = None) \<and>
     (workerAuthToken_h h = [] \<or> workerHeaders c = ''Bearer '' @ workerAuthToken_h h)"

text \<open>
  A call \<open>delivers\<close> an operation: it makes one request, returns what \<open>k\<close> makes of the answer, and
  the server runs the operation to answer the request.
\<close>

definition delivers ::
  "'c Client \<Rightarrow> 's Handler \<Rightarrow> 's handler option \<Rightarrow> http_env \<Rightarrow> (wire_response result \<Rightarrow> 'a result) \<Rightarrow> ('c, 'a) op \<Rightarrow>
     's handler \<Rightarrow> bool" where
  "delivers c h page env k call operation \<longleftrightarrow>
     (\<exists>w r. (\<forall>s. call s = map_prod k id (Do_c c w s)) \<and> received (baseURL c) w = Some r \<and>
        (\<forall>s. NewRouter h page env r s = operation s))"

lemma hex_unreserved: "n < 16 \<Longrightarrow> unreserved (upper_hex n)"
  by (auto simp: upper_hex_def unreserved_def byte_in_def)

lemma PathEscape_url: "url_path (PathEscape s)"
proof -
  have d: "of_char c div 16 < (16::nat)" for c using of_char_bound [of c] by linarith
  show ?thesis
    by (induction s) (simp_all add: PathEscape_def url_path_def hex_unreserved d)
qed

lemma worker_path_url: "url_path operation \<Longrightarrow> url_path (worker_path taskID operation)"
  using PathEscape_url [of taskID] by (simp add: worker_path_def url_path_def unreserved_def byte_in_def)

definition worker_post :: "'c Client \<Rightarrow> string list \<Rightarrow> string \<Rightarrow> http_request" where
  "worker_post c path body = \<lparr>Method_rq = ''POST'', Path_rq = path, Authorization_rq = workerHeaders c,
     IdempotencyKey_rq = [], Query_rq = (\<lambda>_. []), Body_rq = body\<rparr>"

lemma doJSON_delivers:
  assumes "connected c h" "url_path path"
    "those (map PathUnescape (split_path (drop 1 path))) = Some segs" "\<And>s. NewRouter h page env (worker_post c segs body) s = operation s"
  shows "delivers c h page env (decode_response decode) (doJSON c ''POST'' path (Some (Some body)) (workerHeaders c) [] decode) operation"
proof -
  let ?w = "\<lparr>Method_wq = ''POST'', URL_wq = baseURL c @ path, Authorization_wq = workerHeaders c,
      IdempotencyKey_wq = [], Body_wq = Some body\<rparr>"
  have "doJSON c ''POST'' path (Some (Some body)) (workerHeaders c) [] decode s =
      map_prod (decode_response decode) id (Do_c c ?w s)" for s
    using assms(1,2) by (simp add: doJSON_def connected_def baseURL_def Let_def attempt_def of_result_def split: prod.split)
  moreover have "received (baseURL c) ?w = Some (worker_post c segs body)"
    using assms(3) by (simp add: received_def worker_post_def)
  ultimately show ?thesis using assms(4) unfolding delivers_def by blast
qed

section \<open>Calls of the worker protocol\<close>

text \<open>What the library makes of the answer to a call.\<close>

definition task_result :: "'c Client \<Rightarrow> wire_response result \<Rightarrow> client_task result" where
  "task_result c = decode_response (decode_task (lenient_c c))"

definition claim_result :: "'c Client \<Rightarrow> wire_response result \<Rightarrow> client_task result" where
  "claim_result c r =
     (case task_result c r of
        Inr task \<Rightarrow> Inr task
      | Inl e \<Rightarrow> Inl (if (case As_HTTPError e of Some (status, _) \<Rightarrow> status = 204 | None \<Rightarrow> False)
          then ClientErrNoTaskAvailable else e))"

definition addressable :: "string \<Rightarrow> bool" where
  "addressable taskID \<longleftrightarrow> taskID \<notin> {[], ''.'', ''..'', ''/''}"

lemma worker_post_routed:
  assumes "workerTaskService_h h = Some ws" "post_route True path = Some route"
  shows "NewRouter h page env (worker_post c path body) s = serve_route h page env (worker_post c path body) route s"
  using assms by (simp add: NewRouter_def find_route_def worker_post_def)

lemma worker_post_accepted:
  assumes "connected c h" "workerTaskService_h h = Some ws" "decode body = Some q"
  shows "worker_request h (worker_post c path body) decode k s = k ws q s"
  using assms by (auto simp: worker_request_def authorizeWorker_def connected_def worker_post_def)

lemma workerTask_delivers:
  assumes "connected c h" "workerTaskService_h h = Some ws" "addressable taskID" "body = Some b"
    "operation \<in> {''heartbeat'', ''progress'', ''complete'', ''fail'', ''release''}"
    "post_route True [''worker'', ''tasks'', taskID, operation] = Some route"
    "\<And>s. serve_route h page env (worker_post c [''worker'', ''tasks'', taskID, operation] b) route s = served s"
  shows "delivers c h page env (task_result c) (workerTask c ''POST'' (worker_path taskID operation) body) served"
proof -
  have op: "CHR ''/'' \<notin> set operation" "CHR ''%'' \<notin> set operation" "url_path operation"
    using assms(5) by (auto simp: url_path_def unreserved_def byte_in_def)
  show ?thesis
    unfolding workerTask_def assms(4) task_result_def
    by (rule doJSON_delivers [OF assms(1) worker_path_url [OF op(3)] worker_path_received [OF op(1,2)]])
      (simp add: worker_post_routed [OF assms(2,6)] assms(7))
qed

definition task_answer :: "Task \<Rightarrow> http_response" where
  "task_answer task = writeJSON 200 (TaskBody (Some task))"

lemmas served_defs = wildcard_def addressable_def post_route_def task_answer_def [abs_def]

lemma Heartbeat_delivers:
  assumes "connected c h" "workerTaskService_h h = Some ws" "addressable taskID" "valid_utf8 workerID" "valid_utf8 token"
    "0 < d" "in_i64 d" "heartbeat_wire workerID token d = Some b" "length b \<le> maxRequestBodyBytes"
  shows "delivers c h page env (task_result c) (Heartbeat_client c taskID workerID token d)
    (respond (HeartbeatTask (stores_ws ws) (now1_he env)
       \<lparr>TaskID_hi = taskID, WorkerID_hi = workerID, LeaseToken_hi = token, LeaseDuration_hi = d\<rparr>) task_answer)"
  unfolding Heartbeat_client_def
  by (rule workerTask_delivers [OF assms(1-3) assms(8), where route = "HeartbeatR taskID"])
    (use assms(3,6,7) heartbeat_wire_decoded [OF assms(4,5,8,9)] in
      \<open>simp_all add: served_defs HeartbeatWorkerTask_def worker_post_accepted [OF assms(1,2)]
        parseLeaseDuration_String bind_def of_result_def respond_def\<close>)

lemma Progress_delivers:
  assumes "connected c h" "workerTaskService_h h = Some ws" "addressable taskID" "valid_utf8 workerID" "valid_utf8 token"
    "valid_utf8 message" "in_i64 progress" "progress_wire workerID token version progress message = Some b"
    "length b \<le> maxRequestBodyBytes"
  shows "delivers c h page env (task_result c) (Progress_client c taskID workerID token version progress message)
    (respond (ReportProgress (stores_ws ws) (now1_he env) (now2_he env) (eventID_he env)
       \<lparr>TaskID_pi = taskID, WorkerID_pi = workerID, Version_pi = version, LeaseToken_pi = token, Progress_pi = progress,
        Message_pi = message\<rparr>) task_answer)"
  unfolding Progress_client_def
  by (rule workerTask_delivers [OF assms(1-3) assms(8), where route = "ProgressR taskID"])
    (use assms(3) progress_wire_decoded [OF assms(4-9)] in
      \<open>simp_all add: served_defs ReportWorkerProgress_def worker_post_accepted [OF assms(1,2)]\<close>)

lemma Complete_delivers:
  assumes "connected c h" "workerTaskService_h h = Some ws" "addressable (TaskID_xd q)" "valid_utf8 (WorkerID_xd q)"
    "valid_utf8 (LeaseToken_xd q)" "raw_ok (Output_xd q)" "raw_ok (ResultRef_xd q)" "complete_wire q = Some b"
    "length b \<le> maxRequestBodyBytes"
  shows "delivers c h page env (task_result c) (Complete_client c q)
    (respond (CompleteTask (stores_ws ws) (now1_he env) (now2_he env) (eventID_he env)
       \<lparr>TaskID_cm = TaskID_xd q, WorkerID_cm = WorkerID_xd q, Version_cm = Version_xd q, LeaseToken_cm = LeaseToken_xd q,
        Output_cm = Output_xd q, ResultRef_cm = ResultRef_xd q\<rparr>) task_answer)"
  unfolding Complete_client_def
  by (rule workerTask_delivers [OF assms(1-3) assms(8), where route = "CompleteR (TaskID_xd q)"])
    (use assms(3) complete_wire_decoded [OF assms(4-9)] in
      \<open>simp_all add: served_defs CompleteWorkerTask_def worker_post_accepted [OF assms(1,2)]\<close>)

lemma Fail_delivers:
  assumes "connected c h" "workerTaskService_h h = Some ws" "addressable (TaskID_xf q)" "valid_utf8 (WorkerID_xf q)"
    "valid_utf8 (LeaseToken_xf q)" "valid_utf8 (ErrorCode_xf q)" "valid_utf8 (ErrorMessage_xf q)" "in_i64 (RetryAfter_xf q)"
    "fail_wire q = Some b" "length b \<le> maxRequestBodyBytes"
  shows "delivers c h page env (task_result c) (Fail_client c q)
    (respond (FailTask (stores_ws ws) (scheduler_ws ws env) (now1_he env) (now2_he env) (eventID_he env)
       \<lparr>TaskID_fi = TaskID_xf q, WorkerID_fi = WorkerID_xf q, Version_fi = Version_xf q, LeaseToken_fi = LeaseToken_xf q,
        ErrorCode_fi = ErrorCode_xf q, ErrorMessage_fi = ErrorMessage_xf q, Retryable_fi = Retryable_xf q,
        RetryAfter_fi = max 0 (RetryAfter_xf q)\<rparr>) task_answer)"
  unfolding Fail_client_def
  by (rule workerTask_delivers [OF assms(1-3) assms(9), where route = "FailR (TaskID_xf q)"])
    (use assms(3,8) fail_wire_decoded [OF assms(4-7,9,10)] in
      \<open>simp_all add: served_defs FailWorkerTask_def worker_post_accepted [OF assms(1,2)]
        parseOptionalDuration_format bind_def of_result_def respond_def\<close>)

lemma Release_delivers:
  assumes "connected c h" "workerTaskService_h h = Some ws" "addressable (TaskID_xe q)" "valid_utf8 (WorkerID_xe q)"
    "valid_utf8 (LeaseToken_xe q)" "release_wire q = Some b" "length b \<le> maxRequestBodyBytes"
  shows "delivers c h page env (task_result c) (Release_client c q)
    (respond (ReleaseTask (stores_ws ws) (now1_he env) (now2_he env) (eventID_he env)
       \<lparr>TaskID_ri = TaskID_xe q, WorkerID_ri = WorkerID_xe q, Version_ri = Version_xe q, LeaseToken_ri = LeaseToken_xe q\<rparr>)
      task_answer)"
  unfolding Release_client_def
  by (rule workerTask_delivers [OF assms(1-3) assms(6), where route = "ReleaseR (TaskID_xe q)"])
    (use assms(3) release_wire_decoded [OF assms(4-7)] in
      \<open>simp_all add: served_defs ReleaseWorkerTask_def worker_post_accepted [OF assms(1,2)]\<close>)

text \<open>The claim: an answer without content is the error that says so.\<close>

definition claim_answer :: "'s Handler \<Rightarrow> string \<Rightarrow> ('s, Task) op \<Rightarrow> 's handler" where
  "claim_answer h workflow claim s =
     (case claim (claim_metric h (RecordClaimAttempt workflow) s) of
        (Inl e, s1) \<Rightarrow>
          if errors_Is e ErrNoTaskAvailable
          then (\<lparr>Status_rs = 204, Body_rs = NoBody\<rparr>, claim_metric h (RecordClaimMiss workflow) s1)
          else (writeApplicationError e, s1)
      | (Inr task, s1) \<Rightarrow> (task_answer task, s1))"

lemma delivers_map:
  assumes "delivers c h page env k call served" "\<And>s. call' s = map_prod g id (call s)" "\<And>r. k' r = g (k r)"
  shows "delivers c h page env k' call' served"
proof -
  obtain w r where w: "\<And>s. call s = map_prod k id (Do_c c w s)" "received (baseURL c) w = Some r"
    "\<And>s. NewRouter h page env r s = served s"
    using assms(1) unfolding delivers_def by blast
  have "call' s = map_prod k' id (Do_c c w s)" for s
    unfolding assms(2) w(1) by (simp add: map_prod_def assms(3) split: prod.split)
  with w(2,3) show ?thesis unfolding delivers_def by blast
qed

lemma Claim_delivers:
  assumes "connected c h" "workerTaskService_h h = Some ws" "valid_utf8 (WorkerID_xc q)" "valid_utf8 (Workflow_xc q)"
    "0 < LeaseDuration_xc q" "in_i64 (LeaseDuration_xc q)" "claim_wire q = Some b" "length b \<le> maxRequestBodyBytes"
  shows "delivers c h page env (claim_result c) (Claim_client c q)
    (claim_answer h (Workflow_xc q) (ClaimTask (stores_ws ws) (now1_he env) (eventID_he env)
       \<lparr>WorkerID_ci = WorkerID_xc q, Workflow_ci = Workflow_xc q, LeaseDuration_ci = LeaseDuration_xc q\<rparr>))"
proof (rule delivers_map)
  let ?call = "doJSON c ''POST'' ''/worker/tasks/claim'' (Some (Some b)) (workerHeaders c) [] (decode_task (lenient_c c))"
  have path: "those (map PathUnescape (split_path (drop 1 ''/worker/tasks/claim''))) = Some [''worker'', ''tasks'', ''claim'']"
    by simp
  have route: "post_route True [''worker'', ''tasks'', ''claim''] = Some ClaimR" by (simp add: post_route_def)
  show "delivers c h page env (decode_response (decode_task (lenient_c c))) ?call
    (claim_answer h (Workflow_xc q) (ClaimTask (stores_ws ws) (now1_he env) (eventID_he env)
       \<lparr>WorkerID_ci = WorkerID_xc q, Workflow_ci = Workflow_xc q, LeaseDuration_ci = LeaseDuration_xc q\<rparr>))"
    using claim_wire_decoded [OF assms(3,4,7,8)] assms(5,6)
    by (intro doJSON_delivers [OF assms(1) _ path])
      (simp_all add: url_path_def unreserved_def byte_in_def worker_post_routed [OF assms(2) route]
        ClaimWorkerTask_def worker_post_accepted [OF assms(1,2)] parseLeaseDuration_String claim_answer_def task_answer_def
        split: prod.split sum.split)
  let ?g = "\<lambda>r. case r of Inr task \<Rightarrow> Inr task | Inl e \<Rightarrow>
      Inl (if (case As_HTTPError e of Some (status, _) \<Rightarrow> status = 204 | None \<Rightarrow> False)
        then ClientErrNoTaskAvailable else e)"
  show "Claim_client c q s = map_prod ?g id (?call s)" for s
    by (auto simp: Claim_client_def assms(7) attempt_def ret_def raise_def split: prod.split sum.split)
  show "claim_result c r = ?g (decode_response (decode_task (lenient_c c)) r)" for r
    by (simp add: claim_result_def task_result_def)
qed

text \<open>The six calls together: what the library does for each, and what the service does.\<close>

datatype worker_call =
    ClaimCall ClaimRequest
  | HeartbeatCall string string string duration
  | ProgressCall string string string uint64 int string
  | CompleteCall CompleteRequest
  | FailCall FailRequest
  | ReleaseCall ReleaseRequest

fun client_call :: "'c Client \<Rightarrow> worker_call \<Rightarrow> ('c, client_task) op" where
  "client_call c (ClaimCall q) = Claim_client c q"
| "client_call c (HeartbeatCall taskID workerID token d) = Heartbeat_client c taskID workerID token d"
| "client_call c (ProgressCall taskID workerID token version progress message) =
     Progress_client c taskID workerID token version progress message"
| "client_call c (CompleteCall q) = Complete_client c q"
| "client_call c (FailCall q) = Fail_client c q"
| "client_call c (ReleaseCall q) = Release_client c q"

fun call_result :: "'c Client \<Rightarrow> worker_call \<Rightarrow> wire_response result \<Rightarrow> client_task result" where
  "call_result c (ClaimCall q) = claim_result c"
| "call_result c call = task_result c"

fun service_call :: "'s Handler \<Rightarrow> 's WorkerTaskService \<Rightarrow> http_env \<Rightarrow> worker_call \<Rightarrow> 's handler" where
  "service_call h ws env (ClaimCall q) =
     claim_answer h (Workflow_xc q) (ClaimTask (stores_ws ws) (now1_he env) (eventID_he env)
       \<lparr>WorkerID_ci = WorkerID_xc q, Workflow_ci = Workflow_xc q, LeaseDuration_ci = LeaseDuration_xc q\<rparr>)"
| "service_call h ws env (HeartbeatCall taskID workerID token d) =
     respond (HeartbeatTask (stores_ws ws) (now1_he env)
       \<lparr>TaskID_hi = taskID, WorkerID_hi = workerID, LeaseToken_hi = token, LeaseDuration_hi = d\<rparr>) task_answer"
| "service_call h ws env (ProgressCall taskID workerID token version progress message) =
     respond (ReportProgress (stores_ws ws) (now1_he env) (now2_he env) (eventID_he env)
       \<lparr>TaskID_pi = taskID, WorkerID_pi = workerID, Version_pi = version, LeaseToken_pi = token, Progress_pi = progress,
        Message_pi = message\<rparr>) task_answer"
| "service_call h ws env (CompleteCall q) =
     respond (CompleteTask (stores_ws ws) (now1_he env) (now2_he env) (eventID_he env)
       \<lparr>TaskID_cm = TaskID_xd q, WorkerID_cm = WorkerID_xd q, Version_cm = Version_xd q, LeaseToken_cm = LeaseToken_xd q,
        Output_cm = Output_xd q, ResultRef_cm = ResultRef_xd q\<rparr>) task_answer"
| "service_call h ws env (FailCall q) =
     respond (FailTask (stores_ws ws) (scheduler_ws ws env) (now1_he env) (now2_he env) (eventID_he env)
       \<lparr>TaskID_fi = TaskID_xf q, WorkerID_fi = WorkerID_xf q, Version_fi = Version_xf q, LeaseToken_fi = LeaseToken_xf q,
        ErrorCode_fi = ErrorCode_xf q, ErrorMessage_fi = ErrorMessage_xf q, Retryable_fi = Retryable_xf q,
        RetryAfter_fi = max 0 (RetryAfter_xf q)\<rparr>) task_answer"
| "service_call h ws env (ReleaseCall q) =
     respond (ReleaseTask (stores_ws ws) (now1_he env) (now2_he env) (eventID_he env)
       \<lparr>TaskID_ri = TaskID_xe q, WorkerID_ri = WorkerID_xe q, Version_ri = Version_xe q, LeaseToken_ri = LeaseToken_xe q\<rparr>)
       task_answer"

fun call_body :: "worker_call \<Rightarrow> string option" where
  "call_body (ClaimCall q) = claim_wire q"
| "call_body (HeartbeatCall taskID workerID token d) = heartbeat_wire workerID token d"
| "call_body (ProgressCall taskID workerID token version progress message) =
     progress_wire workerID token version progress message"
| "call_body (CompleteCall q) = complete_wire q"
| "call_body (FailCall q) = fail_wire q"
| "call_body (ReleaseCall q) = release_wire q"

text \<open>
  The arguments JSON and a path can carry: UTF-8 texts, printed values, 64-bit numbers, and
  positive durations where the server asks for them.
\<close>

fun call_args_ok :: "worker_call \<Rightarrow> bool" where
  "call_args_ok (ClaimCall q) \<longleftrightarrow> valid_utf8 (WorkerID_xc q) \<and> valid_utf8 (Workflow_xc q) \<and>
     0 < LeaseDuration_xc q \<and> in_i64 (LeaseDuration_xc q)"
| "call_args_ok (HeartbeatCall taskID workerID token d) \<longleftrightarrow> addressable taskID \<and> valid_utf8 workerID \<and> valid_utf8 token \<and>
     0 < d \<and> in_i64 d"
| "call_args_ok (ProgressCall taskID workerID token version progress message) \<longleftrightarrow> addressable taskID \<and> valid_utf8 workerID \<and>
     valid_utf8 token \<and> valid_utf8 message \<and> in_i64 progress"
| "call_args_ok (CompleteCall q) \<longleftrightarrow> addressable (TaskID_xd q) \<and> valid_utf8 (WorkerID_xd q) \<and> valid_utf8 (LeaseToken_xd q) \<and>
     raw_ok (Output_xd q) \<and> raw_ok (ResultRef_xd q)"
| "call_args_ok (FailCall q) \<longleftrightarrow> addressable (TaskID_xf q) \<and> valid_utf8 (WorkerID_xf q) \<and> valid_utf8 (LeaseToken_xf q) \<and>
     valid_utf8 (ErrorCode_xf q) \<and> valid_utf8 (ErrorMessage_xf q) \<and> in_i64 (RetryAfter_xf q)"
| "call_args_ok (ReleaseCall q) \<longleftrightarrow> addressable (TaskID_xe q) \<and> valid_utf8 (WorkerID_xe q) \<and> valid_utf8 (LeaseToken_xe q)"

definition sendable :: "worker_call \<Rightarrow> bool" where
  "sendable call \<longleftrightarrow> call_args_ok call \<and>
     (case call_body call of None \<Rightarrow> False | Some body \<Rightarrow> length body \<le> maxRequestBodyBytes)"

lemma client_call_delivers:
  assumes "connected c h" "workerTaskService_h h = Some ws" "sendable call"
  shows "delivers c h page env (call_result c call) (client_call c call) (service_call h ws env call)"
  using assms(3)
  by (cases call)
    (auto simp: sendable_def split: option.splits
      intro!: Claim_delivers [OF assms(1,2)] Heartbeat_delivers [OF assms(1,2)] Progress_delivers [OF assms(1,2)]
        Complete_delivers [OF assms(1,2)] Fail_delivers [OF assms(1,2)] Release_delivers [OF assms(1,2)])

end
