(* ===== verification/ServerWire.thy ===== *)
theory ServerWire
  imports ClientSpecs QueryFacts
begin

text \<open>
  The bodies of the server's responses (\<open>internal/transport/http/response.go\<close>) as the client
  library reads them: a task that the server encodes is decoded as the same task.
\<close>

section \<open>Encoding\<close>

text \<open>A member of type \<open>*time.Time\<close> with \<open>omitempty\<close>.\<close>

definition time_ptr :: "string \<Rightarrow> time option \<Rightarrow> wire_field" where
  "time_ptr name t = (case t of None \<Rightarrow> [] | Some u \<Rightarrow> field name (timestamp u))"

text \<open>The struct \<open>domain.Task\<close>, with its tags.\<close>

definition marshal_task :: "Task \<Rightarrow> string option" where
  "marshal_task t = marshal_struct
     [field ''id'' (quoted (ID t)),
      omit (IdempotencyKey t = []) (field ''idempotency_key'' (quoted (IdempotencyKey t))),
      field ''workflow'' (quoted (Workflow t)),
      field ''status'' (quoted (status_text (Status t))),
      field ''input'' (marshal_raw (Input t)),
      omit (Result t = []) (field ''result'' (marshal_raw (Result t))),
      omit (ErrorMessage t = []) (field ''error_message'' (quoted (ErrorMessage t))),
      field ''progress'' (number (Progress t)),
      field ''retry_count'' (number (RetryCount t)),
      field ''max_retries'' (number (MaxRetries t)),
      field ''available_at'' (timestamp (AvailableAt t)),
      field ''version'' (number (uint (Version t))),
      omit (LeaseOwner t = []) (field ''lease_owner'' (quoted (LeaseOwner t))),
      time_ptr ''lease_expires_at'' (LeaseExpiresAt t),
      time_ptr ''last_heartbeat_at'' (LastHeartbeatAt t),
      omit (LeaseToken t = []) (field ''lease_token'' (quoted (LeaseToken t))),
      omit (TaskID t = []) (field ''task_id'' (quoted (TaskID t))),
      time_ptr ''lease_until'' (LeaseUntil t),
      field ''created_at'' (timestamp (CreatedAt t)),
      field ''updated_at'' (timestamp (UpdatedAt t)),
      time_ptr ''started_at'' (StartedAt t),
      time_ptr ''finished_at'' (FinishedAt t)]"

definition marshal_error :: "string \<Rightarrow> string option" where
  "marshal_error message = marshal_struct [field ''error'' (quoted message)]"

text \<open>
  \<open>json.NewEncoder(w).Encode(value)\<close>: the text and a line feed, or nothing when the value cannot
  be marshalled.  \<open>other\<close> stands for the bodies that are not tasks or errors.
\<close>

definition encode_body :: "(http_body \<Rightarrow> string) \<Rightarrow> http_body \<Rightarrow> string" where
  "encode_body other b =
     (case b of
        TaskBody None \<Rightarrow> ''null'' @ [CHR 0x0A]
      | TaskBody (Some t) \<Rightarrow> (case marshal_task t of None \<Rightarrow> [] | Some x \<Rightarrow> x @ [CHR 0x0A])
      | ErrorBody message \<Rightarrow> (case marshal_error message of None \<Rightarrow> [] | Some x \<Rightarrow> x @ [CHR 0x0A])
      | NoBody \<Rightarrow> []
      | _ \<Rightarrow> other b)"

section \<open>Members\<close>

lemma first_members_print:
  assumes "json_ok (JObject kvs)" "jdepth (JObject kvs) \<le> max_nesting" "number_stop t"
  shows "first_members (json_print (JObject kvs) @ t) = Some (map (\<lambda>(k, v). (k, v, json_print v)) kvs)"
proof -
  let ?x = "json_print (JObject kvs)"
  have ws: "skip_ws (?x @ t) = ?x @ t" using assms(1) by (rule skip_ws_print)
  have "parse_value (2 * length (?x @ t) + 2) max_nesting (?x @ t) = Some (JObject kvs, t)"
    using reads_back_print [OF assms(1)] jfuel_le [OF assms(1)] assms(2,3)
    unfolding reads_back_def by (metis (no_types, lifting) length_append nat_le_linear add_leD1 distrib_left trans_le_add1)
  then show ?thesis
  proof (cases kvs)
    case (Cons kv kvs')
    let ?b = "join '','' (map (\<lambda>(k, v). json_quote k @ '':'' @ json_print v) kvs) @ CHR ''}'' # t"
    have "skip_ws ?b = ?b" by (cases kvs'; cases kv) (simp_all add: Cons)
    moreover have "raw_members (2 * length (?x @ t) + 1) (max_nesting - 1) ?b =
        Some (map (\<lambda>(k, v). (k, v, json_print v)) kvs, t)"
      using jfuel_le [OF assms(1)] assms(1,2) Cons by (intro raw_members_print) auto
    ultimately show ?thesis
      using \<open>parse_value _ _ (?x @ t) = _\<close> ws Cons by (simp add: first_members_def del: raw_members.simps)
  qed (use ws in \<open>simp add: first_members_def\<close>)
qed

section \<open>Tasks\<close>

definition time_ok :: "time \<Rightarrow> bool" where
  "time_ok t \<longleftrightarrow> MarshalTime t \<noteq> None"

lemma time_ok_marshal: "time_ok t \<Longrightarrow> timestamp t = Some (json_print (JString (format_time t)))"
  by (auto simp: time_ok_def timestamp_def MarshalTime_def split: if_splits)

lemma time_ok_unmarshal: "time_ok t \<Longrightarrow> UnmarshalTime lenient (format_time t) = Some t"
  by (auto simp: time_ok_def MarshalTime_def UnmarshalTime_def parseRFC3339_format split: if_splits)

text \<open>A task that JSON can carry.\<close>

definition printable :: "Task \<Rightarrow> bool" where
  "printable t \<longleftrightarrow>
     list_all valid_utf8 [ID t, IdempotencyKey t, Workflow t, status_text (Status t), ErrorMessage t, LeaseOwner t,
       LeaseToken t, TaskID t] \<and>
     raw_ok (Input t) \<and> Input t \<noteq> [] \<and> raw_ok (Result t) \<and>
     list_all in_i64 [Progress t, RetryCount t, MaxRetries t] \<and>
     list_all time_ok [AvailableAt t, CreatedAt t, UpdatedAt t] \<and>
     list_all (pred_option time_ok) [LeaseExpiresAt t, LastHeartbeatAt t, LeaseUntil t, StartedAt t, FinishedAt t]"

text \<open>The task as the client library has it.\<close>

definition client_view :: "Task \<Rightarrow> client_task" where
  "client_view t = \<lparr>ID_ct = ID t, IdempotencyKey_ct = IdempotencyKey t, Workflow_ct = Workflow t,
     Status_ct = status_text (Status t), Input_ct = Input t, Result_ct = Result t, ErrorMessage_ct = ErrorMessage t,
     Progress_ct = Progress t, RetryCount_ct = RetryCount t, MaxRetries_ct = MaxRetries t, Version_ct = Version t,
     LeaseToken_ct = LeaseToken t, LeaseUntil_ct = LeaseUntil t, CreatedAt_ct = CreatedAt t, UpdatedAt_ct = UpdatedAt t,
     StartedAt_ct = StartedAt t, FinishedAt_ct = FinishedAt t\<rparr>"

lemma task_field_members:
  "task_field lenient (''id'', JString x, raw) r = Some (r\<lparr>ID_ct := x\<rparr>)"
  "task_field lenient (''idempotency_key'', JString x, raw) r = Some (r\<lparr>IdempotencyKey_ct := x\<rparr>)"
  "task_field lenient (''workflow'', JString x, raw) r = Some (r\<lparr>Workflow_ct := x\<rparr>)"
  "task_field lenient (''status'', JString x, raw) r = Some (r\<lparr>Status_ct := x\<rparr>)"
  "task_field lenient (''error_message'', JString x, raw) r = Some (r\<lparr>ErrorMessage_ct := x\<rparr>)"
  "task_field lenient (''lease_token'', JString x, raw) r = Some (r\<lparr>LeaseToken_ct := x\<rparr>)"
  "task_field lenient (''input'', v, raw) r = Some (r\<lparr>Input_ct := raw\<rparr>)"
  "task_field lenient (''result'', v, raw) r = Some (r\<lparr>Result_ct := raw\<rparr>)"
  "in_i64 i \<Longrightarrow> task_field lenient (''progress'', JInt i, raw) r = Some (r\<lparr>Progress_ct := i\<rparr>)"
  "in_i64 i \<Longrightarrow> task_field lenient (''retry_count'', JInt i, raw) r = Some (r\<lparr>RetryCount_ct := i\<rparr>)"
  "in_i64 i \<Longrightarrow> task_field lenient (''max_retries'', JInt i, raw) r = Some (r\<lparr>MaxRetries_ct := i\<rparr>)"
  "task_field lenient (''version'', JInt (uint n), raw) r = Some (r\<lparr>Version_ct := n\<rparr>)"
  "time_ok u \<Longrightarrow> task_field lenient (''created_at'', JString (format_time u), raw) r = Some (r\<lparr>CreatedAt_ct := u\<rparr>)"
  "time_ok u \<Longrightarrow> task_field lenient (''updated_at'', JString (format_time u), raw) r = Some (r\<lparr>UpdatedAt_ct := u\<rparr>)"
  "time_ok u \<Longrightarrow> task_field lenient (''lease_until'', JString (format_time u), raw) r = Some (r\<lparr>LeaseUntil_ct := Some u\<rparr>)"
  "time_ok u \<Longrightarrow> task_field lenient (''started_at'', JString (format_time u), raw) r = Some (r\<lparr>StartedAt_ct := Some u\<rparr>)"
  "time_ok u \<Longrightarrow> task_field lenient (''finished_at'', JString (format_time u), raw) r = Some (r\<lparr>FinishedAt_ct := Some u\<rparr>)"
  "task_field lenient (''available_at'', v, raw) r = Some r"
  "task_field lenient (''lease_owner'', v, raw) r = Some r"
  "task_field lenient (''lease_expires_at'', v, raw) r = Some r"
  "task_field lenient (''last_heartbeat_at'', v, raw) r = Some r"
  "task_field lenient (''task_id'', v, raw) r = Some r"
  by (simp_all add: task_field_def decode_defs time_field_def time_ptr_field_def time_ok_unmarshal)

text \<open>A member that may be left out leaves the field as it was.\<close>

lemma decode_optional:
  "decode_members f (map g (if c then [] else [m])) r = (if c then Some r else f (g m) r)"
  "(if c then Some r else Some r') = Some (if c then r else r')"
  by (auto split: option.split)

lemma optional_update:
  "(if c then r else r\<lparr>IdempotencyKey_ct := x\<rparr>) = r\<lparr>IdempotencyKey_ct := if c then IdempotencyKey_ct r else x\<rparr>"
  "(if c then r else r\<lparr>ErrorMessage_ct := x\<rparr>) = r\<lparr>ErrorMessage_ct := if c then ErrorMessage_ct r else x\<rparr>"
  "(if c then r else r\<lparr>LeaseToken_ct := x\<rparr>) = r\<lparr>LeaseToken_ct := if c then LeaseToken_ct r else x\<rparr>"
  "(if c then r else r\<lparr>Result_ct := x\<rparr>) = r\<lparr>Result_ct := if c then Result_ct r else x\<rparr>"
  "(if c then r else r\<lparr>LeaseUntil_ct := u\<rparr>) = r\<lparr>LeaseUntil_ct := if c then LeaseUntil_ct r else u\<rparr>"
  "(if c then r else r\<lparr>StartedAt_ct := u\<rparr>) = r\<lparr>StartedAt_ct := if c then StartedAt_ct r else u\<rparr>"
  "(if c then r else r\<lparr>FinishedAt_ct := u\<rparr>) = r\<lparr>FinishedAt_ct := if c then FinishedAt_ct r else u\<rparr>"
  by simp_all

lemma optional_value:
  "(if x = [] then [] else x) = x" "(if u = None then None else Some (the u)) = u" "(if c then y else y) = y"
  by auto

text \<open>The members of an encoded task; \<open>input\<close> and \<open>result\<close> are the values whose text the task has.\<close>

definition task_members :: "json \<Rightarrow> json \<Rightarrow> Task \<Rightarrow> (string \<times> json) list list" where
  "task_members input result t =
     (let instant = (\<lambda>u. JString (format_time u));
          pointer = (\<lambda>name u. if u = None then [] else [(name, instant (the u))])
      in
     [[(''id'', JString (ID t))],
      if IdempotencyKey t = [] then [] else [(''idempotency_key'', JString (IdempotencyKey t))],
      [(''workflow'', JString (Workflow t))],
      [(''status'', JString (status_text (Status t)))],
      [(''input'', input)],
      if Result t = [] then [] else [(''result'', result)],
      if ErrorMessage t = [] then [] else [(''error_message'', JString (ErrorMessage t))],
      [(''progress'', JInt (Progress t))],
      [(''retry_count'', JInt (RetryCount t))],
      [(''max_retries'', JInt (MaxRetries t))],
      [(''available_at'', instant (AvailableAt t))],
      [(''version'', JInt (uint (Version t)))],
      if LeaseOwner t = [] then [] else [(''lease_owner'', JString (LeaseOwner t))],
      pointer ''lease_expires_at'' (LeaseExpiresAt t),
      pointer ''last_heartbeat_at'' (LastHeartbeatAt t),
      if LeaseToken t = [] then [] else [(''lease_token'', JString (LeaseToken t))],
      if TaskID t = [] then [] else [(''task_id'', JString (TaskID t))],
      pointer ''lease_until'' (LeaseUntil t),
      [(''created_at'', instant (CreatedAt t))],
      [(''updated_at'', instant (UpdatedAt t))],
      pointer ''started_at'' (StartedAt t),
      pointer ''finished_at'' (FinishedAt t)])"

lemma time_ptr_print:
  "pred_option time_ok p \<Longrightarrow> time_ptr n p = (if p = None then [] else [(n, Some (json_quote (format_time (the p))))])"
  by (auto simp: time_ptr_def field_def time_ok_marshal split: option.splits)

lemma raw_omit_print:
  "raw = [] \<or> marshal_raw raw = Some (json_print v) \<Longrightarrow>
   omit (raw = []) (field n (marshal_raw raw)) = (if raw = [] then [] else [(n, Some (json_print v))])"
  by (auto simp: omit_def field_def)

lemma map_optional: "map f (if c then [] else [x]) = (if c then [] else [f x])"
  by simp

lemma marshal_task_print:
  assumes "printable t" "marshal_raw (Input t) = Some (json_print input)"
    "Result t = [] \<or> marshal_raw (Result t) = Some (json_print result)"
  shows "marshal_task t = Some (json_print (JObject (concat (task_members input result t))))"
  unfolding marshal_task_def
proof (rule marshal_struct_print)
  note p = assms(1) [unfolded printable_def list.pred_inject] assms(2,3)
  show "concat [field ''id'' (quoted (ID t)),
      omit (IdempotencyKey t = []) (field ''idempotency_key'' (quoted (IdempotencyKey t))),
      field ''workflow'' (quoted (Workflow t)), field ''status'' (quoted (status_text (Status t))),
      field ''input'' (marshal_raw (Input t)), omit (Result t = []) (field ''result'' (marshal_raw (Result t))),
      omit (ErrorMessage t = []) (field ''error_message'' (quoted (ErrorMessage t))),
      field ''progress'' (number (Progress t)), field ''retry_count'' (number (RetryCount t)),
      field ''max_retries'' (number (MaxRetries t)), field ''available_at'' (timestamp (AvailableAt t)),
      field ''version'' (number (uint (Version t))),
      omit (LeaseOwner t = []) (field ''lease_owner'' (quoted (LeaseOwner t))),
      time_ptr ''lease_expires_at'' (LeaseExpiresAt t), time_ptr ''last_heartbeat_at'' (LastHeartbeatAt t),
      omit (LeaseToken t = []) (field ''lease_token'' (quoted (LeaseToken t))),
      omit (TaskID t = []) (field ''task_id'' (quoted (TaskID t))), time_ptr ''lease_until'' (LeaseUntil t),
      field ''created_at'' (timestamp (CreatedAt t)), field ''updated_at'' (timestamp (UpdatedAt t)),
      time_ptr ''started_at'' (StartedAt t), time_ptr ''finished_at'' (FinishedAt t)] =
    map (\<lambda>(k, v). (k, Some (json_print v))) (concat (task_members input result t))"
    unfolding map_concat task_members_def Let_def raw_omit_print [OF assms(3)] assms(2)
    using p by (intro arg_cong [where f = concat])
      (simp add: field_def quoted_def number_def omit_def time_ok_marshal time_ptr_print map_optional cong: if_cong split del: if_split)
qed

lemma members_depth:
  "list_all (\<lambda>(k, v). valid_utf8 k \<and> json_ok v \<and> jdepth v < max_nesting) kvs \<Longrightarrow>
   foldr (\<lambda>(k, v). max (jdepth v)) kvs 0 < max_nesting"
  by (induction kvs) (auto simp: max_nesting_def)

lemma task_members_ok:
  assumes "printable t" "json_ok input" "jdepth input < max_nesting" "json_ok result" "jdepth result < max_nesting"
  shows "json_ok (JObject (concat (task_members input result t)))"
    "jdepth (JObject (concat (task_members input result t))) \<le> max_nesting"
proof -
  have names: "list_all (\<lambda>(k, v). valid_utf8 k \<and> json_ok v \<and> jdepth v < max_nesting) kvs"
    if "kvs \<in> set (task_members input result t)" for kvs
    using that assms format_time_ascii unfolding printable_def task_members_def Let_def
    by (auto intro!: valid_utf8_ascii simp: byte_in_def max_nesting_def)
  then have all: "list_all (\<lambda>(k, v). valid_utf8 k \<and> json_ok v \<and> jdepth v < max_nesting) (concat (task_members input result t))"
    by (auto simp: list_all_iff)
  then show "json_ok (JObject (concat (task_members input result t)))" by (auto simp: list_all_iff)
  from all have "foldr (\<lambda>(k, v). max (jdepth v)) (concat (task_members input result t)) 0 < max_nesting"
    by (rule members_depth)
  then show "jdepth (JObject (concat (task_members input result t))) \<le> max_nesting" by simp
qed

lemma zero_task_fields:
  "IdempotencyKey_ct zero_task = []" "ErrorMessage_ct zero_task = []" "LeaseToken_ct zero_task = []"
  "Result_ct zero_task = []" "LeaseUntil_ct zero_task = None" "StartedAt_ct zero_task = None" "FinishedAt_ct zero_task = None"
  by (simp_all add: zero_task_def)

lemma decode_task_members:
  assumes "printable t" "Input t = json_print input" "Result t = [] \<or> Result t = json_print result"
  shows "decode_members (task_field lenient) (map (\<lambda>(k, v). (k, v, json_print v)) (concat (task_members input result t))) zero_task =
    Some (client_view t)"
proof -
  have res: "(if Result t = [] then [] else json_print result) = Result t" using assms(3) by auto
  have p: "in_i64 (Progress t)" "in_i64 (RetryCount t)" "in_i64 (MaxRetries t)" "time_ok (CreatedAt t)" "time_ok (UpdatedAt t)"
    using assms(1) by (simp_all add: printable_def)
  have ptr: "LeaseUntil t \<noteq> None \<Longrightarrow> time_ok (the (LeaseUntil t))" "StartedAt t \<noteq> None \<Longrightarrow> time_ok (the (StartedAt t))"
    "FinishedAt t \<noteq> None \<Longrightarrow> time_ok (the (FinishedAt t))"
    using assms(1) by (auto simp: printable_def)
  show ?thesis
    unfolding task_members_def Let_def
    by (simp add: decode_members_append decode_optional optional_update optional_value task_field_members p ptr
        zero_task_fields res assms(2) cong: if_cong split del: if_split)
      (simp add: zero_task_def client_view_def assms(2))
qed

text \<open>An encoded task is decoded as itself.\<close>

lemma decode_encode_task:
  assumes "printable t"
  shows "decode_task lenient (encode_body other (TaskBody (Some t))) = Some (client_view t)"
proof -
  obtain input where i: "Input t = json_print input" "json_ok input" "jdepth input < max_nesting"
    using assms by (auto simp: printable_def raw_ok_def)
  obtain result where r: "Result t = [] \<or> Result t = json_print result" "json_ok result" "jdepth result < max_nesting"
  proof (cases "Result t = []")
    case True
    then show ?thesis by (intro that [of JNull]) (simp_all add: max_nesting_def)
  next
    case False
    then show ?thesis using assms that by (auto simp: printable_def raw_ok_def)
  qed
  let ?o = "JObject (concat (task_members input result t))"
  note ok = task_members_ok [OF assms i(2,3) r(2,3)]
  have "marshal_task t = Some (json_print ?o)"
    using r i by (intro marshal_task_print [OF assms]) (auto simp: marshal_raw_print)
  then have "encode_body other (TaskBody (Some t)) = json_print ?o @ [CHR 0x0A]"
    by (simp add: encode_body_def del: json_print.simps)
  moreover have "number_stop [CHR 0x0A]" by (simp add: number_stop_def is_digit_def)
  ultimately show ?thesis
    using first_members_print [OF ok] decode_task_members [OF assms i(1) r(1)]
    by (simp add: decode_task_def del: json_print.simps)
qed

section \<open>Calls over the network\<close>

text \<open>
  The network between the library and the server.  Request \<open>n\<close> is delivered, or it is lost
  before the server has it, or the answer is lost.  The state is the server's with the number of
  requests so far; \<open>envs n\<close> is the surroundings of the server while it handles request \<open>n\<close>.
\<close>

datatype network = Delivered | RequestLost error | ResponseLost error

definition wire_answer :: "(http_body \<Rightarrow> string) \<Rightarrow> http_response \<Rightarrow> wire_response" where
  "wire_answer other resp =
     \<lparr>Status_wp = Status_rs resp, Data_wp = encode_body other (Body_rs resp), ReadErr_wp = None\<rparr>"

definition serve_wire ::
  "string \<Rightarrow> 's Handler \<Rightarrow> 's handler option \<Rightarrow> (http_body \<Rightarrow> string) \<Rightarrow> (nat \<Rightarrow> http_env) \<Rightarrow> (nat \<Rightarrow> network) \<Rightarrow>
     wire_request \<Rightarrow> ('s \<times> nat, wire_response) op" where
  "serve_wire base h page other envs net w sn =
     (case sn of (s, n) \<Rightarrow>
        (case net n of
           RequestLost e \<Rightarrow> (Inl (UrlError ''Post'' e), (s, Suc n))
         | _ \<Rightarrow>
             (case received base w of
                None \<Rightarrow> (Inr \<lparr>Status_wp = 400, Data_wp = ''400 Bad Request'', ReadErr_wp = None\<rparr>, (s, Suc n))
              | Some r \<Rightarrow>
                  (case NewRouter h page (envs n) r s of
                     (resp, s1) \<Rightarrow>
                       (case net n of
                          ResponseLost e \<Rightarrow> (Inl (UrlError ''Post'' e), (s1, Suc n))
                        | _ \<Rightarrow> (Inr (wire_answer other resp), (s1, Suc n)))))))"

text \<open>A call over the network is the operation of the server it delivers.\<close>

lemma remote_call:
  assumes "delivers c h page (envs n) k call operation" "Do_c c = serve_wire (baseURL c) h page other envs net"
    "net n = Delivered"
  shows "call (s, n) = (k (Inr (wire_answer other (fst (operation s)))), (snd (operation s), Suc n))"
proof -
  obtain w r where w: "\<And>s. call s = map_prod k id (Do_c c w s)" "received (baseURL c) w = Some r"
    "\<And>s. NewRouter h page (envs n) r s = operation s"
    using assms(1) unfolding delivers_def by blast
  show ?thesis unfolding w(1) assms(2) using assms(3) w(2,3) by (simp add: serve_wire_def split: prod.split)
qed

lemma remote_call_lost:
  assumes "delivers c h page (envs n) k call operation" "Do_c c = serve_wire (baseURL c) h page other envs net"
  shows "net n = RequestLost e \<Longrightarrow> call (s, n) = (k (Inl (UrlError ''Post'' e)), (s, Suc n))"
    and "net n = ResponseLost e \<Longrightarrow> call (s, n) = (k (Inl (UrlError ''Post'' e)), (snd (operation s), Suc n))"
proof -
  obtain w r where w: "\<And>s. call s = map_prod k id (Do_c c w s)" "received (baseURL c) w = Some r"
    "\<And>s. NewRouter h page (envs n) r s = operation s"
    using assms(1) unfolding delivers_def by blast
  show "net n = RequestLost e \<Longrightarrow> call (s, n) = (k (Inl (UrlError ''Post'' e)), (s, Suc n))"
    unfolding w(1) assms(2) by (simp add: serve_wire_def)
  show "net n = ResponseLost e \<Longrightarrow> call (s, n) = (k (Inl (UrlError ''Post'' e)), (snd (operation s), Suc n))"
    unfolding w(1) assms(2) using w(2,3) by (simp add: serve_wire_def split: prod.split)
qed

lemma task_result_answer: "printable t \<Longrightarrow> task_result c (Inr (wire_answer other (task_answer t))) = Inr (client_view t)"
  by (simp add: task_result_def decode_response_def wire_answer_def task_answer_def writeJSON_def decode_encode_task)

text \<open>What the client sees of an error of the service.\<close>

definition remote_error :: "(http_body \<Rightarrow> string) \<Rightarrow> error \<Rightarrow> error" where
  "remote_error other e =
     (let resp = writeApplicationError e in
      HTTPError (Status_rs resp) (TrimSpace (take (2 ^ 20) (encode_body other (Body_rs resp)))))"

lemma task_result_error: "task_result c (Inr (wire_answer other (writeApplicationError e))) = Inl (remote_error other e)"
  by (auto simp: task_result_def decode_response_def wire_answer_def remote_error_def Let_def writeApplicationError_def
      writeError_def writeJSON_def)

lemma remote_service:
  assumes "delivers c h page (envs n) (task_result c) call (respond svc task_answer)"
    "Do_c c = serve_wire (baseURL c) h page other envs net" "net n = Delivered"
  shows "svc s = (Inr t, s1) \<Longrightarrow> printable t \<Longrightarrow> call (s, n) = (Inr (client_view t), (s1, Suc n))"
    and "svc s = (Inl e, s1) \<Longrightarrow> call (s, n) = (Inl (remote_error other e), (s1, Suc n))"
  by (simp_all add: remote_call [OF assms] respond_def task_result_answer task_result_error)

end
