(* ===== verification/WorkerLibrary.thy ===== *)
theory WorkerLibrary
  imports Client Retry Quote
begin

text \<open>
  Package \<open>taskpulseworker\<close> (\<open>pkg/taskpulseworker/runtime.go\<close>): the runtime of a worker outside
  the server.  It claims tasks, runs an executor on each while a goroutine renews the lease,
  and reports the outcome.  Logging is left out.
\<close>

section \<open>Failures\<close>

record Failure =
  Code_fl :: string
  Message_fl :: string
  Retryable_fl :: bool
  RetryAfter_fl :: duration
  Err_fl :: "error option"

definition failure_error :: "Failure \<Rightarrow> error" where
  "failure_error f = FailureErr (Code_fl f) (Message_fl f) (Retryable_fl f) (RetryAfter_fl f) (Err_fl f)"

definition Retryable_failure :: "string \<Rightarrow> string \<Rightarrow> error option \<Rightarrow> error" where
  "Retryable_failure code message err =
     failure_error \<lparr>Code_fl = code, Message_fl = message, Retryable_fl = True, RetryAfter_fl = 0, Err_fl = err\<rparr>"

definition Permanent :: "string \<Rightarrow> string \<Rightarrow> error option \<Rightarrow> error" where
  "Permanent code message err =
     failure_error \<lparr>Code_fl = code, Message_fl = message, Retryable_fl = False, RetryAfter_fl = 0, Err_fl = err\<rparr>"

text \<open>\<open>errors.As\<close> with a \<open>*Failure\<close> as target.\<close>

fun As_Failure :: "error \<Rightarrow> Failure option" where
  "As_Failure (FailureErr c m r a e) =
     Some \<lparr>Code_fl = c, Message_fl = m, Retryable_fl = r, RetryAfter_fl = a, Err_fl = e\<rparr>"
| "As_Failure (Wrap pre e post) = As_Failure e"
| "As_Failure (UrlError call e) = As_Failure e"
| "As_Failure (ExecutionErr k c r (Some e)) = As_Failure e"
| "As_Failure e = None"

definition classify :: "error option \<Rightarrow> Failure" where
  "classify err =
     (case err of
        None \<Rightarrow> \<lparr>Code_fl = ''worker_error'', Message_fl = ''task failed'', Retryable_fl = True, RetryAfter_fl = 0,
                 Err_fl = None\<rparr>
      | Some e \<Rightarrow>
          (case As_Failure e of
             Some f \<Rightarrow>
               f\<lparr>Code_fl := (if Code_fl f = [] then ''worker_error'' else Code_fl f),
                 Message_fl := (if Message_fl f = [] then error_text e else Message_fl f)\<rparr>
           | None \<Rightarrow> \<lparr>Code_fl = ''worker_error'', Message_fl = error_text e, Retryable_fl = False, RetryAfter_fl = 0,
                       Err_fl = Some e\<rparr>))"

section \<open>Configuration\<close>

text \<open>The six calls of the client library that the runtime makes.\<close>

record 's worker_api =
  Claim_wa :: "ClaimRequest \<Rightarrow> ('s, client_task) op"
  Heartbeat_wa :: "string \<Rightarrow> string \<Rightarrow> string \<Rightarrow> duration \<Rightarrow> ('s, client_task) op"
  Progress_wa :: "string \<Rightarrow> string \<Rightarrow> string \<Rightarrow> uint64 \<Rightarrow> int \<Rightarrow> string \<Rightarrow> ('s, client_task) op"
  Complete_wa :: "CompleteRequest \<Rightarrow> ('s, client_task) op"
  Fail_wa :: "FailRequest \<Rightarrow> ('s, client_task) op"
  Release_wa :: "ReleaseRequest \<Rightarrow> ('s, client_task) op"

definition client_api :: "'s Client \<Rightarrow> 's worker_api" where
  "client_api c = \<lparr>Claim_wa = Claim_client c, Heartbeat_wa = Heartbeat_client c, Progress_wa = Progress_client c,
     Complete_wa = Complete_client c, Fail_wa = Fail_client c, Release_wa = Release_client c\<rparr>"

record 's Config =
  Client_cf :: "'s worker_api option"
  WorkerID_cf :: string
  Workflow_cf :: string
  LeaseDuration_cf :: duration
  PollInterval_cf :: duration
  ClaimRetryMaxInterval_cf :: duration
  HeartbeatInterval_cf :: duration
  ExecutionTimeout_cf :: duration
  ShutdownTimeout_cf :: duration

text \<open>An executor is known by its name; what it does while it runs is part of the run below.\<close>

record ('s, 'e) Runtime =
  client_rt :: "'s worker_api"
  workerID_rt :: string
  workflow_rt :: string
  leaseDuration_rt :: duration
  pollInterval_rt :: duration
  claimRetryMaxInterval_rt :: duration
  heartbeatInterval_rt :: duration
  executionTimeout_rt :: duration
  shutdownTimeout_rt :: duration
  executors_rt :: "string \<rightharpoonup> 'e"

definition New_runtime :: "'s Config \<Rightarrow> ('s, 'e) Runtime result" where
  "New_runtime cf =
     (case Client_cf cf of
        None \<Rightarrow> Inl (ErrNew ''taskpulse client is required'')
      | Some client \<Rightarrow>
          if WorkerID_cf cf = [] then Inl (ErrNew ''worker id is required'')
          else if TrimSpace (Workflow_cf cf) = [] then Inl (ErrNew ''workflow is required'')
          else
            let lease = (if LeaseDuration_cf cf \<le> 0 then 30 * Second else LeaseDuration_cf cf);
                poll = (if PollInterval_cf cf \<le> 0 then Second else PollInterval_cf cf);
                retryMax = (if ClaimRetryMaxInterval_cf cf \<le> 0 then 5 * Second else ClaimRetryMaxInterval_cf cf);
                retryMax1 = (if retryMax < poll then poll else retryMax);
                beat = (if HeartbeatInterval_cf cf \<le> 0 \<or> HeartbeatInterval_cf cf \<ge> lease then go_div lease 3
                        else HeartbeatInterval_cf cf);
                shutdown = (if ShutdownTimeout_cf cf \<le> 0 then 5 * Second else ShutdownTimeout_cf cf)
            in if ExecutionTimeout_cf cf < 0 then Inl (ErrNew ''execution timeout cannot be negative'')
               else Inr \<lparr>client_rt = client, workerID_rt = WorkerID_cf cf, workflow_rt = TrimSpace (Workflow_cf cf),
                 leaseDuration_rt = lease, pollInterval_rt = poll, claimRetryMaxInterval_rt = retryMax1,
                 heartbeatInterval_rt = beat, executionTimeout_rt = ExecutionTimeout_cf cf,
                 shutdownTimeout_rt = shutdown, executors_rt = Map.empty\<rparr>)"

definition Register ::
  "(nat \<Rightarrow> bool) \<Rightarrow> string \<Rightarrow> 'e option \<Rightarrow> ('s, 'e) Runtime \<Rightarrow> ('s, 'e) Runtime result" where
  "Register isPrint workflow executor r =
     (if workflow = [] then Inl (ErrNew ''workflow is required'')
      else (case executor of
          None \<Rightarrow> Inl (ErrNew ''executor is required'')
        | Some e \<Rightarrow>
            if workflow \<noteq> workflow_rt r then
              Inl (ErrNew (''executor workflow '' @ Quote isPrint workflow @ '' does not match runtime workflow '' @
                Quote isPrint (workflow_rt r)))
            else if executors_rt r workflow \<noteq> None then
              Inl (ErrNew (''executor already registered for workflow '' @ Quote isPrint workflow))
            else Inr (r\<lparr>executors_rt := (executors_rt r)(workflow \<mapsto> e)\<rparr>)))"

section \<open>Claiming\<close>

definition validateClaimedTask :: "(nat \<Rightarrow> bool) \<Rightarrow> ('s, 'e) Runtime \<Rightarrow> client_task \<Rightarrow> error option" where
  "validateClaimedTask isPrint r task =
     (if TrimSpace (ID_ct task) = [] then Some (ErrNew ''invalid claim response: task id is required'')
      else if Workflow_ct task \<noteq> workflow_rt r then
        Some (ErrNew (''invalid claim response for task '' @ Quote isPrint (ID_ct task) @ '': workflow '' @
          Quote isPrint (Workflow_ct task) @ '' does not match Worker workflow '' @ Quote isPrint (workflow_rt r)))
      else if Status_ct task \<noteq> ''running'' then
        Some (ErrNew (''invalid claim response for task '' @ Quote isPrint (ID_ct task) @ '': status '' @
          Quote isPrint (Status_ct task) @ '' is not running''))
      else if TrimSpace (LeaseToken_ct task) = [] then
        Some (ErrNew (''invalid claim response for task '' @ Quote isPrint (ID_ct task) @ '': lease token is required''))
      else None)"

text \<open>The loop of \<open>claimRetryDelay\<close>; a result of the multiplication wraps at 64 bits.\<close>

function claim_delay_loop :: "int \<Rightarrow> int \<Rightarrow> duration \<Rightarrow> duration \<Rightarrow> duration" where
  "claim_delay_loop attempt1 failures maximum delay =
     (if attempt1 < failures \<and> delay < maximum then
        if delay > go_div maximum 2 then maximum
        else claim_delay_loop (attempt1 + 1) failures maximum (i64 (delay * 2))
      else delay)"
  by pat_completeness auto
termination
  by (relation "measure (\<lambda>(attempt1, failures, _, _). nat (failures - attempt1))") auto

declare claim_delay_loop.simps [simp del]

definition claimRetryDelay :: "duration \<Rightarrow> duration \<Rightarrow> int \<Rightarrow> duration" where
  "claimRetryDelay base0 maximum0 failures =
     (let base = (if base0 \<le> 0 then Second else base0);
          maximum = (if maximum0 < base then base else maximum0)
      in if failures \<le> 1 then base else claim_delay_loop 1 failures maximum base)"

text \<open>\<open>errors.As\<close> with a \<open>net.Error\<close> as target: \<open>*url.Error\<close> is one, and so is \<open>context.DeadlineExceeded\<close>.\<close>

fun As_netError :: "error \<Rightarrow> bool" where
  "As_netError (UrlError call e) = True"
| "As_netError ContextDeadlineExceeded = True"
| "As_netError (Wrap pre e post) = As_netError e"
| "As_netError (ExecutionErr k c r (Some e)) = As_netError e"
| "As_netError (FailureErr c m r a (Some e)) = As_netError e"
| "As_netError e = False"

definition isRetryableClaimError :: "error \<Rightarrow> bool" where
  "isRetryableClaimError err =
     (if errors_Is err ContextCanceled then False
      else if errors_Is err ContextDeadlineExceeded then True
      else (case As_HTTPError err of
          Some (status, _) \<Rightarrow> status = 408 \<or> status = 429 \<or> status \<ge> 500
        | None \<Rightarrow> As_netError err))"

section \<open>One execution\<close>

record leaseState =
  token_ls :: string
  version_ls :: uint64

record WorkerResult =
  Output_wr :: raw_json
  ResultRef_wr :: raw_json

text \<open>
  While the executor runs, two goroutines share the lease state: the heartbeat loop and the
  executor's calls of \<open>Report\<close>.  Each holds the mutex only while it copies the state and
  while it writes it, so that a round of either is three steps that the other may come
  between.  \<open>HbRead\<close> and \<open>PrRead\<close> are the moments after the copy, \<open>HbCalled\<close> and \<open>PrCalled\<close>
  those after the call returned.
\<close>

datatype heartbeat_pc = HbWaiting | HbRead string uint64 | HbCalled client_task uint64 | HbStopped

datatype progress_pc = PrIdle | PrRead int string string uint64 | PrCalled client_task

record execution =
  lease_x :: leaseState
  heartbeat_x :: heartbeat_pc
  progress_x :: progress_pc
  heartbeatErr_x :: "error option"
  canceled_x :: bool

datatype goroutine_step = HbTick | HbCall | HbWrite | HbDone | PrStart int string | PrCall | PrWrite

definition start_execution :: "client_task \<Rightarrow> execution" where
  "start_execution task = \<lparr>lease_x = \<lparr>token_ls = LeaseToken_ct task, version_ls = Version_ct task\<rparr>,
     heartbeat_x = HbWaiting, progress_x = PrIdle, heartbeatErr_x = None, canceled_x = False\<rparr>"

text \<open>The loop of \<open>heartbeat\<close>: a tick and the copy, the call, the write.\<close>

definition heartbeat_tick :: "execution \<Rightarrow> execution" where
  "heartbeat_tick x =
     (case heartbeat_x x of
        HbWaiting \<Rightarrow> x\<lparr>heartbeat_x := HbRead (token_ls (lease_x x)) (version_ls (lease_x x))\<rparr>
      | _ \<Rightarrow> x)"

definition heartbeat_call ::
  "('s, 'e) Runtime \<Rightarrow> string \<Rightarrow> execution \<Rightarrow> 's \<Rightarrow> execution \<times> 's" where
  "heartbeat_call r taskID x s =
     (case heartbeat_x x of
        HbRead token version \<Rightarrow>
          (case Heartbeat_wa (client_rt r) taskID (workerID_rt r) token (leaseDuration_rt r) s of
             (Inl e, s1) \<Rightarrow>
               (if canceled_x x then x\<lparr>heartbeat_x := HbStopped\<rparr>
                else x\<lparr>heartbeat_x := HbStopped, heartbeatErr_x := Some e, canceled_x := True\<rparr>, s1)
           | (Inr task, s1) \<Rightarrow> (x\<lparr>heartbeat_x := HbCalled task version\<rparr>, s1))
      | _ \<Rightarrow> (x, s))"

definition heartbeat_write :: "execution \<Rightarrow> execution" where
  "heartbeat_write x =
     (case heartbeat_x x of
        HbCalled task version \<Rightarrow>
          x\<lparr>heartbeat_x := HbWaiting,
            lease_x := \<lparr>token_ls = LeaseToken_ct task,
              version_ls = (if Version_ct task \<noteq> 0 \<or> version = 0 then Version_ct task else version_ls (lease_x x))\<rparr>\<rparr>
      | _ \<Rightarrow> x)"

definition heartbeat_done :: "execution \<Rightarrow> execution" where
  "heartbeat_done x =
     (if canceled_x x \<and> heartbeat_x x = HbWaiting then x\<lparr>heartbeat_x := HbStopped\<rparr> else x)"

text \<open>\<open>progressReporter.Report\<close>.\<close>

definition report_start :: "int \<Rightarrow> string \<Rightarrow> execution \<Rightarrow> execution" where
  "report_start progress message x =
     (case progress_x x of
        PrIdle \<Rightarrow> x\<lparr>progress_x := PrRead progress message (token_ls (lease_x x)) (version_ls (lease_x x))\<rparr>
      | _ \<Rightarrow> x)"

definition report_call ::
  "('s, 'e) Runtime \<Rightarrow> string \<Rightarrow> execution \<Rightarrow> 's \<Rightarrow> execution \<times> 's" where
  "report_call r taskID x s =
     (case progress_x x of
        PrRead progress message token version \<Rightarrow>
          (case Progress_wa (client_rt r) taskID (workerID_rt r) token version progress message s of
             (Inl e, s1) \<Rightarrow> (x\<lparr>progress_x := PrIdle\<rparr>, s1)
           | (Inr task, s1) \<Rightarrow> (x\<lparr>progress_x := PrCalled task\<rparr>, s1))
      | _ \<Rightarrow> (x, s))"

definition report_write :: "execution \<Rightarrow> execution" where
  "report_write x =
     (case progress_x x of
        PrCalled task \<Rightarrow>
          x\<lparr>progress_x := PrIdle, lease_x := \<lparr>token_ls = LeaseToken_ct task, version_ls = Version_ct task\<rparr>\<rparr>
      | _ \<Rightarrow> x)"

fun execution_step :: "('s, 'e) Runtime \<Rightarrow> string \<Rightarrow> goroutine_step \<Rightarrow> execution \<times> 's \<Rightarrow> execution \<times> 's" where
  "execution_step r taskID HbTick (x, s) = (heartbeat_tick x, s)"
| "execution_step r taskID HbCall (x, s) = heartbeat_call r taskID x s"
| "execution_step r taskID HbWrite (x, s) = (heartbeat_write x, s)"
| "execution_step r taskID HbDone (x, s) = (heartbeat_done x, s)"
| "execution_step r taskID (PrStart progress message) (x, s) = (report_start progress message x, s)"
| "execution_step r taskID PrCall (x, s) = report_call r taskID x s"
| "execution_step r taskID PrWrite (x, s) = (report_write x, s)"

definition execution_steps ::
  "('s, 'e) Runtime \<Rightarrow> string \<Rightarrow> goroutine_step list \<Rightarrow> execution \<times> 's \<Rightarrow> execution \<times> 's" where
  "execution_steps r taskID steps xs = fold (execution_step r taskID) steps xs"

section \<open>The end of an execution\<close>

text \<open>\<open>fail\<close> and \<open>release\<close>; the result is the error they return.\<close>

definition fail_task ::
  "(nat \<Rightarrow> bool) \<Rightarrow> ('s, 'e) Runtime \<Rightarrow> bool \<Rightarrow> client_task \<Rightarrow> leaseState \<Rightarrow> error \<Rightarrow> 's \<Rightarrow> error option \<times> 's" where
  "fail_task isPrint r ctxDone task state failure s =
     (if ctxDone then (None, s)
      else
        let classified = classify (Some failure) in
        (case Fail_wa (client_rt r)
            \<lparr>TaskID_xf = ID_ct task, WorkerID_xf = workerID_rt r, LeaseToken_xf = token_ls state,
             Version_xf = version_ls state, ErrorCode_xf = Code_fl classified, ErrorMessage_xf = Message_fl classified,
             Retryable_xf = Retryable_fl classified, RetryAfter_xf = RetryAfter_fl classified\<rparr> s of
           (Inl e, s1) \<Rightarrow> (Some (Wrap (''fail task '' @ Quote isPrint (ID_ct task) @ '': '') e []), s1)
         | (Inr _, s1) \<Rightarrow> (None, s1)))"

definition release_task ::
  "(nat \<Rightarrow> bool) \<Rightarrow> ('s, 'e) Runtime \<Rightarrow> client_task \<Rightarrow> leaseState \<Rightarrow> 's \<Rightarrow> error option \<times> 's" where
  "release_task isPrint r task state s =
     (case Release_wa (client_rt r)
         \<lparr>TaskID_xe = ID_ct task, WorkerID_xe = workerID_rt r, LeaseToken_xe = token_ls state,
          Version_xe = version_ls state\<rparr> s of
        (Inl e, s1) \<Rightarrow> (Some (Wrap (''release task '' @ Quote isPrint (ID_ct task) @ '': '') e []), s1)
      | (Inr _, s1) \<Rightarrow> (None, s1))"

definition complete_task ::
  "(nat \<Rightarrow> bool) \<Rightarrow> ('s, 'e) Runtime \<Rightarrow> client_task \<Rightarrow> leaseState \<Rightarrow> WorkerResult \<Rightarrow> 's \<Rightarrow> error option \<times> 's" where
  "complete_task isPrint r task state result s =
     (case Complete_wa (client_rt r)
         \<lparr>TaskID_xd = ID_ct task, WorkerID_xd = workerID_rt r, LeaseToken_xd = token_ls state,
          Version_xd = version_ls state, Output_xd = Output_wr result, ResultRef_xd = ResultRef_wr result\<rparr> s of
        (Inl e, s1) \<Rightarrow> (Some (Wrap (''complete task '' @ Quote isPrint (ID_ct task) @ '': '') e []), s1)
      | (Inr _, s1) \<Rightarrow> (None, s1))"

text \<open>
  Which case of the \<open>select\<close> is taken, with what the code then reads of the contexts: whether
  the parent is done, whether the execution ran out of time.
\<close>

datatype wakeup =
    ExecutionDone "error + WorkerResult" bool
  | ParentDone
  | ExecutionCtxDone bool bool

text \<open>
  A run: the steps of the goroutines before the \<open>select\<close> wakes up, the steps between that and
  the copy of the lease state for the last call, and whether \<open>fail\<close> finds the parent done.
\<close>

record execution_run =
  before_er :: "goroutine_step list"
  wakeup_er :: wakeup
  after_er :: "goroutine_step list"
  failDone_er :: bool

definition timeout_failure :: "('s, 'e) Runtime \<Rightarrow> error" where
  "timeout_failure r = Retryable_failure ''execution_timeout''
     (''executor exceeded '' @ Duration_String (executionTimeout_rt r) @ '' execution timeout'')
     (Some ContextDeadlineExceeded)"

definition heartbeat_failure :: "error \<Rightarrow> error" where
  "heartbeat_failure e = Retryable_failure ''heartbeat_failed'' ''task heartbeat failed'' (Some e)"

text \<open>An error of \<open>release\<close> is logged, not returned.\<close>

definition execute ::
  "(nat \<Rightarrow> bool) \<Rightarrow> ('s, 'e) Runtime \<Rightarrow> client_task \<Rightarrow> execution_run \<Rightarrow> 's \<Rightarrow> error option \<times> 's" where
  "execute isPrint r task run s =
     (if executors_rt r (Workflow_ct task) = None then
        fail_task isPrint r (failDone_er run) task \<lparr>token_ls = LeaseToken_ct task, version_ls = Version_ct task\<rparr>
          (Permanent ''executor_not_found'' ''no executor registered'' None) s
      else
        (case execution_steps r (ID_ct task) (before_er run) (start_execution task, s) of (x1, s1) \<Rightarrow>
         let finish = (\<lambda>canceled f.
               case execution_steps r (ID_ct task) (after_er run) (if canceled then x1\<lparr>canceled_x := True\<rparr> else x1, s1) of
                 (x2, s2) \<Rightarrow> f (lease_x x2) s2);
             released = finish True (\<lambda>state s2. (None, snd (release_task isPrint r task state s2)));
             failed = (\<lambda>failure. finish True (\<lambda>state. fail_task isPrint r (failDone_er run) task state failure))
         in case wakeup_er run of
              ExecutionDone outcome parentDone \<Rightarrow>
                if parentDone then released
                else (case heartbeatErr_x x1 of
                    Some e \<Rightarrow> failed (heartbeat_failure e)
                  | None \<Rightarrow>
                      (case outcome of
                         Inl e \<Rightarrow> failed (failure_error (classify (Some e)))
                       | Inr result \<Rightarrow> finish True (\<lambda>state. complete_task isPrint r task state result)))
            | ParentDone \<Rightarrow> released
            | ExecutionCtxDone parentDone deadline \<Rightarrow>
                if parentDone then released
                else (case heartbeatErr_x x1 of
                    Some e \<Rightarrow> failed (heartbeat_failure e)
                  | None \<Rightarrow> if deadline then failed (timeout_failure r) else (None, s1))))"

section \<open>The loop\<close>

text \<open>
  One round: whether the context is done at its start, while the runtime waits, and after an
  execution; and the run of the execution, if there is one.
\<close>

record worker_round =
  startDone_rd :: bool
  waitDone_rd :: bool
  execution_rd :: execution_run
  endDone_rd :: bool

text \<open>
  \<open>Run\<close> after the given rounds: the value it returned, if it has, the time it waited in each
  round that claimed nothing, and the state.
\<close>

fun Run_runtime ::
  "(nat \<Rightarrow> bool) \<Rightarrow> ('s, 'e) Runtime \<Rightarrow> worker_round list \<Rightarrow> int \<Rightarrow> 's \<Rightarrow>
     error option option \<times> duration list \<times> 's" where
  "Run_runtime isPrint r [] claimFailures s = (None, [], s)"
| "Run_runtime isPrint r (rd # rounds) claimFailures s =
     (if startDone_rd rd then (Some None, [], s)
      else (case Claim_wa (client_rt r)
          \<lparr>WorkerID_xc = workerID_rt r, Workflow_xc = workflow_rt r, LeaseDuration_xc = leaseDuration_rt r\<rparr> s of
          (Inl e, s1) \<Rightarrow>
            if errors_Is e ClientErrNoTaskAvailable then
              (if waitDone_rd rd then (Some None, [pollInterval_rt r], s1)
               else (case Run_runtime isPrint r rounds 0 s1 of (v, ws, s2) \<Rightarrow> (v, pollInterval_rt r # ws, s2)))
            else if isRetryableClaimError e then
              (let failures = claimFailures + 1;
                   delay = claimRetryDelay (pollInterval_rt r) (claimRetryMaxInterval_rt r) failures in
               if waitDone_rd rd then (Some None, [delay], s1)
               else (case Run_runtime isPrint r rounds failures s1 of (v, ws, s2) \<Rightarrow> (v, delay # ws, s2)))
            else (Some (Some (Wrap ''claim task: '' e [])), [], s1)
        | (Inr task, s1) \<Rightarrow>
            (case validateClaimedTask isPrint r task of
               Some e \<Rightarrow> (Some (Some e), [], s1)
             | None \<Rightarrow>
                 (case execute isPrint r task (execution_rd rd) s1 of
                    (e, s2) \<Rightarrow>
                      if e \<noteq> None \<and> endDone_rd rd then (Some None, [], s2)
                      else Run_runtime isPrint r rounds 0 s2))))"

end
