(* ===== verification/WorkerLibraryFacts.thy ===== *)
theory WorkerLibraryFacts
  imports WorkerLibrary
begin

text \<open>
  The worker library over any client: its configuration, its backoff while the server cannot
  be reached, the classification of failures, and when its loop ends.
\<close>

section \<open>Configuration\<close>

lemma New_runtime_bounds:
  assumes "New_runtime cf = Inr r"
  shows "0 < leaseDuration_rt r" "0 < pollInterval_rt r" "pollInterval_rt r \<le> claimRetryMaxInterval_rt r"
    "0 \<le> heartbeatInterval_rt r" "heartbeatInterval_rt r < leaseDuration_rt r"
    "3 \<le> leaseDuration_rt r \<Longrightarrow> 0 < heartbeatInterval_rt r" "0 \<le> executionTimeout_rt r" "0 < shutdownTimeout_rt r"
    "workflow_rt r \<noteq> []" "executors_rt r = Map.empty"
proof -
  define lease where "lease = (if LeaseDuration_cf cf \<le> 0 then 30 * Second else LeaseDuration_cf cf)"
  define poll where "poll = (if PollInterval_cf cf \<le> 0 then Second else PollInterval_cf cf)"
  define retryMax where
    "retryMax = (if ClaimRetryMaxInterval_cf cf \<le> 0 then 5 * Second else ClaimRetryMaxInterval_cf cf)"
  define retryMax1 where "retryMax1 = (if retryMax < poll then poll else retryMax)"
  define beat where "beat = (if HeartbeatInterval_cf cf \<le> 0 \<or> HeartbeatInterval_cf cf \<ge> lease then go_div lease 3
     else HeartbeatInterval_cf cf)"
  define shutdown where "shutdown = (if ShutdownTimeout_cf cf \<le> 0 then 5 * Second else ShutdownTimeout_cf cf)"
  note fold = lease_def [symmetric] poll_def [symmetric] retryMax_def [symmetric] retryMax1_def [symmetric]
    beat_def [symmetric] shutdown_def [symmetric]
  have r: "leaseDuration_rt r = lease" "pollInterval_rt r = poll" "claimRetryMaxInterval_rt r = retryMax1"
    "heartbeatInterval_rt r = beat" "executionTimeout_rt r = ExecutionTimeout_cf cf" "shutdownTimeout_rt r = shutdown"
    "workflow_rt r = TrimSpace (Workflow_cf cf)" "executors_rt r = Map.empty"
    "TrimSpace (Workflow_cf cf) \<noteq> []" "0 \<le> ExecutionTimeout_cf cf"
    using assms unfolding New_runtime_def Let_def fold by (auto split: option.splits if_splits)
  have pos: "0 < lease" "0 < poll" "0 < shutdown" "poll \<le> retryMax1"
    by (simp_all add: lease_def poll_def shutdown_def retryMax1_def Second_def)
  have beat: "0 \<le> beat" "beat < lease" "3 \<le> lease \<Longrightarrow> 0 < beat"
    using pos(1) by (auto simp: beat_def go_div_pos)
  show "0 < leaseDuration_rt r" "0 < pollInterval_rt r" "pollInterval_rt r \<le> claimRetryMaxInterval_rt r"
    "0 \<le> heartbeatInterval_rt r" "heartbeatInterval_rt r < leaseDuration_rt r"
    "3 \<le> leaseDuration_rt r \<Longrightarrow> 0 < heartbeatInterval_rt r" "0 \<le> executionTimeout_rt r" "0 < shutdownTimeout_rt r"
    "workflow_rt r \<noteq> []" "executors_rt r = Map.empty"
    using r pos beat by simp_all
qed

text \<open>A lease of one or two nanoseconds leaves no time between heartbeats: the ticker panics.\<close>

lemma New_runtime_zero_heartbeat:
  "New_runtime \<lparr>Client_cf = Some c, WorkerID_cf = ''w'', Workflow_cf = ''demo'', LeaseDuration_cf = 2, PollInterval_cf = 0,
     ClaimRetryMaxInterval_cf = 0, HeartbeatInterval_cf = 0, ExecutionTimeout_cf = 0, ShutdownTimeout_cf = 0\<rparr> = Inr r \<Longrightarrow>
   heartbeatInterval_rt r = 0"
  by (auto simp: New_runtime_def Let_def go_div_pos split: if_splits)

section \<open>Backoff\<close>

lemma claim_delay_loop_cap: "claim_delay_loop a n mx d = cap_loop a n mx d"
proof (induction a n mx d rule: claim_delay_loop.induct)
  case (1 a n mx d)
  then show ?case by (subst claim_delay_loop.simps, subst cap_loop.simps) simp
qed

lemma claimRetryDelay_spec:
  assumes "0 < base" "base \<le> mx" "in_i64 mx" "1 \<le> n"
  shows "claimRetryDelay base mx n = min mx (base * 2 ^ nat (n - 1))"
  using assms cap_loop_spec [of base mx 1 n]
  by (cases "n = 1") (auto simp: claimRetryDelay_def claim_delay_loop_cap)

section \<open>Failures\<close>

lemma classify_code: "Code_fl (classify e) \<noteq> []"
  by (auto simp: classify_def split: option.splits)

lemma classify_unknown: "As_Failure e = None \<Longrightarrow> \<not> Retryable_fl (classify (Some e))"
  by (simp add: classify_def)

lemma classify_failure: "Code_fl f \<noteq> [] \<Longrightarrow> Message_fl f \<noteq> [] \<Longrightarrow> classify (Some (failure_error f)) = f"
  by (simp add: classify_def failure_error_def)

lemma classify_again:
  "Message_fl (classify (Some e)) \<noteq> [] \<Longrightarrow> classify (Some (failure_error (classify (Some e)))) = classify (Some e)"
  using classify_code [of "Some e"] classify_failure by blast

section \<open>The loop\<close>

text \<open>
  In the states of \<open>P\<close> a claim fails in a way that the loop survives, and leaves a state of \<open>P\<close>.
\<close>

definition claim_unavailable :: "('s, 'e) Runtime \<Rightarrow> ('s \<Rightarrow> bool) \<Rightarrow> bool" where
  "claim_unavailable r P \<longleftrightarrow> (\<forall>s. P s \<longrightarrow> (\<exists>e s1. Claim_wa (client_rt r)
      \<lparr>WorkerID_xc = workerID_rt r, Workflow_xc = workflow_rt r, LeaseDuration_xc = leaseDuration_rt r\<rparr> s = (Inl e, s1) \<and>
      P s1 \<and> \<not> errors_Is e ClientErrNoTaskAvailable \<and> isRetryableClaimError e))"

text \<open>
  While the server cannot be reached the loop goes on, and waits twice as long each time, up to
  its maximum.
\<close>

lemma Run_runtime_outage:
  assumes "claim_unavailable r P" "0 < pollInterval_rt r" "pollInterval_rt r \<le> claimRetryMaxInterval_rt r"
    "in_i64 (claimRetryMaxInterval_rt r)" "list_all (\<lambda>rd. \<not> startDone_rd rd \<and> \<not> waitDone_rd rd) rounds" "P s"
  shows "\<exists>s1. P s1 \<and> Run_runtime isPrint r rounds (int k) s =
    (None, map (\<lambda>i. min (claimRetryMaxInterval_rt r) (pollInterval_rt r * 2 ^ i)) [k..<k + length rounds], s1)"
  using assms(5,6)
proof (induction rounds arbitrary: k s)
  case (Cons rd rounds)
  from assms(1) Cons.prems(2) obtain e s0 where e: "Claim_wa (client_rt r)
      \<lparr>WorkerID_xc = workerID_rt r, Workflow_xc = workflow_rt r, LeaseDuration_xc = leaseDuration_rt r\<rparr> s = (Inl e, s0)"
    "P s0" "\<not> errors_Is e ClientErrNoTaskAvailable" "isRetryableClaimError e" unfolding claim_unavailable_def by blast
  have d: "claimRetryDelay (pollInterval_rt r) (claimRetryMaxInterval_rt r) (int k + 1) =
      min (claimRetryMaxInterval_rt r) (pollInterval_rt r * 2 ^ k)"
    using claimRetryDelay_spec [OF assms(2-4), of "int k + 1"] by simp
  from Cons.IH [OF _ e(2), of "Suc k"] Cons.prems(1) obtain s1 where s1: "P s1" "Run_runtime isPrint r rounds (int k + 1) s0 =
      (None, map (\<lambda>i. min (claimRetryMaxInterval_rt r) (pollInterval_rt r * 2 ^ i)) [Suc k..<Suc k + length rounds], s1)"
    by (auto simp: add.commute simp del: upt_Suc)
  show ?case
    using Cons.prems(1) e d s1 by (intro exI [of _ s1]) (simp add: upt_conv_Cons del: upt_Suc)
qed simp

text \<open>The loop ends with an error only for a claim that cannot succeed later, or a malformed answer.\<close>

lemma Run_runtime_error:
  assumes "Run_runtime isPrint r rounds n s = (Some (Some e), ws, s')"
  shows "(\<exists>c. e = Wrap ''claim task: '' c [] \<and> \<not> isRetryableClaimError c) \<or>
    (\<exists>task. validateClaimedTask isPrint r task = Some e)"
  using assms
proof (induction rounds arbitrary: n s ws)
  case (Cons rd rounds)
  then show ?case
    by (auto simp: Let_def split: if_splits prod.splits sum.splits option.splits)
qed simp

end
