(* ===== verification/WorkerLimits.thy ===== *)
theory WorkerLimits
  imports Samples
begin

text \<open>
  Two limits of the worker protocol, both on the memory stores.  A retryable failure that
  was accepted cannot be reported again: the scheduler stores the error code alone, the
  replay compares it with code and message.  And a renewal of the lease does not change the
  version, so an update that was computed before it writes the old lease back.
\<close>

section \<open>Repeating a retryable failure\<close>

lemma Schedule_holder:
  assumes h: "holds_lease s t pnow eid"
    and run: "Schedule (memory_stores rng1 rng2 rng3) jit eid (Some t) (Some ee) policy now s = (Inr u, t1, s1)"
  shows "\<exists>t2. t1 = Some t2 \<and> idle s1 \<and> ID t2 = ID t \<and> Workflow t2 = Workflow t \<and> Status t2 = TaskStatusRetrying \<and>
    ErrorMessage t2 = Code_ee ee \<and>
    stored_task (stores_rt s1) (ID t) = Some (t2\<lparr>Version := Version t + 1\<rparr>)"
proof -
  have i: "idle s" using h by (simp add: holds_lease_def)
  from run i obtain d t0 ev where d: "ScheduleRetry (Some t) now (Add_time now d) = Inr t0"
    "NewTaskRetryingEvent eid (Some (t0\<lparr>ErrorMessage := Code_ee ee\<rparr>)) (Code_ee ee) d now = Inr ev"
    "t1 = Some (t0\<lparr>ErrorMessage := Code_ee ee\<rparr>)"
    "UpdateTaskWithEvent_rs (memory_stores rng1 rng2 rng3) t1 (Some ev) s = (Inr u, s1)"
    by (auto simp: Schedule_def Let_def memory_idle(8) split: sum.splits option.splits if_splits prod.splits)
  let ?t = "t0\<lparr>ErrorMessage := Code_ee ee\<rparr>"
  note r = ScheduleRetry_Inr [OF d(1)] and e = NewTaskRetryingEvent_Inr [OF d(2)]
  have "UpdateTaskWithEvent_rs (memory_stores rng1 rng2 rng3) (Some ?t) (Some ev) s =
    (Inr (), s\<lparr>stores_rt := commit (ID t) (?t\<lparr>Version := Version t + 1\<rparr>) ev (stores_rt s)\<rparr>)"
    by (rule Update_holder [OF h]) (use r e in simp_all)
  with d(3,4) r i show ?thesis by auto
qed

text \<open>
  A repeated \<open>FailTask\<close> whose first call scheduled a retry finds the task one version on, in
  status retrying, with the code as its error message.
\<close>

lemma FailTask_replay_conflict:
  assumes "idle s" "stored_task (stores_rt s) (ID t) = Some u" "token_ok t" "Version u = Version t + 1"
    "Status u = TaskStatusRetrying" "ErrorMessage u = ErrorCode_fi input"
    and input: "TaskID_fi input = ID t" "WorkerID_fi input = LeaseOwner t" "LeaseToken_fi input = makeLeaseToken t"
  shows "FailTask (memory_stores rng1 rng2 rng3) sched pnow now eid input s = (Inl ErrTaskConflict, s)"
  using replay_consumed [OF assms(1-4), of "[TaskStatusRetrying, TaskStatusFailed]"] assms(5,6) input
  by (simp add: FailTask_def bind_def raise_def failure_message_def)

text \<open>
  The first call, by the holder of the lease, with the scheduler for external workers.
\<close>

lemma FailTask_retry_holder:
  assumes h: "holds_lease s t pnow eid"
    and input: "TaskID_fi input = ID t" "WorkerID_fi input = LeaseOwner t" "LeaseToken_fi input = makeLeaseToken t"
      "Retryable_fi input" "TrimSpace (ErrorCode_fi input) \<noteq> []" "TrimSpace (ErrorMessage_fi input) \<noteq> []"
      "0 \<le> RetryAfter_fi input"
    and sched: "externalSchedule (memory_stores rng1 rng2 rng3) jit eid snow t (ErrorCode_fi input)
      (ErrorMessage_fi input) (RetryAfter_fi input) s = (Inr x, t1, s1)"
  shows "\<exists>u s'. FailTask (memory_stores rng1 rng2 rng3)
      (Some (externalSchedule (memory_stores rng1 rng2 rng3) jit eid snow)) pnow now eid' input s = (Inr u, s') \<and>
    idle s' \<and> stored_task (stores_rt s') (ID t) = Some u \<and> Version u = Version t + 1 \<and>
    Status u = TaskStatusRetrying \<and> ErrorMessage u = ErrorCode_fi input"
proof -
  define ee where "ee = \<lparr>Kind_ee = ErrorTransient, Code_ee = ErrorCode_fi input,
    RetryAfter_ee = RetryAfter_fi input, Err_ee = Some (ErrNew (ErrorMessage_fi input))\<rparr>"
  have code: "Code_ee ee = ErrorCode_fi input" by (simp add: ee_def)
  from sched obtain t' where ee: "t1 = the t'"
    "Schedule (memory_stores rng1 rng2 rng3) jit eid (Some t) (Some ee) (external_policy t) snow s = (Inr x, t', s1)"
    unfolding ee_def by (auto simp: externalSchedule_def NewExecutionError_def Let_def split: sum.splits option.splits prod.splits)
  from Schedule_holder [OF h ee(2)] ee(1) code have t1: "idle s1" "ID t1 = ID t"
    "Status t1 = TaskStatusRetrying" "ErrorMessage t1 = ErrorCode_fi input"
    "stored_task (stores_rt s1) (ID t) = Some (t1\<lparr>Version := Version t + 1\<rparr>)" by auto
  let ?c = "RecordTaskRetried (Workflow t1) (ErrorCode_fi input)"
  let ?s = "s1\<lparr>metrics_rt := metrics_rt s1 @ [?c]\<rparr>"
  have "FailTask (memory_stores rng1 rng2 rng3)
      (Some (externalSchedule (memory_stores rng1 rng2 rng3) jit eid snow)) pnow now eid' input s =
    (Inr (t1\<lparr>Version := Version t + 1\<rparr>), ?s)"
    using sched input t1
    by (simp add: FailTask_body bind_def [of "replayWorkerOperation _ _ _ _ _"]
        bind_def [of "resolveLeaseVersion _ _ _ _ _"] bind_def [of "prepareRunningTask _ _ _ _ _"]
        holder_simps [OF h] fail_body_def effect_def memory_idle Get_stored)
  then show ?thesis using t1 by auto
qed

text \<open>On the sample store the scheduler accepts the retry.\<close>

lemma sample_schedule:
  "\<exists>t1 s0. externalSchedule sample_memory (\<lambda>_. 0) ''event_3'' 55 leased_task ''boom'' ''it broke'' 0 leased_runtime =
     (Inr (), t1, s0)"
proof -
  have h: "holds_lease leased_runtime leased_task 50 ''event_3''" by (rule leased_holder) simp
  have trim: "TrimSpace ''boom'' = ''boom''" by (rule TrimSpace_visible) (simp_all add: visible_def)
  have ee: "Validate_ee (Some \<lparr>Kind_ee = ErrorTransient, Code_ee = ''boom'', RetryAfter_ee = 0,
      Err_ee = Some (ErrNew ''it broke'')\<rparr>) = None"
    by (simp add: Validate_ee_def ErrorTransient_def ErrorPermanent_def trim)
  let ?p = "\<lparr>MaxRetries_rp = 1, BaseDelay_rp = Second, MaxDelay_rp = 30 * Second\<rparr>"
  have pol: "external_policy leased_task = ?p"
    by (simp add: external_policy_def external_policies_def leased_task_def sample_task_def)
  have del: "Delay (\<lambda>_. 0) ?p 1 0 = Inr 500000000"
    by (simp add: Delay_def Validate_rp_def Second_def Millisecond_def cap_loop.simps go_div_def i64_def)
  let ?t = "leased_task\<lparr>Status := TaskStatusRetrying, UpdatedAt := 55, LeaseOwner := [], LeaseExpiresAt := None,
      RetryCount := 1, AvailableAt := 500000055, ErrorMessage := ''boom''\<rparr>"
  have "\<exists>ev. NewTaskRetryingEvent ''event_3'' (Some ?t) ''boom'' 500000000 55 = Inr ev"
    by (simp add: NewTaskRetryingEvent_def NewTaskEvent_def time_member_def MarshalTime_def year_of_def
        year_yday_def Let_def ns_per_day_def leased_task_def sample_task_def)
  then obtain ev where ev: "NewTaskRetryingEvent ''event_3'' (Some ?t) ''boom'' 500000000 55 = Inr ev" ..
  have upd: "\<exists>s0. UpdateTaskWithEvent_rs sample_memory (Some ?t) (Some ev) leased_runtime = (Inr (), s0)"
    using Update_holder [OF h, of ?t ev] NewTaskRetryingEvent_Inr [OF ev] by simp
  have r: "ScheduleRetry (Some leased_task) 55 (Add_time 55 500000000) =
      Inr (leased_task\<lparr>Status := TaskStatusRetrying, UpdatedAt := 55, LeaseOwner := [], LeaseExpiresAt := None,
        RetryCount := 1, AvailableAt := 500000055\<rparr>)"
    by (simp add: ScheduleRetry_def MoveTo_def enter_status_def Add_time_def leased_task_def sample_task_def i64_def)
  show ?thesis
    using ee pol del ev upd r
    by (auto simp: externalSchedule_def NewExecutionError_def Schedule_def memory_idle(8) Retryable_def IsZero_def
        Validate_rp_def Second_def leased_task_def sample_task_def i64_def split: prod.splits)
qed

section \<open>A renewal that is overwritten\<close>

text \<open>What another request of the same worker does when it sends a heartbeat.\<close>

definition heartbeat_by :: "Task \<Rightarrow> time \<Rightarrow> duration \<Rightarrow> MemoryStores \<Rightarrow> MemoryStores" where
  "heartbeat_by t now d m =
     m\<lparr>taskStore := snd (RenewLease None \<lparr>TaskID_rl = ID t, WorkerID_rl = LeaseOwner t, Now_rl = now,
         LeaseDuration_rl = d\<rparr> (taskStore m))\<rparr>"

lemma heartbeat_by_stored:
  assumes "stored_task m (ID t) = Some t" "Status t = TaskStatusRunning" "LeaseOwner t \<noteq> []" "ID t \<noteq> []"
    "LeaseExpiresAt t = Some l" "now < l" "0 < d" "now \<noteq> 0"
  shows "stored_task (heartbeat_by t now d m) (ID t) = Some (renewed now d t)"
    and "eventStore (heartbeat_by t now d m) = eventStore m"
  using assms
  by (auto simp: heartbeat_by_def RenewLease_def Validate_renew_def lease_held_def renewed_def IsZero_def)

lemma on_stores_next:
  "schedule_rt s = (ctx, f) # rest \<Longrightarrow>
     on_stores g s = (fst (g ctx (f (stores_rt s))),
       s\<lparr>stores_rt := snd (g ctx (f (stores_rt s))), schedule_rt := rest\<rparr>)"
  by (simp add: on_stores_def arrive_def split: prod.splits)

lemma Get_next:
  "schedule_rt s = (None, \<lambda>m. m) # rest \<Longrightarrow>
     Get_rs (memory_stores rng1 rng2 rng3) tid s = (Get None tid (taskStore (stores_rt s)), s\<lparr>schedule_rt := rest\<rparr>)"
  by (simp add: memory_stores_def on_stores_next)

text \<open>
  The heartbeat arrives after \<open>ReportProgress\<close> has read the task and before it writes it.
\<close>

lemma ReportProgress_overwrites:
  assumes h: "holds_lease s0 t pnow eid"
    and input: "TaskID_pi input = ID t" "WorkerID_pi input = LeaseOwner t" "LeaseToken_pi input = makeLeaseToken t"
      "0 \<le> Progress_pi input" "Progress_pi input < 100"
    and hb: "LeaseExpiresAt t = Some l" "hnow < l" "0 < d" "hnow \<noteq> 0"
    and s: "s = s0\<lparr>schedule_rt := [(None, \<lambda>m. m), (None, \<lambda>m. m), (None, heartbeat_by t hnow d)]\<rparr>"
  shows "\<exists>r s'. ReportProgress (memory_stores rng1 rng2 rng3) pnow now eid input s = (Inr r, s') \<and>
    LeaseExpiresAt r = Some l \<and> (\<exists>u. stored_task (stores_rt s') (ID t) = Some u \<and> LeaseExpiresAt u = Some l)"
proof -
  let ?S = "memory_stores rng1 rng2 rng3" and ?hb = "heartbeat_by t hnow d"
  let ?t = "t\<lparr>Progress := Progress_pi input, UpdatedAt := now\<rparr>"
  have t: "Status t = TaskStatusRunning" "ID t \<noteq> []" "LeaseOwner t \<noteq> []" "token_ok t" "eid \<noteq> []"
    "stored_task (stores_rt s0) (ID t) = Some t" "TrimSpace (LeaseOwner t) \<noteq> []" "pnow < l"
    "\<not> event_known (stores_rt s0) eid"
    using h hb(1) by (auto simp: holds_lease_def token_ok_def)
  let ?s1 = "s\<lparr>schedule_rt := [(None, \<lambda>m. m), (None, ?hb)]\<rparr>" and ?s2 = "s\<lparr>schedule_rt := [(None, ?hb)]\<rparr>"
  have r1: "resolveLeaseVersion ?S (ID t) (LeaseOwner t) v (makeLeaseToken t) s = (Inr (Version t), ?s1)" for v
    using t s by (simp add: resolveLeaseVersion_def validateLeaseToken_def token_claims_makeLeaseToken bind_def
        Get_next Get_stored ret_def)
  have r2: "prepareRunningTask ?S pnow (ID t) (LeaseOwner t) (Version t) ?s1 = (Inr t, ?s2)"
    using t s hb(1) by (simp add: prepareRunningTask_def bind_def Get_next Get_stored ret_def)
  let ?pl = "json_print (JObject [(''message'', JString (progress_message input)),
              (''progress'', JInt (Progress_pi input)), (''worker_id'', JString (LeaseOwner t))])"
  have pl: "?pl \<noteq> []" by simp
  obtain ev where ev: "NewTaskEvent eid (ID t) EventTaskProgress (progress_message input) ?pl (Progress_pi input) now = Inr ev"
    using t(2,5) input(4,5) by (simp add: NewTaskEvent_def)
  note ev' = NewTaskEvent_Inr [OF ev]
  note st = heartbeat_by_stored [OF t(6,1,3,2) hb]
  have upd: "UpdateTaskWithEvent None (Some ?t) (Some ev) (?hb (stores_rt s0)) =
      (None, commit (ID t) (?t\<lparr>Version := Version t + 1\<rparr>) ev (?hb (stores_rt s0)))"
    using st ev' t(9) by (simp add: UpdateTaskWithEvent_def renewed_def)
  let ?m = "commit (ID t) (?t\<lparr>Version := Version t + 1\<rparr>) ev (?hb (stores_rt s0))"
  let ?s3 = "s\<lparr>stores_rt := ?m, schedule_rt := []\<rparr>"
  have r3: "UpdateTaskWithEvent_rs ?S (Some ?t) (Some ev) ?s2 = (Inr (), ?s3)"
    using s upd by (simp add: memory_stores_def on_stores_next)
  have r4: "Get_rs ?S (ID t) ?s3 = (Inr (?t\<lparr>Version := Version t + 1\<rparr>), ?s3)"
    by (simp add: memory_idle idle_def Get_stored)
  have "ReportProgress ?S pnow now eid input s = (Inr (withLeaseToken (?t\<lparr>Version := Version t + 1\<rparr>)), ?s3)"
    using input ev r1 r2 r3 r4
    by (simp add: ReportProgress_def Let_def bind_def [of "resolveLeaseVersion _ _ _ _ _"]
        bind_def [of "prepareRunningTask _ _ _ _ _"] bind_def [of "UpdateTaskWithEvent_rs _ _ _"]
        bind_def [of "Get_rs _ _"] ret_def)
  then show ?thesis using hb(1) by (simp add: withLeaseToken_def)
qed

end
