(* ===== verification/RemoteRuns.thy ===== *)
theory RemoteRuns
  imports ServerWire WorkerLibraryFacts WorkerLimits
begin

text \<open>
  A worker built on the libraries, from end to end: the runtime of \<open>taskpulseworker\<close>, the
  client of \<open>taskpulse\<close>, requests and responses as text, the handlers, the service and the
  memory stores.
\<close>

section \<open>Sizes\<close>

text \<open>Ids and messages of at most 1000 bytes fit into a request body.\<close>

lemma json_quote_length: "length (json_quote s) \<le> 6 * length s + 2"
  using quote_body_length [of s] by (simp add: json_quote_def)

lemma show_nat_64: "n < 2 ^ 64 \<Longrightarrow> length (show_nat n) \<le> 20"
  by (rule show_nat_length) simp_all

lemma show_uint_length: "length (show_int (uint (v :: uint64))) \<le> 20"
  using show_nat_64 [of "unat v"] unsigned_less [of v, where 'a = nat] by (simp add: show_int_def nat_uint_eq)

lemma i64_nat: "in_i64 i \<Longrightarrow> nat i < 2 ^ 64 \<and> nat (- i) < 2 ^ 64"
  by (cases "0 \<le> i") (auto simp: in_i64_def nat_less_iff)

lemma show_int_length: "in_i64 i \<Longrightarrow> length (show_int i) \<le> 21"
proof -
  assume "in_i64 i"
  then have "nat i < 2 ^ 64" "nat (- i) < 2 ^ 64" using i64_nat by blast+
  from show_nat_64 [OF this(1)] show_nat_64 [OF this(2)] show ?thesis by (simp add: show_int_def)
qed

lemma makeLeaseToken_length:
  assumes "length (ID t) \<le> 1000" "length (LeaseOwner t) \<le> 1000"
  shows "length (makeLeaseToken t) \<le> 30000"
proof -
  have "length (json_print (token_json t)) \<le> 15000"
    using assms json_quote_length [of "''task_id''"] json_quote_length [of "''worker_id''"] json_quote_length [of "''version''"]
      json_quote_length [of "ID t"] json_quote_length [of "LeaseOwner t"] show_uint_length [of "Version t"]
    by (simp add: token_json_def)
  then show ?thesis
    using EncodeToString_length [of "json_print (token_json t)"] by (simp add: makeLeaseToken_def)
qed

lemma fmtFrac_length: "p \<le> 9 \<Longrightarrow> length (fmtFrac v p) \<le> 21"
proof -
  assume p: "p \<le> 9"
  have "v mod 10 ^ p < 10 ^ p" by simp
  also have "(10 :: nat) ^ p \<le> 10 ^ 9" using p by (intro power_increasing) simp_all
  finally have n: "v mod 10 ^ p < 2 ^ 64" by simp
  have "length (trim_zeros s) \<le> length s" for s
    using length_dropWhile_le [of "\<lambda>c. c = CHR ''0''" "rev s"] by (simp add: trim_zeros_def)
  from this [of "pad_int p (int (v mod 10 ^ p))"] show_nat_64 [OF n] p
  have "length (trim_zeros (pad_int p (int (v mod 10 ^ p)))) \<le> 20" by (simp add: pad_int_def Let_def)
  then show ?thesis by (simp add: fmtFrac_def Let_def)
qed

lemma fmt_units_length:
  assumes "u < 2 ^ 64"
  shows "length (fmt_units u) \<le> 100"
proof -
  have n: "length (show_nat (u div k)) \<le> 20" "length (show_nat (u div k mod m)) \<le> 20" for k m
    using assms by (intro show_nat_64; meson div_le_dividend mod_less_eq_dividend le_less_trans)+
  have n2: "length (show_nat (u div k div m)) \<le> 20" "length (show_nat (u div k div m mod l)) \<le> 20" for k m l
    using n by (metis div_mult2_eq)+
  have f: "length (fmtFrac u 3) \<le> 21" "length (fmtFrac u 6) \<le> 21" "length (fmtFrac u 9) \<le> 21"
    by (simp_all add: fmtFrac_length)
  show ?thesis
    using f n(1) [of 1000] n(1) [of 1000000] n(2) [of 1000000000 60] n2(1) [of "1000000000 * 60" 60]
      n2(2) [of 1000000000 60 60] n2(1) [of 1000000000 60] show_nat_64 [OF assms]
    by (simp add: fmt_units_def Let_def div_mult2_eq [symmetric])
qed

lemma Duration_String_length: "in_i64 d \<Longrightarrow> length (Duration_String d) \<le> 101"
proof -
  assume "in_i64 d"
  then have "nat d < 2 ^ 64" "nat (- d) < 2 ^ 64" using i64_nat by blast+
  from fmt_units_length [OF this(1)] fmt_units_length [OF this(2)] show ?thesis by (simp add: Duration_String_def)
qed

lemma complete_wire_fits:
  assumes "length (ID t) \<le> 1000" "length (LeaseOwner t) \<le> 1000" "raw_ok output" "raw_ok ref"
    "length output + length ref \<le> 500000"
  shows "\<exists>b. complete_wire \<lparr>TaskID_xd = ID t, WorkerID_xd = LeaseOwner t, LeaseToken_xd = makeLeaseToken t,
      Version_xd = Version t, Output_xd = output, ResultRef_xd = ref\<rparr> = Some b \<and> length b \<le> maxRequestBodyBytes"
proof -
  have raw: "marshal_raw x = Some x" if "raw_ok x" "x \<noteq> []" for x
    using that marshal_raw_print unfolding raw_ok_def by (meson less_imp_le)
  show ?thesis
    using makeLeaseToken_length [OF assms(1,2)] assms(2,5) show_uint_length [of "Version t"] raw [OF assms(3)] raw [OF assms(4)]
      json_quote_length [of "''worker_id''"] json_quote_length [of "''lease_token''"] json_quote_length [of "''version''"]
      json_quote_length [of "''output''"] json_quote_length [of "''result_ref''"]
      json_quote_length [of "LeaseOwner t"] json_quote_length [of "makeLeaseToken t"]
    by (cases "output = []"; cases "ref = []"; cases "Version t = 0")
      (simp_all add: complete_wire_def marshal_struct_def print_fields_def wire_defs maxRequestBodyBytes_def)
qed

section \<open>A leased task\<close>

text \<open>
  Task \<open>t\<close> is running for its owner, and everything about it can be sent as JSON.
\<close>

definition leased :: "runtime \<Rightarrow> Task \<Rightarrow> bool" where
  "leased s t \<longleftrightarrow> idle s \<and> stores_wf (stores_rt s) \<and> stored_task (stores_rt s) (ID t) = Some t \<and> token_ok t \<and>
     TrimSpace (LeaseOwner t) \<noteq> [] \<and> Status t = TaskStatusRunning \<and> addressable (ID t) \<and> printable t \<and>
     length (ID t) \<le> 1000 \<and> length (LeaseOwner t) \<le> 1000"

lemma leased_holds:
  "leased s t \<Longrightarrow> LeaseExpiresAt t = Some l \<Longrightarrow> now < l \<Longrightarrow> eid \<noteq> [] \<Longrightarrow> \<not> event_known (stores_rt s) eid \<Longrightarrow>
   holds_lease s t now eid"
  by (simp add: leased_def holds_lease_def)

lemma printable_token: "printable t \<Longrightarrow> printable (withLeaseToken t)"
  by (auto simp: printable_def withLeaseToken_def makeLeaseToken_utf8)

lemma client_view_token:
  "LeaseOwner t \<noteq> [] \<Longrightarrow> LeaseToken_ct (client_view (withLeaseToken t)) = makeLeaseToken t"
  "Version_ct (client_view (withLeaseToken t)) = Version t" "ID_ct (client_view (withLeaseToken t)) = ID t"
  "Workflow_ct (client_view (withLeaseToken t)) = Workflow t"
  by (simp_all add: client_view_def withLeaseToken_def)

section \<open>Operations of the holder\<close>

lemma HeartbeatTask_holder:
  assumes "leased s t" "LeaseExpiresAt t = Some l" "now < l" "now \<noteq> 0" "0 < d"
  shows "HeartbeatTask (memory_stores rng1 rng2 rng3) now
      \<lparr>TaskID_hi = ID t, WorkerID_hi = LeaseOwner t, LeaseToken_hi = makeLeaseToken t, LeaseDuration_hi = d\<rparr> s =
    (Inr (withLeaseToken (renewed now d t)),
     s\<lparr>stores_rt := (stores_rt s)\<lparr>taskStore := put_task (ID t) (renewed now d t) (taskStore (stores_rt s))\<rparr>,
       metrics_rt := metrics_rt s @ [RecordLeaseRenewed (Workflow t)]\<rparr>)"
proof -
  have t: "idle s" "stored_task (stores_rt s) (ID t) = Some t" "token_ok t" "TrimSpace (LeaseOwner t) \<noteq> []"
    "Status t = TaskStatusRunning" "ID t \<noteq> []" "LeaseOwner t \<noteq> []"
    using assms(1) by (auto simp: leased_def token_ok_def)
  have v: "validateLeaseToken (memory_stores rng1 rng2 rng3) (ID t) (LeaseOwner t) (makeLeaseToken t) s = (Inr (), s)"
    using t by (simp add: validateLeaseToken_def token_claims_makeLeaseToken bind_def memory_idle Get_stored ret_def)
  have r: "RenewLease None \<lparr>TaskID_rl = ID t, WorkerID_rl = LeaseOwner t, Now_rl = now, LeaseDuration_rl = d\<rparr>
      (taskStore (stores_rt s)) = (None, put_task (ID t) (renewed now d t) (taskStore (stores_rt s)))"
    using t assms(2-5) by (simp add: RenewLease_def Validate_renew_def lease_held_def renewed_def IsZero_def)
  show ?thesis
    using t assms(5) v r
    by (simp add: HeartbeatTask_def attempt_def memory_idle bind_def Get_stored effect_def ret_def)
      (simp add: renewed_def)
qed

text \<open>What a report of progress leaves.\<close>

definition progressed :: "Task \<Rightarrow> int \<Rightarrow> time \<Rightarrow> Task" where
  "progressed t p now = t\<lparr>Progress := p, UpdatedAt := now, Version := Version t + 1\<rparr>"

lemma ReportProgress_holder:
  assumes h: "holds_lease s t pnow eid"
    and input: "TaskID_pi input = ID t" "WorkerID_pi input = LeaseOwner t" "LeaseToken_pi input = makeLeaseToken t"
      "0 \<le> Progress_pi input" "Progress_pi input < 100"
  shows "\<exists>ev. ID_ev ev = eid \<and> ReportProgress (memory_stores rng1 rng2 rng3) pnow now eid input s =
    (Inr (withLeaseToken (progressed t (Progress_pi input) now)),
     s\<lparr>stores_rt := commit (ID t) (progressed t (Progress_pi input) now) ev (stores_rt s)\<rparr>)"
proof -
  have t: "Status t = TaskStatusRunning" "ID t \<noteq> []" "eid \<noteq> []" "idle s"
    using h by (auto simp: holds_lease_def token_ok_def)
  let ?pl = "json_print (JObject [(''message'', JString (progress_message input)),
              (''progress'', JInt (Progress_pi input)), (''worker_id'', JString (LeaseOwner t))])"
  obtain ev where ev: "NewTaskEvent eid (ID t) EventTaskProgress (progress_message input) ?pl (Progress_pi input) now = Inr ev"
    using t(2,3) input(4,5) by (simp add: NewTaskEvent_def)
  note ev' = NewTaskEvent_Inr [OF ev]
  let ?t = "t\<lparr>Progress := Progress_pi input, UpdatedAt := now\<rparr>"
  have upd: "UpdateTaskWithEvent_rs (memory_stores rng1 rng2 rng3) (Some ?t) (Some ev) s =
      (Inr (), s\<lparr>stores_rt := commit (ID t) (?t\<lparr>Version := Version t + 1\<rparr>) ev (stores_rt s)\<rparr>)"
    using ev' by (intro Update_holder [OF h]) simp_all
  have p: "?t\<lparr>Version := Version t + 1\<rparr> = progressed t (Progress_pi input) now" by (simp add: progressed_def)
  have "ReportProgress (memory_stores rng1 rng2 rng3) pnow now eid input s =
    (Inr (withLeaseToken (progressed t (Progress_pi input) now)),
     s\<lparr>stores_rt := commit (ID t) (progressed t (Progress_pi input) now) ev (stores_rt s)\<rparr>)"
    using t input ev upd [unfolded p]
    by (simp add: ReportProgress_def Let_def bind_def [of "resolveLeaseVersion _ _ _ _ _"]
        bind_def [of "prepareRunningTask _ _ _ _ _"] bind_def [of "UpdateTaskWithEvent_rs _ _ _"]
        bind_def [of "Get_rs _ _"] holder_simps [OF h] ret_def memory_idle Get_stored)
  then show ?thesis using ev' by blast
qed

section \<open>A session\<close>

text \<open>
  A client and a server with memory stores that reach each other; nobody else acts on the
  stores.
\<close>

locale remote_session =
  fixes c :: "(runtime \<times> nat) Client"
    and rng :: "nat \<Rightarrow> task_range"
    and clock :: time
    and lenient :: "string \<Rightarrow> time option"
    and secret :: string
    and other :: "http_body \<Rightarrow> string"
    and envs :: "nat \<Rightarrow> http_env"
  assumes order: "range_order (rng i)"
    and linked: "connected c (memory_handler rng clock lenient secret)"
    and wire: "Do_c c = serve_wire (baseURL c) (memory_handler rng clock lenient secret) None other envs (\<lambda>_. Delivered)"
begin

lemma worker_service:
  "workerTaskService_h (memory_handler rng clock lenient secret) = Some \<lparr>stores_ws = memory_stores (rng 1) (rng 2) (rng 3),
     scheduler_ws = (\<lambda>env. Some (externalSchedule (memory_stores (rng 1) (rng 2) (rng 3)) (jitter_he env)
       (retryEventID_he env) (retryNow_he env)))\<rparr>"
  by (simp add: memory_handler_def Let_def WithClaimMetrics_def WithWorkerAuthToken_def NewHandlerWithWorker_def)

lemma worker_stores: "stores_ws \<lparr>stores_ws = S, scheduler_ws = f\<rparr> = S"
  by simp

lemma keeps_wf:
  assumes "delivers c (memory_handler rng clock lenient secret) None env k call operation" "idle s" "stores_wf (stores_rt s)"
    "operation s = (resp, s1)"
  shows "stores_wf (stores_rt s1)"
proof -
  obtain r where r: "NewRouter (memory_handler rng clock lenient secret) None env r s = (resp, s1)"
    using assms(1,4) unfolding delivers_def by metis
  have fair: "fair_schedule s" using assms(2) by (simp add: idle_def fair_schedule_def)
  have "http_server (memory_stores (rng 1) (rng 2) (rng 3)) stores_rt fair_schedule
      (memory_handler rng clock lenient secret) None"
    by (rule memory_http_server) (simp_all add: order)
  from http_server.NewRouter_spec [OF this fair assms(3) r] show ?thesis by (simp add: one_step_def)
qed

text \<open>A call of the session and what the service does for it.\<close>

lemma session_call:
  assumes "delivers c (memory_handler rng clock lenient secret) None (envs n) (task_result c) call (respond svc task_answer)"
    "idle s" "stores_wf (stores_rt s)" "svc s = (Inr t, s1)" "printable t"
  shows "call (s, n) = (Inr (client_view t), (s1, Suc n))" "stores_wf (stores_rt s1)"
  using remote_service(1) [OF assms(1) wire _ assms(4,5)]
    keeps_wf [OF assms(1-3), of "task_answer t" s1] assms(4) by (simp_all add: respond_def)

lemma heartbeat_holder:
  assumes "leased s t" "LeaseExpiresAt t = Some l" "now1_he (envs n) < l" "now1_he (envs n) \<noteq> 0" "0 < d" "in_i64 d"
    "time_ok (now1_he (envs n))" "time_ok (Add_time (now1_he (envs n)) d)"
  defines "u \<equiv> renewed (now1_he (envs n)) d t"
  shows "\<exists>s1. Heartbeat_client c (ID t) (LeaseOwner t) (makeLeaseToken t) d (s, n) =
      (Inr (client_view (withLeaseToken u)), (s1, Suc n)) \<and>
    leased s1 u \<and> eventStore (stores_rt s1) = eventStore (stores_rt s)"
proof -
  have t: "idle s" "stores_wf (stores_rt s)" "valid_utf8 (LeaseOwner t)" "addressable (ID t)" "printable t"
    "length (ID t) \<le> 1000" "length (LeaseOwner t) \<le> 1000"
    using assms(1) by (auto simp: leased_def token_ok_def)
  obtain b where b: "heartbeat_wire (LeaseOwner t) (makeLeaseToken t) d = Some b" "length b \<le> maxRequestBodyBytes"
    using makeLeaseToken_length [OF t(6,7)] Duration_String_length [OF assms(6)] t(7)
      json_quote_length [of "''worker_id''"] json_quote_length [of "''lease_token''"] json_quote_length [of "''lease_duration''"]
      json_quote_length [of "LeaseOwner t"] json_quote_length [of "makeLeaseToken t"] json_quote_length [of "Duration_String d"]
    by (simp add: heartbeat_wire_def marshal_struct_def print_fields_def field_def quoted_def maxRequestBodyBytes_def)
  have u: "printable u" using t(5) assms(7,8) by (auto simp: u_def renewed_def printable_def)
  let ?s1 = "s\<lparr>stores_rt := (stores_rt s)\<lparr>taskStore := put_task (ID t) u (taskStore (stores_rt s))\<rparr>,
       metrics_rt := metrics_rt s @ [RecordLeaseRenewed (Workflow t)]\<rparr>"
  note del = Heartbeat_delivers [OF linked worker_service t(4,3) makeLeaseToken_utf8 assms(5,6) b, unfolded worker_stores,
      where page = None and env = "envs n"]
  note hb = HeartbeatTask_holder [OF assms(1-5), folded u_def]
  note call = session_call [OF del t(1,2) hb printable_token [OF u]]
  have "token_ok u" "Status u = TaskStatusRunning" "ID u = ID t" "LeaseOwner u = LeaseOwner t"
    using assms(1) by (simp_all add: leased_def token_ok_def u_def renewed_def)
  with assms(1) u call(2) have "leased ?s1 u" by (simp add: leased_def)
  with call(1) show ?thesis by (intro exI [of _ ?s1]) simp
qed

lemma progress_holder:
  assumes "leased s t" "LeaseExpiresAt t = Some l" "now1_he (envs n) < l" "0 \<le> p" "p < 100" "valid_utf8 message"
    "length message \<le> 1000" "time_ok (now2_he (envs n))" "Version t + 1 \<noteq> 0" "eventID_he (envs n) \<noteq> []"
    "\<not> event_known (stores_rt s) (eventID_he (envs n))"
  defines "u \<equiv> progressed t p (now2_he (envs n))"
  shows "\<exists>s1. Progress_client c (ID t) (LeaseOwner t) (makeLeaseToken t) (Version t) p message (s, n) =
      (Inr (client_view (withLeaseToken u)), (s1, Suc n)) \<and>
    leased s1 u \<and> (\<forall>x. event_known (stores_rt s1) x \<longrightarrow> event_known (stores_rt s) x \<or> x = eventID_he (envs n))"
proof -
  have t: "idle s" "stores_wf (stores_rt s)" "valid_utf8 (LeaseOwner t)" "addressable (ID t)" "printable t"
    "length (ID t) \<le> 1000" "length (LeaseOwner t) \<le> 1000"
    using assms(1) by (auto simp: leased_def token_ok_def)
  have p: "in_i64 p" using assms(4,5) by (simp add: in_i64_def)
  obtain b where b: "progress_wire (LeaseOwner t) (makeLeaseToken t) (Version t) p message = Some b"
    "length b \<le> maxRequestBodyBytes"
    using makeLeaseToken_length [OF t(6,7)] t(7) assms(7) show_uint_length [of "Version t"] show_int_length [OF p]
      json_quote_length [of "''worker_id''"] json_quote_length [of "''lease_token''"] json_quote_length [of "''version''"]
      json_quote_length [of "''progress''"] json_quote_length [of "''message''"] json_quote_length [of message]
      json_quote_length [of "LeaseOwner t"] json_quote_length [of "makeLeaseToken t"]
    by (simp add: progress_wire_def marshal_struct_def print_fields_def field_def quoted_def number_def maxRequestBodyBytes_def)
  have u: "printable u" using t(5) assms(8) p by (auto simp: u_def progressed_def printable_def)
  note h = leased_holds [OF assms(1-3,10,11)]
  let ?in = "\<lparr>TaskID_pi = ID t, WorkerID_pi = LeaseOwner t, Version_pi = Version t, LeaseToken_pi = makeLeaseToken t,
      Progress_pi = p, Message_pi = message\<rparr>"
  obtain ev where ev: "ID_ev ev = eventID_he (envs n)"
    "ReportProgress (memory_stores (rng 1) (rng 2) (rng 3)) (now1_he (envs n)) (now2_he (envs n)) (eventID_he (envs n)) ?in s =
      (Inr (withLeaseToken u), s\<lparr>stores_rt := commit (ID t) u ev (stores_rt s)\<rparr>)"
    using ReportProgress_holder [OF h, of ?in "rng 1" "rng 2" "rng 3" "now2_he (envs n)"] assms(4,5) unfolding u_def by auto
  note del = Progress_delivers [OF linked worker_service t(4,3) makeLeaseToken_utf8 assms(6) p b, unfolded worker_stores,
      where page = None and env = "envs n"]
  note call = session_call [OF del t(1,2) ev(2) printable_token [OF u]]
  have "token_ok u" "Status u = TaskStatusRunning" "ID u = ID t" "LeaseOwner u = LeaseOwner t"
    using assms(1,9) by (simp_all add: leased_def token_ok_def u_def progressed_def)
  with assms(1) u call(2) have "leased (s\<lparr>stores_rt := commit (ID t) u ev (stores_rt s)\<rparr>) u" by (simp add: leased_def)
  with call(1) ev(1) show ?thesis
    by (intro exI [of _ "s\<lparr>stores_rt := commit (ID t) u ev (stores_rt s)\<rparr>"]) (simp add: put_event_def)
qed

lemma complete_holder:
  assumes "leased s t" "LeaseExpiresAt t = Some l" "now1_he (envs n) < l" "raw_ok output" "raw_ok ref"
    "length output + length ref \<le> 500000" "time_ok (now2_he (envs n))" "eventID_he (envs n) \<noteq> []"
    "\<not> event_known (stores_rt s) (eventID_he (envs n))"
  defines "q \<equiv> \<lparr>TaskID_xd = ID t, WorkerID_xd = LeaseOwner t, LeaseToken_xd = makeLeaseToken t, Version_xd = Version t,
      Output_xd = output, ResultRef_xd = ref\<rparr>"
  defines "u \<equiv> completed t (if ref \<noteq> [] then ref else if output \<noteq> [] then output else ''{}'') (now2_he (envs n))"
  shows "\<exists>s1. Complete_client c q (s, n) = (Inr (client_view u), (s1, Suc n)) \<and> idle s1 \<and> stores_wf (stores_rt s1) \<and>
    stored_task (stores_rt s1) (ID t) = Some (u\<lparr>Version := Version t + 1\<rparr>)"
proof -
  have t: "idle s" "stores_wf (stores_rt s)" "valid_utf8 (LeaseOwner t)" "addressable (ID t)" "printable t"
    "length (ID t) \<le> 1000" "length (LeaseOwner t) \<le> 1000"
    using assms(1) by (auto simp: leased_def token_ok_def)
  obtain b where b: "complete_wire q = Some b" "length b \<le> maxRequestBodyBytes"
    using complete_wire_fits [OF t(6,7) assms(4-6)] unfolding q_def by blast
  have "raw_ok ''{}''"
    unfolding raw_ok_def by (intro disjI2 exI [of _ "JObject []"]) (simp add: max_nesting_def)
  then have u: "printable u" using t(5) assms(4,5,7)
    by (auto simp: u_def completed_def printable_def in_i64_def valid_utf8_ascii byte_in_def)
  note h = leased_holds [OF assms(1-3,8,9)]
  let ?in = "\<lparr>TaskID_cm = ID t, WorkerID_cm = LeaseOwner t, Version_cm = Version t, LeaseToken_cm = makeLeaseToken t,
      Output_cm = output, ResultRef_cm = ref\<rparr>"
  let ?run = "CompleteTask (memory_stores (rng 1) (rng 2) (rng 3)) (now1_he (envs n)) (now2_he (envs n)) (eventID_he (envs n)) ?in"
  have del: "delivers c (memory_handler rng clock lenient secret) None (envs n) (task_result c) (Complete_client c q)
      (respond ?run task_answer)"
    using Complete_delivers [OF linked worker_service, of q b None "envs n"] b t(3,4) assms(4,5) makeLeaseToken_utf8 [of t]
    by (simp add: q_def)
  have r: "completion_result ?in = (if ref \<noteq> [] then ref else if output \<noteq> [] then output else ''{}'')"
    by (simp add: completion_result_def Let_def)
  obtain s1 where run: "?run s = (Inr u, s1)" "idle s1" "stored_task (stores_rt s1) (ID t) = Some (u\<lparr>Version := Version t + 1\<rparr>)"
    using CompleteTask_holder [OF h, of ?in "rng 1" "rng 2" "rng 3" "now2_he (envs n)"] t(1) unfolding r u_def by auto
  from session_call [OF del t(1,2) run(1) u] run show ?thesis by blast
qed

end

section \<open>An execution\<close>

text \<open>
  What the two goroutines do before the executor returns, one round after the other: heartbeats,
  and reports of progress.
\<close>

datatype lease_round = Beat | Report int string

fun round_steps :: "lease_round \<Rightarrow> goroutine_step list" where
  "round_steps Beat = [HbTick, HbCall, HbWrite]"
| "round_steps (Report p message) = [PrStart p message, PrCall, PrWrite]"

text \<open>Every request, the last one included, comes before the lease has expired.\<close>

fun timely :: "(nat \<Rightarrow> http_env) \<Rightarrow> duration \<Rightarrow> time \<Rightarrow> nat \<Rightarrow> lease_round list \<Rightarrow> bool" where
  "timely envs d expires n [] \<longleftrightarrow> now1_he (envs n) < expires"
| "timely envs d expires n (Beat # rounds) \<longleftrightarrow>
     now1_he (envs n) < expires \<and> timely envs d (Add_time (now1_he (envs n)) d) (Suc n) rounds"
| "timely envs d expires n (Report p message # rounds) \<longleftrightarrow>
     now1_he (envs n) < expires \<and> 0 \<le> p \<and> p < 100 \<and> valid_utf8 message \<and> length message \<le> 1000 \<and>
     timely envs d expires (Suc n) rounds"

text \<open>Surroundings of the server: real clocks, and ids that are not used twice.\<close>

definition envs_ok :: "(nat \<Rightarrow> http_env) \<Rightarrow> duration \<Rightarrow> bool" where
  "envs_ok envs d \<longleftrightarrow> inj (\<lambda>n. eventID_he (envs n)) \<and>
     (\<forall>n. eventID_he (envs n) \<noteq> [] \<and> now1_he (envs n) \<noteq> 0 \<and> time_ok (now1_he (envs n)) \<and> time_ok (now2_he (envs n)) \<and>
       time_ok (Add_time (now1_he (envs n)) d))"

definition fresh_from :: "(nat \<Rightarrow> http_env) \<Rightarrow> nat \<Rightarrow> runtime \<Rightarrow> bool" where
  "fresh_from envs n s \<longleftrightarrow> (\<forall>k \<ge> n. \<not> event_known (stores_rt s) (eventID_he (envs k)))"

definition lease_of :: "Task \<Rightarrow> leaseState" where
  "lease_of t = \<lparr>token_ls = makeLeaseToken t, version_ls = Version t\<rparr>"

text \<open>The execution is between two rounds and holds the current lease.\<close>

definition between :: "execution \<Rightarrow> Task \<Rightarrow> bool" where
  "between x t \<longleftrightarrow> lease_x x = lease_of t \<and> heartbeat_x x = HbWaiting \<and> progress_x x = PrIdle \<and>
     heartbeatErr_x x = None \<and> \<not> canceled_x x"

context remote_session
begin

text \<open>A round keeps the lease of the execution the current one.\<close>

lemma round_keeps_lease:
  assumes r: "client_rt r = client_api c" "workerID_rt r = LeaseOwner t" "0 < leaseDuration_rt r" "in_i64 (leaseDuration_rt r)"
    and env: "envs_ok envs (leaseDuration_rt r)" "fresh_from envs n s"
    and t: "leased s t" "LeaseExpiresAt t = Some l" "between x t" "Version t + 1 \<noteq> 0"
    and time: "timely envs (leaseDuration_rt r) l n (rd # rounds)"
  shows "\<exists>x1 s1 u l1. execution_steps r (ID t) (round_steps rd) (x, (s, n)) = (x1, (s1, Suc n)) \<and> between x1 u \<and>
    leased s1 u \<and> LeaseExpiresAt u = Some l1 \<and> timely envs (leaseDuration_rt r) l1 (Suc n) rounds \<and>
    fresh_from envs (Suc n) s1 \<and> ID u = ID t \<and> LeaseOwner u = LeaseOwner t \<and> Workflow u = Workflow t \<and>
    (Version u = Version t \<or> Version u = Version t + 1)"
proof (cases rd)
  case Beat
  let ?u = "renewed (now1_he (envs n)) (leaseDuration_rt r) t"
  from time env(1) Beat have e: "now1_he (envs n) < l" "now1_he (envs n) \<noteq> 0" "time_ok (now1_he (envs n))"
    "time_ok (Add_time (now1_he (envs n)) (leaseDuration_rt r))" by (auto simp: envs_ok_def)
  from heartbeat_holder [OF t(1,2) e(1,2) r(3,4) e(3,4)] obtain s1 where
    s1: "Heartbeat_client c (ID t) (LeaseOwner t) (makeLeaseToken t) (leaseDuration_rt r) (s, n) =
      (Inr (client_view (withLeaseToken ?u)), (s1, Suc n))" "leased s1 ?u" "eventStore (stores_rt s1) = eventStore (stores_rt s)"
    by blast
  have o: "LeaseOwner t \<noteq> []" "Version t \<noteq> 0" using t(1) by (auto simp: leased_def token_ok_def)
  have tok: "makeLeaseToken ?u = makeLeaseToken t" by (simp add: makeLeaseToken_def token_json_def renewed_def)
  have "execution_steps r (ID t) (round_steps Beat) (x, (s, n)) = (x, (s1, Suc n))"
    using s1(1) t(3) r(1,2) o client_view_token(1) [of ?u] client_view_token(2) [of ?u]
    by (simp add: execution_steps_def between_def heartbeat_tick_def heartbeat_call_def heartbeat_write_def client_api_def
        lease_of_def tok) (simp add: renewed_def)
  moreover have "between x ?u" using t(3) by (simp add: between_def lease_of_def tok) (simp add: renewed_def)
  moreover have "fresh_from envs (Suc n) s1" using env(2) s1(3) by (simp add: fresh_from_def)
  moreover have "LeaseExpiresAt ?u = Some (Add_time (now1_he (envs n)) (leaseDuration_rt r))" "ID ?u = ID t"
    "LeaseOwner ?u = LeaseOwner t" "Workflow ?u = Workflow t" "Version ?u = Version t" by (simp_all add: renewed_def)
  ultimately show ?thesis using s1(2) time Beat by auto
next
  case (Report p message)
  let ?u = "progressed t p (now2_he (envs n))"
  from time env(1) Report have e: "now1_he (envs n) < l" "0 \<le> p" "p < 100" "valid_utf8 message" "length message \<le> 1000"
    "time_ok (now2_he (envs n))" "eventID_he (envs n) \<noteq> []" by (auto simp: envs_ok_def)
  have "\<not> event_known (stores_rt s) (eventID_he (envs n))" using env(2) by (simp add: fresh_from_def)
  from progress_holder [OF t(1,2) e(1-6) t(4) e(7) this] obtain s1 where
    s1: "Progress_client c (ID t) (LeaseOwner t) (makeLeaseToken t) (Version t) p message (s, n) =
      (Inr (client_view (withLeaseToken ?u)), (s1, Suc n))" "leased s1 ?u"
      "\<forall>x. event_known (stores_rt s1) x \<longrightarrow> event_known (stores_rt s) x \<or> x = eventID_he (envs n)"
    by blast
  have o: "LeaseOwner ?u \<noteq> []" using t(1) by (simp add: leased_def token_ok_def progressed_def)
  have "execution_steps r (ID t) (round_steps (Report p message)) (x, (s, n)) = (x\<lparr>lease_x := lease_of ?u\<rparr>, (s1, Suc n))"
    using s1(1) t(3) r(1,2) client_view_token(1) [OF o] client_view_token(2) [of ?u]
    by (simp add: execution_steps_def between_def report_start_def report_call_def report_write_def client_api_def lease_of_def)
  moreover have "between (x\<lparr>lease_x := lease_of ?u\<rparr>) ?u" using t(3) by (simp add: between_def)
  moreover have "fresh_from envs (Suc n) s1"
    using env s1(3) unfolding fresh_from_def envs_ok_def inj_def by (metis Suc_n_not_le_n Suc_leD)
  moreover have "LeaseExpiresAt ?u = Some l" "ID ?u = ID t" "LeaseOwner ?u = LeaseOwner t" "Workflow ?u = Workflow t"
    "Version ?u = Version t + 1" using t(2) by (simp_all add: progressed_def)
  ultimately show ?thesis using s1(2) time Report by auto
qed

lemma rounds_keep_lease:
  assumes "client_rt r = client_api c" "workerID_rt r = LeaseOwner t" "0 < leaseDuration_rt r" "in_i64 (leaseDuration_rt r)"
    and "envs_ok envs (leaseDuration_rt r)" "fresh_from envs n s"
    and "leased s t" "LeaseExpiresAt t = Some l" "between x t" "unat (Version t) + length rounds + 1 < 2 ^ 64"
    and "timely envs (leaseDuration_rt r) l n rounds"
  shows "\<exists>x1 s1 u l1. execution_steps r (ID t) (concat (map round_steps rounds)) (x, (s, n)) = (x1, (s1, n + length rounds)) \<and>
    between x1 u \<and> leased s1 u \<and> LeaseExpiresAt u = Some l1 \<and> now1_he (envs (n + length rounds)) < l1 \<and>
    fresh_from envs (n + length rounds) s1 \<and> ID u = ID t \<and> LeaseOwner u = LeaseOwner t \<and> Workflow u = Workflow t"
  using assms(2,6-)
proof (induction rounds arbitrary: n s t l x)
  case Nil
  then show ?case by (auto simp: execution_steps_def)
next
  case (Cons rd rounds)
  have v: "unat (Version t + 1) = unat (Version t) + 1"
    using Cons.prems(6) by (intro unat_add_lem [THEN iffD1] | simp add: unat_plus_if')+
  then have "Version t + 1 \<noteq> 0" by force
  from round_keeps_lease [OF assms(1) Cons.prems(1) assms(3-5) Cons.prems(2-5) this Cons.prems(7)]
  obtain x1 s1 u l1 where u: "execution_steps r (ID t) (round_steps rd) (x, (s, n)) = (x1, (s1, Suc n))" "between x1 u"
    "leased s1 u" "LeaseExpiresAt u = Some l1" "timely envs (leaseDuration_rt r) l1 (Suc n) rounds" "fresh_from envs (Suc n) s1"
    "ID u = ID t" "LeaseOwner u = LeaseOwner t" "Version u = Version t \<or> Version u = Version t + 1" "Workflow u = Workflow t" by blast
  have "unat (Version u) + length rounds + 1 < 2 ^ 64" using u(9) v Cons.prems(6) by auto
  from Cons.IH [OF _ u(6,3,4,2) this u(5)] Cons.prems(1) u(1,7,8,10) show ?case
    by (simp add: execution_steps_def)
qed

text \<open>
  The executor returns a result while the lease is held: the runtime completes the task, and
  the server has its result.
\<close>

lemma execution_completes:
  assumes "client_rt r = client_api c" "workerID_rt r = LeaseOwner t" "0 < leaseDuration_rt r" "in_i64 (leaseDuration_rt r)"
    and "executors_rt r (Workflow t) \<noteq> None"
    and "envs_ok envs (leaseDuration_rt r)" "fresh_from envs n s"
    and "leased s t" "LeaseExpiresAt t = Some l" "unat (Version t) + length rounds + 1 < 2 ^ 64"
    and "timely envs (leaseDuration_rt r) l n rounds"
    and "raw_ok (Output_wr result)" "raw_ok (ResultRef_wr result)"
      "length (Output_wr result) + length (ResultRef_wr result) \<le> 500000"
  shows "\<exists>s1 u. execute isPrint r (client_view (withLeaseToken t))
      \<lparr>before_er = concat (map round_steps rounds), wakeup_er = ExecutionDone (Inr result) False, after_er = [],
       failDone_er = failDone\<rparr> (s, n) = (None, (s1, Suc (n + length rounds))) \<and>
    stores_wf (stores_rt s1) \<and> stored_task (stores_rt s1) (ID t) = Some u \<and> Status u = TaskStatusSucceeded \<and>
    Workflow u = Workflow t \<and> Result u = (if ResultRef_wr result \<noteq> [] then ResultRef_wr result
      else if Output_wr result \<noteq> [] then Output_wr result else ''{}'')"
proof -
  have o: "LeaseOwner t \<noteq> []" using assms(8) by (simp add: leased_def token_ok_def)
  have start: "between (start_execution (client_view (withLeaseToken t))) t"
    using client_view_token(1) [OF o] client_view_token(2) [of t] by (simp add: between_def start_execution_def lease_of_def)
  from rounds_keep_lease [OF assms(1-4,6-9) start assms(10,11)] obtain x1 s1 u l1 where
    u: "execution_steps r (ID t) (concat (map round_steps rounds)) (start_execution (client_view (withLeaseToken t)), (s, n)) =
      (x1, (s1, n + length rounds))" "between x1 u" "leased s1 u" "LeaseExpiresAt u = Some l1"
    "now1_he (envs (n + length rounds)) < l1" "fresh_from envs (n + length rounds) s1" "ID u = ID t" "LeaseOwner u = LeaseOwner t"
    "Workflow u = Workflow t" by blast
  have e: "time_ok (now2_he (envs (n + length rounds)))" "eventID_he (envs (n + length rounds)) \<noteq> []"
    "\<not> event_known (stores_rt s1) (eventID_he (envs (n + length rounds)))"
    using assms(6) u(6) by (simp_all add: envs_ok_def fresh_from_def)
  from complete_holder [OF u(3-5) assms(12-14) e] obtain s2 where s2:
    "Complete_client c \<lparr>TaskID_xd = ID u, WorkerID_xd = LeaseOwner u, LeaseToken_xd = makeLeaseToken u, Version_xd = Version u,
      Output_xd = Output_wr result, ResultRef_xd = ResultRef_wr result\<rparr> (s1, n + length rounds) =
      (Inr (client_view (completed u (if ResultRef_wr result \<noteq> [] then ResultRef_wr result
        else if Output_wr result \<noteq> [] then Output_wr result else ''{}'') (now2_he (envs (n + length rounds))))),
       (s2, Suc (n + length rounds)))" "stores_wf (stores_rt s2)"
    "stored_task (stores_rt s2) (ID u) = Some ((completed u (if ResultRef_wr result \<noteq> [] then ResultRef_wr result
        else if Output_wr result \<noteq> [] then Output_wr result else ''{}'') (now2_he (envs (n + length rounds))))
        \<lparr>Version := Version u + 1\<rparr>)" by blast
  have "execute isPrint r (client_view (withLeaseToken t))
      \<lparr>before_er = concat (map round_steps rounds), wakeup_er = ExecutionDone (Inr result) False, after_er = [],
       failDone_er = failDone\<rparr> (s, n) = (None, (s2, Suc (n + length rounds)))"
    using assms(1,2,5) u(1,2,7,8) s2(1)
    by (auto simp: execute_def client_view_token between_def execution_steps_def lease_of_def complete_task_def client_api_def)
  with s2(2,3) u(7,9) show ?thesis by (simp add: completed_def)
qed

text \<open>A completion with a token that the task has outlived is refused, and changes nothing.\<close>

lemma complete_outdated:
  assumes "leased s u" "token_ok t" "ID t = ID u" "LeaseOwner t = LeaseOwner u" "Version u = Version t + 1"
    "raw_ok output" "raw_ok ref" "length output + length ref \<le> 500000"
  shows "Complete_client c \<lparr>TaskID_xd = ID t, WorkerID_xd = LeaseOwner t, LeaseToken_xd = makeLeaseToken t,
      Version_xd = Version t, Output_xd = output, ResultRef_xd = ref\<rparr> (s, n) =
    (Inl (remote_error other ErrLeaseLost), (s, Suc n))" (is "Complete_client c ?q (s, n) = _")
proof -
  have u: "idle s" "stored_task (stores_rt s) (ID t) = Some u" "Status u = TaskStatusRunning" "addressable (ID t)"
    "valid_utf8 (LeaseOwner t)" "length (ID t) \<le> 1000" "length (LeaseOwner t) \<le> 1000"
    using assms(1,3,4) by (auto simp: leased_def token_ok_def)
  obtain b where b: "complete_wire ?q = Some b" "length b \<le> maxRequestBodyBytes"
    using complete_wire_fits [OF u(6,7) assms(6-8)] by blast
  let ?in = "\<lparr>TaskID_cm = ID t, WorkerID_cm = LeaseOwner t, Version_cm = Version t, LeaseToken_cm = makeLeaseToken t,
      Output_cm = output, ResultRef_cm = ref\<rparr>"
  let ?run = "CompleteTask (memory_stores (rng 1) (rng 2) (rng 3)) (now1_he (envs n)) (now2_he (envs n)) (eventID_he (envs n)) ?in"
  have del: "delivers c (memory_handler rng clock lenient secret) None (envs n) (task_result c) (Complete_client c ?q)
      (respond ?run task_answer)"
    using Complete_delivers [OF linked worker_service, of ?q b None "envs n"] b u(4,5) assms(6,7) makeLeaseToken_utf8 [of t] by simp
  have "?run s = (Inl ErrLeaseLost, s)"
    using u(1-3) assms(2,5) by (intro CompleteTask_outdated) auto
  with remote_service(2) [OF del wire] show ?thesis by simp
qed

text \<open>
  A heartbeat and a report that overlap: the heartbeat is answered first and writes last.  The
  token it writes is the one before the report, and the completion is refused.
\<close>

lemma stale_heartbeat:
  assumes r: "client_rt r = client_api c" "workerID_rt r = LeaseOwner t" "0 < leaseDuration_rt r" "in_i64 (leaseDuration_rt r)"
      "executors_rt r (Workflow t) \<noteq> None"
    and env: "envs_ok envs (leaseDuration_rt r)" "fresh_from envs n s"
    and t: "leased s t" "LeaseExpiresAt t = Some l" "Version t + 1 \<noteq> 0"
    and time: "timely envs (leaseDuration_rt r) l n [Beat, Report p message]"
    and result: "raw_ok (Output_wr result)" "raw_ok (ResultRef_wr result)"
      "length (Output_wr result) + length (ResultRef_wr result) \<le> 500000"
  shows "\<exists>s1 u. execute isPrint r (client_view (withLeaseToken t))
      \<lparr>before_er = [HbTick, HbCall, PrStart p message, PrCall, PrWrite, HbWrite],
       wakeup_er = ExecutionDone (Inr result) False, after_er = [], failDone_er = failDone\<rparr> (s, n) =
      (Some (Wrap (''complete task '' @ Quote isPrint (ID t) @ '': '') (remote_error other ErrLeaseLost) []), (s1, n + 3)) \<and>
    stored_task (stores_rt s1) (ID t) = Some u \<and> Status u = TaskStatusRunning \<and> Progress u = p"
proof -
  let ?d = "leaseDuration_rt r"
  let ?h = "renewed (now1_he (envs n)) ?d t"
  let ?u = "progressed ?h p (now2_he (envs (Suc n)))"
  have e: "now1_he (envs n) < l" "now1_he (envs n) \<noteq> 0" "time_ok (now1_he (envs n))" "time_ok (Add_time (now1_he (envs n)) ?d)"
    "time_ok (now2_he (envs (Suc n)))" "eventID_he (envs (Suc n)) \<noteq> []"
    "now1_he (envs (Suc n)) < Add_time (now1_he (envs n)) ?d" "0 \<le> p" "p < 100" "valid_utf8 message" "length message \<le> 1000"
    using time env(1) by (auto simp: envs_ok_def)
  from heartbeat_holder [OF t(1,2) e(1,2) r(3,4) e(3,4)] obtain s1 where
    s1: "Heartbeat_client c (ID t) (LeaseOwner t) (makeLeaseToken t) ?d (s, n) = (Inr (client_view (withLeaseToken ?h)), (s1, Suc n))"
      "leased s1 ?h" "eventStore (stores_rt s1) = eventStore (stores_rt s)" by blast
  have h: "LeaseExpiresAt ?h = Some (Add_time (now1_he (envs n)) ?d)" "Version ?h + 1 \<noteq> 0" "ID ?h = ID t"
    "LeaseOwner ?h = LeaseOwner t" "Version ?h = Version t" "makeLeaseToken ?h = makeLeaseToken t"
    using t(3) by (simp_all add: makeLeaseToken_def token_json_def) (simp_all add: renewed_def)
  have "\<not> event_known (stores_rt s1) (eventID_he (envs (Suc n)))" using env(2) s1(3) by (simp add: fresh_from_def)
  from progress_holder [OF s1(2) h(1) e(7-11,5) h(2) e(6) this] obtain s2 where
    s2: "Progress_client c (ID t) (LeaseOwner t) (makeLeaseToken t) (Version t) p message (s1, Suc n) =
      (Inr (client_view (withLeaseToken ?u)), (s2, Suc (Suc n)))" "leased s2 ?u" unfolding h by blast
  have o: "LeaseOwner t \<noteq> []" "token_ok t" "Version t \<noteq> 0" "Status t = TaskStatusRunning"
    using t(1) by (auto simp: leased_def token_ok_def)
  have ids: "ID t = ID ?u" "LeaseOwner t = LeaseOwner ?u" "Version ?u = Version t + 1" "Status ?u = TaskStatusRunning" "Progress ?u = p"
    using o(4) by (simp_all add: progressed_def renewed_def)
  have refused: "Complete_client c \<lparr>TaskID_xd = ID t, WorkerID_xd = LeaseOwner t, LeaseToken_xd = makeLeaseToken t,
      Version_xd = Version t, Output_xd = Output_wr result, ResultRef_xd = ResultRef_wr result\<rparr> (s2, Suc (Suc n)) =
      (Inl (remote_error other ErrLeaseLost), (s2, Suc (Suc (Suc n))))"
    by (rule complete_outdated [OF s2(2) o(2) ids(1-3) result])
  have view: "LeaseToken_ct (client_view (withLeaseToken ?h)) = makeLeaseToken t" "Version_ct (client_view (withLeaseToken ?h)) = Version t"
    using client_view_token(1) [of ?h] client_view_token(2) [of ?h] o(1) by (simp_all add: h)
  have "execute isPrint r (client_view (withLeaseToken t))
      \<lparr>before_er = [HbTick, HbCall, PrStart p message, PrCall, PrWrite, HbWrite],
       wakeup_er = ExecutionDone (Inr result) False, after_er = [], failDone_er = failDone\<rparr> (s, n) =
      (Some (Wrap (''complete task '' @ Quote isPrint (ID t) @ '': '') (remote_error other ErrLeaseLost) []), (s2, n + 3))"
    using r s1(1) s2(1) refused o(1,3) view client_view_token(1) [OF o(1)]
    by (auto simp: execute_def client_view_token(2-4) start_execution_def execution_steps_def heartbeat_tick_def heartbeat_call_def
        heartbeat_write_def report_start_def report_call_def report_write_def complete_task_def client_api_def)
  with s2(2) ids show ?thesis by (auto simp: leased_def)
qed

end

section \<open>A round of the worker\<close>

text \<open>A stored task that requests and responses can carry, and that has a version left.\<close>

definition carried :: "Task \<Rightarrow> bool" where
  "carried t \<longleftrightarrow> printable t \<and> addressable (ID t) \<and> length (ID t) \<le> 1000 \<and> TrimSpace (ID t) \<noteq> [] \<and> unat (Version t) < 2 ^ 63"

lemma claimed_carried:
  assumes "carried t" "task_wf t" "claimable o1 kind t" "Validate_claim o1 = None" "time_ok (Now_co o1)"
    "time_ok (Add_time (Now_co o1) (LeaseDuration_co o1))" "valid_utf8 (WorkerID_co o1)"
  shows "printable (claimed o1 kind t)"
proof -
  have "valid_utf8 ''running''" by (intro valid_utf8_ascii) (simp add: byte_in_def)
  moreover have "in_i64 (RetryCount (claimed o1 kind t))"
    using claimed_wf(1) [OF assms(2-4)] unfolding task_wf_def in_i64_def by linarith
  ultimately show ?thesis
    using assms(1,3,5-7) unfolding carried_def printable_def claimed_def grant_lease_def enter_status_def claimable_def
    by (auto simp: Add_time_def expired_claimable_def split: if_splits option.splits)
qed

text \<open>The identity of a worker: what it sends when it claims.\<close>

definition worker_ok :: "('s, 'e) Runtime \<Rightarrow> bool" where
  "worker_ok r \<longleftrightarrow> valid_utf8 (workerID_rt r) \<and> TrimSpace (workerID_rt r) \<noteq> [] \<and> length (workerID_rt r) \<le> 1000 \<and>
     valid_utf8 (workflow_rt r) \<and> TrimSpace (workflow_rt r) = workflow_rt r \<and> workflow_rt r \<noteq> [] \<and>
     length (workflow_rt r) \<le> 1000 \<and> 0 < leaseDuration_rt r \<and> in_i64 (leaseDuration_rt r)"

definition worker_claim_options :: "('s, 'e) Runtime \<Rightarrow> time \<Rightarrow> ClaimOptions" where
  "worker_claim_options r now = \<lparr>WorkerID_co = workerID_rt r, Workflow_co = workflow_rt r, Now_co = now,
     LeaseDuration_co = leaseDuration_rt r\<rparr>"

lemma claim_wire_fits:
  assumes "worker_ok r"
  shows "\<exists>b. claim_wire \<lparr>WorkerID_xc = workerID_rt r, Workflow_xc = workflow_rt r, LeaseDuration_xc = leaseDuration_rt r\<rparr> = Some b \<and>
    length b \<le> maxRequestBodyBytes"
  using assms Duration_String_length [of "leaseDuration_rt r"] json_quote_length [of "''worker_id''"] json_quote_length [of "''workflow''"]
    json_quote_length [of "''lease_duration''"] json_quote_length [of "workerID_rt r"] json_quote_length [of "workflow_rt r"]
    json_quote_length [of "Duration_String (leaseDuration_rt r)"]
  by (simp add: worker_ok_def claim_wire_def marshal_struct_def print_fields_def wire_defs maxRequestBodyBytes_def)

lemma ClaimTask_available:
  assumes "idle s" "stores_wf (stores_rt s)" "range_order rng1" "range_order rng2" "worker_ok r"
    and "now \<noteq> 0" "time_ok (Add_time now (leaseDuration_rt r))"
    and "eid \<noteq> []" "\<not> event_known (stores_rt s) eid"
    and "stored_task (stores_rt s) k0 = Some t0" "expired_claimable (worker_claim_options r now) t0 \<or> ready_claimable (worker_claim_options r now) t0"
  shows "\<exists>t kind ev. ClaimTask (memory_stores rng1 rng2 rng3) now eid
      \<lparr>WorkerID_ci = workerID_rt r, Workflow_ci = workflow_rt r, LeaseDuration_ci = leaseDuration_rt r\<rparr> s =
      (Inr (withLeaseToken (claimed (worker_claim_options r now) kind t)),
       s\<lparr>stores_rt := commit (ID t) (claimed (worker_claim_options r now) kind t) ev (stores_rt s),
         metrics_rt := metrics_rt s @ [RecordTaskClaimed (Workflow (claimed (worker_claim_options r now) kind t))]\<rparr>) \<and>
    stored_task (stores_rt s) (ID t) = Some t \<and> claimable (worker_claim_options r now) kind t \<and> ID_ev ev = eid"
proof -
  let ?o = "worker_claim_options r now"
  have w: "TrimSpace (workerID_rt r) \<noteq> []" "TrimSpace (workflow_rt r) = workflow_rt r" "workflow_rt r \<noteq> []" "0 < leaseDuration_rt r"
    using assms(5) by (simp_all add: worker_ok_def)
  then have v: "Validate_claim ?o = None"
    using assms(6) by (auto simp: Validate_claim_def worker_claim_options_def IsZero_def TrimSpace_Nil)
  have m: "MarshalTime (Now_co ?o + LeaseDuration_co ?o) \<noteq> None"
    using assms(7) by (simp add: worker_claim_options_def time_ok_def Add_time_def)
  obtain u m' where c: "ClaimNextWithEvent rng1 rng2 None ?o eid (stores_rt s) = (Inr u, m')"
    using claim_succeeds [OF assms(2-4) v assms(8,9) m assms(10,11)] by blast
  from c assms(3,4,2) obtain t kind ev where t: "u = claimed ?o kind t" "stored_task (stores_rt s) (ID t) = Some t" "claimable ?o kind t"
    "NewTaskClaimedEvent eid (Some (claimed ?o kind t)) kind now = Inr ev" "m' = commit (ID t) (claimed ?o kind t) ev (stores_rt s)"
    by (cases rule: ClaimNextWithEvent_cases) (auto simp: worker_claim_options_def)
  have "ID_ev ev = eid" using t(4) by (auto simp: NewTaskClaimedEvent_def NewTaskEvent_def split: sum.splits prod.splits if_splits)
  moreover have "ClaimTask (memory_stores rng1 rng2 rng3) now eid
      \<lparr>WorkerID_ci = workerID_rt r, Workflow_ci = workflow_rt r, LeaseDuration_ci = leaseDuration_rt r\<rparr> s =
      (Inr (withLeaseToken u), s\<lparr>stores_rt := m', metrics_rt := metrics_rt s @ [RecordTaskClaimed (Workflow u)]\<rparr>)"
    using w assms(1) c by (simp add: ClaimTask_def bind_def memory_idle effect_def ret_def worker_claim_options_def)
  ultimately show ?thesis using t by blast
qed

context remote_session
begin

lemma claim_holder:
  assumes s: "idle s" "stores_wf (stores_rt s)" "\<forall>k t. stored_task (stores_rt s) k = Some t \<longrightarrow> carried t"
    and r: "worker_ok r" "envs_ok envs (leaseDuration_rt r)" "fresh_from envs n s"
    and cand: "stored_task (stores_rt s) k0 = Some t0"
      "expired_claimable (worker_claim_options r (now1_he (envs n))) t0 \<or> ready_claimable (worker_claim_options r (now1_he (envs n))) t0"
  shows "\<exists>t s1. Claim_client c
      \<lparr>WorkerID_xc = workerID_rt r, Workflow_xc = workflow_rt r, LeaseDuration_xc = leaseDuration_rt r\<rparr> (s, n) =
      (Inr (client_view (withLeaseToken t)), (s1, Suc n)) \<and>
    leased s1 t \<and> LeaseExpiresAt t = Some (Add_time (now1_he (envs n)) (leaseDuration_rt r)) \<and>
    LeaseOwner t = workerID_rt r \<and> Workflow t = workflow_rt r \<and> unat (Version t) \<le> 2 ^ 63 \<and> TrimSpace (ID t) \<noteq> [] \<and>
    fresh_from envs (Suc n) s1"
    (is "\<exists>t s1. Claim_client c ?q (s, n) = _ \<and> _")
proof -
  let ?o = "worker_claim_options r (now1_he (envs n))" and ?h = "memory_handler rng clock lenient secret"
  have w: "valid_utf8 (workerID_rt r)" "valid_utf8 (workflow_rt r)" "0 < leaseDuration_rt r" "in_i64 (leaseDuration_rt r)"
    "length (workerID_rt r) \<le> 1000" "length (workflow_rt r) \<le> 1000" "TrimSpace (workerID_rt r) \<noteq> []" "workflow_rt r \<noteq> []"
    using r(1) by (simp_all add: worker_ok_def)
  have e: "now1_he (envs n) \<noteq> 0" "time_ok (Add_time (now1_he (envs n)) (leaseDuration_rt r))" "eventID_he (envs n) \<noteq> []"
    "\<not> event_known (stores_rt s) (eventID_he (envs n))" "time_ok (now1_he (envs n))"
    using r(2,3) by (simp_all add: envs_ok_def fresh_from_def)
  let ?s0 = "claim_metric ?h (RecordClaimAttempt (workflow_rt r)) s"
  have s0: "?s0 = s\<lparr>metrics_rt := metrics_rt s @ [RecordClaimAttempt (workflow_rt r)]\<rparr>"
    using s(1) by (simp add: claim_metric_def memory_handler_def Let_def WithClaimMetrics_def memory_idle)
  then have i0: "idle ?s0" "stores_rt ?s0 = stores_rt s" using s(1) by simp_all
  have s0': "stores_wf (stores_rt ?s0)" "\<not> event_known (stores_rt ?s0) (eventID_he (envs n))"
    "stored_task (stores_rt ?s0) k0 = Some t0"
    using s(2) e(4) cand(1) unfolding i0(2) by simp_all
  obtain t kind ev where t: "ClaimTask (memory_stores (rng 1) (rng 2) (rng 3)) (now1_he (envs n)) (eventID_he (envs n))
      \<lparr>WorkerID_ci = workerID_rt r, Workflow_ci = workflow_rt r, LeaseDuration_ci = leaseDuration_rt r\<rparr> ?s0 =
      (Inr (withLeaseToken (claimed ?o kind t)),
       ?s0\<lparr>stores_rt := commit (ID t) (claimed ?o kind t) ev (stores_rt s),
         metrics_rt := metrics_rt ?s0 @ [RecordTaskClaimed (Workflow (claimed ?o kind t))]\<rparr>)"
    "stored_task (stores_rt s) (ID t) = Some t" "claimable ?o kind t" "ID_ev ev = eventID_he (envs n)"
    using ClaimTask_available [OF i0(1) s0'(1) order order r(1) e(1-3) s0'(2,3) cand(2), of 1 2 "rng 3"] unfolding i0(2) by blast
  let ?t = "claimed ?o kind t"
  let ?s1 = "?s0\<lparr>stores_rt := commit (ID t) ?t ev (stores_rt s),
         metrics_rt := metrics_rt ?s0 @ [RecordTaskClaimed (Workflow ?t)]\<rparr>"
  have v: "Validate_claim ?o = None" using w e(1) by (auto simp: Validate_claim_def worker_claim_options_def IsZero_def)
  have wt: "task_wf t" "carried t" using stores_wf_lookup(2) [OF s(2) t(2)] s(3) t(2) by blast+
  note cw = claimed_wf [OF wt(1) t(3) v]
  have p: "printable ?t"
    by (rule claimed_carried [OF wt(2,1) t(3) v]) (use e w in \<open>simp_all add: worker_claim_options_def\<close>)
  obtain b where b: "claim_wire ?q = Some b" "length b \<le> maxRequestBodyBytes" using claim_wire_fits [OF r(1)] by blast
  let ?claim = "ClaimTask (memory_stores (rng 1) (rng 2) (rng 3)) (now1_he (envs n)) (eventID_he (envs n))
      \<lparr>WorkerID_ci = workerID_rt r, Workflow_ci = workflow_rt r, LeaseDuration_ci = leaseDuration_rt r\<rparr>"
  have del: "delivers c ?h None (envs n) (claim_result c) (Claim_client c ?q) (claim_answer ?h (workflow_rt r) ?claim)"
    using Claim_delivers [OF linked worker_service, of ?q b None "envs n"] b w by simp
  have run: "claim_answer ?h (workflow_rt r) ?claim s = (task_answer (withLeaseToken ?t), ?s1)"
    unfolding claim_answer_def t(1) by simp
  have "Claim_client c ?q (s, n) = (Inr (client_view (withLeaseToken ?t)), (?s1, Suc n))"
    using remote_call [OF del wire, of s] task_result_answer [OF printable_token [OF p], of c other]
    unfolding run by (simp add: claim_result_def)
  moreover have wf1: "stores_wf (stores_rt ?s1)" using keeps_wf [OF del s(1,2) run] .
  moreover have f: "ID ?t = ID t" "LeaseOwner ?t = workerID_rt r" "Workflow ?t = workflow_rt r"
    using cw(2,7) t(3) w(8) by (auto simp: task_frame_def worker_claim_options_def claimable_def expired_claimable_def ready_claimable_def workflow_skip_def)
  moreover have ver: "unat (Version ?t) = unat (Version t) + 1" "unat (Version t) < 2 ^ 63"
    using wt(2) unfolding cw(3) carried_def by (auto simp: unat_plus_if')
  moreover have "token_ok ?t"
    using cw(1) f ver wt(2) w(1,7) by (auto simp: token_ok_def carried_def printable_def task_wf_def)
  ultimately have "leased ?s1 ?t"
    using p cw(4) w(5,7) wt(2) i0(1) by (simp add: leased_def carried_def)
  moreover have "fresh_from envs (Suc n) ?s1"
    using r(2,3) t(4) unfolding fresh_from_def envs_ok_def inj_def
    by (auto simp: put_event_def) (metis Suc_n_not_le_n)+
  ultimately show ?thesis
    using \<open>Claim_client c ?q (s, n) = _\<close> f ver wt(2) cw(8) by (intro exI [of _ ?t] exI [of _ ?s1])
      (simp add: worker_claim_options_def Add_time_def carried_def)
qed

text \<open>
  One round of the runtime: it claims a task, runs it and completes it.
\<close>

lemma round_completes:
  assumes s: "idle s" "stores_wf (stores_rt s)" "\<forall>k t. stored_task (stores_rt s) k = Some t \<longrightarrow> carried t"
    and r: "worker_ok r" "envs_ok envs (leaseDuration_rt r)" "fresh_from envs n s" "client_rt r = client_api c"
      "executors_rt r (workflow_rt r) \<noteq> None"
    and cand: "stored_task (stores_rt s) k0 = Some t0"
      "expired_claimable (worker_claim_options r (now1_he (envs n))) t0 \<or> ready_claimable (worker_claim_options r (now1_he (envs n))) t0"
    and time: "timely envs (leaseDuration_rt r) (Add_time (now1_he (envs n)) (leaseDuration_rt r)) (Suc n) rounds"
      "length rounds < 2 ^ 62"
    and result: "raw_ok (Output_wr result)" "raw_ok (ResultRef_wr result)"
      "length (Output_wr result) + length (ResultRef_wr result) \<le> 500000"
  shows "\<exists>tid u s1. Run_runtime isPrint r [\<lparr>startDone_rd = False, waitDone_rd = waitDone,
       execution_rd = \<lparr>before_er = concat (map round_steps rounds), wakeup_er = ExecutionDone (Inr result) False, after_er = [],
         failDone_er = failDone\<rparr>, endDone_rd = endDone\<rparr>] failures (s, n) =
      (None, [], (s1, n + length rounds + 2)) \<and>
    stores_wf (stores_rt s1) \<and> stored_task (stores_rt s1) tid = Some u \<and> Workflow u = workflow_rt r \<and>
    Status u = TaskStatusSucceeded \<and>
    Result u = (if ResultRef_wr result \<noteq> [] then ResultRef_wr result
      else if Output_wr result \<noteq> [] then Output_wr result else ''{}'')"
proof -
  obtain t s1 where t: "Claim_client c
      \<lparr>WorkerID_xc = workerID_rt r, Workflow_xc = workflow_rt r, LeaseDuration_xc = leaseDuration_rt r\<rparr> (s, n) =
      (Inr (client_view (withLeaseToken t)), (s1, Suc n))" "leased s1 t"
    "LeaseExpiresAt t = Some (Add_time (now1_he (envs n)) (leaseDuration_rt r))" "LeaseOwner t = workerID_rt r"
    "Workflow t = workflow_rt r" "unat (Version t) \<le> 2 ^ 63" "TrimSpace (ID t) \<noteq> []" "fresh_from envs (Suc n) s1"
    using claim_holder [OF s r(1-3) cand] by blast
  have w: "0 < leaseDuration_rt r" "in_i64 (leaseDuration_rt r)" using r(1) by (simp_all add: worker_ok_def)
  have o: "LeaseOwner t \<noteq> []" "Status t = TaskStatusRunning" using t(2) by (auto simp: leased_def token_ok_def)
  have "unat (Version t) + length rounds + 1 < 2 ^ 64" using t(6) time(2) by simp
  from execution_completes [where isPrint = isPrint and failDone = failDone, OF r(4) t(4) [symmetric] w _ r(2) t(8,2,3) this time(1) result] r(5) t(5)
  obtain s2 u where u: "execute isPrint r (client_view (withLeaseToken t))
      \<lparr>before_er = concat (map round_steps rounds), wakeup_er = ExecutionDone (Inr result) False, after_er = [],
       failDone_er = failDone\<rparr> (s1, Suc n) = (None, (s2, Suc (Suc n + length rounds)))"
    "stores_wf (stores_rt s2)" "stored_task (stores_rt s2) (ID t) = Some u" "Status u = TaskStatusSucceeded" "Workflow u = Workflow t"
    "Result u = (if ResultRef_wr result \<noteq> [] then ResultRef_wr result
      else if Output_wr result \<noteq> [] then Output_wr result else ''{}'')" by auto
  have "validateClaimedTask isPrint r (client_view (withLeaseToken t)) = None"
    using t(5,7) o client_view_token(1) [OF o(1)] makeLeaseToken_visible [of t]
    by (simp add: validateClaimedTask_def) (simp add: client_view_def withLeaseToken_def)
  with t(1,5) u r(4) show ?thesis
    by (intro exI [of _ "ID t"] exI [of _ u] exI [of _ s2]) (simp add: client_api_def)
qed

end

section \<open>Outages\<close>

text \<open>An error of the network, not of a canceled context.\<close>

definition network_error :: "error \<Rightarrow> bool" where
  "network_error e \<longleftrightarrow> \<not> errors_Is e ContextCanceled \<and> \<not> errors_Is e ClientErrNoTaskAvailable \<and> As_HTTPError e = None"

lemma claim_lost:
  assumes "connected c h" "workerTaskService_h h = Some ws" "worker_ok r" "client_rt r = client_api c"
    "Do_c c = serve_wire (baseURL c) h page other envs (\<lambda>_. RequestLost e)" "network_error e"
  shows "claim_unavailable r (\<lambda>sn. fst sn = s)"
  unfolding claim_unavailable_def
proof (intro allI impI)
  fix sn :: "'a \<times> nat" assume sn: "fst sn = s"
  let ?q = "\<lparr>WorkerID_xc = workerID_rt r, Workflow_xc = workflow_rt r, LeaseDuration_xc = leaseDuration_rt r\<rparr>"
  obtain n where n: "sn = (s, n)" using sn by (cases sn) simp
  obtain b where b: "claim_wire ?q = Some b" "length b \<le> maxRequestBodyBytes" using claim_wire_fits [OF assms(3)] by blast
  let ?e = "Wrap ''call taskpulse: '' (UrlError ''Post'' e) []"
  have "Claim_client c ?q (s, n) = (claim_result c (Inl (UrlError ''Post'' e)), (s, Suc n))"
    using assms(3) b by (intro remote_call_lost(1) [OF Claim_delivers [OF assms(1,2)] assms(5)]) (auto simp: worker_ok_def)
  also have "claim_result c (Inl (UrlError ''Post'' e)) = Inl ?e"
    using assms(6) by (simp add: claim_result_def task_result_def decode_response_def network_error_def)
  finally have "Claim_wa (client_rt r) ?q sn = (Inl ?e, (s, Suc n))" by (simp add: n assms(4) client_api_def)
  moreover have "isRetryableClaimError ?e" "\<not> errors_Is ?e ClientErrNoTaskAvailable"
    using assms(6) by (auto simp: isRetryableClaimError_def network_error_def)
  ultimately show "\<exists>e s1. Claim_wa (client_rt r) ?q sn = (Inl e, s1) \<and> fst s1 = s \<and>
      \<not> errors_Is e ClientErrNoTaskAvailable \<and> isRetryableClaimError e"
    by (intro exI [of _ ?e] exI [of _ "(s, Suc n)"]) simp
qed

section \<open>The client of a server with memory stores\<close>

text \<open>
  The client of a worker program (\<open>BaseURL\<close> and \<open>WorkerAuthToken\<close> set), over a network that
  delivers every request.
\<close>

definition memory_client ::
  "string \<Rightarrow> (nat \<Rightarrow> task_range) \<Rightarrow> time \<Rightarrow> (string \<Rightarrow> time option) \<Rightarrow> string \<Rightarrow> (http_body \<Rightarrow> string) \<Rightarrow> (nat \<Rightarrow> http_env) \<Rightarrow>
     (runtime \<times> nat) Client" where
  "memory_client base rng clock lenient secret other envs =
     \<lparr>BaseURL_c = base, WorkerAuthToken_c = secret, envToken_c = [], NewRequest_c = (\<lambda>_. None),
      Do_c = serve_wire (TrimRight (TrimSpace base) (CHR ''/'')) (memory_handler rng clock lenient secret) None other envs
        (\<lambda>_. Delivered),
      lenient_c = lenient\<rparr>"

lemma memory_session:
  assumes "\<And>i. range_order (rng i)" "TrimRight (TrimSpace base) (CHR ''/'') \<noteq> []"
  shows "remote_session (memory_client base rng clock lenient secret other envs) rng clock lenient secret other envs"
  by unfold_locales
    (use assms in \<open>simp_all add: memory_client_def connected_def baseURL_def workerHeaders_def Let_def memory_handler_def
       WithClaimMetrics_def WithWorkerAuthToken_def\<close>)

lemma local_base: "TrimRight (TrimSpace ''http://localhost:8080'') (CHR ''/'') = ''http://localhost:8080''"
proof -
  have "TrimSpace ''http://localhost:8080'' = ''http://localhost:8080''"
    by (rule TrimSpace_visible) (simp_all add: visible_def)
  then show ?thesis by (simp add: TrimRight_def)
qed

interpretation mem_session: remote_session "memory_client ''http://localhost:8080'' (\<lambda>_ m. m) clock lenient secret other envs"
  "\<lambda>_ m. m" clock lenient secret other envs
  for clock lenient secret other envs
  by (rule memory_session) (simp_all add: local_base)

end
