(* ===== verification/RemoteSamples.thy ===== *)
theory RemoteSamples
  imports RemoteRuns
begin

text \<open>
  A worker \<open>w1\<close> for the workflow \<open>demo\<close>, and the surroundings of a server it talks to, to which
  the properties of the libraries are applied.
\<close>

definition sample_envs :: "nat \<Rightarrow> http_env" where
  "sample_envs n = sample_http_env\<lparr>eventID_he := ''e'' @ show_nat n\<rparr>"

abbreviation sample_client :: "(runtime \<times> nat) Client" where
  "sample_client \<equiv> memory_client ''http://localhost:8080'' (\<lambda>_ m. m) 0 (\<lambda>_. None) ''secret'' (\<lambda>_. []) sample_envs"

definition sample_worker_runtime :: "(runtime \<times> nat, unit) Runtime" where
  "sample_worker_runtime =
     \<lparr>client_rt = client_api sample_client, workerID_rt = ''w1'', workflow_rt = ''demo'', leaseDuration_rt = 30 * Second,
      pollInterval_rt = Second, claimRetryMaxInterval_rt = 5 * Second, heartbeatInterval_rt = 10 * Second,
      executionTimeout_rt = 0, shutdownTimeout_rt = 5 * Second, executors_rt = [''demo'' \<mapsto> ()]\<rparr>"

definition sample_result :: WorkerResult where
  "sample_result = \<lparr>Output_wr = ''null'', ResultRef_wr = []\<rparr>"

lemma sample_times: "time_ok 10" "time_ok 20" "time_ok 50" "time_ok 60" "time_ok 100" "time_ok (Add_time 50 (30 * Second))"
  by (simp_all add: time_ok_def MarshalTime_def year_of_def year_yday_def Let_def ns_per_day_def Add_time_def Second_def)

lemma sample_envs_ok: "envs_ok sample_envs (30 * Second)"
  using sample_times by (auto simp: envs_ok_def sample_envs_def sample_http_env_def inj_def show_nat_inj)

lemma sample_event_fresh: "''e'' @ show_nat n \<noteq> ''event_1''" "''e'' @ show_nat n \<noteq> ''event_2''"
  using show_nat_digits [of n] by (auto simp: is_digit_def)

lemma sample_fresh: "fresh_from sample_envs n sample_runtime" "fresh_from sample_envs n leased_runtime"
  using sample_event_fresh
  by (auto simp: fresh_from_def sample_envs_def leased_stores_def sample_stores_eq NewMemoryEventStore_def put_event_def
      sample_event_def leased_event_def)

lemma sample_ascii: "valid_utf8 ''w1''" "valid_utf8 ''demo''" "valid_utf8 ''task_1''" "valid_utf8 ''half''" "valid_utf8 ''queued''"
  "valid_utf8 ''running''" "valid_utf8 ''k''" "valid_utf8 []"
  by (intro valid_utf8_ascii; simp add: byte_in_def)+

lemma sample_trim: "TrimSpace ''w1'' = ''w1''" "TrimSpace ''demo'' = ''demo''" "TrimSpace ''task_1'' = ''task_1''"
  by (rule TrimSpace_visible; simp add: visible_def)+

lemma sample_raw: "raw_ok ''{}''" "raw_ok ''null''" "raw_ok []"
  unfolding raw_ok_def
  by (rule disjI2, rule exI [of _ "JObject []"], simp add: max_nesting_def)
    (rule disjI2, rule exI [of _ JNull], simp_all add: max_nesting_def)

lemma sample_worker_ok: "worker_ok sample_worker_runtime"
  using sample_ascii sample_trim by (simp add: worker_ok_def sample_worker_runtime_def Second_def in_i64_def)

lemma sample_printable: "printable sample_task" "printable leased_task"
  using sample_ascii sample_raw sample_times
  by (simp_all add: printable_def leased_task_def sample_task_def in_i64_def)

lemma sample_carried: "stored_task sample_stores k = Some t \<Longrightarrow> carried t"
  using sample_printable(1) sample_trim(3)
  by (auto simp: sample_stores_eq carried_def put_task_def NewMemoryTaskStore_def put_key_def addressable_def sample_task_def split: if_splits)

lemma sample_leased: "leased leased_runtime leased_task"
  using leased_holder [of 50] sample_printable(2)
  by (simp add: leased_def holds_lease_def) (simp add: addressable_def leased_task_def sample_task_def)

section \<open>A server that cannot be reached\<close>

definition refused :: error where
  "refused = ErrNew ''connection refused''"

definition lost_client :: "(runtime \<times> nat) Client" where
  "lost_client = sample_client\<lparr>Do_c := serve_wire ''http://localhost:8080'' (memory_handler (\<lambda>_ m. m) 0 (\<lambda>_. None) ''secret'')
     None (\<lambda>_. []) sample_envs (\<lambda>_. RequestLost refused)\<rparr>"

definition lost_config :: "(runtime \<times> nat) Config" where
  "lost_config = \<lparr>Client_cf = Some (client_api lost_client), WorkerID_cf = ''w1'', Workflow_cf = ''demo'', LeaseDuration_cf = 0,
     PollInterval_cf = 0, ClaimRetryMaxInterval_cf = 0, HeartbeatInterval_cf = 0, ExecutionTimeout_cf = 0, ShutdownTimeout_cf = 0\<rparr>"

definition waiting_round :: worker_round where
  "waiting_round = \<lparr>startDone_rd = False, waitDone_rd = False,
     execution_rd = \<lparr>before_er = [], wakeup_er = ParentDone, after_er = [], failDone_er = False\<rparr>, endDone_rd = False\<rparr>"

definition sample_claim_call :: worker_call where
  "sample_claim_call = ClaimCall \<lparr>WorkerID_xc = ''w1'', Workflow_xc = ''demo'', LeaseDuration_xc = 30 * Second\<rparr>"

lemma network_refused: "network_error refused"
  by (simp add: network_error_def refused_def)

lemma lost_base: "baseURL lost_client = ''http://localhost:8080''"
  by (simp add: baseURL_def lost_client_def memory_client_def local_base)

lemma lost_connected: "connected lost_client (memory_handler (\<lambda>_ m. m) 0 (\<lambda>_. None) ''secret'')"
  using lost_base sample_secret
  by (simp add: connected_def) (simp add: lost_client_def memory_client_def workerHeaders_def Let_def memory_handler_def
      WithClaimMetrics_def WithWorkerAuthToken_def)

lemma lost_wire: "Do_c lost_client = serve_wire (baseURL lost_client) (memory_handler (\<lambda>_ m. m) 0 (\<lambda>_. None) ''secret'')
    None (\<lambda>_. []) sample_envs (\<lambda>_. RequestLost refused)"
  unfolding lost_base by (simp add: lost_client_def)

lemma sample_sendable: "sendable sample_claim_call"
  using claim_wire_fits [OF sample_worker_ok] sample_ascii
  by (auto simp: sendable_def sample_claim_call_def sample_worker_runtime_def Second_def in_i64_def)

end
