(* ===== verification/Sql.thy ===== *)
theory Sql
  imports Domain Ops Quote
begin

text \<open>
  The database as the MySQL stores use it: the two tables of \<open>migrations\<close>, the effect of the
  statements on them, and the session of \<open>database/sql\<close> through which the statements run.
  The server and its driver are not part of the repository.  What the stores can observe of
  them is the parameter \<open>mysql_server\<close>: how the collation of the text columns compares, how
  \<open>DATETIME(6)\<close> and \<open>JSON\<close> columns store a value, which texts a \<open>VARCHAR(n)\<close> takes, and how an
  error reads.  The effect of a statement is that of its text: \<open>WHERE\<close>, \<open>ORDER BY\<close> and \<open>LIMIT\<close>
  with the three-valued logic of \<open>NULL\<close>, unique and foreign keys, \<open>CHECK\<close> constraints.
\<close>

section \<open>The server\<close>

record mysql_server =
  eq_text :: "string \<Rightarrow> string \<Rightarrow> bool"
  less_text :: "string \<Rightarrow> string \<Rightarrow> bool"
  datetime6 :: "time \<Rightarrow> time"
  json_column :: "raw_json \<Rightarrow> raw_json option"
  fits_varchar :: "nat \<Rightarrow> string \<Rightarrow> bool"
  message_of :: "nat \<Rightarrow> string \<Rightarrow> string"
  error_string :: "nat \<Rightarrow> string \<Rightarrow> string"
  print_rune :: "nat \<Rightarrow> bool"

text \<open>
  What a call of \<open>database/sql\<close> reports: a \<open>*mysql.MySQLError\<close> with its number and message,
  any other error of the driver (a lost connection, a canceled context), or \<open>sql.ErrNoRows\<close>.
\<close>

datatype sql_error = MySQLError nat string | DriverError error | ErrNoRows

type_synonym 'a answer = "sql_error + 'a"

definition sql_cause :: "mysql_server \<Rightarrow> sql_error \<Rightarrow> error" where
  "sql_cause srv e =
     (case e of
        MySQLError n m \<Rightarrow> ErrNew (error_string srv n m)
      | DriverError x \<Rightarrow> x
      | ErrNoRows \<Rightarrow> ErrNew ''sql: no rows in result set'')"

text \<open>The error of number \<open>n\<close> about a column, key or constraint.\<close>

definition server_error :: "mysql_server \<Rightarrow> nat \<times> string \<Rightarrow> sql_error" where
  "server_error srv ns = MySQLError (fst ns) (message_of srv (fst ns) (snd ns))"

section \<open>Tables\<close>

record task_row =
  id_c :: string
  workflow_c :: string
  status_c :: string
  input_json_c :: raw_json
  result_json_c :: "raw_json option"
  error_message_c :: "string option"
  progress_c :: int
  retry_count_c :: int
  max_retries_c :: int
  available_at_c :: time
  lease_owner_c :: "string option"
  lease_expires_at_c :: "time option"
  last_heartbeat_at_c :: "time option"
  idempotency_key_c :: "string option"
  version_c :: uint64
  created_at_c :: time
  updated_at_c :: time
  started_at_c :: "time option"
  finished_at_c :: "time option"

record event_row =
  id_e :: string
  task_id_e :: string
  type_e :: string
  message_e :: string
  payload_json_e :: "raw_json option"
  progress_e :: int
  created_at_e :: time

record tables =
  task_rows :: "task_row list"
  event_rows :: "event_row list"

definition unsigned :: "nat \<Rightarrow> int \<Rightarrow> bool" where
  "unsigned n x \<longleftrightarrow> 0 \<le> x \<and> x < 2 ^ n"

text \<open>
  The first constraint of the table that a row violates: the error number, and the column or
  constraint it names.  The columns of \<open>tasks\<close> are those of the migrations 1, 2 and 6.
\<close>

definition task_violation :: "mysql_server \<Rightarrow> task_row \<Rightarrow> (nat \<times> string) option" where
  "task_violation srv r =
     (if \<not> fits_varchar srv 64 (id_c r) then Some (1406, ''id'')
      else if \<not> fits_varchar srv 64 (workflow_c r) then Some (1406, ''workflow'')
      else if \<not> fits_varchar srv 32 (status_c r) then Some (1406, ''status'')
      else if (case error_message_c r of None \<Rightarrow> False | Some m \<Rightarrow> 65535 < length m) then Some (1406, ''error_message'')
      else if (case lease_owner_c r of None \<Rightarrow> False | Some m \<Rightarrow> \<not> fits_varchar srv 128 m) then Some (1406, ''lease_owner'')
      else if (case idempotency_key_c r of None \<Rightarrow> False | Some m \<Rightarrow> 128 < length m) then Some (1406, ''idempotency_key'')
      else if \<not> unsigned 8 (progress_c r) then Some (1264, ''progress'')
      else if \<not> unsigned 32 (retry_count_c r) then Some (1264, ''retry_count'')
      else if \<not> unsigned 32 (max_retries_c r) then Some (1264, ''max_retries'')
      else if \<not> progress_c r \<le> 100 then Some (3819, ''chk_tasks_progress'')
      else if \<not> retry_count_c r \<le> max_retries_c r then Some (3819, ''chk_tasks_retry_count'')
      else None)"

definition event_violation :: "mysql_server \<Rightarrow> event_row \<Rightarrow> (nat \<times> string) option" where
  "event_violation srv r =
     (if \<not> fits_varchar srv 64 (id_e r) then Some (1406, ''id'')
      else if \<not> fits_varchar srv 64 (task_id_e r) then Some (1406, ''task_id'')
      else if \<not> fits_varchar srv 64 (type_e r) then Some (1406, ''type'')
      else if 65535 < length (message_e r) then Some (1406, ''message'')
      else if \<not> unsigned 8 (progress_e r) then Some (1264, ''progress'')
      else if \<not> progress_e r \<le> 100 then Some (3819, ''chk_task_events_progress'')
      else None)"

section \<open>Statements\<close>

text \<open>
  The value of a \<open>JSON\<close> column: \<open>NULL\<close>, or the text as the server stores it; error 3140 when
  it is not JSON.
\<close>

definition json_value :: "mysql_server \<Rightarrow> string \<Rightarrow> raw_json option \<Rightarrow> raw_json option answer" where
  "json_value srv column v =
     (case v of
        None \<Rightarrow> Inr None
      | Some raw \<Rightarrow>
          (case json_column srv raw of
             None \<Rightarrow> Inl (server_error srv (3140, column))
           | Some j \<Rightarrow> Inr (Some j)))"

text \<open>\<open>INSERT\<close>: the constraints of the row, then the primary key, then the other keys.\<close>

definition same_key :: "mysql_server \<Rightarrow> task_row \<Rightarrow> task_row \<Rightarrow> bool" where
  "same_key srv r q \<longleftrightarrow>
     eq_text srv (workflow_c q) (workflow_c r) \<and> idempotency_key_c r \<noteq> None \<and>
     idempotency_key_c q = idempotency_key_c r"

definition insert_task_row :: "mysql_server \<Rightarrow> task_row \<Rightarrow> tables \<Rightarrow> unit answer \<times> tables" where
  "insert_task_row srv r d =
     (case task_violation srv r of
        Some v \<Rightarrow> (Inl (server_error srv v), d)
      | None \<Rightarrow>
          if list_ex (\<lambda>q. eq_text srv (id_c q) (id_c r)) (task_rows d)
          then (Inl (server_error srv (1062, ''tasks.PRIMARY'')), d)
          else if list_ex (same_key srv r) (task_rows d)
          then (Inl (server_error srv (1062, ''tasks.uk_tasks_workflow_idempotency'')), d)
          else (Inr (), d\<lparr>task_rows := task_rows d @ [r]\<rparr>))"

definition insert_event_row :: "mysql_server \<Rightarrow> event_row \<Rightarrow> tables \<Rightarrow> unit answer \<times> tables" where
  "insert_event_row srv r d =
     (case event_violation srv r of
        Some v \<Rightarrow> (Inl (server_error srv v), d)
      | None \<Rightarrow>
          if list_ex (\<lambda>q. eq_text srv (id_e q) (id_e r)) (event_rows d)
          then (Inl (server_error srv (1062, ''task_events.PRIMARY'')), d)
          else if \<not> list_ex (\<lambda>q. eq_text srv (id_c q) (task_id_e r)) (task_rows d)
          then (Inl (server_error srv (1452, ''fk_task_events_task'')), d)
          else (Inr (), d\<lparr>event_rows := event_rows d @ [r]\<rparr>))"

text \<open>
  \<open>UPDATE tasks SET ... WHERE ...\<close>.  The connection does not set \<open>ClientFoundRows\<close>, so the count
  is that of the rows the statement changes.  No statement of the program changes a key.
\<close>

fun update_rows ::
  "mysql_server \<Rightarrow> (task_row \<Rightarrow> bool) \<Rightarrow> (task_row \<Rightarrow> (nat \<times> string) + task_row) \<Rightarrow> task_row list \<Rightarrow>
     (nat \<times> task_row list) answer" where
  "update_rows srv keep chg [] = Inr (0, [])"
| "update_rows srv keep chg (r # rs) =
     (if \<not> keep r then map_sum id (map_prod id ((#) r)) (update_rows srv keep chg rs)
      else
        (case chg r of
           Inl v \<Rightarrow> Inl (server_error srv v)
         | Inr r' \<Rightarrow>
             (case task_violation srv r' of
                Some v \<Rightarrow> Inl (server_error srv v)
              | None \<Rightarrow>
                  map_sum id (map_prod (\<lambda>n. if r' = r then n else Suc n) ((#) r')) (update_rows srv keep chg rs))))"

definition update_tasks ::
  "mysql_server \<Rightarrow> (task_row \<Rightarrow> bool) \<Rightarrow> (task_row \<Rightarrow> (nat \<times> string) + task_row) \<Rightarrow> tables \<Rightarrow>
     nat answer \<times> tables" where
  "update_tasks srv keep chg d =
     (case update_rows srv keep chg (task_rows d) of
        Inl e \<Rightarrow> (Inl e, d)
      | Inr (n, rs) \<Rightarrow> (Inr n, d\<lparr>task_rows := rs\<rparr>))"

text \<open>\<open>version = version + 1\<close> on a \<open>BIGINT UNSIGNED\<close> column is an error at its maximum.\<close>

definition bump_version :: "task_row \<Rightarrow> (nat \<times> string) + task_row" where
  "bump_version r =
     (if version_c r = - 1 then Inl (1690, ''version'') else Inr (r\<lparr>version_c := version_c r + 1\<rparr>))"

text \<open>\<open>SELECT ... WHERE ... ORDER BY key, created_at, id LIMIT 1\<close>.\<close>

definition row_before :: "mysql_server \<Rightarrow> (task_row \<Rightarrow> time) \<Rightarrow> task_row \<Rightarrow> task_row \<Rightarrow> bool" where
  "row_before srv key r q \<longleftrightarrow>
     key r < key q \<or>
     (key r = key q \<and> (created_at_c r < created_at_c q \<or>
       (created_at_c r = created_at_c q \<and> less_text srv (id_c r) (id_c q))))"

definition first_row ::
  "mysql_server \<Rightarrow> (task_row \<Rightarrow> bool) \<Rightarrow> (task_row \<Rightarrow> time) \<Rightarrow> tables \<Rightarrow> task_row answer \<times> tables" where
  "first_row srv keep key d =
     (case scan_best keep (row_before srv key) (task_rows d) None of
        None \<Rightarrow> (Inl ErrNoRows, d)
      | Some r \<Rightarrow> (Inr r, d))"

text \<open>\<open>SELECT\<close> of one row by a unique key.\<close>

definition one_row :: "(task_row \<Rightarrow> bool) \<Rightarrow> tables \<Rightarrow> task_row answer \<times> tables" where
  "one_row keep d =
     (case find keep (task_rows d) of None \<Rightarrow> (Inl ErrNoRows, d) | Some r \<Rightarrow> (Inr r, d))"

section \<open>Sessions and transactions\<close>

text \<open>
  A session is the tables and what is still to happen to the calls of the operation: each call
  of the driver takes the next \<open>arrival\<close>.  A fault is an error that the driver reports instead
  of the answer, and \<open>applied\<close> tells whether the server had executed the call when it was lost;
  \<open>late_fault\<close> is an error of \<open>RowsAffected\<close> or of the iteration over the rows of an answer.  Before a statement outside a transaction, and
  before \<open>BEGIN\<close>, the other clients act.  A transaction is isolated: from its first statement to
  its end only its own statements change the tables, and its \<open>SKIP LOCKED\<close> queries pass over the
  rows that other transactions hold (\<open>locked\<close>).  With no arrivals left, calls succeed undisturbed.
\<close>

record arrival =
  fault_ar :: "sql_error option"
  applied_ar :: bool
  late_fault_ar :: "sql_error option"
  others_ar :: "tables \<Rightarrow> tables"
  locked_ar :: "string \<Rightarrow> bool"

definition quiet :: arrival where
  "quiet = \<lparr>fault_ar = None, applied_ar = False, late_fault_ar = None, others_ar = (\<lambda>d. d),
     locked_ar = (\<lambda>_. False)\<rparr>"

record session =
  tables_se :: tables
  arrivals_se :: "arrival list"
  locked_se :: "string \<Rightarrow> bool"

definition start_session :: "tables \<Rightarrow> session" where
  "start_session d = \<lparr>tables_se = d, arrivals_se = [], locked_se = (\<lambda>_. False)\<rparr>"

definition next_arrival :: "session \<Rightarrow> arrival \<times> session" where
  "next_arrival s =
     (case arrivals_se s of [] \<Rightarrow> (quiet, s) | a # rest \<Rightarrow> (a, s\<lparr>arrivals_se := rest\<rparr>))"

text \<open>Whether a statement runs on the \<open>*sql.DB\<close> or in a \<open>*sql.Tx\<close>.\<close>

datatype executor = ExecDB | ExecTx

definition statement ::
  "executor \<Rightarrow> (tables \<Rightarrow> 'a answer \<times> tables) \<Rightarrow> (session, 'a answer) op" where
  "statement ex f s =
     (case next_arrival s of (a, s1) \<Rightarrow>
        let d = (if ex = ExecDB then others_ar a (tables_se s1) else tables_se s1) in
        (case fault_ar a of
           None \<Rightarrow> (Inr (fst (f d)), s1\<lparr>tables_se := snd (f d)\<rparr>)
         | Some e \<Rightarrow> (Inr (Inl e), s1\<lparr>tables_se := (if applied_ar a then snd (f d) else d)\<rparr>)))"

text \<open>
  A call whose answer is read afterwards: \<open>ExecContext\<close> and then \<open>RowsAffected\<close>, or \<open>QueryContext\<close>
  and then the iteration over the rows.
\<close>

definition late_statement ::
  "executor \<Rightarrow> (tables \<Rightarrow> 'a answer \<times> tables) \<Rightarrow> (session, 'a answer answer) op" where
  "late_statement ex f s =
     (case statement ex f s of
        (Inl e, s1) \<Rightarrow> (Inl e, s1)
      | (Inr (Inl e), s1) \<Rightarrow> (Inr (Inl e), s1)
      | (Inr (Inr x), s1) \<Rightarrow>
          (Inr (Inr (case late_fault_ar (fst (next_arrival s)) of None \<Rightarrow> Inr x | Some e \<Rightarrow> Inl e)), s1))"

text \<open>
  \<open>BeginTx\<close>, the body, and its end: \<open>Commit\<close> with the value of the body, \<open>Rollback\<close> with a value,
  or \<open>Rollback\<close> because the body failed.  \<open>begin_text\<close> and \<open>commit_text\<close> start the messages of the
  errors of the two calls.
\<close>

datatype 'a tx_end = Commit 'a | Rollback 'a

definition in_tx ::
  "mysql_server \<Rightarrow> string \<Rightarrow> ('a \<Rightarrow> string) \<Rightarrow> (session, 'a tx_end) op \<Rightarrow> (session, 'a) op" where
  "in_tx srv begin_text commit_text body s =
     (case next_arrival s of (a, s1) \<Rightarrow>
        let s2 = s1\<lparr>tables_se := others_ar a (tables_se s1), locked_se := locked_ar a\<rparr> in
        (case fault_ar a of
           Some e \<Rightarrow> (Inl (Wrap begin_text (sql_cause srv e) []), s2)
         | None \<Rightarrow>
             (case body s2 of
                (Inl e, s3) \<Rightarrow> (Inl e, s3\<lparr>tables_se := tables_se s2\<rparr>)
              | (Inr (Rollback x), s3) \<Rightarrow> (Inr x, s3\<lparr>tables_se := tables_se s2\<rparr>)
              | (Inr (Commit x), s3) \<Rightarrow>
                  (case next_arrival s3 of (b, s4) \<Rightarrow>
                     (case fault_ar b of
                        None \<Rightarrow> (Inr x, s4)
                      | Some e \<Rightarrow> (Inl (Wrap (commit_text x) (sql_cause srv e) []),
                          s4\<lparr>tables_se := (if applied_ar b then tables_se s4 else tables_se s2)\<rparr>))))))"

text \<open>\<open>strings.Contains\<close>.\<close>

fun Contains :: "string \<Rightarrow> string \<Rightarrow> bool" where
  "Contains [] p = (p = [])"
| "Contains (c # s) p = (HasPrefix (c # s) p \<or> Contains s p)"

end
