(* ===== verification/MySqlStore.thy ===== *)
theory MySqlStore
  imports Sql TransitionStore
begin

text \<open>
  Package \<open>mysqlstore\<close>: the task store, the event store and the stores that change a task and
  append its event in one transaction, statement by statement.  An operation runs on a
  \<open>session\<close>.  The names of the memory stores are taken, so the operations end in \<open>_my\<close>.
\<close>

section \<open>Columns\<close>

definition nullableJSON :: "raw_json \<Rightarrow> raw_json option" where
  "nullableJSON v = (if v = [] then None else Some v)"

definition nullableString :: "string \<Rightarrow> string option" where
  "nullableString v = (if v = [] then None else Some v)"

definition nullableTime :: "mysql_server \<Rightarrow> time option \<Rightarrow> time option" where
  "nullableTime srv v = map_option (datetime6 srv) v"

definition timePointer :: "time option \<Rightarrow> time option" where
  "timePointer v = v"

text \<open>\<open>json.Compact\<close>: white space outside strings goes, nothing else changes.\<close>

fun compact_bytes :: "bool \<Rightarrow> string \<Rightarrow> string" where
  "compact_bytes inside [] = []"
| "compact_bytes inside (c # cs) =
     (if \<not> inside \<and> is_ws c then compact_bytes False cs
      else if c = CHR 0x22 then c # compact_bytes (\<not> inside) cs
      else if inside \<and> c = CHR 0x5C then
        (case cs of [] \<Rightarrow> [c] | d # ds \<Rightarrow> c # d # compact_bytes True ds)
      else c # compact_bytes inside cs)"

definition cloneJSON :: "raw_json option \<Rightarrow> raw_json" where
  "cloneJSON v =
     (case v of
        None \<Rightarrow> []
      | Some raw \<Rightarrow> if parse_json raw = None then raw else compact_bytes False raw)"

definition null_string :: "string option \<Rightarrow> string" where
  "null_string v = (case v of None \<Rightarrow> [] | Some s \<Rightarrow> s)"

definition scanTask :: "task_row \<Rightarrow> Task" where
  "scanTask r = \<lparr>
     ID = id_c r, IdempotencyKey = null_string (idempotency_key_c r), Workflow = workflow_c r,
     Status = status_of_text (status_c r), Input = cloneJSON (Some (input_json_c r)),
     Result = cloneJSON (result_json_c r), ErrorMessage = null_string (error_message_c r),
     Progress = progress_c r, RetryCount = retry_count_c r, MaxRetries = max_retries_c r,
     AvailableAt = available_at_c r, Version = version_c r,
     LeaseOwner = null_string (lease_owner_c r), LeaseExpiresAt = timePointer (lease_expires_at_c r),
     LastHeartbeatAt = timePointer (last_heartbeat_at_c r), LeaseToken = [], TaskID = [], LeaseUntil = None,
     CreatedAt = created_at_c r, UpdatedAt = updated_at_c r, StartedAt = timePointer (started_at_c r),
     FinishedAt = timePointer (finished_at_c r)\<rparr>"

text \<open>A query for one task and the scan of its row.\<close>

definition query_task ::
  "executor \<Rightarrow> (tables \<Rightarrow> task_row answer \<times> tables) \<Rightarrow> (session, Task answer) op" where
  "query_task ex q = bind (statement ex q) (\<lambda>a. ret (map_sum id scanTask a))"

definition sql_fail :: "mysql_server \<Rightarrow> string \<Rightarrow> sql_error \<Rightarrow> (session, 'a) op" where
  "sql_fail srv pre e = raise (Wrap pre (sql_cause srv e) [])"

abbreviation quoted_id :: "mysql_server \<Rightarrow> string \<Rightarrow> string" where
  "quoted_id srv tid \<equiv> Quote (print_rune srv) tid"

section \<open>MySQLTaskStore\<close>

text \<open>The row of \<open>insertTaskQuery\<close>; the columns it does not name take their defaults.\<close>

definition insert_values :: "mysql_server \<Rightarrow> Task \<Rightarrow> task_row answer" where
  "insert_values srv t =
     (case json_value srv ''tasks.input_json'' (Some (Input t)) of
        Inl e \<Rightarrow> Inl e
      | Inr input \<Rightarrow>
          (case json_value srv ''tasks.result_json'' (nullableJSON (Result t)) of
             Inl e \<Rightarrow> Inl e
           | Inr res \<Rightarrow> Inr \<lparr>
               id_c = ID t, workflow_c = Workflow t, status_c = status_text (Status t),
               input_json_c = null_string input, result_json_c = res,
               error_message_c = nullableString (ErrorMessage t), progress_c = Progress t,
               retry_count_c = RetryCount t, max_retries_c = MaxRetries t,
               available_at_c = datetime6 srv (AvailableAt t), lease_owner_c = None,
               lease_expires_at_c = None, last_heartbeat_at_c = None,
               idempotency_key_c = nullableString (IdempotencyKey t), version_c = 0,
               created_at_c = datetime6 srv (CreatedAt t), updated_at_c = datetime6 srv (UpdatedAt t),
               started_at_c = nullableTime srv (StartedAt t), finished_at_c = nullableTime srv (FinishedAt t)\<rparr>))"

definition insertTaskQuery :: "mysql_server \<Rightarrow> Task \<Rightarrow> tables \<Rightarrow> unit answer \<times> tables" where
  "insertTaskQuery srv t d =
     (case insert_values srv t of Inl e \<Rightarrow> (Inl e, d) | Inr r \<Rightarrow> insert_task_row srv r d)"

definition insertTask :: "mysql_server \<Rightarrow> executor \<Rightarrow> Task option \<Rightarrow> (session, unit) op" where
  "insertTask srv ex task =
     (case task of
        None \<Rightarrow> raise ErrNilTask
      | Some t \<Rightarrow>
          bind (statement ex (insertTaskQuery srv t)) (\<lambda>a.
            case a of
              Inr _ \<Rightarrow> ret ()
            | Inl e \<Rightarrow>
                (case e of
                   MySQLError number message \<Rightarrow>
                     if number = 1062 then
                       if Contains message ''uk_tasks_workflow_idempotency'' \<or>
                          Contains message ''uk_tasks_idempotency_key''
                       then raise ErrIdempotencyKeyAlreadyExists
                       else raise ErrTaskAlreadyExists
                     else sql_fail srv (''insert task '' @ quoted_id srv (ID t) @ '': '') e
                 | _ \<Rightarrow> sql_fail srv (''insert task '' @ quoted_id srv (ID t) @ '': '') e)))"

definition Create_my :: "mysql_server \<Rightarrow> Task option \<Rightarrow> (session, unit) op" where
  "Create_my srv task = insertTask srv ExecDB task"

definition getTaskQuery :: "mysql_server \<Rightarrow> string \<Rightarrow> tables \<Rightarrow> task_row answer \<times> tables" where
  "getTaskQuery srv tid = one_row (\<lambda>r. eq_text srv (id_c r) tid)"

definition Get_my :: "mysql_server \<Rightarrow> string \<Rightarrow> (session, Task) op" where
  "Get_my srv tid =
     bind (query_task ExecDB (getTaskQuery srv tid)) (\<lambda>a.
       case a of
         Inr t \<Rightarrow> ret t
       | Inl e \<Rightarrow>
           if e = ErrNoRows then raise ErrTaskNotFound
           else sql_fail srv (''select task '' @ quoted_id srv tid @ '': '') e)"

definition getTaskByWorkflowAndIdempotencyKeyQuery ::
  "mysql_server \<Rightarrow> string \<Rightarrow> string \<Rightarrow> tables \<Rightarrow> task_row answer \<times> tables" where
  "getTaskByWorkflowAndIdempotencyKeyQuery srv workflow key =
     one_row (\<lambda>r. eq_text srv (workflow_c r) workflow \<and> idempotency_key_c r = Some key)"

definition getByWorkflowAndIdempotencyKey :: "mysql_server \<Rightarrow> string \<Rightarrow> string \<Rightarrow> (session, Task) op" where
  "getByWorkflowAndIdempotencyKey srv workflow key =
     bind (query_task ExecDB (getTaskByWorkflowAndIdempotencyKeyQuery srv workflow key)) (\<lambda>a.
       case a of
         Inr t \<Rightarrow> ret t
       | Inl e \<Rightarrow>
           if e = ErrNoRows then raise ErrTaskNotFound
           else sql_fail srv ''select task by idempotency key: '' e)"

subsection \<open>Claiming\<close>

definition lease_over :: "mysql_server \<Rightarrow> time \<Rightarrow> task_row \<Rightarrow> bool" where
  "lease_over srv now r \<longleftrightarrow>
     eq_text srv (status_c r) (status_text TaskStatusRunning) \<and>
     (case lease_expires_at_c r of None \<Rightarrow> False | Some l \<Rightarrow> l \<le> datetime6 srv now)"

definition waiting :: "mysql_server \<Rightarrow> task_row \<Rightarrow> bool" where
  "waiting srv r \<longleftrightarrow>
     eq_text srv (status_c r) (status_text TaskStatusQueued) \<or>
     eq_text srv (status_c r) (status_text TaskStatusRetrying)"

definition claimNextTaskQuery ::
  "mysql_server \<Rightarrow> (string \<Rightarrow> bool) \<Rightarrow> time \<Rightarrow> tables \<Rightarrow> task_row answer \<times> tables" where
  "claimNextTaskQuery srv locked now =
     first_row srv (\<lambda>r. waiting srv r \<and> available_at_c r \<le> datetime6 srv now \<and> \<not> locked (id_c r)) available_at_c"

definition claimExpiredTaskQuery ::
  "mysql_server \<Rightarrow> (string \<Rightarrow> bool) \<Rightarrow> time \<Rightarrow> tables \<Rightarrow> task_row answer \<times> tables" where
  "claimExpiredTaskQuery srv locked now =
     first_row srv (\<lambda>r. lease_over srv now r \<and> retry_count_c r < max_retries_c r \<and> \<not> locked (id_c r))
       (\<lambda>r. the (lease_expires_at_c r))"

definition claimNextTaskByWorkflowQuery ::
  "mysql_server \<Rightarrow> (string \<Rightarrow> bool) \<Rightarrow> string \<Rightarrow> time \<Rightarrow> tables \<Rightarrow> task_row answer \<times> tables" where
  "claimNextTaskByWorkflowQuery srv locked workflow now =
     first_row srv (\<lambda>r. waiting srv r \<and> eq_text srv (workflow_c r) workflow \<and> available_at_c r \<le> datetime6 srv now \<and>
         \<not> locked (id_c r))
       available_at_c"

definition claimExpiredTaskByWorkflowQuery ::
  "mysql_server \<Rightarrow> (string \<Rightarrow> bool) \<Rightarrow> string \<Rightarrow> time \<Rightarrow> tables \<Rightarrow> task_row answer \<times> tables" where
  "claimExpiredTaskByWorkflowQuery srv locked workflow now =
     first_row srv (\<lambda>r. lease_over srv now r \<and> eq_text srv (workflow_c r) workflow \<and> retry_count_c r < max_retries_c r \<and>
         \<not> locked (id_c r))
       (\<lambda>r. the (lease_expires_at_c r))"

definition expiredQuery ::
  "mysql_server \<Rightarrow> (string \<Rightarrow> bool) \<Rightarrow> ClaimOptions \<Rightarrow> tables \<Rightarrow> task_row answer \<times> tables" where
  "expiredQuery srv locked o1 =
     (if Workflow_co o1 \<noteq> [] then claimExpiredTaskByWorkflowQuery srv locked (Workflow_co o1) (Now_co o1)
      else claimExpiredTaskQuery srv locked (Now_co o1))"

definition nextQuery ::
  "mysql_server \<Rightarrow> (string \<Rightarrow> bool) \<Rightarrow> ClaimOptions \<Rightarrow> tables \<Rightarrow> task_row answer \<times> tables" where
  "nextQuery srv locked o1 =
     (if Workflow_co o1 \<noteq> [] then claimNextTaskByWorkflowQuery srv locked (Workflow_co o1) (Now_co o1)
      else claimNextTaskQuery srv locked (Now_co o1))"

definition select_claim_my :: "mysql_server \<Rightarrow> ClaimOptions \<Rightarrow> (session, (Task \<times> ClaimKind)) op" where
  "select_claim_my srv o1 s =
     bind (query_task ExecTx (expiredQuery srv (locked_se s) o1)) (\<lambda>a.
       case a of
         Inr t \<Rightarrow> ret (t, ClaimRecovery)
       | Inl e \<Rightarrow>
           if e \<noteq> ErrNoRows then sql_fail srv ''select next task for claim: '' e
           else bind (query_task ExecTx (nextQuery srv (locked_se s) o1)) (\<lambda>b.
             case b of
               Inr t \<Rightarrow> ret (t, if Status t = TaskStatusRetrying then ClaimRetry else ClaimInitial)
             | Inl e \<Rightarrow>
                 if e = ErrNoRows then raise ErrNoTaskAvailable
                 else sql_fail srv ''select next task for claim: '' e)) s"

text \<open>The last checks of an \<open>UPDATE\<close> that must change one row.\<close>

definition one_changed ::
  "mysql_server \<Rightarrow> string \<Rightarrow> string \<Rightarrow> (nat \<Rightarrow> error) \<Rightarrow> nat answer answer \<Rightarrow> (session, unit) op" where
  "one_changed srv exec_text count_text wrong a =
     (case a of
        Inl e \<Rightarrow> sql_fail srv exec_text e
      | Inr (Inl e) \<Rightarrow> sql_fail srv count_text e
      | Inr (Inr n) \<Rightarrow> if n \<noteq> 1 then raise (wrong n) else ret ())"

definition by_version :: "mysql_server \<Rightarrow> Task \<Rightarrow> task_row \<Rightarrow> bool" where
  "by_version srv t r \<longleftrightarrow> eq_text srv (id_c r) (ID t) \<and> version_c r = Version t"

definition claim_update :: "mysql_server \<Rightarrow> Task \<Rightarrow> tables \<Rightarrow> nat answer \<times> tables" where
  "claim_update srv t =
     update_tasks srv (by_version srv t) (\<lambda>r. bump_version (r\<lparr>
       status_c := status_text (Status t), retry_count_c := RetryCount t,
       updated_at_c := datetime6 srv (UpdatedAt t), started_at_c := nullableTime srv (StartedAt t),
       lease_owner_c := Some (LeaseOwner t), lease_expires_at_c := nullableTime srv (LeaseExpiresAt t),
       last_heartbeat_at_c := None\<rparr>))"

definition wrong_count :: "mysql_server \<Rightarrow> string \<Rightarrow> Task \<Rightarrow> nat \<Rightarrow> error" where
  "wrong_count srv what t n =
     ErrNew (what @ quoted_id srv (ID t) @ '' at version '' @ show_nat (unat (Version t)) @ '' affected ''
       @ show_nat n @ '' rows'')"

definition claimNextInTx :: "mysql_server \<Rightarrow> ClaimOptions \<Rightarrow> (session, (Task \<times> ClaimKind)) op" where
  "claimNextInTx srv o1 =
     bind (select_claim_my srv o1) (\<lambda>(t, kind).
     bind (if kind = ClaimRecovery
           then ret (t\<lparr>RetryCount := i64 (RetryCount t + 1), UpdatedAt := Now_co o1\<rparr>)
           else (case MoveTo (Some t) TaskStatusRunning (Now_co o1) of
               Inl e \<Rightarrow> raise (Wrap (''move claimed task '' @ quoted_id srv (ID t) @ '' to running: '') e [])
             | Inr t1 \<Rightarrow> ret t1)) (\<lambda>t1.
     let t2 = t1\<lparr>LeaseOwner := WorkerID_co o1,
           LeaseExpiresAt := Some (Add_time (Now_co o1) (LeaseDuration_co o1)), LastHeartbeatAt := None\<rparr> in
     bind (late_statement ExecTx (claim_update srv t2)) (\<lambda>a.
     bind (one_changed srv (''mark claimed task '' @ quoted_id srv (ID t2) @ '' as running: '')
        (''read claimed row count for task '' @ quoted_id srv (ID t2) @ '': '')
        (wrong_count srv ''claim task '' t2) a) (\<lambda>_.
     ret (t2\<lparr>Version := Version t2 + 1\<rparr>, kind)))))"

definition ClaimNext_my :: "mysql_server \<Rightarrow> ClaimOptions \<Rightarrow> (session, Task) op" where
  "ClaimNext_my srv o1 =
     (case Validate_claim o1 of
        Some e \<Rightarrow> raise e
      | None \<Rightarrow>
          in_tx srv ''begin claim task transaction: ''
            (\<lambda>t. ''commit claimed task '' @ quoted_id srv (ID t) @ '': '')
            (bind (claimNextInTx srv o1) (\<lambda>(t, kind). ret (Commit t))))"

subsection \<open>Updating\<close>

definition updateTaskQuery :: "mysql_server \<Rightarrow> Task \<Rightarrow> tables \<Rightarrow> nat answer \<times> tables" where
  "updateTaskQuery srv t d =
     (case json_value srv ''tasks.result_json'' (nullableJSON (Result t)) of
        Inl e \<Rightarrow> (Inl e, d)
      | Inr res \<Rightarrow>
          update_tasks srv
            (\<lambda>r. by_version srv t r \<and> idempotency_key_c r = nullableString (IdempotencyKey t))
            (\<lambda>r. bump_version (r\<lparr>
               status_c := status_text (Status t), result_json_c := res,
               error_message_c := nullableString (ErrorMessage t), progress_c := Progress t,
               retry_count_c := RetryCount t, max_retries_c := MaxRetries t,
               available_at_c := datetime6 srv (AvailableAt t), lease_owner_c := nullableString (LeaseOwner t),
               lease_expires_at_c := nullableTime srv (LeaseExpiresAt t),
               last_heartbeat_at_c := nullableTime srv (LastHeartbeatAt t),
               updated_at_c := datetime6 srv (UpdatedAt t), started_at_c := nullableTime srv (StartedAt t),
               finished_at_c := nullableTime srv (FinishedAt t)\<rparr>)) d)"

definition updateTask :: "mysql_server \<Rightarrow> executor \<Rightarrow> Task option \<Rightarrow> (session, unit) op" where
  "updateTask srv ex task =
     (case task of
        None \<Rightarrow> raise ErrNilTask
      | Some t \<Rightarrow>
          bind (late_statement ex (updateTaskQuery srv t)) (\<lambda>a.
            case a of
              Inl e \<Rightarrow>
                sql_fail srv (''update task '' @ quoted_id srv (ID t) @ '' at version ''
                  @ show_nat (unat (Version t)) @ '': '') e
            | Inr (Inl e) \<Rightarrow>
                sql_fail srv (''read updated row count for task '' @ quoted_id srv (ID t) @ '': '') e
            | Inr (Inr n) \<Rightarrow>
                if n = 1 then ret ()
                else if n > 1 then
                  raise (ErrNew (''update task '' @ quoted_id srv (ID t) @ '' affected '' @ show_nat n @ '' rows''))
                else
                  bind (statement ex (getTaskQuery srv (ID t))) (\<lambda>b.
                    case b of
                      Inr _ \<Rightarrow> raise ErrTaskConflict
                    | Inl e \<Rightarrow>
                        if e = ErrNoRows then raise ErrTaskNotFound
                        else sql_fail srv (''check task '' @ quoted_id srv (ID t) @ '' after versioned update: '') e)))"

definition Update_my :: "mysql_server \<Rightarrow> Task option \<Rightarrow> (session, unit) op" where
  "Update_my srv task = updateTask srv ExecDB task"

subsection \<open>Renewing and expiring leases\<close>

definition renewLeaseQuery :: "mysql_server \<Rightarrow> RenewLeaseOptions \<Rightarrow> tables \<Rightarrow> nat answer \<times> tables" where
  "renewLeaseQuery srv o1 =
     update_tasks srv
       (\<lambda>r. eq_text srv (id_c r) (TaskID_rl o1) \<and>
            eq_text srv (status_c r) (status_text TaskStatusRunning) \<and>
            (case lease_owner_c r of None \<Rightarrow> False | Some w \<Rightarrow> eq_text srv w (WorkerID_rl o1)) \<and>
            (case lease_expires_at_c r of None \<Rightarrow> False | Some l \<Rightarrow> l > datetime6 srv (Now_rl o1)))
       (\<lambda>r. Inr (r\<lparr>
          lease_expires_at_c := Some (datetime6 srv (Add_time (Now_rl o1) (LeaseDuration_rl o1))),
          last_heartbeat_at_c := Some (datetime6 srv (Now_rl o1)),
          updated_at_c := datetime6 srv (Now_rl o1)\<rparr>))"

definition RenewLease_my :: "mysql_server \<Rightarrow> RenewLeaseOptions \<Rightarrow> (session, unit) op" where
  "RenewLease_my srv o1 =
     (case Validate_renew o1 of
        Some e \<Rightarrow> raise e
      | None \<Rightarrow>
          bind (late_statement ExecDB (renewLeaseQuery srv o1))
            (one_changed srv (''renew lease for task '' @ quoted_id srv (TaskID_rl o1) @ '': '')
              (''read renewed lease row count for task '' @ quoted_id srv (TaskID_rl o1) @ '': '')
              (\<lambda>_. ErrLeaseLost)))"

definition selectExpiredExhaustedTaskQuery ::
  "mysql_server \<Rightarrow> (string \<Rightarrow> bool) \<Rightarrow> time \<Rightarrow> tables \<Rightarrow> task_row answer \<times> tables" where
  "selectExpiredExhaustedTaskQuery srv locked now =
     first_row srv (\<lambda>r. lease_over srv now r \<and> retry_count_c r \<ge> max_retries_c r \<and> \<not> locked (id_c r))
       (\<lambda>r. the (lease_expires_at_c r))"

definition expire_update :: "mysql_server \<Rightarrow> Task \<Rightarrow> tables \<Rightarrow> nat answer \<times> tables" where
  "expire_update srv t =
     update_tasks srv (by_version srv t) (\<lambda>r. bump_version (r\<lparr>
       status_c := status_text (Status t), error_message_c := Some (ErrorMessage t),
       updated_at_c := datetime6 srv (UpdatedAt t), finished_at_c := nullableTime srv (FinishedAt t),
       lease_owner_c := None, lease_expires_at_c := None\<rparr>))"

definition failNextExpiredInTx :: "mysql_server \<Rightarrow> time \<Rightarrow> (session, Task) op" where
  "failNextExpiredInTx srv now s =
     bind (query_task ExecTx (selectExpiredExhaustedTaskQuery srv (locked_se s) now)) (\<lambda>a.
       case a of
         Inl e \<Rightarrow>
           if e = ErrNoRows then raise ErrNoExpiredTask
           else sql_fail srv ''select expired exhausted task: '' e
       | Inr t \<Rightarrow>
           (case MoveTo (Some (t\<lparr>ErrorMessage := expired_message\<rparr>)) TaskStatusFailed now of
              Inl e \<Rightarrow> raise (Wrap (''fail expired task '' @ quoted_id srv (ID t) @ '': '') e [])
            | Inr t1 \<Rightarrow>
                bind (late_statement ExecTx (expire_update srv t1)) (\<lambda>b.
                bind (one_changed srv (''persist expired task '' @ quoted_id srv (ID t1) @ '' failure: '')
                   (''read expired task '' @ quoted_id srv (ID t1) @ '' cleanup row count: '')
                   (wrong_count srv ''cleanup expired task '' t1) b) (\<lambda>_.
                ret (t1\<lparr>Version := Version t1 + 1\<rparr>))))) s"

definition FailNextExpired_my :: "mysql_server \<Rightarrow> time \<Rightarrow> (session, Task) op" where
  "FailNextExpired_my srv now =
     (if IsZero now then raise ErrInvalidCleanupTime
      else in_tx srv ''begin expired task cleanup transaction: ''
        (\<lambda>t. ''commit expired task '' @ quoted_id srv (ID t) @ '' cleanup: '')
        (bind (failNextExpiredInTx srv now) (\<lambda>t. ret (Commit t))))"

section \<open>MySQLEventStore\<close>

definition eventExists :: "mysql_server \<Rightarrow> executor \<Rightarrow> string \<Rightarrow> (session, bool answer) op" where
  "eventExists srv ex eventID =
     bind (statement ex (\<lambda>d.
        (if list_ex (\<lambda>r. eq_text srv (id_e r) eventID) (event_rows d) then Inr () else Inl ErrNoRows, d))) (\<lambda>a.
     ret (case a of Inr _ \<Rightarrow> Inr True | Inl e \<Rightarrow> if e = ErrNoRows then Inr False else Inl e))"

definition insertEventQuery :: "mysql_server \<Rightarrow> TaskEvent \<Rightarrow> tables \<Rightarrow> unit answer \<times> tables" where
  "insertEventQuery srv ev d =
     (case json_value srv ''task_events.payload_json'' (nullableJSON (Payload_ev ev)) of
        Inl e \<Rightarrow> (Inl e, d)
      | Inr payload \<Rightarrow>
          insert_event_row srv \<lparr>
            id_e = ID_ev ev, task_id_e = TaskID_ev ev, type_e = event_text (Type_ev ev), message_e = Message_ev ev,
            payload_json_e = payload, progress_e = Progress_ev ev, created_at_e = datetime6 srv (CreatedAt_ev ev)\<rparr> d)"

definition insertEvent :: "mysql_server \<Rightarrow> executor \<Rightarrow> TaskEvent option \<Rightarrow> (session, unit) op" where
  "insertEvent srv ex event =
     (case event of
        None \<Rightarrow> raise ErrNilEvent
      | Some ev \<Rightarrow>
          bind (statement ex (insertEventQuery srv ev)) (\<lambda>a.
            case a of
              Inr _ \<Rightarrow> ret ()
            | Inl e \<Rightarrow>
                let other = sql_fail srv (''insert event '' @ quoted_id srv (ID_ev ev) @ '' for task ''
                      @ quoted_id srv (TaskID_ev ev) @ '': '') e in
                (case e of
                   MySQLError number message \<Rightarrow>
                     if number = 1062 then raise ErrEventAlreadyExists
                     else if number = 1452 then raise ErrTaskNotFound
                     else other
                 | _ \<Rightarrow> other)))"

definition Append_my :: "mysql_server \<Rightarrow> TaskEvent option \<Rightarrow> (session, unit) op" where
  "Append_my srv event = insertEvent srv ExecDB event"

definition scan_event :: "event_row \<Rightarrow> TaskEvent" where
  "scan_event r = \<lparr>
     ID_ev = id_e r, TaskID_ev = task_id_e r, Type_ev = event_of_text (type_e r), Message_ev = message_e r,
     Payload_ev = cloneJSON (payload_json_e r), Progress_ev = progress_e r, CreatedAt_ev = created_at_e r\<rparr>"

text \<open>\<open>ORDER BY created_at, id\<close>, with the collation's order of ids.\<close>

definition event_before :: "mysql_server \<Rightarrow> event_row \<Rightarrow> event_row \<Rightarrow> bool" where
  "event_before srv r q \<longleftrightarrow>
     created_at_e r < created_at_e q \<or>
     (created_at_e r = created_at_e q \<and> less_text srv (id_e r) (id_e q))"

fun insert_ordered :: "('a \<Rightarrow> 'a \<Rightarrow> bool) \<Rightarrow> 'a \<Rightarrow> 'a list \<Rightarrow> 'a list" where
  "insert_ordered before x [] = [x]"
| "insert_ordered before x (y # ys) =
     (if before y x then y # insert_ordered before x ys else x # y # ys)"

definition order_by :: "('a \<Rightarrow> 'a \<Rightarrow> bool) \<Rightarrow> 'a list \<Rightarrow> 'a list" where
  "order_by before xs = foldr (insert_ordered before) xs []"

definition listEventsByTaskIDQuery ::
  "mysql_server \<Rightarrow> string \<Rightarrow> tables \<Rightarrow> event_row list answer \<times> tables" where
  "listEventsByTaskIDQuery srv taskID d =
     (Inr (order_by (event_before srv) (filter (\<lambda>r. eq_text srv (task_id_e r) taskID) (event_rows d))), d)"

definition ListByTaskID_my :: "mysql_server \<Rightarrow> string \<Rightarrow> (session, TaskEvent list) op" where
  "ListByTaskID_my srv taskID =
     bind (late_statement ExecDB (listEventsByTaskIDQuery srv taskID)) (\<lambda>a.
       case a of
         Inl e \<Rightarrow> sql_fail srv (''list events for task '' @ quoted_id srv taskID @ '': '') e
       | Inr (Inl e) \<Rightarrow> sql_fail srv (''iterate events for task '' @ quoted_id srv taskID @ '': '') e
       | Inr (Inr rows) \<Rightarrow> ret (map scan_event rows))"

section \<open>Tasks with their events\<close>

text \<open>The check that every transition makes on the id of its event.\<close>

definition check_event :: "mysql_server \<Rightarrow> string \<Rightarrow> string \<Rightarrow> (session, 'a) op \<Rightarrow> (session, 'a) op" where
  "check_event srv what eventID k =
     bind (eventExists srv ExecTx eventID) (\<lambda>a.
       case a of
         Inl e \<Rightarrow> sql_fail srv (''check '' @ what @ '' event '' @ quoted_id srv eventID @ '': '') e
       | Inr exists \<Rightarrow> if exists then raise ErrEventAlreadyExists else k)"

definition ClaimNextWithEvent_my :: "mysql_server \<Rightarrow> ClaimOptions \<Rightarrow> string \<Rightarrow> (session, Task) op" where
  "ClaimNextWithEvent_my srv o1 eventID =
     (case Validate_claim o1 of Some e \<Rightarrow> raise e | None \<Rightarrow>
      if eventID = [] then raise ErrInvalidEventID
      else in_tx srv ''begin task claim transition transaction: ''
        (\<lambda>t. ''commit task '' @ quoted_id srv (ID t) @ '' claim transition: '')
        (check_event srv ''claim'' eventID
          (bind (claimNextInTx srv o1) (\<lambda>(t, kind).
           bind (of_result (NewTaskClaimedEvent eventID (Some t) kind (Now_co o1))) (\<lambda>ev.
           bind (insertEvent srv ExecTx (Some ev)) (\<lambda>_.
           ret (Commit t)))))))"

definition FailNextExpiredWithEvent_my :: "mysql_server \<Rightarrow> time \<Rightarrow> string \<Rightarrow> (session, Task) op" where
  "FailNextExpiredWithEvent_my srv now eventID =
     (if IsZero now then raise ErrInvalidCleanupTime
      else if eventID = [] then raise ErrInvalidEventID
      else in_tx srv ''begin expired task transition transaction: ''
        (\<lambda>t. ''commit expired task '' @ quoted_id srv (ID t) @ '' transition: '')
        (check_event srv ''expired task'' eventID
          (bind (failNextExpiredInTx srv now) (\<lambda>t.
           bind (of_result (NewTaskExpiredEvent eventID (Some t) now)) (\<lambda>ev.
           bind (insertEvent srv ExecTx (Some ev)) (\<lambda>_.
           ret (Commit t)))))))"

definition UpdateTaskWithEvent_my ::
  "mysql_server \<Rightarrow> Task option \<Rightarrow> TaskEvent option \<Rightarrow> (session, unit) op" where
  "UpdateTaskWithEvent_my srv task event =
     (case task of None \<Rightarrow> raise ErrNilTask | Some t \<Rightarrow>
     (case event of None \<Rightarrow> raise ErrNilEvent | Some ev \<Rightarrow>
      if TaskID_ev ev \<noteq> ID t then raise ErrTaskEventMismatch
      else in_tx srv ''begin task transition transaction: ''
        (\<lambda>_. ''commit task '' @ quoted_id srv (ID t) @ '' transition: '')
        (check_event srv ''transition'' (ID_ev ev)
          (bind (updateTask srv ExecTx task) (\<lambda>_.
           bind (insertEvent srv ExecTx event) (\<lambda>_.
           ret (Commit ())))))))"

definition resolveIdempotentReplay :: "mysql_server \<Rightarrow> Task \<Rightarrow> (session, Task) op" where
  "resolveIdempotentReplay srv requested =
     bind (getByWorkflowAndIdempotencyKey srv (Workflow requested) (IdempotencyKey requested)) (\<lambda>existing.
       if \<not> SameTaskCreationRequest (Some existing) (Some requested) then raise ErrIdempotencyConflict
       else ret existing)"

definition CreateTaskWithEvent_my ::
  "mysql_server \<Rightarrow> Task option \<Rightarrow> TaskEvent option \<Rightarrow> (session, TaskCreationResult) op" where
  "CreateTaskWithEvent_my srv task event =
     (case task of None \<Rightarrow> raise ErrNilTask | Some t \<Rightarrow>
     (case event of None \<Rightarrow> raise ErrNilEvent | Some ev \<Rightarrow>
      if TaskID_ev ev \<noteq> ID t then raise ErrTaskEventMismatch
      else
        bind (in_tx srv ''begin task creation transaction: ''
          (\<lambda>_. ''commit task '' @ quoted_id srv (ID t) @ '' creation: '')
          (attempt (insertTask srv ExecTx task) (\<lambda>r.
             case r of
               Inl e \<Rightarrow>
                 if errors_Is e ErrIdempotencyKeyAlreadyExists then ret (Rollback False) else raise e
             | Inr _ \<Rightarrow> bind (insertEvent srv ExecTx event) (\<lambda>_. ret (Commit True)))))
        (\<lambda>created.
          if created then ret \<lparr>Task_cr = Some t, Created_cr = True\<rparr>
          else bind (resolveIdempotentReplay srv t) (\<lambda>existing.
            ret \<lparr>Task_cr = Some existing, Created_cr = False\<rparr>))))"

text \<open>Cancellation; the task that is canceled already ends the transaction without a commit.\<close>

definition CancelTaskWithEvent_my ::
  "mysql_server \<Rightarrow> string \<Rightarrow> string \<Rightarrow> time \<Rightarrow> (session, TaskCancellationResult) op" where
  "CancelTaskWithEvent_my srv taskID eventID now =
     (if taskID = [] then raise ErrTaskNotFound
      else if eventID = [] then raise ErrInvalidEventID
      else if IsZero now then raise ErrInvalidCancellationTime
      else in_tx srv ''begin task cancellation transaction: ''
        (\<lambda>_. ''commit task '' @ quoted_id srv taskID @ '' cancellation: '')
        (bind (query_task ExecTx (getTaskQuery srv taskID)) (\<lambda>a.
           case a of
             Inl e \<Rightarrow>
               if e = ErrNoRows then raise ErrTaskNotFound
               else sql_fail srv (''select task '' @ quoted_id srv taskID @ '' for cancellation: '') e
           | Inr t \<Rightarrow>
               if Status t = TaskStatusCanceled then ret (Rollback \<lparr>Task_ca = t, Canceled_ca = False\<rparr>)
               else if Status t \<noteq> TaskStatusQueued \<and> Status t \<noteq> TaskStatusRetrying
                 \<and> Status t \<noteq> TaskStatusRunning then raise ErrTaskNotCancelable
               else
                 check_event srv ''cancellation'' eventID
                  (bind (of_result (MoveTo (Some t) TaskStatusCanceled now)) (\<lambda>t1.
                   bind (of_result (NewTaskCanceledEvent eventID (Some t1) now)) (\<lambda>ev.
                   bind (updateTask srv ExecTx (Some t1)) (\<lambda>_.
                   bind (insertEvent srv ExecTx (Some ev)) (\<lambda>_.
                   ret (Commit \<lparr>Task_ca = t1\<lparr>Version := Version t1 + 1\<rparr>, Canceled_ca = True\<rparr>)))))))))"

end
