(* ===== verification/SqlFacts.thy ===== *)
theory SqlFacts
  imports MySqlStore StoreSteps
begin

text \<open>
  What a successful call tells about the tables.  \<open>alone\<close> sessions are those whose calls may fail
  in any way but meet no other client; the lemmas reduce an operation that returns a value to the
  statements it executed, and the statements on rows to operations on the tasks the rows hold.
\<close>

section \<open>Sessions without other clients\<close>

definition alone :: "session \<Rightarrow> bool" where
  "alone s \<longleftrightarrow>
     (\<forall>a \<in> set (arrivals_se s). others_ar a = (\<lambda>d. d) \<and> (\<forall>x. \<not> locked_ar a x) \<and> fault_ar a \<noteq> Some ErrNoRows)"

lemma alone_start [simp]: "alone (start_session d)"
  by (simp add: alone_def start_session_def)

lemma tables_start [simp]: "tables_se (start_session d) = d"
  by (simp add: start_session_def)

lemma alone_tables [simp]: "alone (s\<lparr>tables_se := d\<rparr>) \<longleftrightarrow> alone s"
  by (simp add: alone_def)

lemma next_arrival_alone:
  assumes "alone s" "next_arrival s = (a, s1)"
  shows "alone s1" "tables_se s1 = tables_se s" "locked_se s1 = locked_se s"
    "others_ar a = (\<lambda>d. d)" "\<not> locked_ar a x" "fault_ar a \<noteq> Some ErrNoRows"
  using assms by (auto simp: next_arrival_def alone_def quiet_def split: list.splits)

text \<open>A statement that answers, or that finds no row, has been executed.\<close>

lemma statement_done:
  assumes "alone s" "statement ex f s = (Inr a, s1)" "a = Inr x \<or> a = Inl ErrNoRows"
  shows "f (tables_se s) = (a, tables_se s1) \<and> alone s1 \<and> locked_se s1 = locked_se s"
  using assms next_arrival_alone [OF assms(1), of "fst (next_arrival s)" "snd (next_arrival s)"]
  by (auto simp: statement_def Let_def prod_eq_iff split: prod.splits option.splits if_splits)

lemma statement_alone:
  assumes "alone s" "statement ex f s = (r, s1)"
  shows "alone s1 \<and> locked_se s1 = locked_se s \<and> (\<exists>a. r = Inr a)"
  using assms next_arrival_alone [OF assms(1), of "fst (next_arrival s)" "snd (next_arrival s)"]
  by (auto simp: statement_def Let_def split: prod.splits option.splits if_splits)

lemma statement_read:
  assumes "alone s" "statement ex f s = (r, s1)" "\<And>d. snd (f d) = d"
  shows "tables_se s1 = tables_se s"
  using assms next_arrival_alone [OF assms(1), of "fst (next_arrival s)" "snd (next_arrival s)"]
  by (auto simp: statement_def Let_def split: prod.splits option.splits if_splits)

lemma late_statement_done:
  assumes "alone s" "late_statement ex f s = (Inr (Inr (Inr x)), s1)"
  shows "f (tables_se s) = (Inr x, tables_se s1) \<and> alone s1 \<and> locked_se s1 = locked_se s"
proof -
  obtain r s2 where st: "statement ex f s = (r, s2)" by force
  with assms(2) have "r = Inr (Inr x)" "s2 = s1"
    by (auto simp: late_statement_def split: sum.splits option.splits)
  with statement_done [OF assms(1), of ex f "Inr x" s1 x] st show ?thesis by simp
qed

lemma bind_Inr_cases:
  assumes "bind f k s = (Inr y, s')"
  obtains x s1 where "f s = (Inr x, s1)" "k x s1 = (Inr y, s')"
  using assms by (auto elim: bind_cases)

text \<open>A query for a task, and the check of a changed row.\<close>

lemma query_task_Inr:
  "query_task ex q s = (Inr a, s1) \<Longrightarrow> \<exists>b. statement ex q s = (Inr b, s1) \<and> a = map_sum id scanTask b"
  unfolding query_task_def by (elim bind_Inr_cases) (auto simp: ret_def)

lemma query_task_found:
  assumes "alone s" "query_task ex q s = (Inr (Inr t), s1)"
  obtains r where "q (tables_se s) = (Inr r, tables_se s1)" "t = scanTask r" "alone s1" "locked_se s1 = locked_se s"
proof -
  from query_task_Inr [OF assms(2)] obtain b where b: "statement ex q s = (Inr b, s1)" "Inr t = map_sum id scanTask b"
    by blast
  then obtain r where r: "b = Inr r" "t = scanTask r" by (cases b) auto
  with statement_done [OF assms(1) b(1), of r] that [of r] show ?thesis by simp
qed

lemma query_task_none:
  assumes "alone s" "query_task ex q s = (Inr (Inl ErrNoRows), s1)"
  shows "q (tables_se s) = (Inl ErrNoRows, tables_se s1)" "alone s1" "locked_se s1 = locked_se s"
proof -
  from query_task_Inr [OF assms(2)] obtain b where
    b: "statement ex q s = (Inr b, s1)" "Inl ErrNoRows = map_sum id scanTask b" by blast
  then have "b = Inl ErrNoRows" by (cases b) auto
  with statement_done [OF assms(1) b(1)] show "q (tables_se s) = (Inl ErrNoRows, tables_se s1)" "alone s1"
    "locked_se s1 = locked_se s" by simp_all
qed

lemma one_changed_done:
  "one_changed srv p q w a s = (Inr u, s') \<Longrightarrow> a = Inr (Inr 1) \<and> s' = s"
  by (auto simp: one_changed_def sql_fail_def raise_def ret_def split: sum.splits if_splits)

section \<open>Transactions\<close>

text \<open>
  A transaction leaves the tables as they were, or as the statements of a body that asked for the
  commit left them; its value is that of the body.
\<close>

lemma in_tx_cases:
  assumes "alone s" "in_tx srv bt ct body s = (r, s')"
  obtains (error) e where "r = Inl e" "tables_se s' = tables_se s"
  | (rollback) x s2 s3 where "r = Inr x" "tables_se s' = tables_se s" "alone s2" "tables_se s2 = tables_se s"
      "locked_se s2 = (\<lambda>_. False)" "body s2 = (Inr (Rollback x), s3)" "s' = s3\<lparr>tables_se := tables_se s\<rparr>"
  | (commit) x s2 s3 where "r = Inr x \<or> (\<exists>e. r = Inl e)" "tables_se s' = tables_se s3" "alone s2"
      "tables_se s2 = tables_se s" "locked_se s2 = (\<lambda>_. False)" "body s2 = (Inr (Commit x), s3)"
proof -
  obtain a s1 where n: "next_arrival s = (a, s1)" by force
  note na = next_arrival_alone [OF assms(1) n]
  define s2 where "s2 = s1\<lparr>tables_se := others_ar a (tables_se s1), locked_se := locked_ar a\<rparr>"
  have s2: "alone s2" "tables_se s2 = tables_se s" "locked_se s2 = (\<lambda>_. False)"
    using na by (auto simp: s2_def alone_def fun_eq_iff)
  have t: "in_tx srv bt ct body s = (case fault_ar a of
       Some e \<Rightarrow> (Inl (Wrap bt (sql_cause srv e) []), s2)
     | None \<Rightarrow> (case body s2 of
          (Inl e, s3) \<Rightarrow> (Inl e, s3\<lparr>tables_se := tables_se s2\<rparr>)
        | (Inr (Rollback x), s3) \<Rightarrow> (Inr x, s3\<lparr>tables_se := tables_se s2\<rparr>)
        | (Inr (Commit x), s3) \<Rightarrow> (case next_arrival s3 of (b, s4) \<Rightarrow>
            (case fault_ar b of None \<Rightarrow> (Inr x, s4)
             | Some e \<Rightarrow> (Inl (Wrap (ct x) (sql_cause srv e) []),
                 s4\<lparr>tables_se := (if applied_ar b then tables_se s4 else tables_se s2)\<rparr>)))))"
    by (simp only: in_tx_def n prod.case Let_def s2_def [symmetric])
  show ?thesis
  proof (cases "fault_ar a")
    case (Some e)
    with t assms(2) s2 error show ?thesis by simp
  next
    case None
    obtain rb s3 where b: "body s2 = (rb, s3)" by force
    show ?thesis
    proof (cases rb)
      case (Inl e)
      with t None assms(2) b s2 error show ?thesis by auto
    next
      case (Inr y)
      show ?thesis
      proof (cases y)
        case (Rollback x)
        with t None assms(2) b Inr s2 rollback [of x s2 s3] show ?thesis by auto
      next
        case (Commit x)
        obtain c s4 where n4: "next_arrival s3 = (c, s4)" by force
        then have s4: "tables_se s4 = tables_se s3"
          by (auto simp: next_arrival_def split: list.splits)
        from t None assms(2) b Inr Commit n4
        have "(fault_ar c = None \<and> r = Inr x \<and> s' = s4) \<or>
          (\<exists>e. r = Inl e \<and> s' = s4\<lparr>tables_se := (if applied_ar c then tables_se s4 else tables_se s2)\<rparr>)"
          by (auto split: option.splits)
        with s4 s2 b Inr Commit commit [of x s3 s2] error show ?thesis by (auto split: if_splits)
      qed
    qed
  qed
qed

section \<open>Claim queries\<close>

text \<open>The condition on the workflow that the chosen claim query has.\<close>

definition workflow_clause :: "mysql_server \<Rightarrow> ClaimOptions \<Rightarrow> task_row \<Rightarrow> bool" where
  "workflow_clause srv o1 r \<longleftrightarrow> Workflow_co o1 = [] \<or> eq_text srv (workflow_c r) (Workflow_co o1)"

lemma expiredQuery_eq:
  "expiredQuery srv locked o1 =
     first_row srv (\<lambda>r. lease_over srv (Now_co o1) r \<and> workflow_clause srv o1 r \<and>
         retry_count_c r < max_retries_c r \<and> \<not> locked (id_c r))
       (\<lambda>r. the (lease_expires_at_c r))"
  by (simp add: expiredQuery_def claimExpiredTaskByWorkflowQuery_def claimExpiredTaskQuery_def workflow_clause_def)

lemma nextQuery_eq:
  "nextQuery srv locked o1 =
     first_row srv (\<lambda>r. (eq_text srv (status_c r) (status_text TaskStatusQueued) \<or>
           eq_text srv (status_c r) (status_text TaskStatusRetrying)) \<and>
         workflow_clause srv o1 r \<and> available_at_c r \<le> datetime6 srv (Now_co o1) \<and> \<not> locked (id_c r))
       available_at_c"
  by (simp add: nextQuery_def claimNextTaskByWorkflowQuery_def claimNextTaskQuery_def workflow_clause_def waiting_def)

end
