(* ===== verification/MySqlRows.thy ===== *)
theory MySqlRows
  imports SqlFacts
begin

text \<open>
  Rows that hold tasks.  \<open>row_of\<close> and \<open>event_row_of\<close> are the rows of a task and of an event;
  \<open>holds_tasks\<close> and \<open>holds_events\<close> say that the tables hold what a memory store holds.  The
  lemmas carry the queries and updates on rows over to the tasks, for texts of a set \<open>A\<close> on which
  the collation compares as bytes do, and instants that a \<open>DATETIME(6)\<close> column keeps.
\<close>

section \<open>Tasks and events as rows\<close>

definition json_of :: "mysql_server \<Rightarrow> raw_json \<Rightarrow> raw_json option" where
  "json_of srv raw = (if raw = [] then None else json_column srv raw)"

definition row_of :: "mysql_server \<Rightarrow> Task \<Rightarrow> task_row" where
  "row_of srv t = \<lparr>
     id_c = ID t, workflow_c = Workflow t, status_c = status_text (Status t),
     input_json_c = null_string (json_column srv (Input t)), result_json_c = json_of srv (Result t),
     error_message_c = nullableString (ErrorMessage t), progress_c = Progress t,
     retry_count_c = RetryCount t, max_retries_c = MaxRetries t, available_at_c = AvailableAt t,
     lease_owner_c = nullableString (LeaseOwner t), lease_expires_at_c = LeaseExpiresAt t,
     last_heartbeat_at_c = LastHeartbeatAt t, idempotency_key_c = nullableString (IdempotencyKey t),
     version_c = Version t, created_at_c = CreatedAt t, updated_at_c = UpdatedAt t,
     started_at_c = StartedAt t, finished_at_c = FinishedAt t\<rparr>"

definition event_row_of :: "mysql_server \<Rightarrow> TaskEvent \<Rightarrow> event_row" where
  "event_row_of srv ev = \<lparr>
     id_e = ID_ev ev, task_id_e = TaskID_ev ev, type_e = event_text (Type_ev ev), message_e = Message_ev ev,
     payload_json_e = json_of srv (Payload_ev ev), progress_e = Progress_ev ev, created_at_e = CreatedAt_ev ev\<rparr>"

text \<open>
  What the stores rely on: on the texts of \<open>A\<close> (the statuses among them) the collation is the
  order of bytes; a \<open>JSON\<close> value that was read can be stored again and is the same value; the
  message of a duplicate key names the key.
\<close>

definition server_ok :: "mysql_server \<Rightarrow> string set \<Rightarrow> bool" where
  "server_ok srv A \<longleftrightarrow>
     (\<forall>x \<in> A. \<forall>y \<in> A. (eq_text srv x y \<longleftrightarrow> x = y) \<and> (less_text srv x y \<longleftrightarrow> x < y)) \<and>
     status_text ` {TaskStatusQueued, TaskStatusRunning, TaskStatusSucceeded, TaskStatusPartial,
       TaskStatusFailed, TaskStatusCanceled, TaskStatusRetrying} \<subseteq> A \<and>
     (\<forall>raw j. json_column srv raw = Some j \<longrightarrow>
        cloneJSON (Some j) \<noteq> [] \<and> json_column srv (cloneJSON (Some j)) = Some j) \<and>
     Contains (message_of srv 1062 ''tasks.uk_tasks_workflow_idempotency'') ''uk_tasks_workflow_idempotency'' \<and>
     \<not> Contains (message_of srv 1062 ''tasks.PRIMARY'') ''uk_tasks_workflow_idempotency'' \<and>
     \<not> Contains (message_of srv 1062 ''tasks.PRIMARY'') ''uk_tasks_idempotency_key''"

definition kept_time :: "mysql_server \<Rightarrow> time \<Rightarrow> bool" where
  "kept_time srv x \<longleftrightarrow> datetime6 srv x = x"

definition kept_times :: "mysql_server \<Rightarrow> Task \<Rightarrow> bool" where
  "kept_times srv t \<longleftrightarrow>
     kept_time srv (AvailableAt t) \<and> kept_time srv (CreatedAt t) \<and> kept_time srv (UpdatedAt t) \<and>
     pred_option (kept_time srv) (LeaseExpiresAt t) \<and> pred_option (kept_time srv) (LastHeartbeatAt t) \<and>
     pred_option (kept_time srv) (StartedAt t) \<and> pred_option (kept_time srv) (FinishedAt t)"

text \<open>
  A task whose row tells the same story: texts of \<open>A\<close>, a known status, instants in whole
  microseconds, JSON that the server accepts, and an input with the same decoded value when it is
  read back (the server may reorder and reformat it).
\<close>

definition storable :: "mysql_server \<Rightarrow> string set \<Rightarrow> Task \<Rightarrow> bool" where
  "storable srv A t \<longleftrightarrow>
     ID t \<in> A \<and> Workflow t \<in> A \<and> CHR 0x00 \<notin> set (Workflow t) \<and> (LeaseOwner t \<noteq> [] \<longrightarrow> LeaseOwner t \<in> A) \<and>
     (\<forall>s. Status t \<noteq> OtherStatus s) \<and> kept_times srv t \<and>
     (\<exists>j. json_column srv (Input t) = Some j \<and> decodeJSONValue (cloneJSON (Some j)) = decodeJSONValue (Input t) \<and>
        decodeJSONValue (Input t) \<noteq> None) \<and>
     (Result t \<noteq> [] \<longrightarrow> json_column srv (Result t) \<noteq> None) \<and>
     LeaseToken t = [] \<and> TaskID t = [] \<and> LeaseUntil t = None"

definition storable_event :: "mysql_server \<Rightarrow> string set \<Rightarrow> TaskEvent \<Rightarrow> bool" where
  "storable_event srv A ev \<longleftrightarrow>
     ID_ev ev \<in> A \<and> TaskID_ev ev \<in> A \<and> (\<forall>s. Type_ev ev \<noteq> OtherEvent s) \<and> kept_time srv (CreatedAt_ev ev)"

text \<open>The task as it is read back: input and result in the server's form, without white space.\<close>

definition as_read :: "mysql_server \<Rightarrow> Task \<Rightarrow> Task" where
  "as_read srv t =
     t\<lparr>Input := cloneJSON (json_column srv (Input t)), Result := cloneJSON (json_of srv (Result t))\<rparr>"

lemma server_ok_text:
  assumes "server_ok srv A" "x \<in> A" "y \<in> A"
  shows "eq_text srv x y \<longleftrightarrow> x = y" "less_text srv x y \<longleftrightarrow> x < y"
  using assms by (auto simp: server_ok_def)

lemma server_ok_status:
  assumes "server_ok srv A" "\<forall>s. st \<noteq> OtherStatus s"
  shows "status_text st \<in> A"
  using assms by (cases st) (auto simp: server_ok_def)

lemma server_ok_json:
  "server_ok srv A \<Longrightarrow> json_column srv raw = Some j \<Longrightarrow>
     cloneJSON (Some j) \<noteq> [] \<and> json_column srv (cloneJSON (Some j)) = Some j"
  by (auto simp: server_ok_def)

lemma status_of_text_known: "(\<forall>s. st \<noteq> OtherStatus s) \<Longrightarrow> status_of_text (status_text st) = st"
  by (cases st) (auto simp: status_of_text_def)

lemma status_text_known:
  "(\<forall>s. st \<noteq> OtherStatus s) \<Longrightarrow> (\<forall>s. st' \<noteq> OtherStatus s) \<Longrightarrow> status_text st = status_text st' \<longleftrightarrow> st = st'"
  by (metis status_of_text_known)

lemma null_nullable [simp]: "null_string (nullableString s) = s"
  by (simp add: null_string_def nullableString_def)

lemma cloneJSON_None [simp]: "cloneJSON None = []"
  by (simp add: cloneJSON_def)

lemma null_string_Some [simp]: "null_string (Some s) = s"
  by (simp add: null_string_def)

lemma scanTask_row_of: "storable srv A t \<Longrightarrow> scanTask (row_of srv t) = as_read srv t"
  by (intro Task.equality)
    (auto simp: scanTask_def row_of_def as_read_def storable_def status_of_text_known timePointer_def)

lemma as_read_simps [simp]:
  "ID (as_read srv t) = ID t" "IdempotencyKey (as_read srv t) = IdempotencyKey t"
  "Workflow (as_read srv t) = Workflow t" "Status (as_read srv t) = Status t"
  "ErrorMessage (as_read srv t) = ErrorMessage t" "Progress (as_read srv t) = Progress t"
  "RetryCount (as_read srv t) = RetryCount t" "MaxRetries (as_read srv t) = MaxRetries t"
  "AvailableAt (as_read srv t) = AvailableAt t" "Version (as_read srv t) = Version t"
  "LeaseOwner (as_read srv t) = LeaseOwner t" "LeaseExpiresAt (as_read srv t) = LeaseExpiresAt t"
  "LastHeartbeatAt (as_read srv t) = LastHeartbeatAt t" "CreatedAt (as_read srv t) = CreatedAt t"
  "UpdatedAt (as_read srv t) = UpdatedAt t" "StartedAt (as_read srv t) = StartedAt t"
  "FinishedAt (as_read srv t) = FinishedAt t"
  by (simp_all add: as_read_def)

lemma row_of_simps [simp]:
  "id_c (row_of srv t) = ID t" "workflow_c (row_of srv t) = Workflow t"
  "status_c (row_of srv t) = status_text (Status t)" "retry_count_c (row_of srv t) = RetryCount t"
  "max_retries_c (row_of srv t) = MaxRetries t" "available_at_c (row_of srv t) = AvailableAt t"
  "lease_owner_c (row_of srv t) = nullableString (LeaseOwner t)"
  "lease_expires_at_c (row_of srv t) = LeaseExpiresAt t"
  "idempotency_key_c (row_of srv t) = nullableString (IdempotencyKey t)" "version_c (row_of srv t) = Version t"
  "created_at_c (row_of srv t) = CreatedAt t"
  by (simp_all add: row_of_def)

text \<open>What was read is stored as the same row.\<close>

lemma json_of_read:
  assumes "server_ok srv A" "raw \<noteq> [] \<longrightarrow> json_column srv raw \<noteq> None"
  shows "json_of srv (cloneJSON (json_of srv raw)) = json_of srv raw"
  using assms server_ok_json [OF assms(1), of raw] by (auto simp: json_of_def)

lemma row_of_as_read:
  assumes "server_ok srv A" "storable srv A t"
  shows "row_of srv (as_read srv t) = row_of srv t"
  using assms server_ok_json [OF assms(1), of "Input t"] json_of_read [OF assms(1), of "Result t"]
  by (auto simp: row_of_def as_read_def storable_def)

section \<open>Tables that hold a memory store\<close>

definition holds_tasks :: "mysql_server \<Rightarrow> string set \<Rightarrow> task_row list \<Rightarrow> (string, Task) gomap \<Rightarrow> bool" where
  "holds_tasks srv A rows kts \<longleftrightarrow>
     rows = map (\<lambda>(k, t). row_of srv t) kts \<and> distinct (map fst kts) \<and>
     (\<forall>(k, t) \<in> set kts. k = ID t \<and> storable srv A t)"

definition holds_events :: "mysql_server \<Rightarrow> string set \<Rightarrow> event_row list \<Rightarrow> MemoryEventStore \<Rightarrow> bool" where
  "holds_events srv A rows es \<longleftrightarrow>
     (\<exists>evs. rows = map (event_row_of srv) evs \<and> (\<forall>ev \<in> set evs. storable_event srv A ev) \<and>
        (\<forall>tid. filter (\<lambda>ev. TaskID_ev ev = tid) evs = events_of es tid) \<and>
        (\<forall>eid. eventsByID es eid \<noteq> None \<longleftrightarrow> eid \<in> ID_ev ` set evs))"

definition represents :: "mysql_server \<Rightarrow> string set \<Rightarrow> tables \<Rightarrow> MemoryStores \<Rightarrow> bool" where
  "represents srv A d m \<longleftrightarrow>
     stores_wf m \<and> holds_tasks srv A (task_rows d) (tasks (taskStore m)) \<and>
     holds_events srv A (event_rows d) (eventStore m)"

lemma holds_tasks_entry:
  assumes "holds_tasks srv A rows kts" "map_of kts k = Some t"
  shows "ID t = k" "storable srv A t" "row_of srv t \<in> set rows"
  using assms map_of_SomeD [OF assms(2)] by (force simp: holds_tasks_def)+

lemma holds_tasks_storable: "holds_tasks srv A rows kts \<Longrightarrow> (k, t) \<in> set kts \<Longrightarrow> k = ID t \<and> storable srv A t"
  by (auto simp: holds_tasks_def)

subsection \<open>Queries\<close>

lemma find_row:
  assumes "holds_tasks srv A rows kts" "server_ok srv A" "tid \<in> A"
  shows "find (\<lambda>r. eq_text srv (id_c r) tid) rows = map_option (row_of srv) (map_of kts tid)"
proof -
  have "find (\<lambda>r. eq_text srv (id_c r) tid) (map (\<lambda>(k, t). row_of srv t) kts) = map_option (row_of srv) (map_of kts tid)"
    if "\<forall>(k, t) \<in> set kts. k = ID t \<and> storable srv A t" for kts
    using that
  proof (induction kts)
    case (Cons kt kts)
    obtain k t where kt: "kt = (k, t)" by force
    with Cons.prems have "k = ID t" "ID t \<in> A" by (auto simp: storable_def)
    with Cons kt show ?case by (simp add: server_ok_text [OF assms(2) _ assms(3)])
  qed simp
  with assms(1) show ?thesis by (simp add: holds_tasks_def)
qed

lemma list_ex_row:
  assumes "holds_tasks srv A rows kts" "server_ok srv A" "tid \<in> A"
  shows "list_ex (\<lambda>r. eq_text srv (id_c r) tid) rows \<longleftrightarrow> map_of kts tid \<noteq> None"
  using find_row [OF assms] find_None_iff [of "\<lambda>r. eq_text srv (id_c r) tid" rows]
  by (auto simp: list_ex_iff)

text \<open>A query for the first row is the scan of the memory store.\<close>

lemma scan_best_map:
  "scan_best keep better (map f xs) (map_option f sel) =
     map_option f (scan_best (\<lambda>x. keep (f x)) (\<lambda>x y. better (f x) (f y)) xs sel)"
  by (induction xs arbitrary: sel) (auto split: option.splits simp flip: option.map(2))

lemma scan_best_cong:
  assumes "\<And>x. x \<in> set xs \<Longrightarrow> keep x \<longleftrightarrow> keep' x" "\<And>x y. x \<in> S \<Longrightarrow> y \<in> S \<Longrightarrow> keep x \<Longrightarrow> keep y \<Longrightarrow> better x y \<longleftrightarrow> better' x y"
    and "set xs \<subseteq> S" "\<And>y. sel = Some y \<Longrightarrow> y \<in> S \<and> keep y"
  shows "scan_best keep better xs sel = scan_best keep' better' xs sel"
  using assms
proof (induction xs arbitrary: sel)
  case (Cons x xs)
  note IH = Cons.IH [OF _ Cons.prems(2)]
  show ?case
  proof (cases "keep x")
    case False
    with Cons.prems IH [of sel] show ?thesis by simp
  next
    case True
    with Cons.prems(1) have k': "keep' x" by simp
    show ?thesis
    proof (cases sel)
      case None
      with True k' Cons.prems IH [of "Some x"] show ?thesis by simp
    next
      case (Some y)
      with True Cons.prems have "better x y \<longleftrightarrow> better' x y" by simp
      with Some True k' Cons.prems IH [of "Some x"] IH [of "Some y"] show ?thesis by simp
    qed
  qed
qed simp

lemma first_row_scan:
  assumes h: "holds_tasks srv A (task_rows d) kts" and first: "first_row srv keep key d = (a, d')"
    and keep: "\<And>k t. (k, t) \<in> set kts \<Longrightarrow> keep (row_of srv t) \<longleftrightarrow> keep' t"
    and better: "\<And>k t k' u. (k, t) \<in> set kts \<Longrightarrow> (k', u) \<in> set kts \<Longrightarrow> keep' t \<Longrightarrow> keep' u \<Longrightarrow>
      row_before srv key (row_of srv t) (row_of srv u) \<longleftrightarrow> better t u"
  shows "d' = d" "a = (case scan_tasks keep' better kts of None \<Rightarrow> Inl ErrNoRows | Some (k, t) \<Rightarrow> Inr (row_of srv t))"
proof -
  have "scan_best keep (row_before srv key) (task_rows d) None =
    map_option (\<lambda>(k, t). row_of srv t)
      (scan_best (\<lambda>x. keep ((\<lambda>(k, t). row_of srv t) x))
        (\<lambda>x y. row_before srv key ((\<lambda>(k, t). row_of srv t) x) ((\<lambda>(k, t). row_of srv t) y)) kts None)"
    using h scan_best_map [of keep "row_before srv key" "\<lambda>(k, t). row_of srv t" kts None]
    by (simp add: holds_tasks_def)
  also have "scan_best (\<lambda>x. keep ((\<lambda>(k, t). row_of srv t) x))
      (\<lambda>x y. row_before srv key ((\<lambda>(k, t). row_of srv t) x) ((\<lambda>(k, t). row_of srv t) y)) kts None =
    scan_tasks keep' better kts"
    unfolding scan_tasks_def
    by (rule scan_best_cong [where S = "set kts"]) (use keep better in \<open>auto split: prod.splits\<close>)
  finally show "d' = d" "a = (case scan_tasks keep' better kts of None \<Rightarrow> Inl ErrNoRows | Some (k, t) \<Rightarrow> Inr (row_of srv t))"
    using first by (auto simp: first_row_def split: option.splits)
qed

subsection \<open>Updates\<close>

lemma update_rows_miss:
  "(\<And>r. r \<in> set rows \<Longrightarrow> \<not> keep r) \<Longrightarrow> update_rows srv keep chg rows = Inr (0, rows)"
  by (induction rows) auto

lemma update_rows_length: "update_rows srv keep chg rows = Inr (n, rows') \<Longrightarrow> length rows' = length rows"
  by (induction rows arbitrary: n rows') (auto split: if_splits sum.splits option.splits simp: map_sum_def map_prod_def)

text \<open>
  An update that changed one row, found by the id of a task, and changed it to the row of another
  state of that task.
\<close>

lemma update_rows_hit:
  assumes "distinct (map fst kts)" "\<forall>(k, t) \<in> set kts. k = ID t"
    and "update_rows srv keep chg (map (\<lambda>(k, t). row_of srv t) kts) = Inr (Suc n, rows')"
    and only: "\<And>k' t. (k', t) \<in> set kts \<Longrightarrow> keep (row_of srv t) \<Longrightarrow> k' = k"
  shows "\<exists>t r. map_of kts k = Some t \<and> keep (row_of srv t) \<and> chg (row_of srv t) = Inr r \<and> task_violation srv r = None \<and>
    (\<forall>u. r = row_of srv u \<longrightarrow> rows' = map (\<lambda>(k, t). row_of srv t) (AList.update k u kts))"
  using assms(1,2,3) only
proof (induction kts arbitrary: rows' n)
  case (Cons kt kts)
  obtain k1 t1 where kt: "kt = (k1, t1)" by force
  show ?case
  proof (cases "keep (row_of srv t1)")
    case True
    with Cons.prems(4) [of k1 t1] kt have k1: "k1 = k" by simp
    have "\<not> keep (row_of srv t)" if "(k', t) \<in> set kts" for k' t
    proof
      assume "keep (row_of srv t)"
      with that Cons.prems(4) [of k' t] k1 have "k' = k1" by simp
      with that have "k1 \<in> fst ` set kts" by (force intro: image_eqI [where x = "(k', t)"])
      with Cons.prems(1) kt show False by simp
    qed
    then have "update_rows srv keep chg (map (\<lambda>(k, t). row_of srv t) kts) = Inr (0, map (\<lambda>(k, t). row_of srv t) kts)"
      by (intro update_rows_miss) auto
    with Cons.prems(3) True kt k1 show ?thesis
      by (auto split: sum.splits option.splits simp: map_sum_def map_prod_def)
  next
    case False
    with Cons.prems(3) kt obtain rows1 where r1:
      "update_rows srv keep chg (map (\<lambda>(k, t). row_of srv t) kts) = Inr (Suc n, rows1)" "rows' = row_of srv t1 # rows1"
      by (auto simp: map_sum_def map_prod_def split: sum.splits)
    from Cons.IH [OF _ _ r1(1)] Cons.prems kt obtain t r where
      "map_of kts k = Some t" "keep (row_of srv t)" "chg (row_of srv t) = Inr r" "task_violation srv r = None"
      "\<forall>u. r = row_of srv u \<longrightarrow> rows1 = map (\<lambda>(k, t). row_of srv t) (AList.update k u kts)"
      by auto
    moreover from this(1) Cons.prems(1) kt have "k1 \<noteq> k" by (auto dest: map_of_SomeD simp: image_iff)
    ultimately show ?thesis using kt r1(2) by auto
  qed
qed simp

end
