(* ===== verification/MySqlOps.thy ===== *)
theory MySqlOps
  imports MySqlRows
begin

text \<open>
  Each statement group of the MySQL stores that succeeds, on tables that hold a memory store:
  the rows it leaves are those of the memory store after the corresponding change.
\<close>

section \<open>Events\<close>

lemma insertEvent_done:
  assumes "alone s" "insertEvent srv ex (Some ev) s = (Inr u, s1)" "kept_time srv (CreatedAt_ev ev)"
  shows "alone s1" "task_rows (tables_se s1) = task_rows (tables_se s)"
    "event_rows (tables_se s1) = event_rows (tables_se s) @ [event_row_of srv ev]"
    "\<not> list_ex (\<lambda>q. eq_text srv (id_e q) (ID_ev ev)) (event_rows (tables_se s))"
proof -
  from assms(2) [unfolded insertEvent_def option.case] obtain a s2 where
    a: "statement ex (insertEventQuery srv ev) s = (Inr a, s2)" and
    "(case a of Inr _ \<Rightarrow> ret () | Inl e \<Rightarrow>
        let other = sql_fail srv (''insert event '' @ quoted_id srv (ID_ev ev) @ '' for task ''
              @ quoted_id srv (TaskID_ev ev) @ '': '') e in
        (case e of MySQLError number message \<Rightarrow>
             if number = 1062 then raise ErrEventAlreadyExists
             else if number = 1452 then raise ErrTaskNotFound else other
         | _ \<Rightarrow> other)) s2 = (Inr u, s1)"
    by (rule bind_Inr_cases)
  then have "a = Inr ()" "s2 = s1"
    by (auto simp: ret_def raise_def sql_fail_def Let_def split: sum.splits sql_error.splits if_splits)
  with statement_done [OF assms(1) a, of "()"]
  have d: "insertEventQuery srv ev (tables_se s) = (Inr (), tables_se s1)" "alone s1" by auto
  then show "alone s1" by simp
  from d(1) assms(3) have "tables_se s1 = (tables_se s)\<lparr>event_rows := event_rows (tables_se s) @ [event_row_of srv ev]\<rparr> \<and>
    \<not> list_ex (\<lambda>q. eq_text srv (id_e q) (ID_ev ev)) (event_rows (tables_se s))"
    by (auto simp: insertEventQuery_def insert_event_row_def json_value_def nullableJSON_def event_row_of_def
        json_of_def kept_time_def split: sum.splits option.splits if_splits)
  then show "task_rows (tables_se s1) = task_rows (tables_se s)"
    "event_rows (tables_se s1) = event_rows (tables_se s) @ [event_row_of srv ev]"
    "\<not> list_ex (\<lambda>q. eq_text srv (id_e q) (ID_ev ev)) (event_rows (tables_se s))"
    by auto
qed

lemma event_known_rows:
  assumes "holds_events srv A rows es" "server_ok srv A" "eid \<in> A"
  shows "list_ex (\<lambda>q. eq_text srv (id_e q) eid) rows \<longleftrightarrow> eventsByID es eid \<noteq> None"
proof -
  from assms(1) obtain evs where evs: "rows = map (event_row_of srv) evs" "\<forall>ev \<in> set evs. storable_event srv A ev"
    "eventsByID es eid \<noteq> None \<longleftrightarrow> eid \<in> ID_ev ` set evs" unfolding holds_events_def by auto
  have "list_ex (\<lambda>q. eq_text srv (id_e q) eid) rows \<longleftrightarrow> (\<exists>ev \<in> set evs. eq_text srv (ID_ev ev) eid)"
    by (simp add: evs(1) list_ex_iff event_row_of_def)
  also have "\<dots> \<longleftrightarrow> (\<exists>ev \<in> set evs. ID_ev ev = eid)"
    using evs(2) by (auto simp: server_ok_text [OF assms(2) _ assms(3)] storable_event_def)
  finally show ?thesis using evs(3) by auto
qed

lemma holds_events_put:
  assumes "holds_events srv A rows es" "storable_event srv A ev"
  shows "holds_events srv A (rows @ [event_row_of srv ev]) (put_event ev es)"
proof -
  from assms(1) obtain evs where "rows = map (event_row_of srv) evs" "\<forall>ev \<in> set evs. storable_event srv A ev"
    "\<forall>tid. filter (\<lambda>ev. TaskID_ev ev = tid) evs = events_of es tid"
    "\<forall>eid. eventsByID es eid \<noteq> None \<longleftrightarrow> eid \<in> ID_ev ` set evs" unfolding holds_events_def by auto
  then show ?thesis
    unfolding holds_events_def using assms(2) by (intro exI [of _ "evs @ [ev]"]) auto
qed

lemma check_event_done:
  assumes "alone s" "check_event srv what eid k s = (Inr y, s')"
    and "holds_events srv A (event_rows (tables_se s)) es" "server_ok srv A" "eid \<in> A"
  obtains s1 where "k s1 = (Inr y, s')" "alone s1" "tables_se s1 = tables_se s" "locked_se s1 = locked_se s"
    "eventsByID es eid = None"
proof -
  from assms(2) obtain a s1 where a: "eventExists srv ExecTx eid s = (Inr a, s1)"
    "(case a of Inl e \<Rightarrow> sql_fail srv (''check '' @ what @ '' event '' @ quoted_id srv eid @ '': '') e
      | Inr exists \<Rightarrow> if exists then raise ErrEventAlreadyExists else k) s1 = (Inr y, s')"
    unfolding check_event_def by (elim bind_Inr_cases)
  then have a0: "a = Inr False" "k s1 = (Inr y, s')"
    by (auto simp: raise_def sql_fail_def split: sum.splits if_splits)
  let ?q = "\<lambda>d. (if list_ex (\<lambda>r. eq_text srv (id_e r) eid) (event_rows d) then Inr () else Inl ErrNoRows, d)"
  from a(1) a0(1) have "statement ExecTx ?q s = (Inr (Inl ErrNoRows), s1)"
    unfolding eventExists_def by (auto elim!: bind_Inr_cases simp: ret_def split: sum.splits if_splits)
  with statement_done [OF assms(1), of ExecTx ?q]
  have "\<not> list_ex (\<lambda>r. eq_text srv (id_e r) eid) (event_rows (tables_se s))" "tables_se s1 = tables_se s"
    "alone s1" "locked_se s1 = locked_se s" by auto
  with a0 event_known_rows [OF assms(3-5)] that [of s1] show ?thesis by auto
qed

section \<open>Updates of one task\<close>

lemma update_member:
  "(k, t) \<in> set (AList.update k0 u kts) \<Longrightarrow> (k = k0 \<and> t = u) \<or> (k, t) \<in> set kts"
  by (induction kts) (auto split: if_splits)

text \<open>A statement \<open>UPDATE ... WHERE id = ? AND version = ? ...\<close> that changed one row.\<close>

lemma update_tasks_hit:
  assumes h: "holds_tasks srv A (task_rows d) kts" "server_ok srv A" "tid \<in> A"
    and upd: "update_tasks srv keep chg d = (Inr (Suc n), d')"
    and keep: "\<And>r. keep r \<Longrightarrow> eq_text srv (id_c r) tid"
  shows "\<exists>t r. map_of kts tid = Some t \<and> keep (row_of srv t) \<and> chg (row_of srv t) = Inr r \<and>
    (\<forall>u. r = row_of srv u \<longrightarrow> ID u = tid \<longrightarrow> storable srv A u \<longrightarrow>
       event_rows d' = event_rows d \<and> holds_tasks srv A (task_rows d') (AList.update tid u kts))"
proof -
  from upd obtain rows' where rows': "update_rows srv keep chg (task_rows d) = Inr (Suc n, rows')"
    "d' = d\<lparr>task_rows := rows'\<rparr>" by (auto simp: update_tasks_def split: sum.splits)
  have only: "k' = tid" if "(k', t) \<in> set kts" "keep (row_of srv t)" for k' t
    using holds_tasks_storable [OF h(1) that(1)] keep [OF that(2)] server_ok_text(1) [OF h(2) _ h(3)]
    by (auto simp: storable_def)
  have kts: "distinct (map fst kts)" "\<forall>(k, t) \<in> set kts. k = ID t"
    "task_rows d = map (\<lambda>(k, t). row_of srv t) kts" using h(1) by (auto simp: holds_tasks_def)
  obtain t r where tr: "map_of kts tid = Some t" "keep (row_of srv t)" "chg (row_of srv t) = Inr r"
    "\<forall>u. r = row_of srv u \<longrightarrow> rows' = map (\<lambda>(k, t). row_of srv t) (AList.update tid u kts)"
    using update_rows_hit [OF kts(1,2) rows'(1) [unfolded kts(3)], of tid] only by blast
  have "holds_tasks srv A rows' (AList.update tid u kts)"
    if "r = row_of srv u" "ID u = tid" "storable srv A u" for u
    using that tr(4) h(1) kts(1)
    by (auto simp: holds_tasks_def distinct_update dest!: update_member)
  with tr rows'(2) show ?thesis by (intro exI [of _ t] exI [of _ r]) auto
qed

lemmas update_tasks_done = update_tasks_hit [where n = 0, folded One_nat_def]

lemma update_tasks_unchanged:
  assumes "update_tasks srv keep chg d = (Inr 0, d')"
  shows "d' = d"
proof -
  have "rows' = rows" if "update_rows srv keep chg rows = Inr (0, rows')" for rows rows'
    using that
    by (induction rows arbitrary: rows')
      (auto simp: map_sum_def map_prod_def split: if_splits sum.splits option.splits)
  with assms show ?thesis by (auto simp: update_tasks_def split: sum.splits)
qed

text \<open>\<open>row_of\<close> of an updated task, column by column.\<close>

lemma bump_row:
  "bump_version r = Inr q \<Longrightarrow> q = r\<lparr>version_c := version_c r + 1\<rparr>"
  by (auto simp: bump_version_def split: if_splits)

lemma kept_nullable: "pred_option (kept_time srv) v \<Longrightarrow> nullableTime srv v = v"
  by (cases v) (simp_all add: nullableTime_def kept_time_def)

lemma json_value_done:
  assumes "json_value srv c (nullableJSON raw) = Inr res"
  shows "res = json_of srv raw" "raw \<noteq> [] \<longrightarrow> json_column srv raw \<noteq> None"
  using assms by (cases "json_column srv raw"; auto simp: json_value_def nullableJSON_def json_of_def split: if_splits)+

lemma updateTask_done:
  assumes al: "alone s" and upd: "updateTask srv ex (Some t) s = (Inr u, s1)"
    and h: "holds_tasks srv A (task_rows (tables_se s)) kts" "server_ok srv A"
    and t: "ID t \<in> A" "kept_times srv t" "LeaseOwner t \<noteq> [] \<longrightarrow> LeaseOwner t \<in> A" "\<forall>x. Status t \<noteq> OtherStatus x"
      "LeaseToken t = [] \<and> TaskID t = [] \<and> LeaseUntil t = None"
    and frame: "\<And>st. map_of kts (ID t) = Some st \<Longrightarrow> Version st = Version t \<Longrightarrow>
      Workflow t = Workflow st \<and> CreatedAt t = CreatedAt st"
  shows "\<exists>st. map_of kts (ID t) = Some st \<and> Version st = Version t \<and> IdempotencyKey st = IdempotencyKey t \<and>
    alone s1 \<and> event_rows (tables_se s1) = event_rows (tables_se s) \<and>
    holds_tasks srv A (task_rows (tables_se s1)) (AList.update (ID t) (t\<lparr>Input := Input st, Version := Version t + 1\<rparr>) kts)"
proof -
  from upd obtain a s2 where "late_statement ex (updateTaskQuery srv t) s = (Inr a, s2)" "a = Inr (Inr 1)" "s2 = s1"
    unfolding updateTask_def
    by (auto elim!: bind_Inr_cases simp: ret_def raise_def sql_fail_def split: sum.splits if_splits)
  with late_statement_done [OF al, of ex "updateTaskQuery srv t" 1 s1] have
    d: "updateTaskQuery srv t (tables_se s) = (Inr 1, tables_se s1)" "alone s1" by auto
  then obtain res where res: "json_value srv ''tasks.result_json'' (nullableJSON (Result t)) = Inr res"
    by (auto simp: updateTaskQuery_def split: sum.splits)
  note res' = json_value_done [OF res]
  from update_tasks_done [OF h t(1) d(1) [unfolded updateTaskQuery_def res sum.case]]
  obtain st r where st: "map_of kts (ID t) = Some st"
    "by_version srv t (row_of srv st)" "idempotency_key_c (row_of srv st) = nullableString (IdempotencyKey t)"
    and r: "bump_version ((row_of srv st)\<lparr>
               status_c := status_text (Status t), result_json_c := res,
               error_message_c := nullableString (ErrorMessage t), progress_c := Progress t,
               retry_count_c := RetryCount t, max_retries_c := MaxRetries t,
               available_at_c := datetime6 srv (AvailableAt t), lease_owner_c := nullableString (LeaseOwner t),
               lease_expires_at_c := nullableTime srv (LeaseExpiresAt t),
               last_heartbeat_at_c := nullableTime srv (LastHeartbeatAt t),
               updated_at_c := datetime6 srv (UpdatedAt t), started_at_c := nullableTime srv (StartedAt t),
               finished_at_c := nullableTime srv (FinishedAt t)\<rparr>) = Inr r"
    and all: "\<forall>u. r = row_of srv u \<longrightarrow> ID u = ID t \<longrightarrow> storable srv A u \<longrightarrow>
       event_rows (tables_se s1) = event_rows (tables_se s) \<and>
       holds_tasks srv A (task_rows (tables_se s1)) (AList.update (ID t) u kts)"
    by (fastforce simp: by_version_def)
  note e = holds_tasks_entry [OF h(1) st(1)]
  have v: "Version st = Version t" using st(2) by (simp add: by_version_def)
  have key: "IdempotencyKey st = IdempotencyKey t"
    using st(3) by (simp add: nullableString_def split: if_splits)
  note fr = frame [OF st(1) v]
  have "r = row_of srv (t\<lparr>Input := Input st, Version := Version t + 1\<rparr>)"
    using bump_row [OF r] t(2) fr v key e(1) res'(1)
    by (simp add: row_of_def kept_times_def kept_nullable kept_time_def)
  moreover have "storable srv A (t\<lparr>Input := Input st, Version := Version t + 1\<rparr>)"
    using e t fr res'(2) by (simp add: storable_def kept_times_def)
  ultimately show ?thesis using all st(1) v key d(2) by (intro exI [of _ st]) simp
qed

section \<open>Claims and expired leases\<close>

text \<open>
  No two rows have the same lease end: then \<open>ORDER BY lease_expires_at, created_at, id\<close> orders the
  rows as the memory store does, which compares the lease end and the id only.
\<close>

definition lease_ends_differ :: "tables \<Rightarrow> bool" where
  "lease_ends_differ d \<longleftrightarrow>
     (\<forall>r \<in> set (task_rows d). \<forall>q \<in> set (task_rows d).
        lease_expires_at_c r \<noteq> None \<longrightarrow> lease_expires_at_c r = lease_expires_at_c q \<longrightarrow> id_c r = id_c q)"

lemma lease_order:
  assumes h: "holds_tasks srv A (task_rows d) kts" "server_ok srv A" and d: "lease_ends_differ d"
    and t: "(k, t) \<in> set kts" "LeaseExpiresAt t \<noteq> None" and u: "(k', u) \<in> set kts" "LeaseExpiresAt u \<noteq> None"
  shows "row_before srv (\<lambda>r. the (lease_expires_at_c r)) (row_of srv t) (row_of srv u) \<longleftrightarrow> lease_before t u"
proof -
  have in_A: "ID t \<in> A" "ID u \<in> A" and k: "k = ID t" "k' = ID u"
    using holds_tasks_storable [OF h(1)] t(1) u(1) by (auto simp: storable_def)
  have rows: "row_of srv t \<in> set (task_rows d)" "row_of srv u \<in> set (task_rows d)"
    using h(1) t(1) u(1) by (force simp: holds_tasks_def)+
  show ?thesis
  proof (cases "LeaseExpiresAt t = LeaseExpiresAt u")
    case True
    with d rows t(2) have "ID t = ID u" unfolding lease_ends_differ_def by (metis row_of_simps(1,8))
    moreover have "distinct (map fst kts)" using h(1) by (simp add: holds_tasks_def)
    ultimately have "t = u" using t(1) u(1) k by (simp add: eq_key_imp_eq_value)
    with in_A h(2) show ?thesis by (simp add: row_before_def lease_before_def server_ok_text)
  next
    case False
    with t(2) u(2) show ?thesis by (auto simp: row_before_def lease_before_def)
  qed
qed

lemma ready_order:
  assumes "holds_tasks srv A (task_rows d) kts" "server_ok srv A" "(k, t) \<in> set kts" "(k', u) \<in> set kts"
  shows "row_before srv available_at_c (row_of srv t) (row_of srv u) \<longleftrightarrow> ready_before t u"
proof -
  have "ID t \<in> A" "ID u \<in> A" using holds_tasks_storable [OF assms(1)] assms(3,4) by (auto simp: storable_def)
  with assms(2) show ?thesis by (auto simp: row_before_def ready_before_def server_ok_text)
qed

lemma row_status:
  assumes "server_ok srv A" "storable srv A t" "\<forall>s. st \<noteq> OtherStatus s"
  shows "eq_text srv (status_text (Status t)) (status_text st) \<longleftrightarrow> Status t = st"
proof -
  have k: "\<forall>s. Status t \<noteq> OtherStatus s" using assms(2) by (simp add: storable_def)
  show ?thesis
    unfolding server_ok_text(1) [OF assms(1) server_ok_status [OF assms(1) k] server_ok_status [OF assms(1,3)]]
    by (rule status_text_known [OF k assms(3)])
qed

definition options_ok :: "mysql_server \<Rightarrow> string set \<Rightarrow> ClaimOptions \<Rightarrow> bool" where
  "options_ok srv A o1 \<longleftrightarrow>
     WorkerID_co o1 \<in> A \<and> (Workflow_co o1 = [] \<or> Workflow_co o1 \<in> A) \<and> kept_time srv (Now_co o1) \<and>
     kept_time srv (Add_time (Now_co o1) (LeaseDuration_co o1))"

lemma expired_row:
  assumes "server_ok srv A" "storable srv A t" "options_ok srv A o1"
  shows "(lease_over srv (Now_co o1) (row_of srv t) \<and> workflow_clause srv o1 (row_of srv t) \<and>
      retry_count_c (row_of srv t) < max_retries_c (row_of srv t)) \<longleftrightarrow> expired_claimable o1 t"
  using assms(2,3) row_status [OF assms(1,2), of TaskStatusRunning]
    server_ok_text(1) [OF assms(1), of "Workflow t" "Workflow_co o1"]
  by (auto simp: lease_over_def workflow_clause_def expired_claimable_def workflow_skip_def options_ok_def
      kept_time_def storable_def split: option.splits)

lemma ready_row:
  assumes "server_ok srv A" "storable srv A t" "options_ok srv A o1"
  shows "((eq_text srv (status_c (row_of srv t)) (status_text TaskStatusQueued) \<or>
        eq_text srv (status_c (row_of srv t)) (status_text TaskStatusRetrying)) \<and>
      workflow_clause srv o1 (row_of srv t) \<and> available_at_c (row_of srv t) \<le> datetime6 srv (Now_co o1)) \<longleftrightarrow>
    ready_claimable o1 t"
  using assms(2,3) row_status [OF assms(1,2), of TaskStatusQueued] row_status [OF assms(1,2), of TaskStatusRetrying]
    server_ok_text(1) [OF assms(1), of "Workflow t" "Workflow_co o1"]
  by (auto simp: workflow_clause_def ready_claimable_def workflow_skip_def options_ok_def kept_time_def storable_def)

text \<open>The task that the queries select is the one that the memory store selects.\<close>

lemma claim_queries:
  assumes h: "holds_tasks srv A (task_rows d) (tasks ts)" "server_ok srv A" "options_ok srv A o1"
    and diff: "lease_ends_differ d"
  shows "expiredQuery srv (\<lambda>_. False) o1 d =
      (case scan_tasks (expired_claimable o1) lease_before (tasks ts) of
         None \<Rightarrow> Inl ErrNoRows | Some (k, t) \<Rightarrow> Inr (row_of srv t), d)"
    and "nextQuery srv (\<lambda>_. False) o1 d =
      (case scan_tasks (ready_claimable o1) ready_before (tasks ts) of
         None \<Rightarrow> Inl ErrNoRows | Some (k, t) \<Rightarrow> Inr (row_of srv t), d)"
proof -
  let ?q1 = "expiredQuery srv (\<lambda>_. False) o1" and ?q2 = "nextQuery srv (\<lambda>_. False) o1"
  let ?e = "scan_tasks (expired_claimable o1) lease_before (tasks ts)"
  let ?r = "scan_tasks (ready_claimable o1) ready_before (tasks ts)"
  note st = holds_tasks_storable [OF h(1)]
  show "?q1 d = (case ?e of None \<Rightarrow> Inl ErrNoRows | Some (k, t) \<Rightarrow> Inr (row_of srv t), d)"
  proof -
    obtain a d' where f: "?q1 d = (a, d')" by force
    note r = first_row_scan [OF h(1) f [unfolded expiredQuery_eq],
        where keep' = "expired_claimable o1" and better = lease_before]
    have keep: "(lease_over srv (Now_co o1) (row_of srv t) \<and> workflow_clause srv o1 (row_of srv t) \<and>
        retry_count_c (row_of srv t) < max_retries_c (row_of srv t) \<and> \<not> False) = expired_claimable o1 t"
      if "(k, t) \<in> set (tasks ts)" for k t
      using expired_row [OF h(2) conjunct2 [OF st [OF that]] h(3)] by simp
    have better: "row_before srv (\<lambda>r. the (lease_expires_at_c r)) (row_of srv t) (row_of srv u) = lease_before t u"
      if "(k, t) \<in> set (tasks ts)" "(k', u) \<in> set (tasks ts)" "expired_claimable o1 t" "expired_claimable o1 u" for k t k' u
      by (rule lease_order [OF h(1,2) diff that(1) _ that(2)]) (use that in \<open>auto simp: expired_claimable_def split: option.splits\<close>)
    from r [OF keep better] f show ?thesis by simp
  qed
  show "?q2 d = (case ?r of None \<Rightarrow> Inl ErrNoRows | Some (k, t) \<Rightarrow> Inr (row_of srv t), d)"
  proof -
    obtain a d' where f: "?q2 d = (a, d')" by force
    note r = first_row_scan [OF h(1) f [unfolded nextQuery_eq],
        where keep' = "ready_claimable o1" and better = ready_before]
    have keep: "((eq_text srv (status_c (row_of srv t)) (status_text TaskStatusQueued) \<or>
          eq_text srv (status_c (row_of srv t)) (status_text TaskStatusRetrying)) \<and>
        workflow_clause srv o1 (row_of srv t) \<and> available_at_c (row_of srv t) \<le> datetime6 srv (Now_co o1) \<and> \<not> False) =
        ready_claimable o1 t"
      if "(k, t) \<in> set (tasks ts)" for k t
      using ready_row [OF h(2) conjunct2 [OF st [OF that]] h(3)] by simp
    from r [OF keep ready_order [OF h(1,2)]] f show ?thesis by simp
  qed
qed

lemma select_claim_my_done:
  assumes al: "alone s" "locked_se s = (\<lambda>_. False)" and sel: "select_claim_my srv o1 s = (Inr (x, kind), s1)"
    and h: "holds_tasks srv A (task_rows (tables_se s)) (tasks ts)" "server_ok srv A" "options_ok srv A o1"
    and d: "lease_ends_differ (tables_se s)"
  shows "\<exists>k t. select_claim (\<lambda>m. m) (\<lambda>m. m) o1 ts = Some ((k, t), kind) \<and> (k, t) \<in> set (tasks ts) \<and>
    x = as_read srv t \<and> alone s1 \<and> tables_se s1 = tables_se s"
proof -
  let ?q1 = "expiredQuery srv (locked_se s) o1" and ?q2 = "nextQuery srv (locked_se s) o1"
  let ?e = "scan_tasks (expired_claimable o1) lease_before (tasks ts)"
  let ?r = "scan_tasks (ready_claimable o1) ready_before (tasks ts)"
  note st = holds_tasks_storable [OF h(1)]
  have read: "scanTask (row_of srv t) = as_read srv t" if "(k, t) \<in> set (tasks ts)" for k t
    by (rule scanTask_row_of [OF conjunct2 [OF st [OF that]]])
  note q1 = claim_queries(1) [OF h d, folded al(2)] and q2 = claim_queries(2) [OF h d, folded al(2)]
  from sel [unfolded select_claim_my_def] obtain a s2 where a: "query_task ExecTx ?q1 s = (Inr a, s2)"
    and a2: "(case a of
         Inr t \<Rightarrow> ret (t, ClaimRecovery)
       | Inl e \<Rightarrow>
           if e \<noteq> ErrNoRows then sql_fail srv ''select next task for claim: '' e
           else bind (query_task ExecTx ?q2) (\<lambda>b.
             case b of
               Inr t \<Rightarrow> ret (t, if Status t = TaskStatusRetrying then ClaimRetry else ClaimInitial)
             | Inl e \<Rightarrow>
                 if e = ErrNoRows then raise ErrNoTaskAvailable
                 else sql_fail srv ''select next task for claim: '' e)) s2 = (Inr (x, kind), s1)"
    by (rule bind_Inr_cases)
  show ?thesis
  proof (cases a)
    case (Inr y)
    with a2 have y: "y = x" "kind = ClaimRecovery" "s2 = s1" by (auto simp: ret_def)
    obtain r where r: "?q1 (tables_se s) = (Inr r, tables_se s1)" "x = scanTask r" "alone s1"
      using query_task_found [OF al(1), of ExecTx ?q1 x s1] a Inr y by blast
    with q1 obtain k t where
      "?e = Some (k, t)" "x = scanTask (row_of srv t)" "alone s1" "tables_se s1 = tables_se s"
      by (cases ?e) auto
    moreover from this(1) have "(k, t) \<in> set (tasks ts)" by (auto dest: scan_tasks_Some)
    ultimately show ?thesis using y(2) read by (auto simp: select_claim_def)
  next
    case (Inl e)
    with a2 have e: "e = ErrNoRows" by (auto simp: sql_fail_def raise_def split: if_splits)
    note none2 = query_task_none [OF al(1) a [unfolded Inl e]]
    with q1 have none: "?e = None" and s2: "alone s2" "tables_se s2 = tables_se s"
      by (cases ?e; auto)+
    from a2 Inl e obtain b s3 where b: "query_task ExecTx ?q2 s2 = (Inr b, s3)"
      and b2: "(case b of
               Inr t \<Rightarrow> ret (t, if Status t = TaskStatusRetrying then ClaimRetry else ClaimInitial)
             | Inl e \<Rightarrow>
                 if e = ErrNoRows then raise ErrNoTaskAvailable
                 else sql_fail srv ''select next task for claim: '' e) s3 = (Inr (x, kind), s1)"
      by (auto elim: bind_Inr_cases)
    from b2 obtain y where y: "b = Inr y" "y = x" "s3 = s1"
      "kind = (if Status x = TaskStatusRetrying then ClaimRetry else ClaimInitial)"
      by (auto simp: ret_def raise_def sql_fail_def split: sum.splits if_splits)
    obtain r where r: "?q2 (tables_se s) = (Inr r, tables_se s1)" "x = scanTask r" "alone s1"
      using query_task_found [OF s2(1), of ExecTx ?q2 x s1] b y s2(2) by metis
    with q2 obtain k t where
      "?r = Some (k, t)" "x = scanTask (row_of srv t)" "alone s1" "tables_se s1 = tables_se s"
      by (cases ?r) auto
    moreover from this(1) have "(k, t) \<in> set (tasks ts)" by (auto dest: scan_tasks_Some)
    ultimately show ?thesis using y(4) read none by (auto simp: select_claim_def)
  qed
qed

end
