(* ===== verification/MySqlRefines.thy ===== *)
theory MySqlRefines
  imports MySqlOps
begin

text \<open>
  The MySQL stores refine the memory stores.  First the operations inside transactions, then
  every store operation as a step of the database, and the simulation: whatever sequence of
  operations runs, with failing statements and lost commits, the tables hold the tasks and events
  of a memory store that a sequence of its own operations reaches.
\<close>

section \<open>Inside a transaction\<close>

lemma as_read_claimed: "claimed o1 kind (as_read srv t) = as_read srv (claimed o1 kind t)"
  by (simp add: claimed_def as_read_def grant_lease_def enter_status_def)

lemma claimed_storable:
  assumes "storable srv A t" "options_ok srv A o1"
  shows "storable srv A (claimed o1 kind t)"
  using assms
  by (auto simp: storable_def options_ok_def claimed_def grant_lease_def enter_status_def kept_times_def)

lemma claimNextInTx_done:
  assumes al: "alone s" "locked_se s = (\<lambda>_. False)" and run: "claimNextInTx srv o1 s = (Inr (x, kind), s1)"
    and h: "holds_tasks srv A (task_rows (tables_se s)) (tasks ts)" "server_ok srv A" "options_ok srv A o1"
    and d: "lease_ends_differ (tables_se s)" and v: "Validate_claim o1 = None"
  shows "\<exists>k t. select_claim (\<lambda>m. m) (\<lambda>m. m) o1 ts = Some ((k, t), kind) \<and> (k, t) \<in> set (tasks ts) \<and>
    x = as_read srv (claimed o1 kind t) \<and> alone s1 \<and> event_rows (tables_se s1) = event_rows (tables_se s) \<and>
    holds_tasks srv A (task_rows (tables_se s1)) (AList.update k (claimed o1 kind t) (tasks ts))"
proof -
  from run [unfolded claimNextInTx_def] obtain tk s2 where sel: "select_claim_my srv o1 s = (Inr tk, s2)" and
    rest: "(\<lambda>(t, kind). bind (if kind = ClaimRecovery
           then ret (t\<lparr>RetryCount := i64 (RetryCount t + 1), UpdatedAt := Now_co o1\<rparr>)
           else (case MoveTo (Some t) TaskStatusRunning (Now_co o1) of
               Inl e \<Rightarrow> raise (Wrap (''move claimed task '' @ quoted_id srv (ID t) @ '' to running: '') e [])
             | Inr t1 \<Rightarrow> ret t1)) (\<lambda>t1.
     let t2 = t1\<lparr>LeaseOwner := WorkerID_co o1,
           LeaseExpiresAt := Some (Add_time (Now_co o1) (LeaseDuration_co o1)), LastHeartbeatAt := None\<rparr> in
     bind (late_statement ExecTx (claim_update srv t2)) (\<lambda>a.
     bind (one_changed srv (''mark claimed task '' @ quoted_id srv (ID t2) @ '' as running: '')
        (''read claimed row count for task '' @ quoted_id srv (ID t2) @ '': '')
        (wrong_count srv ''claim task '' t2) a) (\<lambda>_.
     ret (t2\<lparr>Version := Version t2 + 1\<rparr>, kind))))) tk s2 = (Inr (x, kind), s1)"
    by (rule bind_Inr_cases)
  obtain y kind' where tk: "tk = (y, kind')" by force
  from rest tk have kind: "kind' = kind"
    by (auto elim!: bind_Inr_cases simp: ret_def raise_def Let_def)
  from select_claim_my_done [OF al sel [unfolded tk kind] h d] obtain k t where
    t: "select_claim (\<lambda>m. m) (\<lambda>m. m) o1 ts = Some ((k, t), kind)" "(k, t) \<in> set (tasks ts)" "y = as_read srv t"
    and s2: "alone s2" "tables_se s2 = tables_se s" by blast
  note st = holds_tasks_storable [OF h(1) t(2)]
  from select_claim_Some [OF t(1)] have c: "claimable o1 kind t" by simp
  define u where "u = (if kind = ClaimRecovery then y\<lparr>RetryCount := i64 (RetryCount y + 1), UpdatedAt := Now_co o1\<rparr>
    else enter_status TaskStatusRunning (Now_co o1) (y\<lparr>Status := TaskStatusRunning, UpdatedAt := Now_co o1\<rparr>))"
  define t2 where "t2 = u\<lparr>LeaseOwner := WorkerID_co o1,
    LeaseExpiresAt := Some (Add_time (Now_co o1) (LeaseDuration_co o1)), LastHeartbeatAt := None\<rparr>"
  have mv: "kind \<noteq> ClaimRecovery \<Longrightarrow> MoveTo (Some y) TaskStatusRunning (Now_co o1) = Inr u"
    using c t(3) by (auto simp: MoveTo_def u_def claimable_def)
  have cl: "t2\<lparr>Version := Version t2 + 1\<rparr> = as_read srv (claimed o1 kind t)"
    unfolding as_read_claimed [symmetric] t(3) [symmetric]
    by (simp add: t2_def u_def claimed_def grant_lease_def)
  from rest [unfolded tk kind prod.case] mv u_def
  have "bind (late_statement ExecTx (claim_update srv t2)) (\<lambda>a.
     bind (one_changed srv (''mark claimed task '' @ quoted_id srv (ID t2) @ '' as running: '')
        (''read claimed row count for task '' @ quoted_id srv (ID t2) @ '': '')
        (wrong_count srv ''claim task '' t2) a) (\<lambda>_.
     ret (t2\<lparr>Version := Version t2 + 1\<rparr>, kind))) s2 = (Inr (x, kind), s1)"
    by (cases "kind = ClaimRecovery") (simp_all add: Let_def t2_def)
  then have upd: "late_statement ExecTx (claim_update srv t2) s2 = (Inr (Inr (Inr 1)), s1)"
    and x: "x = t2\<lparr>Version := Version t2 + 1\<rparr>"
    by (auto elim!: bind_Inr_cases dest!: one_changed_done simp: ret_def)
  from late_statement_done [OF s2(1) upd] s2(2)
  have run2: "claim_update srv t2 (tables_se s) = (Inr 1, tables_se s1)" and s1: "alone s1" by auto
  have ids: "ID t2 = k" "Version t2 = Version t" using st t(3) by (auto simp: t2_def u_def enter_status_def)
  have "ID t2 \<in> A" using ids st by (simp add: storable_def)
  from update_tasks_done [OF h(1,2) this run2 [unfolded claim_update_def]] obtain t' r where
    t': "map_of (tasks ts) (ID t2) = Some t'" and
    r: "bump_version ((row_of srv t')\<lparr>
       status_c := status_text (Status t2), retry_count_c := RetryCount t2,
       updated_at_c := datetime6 srv (UpdatedAt t2), started_at_c := nullableTime srv (StartedAt t2),
       lease_owner_c := Some (LeaseOwner t2), lease_expires_at_c := nullableTime srv (LeaseExpiresAt t2),
       last_heartbeat_at_c := None\<rparr>) = Inr r" and
    all: "\<forall>u. r = row_of srv u \<longrightarrow> ID u = ID t2 \<longrightarrow> storable srv A u \<longrightarrow>
       event_rows (tables_se s1) = event_rows (tables_se s) \<and>
       holds_tasks srv A (task_rows (tables_se s1)) (AList.update (ID t2) u (tasks ts))"
    by (fastforce simp: by_version_def)
  have "t' = t" using t' t(2) h(1) ids(1) by (simp add: holds_tasks_def)
  moreover have sto: "storable srv A (claimed o1 kind t)" using st h(3) by (simp add: claimed_storable)
  moreover have "WorkerID_co o1 \<noteq> []" using v by (auto simp: Validate_claim_def split: if_splits)
  ultimately have "r = row_of srv (claimed o1 kind t)"
    using bump_row [OF r] t(3) st h(3)
    by (auto simp: row_of_def claimed_def grant_lease_def t2_def u_def enter_status_def nullableString_def
        options_ok_def kept_time_def storable_def kept_times_def nullableTime_def 
        split: option.splits)
  moreover have "ID (claimed o1 kind t) = ID t2"
    using st ids by (simp add: claimed_def grant_lease_def enter_status_def)
  ultimately show ?thesis using all sto t s1 cl x ids(1) by (intro exI [of _ k] exI [of _ t]) simp
qed

lemma as_read_expired: "expired_failed now (as_read srv t) = as_read srv (expired_failed now t)"
  by (simp add: expired_failed_def as_read_def enter_status_def Let_def)

lemma failNextExpiredInTx_done:
  assumes al: "alone s" "locked_se s = (\<lambda>_. False)" and run: "failNextExpiredInTx srv now s = (Inr x, s1)"
    and h: "holds_tasks srv A (task_rows (tables_se s)) (tasks ts)" "server_ok srv A" "kept_time srv now"
    and d: "lease_ends_differ (tables_se s)"
  shows "\<exists>k t. scan_tasks (expired_exhausted now) lease_before (tasks ts) = Some (k, t) \<and> (k, t) \<in> set (tasks ts) \<and>
    x = as_read srv (expired_failed now t) \<and> alone s1 \<and> event_rows (tables_se s1) = event_rows (tables_se s) \<and>
    holds_tasks srv A (task_rows (tables_se s1)) (AList.update k (expired_failed now t) (tasks ts))"
proof -
  let ?q = "selectExpiredExhaustedTaskQuery srv (locked_se s) now"
  let ?e = "scan_tasks (expired_exhausted now) lease_before (tasks ts)"
  note st = holds_tasks_storable [OF h(1)]
  have q: "?q (tables_se s) = (case ?e of None \<Rightarrow> Inl ErrNoRows | Some (k, t) \<Rightarrow> Inr (row_of srv t), tables_se s)"
  proof -
    obtain a d' where f: "?q (tables_se s) = (a, d')" by force
    note r = first_row_scan [OF h(1) f [unfolded selectExpiredExhaustedTaskQuery_def al(2)],
        where keep' = "expired_exhausted now" and better = lease_before]
    have keep: "(lease_over srv now (row_of srv t) \<and> max_retries_c (row_of srv t) \<le> retry_count_c (row_of srv t) \<and>
        \<not> False) = expired_exhausted now t"
      if "(k, t) \<in> set (tasks ts)" for k t
      using row_status [OF h(2) conjunct2 [OF st [OF that]], of TaskStatusRunning] h(3)
      by (auto simp: lease_over_def expired_exhausted_def kept_time_def split: option.splits)
    have better: "row_before srv (\<lambda>r. the (lease_expires_at_c r)) (row_of srv t) (row_of srv u) = lease_before t u"
      if "(k, t) \<in> set (tasks ts)" "(k', u) \<in> set (tasks ts)" "expired_exhausted now t" "expired_exhausted now u" for k t k' u
      by (rule lease_order [OF h(1,2) d that(1) _ that(2)]) (use that in \<open>auto simp: expired_exhausted_def split: option.splits\<close>)
    from r [OF keep better] f show ?thesis by simp
  qed
  from run [unfolded failNextExpiredInTx_def] obtain a s2 where a: "query_task ExecTx ?q s = (Inr a, s2)" and
    rest: "(case a of
         Inl e \<Rightarrow>
           if e = ErrNoRows then raise ErrNoExpiredTask
           else sql_fail srv ''select expired exhausted task: '' e
       | Inr t \<Rightarrow>
           (case MoveTo (Some (t\<lparr>ErrorMessage := expired_message\<rparr>)) TaskStatusFailed now of
              Inl e \<Rightarrow> raise (Wrap (''fail expired task '' @ quoted_id srv (ID t) @ '': '') e [])
            | Inr t1 \<Rightarrow>
                bind (late_statement ExecTx (expire_update srv t1)) (\<lambda>b.
                bind (one_changed srv (''persist expired task '' @ quoted_id srv (ID t1) @ '' failure: '')
                   (''read expired task '' @ quoted_id srv (ID t1) @ '' cleanup row count: '')
                   (wrong_count srv ''cleanup expired task '' t1) b) (\<lambda>_.
                ret (t1\<lparr>Version := Version t1 + 1\<rparr>))))) s2 = (Inr x, s1)"
    by (rule bind_Inr_cases)
  then obtain y where y: "a = Inr y" by (cases a) (auto simp: raise_def sql_fail_def split: if_splits)
  obtain r0 where r0: "?q (tables_se s) = (Inr r0, tables_se s2)" "y = scanTask r0" and s2: "alone s2"
    using query_task_found [OF al(1), of ExecTx ?q y s2] a y by blast
  with q obtain k t where t: "?e = Some (k, t)" "y = scanTask (row_of srv t)" "tables_se s2 = tables_se s"
    by (cases ?e) auto
  then have m: "(k, t) \<in> set (tasks ts)" "expired_exhausted now t" by (auto dest: scan_tasks_Some)
  note sto = st [OF m(1)]
  have yt: "y = as_read srv t" using t(2) scanTask_row_of sto by blast
  define t1 where "t1 = enter_status TaskStatusFailed now
    (y\<lparr>ErrorMessage := expired_message, Status := TaskStatusFailed, UpdatedAt := now\<rparr>)"
  have "MoveTo (Some (y\<lparr>ErrorMessage := expired_message\<rparr>)) TaskStatusFailed now = Inr t1"
    using m(2) yt by (simp add: MoveTo_def t1_def expired_exhausted_def)
  with rest y have upd: "late_statement ExecTx (expire_update srv t1) s2 = (Inr (Inr (Inr 1)), s1)"
    and x: "x = t1\<lparr>Version := Version t1 + 1\<rparr>"
    by (auto elim!: bind_Inr_cases dest!: one_changed_done simp: ret_def)
  have cl: "x = as_read srv (expired_failed now t)"
    unfolding as_read_expired [symmetric] yt [symmetric] x by (simp add: t1_def expired_failed_def Let_def)
  from late_statement_done [OF s2 upd] t(3)
  have run2: "expire_update srv t1 (tables_se s) = (Inr 1, tables_se s1)" and s1: "alone s1" by auto
  have ids: "ID t1 = k" "Version t1 = Version t" using sto yt by (auto simp: t1_def enter_status_def)
  have "ID t1 \<in> A" using ids sto by (simp add: storable_def)
  from update_tasks_done [OF h(1,2) this run2 [unfolded expire_update_def]] obtain t' r where
    t': "map_of (tasks ts) (ID t1) = Some t'" and
    r: "bump_version ((row_of srv t')\<lparr>
       status_c := status_text (Status t1), error_message_c := Some (ErrorMessage t1),
       updated_at_c := datetime6 srv (UpdatedAt t1), finished_at_c := nullableTime srv (FinishedAt t1),
       lease_owner_c := None, lease_expires_at_c := None\<rparr>) = Inr r" and
    all: "\<forall>u. r = row_of srv u \<longrightarrow> ID u = ID t1 \<longrightarrow> storable srv A u \<longrightarrow>
       event_rows (tables_se s1) = event_rows (tables_se s) \<and>
       holds_tasks srv A (task_rows (tables_se s1)) (AList.update (ID t1) u (tasks ts))"
    by (fastforce simp: by_version_def)
  have "t' = t" using t' m(1) h(1) ids(1) by (simp add: holds_tasks_def)
  then have "r = row_of srv (expired_failed now t)"
    using bump_row [OF r] yt h(3)
    by (simp add: row_of_def expired_failed_def t1_def enter_status_def nullableString_def Let_def
        kept_time_def nullableTime_def expired_message_def)
  moreover have "storable srv A (expired_failed now t)" "ID (expired_failed now t) = ID t1"
    using sto ids h(3) by (auto simp: expired_failed_def storable_def kept_times_def enter_status_def Let_def)
  ultimately show ?thesis using all t(1) m s1 cl ids(1) by (intro exI [of _ k] exI [of _ t]) simp
qed

section \<open>Creation\<close>

lemma index_key_inj:
  assumes "CHR 0x00 \<notin> set w" "CHR 0x00 \<notin> set w'"
  shows "idempotencyIndexKey w k = idempotencyIndexKey w' k' \<longleftrightarrow> w = w' \<and> k = k'"
proof
  assume "idempotencyIndexKey w k = idempotencyIndexKey w' k'"
  then have e: "w @ CHR 0x00 # k = w' @ CHR 0x00 # k'" by (simp add: idempotencyIndexKey_def)
  have "takeWhile (\<lambda>c. c \<noteq> CHR 0x00) (v @ CHR 0x00 # j) = v" if "CHR 0x00 \<notin> set v" for v j :: string
    using that by (induction v) auto
  with e assms have "w = w'" by metis
  with e show "w = w' \<and> k = k'" by simp
qed simp

lemma key_index_lookup: "key_index_wf ts \<Longrightarrow> taskIDsByIdempotencyKey ts k = Some tid \<Longrightarrow> \<exists>t. lookup_task ts tid = Some t"
  by (auto simp: key_index_wf_def)

text \<open>A row with the key of a request is the row of the task that the index names.\<close>

lemma key_row:
  assumes h: "holds_tasks srv A rows (tasks ts)" "server_ok srv A" and idx: "key_index_wf ts"
    and w: "w \<in> A" "CHR 0x00 \<notin> set w" "key \<noteq> []"
  shows "find (\<lambda>r. eq_text srv (workflow_c r) w \<and> idempotency_key_c r = Some key) rows =
    (case taskIDsByIdempotencyKey ts (idempotencyIndexKey w key) of
       None \<Rightarrow> None | Some tid \<Rightarrow> map_option (row_of srv) (lookup_task ts tid))"
proof -
  let ?P = "\<lambda>r. eq_text srv (workflow_c r) w \<and> idempotency_key_c r = Some key"
  have P: "?P (row_of srv t) \<longleftrightarrow> taskIDsByIdempotencyKey ts (idempotencyIndexKey w key) = Some (ID t)"
    if m: "lookup_task ts (ID t) = Some t" for t
  proof -
    note e = holds_tasks_entry(2) [OF h(1) m]
    have "?P (row_of srv t) \<longleftrightarrow> Workflow t = w \<and> IdempotencyKey t = key"
      using e w by (auto simp: server_ok_text [OF h(2)] storable_def nullableString_def)
    also have "\<dots> \<longleftrightarrow> IdempotencyKey t \<noteq> [] \<and> idempotencyIndexKey w key = idempotencyIndexKey (Workflow t) (IdempotencyKey t)"
      using e w index_key_inj [of w "Workflow t" key "IdempotencyKey t"] by (auto simp: storable_def)
    also have "\<dots> \<longleftrightarrow> taskIDsByIdempotencyKey ts (idempotencyIndexKey w key) = Some (ID t)"
      using idx m by (auto simp: key_index_wf_def)
    finally show ?thesis .
  qed
  have rows: "r \<in> set rows \<longleftrightarrow> (\<exists>t. lookup_task ts (ID t) = Some t \<and> r = row_of srv t)" for r
    using h(1) by (auto simp: holds_tasks_def)
  show ?thesis
  proof (cases "find ?P rows")
    case None
    then have "\<forall>r \<in> set rows. \<not> ?P r" by (simp add: find_None_iff)
    then have "\<not> ?P (row_of srv t)" if "lookup_task ts (ID t) = Some t" for t
      using that rows by blast
    with P have "taskIDsByIdempotencyKey ts (idempotencyIndexKey w key) \<noteq> Some (ID t)" if "lookup_task ts (ID t) = Some t" for t
      using that by blast
    then have "taskIDsByIdempotencyKey ts (idempotencyIndexKey w key) = None"
      using key_index_lookup [OF idx] holds_tasks_entry(1) [OF h(1)] by (metis option.exhaust)
    with None show ?thesis by simp
  next
    case (Some r)
    then have "r \<in> set rows" "?P r" by (auto simp: find_Some_iff)
    with rows obtain t where t: "lookup_task ts (ID t) = Some t" "r = row_of srv t" by blast
    with P [OF t(1)] \<open>?P r\<close> have "taskIDsByIdempotencyKey ts (idempotencyIndexKey w key) = Some (ID t)" by simp
    with t Some show ?thesis by simp
  qed
qed

lemma insertTask_done:
  assumes al: "alone s" and run: "insertTask srv ex (Some t) s = (Inr u, s1)"
    and t: "storable srv A t" "LeaseOwner t = []" "LeaseExpiresAt t = None" "LastHeartbeatAt t = None" "Version t = 0"
  shows "alone s1" "event_rows (tables_se s1) = event_rows (tables_se s)"
    "task_rows (tables_se s1) = task_rows (tables_se s) @ [row_of srv t]"
    "\<not> list_ex (\<lambda>q. eq_text srv (id_c q) (ID t)) (task_rows (tables_se s))"
    "\<not> list_ex (same_key srv (row_of srv t)) (task_rows (tables_se s))"
proof -
  from run [unfolded insertTask_def option.case] obtain a s2 where
    a: "statement ex (insertTaskQuery srv t) s = (Inr a, s2)" and
    rest: "(case a of
              Inr _ \<Rightarrow> ret ()
            | Inl e \<Rightarrow>
                (case e of
                   MySQLError number message \<Rightarrow>
                     if number = 1062 then
                       if Contains message ''uk_tasks_workflow_idempotency'' \<or>
                          Contains message ''uk_tasks_idempotency_key''
                       then raise ErrIdempotencyKeyAlreadyExists
                       else raise ErrTaskAlreadyExists
                     else sql_fail srv (''insert task '' @ quoted_id srv (ID t) @ '': '') e
                 | _ \<Rightarrow> sql_fail srv (''insert task '' @ quoted_id srv (ID t) @ '': '') e)) s2 = (Inr u, s1)"
    by (rule bind_Inr_cases)
  from rest have "a = Inr ()" "s2 = s1"
    by (auto simp: ret_def raise_def sql_fail_def split: sum.splits sql_error.splits if_splits)
  with statement_done [OF al a, of "()"]
  have q: "insertTaskQuery srv t (tables_se s) = (Inr (), tables_se s1)" and "alone s1" by auto
  then show "alone s1" by simp
  obtain r where r: "insert_values srv t = Inr r" and ins: "insert_task_row srv r (tables_se s) = (Inr (), tables_se s1)"
    using q by (auto simp: insertTaskQuery_def split: sum.splits)
  from t(1) obtain j where j: "json_column srv (Input t) = Some j" by (auto simp: storable_def)
  then have ji: "json_value srv ''tasks.input_json'' (Some (Input t)) = Inr (Some j)" by (simp add: json_value_def)
  from r ji obtain res where res: "json_value srv ''tasks.result_json'' (nullableJSON (Result t)) = Inr res"
    by (auto simp: insert_values_def split: sum.splits)
  have "kept_times srv t" using t(1) by (simp add: storable_def)
  with r t(2-5) j have "r = row_of srv t"
    by (simp add: insert_values_def ji res json_value_done(1) [OF res] row_of_def kept_times_def kept_nullable)
      (auto simp: kept_time_def nullableString_def)
  with ins have "tables_se s1 = (tables_se s)\<lparr>task_rows := task_rows (tables_se s) @ [row_of srv t]\<rparr> \<and>
    \<not> list_ex (\<lambda>q. eq_text srv (id_c q) (ID t)) (task_rows (tables_se s)) \<and>
    \<not> list_ex (same_key srv (row_of srv t)) (task_rows (tables_se s))"
    by (auto simp: insert_task_row_def split: option.splits if_splits)
  then show "event_rows (tables_se s1) = event_rows (tables_se s)"
    "task_rows (tables_se s1) = task_rows (tables_se s) @ [row_of srv t]"
    "\<not> list_ex (\<lambda>q. eq_text srv (id_c q) (ID t)) (task_rows (tables_se s))"
    "\<not> list_ex (same_key srv (row_of srv t)) (task_rows (tables_se s))"
    by auto
qed

lemma insertTask_alone:
  assumes "alone s" "insertTask srv ex (Some t) s = (r, s1)"
  shows "alone s1"
proof -
  obtain a s2 where a: "statement ex (insertTaskQuery srv t) s = (a, s2)" by force
  from statement_alone [OF assms(1) a] have "alone s2" by simp
  moreover have "s1 = s2"
    using assms(2) a
    by (auto simp: insertTask_def bind_def ret_def raise_def sql_fail_def
        split: sum.splits sql_error.splits if_splits)
  ultimately show ?thesis by simp
qed

text \<open>The input as it is read back decodes to the same value, so that a replay is recognised.\<close>

lemma same_request_read:
  assumes "storable srv A st"
  shows "SameTaskCreationRequest (Some (as_read srv st)) (Some t) = SameTaskCreationRequest (Some st) (Some t)"
proof -
  from assms obtain j where "json_column srv (Input st) = Some j"
    "decodeJSONValue (cloneJSON (Some j)) = decodeJSONValue (Input st)" "decodeJSONValue (Input st) \<noteq> None"
    by (auto simp: storable_def)
  then show ?thesis by (auto simp: SameTaskCreationRequest_def as_read_def)
qed

lemma resolve_done:
  assumes al: "alone s" and run: "resolveIdempotentReplay srv t s = (Inr x, s1)"
    and h: "holds_tasks srv A (task_rows (tables_se s)) (tasks ts)" "server_ok srv A" "key_index_wf ts"
    and t: "Workflow t \<in> A" "CHR 0x00 \<notin> set (Workflow t)"
  shows "tables_se s1 = tables_se s \<and> IdempotencyKey t \<noteq> [] \<and> (\<exists>tid st.
    taskIDsByIdempotencyKey ts (idempotencyIndexKey (Workflow t) (IdempotencyKey t)) = Some tid \<and>
    lookup_task ts tid = Some st \<and> x = as_read srv st \<and> SameTaskCreationRequest (Some st) (Some t))"
proof -
  let ?q = "getTaskByWorkflowAndIdempotencyKeyQuery srv (Workflow t) (IdempotencyKey t)"
  from run have q: "query_task ExecDB ?q s = (Inr (Inr x), s1)" and
    same: "SameTaskCreationRequest (Some x) (Some t)"
    unfolding resolveIdempotentReplay_def getByWorkflowAndIdempotencyKey_def
    by (auto elim!: bind_Inr_cases simp: ret_def raise_def sql_fail_def split: sum.splits if_splits)
  obtain r where r: "?q (tables_se s) = (Inr r, tables_se s1)" "x = scanTask r"
    using query_task_found [OF al q] by blast
  let ?P = "\<lambda>r. eq_text srv (workflow_c r) (Workflow t) \<and> idempotency_key_c r = Some (IdempotencyKey t)"
  from r(1) have f: "find ?P (task_rows (tables_se s)) = Some r" and d: "tables_se s1 = tables_se s"
    by (auto simp: getTaskByWorkflowAndIdempotencyKeyQuery_def one_row_def split: option.splits)
  then have "idempotency_key_c r = Some (IdempotencyKey t)" "r \<in> set (task_rows (tables_se s))"
    by (auto simp: find_Some_iff)
  then have key: "IdempotencyKey t \<noteq> []"
    using h(1) by (auto simp: holds_tasks_def nullableString_def split: if_splits)
  from key_row [OF h t key] f obtain tid st where st:
    "taskIDsByIdempotencyKey ts (idempotencyIndexKey (Workflow t) (IdempotencyKey t)) = Some tid"
    "lookup_task ts tid = Some st" "r = row_of srv st" by (auto split: option.splits simp: eq_commute [of "Some r"])
  note sto = holds_tasks_entry(2) [OF h(1) st(2)]
  with r(2) st(3) have "x = as_read srv st" by (simp add: scanTask_row_of)
  with same same_request_read [OF sto] st d key show ?thesis by auto
qed

lemma resolve_read:
  assumes "alone s" "resolveIdempotentReplay srv t s = (r, s1)"
  shows "tables_se s1 = tables_se s"
proof -
  let ?q = "getTaskByWorkflowAndIdempotencyKeyQuery srv (Workflow t) (IdempotencyKey t)"
  obtain a s2 where a: "statement ExecDB ?q s = (a, s2)" by force
  have "snd (?q d) = d" for d
    by (simp add: getTaskByWorkflowAndIdempotencyKeyQuery_def one_row_def split: option.splits)
  from statement_read [OF assms(1) a this] have "tables_se s2 = tables_se s" .
  moreover have "s1 = s2"
    using assms(2) a
    by (auto simp: resolveIdempotentReplay_def getByWorkflowAndIdempotencyKey_def query_task_def bind_def ret_def
        raise_def sql_fail_def split: sum.splits if_splits prod.splits)
  ultimately show ?thesis by simp
qed

text \<open>The answer of the MySQL store to a creation that the memory store answers with \<open>x\<close>.\<close>

definition read_creation :: "mysql_server \<Rightarrow> TaskCreationResult \<Rightarrow> TaskCreationResult" where
  "read_creation srv x = (if Created_cr x then x else x\<lparr>Task_cr := map_option (as_read srv) (Task_cr x)\<rparr>)"

lemma holds_tasks_snoc:
  assumes "holds_tasks srv A rows kts" "storable srv A t" "map_of kts (ID t) = None"
  shows "holds_tasks srv A (rows @ [row_of srv t]) (AList.update (ID t) t kts)"
proof -
  have "AList.update k v m = m @ [(k, v)]" if "map_of m k = None" for k v and m :: "(string \<times> Task) list"
    using that by (induction m) (auto split: if_splits)
  with assms show ?thesis by (auto simp: holds_tasks_def map_of_eq_None_iff)
qed

lemma create_my_sim:
  assumes rep: "represents srv A (tables_se s) m" "server_ok srv A" and al: "alone s"
    and new: "new_task t ev" "storable srv A t" "LastHeartbeatAt t = None" "storable_event srv A ev"
    and run: "CreateTaskWithEvent_my srv (Some t) (Some ev) s = (r, s')"
  shows "(tables_se s' = tables_se s \<and> (\<exists>e. r = Inl e)) \<or>
    (\<exists>x m'. CreateTaskWithEvent None (Some t) (Some ev) m = (Inr x, m') \<and> represents srv A (tables_se s') m' \<and>
       (r = Inr (read_creation srv x) \<or> (\<exists>e. r = Inl e)))"
proof -
  from new(1) have tid: "TaskID_ev ev = ID t" and wf: "task_wf t" "Version t = 0" "Status t = TaskStatusQueued"
    by (auto simp: new_task_def)
  have lease: "LeaseOwner t = []" "LeaseExpiresAt t = None" using wf by (auto simp: task_wf_def)
  have h: "holds_tasks srv A (task_rows (tables_se s)) (tasks (taskStore m))"
    "holds_events srv A (event_rows (tables_se s)) (eventStore m)" "key_index_wf (taskStore m)"
    using rep(1) by (auto simp: represents_def stores_wf_def)
  have tA: "ID t \<in> A" "Workflow t \<in> A" "CHR 0x00 \<notin> set (Workflow t)" using new(2) by (auto simp: storable_def)
  let ?body = "attempt (insertTask srv ExecTx (Some t)) (\<lambda>r.
             case r of
               Inl e \<Rightarrow>
                 if errors_Is e ErrIdempotencyKeyAlreadyExists then ret (Rollback False) else raise e
             | Inr _ \<Rightarrow> bind (insertEvent srv ExecTx (Some ev)) (\<lambda>_. ret (Commit True)))"
  let ?tx = "in_tx srv ''begin task creation transaction: ''
          (\<lambda>_. ''commit task '' @ quoted_id srv (ID t) @ '' creation: '') ?body"
  obtain c s1 where tx: "?tx s = (c, s1)" by force
  from run tid tx have r: "(case c of Inl e \<Rightarrow> (Inl e, s1)
    | Inr created \<Rightarrow> (if created then ret \<lparr>Task_cr = Some t, Created_cr = True\<rparr>
          else bind (resolveIdempotentReplay srv t) (\<lambda>existing.
            ret \<lparr>Task_cr = Some existing, Created_cr = False\<rparr>)) s1) = (r, s')"
    by (auto simp: CreateTaskWithEvent_my_def bind_def split: sum.splits)
  from al tx show ?thesis
  proof (cases rule: in_tx_cases)
    case (error e)
    with r show ?thesis by auto
  next
    case (rollback x s2 s3)
    then obtain e s4 where ins: "insertTask srv ExecTx (Some t) s2 = (Inl e, s4)" "x = False" "s3 = s4"
      by (auto elim!: attempt_cases bind_Inr_cases simp: ret_def raise_def split: sum.splits if_splits)
    with rollback insertTask_alone have "alone s1" by (metis alone_tables)
    obtain r1 s5 where res: "resolveIdempotentReplay srv t s1 = (r1, s5)" by force
    show ?thesis
    proof (cases r1)
      case (Inr y)
      from resolve_done [OF \<open>alone s1\<close> res [unfolded Inr] _ rep(2) h(3) tA(2,3)] h(1) rollback(2) obtain tid st where
        st: "tables_se s5 = tables_se s" "IdempotencyKey t \<noteq> []"
        "taskIDsByIdempotencyKey (taskStore m) (idempotencyIndexKey (Workflow t) (IdempotencyKey t)) = Some tid"
        "stored_task m tid = Some st" "y = as_read srv st" "SameTaskCreationRequest (Some st) (Some t)" by auto
      then have "CreateTaskWithEvent None (Some t) (Some ev) m = (Inr \<lparr>Task_cr = Some st, Created_cr = False\<rparr>, m)"
        using tid by (simp add: CreateTaskWithEvent_def)
      moreover have "r = Inr (read_creation srv \<lparr>Task_cr = Some st, Created_cr = False\<rparr>)" "s' = s5"
        using r rollback(1) ins(2) res Inr st(5) by (auto simp: bind_def ret_def read_creation_def)
      ultimately show ?thesis using rep(1) st(1) by auto
    next
      case (Inl e')
      have "tables_se s5 = tables_se s1" by (rule resolve_read [OF \<open>alone s1\<close> res])
      with r rollback ins(2) res Inl show ?thesis by (auto simp: bind_def)
    qed
  next
    case (commit x s2 s3)
    then obtain u s4 where ins: "insertTask srv ExecTx (Some t) s2 = (Inr u, s4)" and
      "bind (insertEvent srv ExecTx (Some ev)) (\<lambda>_. ret (Commit True)) s4 = (Inr (Commit x), s3)"
      by (auto elim!: attempt_cases simp: ret_def raise_def split: sum.splits if_splits)
    then have x: "x = True" and ie: "insertEvent srv ExecTx (Some ev) s4 = (Inr (), s3)"
      by (auto elim!: bind_Inr_cases simp: ret_def)
    note it = insertTask_done [OF commit(3) ins new(2) lease new(3) wf(2)]
    have "kept_time srv (CreatedAt_ev ev)" using new(4) by (simp add: storable_event_def)
    note ev = insertEvent_done [OF it(1) ie this]
    have fresh: "stored_task m (ID t) = None"
      using it(4) list_ex_row [OF h(1) rep(2) tA(1)] commit(4) by simp
    have evf: "eventsByID (eventStore m) (ID_ev ev) = None"
      using ev(4) event_known_rows [OF h(2) rep(2), of "ID_ev ev"] it(2) commit(4) new(4) by (simp add: storable_event_def)
    have key: "taskIDsByIdempotencyKey (taskStore m) (idempotencyIndexKey (Workflow t) (IdempotencyKey t)) = None"
      if "IdempotencyKey t \<noteq> []"
    proof -
      have "find (\<lambda>r. eq_text srv (workflow_c r) (Workflow t) \<and> idempotency_key_c r = Some (IdempotencyKey t))
          (task_rows (tables_se s)) = None"
        using it(5) commit(4) that by (auto simp: list_ex_iff same_key_def find_None_iff nullableString_def)
      with key_row [OF h(1) rep(2) h(3) tA(2,3) that] key_index_lookup [OF h(3)] show ?thesis
        by (fastforce split: option.splits)
    qed
    let ?m = "m\<lparr>taskStore := put_key t (put_task (ID t) t (taskStore m)), eventStore := put_event ev (eventStore m)\<rparr>"
    have mem: "CreateTaskWithEvent None (Some t) (Some ev) m = (Inr \<lparr>Task_cr = Some t, Created_cr = True\<rparr>, ?m)"
      using tid fresh evf key by (simp add: CreateTaskWithEvent_def)
    have "holds_tasks srv A (task_rows (tables_se s3)) (tasks (taskStore ?m))"
      using holds_tasks_snoc [OF h(1) new(2) fresh] ev(2) it(3) commit(4) by (simp add: put_task_def)
    moreover have "holds_events srv A (event_rows (tables_se s3)) (eventStore ?m)"
      using holds_events_put [OF h(2) new(4)] ev(3) it(2) commit(4) by simp
    moreover have "stores_wf ?m"
      using store_step_wf [OF store_step.create [OF mem new(1)]] rep(1) by (simp add: represents_def)
    ultimately have "represents srv A (tables_se s3) ?m" by (simp add: represents_def)
    moreover from r commit(1,2) x have "tables_se s' = tables_se s3"
      "r = Inr \<lparr>Task_cr = Some t, Created_cr = True\<rparr> \<or> (\<exists>e. r = Inl e)"
      by (auto simp: ret_def)
    ultimately show ?thesis using mem by (auto simp: read_creation_def)
  qed
qed

end
