(* ===== verification/MySqlSteps.thy ===== *)
theory MySqlSteps
  imports MySqlRefines
begin

text \<open>
  The operations of the MySQL stores as steps of the database, and the simulation of each step by
  an operation of the memory stores.
\<close>

section \<open>Operations that change a task and append an event\<close>

text \<open>The tables after a task and its event were written are those of the memory stores after a commit.\<close>

lemma represents_commit:
  assumes "holds_tasks srv A (task_rows d) (AList.update k t (tasks (taskStore m)))"
    and "holds_events srv A (event_rows d) (put_event ev (eventStore m))" and "stores_wf (commit k t ev m)"
  shows "represents srv A d (commit k t ev m)"
  using assms by (simp add: represents_def commit_def put_task_def)

lemma represents_holds:
  assumes "represents srv A d m"
  shows "stores_wf m" "holds_tasks srv A (task_rows d) (tasks (taskStore m))"
    "holds_events srv A (event_rows d) (eventStore m)" "key_index_wf (taskStore m)"
  using assms by (auto simp: represents_def stores_wf_def)

text \<open>What the domain's events say, as far as the tables are concerned.\<close>

lemma new_event_storable:
  "NewTaskEvent eid tid ty msg payload p now = Inr ev \<Longrightarrow> eid \<in> A \<Longrightarrow> tid \<in> A \<Longrightarrow> kept_time srv now \<Longrightarrow>
     (\<forall>s. ty \<noteq> OtherEvent s) \<Longrightarrow> storable_event srv A ev \<and> ID_ev ev = eid"
  by (auto simp: NewTaskEvent_def storable_event_def split: if_splits)

lemma claimed_event_storable:
  assumes "NewTaskClaimedEvent eid (Some t) kind now = Inr ev" "eid \<in> A" "ID t \<in> A" "kept_time srv now"
  shows "storable_event srv A ev" "ID_ev ev = eid"
  using assms new_event_storable [of eid "ID t" _ _ _ _ now ev A srv]
  by (auto simp: NewTaskClaimedEvent_def claim_event_kind_def split: sum.splits ClaimKind.splits)

lemma expired_event_storable:
  assumes "NewTaskExpiredEvent eid (Some t) now = Inr ev" "eid \<in> A" "ID t \<in> A" "kept_time srv now"
  shows "storable_event srv A ev" "ID_ev ev = eid"
  using assms new_event_storable [of eid "ID t" _ _ _ _ now ev A srv] by (auto simp: NewTaskExpiredEvent_def)

lemma canceled_event_storable:
  assumes "NewTaskCanceledEvent eid (Some t) now = Inr ev" "eid \<in> A" "ID t \<in> A" "kept_time srv now"
  shows "storable_event srv A ev" "ID_ev ev = eid"
  using assms new_event_storable [of eid "ID t" _ _ _ _ now ev A srv]
  by (auto simp: NewTaskCanceledEvent_def split: if_splits)

text \<open>Events depend on the fields that the server does not reformat.\<close>

lemma claimed_event_read: "NewTaskClaimedEvent eid (Some (as_read srv t)) kind now = NewTaskClaimedEvent eid (Some t) kind now"
  by (simp add: NewTaskClaimedEvent_def split: sum.splits)

lemma expired_event_read: "NewTaskExpiredEvent eid (Some (as_read srv t)) now = NewTaskExpiredEvent eid (Some t) now"
  by (simp add: NewTaskExpiredEvent_def)

text \<open>
  The outcome of a simulated call: it failed and changed nothing, or the memory store succeeds,
  the tables hold its new state, and the answer, if it arrives, is the memory store's, read back.
\<close>

definition simulated ::
  "mysql_server \<Rightarrow> string set \<Rightarrow> ('a \<Rightarrow> 'b) \<Rightarrow> tables \<Rightarrow> 'b result \<times> session \<Rightarrow> 'a result \<times> MemoryStores \<Rightarrow> bool" where
  "simulated srv A f d out mem \<longleftrightarrow>
     (tables_se (snd out) = d \<and> (\<exists>e. fst out = Inl e)) \<or>
     (\<exists>x. fst mem = Inr x \<and> represents srv A (tables_se (snd out)) (snd mem) \<and>
        (fst out = Inr (f x) \<or> (\<exists>e. fst out = Inl e)))"

lemma simulatedI:
  assumes "mem = (Inr x, m')" "represents srv A (tables_se s') m'" "r = Inr (f x) \<or> (\<exists>e. r = Inl e)"
  shows "simulated srv A f d (r, s') mem"
  using assms by (auto simp: simulated_def)

lemma simulated_error: "tables_se s' = d \<Longrightarrow> simulated srv A f d (Inl e, s') mem"
  by (simp add: simulated_def)

lemma claim_my_sim:
  assumes rep: "represents srv A (tables_se s) m" "server_ok srv A" and al: "alone s"
    and o1: "options_ok srv A o1" "eid \<in> A" "lease_ends_differ (tables_se s)"
    and run: "ClaimNextWithEvent_my srv o1 eid s = (r, s')"
  shows "simulated srv A (as_read srv) (tables_se s) (r, s') (ClaimNextWithEvent (\<lambda>m. m) (\<lambda>m. m) None o1 eid m)"
proof (cases "Validate_claim o1 = None \<and> eid \<noteq> []")
  case False
  with run show ?thesis
    by (auto simp: ClaimNextWithEvent_my_def raise_def simulated_error split: option.splits if_splits)
next
  case True
  note h = represents_holds [OF rep(1)]
  let ?body = "check_event srv ''claim'' eid
          (bind (claimNextInTx srv o1) (\<lambda>(t, kind).
           bind (of_result (NewTaskClaimedEvent eid (Some t) kind (Now_co o1))) (\<lambda>ev.
           bind (insertEvent srv ExecTx (Some ev)) (\<lambda>_.
           ret (Commit t)))))"
  from True run have tx: "in_tx srv ''begin task claim transition transaction: ''
        (\<lambda>t. ''commit task '' @ quoted_id srv (ID t) @ '' claim transition: '') ?body s = (r, s')"
    by (simp add: ClaimNextWithEvent_my_def)
  from al tx show ?thesis
  proof (cases rule: in_tx_cases)
    case (error e)
    then show ?thesis by (simp add: simulated_error)
  next
    case (rollback x s2 s3)
    then have False
      by (auto simp: check_event_def ret_def raise_def sql_fail_def elim!: bind_Inr_cases
          split: sum.splits if_splits prod.splits)
    then show ?thesis ..
  next
    case (commit x s2 s3)
    have he: "holds_events srv A (event_rows (tables_se s2)) (eventStore m)" using h(3) commit(4) by simp
    obtain s4 where b: "bind (claimNextInTx srv o1) (\<lambda>(t, kind).
           bind (of_result (NewTaskClaimedEvent eid (Some t) kind (Now_co o1))) (\<lambda>ev.
           bind (insertEvent srv ExecTx (Some ev)) (\<lambda>_. ret (Commit t)))) s4 = (Inr (Commit x), s3)"
      and s4: "alone s4" "tables_se s4 = tables_se s2" "locked_se s4 = locked_se s2" "eventsByID (eventStore m) eid = None"
      by (rule check_event_done [OF commit(3,6) he rep(2) o1(2)])
    note s4 = s4(1) trans [OF s4(2) commit(4)] trans [OF s4(3) commit(5)] s4(4)
    from b obtain kind ev s5 where cl: "claimNextInTx srv o1 s4 = (Inr (x, kind), s5)"
      and ev: "NewTaskClaimedEvent eid (Some x) kind (Now_co o1) = Inr ev"
      and ie: "insertEvent srv ExecTx (Some ev) s5 = (Inr (), s3)"
      by (auto elim!: bind_Inr_cases simp: of_result_def ret_def split: prod.splits)
    have ht: "holds_tasks srv A (task_rows (tables_se s4)) (tasks (taskStore m))" "lease_ends_differ (tables_se s4)"
      using h(2) s4(2) o1(3) by simp_all
    obtain k t where
      sel: "select_claim (\<lambda>m. m) (\<lambda>m. m) o1 (taskStore m) = Some ((k, t), kind)" "(k, t) \<in> set (tasks (taskStore m))"
      and x: "x = as_read srv (claimed o1 kind t)" and s5: "alone s5" "event_rows (tables_se s5) = event_rows (tables_se s)"
      "holds_tasks srv A (task_rows (tables_se s5)) (AList.update k (claimed o1 kind t) (tasks (taskStore m)))"
      using claimNextInTx_done [OF s4(1,3) cl ht(1) rep(2) o1(1) ht(2) conjunct1 [OF True]] s4(2) by auto
    note sto = holds_tasks_storable [OF h(2) sel(2)]
    have kt: "kept_time srv (Now_co o1)" using o1(1) by (simp add: options_ok_def)
    have idA: "ID x \<in> A" using x claimed_storable [OF conjunct2 [OF sto] o1(1), of kind] by (simp add: storable_def)
    note se = claimed_event_storable [OF ev o1(2) idA kt]
    then have "kept_time srv (CreatedAt_ev ev)" by (simp add: storable_event_def)
    note ins = insertEvent_done [OF s5(1) ie this]
    have memev: "NewTaskClaimedEvent eid (Some (claimed o1 kind t)) kind (Now_co o1) = Inr ev"
      using ev x claimed_event_read by metis
    obtain mr m' where mem: "ClaimNextWithEvent (\<lambda>m. m) (\<lambda>m. m) None o1 eid m = (mr, m')" by force
    have wf': "stores_wf m'" using store_step_wf [OF store_step.claim [OF mem] h(1)] by simp
    have "mr = Inr (claimed o1 kind t) \<and> m' = commit k (claimed o1 kind t) ev m"
    proof -
      have "CanTransition (Status t) TaskStatusRunning" if "kind \<noteq> ClaimRecovery"
        using that select_claim_Some [OF sel(1)] by (auto simp: claimable_def)
      then have "claimNextLocked (\<lambda>m. m) (\<lambda>m. m) o1 (taskStore m) =
          (Inr (claimed o1 kind t, t, kind), put_task k (claimed o1 kind t) (taskStore m))"
        using sel(1) by (auto simp: claimNextLocked_def claimed_def MoveTo_def)
      with mem True s4(4) memev show ?thesis by (simp add: ClaimNextWithEvent_def TransitionStore.commit_def)
    qed
    with wf' mem show ?thesis
      using represents_commit [of srv A "tables_se s3" k "claimed o1 kind t" m ev] ins(2,3) s5(2,3) commit(1,2) x
        holds_events_put [OF h(3) se(1)]
      by (intro simulatedI) auto
  qed
qed

lemma reap_my_sim:
  assumes rep: "represents srv A (tables_se s) m" "server_ok srv A" and al: "alone s"
    and o1: "kept_time srv now" "eid \<in> A" "lease_ends_differ (tables_se s)"
    and run: "FailNextExpiredWithEvent_my srv now eid s = (r, s')"
  shows "simulated srv A (as_read srv) (tables_se s) (r, s') (FailNextExpiredWithEvent (\<lambda>m. m) None now eid m)"
proof (cases "\<not> IsZero now \<and> eid \<noteq> []")
  case False
  with run show ?thesis
    by (auto simp: FailNextExpiredWithEvent_my_def raise_def simulated_error split: option.splits if_splits)
next
  case True
  note h = represents_holds [OF rep(1)]
  let ?body = "check_event srv ''expired task'' eid
          (bind (failNextExpiredInTx srv now) (\<lambda>t.
           bind (of_result (NewTaskExpiredEvent eid (Some t) now)) (\<lambda>ev.
           bind (insertEvent srv ExecTx (Some ev)) (\<lambda>_.
           ret (Commit t)))))"
  from True run have tx: "in_tx srv ''begin expired task transition transaction: ''
        (\<lambda>t. ''commit expired task '' @ quoted_id srv (ID t) @ '' transition: '') ?body s = (r, s')"
    by (simp add: FailNextExpiredWithEvent_my_def)
  from al tx show ?thesis
  proof (cases rule: in_tx_cases)
    case (error e)
    then show ?thesis by (simp add: simulated_error)
  next
    case (rollback x s2 s3)
    then have False
      by (auto simp: check_event_def ret_def raise_def sql_fail_def elim!: bind_Inr_cases
          split: sum.splits if_splits prod.splits)
    then show ?thesis ..
  next
    case (commit x s2 s3)
    have he: "holds_events srv A (event_rows (tables_se s2)) (eventStore m)" using h(3) commit(4) by simp
    obtain s4 where b: "bind (failNextExpiredInTx srv now) (\<lambda>t.
           bind (of_result (NewTaskExpiredEvent eid (Some t) now)) (\<lambda>ev.
           bind (insertEvent srv ExecTx (Some ev)) (\<lambda>_. ret (Commit t)))) s4 = (Inr (Commit x), s3)"
      and s4: "alone s4" "tables_se s4 = tables_se s2" "locked_se s4 = locked_se s2" "eventsByID (eventStore m) eid = None"
      by (rule check_event_done [OF commit(3,6) he rep(2) o1(2)])
    note s4 = s4(1) trans [OF s4(2) commit(4)] trans [OF s4(3) commit(5)] s4(4)
    from b obtain ev s5 where cl: "failNextExpiredInTx srv now s4 = (Inr x, s5)"
      and ev: "NewTaskExpiredEvent eid (Some x) now = Inr ev"
      and ie: "insertEvent srv ExecTx (Some ev) s5 = (Inr (), s3)"
      by (auto elim!: bind_Inr_cases simp: of_result_def ret_def split: prod.splits)
    have ht: "holds_tasks srv A (task_rows (tables_se s4)) (tasks (taskStore m))" "lease_ends_differ (tables_se s4)"
      using h(2) s4(2) o1(3) by simp_all
    obtain k t where
      sel: "scan_tasks (expired_exhausted now) lease_before (tasks (taskStore m)) = Some (k, t)"
        "(k, t) \<in> set (tasks (taskStore m))"
      and x: "x = as_read srv (expired_failed now t)" and s5: "alone s5" "event_rows (tables_se s5) = event_rows (tables_se s)"
      "holds_tasks srv A (task_rows (tables_se s5)) (AList.update k (expired_failed now t) (tasks (taskStore m)))"
      using failNextExpiredInTx_done [OF s4(1,3) cl ht(1) rep(2) o1(1) ht(2)] s4(2) by auto
    note sto = holds_tasks_storable [OF h(2) sel(2)]
    have idA: "ID x \<in> A"
      using x sto by (simp add: storable_def expired_failed_def enter_status_def Let_def)
    note se = expired_event_storable [OF ev o1(2) idA o1(1)]
    then have "kept_time srv (CreatedAt_ev ev)" by (simp add: storable_event_def)
    note ins = insertEvent_done [OF s5(1) ie this]
    have memev: "NewTaskExpiredEvent eid (Some (expired_failed now t)) now = Inr ev"
      using ev x expired_event_read by metis
    obtain mr m' where mem: "FailNextExpiredWithEvent (\<lambda>m. m) None now eid m = (mr, m')" by force
    have wf': "stores_wf m'" using store_step_wf [OF store_step.reap [OF mem] h(1)] by simp
    have "mr = Inr (expired_failed now t) \<and> m' = commit k (expired_failed now t) ev m"
    proof -
      have "failNextExpiredLocked (\<lambda>m. m) now (taskStore m) =
        (Inr (expired_failed now t, t), put_task k (expired_failed now t) (taskStore m))"
        using sel(1) scan_tasks_Some [OF sel(1)]
        by (simp add: failNextExpiredLocked_def expired_failed_def MoveTo_def expired_exhausted_def Let_def)
      with mem True s4(4) memev show ?thesis by (simp add: FailNextExpiredWithEvent_def TransitionStore.commit_def)
    qed
    with wf' mem show ?thesis
      using represents_commit [of srv A "tables_se s3" k "expired_failed now t" m ev] ins(2,3) s5(2,3) commit(1,2) x
        holds_events_put [OF h(3) se(1)]
      by (intro simulatedI) auto
  qed
qed

section \<open>Updates and cancellations\<close>

text \<open>
  The task that the memory store receives when the MySQL store receives \<open>t\<close>: its input is the one
  that was stored, whatever form the server gave it back in.
\<close>

definition stored_input :: "MemoryStores \<Rightarrow> Task \<Rightarrow> Task" where
  "stored_input m t = (case stored_task m (ID t) of None \<Rightarrow> t | Some st \<Rightarrow> t\<lparr>Input := Input st\<rparr>)"

text \<open>A worker's change of the task it read from the database, as one of the task in memory.\<close>

lemma worker_edit_read:
  assumes "worker_edit t0 t ev" "same_claim t0 (as_read srv st)" "task_wf st" "Version st = Version t"
  shows "worker_edit st (t\<lparr>Input := Input st\<rparr>) ev"
proof -
  note f = same_claim_frame [OF assms(2)]
  have t: "task_frame t0 t" "task_wf t" "task_wf t0" "Status t0 = TaskStatusRunning"
    using assms(1) by (simp_all add: worker_edit_def)
  then have "StartedAt t0 \<noteq> None" by (simp add: task_wf_def)
  with f(1) t(1) have "task_frame st (t\<lparr>Input := Input st\<rparr>)" by (auto simp: task_frame_def)
  moreover have "task_wf (t\<lparr>Input := Input st\<rparr>)" using t(2) assms(3) by (simp add: task_wf_def)
  ultimately show ?thesis using assms(1,3,4) f by (simp add: worker_edit_def)
qed

lemma update_my_sim:
  assumes rep: "represents srv A (tables_se s) m" "server_ok srv A" and al: "alone s"
    and edit: "worker_edit t0 t ev" "kept_times srv t" "ID t \<in> A" "LeaseOwner t \<noteq> [] \<longrightarrow> LeaseOwner t \<in> A"
      "storable_event srv A ev"
    and current: "\<And>r. r \<in> set (task_rows (tables_se s)) \<Longrightarrow> id_c r = ID t \<Longrightarrow> version_c r = Version t \<Longrightarrow>
      same_claim t0 (scanTask r)"
    and run: "UpdateTaskWithEvent_my srv (Some t) (Some ev) s = (r, s')"
  shows "simulated srv A id (tables_se s) (r, s')
      (map_prod err_result id (UpdateTaskWithEvent None (Some (stored_input m t)) (Some ev) m)) \<and>
    (\<exists>t1. worker_edit t1 (stored_input m t) ev \<and>
      (\<forall>st. stored_task m (ID t) = Some st \<longrightarrow> Version st = Version t \<longrightarrow> same_claim t1 st) \<or> tables_se s' = tables_se s)"
proof -
  note h = represents_holds [OF rep(1)]
  have tid: "TaskID_ev ev = ID t" and wt: "task_wf t" using edit(1) by (auto simp: worker_edit_def)
  let ?body = "check_event srv ''transition'' (ID_ev ev)
          (bind (updateTask srv ExecTx (Some t)) (\<lambda>_.
           bind (insertEvent srv ExecTx (Some ev)) (\<lambda>_.
           ret (Commit ()))))"
  from run tid have tx: "in_tx srv ''begin task transition transaction: ''
        (\<lambda>_. ''commit task '' @ quoted_id srv (ID t) @ '' transition: '') ?body s = (r, s')"
    by (simp add: UpdateTaskWithEvent_my_def)
  have read: "same_claim t0 (as_read srv st)" if "stored_task m (ID t) = Some st" "Version st = Version t" for st
    using current [OF holds_tasks_entry(3) [OF h(2) that(1)]] holds_tasks_entry(1,2) [OF h(2) that(1)] that(2)
      scanTask_row_of by auto
  from al tx show ?thesis
  proof (cases rule: in_tx_cases)
    case (error e)
    then show ?thesis by (simp add: simulated_error)
  next
    case (rollback x s2 s3)
    then have False
      by (auto simp: check_event_def ret_def raise_def sql_fail_def elim!: bind_Inr_cases
          split: sum.splits if_splits prod.splits)
    then show ?thesis ..
  next
    case (commit x s2 s3)
    have he: "holds_events srv A (event_rows (tables_se s2)) (eventStore m)" using h(3) commit(4) by simp
    have eA: "ID_ev ev \<in> A" "kept_time srv (CreatedAt_ev ev)" using edit(5) by (auto simp: storable_event_def)
    obtain s4 where b: "bind (updateTask srv ExecTx (Some t)) (\<lambda>_.
           bind (insertEvent srv ExecTx (Some ev)) (\<lambda>_. ret (Commit ()))) s4 = (Inr (Commit x), s3)"
      and s4: "alone s4" "tables_se s4 = tables_se s2" "locked_se s4 = locked_se s2" "eventsByID (eventStore m) (ID_ev ev) = None"
      by (rule check_event_done [OF commit(3,6) he rep(2) eA(1)])
    from b obtain u s5 where up: "updateTask srv ExecTx (Some t) s4 = (Inr u, s5)"
      and ie: "insertEvent srv ExecTx (Some ev) s5 = (Inr (), s3)"
      by (auto elim!: bind_Inr_cases simp: ret_def)
    have ht: "holds_tasks srv A (task_rows (tables_se s4)) (tasks (taskStore m))" using h(2) s4(2) commit(4) by simp
    have z: "\<forall>x. Status t \<noteq> OtherStatus x" "LeaseToken t = [] \<and> TaskID t = [] \<and> LeaseUntil t = None"
      using wt by (auto simp: task_wf_def)
    have frame: "Workflow t = Workflow st \<and> CreatedAt t = CreatedAt st"
      if "stored_task m (ID t) = Some st" "Version st = Version t" for st
      using same_claim_frame(1) [OF read [OF that]] edit(1) by (auto simp: worker_edit_def task_frame_def)
    obtain st where st: "stored_task m (ID t) = Some st" "Version st = Version t"
      and s5: "alone s5" "event_rows (tables_se s5) = event_rows (tables_se s4)"
      "holds_tasks srv A (task_rows (tables_se s5))
         (AList.update (ID t) (t\<lparr>Input := Input st, Version := Version t + 1\<rparr>) (tasks (taskStore m)))"
      using updateTask_done [OF s4(1) up ht rep(2) edit(3,2,4) z frame] by blast
    note ins = insertEvent_done [OF s5(1) ie eA(2)]
    have si: "stored_input m t = t\<lparr>Input := Input st\<rparr>" using st by (simp add: stored_input_def)
    note we = worker_edit_read [OF edit(1) read [OF st] stores_wf_lookup(2) [OF h(1) st(1)] st(2)]
    let ?m = "TransitionStore.commit (ID t) (t\<lparr>Input := Input st, Version := Version t + 1\<rparr>) ev m"
    have mem: "UpdateTaskWithEvent None (Some (stored_input m t)) (Some ev) m = (None, ?m)"
      using st s4(4) tid by (simp add: UpdateTaskWithEvent_def si)
    have "stores_wf ?m"
      using store_step_wf [OF store_step.update [OF mem we [folded si]] h(1)] st si by auto
    from represents_commit [OF _ _ this] ins(2,3) s5(2,3) s4(2) commit(2,4) holds_events_put [OF h(3) edit(5)]
    have "represents srv A (tables_se s') ?m" by auto
    then have "simulated srv A id (tables_se s) (r, s')
      (map_prod err_result id (UpdateTaskWithEvent None (Some (stored_input m t)) (Some ev) m))"
      using commit(1) mem by (intro simulatedI) auto
    with we si st show ?thesis by (intro conjI exI [of _ st]) auto
  qed
qed

section \<open>Renewals\<close>

lemma renew_query:
  assumes h: "holds_tasks srv A (task_rows d) (tasks ts)" "server_ok srv A"
    and o2: "TaskID_rl o2 \<in> A" "WorkerID_rl o2 \<in> A" "kept_time srv (Now_rl o2)"
      "kept_time srv (Add_time (Now_rl o2) (LeaseDuration_rl o2))"
    and run: "renewLeaseQuery srv o2 d = (a, d')"
  shows "(d' = d \<and> a \<noteq> Inr 1) \<or> (\<exists>t. lookup_task ts (TaskID_rl o2) = Some t \<and> lease_held (WorkerID_rl o2) (Now_rl o2) t \<and>
    event_rows d' = event_rows d \<and>
    holds_tasks srv A (task_rows d')
      (AList.update (TaskID_rl o2) (renewed (Now_rl o2) (LeaseDuration_rl o2) t) (tasks ts)))"
proof (cases "\<exists>n. a = Inr (Suc n)")
  case False
  then consider e where "a = Inl e" | "a = Inr 0" by (metis old.nat.exhaust sum.exhaust)
  then show ?thesis
  proof cases
    case 1
    then have "d' = d"
      using run by (auto simp: renewLeaseQuery_def update_tasks_def split: sum.splits)
    with 1 show ?thesis by simp
  next
    case 2
    with run update_tasks_unchanged have "d' = d" unfolding renewLeaseQuery_def by blast
    with 2 show ?thesis by simp
  qed
next
  case True
  then obtain n where "a = Inr (Suc n)" by blast
  with run have run1: "renewLeaseQuery srv o2 d = (Inr (Suc n), d')" by simp
  let ?keep = "\<lambda>r. eq_text srv (id_c r) (TaskID_rl o2) \<and>
            eq_text srv (status_c r) (status_text TaskStatusRunning) \<and>
            (case lease_owner_c r of None \<Rightarrow> False | Some w \<Rightarrow> eq_text srv w (WorkerID_rl o2)) \<and>
            (case lease_expires_at_c r of None \<Rightarrow> False | Some l \<Rightarrow> l > datetime6 srv (Now_rl o2))"
  obtain t r where t: "lookup_task ts (TaskID_rl o2) = Some t" "?keep (row_of srv t)"
    and r: "Inr ((row_of srv t)\<lparr>
          lease_expires_at_c := Some (datetime6 srv (Add_time (Now_rl o2) (LeaseDuration_rl o2))),
          last_heartbeat_at_c := Some (datetime6 srv (Now_rl o2)),
          updated_at_c := datetime6 srv (Now_rl o2)\<rparr>) = (Inr r :: (nat \<times> string) + task_row)"
    and all: "\<forall>u. r = row_of srv u \<longrightarrow> ID u = TaskID_rl o2 \<longrightarrow> storable srv A u \<longrightarrow>
       event_rows d' = event_rows d \<and> holds_tasks srv A (task_rows d') (AList.update (TaskID_rl o2) u (tasks ts))"
    using update_tasks_hit [OF h o2(1) run1 [unfolded renewLeaseQuery_def]] by blast
  note sto = holds_tasks_entry [OF h(1) t(1)]
  have held: "lease_held (WorkerID_rl o2) (Now_rl o2) t"
    using t(2) row_status [OF h(2) sto(2), of TaskStatusRunning] sto(2) o2
    by (auto simp: lease_held_def nullableString_def storable_def kept_time_def server_ok_text [OF h(2)]
        split: option.splits if_splits)
  have "r = row_of srv (renewed (Now_rl o2) (LeaseDuration_rl o2) t)"
    using r o2 by (simp add: row_of_def renewed_def kept_time_def)
  moreover have "storable srv A (renewed (Now_rl o2) (LeaseDuration_rl o2) t)"
    "ID (renewed (Now_rl o2) (LeaseDuration_rl o2) t) = TaskID_rl o2"
    using sto o2 by (simp_all add: renewed_def storable_def kept_times_def)
  ultimately show ?thesis using all t(1) held by blast
qed

lemma renew_my_sim:
  assumes rep: "represents srv A (tables_se s) m" "server_ok srv A" and al: "alone s"
    and o2: "TaskID_rl o2 \<in> A" "WorkerID_rl o2 \<in> A" "kept_time srv (Now_rl o2)"
      "kept_time srv (Add_time (Now_rl o2) (LeaseDuration_rl o2))"
    and run: "RenewLease_my srv o2 s = (r, s')"
  shows "simulated srv A id (tables_se s) (r, s')
    (map_prod err_result (\<lambda>ts. m\<lparr>taskStore := ts\<rparr>) (RenewLease None o2 (taskStore m)))"
proof (cases "Validate_renew o2")
  case (Some e)
  with run show ?thesis by (auto simp: RenewLease_my_def raise_def simulated_error)
next
  case None
  note h = represents_holds [OF rep(1)]
  obtain b s1 where b: "statement ExecDB (renewLeaseQuery srv o2) s = (b, s1)" by force
  obtain n s0 where n: "next_arrival s = (n, s0)" by force
  note na = next_arrival_alone [OF al n]
  obtain a d' where q: "renewLeaseQuery srv o2 (tables_se s) = (a, d')" by force
  have b': "(b = Inr a \<and> tables_se s1 = d') \<or> (\<exists>e. b = Inr (Inl e) \<and> tables_se s1 \<in> {tables_se s, d'})"
    using b n na(2,4) q by (auto simp: statement_def Let_def split: option.splits if_splits)
  have s': "s' = s1" and r: "r = Inr () \<longrightarrow> b = Inr (Inr 1)" "(\<exists>e. r = Inl e) \<or> r = Inr ()"
    using run None b
    by (auto simp: RenewLease_my_def late_statement_def bind_def one_changed_def sql_fail_def raise_def ret_def
        split: sum.splits if_splits option.splits)
  show ?thesis
  proof (cases "tables_se s1 = tables_se s \<and> (\<exists>e. r = Inl e)")
    case True
    with s' show ?thesis by (auto simp: simulated_error)
  next
    case False
    with b' r have "tables_se s1 = d'" "d' \<noteq> tables_se s \<or> a = Inr 1" by auto
    with renew_query [OF h(2) rep(2) o2 q] obtain t where
      t: "stored_task m (TaskID_rl o2) = Some t" "lease_held (WorkerID_rl o2) (Now_rl o2) t"
      and d': "event_rows d' = event_rows (tables_se s)" "holds_tasks srv A (task_rows d')
        (AList.update (TaskID_rl o2) (renewed (Now_rl o2) (LeaseDuration_rl o2) t) (tasks (taskStore m)))" by auto
    let ?ts = "put_task (TaskID_rl o2) (renewed (Now_rl o2) (LeaseDuration_rl o2) t) (taskStore m)"
    have mem: "RenewLease None o2 (taskStore m) = (None, ?ts)"
      using None t by (simp add: RenewLease_def renewed_def)
    have "stores_wf (m\<lparr>taskStore := ?ts\<rparr>)" by (rule store_step_wf [OF store_step.renew [OF mem] h(1)])
    then have "represents srv A d' (m\<lparr>taskStore := ?ts\<rparr>)"
      using d' h(3) by (simp add: represents_def put_task_def)
    with mem s' \<open>tables_se s1 = d'\<close> r show ?thesis by (intro simulatedI) auto
  qed
qed

section \<open>Cancellations\<close>

lemma holds_tasks_swap:
  assumes "holds_tasks srv A rows (AList.update k t kts)" "row_of srv u = row_of srv t" "ID u = k" "storable srv A u"
    and kts: "distinct (map fst kts)" "\<forall>(k, t) \<in> set kts. k = ID t \<and> storable srv A t"
  shows "holds_tasks srv A rows (AList.update k u kts)"
proof -
  have "map (\<lambda>(k, t). row_of srv t) (AList.update k u m) = map (\<lambda>(k, t). row_of srv t) (AList.update k t m)" for m
    using assms(2) by (induction m) auto
  with assms show ?thesis by (auto simp: holds_tasks_def distinct_update dest!: update_member)
qed

definition canceled :: "time \<Rightarrow> Task \<Rightarrow> Task" where
  "canceled now t = enter_status TaskStatusCanceled now (t\<lparr>Status := TaskStatusCanceled, UpdatedAt := now\<rparr>)"

lemma canceled_MoveTo:
  "Status t \<in> {TaskStatusQueued, TaskStatusRetrying, TaskStatusRunning} \<Longrightarrow>
     MoveTo (Some t) TaskStatusCanceled now = Inr (canceled now t)"
  by (auto simp: MoveTo_def canceled_def)

lemma canceled_read: "canceled now (as_read srv t) = as_read srv (canceled now t)"
  by (simp add: canceled_def as_read_def enter_status_def)

lemma canceled_simps [simp]:
  "ID (canceled now t) = ID t" "Version (canceled now t) = Version t" "Workflow (canceled now t) = Workflow t"
  "CreatedAt (canceled now t) = CreatedAt t" "Input (canceled now t) = Input t" "Result (canceled now t) = Result t"
  "LeaseOwner (canceled now t) = []" "Status (canceled now t) = TaskStatusCanceled"
  "LeaseToken (canceled now t) = LeaseToken t" "TaskID (canceled now t) = TaskID t" "LeaseUntil (canceled now t) = LeaseUntil t"
  by (simp_all add: canceled_def enter_status_def)

lemma canceled_kept: "kept_times srv t \<Longrightarrow> kept_time srv now \<Longrightarrow> kept_times srv (canceled now t)"
  by (simp add: canceled_def enter_status_def kept_times_def)

lemma canceled_event:
  "NewTaskCanceledEvent eid (Some (as_read srv t)) now = NewTaskCanceledEvent eid (Some (t\<lparr>Version := v\<rparr>)) now"
  by (simp add: NewTaskCanceledEvent_def)

definition read_cancellation :: "mysql_server \<Rightarrow> TaskCancellationResult \<Rightarrow> TaskCancellationResult" where
  "read_cancellation srv x = x\<lparr>Task_ca := as_read srv (Task_ca x)\<rparr>"

lemma canceled_row:
  assumes "server_ok srv A" "storable srv A st" "kept_time srv now"
  shows "row_of srv ((canceled now (as_read srv st))\<lparr>Input := Input st, Version := v\<rparr>) = row_of srv ((canceled now st)\<lparr>Version := v\<rparr>)"
    "storable srv A ((canceled now st)\<lparr>Version := v\<rparr>)"
proof -
  have res: "json_of srv (cloneJSON (json_of srv (Result st))) = json_of srv (Result st)"
    by (rule json_of_read [OF assms(1)]) (use assms(2) in \<open>simp add: storable_def\<close>)
  then show "row_of srv ((canceled now (as_read srv st))\<lparr>Input := Input st, Version := v\<rparr>) = row_of srv ((canceled now st)\<lparr>Version := v\<rparr>)"
    by (simp add: row_of_def canceled_def enter_status_def as_read_def)
  show "storable srv A ((canceled now st)\<lparr>Version := v\<rparr>)"
    using assms(2,3) canceled_kept [of srv st now] by (simp add: storable_def kept_times_def)
qed

lemma cancel_my_sim:
  assumes rep: "represents srv A (tables_se s) m" "server_ok srv A" and al: "alone s"
    and o1: "kept_time srv now" "eid \<in> A" "tid \<in> A"
    and run: "CancelTaskWithEvent_my srv tid eid now s = (r, s')"
  shows "simulated srv A (read_cancellation srv) (tables_se s) (r, s') (CancelTaskWithEvent None tid eid now m)"
proof (cases "tid \<noteq> [] \<and> eid \<noteq> [] \<and> \<not> IsZero now")
  case False
  with run show ?thesis
    by (auto simp: CancelTaskWithEvent_my_def raise_def simulated_error split: if_splits)
next
  case True
  note h = represents_holds [OF rep(1)]
  let ?tail = "\<lambda>t. check_event srv ''cancellation'' eid
                  (bind (of_result (MoveTo (Some t) TaskStatusCanceled now)) (\<lambda>t1.
                   bind (of_result (NewTaskCanceledEvent eid (Some t1) now)) (\<lambda>ev.
                   bind (updateTask srv ExecTx (Some t1)) (\<lambda>_.
                   bind (insertEvent srv ExecTx (Some ev)) (\<lambda>_.
                   ret (Commit \<lparr>Task_ca = t1\<lparr>Version := Version t1 + 1\<rparr>, Canceled_ca = True\<rparr>))))))"
  let ?k = "\<lambda>a. case a of
             Inl e \<Rightarrow>
               if e = ErrNoRows then raise ErrTaskNotFound
               else sql_fail srv (''select task '' @ quoted_id srv tid @ '' for cancellation: '') e
           | Inr t \<Rightarrow>
               if Status t = TaskStatusCanceled then ret (Rollback \<lparr>Task_ca = t, Canceled_ca = False\<rparr>)
               else if Status t \<noteq> TaskStatusQueued \<and> Status t \<noteq> TaskStatusRetrying
                 \<and> Status t \<noteq> TaskStatusRunning then raise ErrTaskNotCancelable
               else ?tail t"
  let ?body = "bind (query_task ExecTx (getTaskQuery srv tid)) ?k"
  from True run have tx: "in_tx srv ''begin task cancellation transaction: ''
        (\<lambda>_. ''commit task '' @ quoted_id srv tid @ '' cancellation: '') ?body s = (r, s')"
    by (simp add: CancelTaskWithEvent_my_def)
  have found: "\<exists>st s4. stored_task m tid = Some st \<and> storable srv A st \<and> ID st = tid \<and> alone s4 \<and>
      tables_se s4 = tables_se s \<and> ?k (Inr (as_read srv st)) s4 = (Inr y, s3)"
    if body: "?body s2 = (Inr y, s3)" "alone s2" "tables_se s2 = tables_se s" for y s2 s3
  proof -
    from body(1) obtain a s4 where a: "query_task ExecTx (getTaskQuery srv tid) s2 = (Inr a, s4)" and
      k: "?k a s4 = (Inr y, s3)" by (rule bind_Inr_cases)
    then obtain t where t: "a = Inr t" by (cases a) (auto simp: raise_def sql_fail_def split: if_splits)
    obtain r0 where r0: "getTaskQuery srv tid (tables_se s2) = (Inr r0, tables_se s4)" "t = scanTask r0" "alone s4"
      using query_task_found [OF body(2)] a t by metis
    from r0(1) body(3) find_row [OF h(2) rep(2) o1(3)] obtain st where
      st: "stored_task m tid = Some st" "r0 = row_of srv st" "tables_se s4 = tables_se s"
      by (auto simp: getTaskQuery_def one_row_def split: option.splits)
    note e = holds_tasks_entry [OF h(2) st(1)]
    with r0 st have "t = as_read srv st" by (simp add: scanTask_row_of)
    with st e r0(3) k t show ?thesis by blast
  qed
  from al tx show ?thesis
  proof (cases rule: in_tx_cases)
    case (error e)
    then show ?thesis by (simp add: simulated_error)
  next
    case (rollback x s2 s3)
    from found [OF rollback(6,3,4)] obtain st s4 where st: "stored_task m tid = Some st"
      and k: "?k (Inr (as_read srv st)) s4 = (Inr (Rollback x), s3)" by blast
    have "Status st = TaskStatusCanceled \<and> x = \<lparr>Task_ca = as_read srv st, Canceled_ca = False\<rparr>"
    proof (rule ccontr)
      assume c: "\<not> ?thesis"
      with k have "?tail (as_read srv st) s4 = (Inr (Rollback x), s3)"
        by (auto simp: ret_def raise_def split: if_splits)
      then show False
        by (auto simp: check_event_def ret_def raise_def sql_fail_def elim!: bind_Inr_cases split: sum.splits if_splits)
    qed
    with True st rollback(1,2) rep(1) show ?thesis
      by (intro simulatedI [where x = "\<lparr>Task_ca = st, Canceled_ca = False\<rparr>" and m' = m])
        (auto simp: CancelTaskWithEvent_def read_cancellation_def)
  next
    case (commit x s2 s3)
    from found [OF commit(6,3,4)] obtain st s4 where st: "stored_task m tid = Some st" "storable srv A st" "ID st = tid"
      and s4: "alone s4" "tables_se s4 = tables_se s"
      and k: "?k (Inr (as_read srv st)) s4 = (Inr (Commit x), s3)" by blast
    from k have live: "Status st \<in> {TaskStatusQueued, TaskStatusRetrying, TaskStatusRunning}"
      and tail: "?tail (as_read srv st) s4 = (Inr (Commit x), s3)"
      by (auto simp: ret_def raise_def split: if_splits)
    let ?t1 = "canceled now (as_read srv st)"
    have mv: "MoveTo (Some (as_read srv st)) TaskStatusCanceled now = Inr ?t1" using live by (intro canceled_MoveTo) simp
    have he: "holds_events srv A (event_rows (tables_se s4)) (eventStore m)" using h(3) s4(2) by simp
    obtain s5 where s5: "alone s5" "tables_se s5 = tables_se s4" "eventsByID (eventStore m) eid = None"
      and b: "bind (of_result (MoveTo (Some (as_read srv st)) TaskStatusCanceled now)) (\<lambda>t1.
                   bind (of_result (NewTaskCanceledEvent eid (Some t1) now)) (\<lambda>ev.
                   bind (updateTask srv ExecTx (Some t1)) (\<lambda>_.
                   bind (insertEvent srv ExecTx (Some ev)) (\<lambda>_.
                   ret (Commit \<lparr>Task_ca = t1\<lparr>Version := Version t1 + 1\<rparr>, Canceled_ca = True\<rparr>))))) s5 = (Inr (Commit x), s3)"
      by (rule check_event_done [OF s4(1) tail he rep(2) o1(2)])
    from b mv obtain ev s6 where ev: "NewTaskCanceledEvent eid (Some ?t1) now = Inr ev"
      and up: "updateTask srv ExecTx (Some ?t1) s5 = (Inr (), s6)" and ie: "insertEvent srv ExecTx (Some ev) s6 = (Inr (), s3)"
      and x: "x = \<lparr>Task_ca = ?t1\<lparr>Version := Version ?t1 + 1\<rparr>, Canceled_ca = True\<rparr>"
      by (auto elim!: bind_Inr_cases simp: of_result_def ret_def)
    have ht: "holds_tasks srv A (task_rows (tables_se s5)) (tasks (taskStore m))" using h(2) s4(2) s5(2) by simp
    have z: "ID ?t1 \<in> A" "kept_times srv ?t1" "LeaseOwner ?t1 \<noteq> [] \<longrightarrow> LeaseOwner ?t1 \<in> A" "\<forall>x. Status ?t1 \<noteq> OtherStatus x"
      "LeaseToken ?t1 = [] \<and> TaskID ?t1 = [] \<and> LeaseUntil ?t1 = None"
      using st(2) canceled_kept [of srv "as_read srv st" now] o1(1)
      by (auto simp: storable_def kept_times_def as_read_def)
    have frame: "Workflow ?t1 = Workflow st' \<and> CreatedAt ?t1 = CreatedAt st'"
      if "stored_task m (ID ?t1) = Some st'" "Version st' = Version ?t1" for st'
      using that st by simp
    let ?v = "Version st + 1"
    have s6: "alone s6" "event_rows (tables_se s6) = event_rows (tables_se s5)"
      "holds_tasks srv A (task_rows (tables_se s6)) (AList.update tid (?t1\<lparr>Input := Input st, Version := ?v\<rparr>) (tasks (taskStore m)))"
      using updateTask_done [OF s5(1) up ht rep(2) z frame] st by auto
    note row = canceled_row [OF rep(2) st(2) o1(1), of ?v]
    have "holds_tasks srv A (task_rows (tables_se s6)) (AList.update tid ((canceled now st)\<lparr>Version := ?v\<rparr>) (tasks (taskStore m)))"
      by (rule holds_tasks_swap [OF s6(3) row(1) [symmetric] _ row(2)])
        (use h(2) st in \<open>auto simp: holds_tasks_def\<close>)
    note s6 = s6(1,2) this
    note se = canceled_event_storable [OF ev o1(2) z(1) o1(1)]
    then have "kept_time srv (CreatedAt_ev ev)" by (simp add: storable_event_def)
    note ins = insertEvent_done [OF s6(1) ie this]
    have mev: "NewTaskCanceledEvent eid (Some ((canceled now st)\<lparr>Version := ?v\<rparr>)) now = Inr ev"
      using ev canceled_event [of eid srv "canceled now st" now ?v] by (simp add: canceled_read)
    have mem: "CancelTaskWithEvent None tid eid now m =
      (Inr \<lparr>Task_ca = (canceled now st)\<lparr>Version := ?v\<rparr>, Canceled_ca = True\<rparr>,
       TransitionStore.commit tid ((canceled now st)\<lparr>Version := ?v\<rparr>) ev m)"
      using True st(1) live s5(3) mev canceled_MoveTo [OF live] by (auto simp: CancelTaskWithEvent_def Let_def)
    note wf' = store_step_wf [OF store_step.cancel [OF mem] h(1)]
    have "represents srv A (tables_se s') (TransitionStore.commit tid ((canceled now st)\<lparr>Version := ?v\<rparr>) ev m)"
      by (rule represents_commit)
        (use ins(2,3) s6(2,3) s5(2) s4(2) commit(2) holds_events_put [OF h(3) se(1)] wf' in auto)
    moreover have "x = read_cancellation srv \<lparr>Task_ca = (canceled now st)\<lparr>Version := ?v\<rparr>, Canceled_ca = True\<rparr>"
      by (simp add: x read_cancellation_def canceled_def as_read_def enter_status_def)
    ultimately show ?thesis using mem commit(1) by (intro simulatedI) auto
  qed
qed

section \<open>The database as a state machine\<close>

text \<open>
  A step is one store operation on the tables, with any failures of its statements and of the
  commit.  As for the memory stores, the clients create new tasks and change the tasks they read
  (\<open>worker_edit\<close>).  The texts they use are in \<open>A\<close>, their clocks show whole microseconds, and no two
  running tasks have the same lease end.
\<close>

inductive my_step :: "mysql_server \<Rightarrow> string set \<Rightarrow> tables \<Rightarrow> tables \<Rightarrow> bool" for srv A where
  create: "CreateTaskWithEvent_my srv (Some t) (Some ev) s = (rc, s') \<Longrightarrow> alone s \<Longrightarrow> new_task t ev \<Longrightarrow>
    storable srv A t \<Longrightarrow> LastHeartbeatAt t = None \<Longrightarrow> storable_event srv A ev \<Longrightarrow> my_step srv A (tables_se s) (tables_se s')"
| claim: "ClaimNextWithEvent_my srv o1 eid s = (rt, s') \<Longrightarrow> alone s \<Longrightarrow> options_ok srv A o1 \<Longrightarrow> eid \<in> A \<Longrightarrow>
    lease_ends_differ (tables_se s) \<Longrightarrow> my_step srv A (tables_se s) (tables_se s')"
| reap: "FailNextExpiredWithEvent_my srv now eid s = (rt, s') \<Longrightarrow> alone s \<Longrightarrow> kept_time srv now \<Longrightarrow> eid \<in> A \<Longrightarrow>
    lease_ends_differ (tables_se s) \<Longrightarrow> my_step srv A (tables_se s) (tables_se s')"
| cancel: "CancelTaskWithEvent_my srv tid eid now s = (ra, s') \<Longrightarrow> alone s \<Longrightarrow> kept_time srv now \<Longrightarrow> eid \<in> A \<Longrightarrow>
    tid \<in> A \<Longrightarrow> my_step srv A (tables_se s) (tables_se s')"
| renew: "RenewLease_my srv o2 s = (ru, s') \<Longrightarrow> alone s \<Longrightarrow> TaskID_rl o2 \<in> A \<Longrightarrow> WorkerID_rl o2 \<in> A \<Longrightarrow>
    kept_time srv (Now_rl o2) \<Longrightarrow> kept_time srv (Add_time (Now_rl o2) (LeaseDuration_rl o2)) \<Longrightarrow>
    my_step srv A (tables_se s) (tables_se s')"
| update: "UpdateTaskWithEvent_my srv (Some t) (Some ev) s = (ru, s') \<Longrightarrow> alone s \<Longrightarrow> worker_edit t0 t ev \<Longrightarrow>
    kept_times srv t \<Longrightarrow> ID t \<in> A \<Longrightarrow> (LeaseOwner t \<noteq> [] \<longrightarrow> LeaseOwner t \<in> A) \<Longrightarrow> storable_event srv A ev \<Longrightarrow>
    (\<And>r. r \<in> set (task_rows (tables_se s)) \<Longrightarrow> id_c r = ID t \<Longrightarrow> version_c r = Version t \<Longrightarrow> same_claim t0 (scanTask r)) \<Longrightarrow>
    my_step srv A (tables_se s) (tables_se s')"

inductive my_reachable :: "mysql_server \<Rightarrow> string set \<Rightarrow> tables \<Rightarrow> bool" for srv A where
  init: "my_reachable srv A \<lparr>task_rows = [], event_rows = []\<rparr>"
| step: "my_reachable srv A d \<Longrightarrow> my_step srv A d d' \<Longrightarrow> my_reachable srv A d'"

lemma simulated_cases:
  assumes "simulated srv A f d (r, s') mem" "represents srv A d m"
  obtains "represents srv A (tables_se s') m" | x where "fst mem = Inr x" "represents srv A (tables_se s') (snd mem)"
  using assms by (auto simp: simulated_def)

lemma simulated_changed:
  "simulated srv A f d (r, s') mem \<Longrightarrow> tables_se s' \<noteq> d \<Longrightarrow> represents srv A (tables_se s') (snd mem)"
  by (auto simp: simulated_def)

theorem my_step_simulated:
  assumes "my_step srv A d d'" "represents srv A d m" "server_ok srv A"
  shows "\<exists>m'. store_step\<^sup>=\<^sup>= m m' \<and> represents srv A d' m'"
  using assms
proof (induction rule: my_step.induct)
  case (create t ev s rc s')
  from create_my_sim [OF create(7,8) create(2-6) create(1)] create(3,7) show ?case
    using store_step.create [of None t ev m] by (auto simp: represents_def)
next
  case (claim o1 eid s rt s')
  note sim = claim_my_sim [OF claim(6,7,2-5,1)]
  show ?case
  proof (rule simulated_cases [OF sim claim(6)])
    show ?thesis if "represents srv A (tables_se s') m" using that by auto
    fix x assume "represents srv A (tables_se s') (snd (ClaimNextWithEvent (\<lambda>m. m) (\<lambda>m. m) None o1 eid m))"
    then show ?thesis using store_step.claim [of "\<lambda>m. m" "\<lambda>m. m" None o1 eid m, OF surjective_pairing] by auto
  qed
next
  case (reap now eid s rt s')
  note sim = reap_my_sim [OF reap(6,7,2-5,1)]
  show ?case
  proof (rule simulated_cases [OF sim reap(6)])
    show ?thesis if "represents srv A (tables_se s') m" using that by auto
    fix x assume "represents srv A (tables_se s') (snd (FailNextExpiredWithEvent (\<lambda>m. m) None now eid m))"
    then show ?thesis using store_step.reap [of "\<lambda>m. m" None now eid m, OF surjective_pairing] by auto
  qed
next
  case (cancel tid eid now s ra s')
  note sim = cancel_my_sim [OF cancel(6,7,2-5,1)]
  show ?case
  proof (rule simulated_cases [OF sim cancel(6)])
    show ?thesis if "represents srv A (tables_se s') m" using that by auto
    fix x assume "represents srv A (tables_se s') (snd (CancelTaskWithEvent None tid eid now m))"
    then show ?thesis using store_step.cancel [of None tid eid now m, OF surjective_pairing] by auto
  qed
next
  case (renew o2 s ru s')
  note sim = renew_my_sim [OF renew(7,8,2-6,1)]
  show ?case
  proof (rule simulated_cases [OF sim renew(7)])
    show ?thesis if "represents srv A (tables_se s') m" using that by auto
    fix x assume "represents srv A (tables_se s')
      (snd (map_prod err_result (\<lambda>ts. m\<lparr>taskStore := ts\<rparr>) (RenewLease None o2 (taskStore m))))"
    then show ?thesis using store_step.renew [of None o2 m, OF surjective_pairing] by auto
  qed
next
  case (update t ev s ru s' t0)
  note both = update_my_sim [OF update(9,10,2-8,1)]
  show ?case
  proof (cases "tables_se s' = tables_se s")
    case True
    with update(9) show ?thesis by auto
  next
    case False
    with both obtain t1 where t1: "worker_edit t1 (stored_input m t) ev"
      "\<And>st. stored_task m (ID t) = Some st \<Longrightarrow> Version st = Version t \<Longrightarrow> same_claim t1 st" by blast
    have id: "ID (stored_input m t) = ID t" "Version (stored_input m t) = Version t"
      by (simp_all add: stored_input_def split: option.splits)
    have "represents srv A (tables_se s') (snd (UpdateTaskWithEvent None (Some (stored_input m t)) (Some ev) m))"
      using simulated_changed [OF conjunct1 [OF both] False] unfolding snd_map_prod id_apply .
    moreover have "store_step m (snd (UpdateTaskWithEvent None (Some (stored_input m t)) (Some ev) m))"
      by (rule store_step.update [OF surjective_pairing t1(1)]) (use t1(2) id in auto)
    ultimately show ?thesis by auto
  qed
qed

lemma my_reachable_represents:
  assumes "my_reachable srv A d" "server_ok srv A"
  shows "\<exists>m. reachable m \<and> represents srv A d m"
  using assms(1)
proof induction
  case init
  have "represents srv A \<lparr>task_rows = [], event_rows = []\<rparr> NewMemoryStores"
    using NewMemoryStores_wf
    by (simp add: represents_def holds_tasks_def holds_events_def NewMemoryStores_def
        NewMemoryTaskStore_def NewMemoryEventStore_def events_of_def)
  with reachable.init show ?case by blast
next
  case (step d d')
  with my_step_simulated [OF step(2) _ assms(2)] reachable.step show ?case by blast
qed

end
