(* ===== verification/MySqlQuery.thy ===== *)
theory MySqlQuery
  imports MySqlStore Query
begin

text \<open>
  The read side of the MySQL store: \<open>task_query_store.go\<close> (pages of tasks) and
  \<open>task_stats_store.go\<close> (counts and ages per status).  A page is one statement; a snapshot is two,
  and other clients may act between them.
\<close>

section \<open>Listing\<close>

record list_row =
  id_l :: string
  workflow_l :: string
  status_l :: string
  error_message_l :: "string option"
  progress_l :: int
  retry_count_l :: int
  max_retries_l :: int
  lease_owner_l :: "string option"
  lease_expires_at_l :: "time option"
  created_at_l :: time
  updated_at_l :: time

definition list_columns :: "task_row \<Rightarrow> list_row" where
  "list_columns r = \<lparr>
     id_l = id_c r, workflow_l = workflow_c r, status_l = status_c r, error_message_l = error_message_c r,
     progress_l = progress_c r, retry_count_l = retry_count_c r, max_retries_l = max_retries_c r,
     lease_owner_l = lease_owner_c r, lease_expires_at_l = lease_expires_at_c r,
     created_at_l = created_at_c r, updated_at_l = updated_at_c r\<rparr>"

text \<open>The clauses that \<open>ListTasks\<close> appends to its query.\<close>

definition list_where :: "mysql_server \<Rightarrow> ListTasksOptions \<Rightarrow> task_row \<Rightarrow> bool" where
  "list_where srv o1 r \<longleftrightarrow>
     (Workflow_lo o1 \<noteq> [] \<longrightarrow> eq_text srv (workflow_c r) (Workflow_lo o1)) \<and>
     (Status_lo o1 \<noteq> any_status \<longrightarrow> eq_text srv (status_c r) (status_text (Status_lo o1))) \<and>
     (case BeforeCreatedAt_lo o1 of
        None \<Rightarrow> True
      | Some before \<Rightarrow>
          created_at_c r < datetime6 srv before \<or>
          (created_at_c r = datetime6 srv before \<and> less_text srv (id_c r) (BeforeID_lo o1)))"

text \<open>\<open>ORDER BY created_at DESC, id DESC\<close>.\<close>

definition list_order :: "mysql_server \<Rightarrow> task_row \<Rightarrow> task_row \<Rightarrow> bool" where
  "list_order srv r q \<longleftrightarrow>
     created_at_c q < created_at_c r \<or>
     (created_at_c q = created_at_c r \<and> less_text srv (id_c q) (id_c r))"

definition listTasksQuery ::
  "mysql_server \<Rightarrow> ListTasksOptions \<Rightarrow> tables \<Rightarrow> list_row list answer \<times> tables" where
  "listTasksQuery srv o1 d =
     (Inr (map list_columns (take (nat (Limit_lo o1))
        (order_by (list_order srv) (filter (list_where srv o1) (task_rows d))))), d)"

definition scan_item :: "list_row \<Rightarrow> TaskListItem" where
  "scan_item r = \<lparr>
     ID_li = id_l r, Workflow_li = workflow_l r, Status_li = status_of_text (status_l r),
     ErrorMessage_li = null_string (error_message_l r), Progress_li = progress_l r,
     RetryCount_li = retry_count_l r, MaxRetries_li = max_retries_l r,
     LeaseOwner_li = null_string (lease_owner_l r), LeaseExpiresAt_li = timePointer (lease_expires_at_l r),
     CreatedAt_li = created_at_l r, UpdatedAt_li = updated_at_l r\<rparr>"

definition ListTasks_my :: "mysql_server \<Rightarrow> ListTasksOptions \<Rightarrow> (session, TaskListItem list) op" where
  "ListTasks_my srv o1 =
     (case Validate_list o1 of
        Some e \<Rightarrow> raise e
      | None \<Rightarrow>
          bind (late_statement ExecDB (listTasksQuery srv o1)) (\<lambda>a.
            case a of
              Inl e \<Rightarrow> sql_fail srv ''list tasks: '' e
            | Inr (Inl e) \<Rightarrow> sql_fail srv ''iterate task list: '' e
            | Inr (Inr rows) \<Rightarrow> ret (map scan_item rows)))"

section \<open>Statistics\<close>

definition appendTaskStatsFilter :: "mysql_server \<Rightarrow> TaskStatsFilter \<Rightarrow> task_row \<Rightarrow> bool" where
  "appendTaskStatsFilter srv f r \<longleftrightarrow>
     (Workflow_sf f \<noteq> [] \<longrightarrow> eq_text srv (workflow_c r) (Workflow_sf f)) \<and>
     (Status_sf f \<noteq> any_status \<longrightarrow> eq_text srv (status_c r) (status_text (Status_sf f)))"

text \<open>
  \<open>GROUP BY status\<close>: one group for each class of rows whose statuses the collation does not
  distinguish, under the status of its first row.
\<close>

fun group_rows :: "mysql_server \<Rightarrow> task_row list \<Rightarrow> (string \<times> task_row list) list" where
  "group_rows srv [] = []"
| "group_rows srv (r # rs) =
     (status_c r, r # filter (\<lambda>q. eq_text srv (status_c q) (status_c r)) rs) #
     group_rows srv (filter (\<lambda>q. \<not> eq_text srv (status_c q) (status_c r)) rs)"

definition statusCountsQuery ::
  "mysql_server \<Rightarrow> TaskStatsFilter \<Rightarrow> tables \<Rightarrow> (string \<times> int) list answer \<times> tables" where
  "statusCountsQuery srv f d =
     (Inr (map (\<lambda>(st, g). (st, int (length g)))
        (group_rows srv (filter (appendTaskStatsFilter srv f) (task_rows d)))), d)"

definition availableStatsQuery ::
  "mysql_server \<Rightarrow> time \<Rightarrow> TaskStatsFilter \<Rightarrow> tables \<Rightarrow> (string \<times> int \<times> time) list answer \<times> tables" where
  "availableStatsQuery srv now f d =
     (Inr (map (\<lambda>(st, g). (st, int (length g), Min (available_at_c ` set g)))
        (group_rows srv (filter (\<lambda>r.
           (eq_text srv (status_c r) (status_text TaskStatusQueued) \<or>
            eq_text srv (status_c r) (status_text TaskStatusRetrying)) \<and>
           available_at_c r \<le> datetime6 srv now \<and> appendTaskStatsFilter srv f r) (task_rows d)))), d)"

text \<open>The loops over the rows of the two answers.\<close>

definition put_count :: "TaskStatsSnapshot \<Rightarrow> string \<times> int \<Rightarrow> TaskStatsSnapshot" where
  "put_count snap row =
     snap\<lparr>StatusCounts := (StatusCounts snap)(status_of_text (fst row) \<mapsto> snd row)\<rparr>"

definition put_available :: "time \<Rightarrow> TaskStatsSnapshot \<Rightarrow> string \<times> int \<times> time \<Rightarrow> TaskStatsSnapshot" where
  "put_available now snap row =
     (case row of (status, n, oldest) \<Rightarrow>
        snap\<lparr>AvailableCounts := (AvailableCounts snap)(status_of_text status \<mapsto> n),
             OldestAvailableAge := (OldestAvailableAge snap)(status_of_text status \<mapsto> Sub_time now oldest)\<rparr>)"

definition scanFilteredStatusCounts ::
  "mysql_server \<Rightarrow> TaskStatsFilter \<Rightarrow> TaskStatsSnapshot \<Rightarrow> (session, TaskStatsSnapshot) op" where
  "scanFilteredStatusCounts srv f snap =
     bind (late_statement ExecDB (statusCountsQuery srv f)) (\<lambda>a.
       case a of
         Inl e \<Rightarrow> sql_fail srv ''select filtered task status counts: '' e
       | Inr (Inl e) \<Rightarrow> raise (sql_cause srv e)
       | Inr (Inr rows) \<Rightarrow> ret (foldl put_count snap rows))"

definition scanFilteredAvailableStats ::
  "mysql_server \<Rightarrow> time \<Rightarrow> TaskStatsFilter \<Rightarrow> TaskStatsSnapshot \<Rightarrow> (session, TaskStatsSnapshot) op" where
  "scanFilteredAvailableStats srv now f snap =
     bind (late_statement ExecDB (availableStatsQuery srv now f)) (\<lambda>a.
       case a of
         Inl e \<Rightarrow> sql_fail srv ''select filtered available task stats: '' e
       | Inr (Inl e) \<Rightarrow> raise (sql_cause srv e)
       | Inr (Inr rows) \<Rightarrow> ret (foldl (put_available now) snap rows))"

definition scanStatusCounts :: "mysql_server \<Rightarrow> TaskStatsSnapshot \<Rightarrow> (session, TaskStatsSnapshot) op" where
  "scanStatusCounts srv snap =
     bind (late_statement ExecDB (statusCountsQuery srv \<lparr>Workflow_sf = [], Status_sf = any_status\<rparr>)) (\<lambda>a.
       case a of
         Inl e \<Rightarrow> sql_fail srv ''select task status counts: '' e
       | Inr (Inl e) \<Rightarrow> sql_fail srv ''iterate task status counts: '' e
       | Inr (Inr rows) \<Rightarrow> ret (foldl put_count snap rows))"

definition scanAvailableStats :: "mysql_server \<Rightarrow> time \<Rightarrow> TaskStatsSnapshot \<Rightarrow> (session, TaskStatsSnapshot) op" where
  "scanAvailableStats srv now snap =
     bind (late_statement ExecDB (availableStatsQuery srv now \<lparr>Workflow_sf = [], Status_sf = any_status\<rparr>)) (\<lambda>a.
       case a of
         Inl e \<Rightarrow> sql_fail srv ''select available task stats: '' e
       | Inr (Inl e) \<Rightarrow> sql_fail srv ''iterate available task stats: '' e
       | Inr (Inr rows) \<Rightarrow> ret (foldl (put_available now) snap rows))"

definition SnapshotTaskStats_my :: "mysql_server \<Rightarrow> time \<Rightarrow> time \<Rightarrow> (session, TaskStatsSnapshot) op" where
  "SnapshotTaskStats_my srv clock now =
     (let now = (if IsZero now then clock else now) in
      bind (scanStatusCounts srv NewTaskStatsSnapshot) (\<lambda>snap. scanAvailableStats srv now snap))"

definition SnapshotFilteredTaskStats_my ::
  "mysql_server \<Rightarrow> time \<Rightarrow> time \<Rightarrow> TaskStatsFilter \<Rightarrow> (session, TaskStatsSnapshot) op" where
  "SnapshotFilteredTaskStats_my srv clock now f =
     (case Validate_stats f of
        Some e \<Rightarrow> raise e
      | None \<Rightarrow>
          let now = (if IsZero now then clock else now) in
          bind (scanFilteredStatusCounts srv f NewTaskStatsSnapshot) (\<lambda>snap.
            scanFilteredAvailableStats srv now f snap))"

end
