(* ===== verification/MySqlTypes.thy ===== *)
theory MySqlTypes
  imports MySqlQuery SqlFacts
begin

text \<open>
  What every call of the MySQL stores keeps of the tables, whatever the driver reports and
  whatever the other clients do.  The interface \<open>kept_tables\<close> asks a predicate on tables to
  survive the three kinds of statements that write; all operations then keep it.  It is
  instantiated with the types and keys of the schema.
\<close>

section \<open>Operations that keep a predicate\<close>

text \<open>Other clients keep the predicate, and so does the operation.\<close>

definition fair :: "(tables \<Rightarrow> bool) \<Rightarrow> session \<Rightarrow> bool" where
  "fair P s \<longleftrightarrow> P (tables_se s) \<and> (\<forall>a \<in> set (arrivals_se s). \<forall>d. P d \<longrightarrow> P (others_ar a d))"

definition keeps :: "(tables \<Rightarrow> bool) \<Rightarrow> (session, 'a) op \<Rightarrow> bool" where
  "keeps P f \<longleftrightarrow> (\<forall>s. fair P s \<longrightarrow> fair P (snd (f s)))"

named_theorems keeps_intros \<open>operations that keep a predicate on the tables\<close>

lemma keepsI: "(\<And>s. fair P s \<Longrightarrow> fair P (snd (f s))) \<Longrightarrow> keeps P f"
  by (simp add: keeps_def)

lemma keeps_ret [keeps_intros]: "keeps P (ret x)"
  by (simp add: keeps_def ret_def)

lemma keeps_raise [keeps_intros]: "keeps P (raise e)"
  by (simp add: keeps_def raise_def)

lemma keeps_of_result [keeps_intros]: "keeps P (of_result r)"
  by (simp add: keeps_def of_result_def)

lemma keeps_sql_fail [keeps_intros]: "keeps P (sql_fail srv p e)"
  by (simp add: sql_fail_def keeps_raise)

lemma keeps_bind [keeps_intros]:
  assumes "keeps P f" "\<And>x. keeps P (k x)"
  shows "keeps P (bind f k)"
proof (rule keepsI)
  fix s assume "fair P s"
  with assms(1) have f1: "fair P (snd (f s))" by (simp add: keeps_def)
  obtain r s1 where fs: "f s = (r, s1)" by force
  with f1 assms(2) show "fair P (snd (bind f k s))"
    by (cases r) (auto simp: bind_def keeps_def)
qed

lemma keeps_attempt [keeps_intros]:
  assumes "keeps P f" "\<And>x. keeps P (k x)"
  shows "keeps P (attempt f k)"
  using assms by (auto simp: keeps_def attempt_def split: prod.splits)

lemma next_arrival_fair:
  assumes "fair P s" "next_arrival s = (a, s1)"
  shows "fair P s1" "P (tables_se s1)" "P d \<Longrightarrow> P (others_ar a d)"
  using assms by (auto simp: next_arrival_def fair_def quiet_def split: list.splits)

lemma fair_tables [simp]: "fair P s \<Longrightarrow> P d \<Longrightarrow> fair P (s\<lparr>tables_se := d\<rparr>)"
  by (simp add: fair_def)

lemma keeps_statement:
  assumes "\<And>d. P d \<Longrightarrow> P (snd (f d))"
  shows "keeps P (statement ex f)"
proof (rule keepsI)
  fix s assume s: "fair P s"
  obtain a s1 where n: "next_arrival s = (a, s1)" by force
  note na = next_arrival_fair [OF s n]
  have "P (if ex = ExecDB then others_ar a (tables_se s1) else tables_se s1)" using na by simp
  with n na assms show "fair P (snd (statement ex f s))"
    by (auto simp: statement_def Let_def split: option.splits)
qed

lemma keeps_late_statement:
  assumes "\<And>d. P d \<Longrightarrow> P (snd (f d))"
  shows "keeps P (late_statement ex f)"
proof (rule keepsI)
  fix s assume "fair P s"
  moreover have "keeps P (statement ex f)" by (rule keeps_statement) (rule assms)
  ultimately have "fair P (snd (statement ex f s))" by (simp add: keeps_def)
  then show "fair P (snd (late_statement ex f s))"
    by (auto simp: late_statement_def split: prod.splits sum.splits)
qed

lemma keeps_in_tx [keeps_intros]:
  assumes "keeps P body"
  shows "keeps P (in_tx srv bt ct body)"
proof (rule keepsI)
  fix s assume s: "fair P s"
  obtain a s1 where n: "next_arrival s = (a, s1)" by force
  note na = next_arrival_fair [OF s n]
  define s2 where "s2 = s1\<lparr>tables_se := others_ar a (tables_se s1), locked_se := locked_ar a\<rparr>"
  have s2: "fair P s2" using na by (simp add: s2_def fair_def)
  then have P2: "P (tables_se s2)" by (simp add: fair_def)
  obtain r s3 where b: "body s2 = (r, s3)" by force
  with assms s2 have s3: "fair P s3" by (metis keeps_def snd_conv)
  obtain c s4 where n4: "next_arrival s3 = (c, s4)" by force
  note s4 = next_arrival_fair(1,2) [OF s3 n4]
  show "fair P (snd (in_tx srv bt ct body s))"
    unfolding in_tx_def n prod.case Let_def s2_def [symmetric]
    using b n4 s2 s3 s4 P2 by (auto split: option.splits sum.splits tx_end.splits)
qed

text \<open>Queries keep everything.\<close>

lemma query_pure [simp]:
  "snd (first_row srv keep key d) = d" "snd (one_row keep' d) = d"
  by (simp_all add: first_row_def one_row_def split: option.splits)

lemma keeps_query [keeps_intros]: "(\<And>d. snd (q d) = d) \<Longrightarrow> keeps P (query_task ex q)"
  unfolding query_task_def by (intro keeps_intros keeps_statement) simp

lemma keeps_eventExists [keeps_intros]: "keeps P (eventExists srv ex eid)"
  unfolding eventExists_def by (intro keeps_intros keeps_statement) simp

lemma keeps_check_event [keeps_intros]: "keeps P k \<Longrightarrow> keeps P (check_event srv w eid k)"
  unfolding check_event_def by (intro keeps_intros) (auto split: sum.split intro!: keeps_intros)

lemma keeps_one_changed [keeps_intros]: "keeps P (one_changed srv p q w a)"
  unfolding one_changed_def by (auto split: sum.split intro!: keeps_intros)

section \<open>The interface\<close>

text \<open>An update of the program: the id and the two columns of the unique key stay.\<close>

definition key_columns :: "(task_row \<Rightarrow> (nat \<times> string) + task_row) \<Rightarrow> bool" where
  "key_columns chg \<longleftrightarrow>
     (\<forall>r r'. chg r = Inr r' \<longrightarrow>
        id_c r' = id_c r \<and> workflow_c r' = workflow_c r \<and> idempotency_key_c r' = idempotency_key_c r)"

locale kept_tables =
  fixes srv :: mysql_server and P :: "tables \<Rightarrow> bool"
  assumes insert_task_law: "P d \<Longrightarrow> P (snd (insert_task_row srv r d))"
    and insert_event_law: "P d \<Longrightarrow> P (snd (insert_event_row srv e d))"
    and update_law: "P d \<Longrightarrow> key_columns chg \<Longrightarrow> P (snd (update_tasks srv keep chg d))"
begin

lemma keeps_insertTask [keeps_intros]: "keeps P (insertTask srv ex t)"
proof -
  have "P d \<Longrightarrow> P (snd (insertTaskQuery srv u d))" for u d
    by (auto simp: insertTaskQuery_def insert_task_law split: sum.splits)
  then show ?thesis
    unfolding insertTask_def
    by (auto split: option.split sum.split sql_error.split intro!: keeps_intros keeps_statement)
qed

lemma keeps_insertEvent [keeps_intros]: "keeps P (insertEvent srv ex ev)"
proof -
  have "P d \<Longrightarrow> P (snd (insertEventQuery srv u d))" for u d
    by (auto simp: insertEventQuery_def insert_event_law split: sum.splits)
  then show ?thesis
    unfolding insertEvent_def Let_def
    by (auto split: option.split sum.split sql_error.split intro!: keeps_intros keeps_statement)
qed

lemma keeps_updateTask [keeps_intros]: "keeps P (updateTask srv ex t)"
proof -
  have "P d \<Longrightarrow> P (snd (updateTaskQuery srv u d))" for u d
    by (auto simp: updateTaskQuery_def key_columns_def bump_version_def intro!: update_law split: sum.splits if_splits)
  moreover have "keeps P (statement ex (getTaskQuery srv tid))" for tid
    by (rule keeps_statement) (simp add: getTaskQuery_def)
  ultimately show ?thesis
    unfolding updateTask_def
    by (auto split: option.split sum.split intro!: keeps_intros keeps_late_statement)
qed

lemma keeps_claimNextInTx [keeps_intros]: "keeps P (claimNextInTx srv o1)"
proof -
  have "P d \<Longrightarrow> P (snd (claim_update srv u d))" for u d
    by (auto simp: claim_update_def key_columns_def bump_version_def intro!: update_law split: if_splits)
  moreover have "keeps P (select_claim_my srv o1)"
  proof (rule keepsI)
    fix s assume s: "fair P s"
    have "keeps P (bind (query_task ExecTx (expiredQuery srv l o1)) (\<lambda>a.
       case a of
         Inr t \<Rightarrow> ret (t, ClaimRecovery)
       | Inl e \<Rightarrow>
           if e \<noteq> ErrNoRows then sql_fail srv ''select next task for claim: '' e
           else bind (query_task ExecTx (nextQuery srv l o1)) (\<lambda>b.
             case b of
               Inr t \<Rightarrow> ret (t, if Status t = TaskStatusRetrying then ClaimRetry else ClaimInitial)
             | Inl e \<Rightarrow>
                 if e = ErrNoRows then raise ErrNoTaskAvailable
                 else sql_fail srv ''select next task for claim: '' e)))" for l
      by (auto simp: expiredQuery_eq nextQuery_eq split: sum.split intro!: keeps_intros)
    with s show "fair P (snd (select_claim_my srv o1 s))" by (simp add: select_claim_my_def keeps_def)
  qed
  ultimately show ?thesis
    unfolding claimNextInTx_def Let_def
    by (auto split: sum.split prod.split intro!: keeps_intros keeps_late_statement)
qed

lemma keeps_failNextExpiredInTx [keeps_intros]: "keeps P (failNextExpiredInTx srv now)"
proof (rule keepsI)
  fix s assume s: "fair P s"
  have u: "P d \<Longrightarrow> P (snd (expire_update srv u d))" for u d
    by (auto simp: expire_update_def key_columns_def bump_version_def intro!: update_law split: if_splits)
  have "keeps P (bind (query_task ExecTx (selectExpiredExhaustedTaskQuery srv l now)) (\<lambda>a.
       case a of
         Inl e \<Rightarrow>
           if e = ErrNoRows then raise ErrNoExpiredTask
           else sql_fail srv ''select expired exhausted task: '' e
       | Inr t \<Rightarrow>
           (case MoveTo (Some (t\<lparr>ErrorMessage := expired_message\<rparr>)) TaskStatusFailed now of
              Inl e \<Rightarrow> raise (Wrap (''fail expired task '' @ quoted_id srv (ID t) @ '': '') e [])
            | Inr t1 \<Rightarrow>
                bind (late_statement ExecTx (expire_update srv t1)) (\<lambda>b.
                bind (one_changed srv (''persist expired task '' @ quoted_id srv (ID t1) @ '' failure: '')
                   (''read expired task '' @ quoted_id srv (ID t1) @ '' cleanup row count: '')
                   (wrong_count srv ''cleanup expired task '' t1) b) (\<lambda>_.
                ret (t1\<lparr>Version := Version t1 + 1\<rparr>))))))" for l
    by (auto simp: selectExpiredExhaustedTaskQuery_def u split: sum.split intro!: keeps_intros keeps_late_statement)
  with s show "fair P (snd (failNextExpiredInTx srv now s))" by (simp add: failNextExpiredInTx_def keeps_def)
qed

lemma keeps_RenewLease: "keeps P (RenewLease_my srv o2)"
proof -
  have "P d \<Longrightarrow> P (snd (renewLeaseQuery srv o2 d))" for d
    by (auto simp: renewLeaseQuery_def key_columns_def intro!: update_law)
  then show ?thesis
    unfolding RenewLease_my_def by (auto split: option.split intro!: keeps_intros keeps_late_statement)
qed

lemma keeps_task_store:
  "keeps P (Create_my srv t)" "keeps P (Get_my srv tid)" "keeps P (ClaimNext_my srv o1)" "keeps P (Update_my srv t)"
  "keeps P (FailNextExpired_my srv now)"
  unfolding Create_my_def Get_my_def ClaimNext_my_def Update_my_def FailNextExpired_my_def
  by (auto simp: getTaskQuery_def split: option.split sum.split prod.split intro!: keeps_intros)

lemma keeps_event_store: "keeps P (Append_my srv ev)" "keeps P (ListByTaskID_my srv tid)"
  unfolding Append_my_def ListByTaskID_my_def
  by (auto simp: listEventsByTaskIDQuery_def split: sum.split intro!: keeps_intros keeps_late_statement)

lemma keeps_transitions:
  "keeps P (ClaimNextWithEvent_my srv o1 eid)" "keeps P (FailNextExpiredWithEvent_my srv now eid)"
  "keeps P (UpdateTaskWithEvent_my srv t ev)" "keeps P (CancelTaskWithEvent_my srv tid eid now)"
  unfolding ClaimNextWithEvent_my_def FailNextExpiredWithEvent_my_def UpdateTaskWithEvent_my_def CancelTaskWithEvent_my_def
  by (auto simp: getTaskQuery_def split: option.split sum.split prod.split intro!: keeps_intros)

lemma keeps_creation: "keeps P (CreateTaskWithEvent_my srv t ev)"
  unfolding CreateTaskWithEvent_my_def resolveIdempotentReplay_def getByWorkflowAndIdempotencyKey_def
  by (auto simp: getTaskByWorkflowAndIdempotencyKeyQuery_def split: option.split sum.split intro!: keeps_intros)

lemma keeps_queries:
  "keeps P (ListTasks_my srv lo)" "keeps P (SnapshotTaskStats_my srv clock now)"
  "keeps P (SnapshotFilteredTaskStats_my srv clock now f)"
  unfolding ListTasks_my_def SnapshotTaskStats_my_def SnapshotFilteredTaskStats_my_def Let_def
    scanStatusCounts_def scanAvailableStats_def scanFilteredStatusCounts_def scanFilteredAvailableStats_def
  by (auto simp: listTasksQuery_def statusCountsQuery_def availableStatsQuery_def split: option.split sum.split
      intro!: keeps_intros keeps_late_statement)

end

section \<open>The schema\<close>

text \<open>
  The tables as the schema wants them: every value fits its column and passes the checks, ids are
  unique, a workflow has an idempotency key once, and every event belongs to a task.
\<close>

definition typed :: "mysql_server \<Rightarrow> tables \<Rightarrow> bool" where
  "typed srv d \<longleftrightarrow>
     (\<forall>r \<in> set (task_rows d). task_violation srv r = None) \<and>
     sorted_wrt (\<lambda>q r. \<not> eq_text srv (id_c q) (id_c r) \<and> \<not> same_key srv r q) (task_rows d) \<and>
     (\<forall>e \<in> set (event_rows d). event_violation srv e = None \<and>
        list_ex (\<lambda>r. eq_text srv (id_c r) (task_id_e e)) (task_rows d)) \<and>
     sorted_wrt (\<lambda>q r. \<not> eq_text srv (id_e q) (id_e r)) (event_rows d)"

text \<open>An update changes rows in place; it keeps their types, ids and keys.\<close>

definition same_keys :: "task_row \<Rightarrow> task_row \<Rightarrow> bool" where
  "same_keys r r' \<longleftrightarrow> id_c r' = id_c r \<and> workflow_c r' = workflow_c r \<and> idempotency_key_c r' = idempotency_key_c r"

lemma update_rows_rel:
  assumes "update_rows srv keep chg rows = Inr (n, rows')" "key_columns chg"
  shows "list_all2 (\<lambda>r r'. same_keys r r' \<and> (r' = r \<or> task_violation srv r' = None)) rows rows'"
  using assms(1)
proof (induction rows arbitrary: n rows')
  case (Cons r rows)
  have k: "same_keys r r'" if "chg r = Inr r'" for r'
    using that assms(2) by (simp add: key_columns_def same_keys_def)
  obtain n1 rows1 where IH: "update_rows srv keep chg rows = Inr (n1, rows1)"
    using Cons.prems by (auto simp: map_sum_def split: if_splits sum.splits option.splits)
  have "\<exists>r'. rows' = r' # rows1 \<and> same_keys r r' \<and> (r' = r \<or> task_violation srv r' = None)"
  proof (cases "keep r")
    case False
    with Cons.prems IH show ?thesis by (intro exI [of _ r]) (auto simp: same_keys_def)
  next
    case True
    with Cons.prems IH k show ?thesis by (auto split: sum.splits option.splits)
  qed
  with Cons.IH [OF IH] show ?case by auto
qed simp

lemma list_all2_back: "list_all2 R xs ys \<Longrightarrow> y \<in> set ys \<Longrightarrow> \<exists>x \<in> set xs. R x y"
  by (induction rule: list_all2_induct) auto

lemma sorted_wrt_rel:
  assumes "list_all2 R xs ys" "sorted_wrt Q xs" "\<And>x y x' y'. Q x y \<Longrightarrow> R x x' \<Longrightarrow> R y y' \<Longrightarrow> Q x' y'"
  shows "sorted_wrt Q ys"
  using assms(1,2)
proof (induction rule: list_all2_induct)
  case (Cons x xs y ys)
  have "Q y z" if "z \<in> set ys" for z
  proof -
    from list_all2_back [OF Cons(2) that] obtain w where "w \<in> set xs" "R w z" by blast
    with Cons assms(3) [of x w y z] show ?thesis by auto
  qed
  with Cons show ?case by auto
qed simp

lemma typed_update:
  assumes t: "typed srv d" and k: "key_columns chg"
  shows "typed srv (snd (update_tasks srv keep chg d))"
proof (cases "update_rows srv keep chg (task_rows d)")
  case (Inl e)
  with t show ?thesis by (simp add: update_tasks_def)
next
  case (Inr nr)
  obtain n rows where nr: "nr = (n, rows)" by force
  note rel = update_rows_rel [OF Inr [unfolded nr] k]
  have "\<forall>r \<in> set rows. task_violation srv r = None"
  proof
    fix r' assume "r' \<in> set rows"
    from list_all2_back [OF rel this] obtain r where "r \<in> set (task_rows d)" "r' = r \<or> task_violation srv r' = None"
      by blast
    with t show "task_violation srv r' = None" by (auto simp: typed_def)
  qed
  moreover have "sorted_wrt (\<lambda>q r. \<not> eq_text srv (id_c q) (id_c r) \<and> \<not> same_key srv r q) rows"
    by (rule sorted_wrt_rel [OF rel]) (use t in \<open>auto simp: typed_def same_keys_def same_key_def\<close>)
  moreover have "list_ex (\<lambda>r. eq_text srv (id_c r) x) rows = list_ex (\<lambda>r. eq_text srv (id_c r) x) (task_rows d)" for x
    using rel by (induction rule: list_all2_induct) (auto simp: same_keys_def)
  ultimately show ?thesis using t Inr nr by (simp add: update_tasks_def typed_def)
qed

interpretation schema: kept_tables srv "typed srv" for srv
proof
  fix d :: tables and r :: task_row
  assume "typed srv d"
  then show "typed srv (snd (insert_task_row srv r d))"
    by (auto simp: insert_task_row_def typed_def sorted_wrt_append list_ex_iff split: option.splits)
next
  fix d :: tables and e :: event_row
  assume "typed srv d"
  then show "typed srv (snd (insert_event_row srv e d))"
    by (auto simp: insert_event_row_def typed_def sorted_wrt_append list_ex_iff split: option.splits)
qed (rule typed_update)

text \<open>The calls of the stores, as changes of a session.\<close>

inductive_set mysql_calls :: "mysql_server \<Rightarrow> (session \<Rightarrow> session) set" for srv where
  "(\<lambda>s. snd (Create_my srv t s)) \<in> mysql_calls srv"
| "(\<lambda>s. snd (Get_my srv tid s)) \<in> mysql_calls srv"
| "(\<lambda>s. snd (ClaimNext_my srv o1 s)) \<in> mysql_calls srv"
| "(\<lambda>s. snd (Update_my srv t s)) \<in> mysql_calls srv"
| "(\<lambda>s. snd (RenewLease_my srv o2 s)) \<in> mysql_calls srv"
| "(\<lambda>s. snd (FailNextExpired_my srv now s)) \<in> mysql_calls srv"
| "(\<lambda>s. snd (Append_my srv ev s)) \<in> mysql_calls srv"
| "(\<lambda>s. snd (ListByTaskID_my srv tid s)) \<in> mysql_calls srv"
| "(\<lambda>s. snd (CreateTaskWithEvent_my srv t ev s)) \<in> mysql_calls srv"
| "(\<lambda>s. snd (ClaimNextWithEvent_my srv o1 eid s)) \<in> mysql_calls srv"
| "(\<lambda>s. snd (FailNextExpiredWithEvent_my srv now eid s)) \<in> mysql_calls srv"
| "(\<lambda>s. snd (UpdateTaskWithEvent_my srv t ev s)) \<in> mysql_calls srv"
| "(\<lambda>s. snd (CancelTaskWithEvent_my srv tid eid now s)) \<in> mysql_calls srv"
| "(\<lambda>s. snd (ListTasks_my srv lo s)) \<in> mysql_calls srv"
| "(\<lambda>s. snd (SnapshotTaskStats_my srv clock now s)) \<in> mysql_calls srv"
| "(\<lambda>s. snd (SnapshotFilteredTaskStats_my srv clock now f s)) \<in> mysql_calls srv"

lemma mysql_calls_fair:
  assumes "f \<in> mysql_calls srv" "fair (typed srv) s"
  shows "fair (typed srv) (f s)"
  using assms schema.keeps_task_store schema.keeps_event_store schema.keeps_transitions schema.keeps_creation
    schema.keeps_queries schema.keeps_RenewLease
  by (cases rule: mysql_calls.cases) (auto simp: keeps_def)

lemma mysql_calls_typed:
  assumes "set fs \<subseteq> mysql_calls srv" "fair (typed srv) s"
  shows "typed srv (tables_se (foldl (\<lambda>s f. f s) s fs))"
proof -
  have "fair (typed srv) (foldl (\<lambda>s f. f s) s fs)"
    using assms by (induction fs arbitrary: s) (auto simp: mysql_calls_fair)
  then show ?thesis by (simp add: fair_def)
qed

end
