(* ===== verification/MySqlQueryFacts.thy ===== *)
theory MySqlQueryFacts
  imports MySqlQuery MySqlOps StatsFacts
begin

text \<open>
  The queries of the MySQL store answer as the memory store that the tables hold: the same pages
  of tasks, the same event logs up to ties, the same statistics.
\<close>

section \<open>Ordering\<close>

lemma set_insert_ordered [simp]: "set (insert_ordered b x xs) = insert x (set xs)"
  by (induction xs) auto

lemma mset_insert_ordered [simp]: "mset (insert_ordered b x xs) = add_mset x (mset xs)"
  by (induction xs) auto

lemma mset_order_by [simp]: "mset (order_by b xs) = mset xs"
  by (induction xs) (auto simp: order_by_def)

lemma set_order_by [simp]: "set (order_by b xs) = set xs"
  by (metis mset_order_by set_mset_mset)

lemma insert_ordered_sorted:
  assumes "sorted_wrt (\<lambda>x y. \<not> b y x) xs"
    and "\<And>x y z. x \<in> S \<Longrightarrow> y \<in> S \<Longrightarrow> z \<in> S \<Longrightarrow> \<not> b y x \<Longrightarrow> \<not> b z y \<Longrightarrow> \<not> b z x"
    and "\<And>x y. x \<in> S \<Longrightarrow> y \<in> S \<Longrightarrow> b x y \<Longrightarrow> \<not> b y x" and "insert x (set xs) \<subseteq> S"
  shows "sorted_wrt (\<lambda>x y. \<not> b y x) (insert_ordered b x xs)"
  using assms(1,4)
proof (induction xs)
  case (Cons y ys)
  show ?case
  proof (cases "b y x")
    case True
    with Cons assms(3) [of y x] show ?thesis by auto
  next
    case False
    have "\<not> b z x" if "z \<in> set ys" for z
      using that Cons.prems False assms(2) [of x y z] by auto
    with Cons.prems False show ?thesis by auto
  qed
qed simp

lemma order_by_sorted:
  assumes "\<And>x y z. x \<in> S \<Longrightarrow> y \<in> S \<Longrightarrow> z \<in> S \<Longrightarrow> \<not> b y x \<Longrightarrow> \<not> b z y \<Longrightarrow> \<not> b z x"
    and "\<And>x y. x \<in> S \<Longrightarrow> y \<in> S \<Longrightarrow> b x y \<Longrightarrow> \<not> b y x" and "set xs \<subseteq> S"
  shows "sorted_wrt (\<lambda>x y. \<not> b y x) (order_by b xs)"
  using assms(3)
proof (induction xs)
  case (Cons x xs)
  then have "insert x (set (order_by b xs)) \<subseteq> S" "sorted_wrt (\<lambda>x y. \<not> b y x) (order_by b xs)" by auto
  from insert_ordered_sorted [OF this(2) assms(1,2) this(1)] show ?case by (simp add: order_by_def)
qed (simp add: order_by_def)

text \<open>The sorted list of elements with distinct keys is determined.\<close>

lemma sort_key_unique:
  fixes f :: "'a \<Rightarrow> 'k::linorder"
  assumes "mset ys = mset zs" "distinct (map f zs)" "sorted (map f ys)"
  shows "ys = sort_key f zs"
proof (rule map_sorted_distinct_set_unique [where f = f])
  have set: "set ys = set zs" by (rule mset_eq_setD [OF assms(1)])
  then show "set ys = set (sort_key f zs)" by simp
  show "inj_on f (set ys \<union> set (sort_key f zs))" using set assms(2) by (simp add: distinct_map)
  have "mset (map f ys) = mset (map f zs)" using assms(1) by simp
  then show "distinct (map f ys)" using assms(2) mset_eq_imp_distinct_iff by blast
  have "mset (map f (sort_key f zs)) = mset (map f zs)" by simp
  then show "distinct (map f (sort_key f zs))" using assms(2) mset_eq_imp_distinct_iff by blast
qed (use assms(3) in simp_all)

text \<open>Ordering by a key, both ways.\<close>

lemma order_by_key:
  fixes key :: "'a \<Rightarrow> 'k::linorder"
  assumes "\<And>x y. x \<in> set xs \<Longrightarrow> y \<in> set xs \<Longrightarrow> b x y \<longleftrightarrow> key x < key y"
  shows "sorted (map key (order_by b xs))"
proof -
  have "sorted_wrt (\<lambda>x y. \<not> b y x) (order_by b xs)"
    by (rule order_by_sorted [where S = "set xs"]) (use assms in auto)
  then have "sorted_wrt (\<lambda>x y. key x \<le> key y) (order_by b xs)"
    by (rule sorted_wrt_mono_rel [rotated]) (use assms in \<open>auto simp: not_less\<close>)
  then show ?thesis by (simp add: sorted_wrt_map)
qed

lemma order_by_key_desc:
  fixes key :: "'a \<Rightarrow> 'k::linorder"
  assumes "\<And>x y. x \<in> set xs \<Longrightarrow> y \<in> set xs \<Longrightarrow> b x y \<longleftrightarrow> key y < key x" and "distinct (map key xs)"
  shows "order_by b xs = rev (sort_key key xs)"
proof -
  have "sorted_wrt (\<lambda>x y. \<not> b y x) (order_by b xs)"
    by (rule order_by_sorted [where S = "set xs"]) (use assms in auto)
  then have "sorted_wrt (\<lambda>x y. key y \<le> key x) (order_by b xs)"
    by (rule sorted_wrt_mono_rel [rotated]) (use assms in \<open>auto simp: not_less\<close>)
  then have s: "sorted (map key (rev (order_by b xs)))" by (simp add: sorted_wrt_map sorted_wrt_rev)
  have "rev (order_by b xs) = sort_key key xs" by (rule sort_key_unique [OF _ assms(2) s]) simp
  then show ?thesis by (metis rev_rev_ident)
qed

lemma mset_map_sort: "mset (map g (sort_key k xs)) = mset (map g xs)"
  by simp

section \<open>Pages\<close>

lemma late_read:
  assumes "alone s" "late_statement ex f s = (Inr (Inr (Inr x)), s1)" "\<And>d. snd (f d) = d"
  shows "fst (f (tables_se s)) = Inr x" "tables_se s1 = tables_se s" "alone s1"
  using late_statement_done [OF assms(1,2)] assms(3) [of "tables_se s"] by auto

definition cursor_storable :: "mysql_server \<Rightarrow> string set \<Rightarrow> ListTasksOptions \<Rightarrow> bool" where
  "cursor_storable srv A o1 \<longleftrightarrow>
     (Workflow_lo o1 = [] \<or> Workflow_lo o1 \<in> A) \<and>
     (\<forall>c. BeforeCreatedAt_lo o1 = Some c \<longrightarrow> kept_time srv c \<and> BeforeID_lo o1 \<in> A)"

lemma list_where_row:
  assumes "server_ok srv A" "storable srv A t" "cursor_storable srv A o1" "Validate_list o1 = None"
  shows "list_where srv o1 (row_of srv t) \<longleftrightarrow> list_keep o1 t"
proof -
  have st: "eq_text srv (status_text (Status t)) (status_text (Status_lo o1)) \<longleftrightarrow> Status t = Status_lo o1"
    if "Status_lo o1 \<noteq> any_status"
  proof (rule row_status [OF assms(1,2)])
    show "\<forall>s. Status_lo o1 \<noteq> OtherStatus s"
      using that assms(4) by (auto simp: Validate_list_def isKnownTaskStatus_def split: if_splits)
  qed
  have tA: "ID t \<in> A" "Workflow t \<in> A" using assms(2) by (simp_all add: storable_def)
  show ?thesis
    using assms(3) st tA
    by (auto simp: list_where_def list_keep_def isBeforeTaskCursor_def cursor_storable_def kept_time_def
        server_ok_text [OF assms(1)] split: option.splits)
qed

lemma scan_item_row: "storable srv A t \<Longrightarrow> scan_item (list_columns (row_of srv t)) = newTaskListItem t"
  by (simp add: scan_item_def list_columns_def row_of_def newTaskListItem_def storable_def timePointer_def
      status_of_text_known)

lemma filter_map_rows:
  assumes "\<And>k t. (k, t) \<in> set kts \<Longrightarrow> P (row_of srv t) \<longleftrightarrow> Q t"
  shows "filter P (map (\<lambda>(k, t). row_of srv t) kts) = map (row_of srv) (filter Q (map snd kts))"
  using assms
proof (induction kts)
  case (Cons kt kts)
  obtain k t where kt: "kt = (k, t)" by force
  have "P (row_of srv t) \<longleftrightarrow> Q t" using Cons.prems [of k t] kt by simp
  moreover have "filter P (map (\<lambda>(k, t). row_of srv t) kts) = map (row_of srv) (filter Q (map snd kts))"
    by (rule Cons.IH [OF Cons.prems [OF list.set_intros(2)]])
  ultimately show ?case using kt by simp
qed simp

theorem list_my_like_memory:
  assumes rep: "represents srv A (tables_se s) m" "server_ok srv A" and al: "alone s" and c: "cursor_storable srv A o1"
    and run: "ListTasks_my srv o1 s = (Inr items, s')"
  shows "ListTasks (\<lambda>m. m) None o1 (taskStore m) = Inr items \<and> tables_se s' = tables_se s"
proof -
  have v: "Validate_list o1 = None"
    using run by (auto simp: ListTasks_my_def raise_def split: option.splits)
  let ?kts = "tasks (taskStore m)"
  have h: "holds_tasks srv A (task_rows (tables_se s)) ?kts" and wf: "stores_wf m" using rep(1) by (auto simp: represents_def)
  from run v obtain rows where q: "late_statement ExecDB (listTasksQuery srv o1) s = (Inr (Inr (Inr rows)), s')"
    and items: "items = map scan_item rows"
    unfolding ListTasks_my_def
    by (auto elim!: bind_Inr_cases simp: ret_def raise_def sql_fail_def split: sum.splits)
  note rd = late_read [OF al q]
  have pure: "snd (listTasksQuery srv o1 d) = d" for d by (simp add: listTasksQuery_def)
  let ?ts = "filter (list_keep o1) (map snd ?kts)"
  have fr: "filter (list_where srv o1) (task_rows (tables_se s)) = map (row_of srv) ?ts"
    using h filter_map_rows [of ?kts "list_where srv o1" srv "list_keep o1"]
      list_where_row [OF rep(2) _ c v] by (auto simp: holds_tasks_def)
  let ?key = "\<lambda>r. (created_at_c r, id_c r)"
  have sto: "storable srv A t" if "t \<in> set ?ts" for t using that h by (auto simp: holds_tasks_def)
  have b: "list_order srv r q \<longleftrightarrow> ?key q < ?key r" if "r \<in> set (map (row_of srv) ?ts)" "q \<in> set (map (row_of srv) ?ts)" for r q
  proof -
    from that obtain t u where "r = row_of srv t" "q = row_of srv u" "t \<in> set ?ts" "u \<in> set ?ts" by auto
    moreover from this sto have "ID t \<in> A" "ID u \<in> A" by (auto simp: storable_def)
    ultimately show ?thesis by (auto simp: list_order_def server_ok_text [OF rep(2)])
  qed
  have dk: "distinct (map item_key (map newTaskListItem ?ts))"
    using item_keys_distinct [OF wf range_order_id, of "list_keep o1"] by simp
  have "distinct (map ?key (map (row_of srv) ?ts))" using dk by (simp add: comp_def item_key_def newTaskListItem_def)
  with b have ord: "order_by (list_order srv) (map (row_of srv) ?ts) = rev (sort_key ?key (map (row_of srv) ?ts))"
    by (intro order_by_key_desc) blast+
  have "map (scan_item \<circ> list_columns) (order_by (list_order srv) (map (row_of srv) ?ts)) = sort_items (map newTaskListItem ?ts)"
  proof -
    have "map (scan_item \<circ> list_columns) (sort_key ?key (map (row_of srv) ?ts)) = sort_key item_key (map newTaskListItem ?ts)"
    proof (rule sort_key_unique [OF _ dk])
      have "map (scan_item \<circ> list_columns) (map (row_of srv) ?ts) = map newTaskListItem ?ts"
        unfolding map_map comp_def by (rule map_cong [OF refl]) (rule scan_item_row [OF sto])
      then show "mset (map (scan_item \<circ> list_columns) (sort_key ?key (map (row_of srv) ?ts))) = mset (map newTaskListItem ?ts)"
        by (simp only: mset_map_sort)
      have "map item_key (map (scan_item \<circ> list_columns) rs) = map ?key rs" for rs
        by (simp add: item_key_def scan_item_def list_columns_def)
      then show "sorted (map item_key (map (scan_item \<circ> list_columns) (sort_key ?key (map (row_of srv) ?ts))))"
        by (simp only: sorted_sort_key)
    qed
    then show ?thesis unfolding ord sort_items_def rev_map [symmetric] by simp
  qed
  moreover have "rows = map list_columns (take (nat (Limit_lo o1)) (order_by (list_order srv) (map (row_of srv) ?ts)))"
    using rd(1) [OF pure] unfolding listTasksQuery_def fr by simp
  then have "items = take (nat (Limit_lo o1)) (map (scan_item \<circ> list_columns) (order_by (list_order srv) (map (row_of srv) ?ts)))"
    unfolding items by (simp only: map_map take_map)
  ultimately have "items = take (nat (Limit_lo o1)) (sort_items (map newTaskListItem ?ts))" by simp
  with rd(2) [OF pure] v show ?thesis by (simp add: ListTasks_def)
qed

section \<open>Statistics\<close>

text \<open>
  The groups of a list of rows with known statuses: one for every status that occurs, with all
  the rows of that status.
\<close>

definition rows_with :: "TaskStatus \<Rightarrow> task_row list \<Rightarrow> task_row list" where
  "rows_with st rows = filter (\<lambda>r. status_of_text (status_c r) = st) rows"

definition known_statuses :: "mysql_server \<Rightarrow> task_row list \<Rightarrow> bool" where
  "known_statuses srv rows \<longleftrightarrow>
     (\<forall>r \<in> set rows. \<forall>q \<in> set rows. eq_text srv (status_c q) (status_c r) \<longleftrightarrow> status_of_text (status_c q) = status_of_text (status_c r))"

lemma group_rows_fold:
  assumes "known_statuses srv rows"
    and "\<And>snap st g. g \<noteq> [] \<Longrightarrow> val (upd snap (st, g)) = (val snap)(status_of_text st \<mapsto> f g)"
  shows "val (foldl upd snap (group_rows srv rows)) st =
    (if rows_with st rows = [] then val snap st else Some (f (rows_with st rows)))"
  using assms(1)
proof (induction srv rows arbitrary: snap rule: group_rows.induct)
  case (2 srv r rs)
  let ?same = "filter (\<lambda>q. eq_text srv (status_c q) (status_c r)) rs"
  let ?rest = "filter (\<lambda>q. \<not> eq_text srv (status_c q) (status_c r)) rs"
  have eq: "eq_text srv (status_c q) (status_c r) \<longleftrightarrow> status_of_text (status_c q) = status_of_text (status_c r)" if "q \<in> set rs" for q
    using 2(2) that by (simp add: known_statuses_def)
  have same: "r # ?same = rows_with (status_of_text (status_c r)) (r # rs)"
    using eq by (auto simp: rows_with_def intro: filter_cong)
  have rest: "rows_with st ?rest = (if st = status_of_text (status_c r) then [] else rows_with st rs)"
    using eq by (auto simp: rows_with_def filter_empty_conv intro: filter_cong)
  have "known_statuses srv ?rest" using 2(2) by (auto simp: known_statuses_def)
  from 2(1) [OF this, of "upd snap (status_c r, r # ?same)"] show ?case
    using rest same by (auto simp: assms(2) rows_with_def)
qed (simp add: rows_with_def)

lemma foldl_map: "foldl f a (map g xs) = foldl (\<lambda>a x. f a (g x)) a xs"
  by (induction xs arbitrary: a) simp_all

lemma put_count_fold:
  assumes "known_statuses srv rows"
  shows "StatusCounts (foldl put_count snap (map (\<lambda>(st, g). (st, int (length g))) (group_rows srv rows))) st =
      (if rows_with st rows = [] then StatusCounts snap st else Some (int (length (rows_with st rows))))"
proof -
  show "StatusCounts (foldl put_count snap (map (\<lambda>(st, g). (st, int (length g))) (group_rows srv rows))) st =
      (if rows_with st rows = [] then StatusCounts snap st else Some (int (length (rows_with st rows))))"
    unfolding foldl_map by (rule group_rows_fold [OF assms]) (simp add: put_count_def fun_eq_iff)
qed

lemma put_count_rest:
  "AvailableCounts (foldl put_count snap xs) = AvailableCounts snap"
  "OldestAvailableAge (foldl put_count snap xs) = OldestAvailableAge snap"
  by (induction xs arbitrary: snap) (simp_all add: put_count_def)

lemma put_available_fold:
  fixes g :: "string \<times> task_row list \<Rightarrow> string \<times> int \<times> time"
  assumes "known_statuses srv rows" and g: "g = (\<lambda>(st, q). (st, int (length q), Min (available_at_c ` set q)))"
  shows "AvailableCounts (foldl (put_available now) snap (map g (group_rows srv rows))) st =
      (if rows_with st rows = [] then AvailableCounts snap st else Some (int (length (rows_with st rows))))"
    "OldestAvailableAge (foldl (put_available now) snap (map g (group_rows srv rows))) st =
      (if rows_with st rows = [] then OldestAvailableAge snap st
       else Some (Sub_time now (Min (available_at_c ` set (rows_with st rows)))))"
proof -
  show "AvailableCounts (foldl (put_available now) snap (map g (group_rows srv rows))) st =
      (if rows_with st rows = [] then AvailableCounts snap st else Some (int (length (rows_with st rows))))"
    unfolding foldl_map by (rule group_rows_fold [OF assms(1)]) (simp add: put_available_def g fun_eq_iff)
  show "OldestAvailableAge (foldl (put_available now) snap (map g (group_rows srv rows))) st =
      (if rows_with st rows = [] then OldestAvailableAge snap st
       else Some (Sub_time now (Min (available_at_c ` set (rows_with st rows)))))"
    unfolding foldl_map by (rule group_rows_fold [OF assms(1)]) (simp add: put_available_def g fun_eq_iff)
qed

lemma put_available_counts: "StatusCounts (foldl (put_available now) snap xs) = StatusCounts snap"
  by (induction xs arbitrary: snap) (simp_all add: put_available_def split: prod.splits)

text \<open>The age of the oldest task is the largest age.\<close>

lemma oldest_Min:
  assumes "finite B" "B \<noteq> {}"
  shows "Sub_time now (Min B) = Max (Sub_time now ` B)"
proof (rule Max_eqI [symmetric])
  show "y \<le> Sub_time now (Min B)" if "y \<in> Sub_time now ` B" for y
  proof -
    from that obtain b where "b \<in> B" "y = Sub_time now b" by blast
    moreover from this(1) assms(1) have "Min B \<le> b" by simp
    ultimately show ?thesis by (simp add: Sub_time_def)
  qed
qed (use assms in auto)

lemma counted_list:
  "(if map g xs = [] then None else Some (int (length (map g xs)))) = counted None (length xs)"
  by (simp add: counted_def)

lemma oldest_list:
  "(if map (row_of srv) (filter P ts) = [] then None
    else Some (Sub_time now (Min (available_at_c ` set (map (row_of srv) (filter P ts)))))) =
   oldest None ((\<lambda>t. Sub_time now (AvailableAt t)) ` {t \<in> set ts. P t})"
proof (cases "filter P ts = []")
  case True
  then have e: "{t \<in> set ts. P t} = {}" by (auto simp: filter_empty_conv)
  show ?thesis unfolding e using True by simp
next
  case False
  let ?B = "AvailableAt ` {t \<in> set ts. P t}"
  have "{t \<in> set ts. P t} \<noteq> {}" using False by (auto simp: filter_empty_conv)
  then have "Sub_time now (Min ?B) = Max (Sub_time now ` ?B)" by (intro oldest_Min) auto
  with False \<open>{t \<in> set ts. P t} \<noteq> {}\<close> show ?thesis by (auto simp: oldest_def image_image)
qed

text \<open>The filters of the two queries, on the rows of tasks.\<close>

definition filter_ok :: "string set \<Rightarrow> TaskStatsFilter \<Rightarrow> bool" where
  "filter_ok A f \<longleftrightarrow> Workflow_sf f = [] \<or> Workflow_sf f \<in> A"

lemma stats_row:
  assumes "server_ok srv A" "storable srv A t" "filter_ok A f" "Validate_stats f = None"
  shows "appendTaskStatsFilter srv f (row_of srv t) \<longleftrightarrow> stats_keep f t"
proof -
  have "eq_text srv (status_text (Status t)) (status_text (Status_sf f)) \<longleftrightarrow> Status t = Status_sf f"
    if "Status_sf f \<noteq> any_status"
  proof (rule row_status [OF assms(1,2)])
    show "\<forall>s. Status_sf f \<noteq> OtherStatus s"
      using that assms(4) by (auto simp: Validate_stats_def isKnownTaskStatus_def split: if_splits)
  qed
  moreover have "Workflow t \<in> A" using assms(2) by (simp add: storable_def)
  ultimately show ?thesis
    using assms(3) server_ok_text(1) [OF assms(1)]
    by (auto simp: appendTaskStatsFilter_def stats_keep_def filter_ok_def)
qed

lemma available_row:
  assumes "server_ok srv A" "storable srv A t" "filter_ok A f" "Validate_stats f = None" "kept_time srv now"
  shows "((eq_text srv (status_c (row_of srv t)) (status_text TaskStatusQueued) \<or>
      eq_text srv (status_c (row_of srv t)) (status_text TaskStatusRetrying)) \<and>
     available_at_c (row_of srv t) \<le> datetime6 srv now \<and> appendTaskStatsFilter srv f (row_of srv t)) \<longleftrightarrow>
    (stats_keep f t \<and> isAvailableTask (Some t) now)"
  using stats_row [OF assms(1-4)] row_status [OF assms(1,2), of TaskStatusQueued]
    row_status [OF assms(1,2), of TaskStatusRetrying] assms(5)
  by (auto simp: isAvailableTask_def kept_time_def)

lemma known_rows:
  assumes "server_ok srv A" "\<forall>t \<in> set ts. storable srv A t"
  shows "known_statuses srv (map (row_of srv) ts)"
    "rows_with st (map (row_of srv) ts) = map (row_of srv) (filter (\<lambda>t. Status t = st) ts)"
proof -
  have k: "status_of_text (status_text (Status t)) = Status t" if "t \<in> set ts" for t
    using bspec [OF assms(2) that] by (simp add: storable_def status_of_text_known)
  have "eq_text srv (status_text (Status u)) (status_text (Status t)) \<longleftrightarrow> Status u = Status t"
    if "t \<in> set ts" "u \<in> set ts" for t u
    using row_status [OF assms(1) bspec [OF assms(2) that(2)], of "Status t"] bspec [OF assms(2) that(1)] by (simp add: storable_def)
  with k show "known_statuses srv (map (row_of srv) ts)" by (auto simp: known_statuses_def)
  show "rows_with st (map (row_of srv) ts) = map (row_of srv) (filter (\<lambda>t. Status t = st) ts)"
  proof -
    have "filter (\<lambda>t. status_of_text (status_text (Status t)) = st) ts = filter (\<lambda>t. Status t = st) ts"
      by (rule filter_cong) (use k in auto)
    then show ?thesis by (simp add: rows_with_def filter_map comp_def)
  qed
qed

lemma foldl_stats_filter:
  "foldl (stats_step f now) snap ts = foldl (stats_step f now) snap (filter (stats_keep f) ts)"
  by (induction ts arbitrary: snap) (simp_all add: stats_step_def)

theorem stats_my_like_memory:
  assumes rep: "represents srv A (tables_se s) m" "server_ok srv A" and al: "alone s" and f: "filter_ok A f"
    and now: "kept_time srv now" "\<not> IsZero now"
    and run: "SnapshotFilteredTaskStats_my srv clock now f s = (Inr snap, s')"
  shows "SnapshotFilteredTaskStats (\<lambda>m. m) None clock now f (taskStore m) = Inr snap \<and> tables_se s' = tables_se s"
proof -
  have v: "Validate_stats f = None"
    using run by (auto simp: SnapshotFilteredTaskStats_my_def raise_def split: option.splits)
  let ?kts = "tasks (taskStore m)"
  let ?ts = "map snd ?kts"
  have h: "holds_tasks srv A (task_rows (tables_se s)) ?kts" using rep(1) by (simp add: represents_def)
  have sto: "storable srv A t" if "(k, t) \<in> set ?kts" for k t using that h by (auto simp: holds_tasks_def)
  from run v now(2) obtain xs ys s1 where
    q1: "late_statement ExecDB (statusCountsQuery srv f) s = (Inr (Inr (Inr xs)), s1)" and
    q2: "late_statement ExecDB (availableStatsQuery srv now f) s1 = (Inr (Inr (Inr ys)), s')" and
    snap: "snap = foldl (put_available now) (foldl put_count NewTaskStatsSnapshot xs) ys"
    unfolding SnapshotFilteredTaskStats_my_def scanFilteredStatusCounts_def scanFilteredAvailableStats_def
    by (auto simp: Let_def ret_def raise_def sql_fail_def elim!: bind_Inr_cases split: sum.splits)
  have p1: "snd (statusCountsQuery srv f d) = d" "snd (availableStatsQuery srv now f d) = d" for d
    by (simp_all add: statusCountsQuery_def availableStatsQuery_def)
  note r1 = late_read [OF al q1 p1(1)]
  note r2 = late_read [OF r1(3) q2 p1(2)]
  let ?P = "\<lambda>r. (eq_text srv (status_c r) (status_text TaskStatusQueued) \<or>
            eq_text srv (status_c r) (status_text TaskStatusRetrying)) \<and>
           available_at_c r \<le> datetime6 srv now \<and> appendTaskStatsFilter srv f r"
  have rows: "task_rows (tables_se s) = map (\<lambda>(k, t). row_of srv t) ?kts" using h by (simp add: holds_tasks_def)
  have f1: "filter (appendTaskStatsFilter srv f) (task_rows (tables_se s)) = map (row_of srv) (filter (stats_keep f) ?ts)"
    unfolding rows by (rule filter_map_rows) (use stats_row [OF rep(2) _ f v] sto in blast)
  have f2: "filter ?P (task_rows (tables_se s)) =
      map (row_of srv) (filter (\<lambda>t. stats_keep f t \<and> isAvailableTask (Some t) now) ?ts)"
    unfolding rows by (rule filter_map_rows) (use available_row [OF rep(2) _ f v now(1)] sto in blast)
  let ?a = "filter (stats_keep f) ?ts" and ?b = "filter (\<lambda>t. stats_keep f t \<and> isAvailableTask (Some t) now) ?ts"
  have sa: "\<forall>t \<in> set ?a. storable srv A t" "\<forall>t \<in> set ?b. storable srv A t" using sto by auto
  have xs: "xs = map (\<lambda>(st, g). (st, int (length g))) (group_rows srv (map (row_of srv) ?a))"
    using r1(1) unfolding statusCountsQuery_def f1 by simp
  have ys: "ys = map (\<lambda>(st, g). (st, int (length g), Min (available_at_c ` set g))) (group_rows srv (map (row_of srv) ?b))"
    using r2(1) unfolding availableStatsQuery_def r1(2) f2 by simp
  note ka = known_rows [OF rep(2) sa(1)] and kb = known_rows [OF rep(2) sa(2)]
  let ?mem = "foldl (stats_step f now) NewTaskStatsSnapshot ?ts"
  have fa: "filter (\<lambda>t. Status t = st) ?a = filter (kept f st) ?ts" for st
    unfolding filter_filter by (rule filter_cong) (auto simp: kept_def)
  have fb: "filter (\<lambda>t. Status t = st) ?b = filter (\<lambda>t. kept f st t \<and> isAvailableTask (Some t) now) ?ts" for st
    unfolding filter_filter by (rule filter_cong) (auto simp: kept_def)
  have none: "StatusCounts NewTaskStatsSnapshot st = None" "AvailableCounts NewTaskStatsSnapshot st = None"
    "OldestAvailableAge NewTaskStatsSnapshot st = None" for st by (simp_all add: NewTaskStatsSnapshot_def)
  have "StatusCounts snap st = StatusCounts ?mem st" for st
    unfolding snap put_available_counts xs put_count_fold [OF ka(1)] ka(2) stats_fold(1) fa none
    by (rule counted_list)
  moreover have "AvailableCounts snap st = AvailableCounts ?mem st" for st
    unfolding snap ys put_available_fold(1) [OF kb(1) refl] put_count_rest kb(2) stats_fold(2) fb none
    by (rule counted_list)
  moreover have "OldestAvailableAge snap st = OldestAvailableAge ?mem st" for st
    unfolding snap ys put_available_fold(2) [OF kb(1) refl] put_count_rest kb(2) stats_fold(3) fb none
    by (rule oldest_list)
  ultimately have "snap = ?mem" by (intro TaskStatsSnapshot.equality ext) simp_all
  with r1(2) r2(2) v now(2) show ?thesis by (simp add: SnapshotFilteredTaskStats_def)
qed

end
