(* ===== verification/MySqlAnswers.thy ===== *)
theory MySqlAnswers
  imports MySqlSteps MySqlTypes MySqlQueryFacts
begin

text \<open>
  Claims and queries on undisturbed tables: with no failing call and no other client, the MySQL
  store answers as the memory store does, errors included.  (\<open>MySqlSteps\<close> shows that whatever it answers
  is right; here it is shown to answer.)
\<close>

section \<open>Undisturbed calls\<close>

lemma statement_start:
  "statement ex f (start_session d) = (Inr (fst (f d)), start_session (snd (f d)))"
  by (simp add: statement_def next_arrival_def start_session_def quiet_def Let_def)

lemma late_statement_start:
  "late_statement ex f (start_session d) =
     (Inr (case fst (f d) of Inl e \<Rightarrow> Inl e | Inr x \<Rightarrow> Inr (Inr x)), start_session (snd (f d)))"
  unfolding late_statement_def statement_start
  by (simp add: next_arrival_def start_session_def quiet_def split: sum.splits)

lemma in_tx_start:
  assumes "body (start_session d) = (r, start_session d')"
  shows "in_tx srv bt ct body (start_session d) =
    (case r of
       Inl e \<Rightarrow> (Inl e, start_session d)
     | Inr (Commit x) \<Rightarrow> (Inr x, start_session d')
     | Inr (Rollback x) \<Rightarrow> (Inr x, start_session d))"
  using assms by (auto simp: in_tx_def next_arrival_def start_session_def quiet_def Let_def split: sum.splits tx_end.splits)

lemma check_event_start:
  assumes "holds_events srv A (event_rows d) es" "server_ok srv A" "eid \<in> A"
  shows "check_event srv what eid k (start_session d) =
    (if eventsByID es eid \<noteq> None then raise ErrEventAlreadyExists else k) (start_session d)"
  using event_known_rows [OF assms] by (simp add: check_event_def eventExists_def bind_def statement_start ret_def)

lemma select_claim_my_start:
  assumes h: "holds_tasks srv A (task_rows d) (tasks ts)" "server_ok srv A" "options_ok srv A o1"
    and diff: "lease_ends_differ d"
  shows "select_claim_my srv o1 (start_session d) =
    (case select_claim (\<lambda>m. m) (\<lambda>m. m) o1 ts of
       None \<Rightarrow> (Inl ErrNoTaskAvailable, start_session d)
     | Some ((k, t), kind) \<Rightarrow> (Inr (as_read srv t, kind), start_session d))"
proof -
  have read: "scanTask (row_of srv t) = as_read srv t" if "scan_tasks keep better (tasks ts) = Some (k, t)" for keep better k t
    using scan_tasks_Some [OF that] holds_tasks_storable [OF h(1)] scanTask_row_of by blast
  have l: "locked_se (start_session d) = (\<lambda>_. False)" by (simp add: start_session_def)
  show ?thesis
    unfolding select_claim_my_def l query_task_def bind_def statement_start
    by (auto simp: claim_queries [OF h diff] statement_start ret_def raise_def sql_fail_def select_claim_def read split: option.splits)
qed

text \<open>An update that finds one row, which it changes to an admissible one.\<close>

lemma update_rows_one:
  assumes "distinct (map fst kts)" "(k, t) \<in> set kts" "keep (row_of srv t)"
    and "\<And>k' u. (k', u) \<in> set kts \<Longrightarrow> keep (row_of srv u) \<Longrightarrow> k' = k"
    and "chg (row_of srv t) = Inr r" "task_violation srv r = None" "r \<noteq> row_of srv t"
  shows "\<exists>rows. update_rows srv keep chg (map (\<lambda>(k, t). row_of srv t) kts) = Inr (1, rows)"
  using assms(1,2,4)
proof (induction kts)
  case (Cons kt kts)
  obtain k1 t1 where kt: "kt = (k1, t1)" by force
  show ?case
  proof (cases "k1 = k")
    case True
    have "\<not> keep (row_of srv u)" if "(k', u) \<in> set kts" for k' u
    proof
      assume "keep (row_of srv u)"
      with that Cons.prems(3) [of k' u] True have "k1 \<in> fst ` set kts" by (force intro: image_eqI [where x = "(k', u)"])
      with Cons.prems(1) kt show False by simp
    qed
    then have "update_rows srv keep chg (map (\<lambda>(k, t). row_of srv t) kts) = Inr (0, map (\<lambda>(k, t). row_of srv t) kts)"
      by (intro update_rows_miss) auto
    moreover have "t1 = t" using True Cons.prems(1,2) kt by (force simp: image_iff)
    ultimately show ?thesis using kt assms(3,5-7) by simp
  next
    case False
    with kt Cons.prems(3) [of k1 t1] have "\<not> keep (row_of srv t1)" by auto
    moreover have "\<exists>rows. update_rows srv keep chg (map (\<lambda>(k, t). row_of srv t) kts) = Inr (1, rows)"
      by (rule Cons.IH) (use Cons.prems kt False in auto)
    ultimately show ?thesis using kt by auto
  qed
qed simp

section \<open>Claims\<close>

text \<open>The columns have room for what a claim writes.\<close>

definition claim_fits :: "mysql_server \<Rightarrow> ClaimOptions \<Rightarrow> string \<Rightarrow> MemoryStores \<Rightarrow> bool" where
  "claim_fits srv o1 eid m \<longleftrightarrow>
     (\<forall>n x. length x \<le> n \<longrightarrow> fits_varchar srv n x) \<and> fits_varchar srv 128 (WorkerID_co o1) \<and> fits_varchar srv 64 eid \<and>
     (\<forall>k t. stored_task m k = Some t \<longrightarrow> Version t \<noteq> - 1) \<and>
     (\<forall>k t kind ev. select_claim (\<lambda>m. m) (\<lambda>m. m) o1 (taskStore m) = Some ((k, t), kind) \<longrightarrow>
        NewTaskClaimedEvent eid (Some (claimed o1 kind t)) kind (Now_co o1) = Inr ev \<longrightarrow> json_column srv (Payload_ev ev) \<noteq> None)"

lemma claim_row:
  assumes "storable srv A t" "options_ok srv A o1" "Validate_claim o1 = None" "t2 = (as_read srv (claimed o1 kind t))\<lparr>Version := Version t\<rparr>"
  shows "(row_of srv t)\<lparr>
       status_c := status_text (Status t2), retry_count_c := RetryCount t2,
       updated_at_c := datetime6 srv (UpdatedAt t2), started_at_c := nullableTime srv (StartedAt t2),
       lease_owner_c := Some (LeaseOwner t2), lease_expires_at_c := nullableTime srv (LeaseExpiresAt t2),
       last_heartbeat_at_c := None, version_c := Version t + 1\<rparr> = row_of srv (claimed o1 kind t)"
proof -
  have "WorkerID_co o1 \<noteq> []" using assms(3) by (auto simp: Validate_claim_def split: if_splits)
  with assms(1,2) show ?thesis
    by (auto simp: assms(4) row_of_def claimed_def grant_lease_def enter_status_def nullableString_def
        options_ok_def kept_time_def storable_def kept_times_def nullableTime_def split: option.splits)
qed

lemma claimed_admissible:
  assumes "task_violation srv (row_of srv t) = None" "claimable o1 kind t"
    and "\<forall>n x. length x \<le> n \<longrightarrow> fits_varchar srv n x" "fits_varchar srv 128 (WorkerID_co o1)"
  shows "task_violation srv (row_of srv (claimed o1 kind t)) = None"
proof -
  have b: "unsigned 32 (RetryCount t)" "unsigned 32 (MaxRetries t)" "RetryCount t \<le> MaxRetries t"
    using assms(1) by (auto simp: task_violation_def row_of_def split: if_splits)
  have i: "i64 (RetryCount t + 1) = RetryCount t + 1"
    using b by (intro i64_id) (simp add: unsigned_def in_i64_def)
  have "kind = ClaimRecovery \<Longrightarrow> RetryCount t < MaxRetries t \<and> Status t = TaskStatusRunning"
    using assms(2) by (auto simp: claimable_def expired_claimable_def split: option.splits)
  with assms(1,3,4) b i show ?thesis
    by (cases "kind = ClaimRecovery")
      (auto simp: task_violation_def row_of_def claimed_def grant_lease_def enter_status_def nullableString_def
        unsigned_def split: if_splits option.splits)
qed

lemma claim_update_start:
  assumes h: "holds_tasks srv A (task_rows d) kts" "server_ok srv A" "options_ok srv A o1" "Validate_claim o1 = None"
    and t: "(k, t) \<in> set kts" "claimable o1 kind t" "typed srv d" "Version t \<noteq> - 1"
    and f: "\<forall>n x. length x \<le> n \<longrightarrow> fits_varchar srv n x" "fits_varchar srv 128 (WorkerID_co o1)"
  shows "\<exists>d'. claim_update srv ((as_read srv (claimed o1 kind t))\<lparr>Version := Version t\<rparr>) d = (Inr 1, d')"
proof -
  let ?t2 = "(as_read srv (claimed o1 kind t))\<lparr>Version := Version t\<rparr>"
  note st = holds_tasks_storable [OF h(1) t(1)]
  have id2: "ID ?t2 = ID t" by (simp add: claimed_def grant_lease_def enter_status_def)
  have row: "row_of srv t \<in> set (task_rows d)" using h(1) t(1) by (force simp: holds_tasks_def)
  have "task_violation srv (row_of srv t) = None" using row t(3) by (simp add: typed_def)
  note adm = claimed_admissible [OF this t(2) f]
  note cr = claim_row [OF conjunct2 [OF st] h(3,4) refl, of kind]
  have "Version (claimed o1 kind t) \<noteq> Version t" by (simp add: claimed_def grant_lease_def enter_status_def)
  then have ne: "row_of srv (claimed o1 kind t) \<noteq> row_of srv t" by (auto simp: row_of_def)
  have only: "k' = k" if "(k', u) \<in> set kts" "by_version srv ?t2 (row_of srv u)" for k' u
    using that holds_tasks_storable [OF h(1) that(1)] st id2 server_ok_text(1) [OF h(2)]
    by (auto simp: by_version_def storable_def)
  have keep: "by_version srv ?t2 (row_of srv t)"
    using id2 st server_ok_text(1) [OF h(2)] by (auto simp: by_version_def storable_def)
  have d: "distinct (map fst kts)" "task_rows d = map (\<lambda>(k, t). row_of srv t) kts" using h(1) by (auto simp: holds_tasks_def)
  have chg: "bump_version ((row_of srv t)\<lparr>
       status_c := status_text (Status ?t2), retry_count_c := RetryCount ?t2,
       updated_at_c := datetime6 srv (UpdatedAt ?t2), started_at_c := nullableTime srv (StartedAt ?t2),
       lease_owner_c := Some (LeaseOwner ?t2), lease_expires_at_c := nullableTime srv (LeaseExpiresAt ?t2),
       last_heartbeat_at_c := None\<rparr>) = Inr (row_of srv (claimed o1 kind t))"
    using t(4) cr by (simp add: bump_version_def)
  have "\<exists>rows. update_rows srv (by_version srv ?t2) (\<lambda>r. bump_version (r\<lparr>
       status_c := status_text (Status ?t2), retry_count_c := RetryCount ?t2,
       updated_at_c := datetime6 srv (UpdatedAt ?t2), started_at_c := nullableTime srv (StartedAt ?t2),
       lease_owner_c := Some (LeaseOwner ?t2), lease_expires_at_c := nullableTime srv (LeaseExpiresAt ?t2),
       last_heartbeat_at_c := None\<rparr>)) (map (\<lambda>(k, t). row_of srv t) kts) = Inr (1, rows)"
    by (rule update_rows_one, rule d(1), rule t(1), rule keep, rule only, assumption, assumption, rule chg, rule adm, rule ne)
  then show ?thesis unfolding claim_update_def update_tasks_def d(2) by auto
qed

lemma claimNextInTx_start:
  assumes h: "holds_tasks srv A (task_rows d) (tasks ts)" "server_ok srv A" "options_ok srv A o1" "Validate_claim o1 = None"
    and d: "lease_ends_differ d" "typed srv d"
    and f: "\<forall>n x. length x \<le> n \<longrightarrow> fits_varchar srv n x" "fits_varchar srv 128 (WorkerID_co o1)"
    and v: "\<forall>(k, t) \<in> set (tasks ts). Version t \<noteq> - 1"
  shows "\<exists>d'. claimNextInTx srv o1 (start_session d) =
    (case select_claim (\<lambda>m. m) (\<lambda>m. m) o1 ts of
       None \<Rightarrow> Inl ErrNoTaskAvailable
     | Some ((k, t), kind) \<Rightarrow> Inr (as_read srv (claimed o1 kind t), kind), start_session d')"
proof (cases "select_claim (\<lambda>m. m) (\<lambda>m. m) o1 ts")
  case None
  with select_claim_my_start [OF h(1-3) d(1)] show ?thesis by (auto simp: claimNextInTx_def bind_def)
next
  case (Some ktk)
  then obtain k t kind where sel: "select_claim (\<lambda>m. m) (\<lambda>m. m) o1 ts = Some ((k, t), kind)"
    by (metis prod.collapse)
  from select_claim_Some [OF sel] have t: "(k, t) \<in> set (tasks ts)" "claimable o1 kind t" by simp_all
  note my = select_claim_my_start [OF h(1-3) d(1)]
  let ?c = "as_read srv (claimed o1 kind t)"
  from claim_update_start [OF h t d(2) _ f] v t(1) obtain d' where
    u: "claim_update srv (?c\<lparr>Version := Version t\<rparr>) d = (Inr 1, d')" by blast
  define t1 where "t1 = (if kind = ClaimRecovery
    then (as_read srv t)\<lparr>RetryCount := i64 (RetryCount (as_read srv t) + 1), UpdatedAt := Now_co o1\<rparr>
    else enter_status TaskStatusRunning (Now_co o1) ((as_read srv t)\<lparr>Status := TaskStatusRunning, UpdatedAt := Now_co o1\<rparr>))"
  have mv: "kind \<noteq> ClaimRecovery \<Longrightarrow> MoveTo (Some (as_read srv t)) TaskStatusRunning (Now_co o1) = Inr t1"
    using t(2) by (auto simp: MoveTo_def t1_def claimable_def)
  have t2: "t1\<lparr>LeaseOwner := WorkerID_co o1, LeaseExpiresAt := Some (Add_time (Now_co o1) (LeaseDuration_co o1)),
      LastHeartbeatAt := None\<rparr> = ?c\<lparr>Version := Version t\<rparr>"
    by (simp add: t1_def claimed_def grant_lease_def enter_status_def as_read_def)
  have v1: "?c\<lparr>Version := Version t + 1\<rparr> = ?c"
    by (simp add: claimed_def grant_lease_def enter_status_def as_read_def)
  have first: "(if kind = ClaimRecovery
       then ret ((as_read srv t)\<lparr>RetryCount := i64 (RetryCount (as_read srv t) + 1), UpdatedAt := Now_co o1\<rparr>)
       else (case MoveTo (Some (as_read srv t)) TaskStatusRunning (Now_co o1) of
           Inl e \<Rightarrow> raise (Wrap (''move claimed task '' @ quoted_id srv (ID (as_read srv t)) @ '' to running: '') e [])
         | Inr t1 \<Rightarrow> ret t1)) = ret t1"
    using mv by (auto simp: t1_def)
  show ?thesis
    unfolding claimNextInTx_def bind_def my sel option.case prod.case first ret_def sum.case Let_def t2
      late_statement_start u fst_conv snd_conv
    by (auto simp: one_changed_def ret_def v1)
qed

text \<open>The event of a claim finds room, and its task is there.\<close>

lemma insertEvent_start:
  assumes ev: "NewTaskClaimedEvent eid (Some c) kind now = Inr ev" "ID c = tid" "0 \<le> Progress c \<and> Progress c \<le> 100"
    and h: "holds_events srv A (event_rows d) es" "server_ok srv A" "eid \<in> A" "eventsByID es eid = None"
    and t: "list_ex (\<lambda>q. eq_text srv (id_c q) tid) (task_rows d)" "fits_varchar srv 64 tid"
    and f: "\<forall>n x. length x \<le> n \<longrightarrow> fits_varchar srv n x" "fits_varchar srv 64 eid" "json_column srv (Payload_ev ev) \<noteq> None"
  shows "\<exists>d'. insertEvent srv ExecTx (Some ev) (start_session d) = (Inr (), start_session d')"
proof -
  have e: "ID_ev ev = eid" "TaskID_ev ev = tid" "length (Message_ev ev) \<le> 65535" "length (event_text (Type_ev ev)) \<le> 64"
    "0 \<le> Progress_ev ev" "Progress_ev ev \<le> 100"
    using ev by (auto simp: NewTaskClaimedEvent_def claim_event_kind_def NewTaskEvent_def
        split: ClaimKind.splits sum.splits if_splits)
  have "\<not> list_ex (\<lambda>q. eq_text srv (id_e q) eid) (event_rows d)" using event_known_rows [OF h(1-3)] h(4) by simp
  then have "\<exists>d'. insertEventQuery srv ev d = (Inr (), d')"
    using e t f by (auto simp: insertEventQuery_def json_value_def nullableJSON_def insert_event_row_def event_violation_def
        unsigned_def split: option.splits)
  then show ?thesis by (auto simp: insertEvent_def bind_def statement_start ret_def)
qed

abbreviation claim_rest :: "mysql_server \<Rightarrow> ClaimOptions \<Rightarrow> string \<Rightarrow> (session, Task tx_end) op" where
  "claim_rest srv o1 eid \<equiv> bind (claimNextInTx srv o1) (\<lambda>(t, kind).
     bind (of_result (NewTaskClaimedEvent eid (Some t) kind (Now_co o1))) (\<lambda>ev.
     bind (insertEvent srv ExecTx (Some ev)) (\<lambda>_.
     ret (Commit t))))"

lemma claim_my_start:
  assumes "Validate_claim o1 = None" "eid \<noteq> []"
    and "check_event srv ''claim'' eid (claim_rest srv o1 eid) (start_session d) = (map_sum id Commit r, start_session d')"
  shows "fst (ClaimNextWithEvent_my srv o1 eid (start_session d)) = r"
  using in_tx_start [where body = "check_event srv ''claim'' eid (claim_rest srv o1 eid)", OF assms(3)] assms(1,2)
  by (cases r) (simp_all add: ClaimNextWithEvent_my_def)

theorem claim_my_answers:
  assumes rep: "represents srv A d m" "server_ok srv A" "typed srv d"
    and o1: "options_ok srv A o1" "eid \<in> A" "lease_ends_differ d" "claim_fits srv o1 eid m"
  shows "fst (ClaimNextWithEvent_my srv o1 eid (start_session d)) =
    map_sum id (as_read srv) (fst (ClaimNextWithEvent (\<lambda>m. m) (\<lambda>m. m) None o1 eid m))"
proof (cases "Validate_claim o1 = None \<and> eid \<noteq> [] \<and> eventsByID (eventStore m) eid = None")
  case False
  note he = represents_holds(3) [OF rep(1)]
  show ?thesis
  proof (cases "Validate_claim o1 = None \<and> eid \<noteq> []")
    case True
    with False have known: "eventsByID (eventStore m) eid \<noteq> None" by simp
    then show ?thesis
      using claim_my_start [of o1 eid srv d "Inl ErrEventAlreadyExists" d] True
      by (simp add: check_event_start [OF he rep(2) o1(2)] raise_def ClaimNextWithEvent_def)
  qed (auto simp: ClaimNextWithEvent_my_def ClaimNextWithEvent_def raise_def split: option.splits)
next
  case True
  note h = represents_holds [OF rep(1)]
  have dist: "distinct (map fst (tasks (taskStore m)))" using h(2) by (simp add: holds_tasks_def)
  have f: "\<forall>n x. length x \<le> n \<longrightarrow> fits_varchar srv n x" "fits_varchar srv 128 (WorkerID_co o1)" "fits_varchar srv 64 eid"
    and v: "\<forall>(k, t) \<in> set (tasks (taskStore m)). Version t \<noteq> - 1"
    using o1(4) dist by (auto simp: claim_fits_def)
  obtain d' where cl: "claimNextInTx srv o1 (start_session d) =
    (case select_claim (\<lambda>m. m) (\<lambda>m. m) o1 (taskStore m) of
       None \<Rightarrow> Inl ErrNoTaskAvailable
     | Some ((k, t), kind) \<Rightarrow> Inr (as_read srv (claimed o1 kind t), kind), start_session d')"
    using claimNextInTx_start [OF h(2) rep(2) o1(1) conjunct1 [OF True] o1(3) rep(3) f(1,2) v] by blast
  let ?rest = "claim_rest srv o1 eid"
  have chk: "check_event srv ''claim'' eid ?rest (start_session d) = ?rest (start_session d)"
    using True by (simp add: check_event_start [OF h(3) rep(2) o1(2)])
  show ?thesis
  proof (cases "select_claim (\<lambda>m. m) (\<lambda>m. m) o1 (taskStore m)")
    case None
    with cl have "?rest (start_session d) = (Inl ErrNoTaskAvailable, start_session d')" by (simp add: bind_def)
    with claim_my_start [of o1 eid srv d "Inl ErrNoTaskAvailable" d'] chk True None show ?thesis
      by (simp add: ClaimNextWithEvent_def claimNextLocked_def)
  next
    case (Some ktk)
    then obtain k t kind where sel: "select_claim (\<lambda>m. m) (\<lambda>m. m) o1 (taskStore m) = Some ((k, t), kind)"
      by (metis prod.collapse)
    let ?c = "claimed o1 kind t"
    from select_claim_Some [OF sel] have t: "(k, t) \<in> set (tasks (taskStore m))" "claimable o1 kind t" by simp_all
    have "CanTransition (Status t) TaskStatusRunning" if "kind \<noteq> ClaimRecovery"
      using that t(2) by (auto simp: claimable_def)
    then have mem: "claimNextLocked (\<lambda>m. m) (\<lambda>m. m) o1 (taskStore m) = (Inr (?c, t, kind), put_task k ?c (taskStore m))"
      using sel by (auto simp: claimNextLocked_def claimed_def MoveTo_def)
    from cl sel have cl': "claimNextInTx srv o1 (start_session d) = (Inr (as_read srv ?c, kind), start_session d')" by simp
    show ?thesis
    proof (cases "NewTaskClaimedEvent eid (Some ?c) kind (Now_co o1)")
      case (Inl e)
      with cl' have "?rest (start_session d) = (Inl e, start_session d')"
        by (simp add: bind_def of_result_def claimed_event_read raise_def)
      with claim_my_start [of o1 eid srv d "Inl e" d'] chk True mem Inl show ?thesis
        by (simp add: ClaimNextWithEvent_def)
    next
      case (Inr ev)
      have ks: "locked_se (start_session d) = (\<lambda>_. False)" by (simp add: start_session_def)
      have d': "event_rows d' = event_rows d" "holds_tasks srv A (task_rows d') (AList.update k ?c (tasks (taskStore m)))"
        using claimNextInTx_done [OF alone_start ks cl', of A "taskStore m"] rep(2) o1(1) True h(2) o1(3) sel by auto
      note st = holds_tasks_storable [OF h(2) t(1)]
      have id: "ID ?c = k" using st by (simp add: claimed_def grant_lease_def enter_status_def)
      have kA: "k \<in> A" using st by (simp add: storable_def)
      have ex: "list_ex (\<lambda>q. eq_text srv (id_c q) k) (task_rows d')"
        using list_ex_row [OF d'(2) rep(2) kA] by (simp add: update_conv')
      have "row_of srv t \<in> set (task_rows d)" using h(2) t(1) by (force simp: holds_tasks_def)
      then have viol: "task_violation srv (row_of srv t) = None" using rep(3) by (simp add: typed_def)
      have fk: "fits_varchar srv 64 k" "0 \<le> Progress ?c \<and> Progress ?c \<le> 100"
        using viol st by (auto simp: task_violation_def row_of_def unsigned_def claimed_def grant_lease_def enter_status_def
            split: if_splits)
      have he: "holds_events srv A (event_rows d') (eventStore m)" using h(3) d'(1) by simp
      have "json_column srv (Payload_ev ev) \<noteq> None" using o1(4) sel Inr unfolding claim_fits_def by blast
      from insertEvent_start [OF Inr id fk(2) he rep(2) o1(2) conjunct2 [OF conjunct2 [OF True]] ex fk(1) f(1,3) this]
      obtain d'' where "insertEvent srv ExecTx (Some ev) (start_session d') = (Inr (), start_session d'')" by blast
      with cl' Inr have "?rest (start_session d) = (Inr (Commit (as_read srv ?c)), start_session d'')"
        by (simp add: bind_def of_result_def claimed_event_read ret_def)
      with claim_my_start [of o1 eid srv d "Inr (as_read srv ?c)" d''] chk True mem Inr show ?thesis
        by (simp add: ClaimNextWithEvent_def)
    qed
  qed
qed

section \<open>Queries\<close>

theorem list_my_answers:
  assumes "represents srv A d m" "server_ok srv A" "cursor_storable srv A o1"
  shows "fst (ListTasks_my srv o1 (start_session d)) = ListTasks (\<lambda>m. m) None o1 (taskStore m)"
proof (cases "Validate_list o1")
  case None
  obtain items s' where "ListTasks_my srv o1 (start_session d) = (Inr items, s')"
    using None by (auto simp: ListTasks_my_def bind_def late_statement_start listTasksQuery_def ret_def)
  with list_my_like_memory [OF _ assms(2) alone_start assms(3) this, of m] assms(1) show ?thesis by simp
qed (simp add: ListTasks_my_def ListTasks_def raise_def)

theorem stats_my_answers:
  assumes "represents srv A d m" "server_ok srv A" "filter_ok A f" "kept_time srv now" "\<not> IsZero now"
  shows "fst (SnapshotFilteredTaskStats_my srv clock now f (start_session d)) =
    SnapshotFilteredTaskStats (\<lambda>m. m) None clock now f (taskStore m)"
proof (cases "Validate_stats f")
  case None
  obtain snap s' where "SnapshotFilteredTaskStats_my srv clock now f (start_session d) = (Inr snap, s')"
    using None by (auto simp: SnapshotFilteredTaskStats_my_def scanFilteredStatusCounts_def scanFilteredAvailableStats_def
        bind_def late_statement_start statusCountsQuery_def availableStatsQuery_def ret_def)
  with stats_my_like_memory [OF _ assms(2) alone_start assms(3-5) this, of m] assms(1) show ?thesis by simp
qed (simp add: SnapshotFilteredTaskStats_my_def SnapshotFilteredTaskStats_def raise_def)

end
