(* ===== verification/MySqlLimits.thy ===== *)
theory MySqlLimits
  imports MySqlAnswers
begin

text \<open>
  Two requests that the memory stores accept and the MySQL stores refuse: a renewal repeated in the
  same microsecond, and a creation repeated with an input whose numbers the server writes in
  another way.
\<close>

section \<open>Renewals that change nothing\<close>

lemma update_rows_again:
  assumes "update_rows srv keep chg rows = Inr (n, rows')"
    and "\<And>r r'. keep r \<Longrightarrow> chg r = Inr r' \<Longrightarrow> chg r' = Inr r'"
  shows "update_rows srv keep chg rows' = Inr (0, rows')"
  using assms(1)
proof (induction rows arbitrary: n rows')
  case (Cons r rows)
  obtain n1 rows1 where u: "update_rows srv keep chg rows = Inr (n1, rows1)"
    using Cons.prems by (auto simp: map_sum_def split: if_splits sum.splits option.splits)
  show ?case
  proof (cases "keep r")
    case True
    with Cons.prems u obtain r' where r': "chg r = Inr r'" "task_violation srv r' = None" "rows' = r' # rows1"
      by (auto split: sum.splits option.splits)
    with assms(2) [OF True r'(1)] Cons.IH [OF u] show ?thesis by simp
  next
    case False
    with Cons.prems u Cons.IH [OF u] show ?thesis by auto
  qed
qed simp

lemma update_tasks_again:
  assumes "update_tasks srv keep chg d = (Inr n, d1)" "\<And>r r'. keep r \<Longrightarrow> chg r = Inr r' \<Longrightarrow> chg r' = Inr r'"
  shows "update_tasks srv keep chg d1 = (Inr 0, d1)"
proof -
  from assms(1) obtain rows where r: "update_rows srv keep chg (task_rows d) = Inr (n, rows)" "d1 = d\<lparr>task_rows := rows\<rparr>"
    by (auto simp: update_tasks_def split: sum.splits)
  from update_rows_again [OF r(1) assms(2)] r(2) show ?thesis by (simp add: update_tasks_def)
qed

lemma RenewLease_my_start:
  assumes "Validate_renew o2 = None"
  shows "RenewLease_my srv o2 (start_session d) =
    (case renewLeaseQuery srv o2 d of
       (Inl e, d') \<Rightarrow> (Inl (Wrap (''renew lease for task '' @ quoted_id srv (TaskID_rl o2) @ '': '') (sql_cause srv e) []), start_session d')
     | (Inr n, d') \<Rightarrow> (if n \<noteq> 1 then Inl ErrLeaseLost else Inr (), start_session d'))"
  using assms
  by (auto simp: RenewLease_my_def bind_def late_statement_start one_changed_def sql_fail_def raise_def ret_def
      split: prod.splits sum.splits)

lemma renew_my_again:
  assumes "RenewLease_my srv o2 (start_session d) = (Inr u, start_session d1)"
  shows "RenewLease_my srv o2 (start_session d1) = (Inl ErrLeaseLost, start_session d1)"
proof -
  have v: "Validate_renew o2 = None"
    using assms by (auto simp: RenewLease_my_def raise_def split: option.splits)
  have d1: "start_session d1 = start_session e \<longleftrightarrow> e = d1" for e by (auto simp: start_session_def)
  from assms have "renewLeaseQuery srv o2 d = (Inr 1, d1)"
    by (auto simp: RenewLease_my_start [OF v] d1 split: prod.splits sum.splits if_splits) (auto simp: start_session_def)
  then have "renewLeaseQuery srv o2 d1 = (Inr 0, d1)"
    unfolding renewLeaseQuery_def by (rule update_tasks_again) auto
  then show ?thesis by (simp add: RenewLease_my_start [OF v])
qed

text \<open>The memory store renews the lease again.\<close>

lemma renew_again:
  assumes "RenewLease None o2 ts = (None, ts1)" "Now_rl o2 < Add_time (Now_rl o2) (LeaseDuration_rl o2)"
  shows "fst (RenewLease None o2 ts1) = None"
  using assms by (auto simp: RenewLease_def lease_held_def split: option.splits if_splits)

section \<open>Repeated creations\<close>

lemma insert_values_id:
  assumes "insert_values srv t = Inr r"
  shows "insert_values srv (t\<lparr>ID := tid\<rparr>) = Inr (r\<lparr>id_c := tid\<rparr>)" "id_c r = ID t" "workflow_c r = Workflow t"
    "idempotency_key_c r = nullableString (IdempotencyKey t)" "json_column srv (Input t) = Some (input_json_c r)"
    "max_retries_c r = MaxRetries t"
  using assms by (auto simp: insert_values_def json_value_def null_string_def split: sum.splits option.splits)

lemma insertTaskQuery_done:
  assumes "insertTaskQuery srv t d = (Inr u, d1)"
  obtains r where "insert_values srv t = Inr r" "task_violation srv r = None" "d1 = d\<lparr>task_rows := task_rows d @ [r]\<rparr>"
    "\<not> list_ex (\<lambda>q. eq_text srv (id_c q) (ID t)) (task_rows d)" "\<not> list_ex (same_key srv r) (task_rows d)"
  using assms insert_values_id(2) [of srv t]
  by (auto simp: insertTaskQuery_def insert_task_row_def split: sum.splits option.splits if_splits)

lemma find_append: "find P (xs @ ys) = (case find P xs of None \<Rightarrow> find P ys | Some x \<Rightarrow> Some x)"
  by (induction xs) auto

text \<open>A second creation under the same key, for a task with another id, meets the first task's row.\<close>

lemma replay_my_conflict:
  assumes ok: "server_ok srv A" "Workflow t \<in> A"
    and first: "insertTaskQuery srv t d = (Inr (), d1)" "task_rows d2 = task_rows d1" "IdempotencyKey t \<noteq> []"
    and again: "fits_varchar srv 64 tid" "\<not> list_ex (\<lambda>q. eq_text srv (id_c q) tid) (task_rows d1)" "TaskID_ev ev = tid"
    and diff: "json_column srv (Input t) = Some j" "decodeJSONValue (cloneJSON (Some j)) \<noteq> decodeJSONValue (Input t)"
      "decodeJSONValue (cloneJSON (Some j)) \<noteq> None"
  shows "fst (CreateTaskWithEvent_my srv (Some (t\<lparr>ID := tid\<rparr>)) (Some ev) (start_session d2)) = Inl ErrIdempotencyConflict"
proof -
  from first(1) obtain r where r: "insert_values srv t = Inr r" "task_violation srv r = None"
    "task_rows d1 = task_rows d @ [r]" "\<not> list_ex (same_key srv r) (task_rows d)"
    by (rule insertTaskQuery_done) auto
  note iv = insert_values_id [OF r(1)]
  have wf: "eq_text srv (Workflow t) (Workflow t)" using server_ok_text(1) [OF ok(1,2,2)] by simp
  have key: "idempotency_key_c r = Some (IdempotencyKey t)" using iv(4) first(3) by (simp add: nullableString_def)
  have viol: "task_violation srv (r\<lparr>id_c := tid\<rparr>) = None"
    using r(2) again(1) by (simp add: task_violation_def split: if_splits)
  have "list_ex (same_key srv (r\<lparr>id_c := tid\<rparr>)) (task_rows d2)"
    using r(3) first(2) key wf iv(3) by (simp add: same_key_def)
  then have ins: "insertTaskQuery srv (t\<lparr>ID := tid\<rparr>) d2 =
      (Inl (server_error srv (1062, ''tasks.uk_tasks_workflow_idempotency'')), d2)"
    using iv(1) viol again(2) first(2) by (simp add: insertTaskQuery_def insert_task_row_def)
  have "find (\<lambda>q. eq_text srv (workflow_c q) (Workflow t) \<and> idempotency_key_c q = Some (IdempotencyKey t)) (task_rows d2) = Some r"
  proof -
    have "find (\<lambda>q. eq_text srv (workflow_c q) (Workflow t) \<and> idempotency_key_c q = Some (IdempotencyKey t)) (task_rows d) = None"
      using r(4) key iv(3) by (auto simp: find_None_iff list_ex_iff same_key_def)
    then show ?thesis using r(3) first(2) wf iv(3) key by (simp add: find_append)
  qed
  then have get: "query_task ExecDB (getTaskByWorkflowAndIdempotencyKeyQuery srv (Workflow t) (IdempotencyKey t)) (start_session d2) =
      (Inr (Inr (scanTask r)), start_session d2)"
    by (simp add: query_task_def bind_def statement_start getTaskByWorkflowAndIdempotencyKeyQuery_def one_row_def ret_def)
  have differ: "\<not> SameTaskCreationRequest (Some (scanTask r)) (Some (t\<lparr>ID := tid\<rparr>))"
    using diff iv(5) by (auto simp: SameTaskCreationRequest_def scanTask_def split: option.splits)
  have "Contains (message_of srv 1062 ''tasks.uk_tasks_workflow_idempotency'') ''uk_tasks_workflow_idempotency''"
    using ok(1) by (simp add: server_ok_def)
  then have "insertTask srv ExecTx (Some (t\<lparr>ID := tid\<rparr>)) (start_session d2) = (Inl ErrIdempotencyKeyAlreadyExists, start_session d2)"
    by (simp add: insertTask_def bind_def statement_start ins server_error_def raise_def)
  then have "attempt (insertTask srv ExecTx (Some (t\<lparr>ID := tid\<rparr>))) (\<lambda>r.
             case r of
               Inl e \<Rightarrow> if errors_Is e ErrIdempotencyKeyAlreadyExists then ret (Rollback False) else raise e
             | Inr _ \<Rightarrow> bind (insertEvent srv ExecTx (Some ev)) (\<lambda>_. ret (Commit True))) (start_session d2) =
      (Inr (Rollback False), start_session d2)"
    by (simp add: attempt_def ret_def)
  note tx = in_tx_start [where body = "attempt (insertTask srv ExecTx (Some (t\<lparr>ID := tid\<rparr>))) (\<lambda>r.
             case r of
               Inl e \<Rightarrow> if errors_Is e ErrIdempotencyKeyAlreadyExists then ret (Rollback False) else raise e
             | Inr _ \<Rightarrow> bind (insertEvent srv ExecTx (Some ev)) (\<lambda>_. ret (Commit True)))", OF this]
  show ?thesis
    using again(3) get differ
    by (simp add: CreateTaskWithEvent_my_def tx bind_def resolveIdempotentReplay_def getByWorkflowAndIdempotencyKey_def
        ret_def raise_def)
qed

text \<open>A creation that stored its task executed both inserts.\<close>

lemma insertEvent_tasks:
  "insertEvent srv ex (Some ev) (start_session d) = (r, s1) \<Longrightarrow> \<exists>d'. s1 = start_session d' \<and> task_rows d' = task_rows d"
  by (auto simp: insertEvent_def bind_def statement_start ret_def raise_def sql_fail_def insertEventQuery_def
      insert_event_row_def Let_def split: sum.splits sql_error.splits if_splits option.splits)

lemma create_my_created:
  assumes "CreateTaskWithEvent_my srv (Some t) (Some ev) (start_session d) = (Inr x, start_session d2)" "Created_cr x"
  shows "\<exists>d1. insertTaskQuery srv t d = (Inr (), d1) \<and> task_rows d2 = task_rows d1"
proof -
  let ?body = "attempt (insertTask srv ExecTx (Some t)) (\<lambda>r.
             case r of
               Inl e \<Rightarrow> if errors_Is e ErrIdempotencyKeyAlreadyExists then ret (Rollback False) else raise e
             | Inr _ \<Rightarrow> bind (insertEvent srv ExecTx (Some ev)) (\<lambda>_. ret (Commit True)))"
  obtain a d1 where q: "insertTaskQuery srv t d = (a, d1)" by force
  obtain r s3 where b: "?body (start_session d) = (r, s3)" by force
  have b': "\<exists>d3. s3 = start_session d3 \<and> (r = Inr (Commit True) \<longrightarrow> a = Inr () \<and> task_rows d3 = task_rows d1) \<and>
      r \<noteq> Inr (Commit False) \<and> r \<noteq> Inr (Rollback True)"
    using b q insertEvent_tasks [of srv ExecTx ev d1]
    by (auto simp: attempt_def insertTask_def bind_def statement_start ret_def raise_def sql_fail_def
        split: sum.splits sql_error.splits if_splits prod.splits)
  then obtain d3 where d3: "s3 = start_session d3" "r = Inr (Commit True) \<longrightarrow> a = Inr () \<and> task_rows d3 = task_rows d1"
    "r \<noteq> Inr (Commit False) \<and> r \<noteq> Inr (Rollback True)" by blast
  note tx = in_tx_start [where body = ?body, OF b [unfolded d3(1)], of srv "''begin task creation transaction: ''"
      "\<lambda>_. ''commit task '' @ quoted_id srv (ID t) @ '' creation: ''"]
  have inj: "start_session e1 = start_session e2 \<longleftrightarrow> e1 = e2" for e1 e2 by (simp add: start_session_def)
  have "TaskID_ev ev = ID t" using assms(1) by (auto simp: CreateTaskWithEvent_my_def raise_def split: if_splits)
  with assms tx d3 q show ?thesis
    by (auto simp: CreateTaskWithEvent_my_def bind_def ret_def inj split: sum.splits tx_end.splits if_splits prod.splits)
qed

text \<open>The memory store answers the second creation with the task of the first.\<close>

lemma memory_replays:
  assumes "CreateTaskWithEvent None (Some t) (Some ev) m = (Inr y, m1)" "Created_cr y" "IdempotencyKey t \<noteq> []" "TaskID_ev ev' = tid"
  shows "CreateTaskWithEvent None (Some (t\<lparr>ID := tid\<rparr>)) (Some ev') m1 = (Inr \<lparr>Task_cr = Some t, Created_cr = False\<rparr>, m1)"
proof -
  have m1: "m1 = m\<lparr>taskStore := put_key t (put_task (ID t) t (taskStore m)), eventStore := put_event ev (eventStore m)\<rparr>"
    using assms(1,2) by (auto simp: CreateTaskWithEvent_def Let_def split: if_splits option.splits)
  have same: "SameTaskCreationRequest (Some t) (Some (t\<lparr>ID := tid\<rparr>))"
    by (simp add: SameTaskCreationRequest_def split: option.splits)
  show ?thesis
    using assms(3,4) same
    by (simp add: CreateTaskWithEvent_def m1 idempotencyIndexKey_def put_key_def put_task_def Let_def update_conv)
qed

end
