(* ===== verification/MySqlSamples.thy ===== *)
theory MySqlSamples
  imports MySqlLimits Samples
begin

text \<open>
  A concrete database server and databases: the tables with one queued task, and with that task
  claimed.  The properties of the MySQL stores are applied to them.
\<close>

section \<open>A server\<close>

text \<open>
  The server folds ASCII letters when it compares texts, rounds instants to microseconds, stores
  JSON without white space and names the key in the message of a duplicate entry.
\<close>

definition ascii_lower :: "char \<Rightarrow> char" where
  "ascii_lower c = (if 65 \<le> (of_char c :: nat) \<and> (of_char c :: nat) \<le> 90 then char_of (of_char c + (32 :: nat)) else c)"

definition stored_json :: "raw_json \<Rightarrow> raw_json option" where
  "stored_json raw =
     (let j = compact_bytes False raw in
      if parse_json raw \<noteq> None \<and> parse_json j \<noteq> None \<and> compact_bytes False j = j \<and> j \<noteq> [] then Some j else None)"

definition sample_server :: mysql_server where
  "sample_server = \<lparr>
     eq_text = (\<lambda>x y. map ascii_lower x = map ascii_lower y),
     less_text = (\<lambda>x y. map ascii_lower x < map ascii_lower y),
     datetime6 = (\<lambda>t. (t + 500) div 1000 * 1000),
     json_column = stored_json,
     fits_varchar = (\<lambda>n s. length s \<le> n),
     message_of = (\<lambda>n what. ''Duplicate entry for key '' @ what),
     error_string = (\<lambda>n m. ''Error: '' @ m),
     print_rune = (\<lambda>_. True)\<rparr>"

definition plain_texts :: "string set" where
  "plain_texts = {s. map ascii_lower s = s}"

lemma sample_server_ok: "server_ok sample_server plain_texts"
proof -
  have "status_text ` {TaskStatusQueued, TaskStatusRunning, TaskStatusSucceeded, TaskStatusPartial,
       TaskStatusFailed, TaskStatusCanceled, TaskStatusRetrying} \<subseteq> plain_texts"
    by (simp add: plain_texts_def) code_simp
  moreover have "Contains (message_of sample_server 1062 ''tasks.uk_tasks_workflow_idempotency'') ''uk_tasks_workflow_idempotency''"
    "\<not> Contains (message_of sample_server 1062 ''tasks.PRIMARY'') ''uk_tasks_workflow_idempotency''"
    "\<not> Contains (message_of sample_server 1062 ''tasks.PRIMARY'') ''uk_tasks_idempotency_key''"
    by (simp_all add: sample_server_def) code_simp+
  moreover have "cloneJSON (Some j) \<noteq> [] \<and> json_column sample_server (cloneJSON (Some j)) = Some j"
    if "json_column sample_server raw = Some j" for raw j
    using that by (auto simp: sample_server_def stored_json_def cloneJSON_def Let_def split: if_splits)
  ultimately show ?thesis by (auto simp: server_ok_def sample_server_def plain_texts_def)
qed

section \<open>Databases\<close>

definition mysql_task :: Task where
  "mysql_task = sample_task\<lparr>AvailableAt := 1000000000, CreatedAt := 1000000000, UpdatedAt := 1000000000\<rparr>"

definition mysql_event :: TaskEvent where
  "mysql_event = sample_event\<lparr>CreatedAt_ev := 1000000000\<rparr>"

definition empty_tables :: tables where
  "empty_tables = \<lparr>task_rows = [], event_rows = []\<rparr>"

definition queued_tables :: tables where
  "queued_tables = \<lparr>task_rows = [row_of sample_server mysql_task], event_rows = [event_row_of sample_server mysql_event]\<rparr>"

definition mysql_claim :: ClaimOptions where
  "mysql_claim = \<lparr>WorkerID_co = ''w1'', Workflow_co = ''demo'', Now_co = 2000000000, LeaseDuration_co = 80000000000\<rparr>"

definition running_task :: Task where
  "running_task = claimed mysql_claim ClaimInitial mysql_task"

lemma stored_braces: "stored_json ''{}'' = Some ''{}''" by code_simp

lemma mysql_storable: "storable sample_server plain_texts mysql_task" "storable_event sample_server plain_texts mysql_event"
proof -
  have "decodeJSONValue ''{}'' \<noteq> None" "cloneJSON (Some ''{}'') = ''{}''" by code_simp+
  moreover have "map ascii_lower ''task_1'' = ''task_1''" "map ascii_lower ''demo'' = ''demo''"
    "map ascii_lower ''event_1'' = ''event_1''" by code_simp+
  ultimately show "storable sample_server plain_texts mysql_task" "storable_event sample_server plain_texts mysql_event"
    by (auto simp: storable_def storable_event_def mysql_task_def mysql_event_def sample_task_def sample_event_def
        plain_texts_def kept_times_def kept_time_def sample_server_def stored_braces)
qed

text \<open>What a call on undisturbed tables returns, and the tables it leaves.\<close>

definition call_my :: "(session, 'a) op \<Rightarrow> tables \<Rightarrow> 'a result \<times> tables" where
  "call_my f d = map_prod id tables_se (f (start_session d))"

lemma call_myD: "call_my f d = (r, d') \<Longrightarrow> \<exists>s'. f (start_session d) = (r, s') \<and> tables_se s' = d'"
  by (cases "f (start_session d)") (auto simp: call_my_def)

lemma ascii_lower_sample [simp]:
  "ascii_lower (CHR ''a'') = CHR ''a''" "ascii_lower (CHR ''b'') = CHR ''b''" "ascii_lower (CHR ''c'') = CHR ''c''"
  "ascii_lower (CHR ''d'') = CHR ''d''" "ascii_lower (CHR ''e'') = CHR ''e''" "ascii_lower (CHR ''f'') = CHR ''f''"
  "ascii_lower (CHR ''g'') = CHR ''g''" "ascii_lower (CHR ''h'') = CHR ''h''" "ascii_lower (CHR ''i'') = CHR ''i''"
  "ascii_lower (CHR ''k'') = CHR ''k''" "ascii_lower (CHR ''l'') = CHR ''l''" "ascii_lower (CHR ''m'') = CHR ''m''"
  "ascii_lower (CHR ''n'') = CHR ''n''" "ascii_lower (CHR ''o'') = CHR ''o''" "ascii_lower (CHR ''p'') = CHR ''p''"
  "ascii_lower (CHR ''q'') = CHR ''q''" "ascii_lower (CHR ''r'') = CHR ''r''" "ascii_lower (CHR ''s'') = CHR ''s''"
  "ascii_lower (CHR ''t'') = CHR ''t''" "ascii_lower (CHR ''u'') = CHR ''u''" "ascii_lower (CHR ''v'') = CHR ''v''"
  "ascii_lower (CHR ''w'') = CHR ''w''" "ascii_lower (CHR ''y'') = CHR ''y''" "ascii_lower (CHR ''1'') = CHR ''1''"
  "ascii_lower (CHR ''2'') = CHR ''2''" "ascii_lower (CHR ''_'') = CHR ''_''"
  by code_simp+

lemma sample_server_simps [simp]:
  "eq_text sample_server x y \<longleftrightarrow> map ascii_lower x = map ascii_lower y"
  "datetime6 sample_server t = (t + 500) div 1000 * 1000" "json_column sample_server = stored_json"
  "fits_varchar sample_server n x \<longleftrightarrow> length x \<le> n" "stored_json ''{}'' = Some ''{}''"
  "cloneJSON (Some ''{}'') = ''{}''"
  by (simp_all add: sample_server_def stored_braces) code_simp

lemma mysql_created:
  "call_my (CreateTaskWithEvent_my sample_server (Some mysql_task) (Some mysql_event)) empty_tables =
     (Inr \<lparr>Task_cr = Some mysql_task, Created_cr = True\<rparr>, queued_tables)"
  by (simp add: call_my_def CreateTaskWithEvent_my_def mysql_task_def sample_task_def mysql_event_def sample_event_def
     in_tx_def next_arrival_def start_session_def quiet_def attempt_def insertTask_def statement_def insertTaskQuery_def
     insert_values_def json_value_def nullableJSON_def insert_task_row_def task_violation_def nullableString_def
     empty_tables_def unsigned_def null_string_def nullableTime_def bind_def insertEvent_def insertEventQuery_def
     insert_event_row_def event_violation_def ret_def queued_tables_def row_of_def event_row_of_def json_of_def)

definition claim_payload :: string where
  "claim_payload = ''{'' @ CHR 0x22 # ''worker_id'' @ CHR 0x22 # '':'' @ CHR 0x22 # ''w1'' @ CHR 0x22 # '','' @
     CHR 0x22 # ''lease_until'' @ CHR 0x22 # '':'' @ CHR 0x22 # ''0001-01-01T00:01:22Z'' @ CHR 0x22 # '','' @
     CHR 0x22 # ''retry_count'' @ CHR 0x22 # '':0}''"

definition claim_event :: TaskEvent where
  "claim_event = \<lparr>ID_ev = ''event_2'', TaskID_ev = ''task_1'', Type_ev = EventTaskStarted,
     Message_ev = ''task started'', Payload_ev = claim_payload, Progress_ev = 0, CreatedAt_ev = 2000000000\<rparr>"

lemma running_task_eq:
  "running_task = mysql_task\<lparr>Status := TaskStatusRunning, LeaseOwner := ''w1'', LeaseExpiresAt := Some 82000000000,
     UpdatedAt := 2000000000, StartedAt := Some 2000000000, Version := 1\<rparr>"
  by code_simp

lemma claim_event_new: "NewTaskClaimedEvent ''event_2'' (Some running_task) ClaimInitial 2000000000 = Inr claim_event"
  by code_simp

lemma claim_payload_stored: "stored_json claim_payload = Some claim_payload" "claim_payload \<noteq> []"
  by code_simp+

lemma mysql_row: "row_of sample_server mysql_task = \<lparr>
     id_c = ''task_1'', workflow_c = ''demo'', status_c = ''queued'', input_json_c = ''{}'', result_json_c = None,
     error_message_c = None, progress_c = 0, retry_count_c = 0, max_retries_c = 1, available_at_c = 1000000000,
     lease_owner_c = None, lease_expires_at_c = None, last_heartbeat_at_c = None, idempotency_key_c = Some ''k'',
     version_c = 0, created_at_c = 1000000000, updated_at_c = 1000000000, started_at_c = None, finished_at_c = None\<rparr>"
  by (simp add: row_of_def mysql_task_def sample_task_def json_of_def null_string_def nullableString_def)

lemma running_row: "row_of sample_server running_task = \<lparr>
     id_c = ''task_1'', workflow_c = ''demo'', status_c = ''running'', input_json_c = ''{}'', result_json_c = None,
     error_message_c = None, progress_c = 0, retry_count_c = 0, max_retries_c = 1, available_at_c = 1000000000,
     lease_owner_c = Some ''w1'', lease_expires_at_c = Some 82000000000, last_heartbeat_at_c = None,
     idempotency_key_c = Some ''k'', version_c = 1, created_at_c = 1000000000, updated_at_c = 2000000000,
     started_at_c = Some 2000000000, finished_at_c = None\<rparr>"
  by (simp add: row_of_def running_task_eq mysql_task_def sample_task_def json_of_def null_string_def nullableString_def)

definition mysql_stores :: MemoryStores where
  "mysql_stores = snd (CreateTaskWithEvent None (Some mysql_task) (Some mysql_event) NewMemoryStores)"

lemma empty_represents: "represents srv A empty_tables NewMemoryStores"
  using NewMemoryStores_wf
  by (simp add: represents_def holds_tasks_def holds_events_def NewMemoryStores_def empty_tables_def
      NewMemoryTaskStore_def NewMemoryEventStore_def events_of_def)

lemma mysql_new_task: "new_task mysql_task mysql_event" "LastHeartbeatAt mysql_task = None"
  by (simp_all add: new_task_def task_wf_def mysql_task_def mysql_event_def sample_defs in_i64_def)

lemma mysql_created_session:
  obtains s' where "CreateTaskWithEvent_my sample_server (Some mysql_task) (Some mysql_event) (start_session empty_tables) =
    (Inr \<lparr>Task_cr = Some mysql_task, Created_cr = True\<rparr>, s')" "tables_se s' = queued_tables"
  using call_myD [OF mysql_created] by blast

lemma queued_represents: "represents sample_server plain_texts queued_tables mysql_stores"
proof -
  obtain s' where run: "CreateTaskWithEvent_my sample_server (Some mysql_task) (Some mysql_event) (start_session empty_tables) =
    (Inr \<lparr>Task_cr = Some mysql_task, Created_cr = True\<rparr>, s')" and s': "tables_se s' = queued_tables"
    by (rule mysql_created_session)
  have "represents sample_server plain_texts (tables_se (start_session empty_tables)) NewMemoryStores"
    by (simp add: empty_represents)
  from create_my_sim [OF this sample_server_ok alone_start mysql_new_task(1) mysql_storable(1) mysql_new_task(2) mysql_storable(2) run]
  show ?thesis using s' by (auto simp: mysql_stores_def)
qed

lemma queued_reachable: "my_reachable sample_server plain_texts queued_tables"
proof -
  obtain s' where run: "CreateTaskWithEvent_my sample_server (Some mysql_task) (Some mysql_event) (start_session empty_tables) =
    (Inr \<lparr>Task_cr = Some mysql_task, Created_cr = True\<rparr>, s')" and s': "tables_se s' = queued_tables"
    by (rule mysql_created_session)
  from my_step.create [OF run alone_start mysql_new_task(1) mysql_storable(1) mysql_new_task(2) mysql_storable(2)] s'
  have "my_step sample_server plain_texts empty_tables queued_tables" by simp
  with my_reachable.init show ?thesis unfolding empty_tables_def by (rule my_reachable.step)
qed

lemma queued_typed: "typed sample_server queued_tables"
  unfolding queued_tables_def mysql_row
  by (simp add: typed_def task_violation_def event_violation_def unsigned_def event_row_of_def mysql_event_def sample_event_def)

lemma mysql_stores_eq: "tasks (taskStore mysql_stores) = [(''task_1'', mysql_task)]" "eventsByID (eventStore mysql_stores) ''event_2'' = None"
  by (simp_all add: mysql_stores_def CreateTaskWithEvent_def NewMemoryStores_def NewMemoryTaskStore_def
      NewMemoryEventStore_def put_task_def put_key_def mysql_task_def mysql_event_def sample_defs)

lemma mysql_select: "select_claim (\<lambda>m. m) (\<lambda>m. m) mysql_claim (taskStore mysql_stores) = Some ((''task_1'', mysql_task), ClaimInitial)"
  by (simp add: select_claim_def mysql_stores_eq scan_tasks_def) code_simp

lemma mysql_options: "options_ok sample_server plain_texts mysql_claim" "''event_2'' \<in> plain_texts"
  "Validate_claim mysql_claim = None" "lease_ends_differ queued_tables"
  by (simp_all add: options_ok_def plain_texts_def mysql_claim_def kept_time_def Add_time_def queued_tables_def
      lease_ends_differ_def Validate_claim_def) code_simp+

lemma mysql_claim_fits: "claim_fits sample_server mysql_claim ''event_2'' mysql_stores"
proof -
  have "json_column sample_server (Payload_ev ev) \<noteq> None"
    if "select_claim (\<lambda>m. m) (\<lambda>m. m) mysql_claim (taskStore mysql_stores) = Some ((k, t), kind)"
      "NewTaskClaimedEvent ''event_2'' (Some (claimed mysql_claim kind t)) kind (Now_co mysql_claim) = Inr ev" for k t kind ev
    using that mysql_select claim_event_new claim_payload_stored(1)
    by (auto simp: running_task_def mysql_claim_def claim_event_def)
  moreover have "Version t \<noteq> - 1" if "stored_task mysql_stores k = Some t" for k t
    using that by (auto simp: mysql_stores_eq mysql_task_def sample_task_def split: if_splits)
  ultimately show ?thesis by (simp add: claim_fits_def mysql_claim_def)
qed

lemma mysql_memory_claim: "fst (ClaimNextWithEvent (\<lambda>m. m) (\<lambda>m. m) None mysql_claim ''event_2'' mysql_stores) = Inr running_task"
proof -
  have "MoveTo (Some mysql_task) TaskStatusRunning (Now_co mysql_claim) =
      Inr (enter_status TaskStatusRunning (Now_co mysql_claim) (mysql_task\<lparr>Status := TaskStatusRunning, UpdatedAt := Now_co mysql_claim\<rparr>))"
    by code_simp
  then have "fst (claimNextLocked (\<lambda>m. m) (\<lambda>m. m) mysql_claim (taskStore mysql_stores)) = Inr (running_task, mysql_task, ClaimInitial)"
    by (simp add: claimNextLocked_def mysql_select running_task_def claimed_def)
  moreover have "NewTaskClaimedEvent ''event_2'' (Some running_task) ClaimInitial (Now_co mysql_claim) = Inr claim_event"
    using claim_event_new by (simp add: mysql_claim_def)
  ultimately show ?thesis
    by (cases "claimNextLocked (\<lambda>m. m) (\<lambda>m. m) mysql_claim (taskStore mysql_stores)")
      (simp add: ClaimNextWithEvent_def mysql_options mysql_stores_eq)
qed

section \<open>A renewal\<close>

definition mysql_renewal :: RenewLeaseOptions where
  "mysql_renewal = \<lparr>TaskID_rl = ''task_1'', WorkerID_rl = ''w1'', Now_rl = 3000000000, LeaseDuration_rl = 80000000000\<rparr>"

definition renewed_tables :: tables where
  "renewed_tables = \<lparr>task_rows = [(row_of sample_server running_task)\<lparr>lease_expires_at_c := Some 83000000000,
     last_heartbeat_at_c := Some 3000000000, updated_at_c := 3000000000\<rparr>], event_rows = []\<rparr>"

lemma mysql_renewed:
  "RenewLease_my sample_server mysql_renewal (start_session \<lparr>task_rows = [row_of sample_server running_task], event_rows = []\<rparr>) =
     (Inr (), start_session renewed_tables)"
proof -
  have v: "Validate_renew mysql_renewal = None" by (simp add: Validate_renew_def mysql_renewal_def IsZero_def)
  have "renewLeaseQuery sample_server mysql_renewal \<lparr>task_rows = [row_of sample_server running_task], event_rows = []\<rparr> =
      (Inr 1, renewed_tables)"
    unfolding renewed_tables_def running_row
    by (simp add: renewLeaseQuery_def update_tasks_def mysql_renewal_def task_violation_def unsigned_def Add_time_def)
  then show ?thesis by (simp add: RenewLease_my_start [OF v])
qed

lemma mysql_renewed_memory:
  "RenewLease None mysql_renewal (put_task ''task_1'' running_task NewMemoryTaskStore) =
     (None, snd (RenewLease None mysql_renewal (put_task ''task_1'' running_task NewMemoryTaskStore)))"
  "Now_rl mysql_renewal < Add_time (Now_rl mysql_renewal) (LeaseDuration_rl mysql_renewal)"
  by (simp_all add: RenewLease_def mysql_renewal_def Validate_renew_def IsZero_def lease_held_def running_task_eq
      mysql_task_def sample_task_def Add_time_def NewMemoryTaskStore_def put_task_def)

section \<open>Numbers written in another way\<close>

definition rewrite_number :: "raw_json \<Rightarrow> raw_json" where
  "rewrite_number j = (if j = ''1e2'' then ''100.0'' else j)"

definition reformatting_server :: mysql_server where
  "reformatting_server = sample_server\<lparr>json_column := (\<lambda>raw. map_option rewrite_number (stored_json raw))\<rparr>"

definition number_task :: Task where
  "number_task = mysql_task\<lparr>Input := ''1e2''\<rparr>"

definition number_tables :: tables where
  "number_tables = \<lparr>task_rows = [(row_of sample_server mysql_task)\<lparr>input_json_c := ''100.0''\<rparr>],
     event_rows = [event_row_of sample_server mysql_event]\<rparr>"

lemma number_json:
  "stored_json ''100.0'' = Some ''100.0''" "cloneJSON (Some ''100.0'') = ''100.0''" "stored_json ''1e2'' = Some ''1e2''"
  "rewrite_number ''1e2'' = ''100.0''" "rewrite_number ''100.0'' = ''100.0''" "rewrite_number ''{}'' = ''{}''"
  "parse_json ''100.0'' = Some (JNumber ''100.0'')" "parse_json ''1e2'' = Some (JNumber ''1e2'')"
  by code_simp+

lemma reformatting_server_simps [simp]:
  "eq_text reformatting_server x y \<longleftrightarrow> map ascii_lower x = map ascii_lower y"
  "datetime6 reformatting_server t = (t + 500) div 1000 * 1000"
  "json_column reformatting_server raw = map_option rewrite_number (stored_json raw)"
  "fits_varchar reformatting_server n x \<longleftrightarrow> length x \<le> n"
  "less_text reformatting_server = less_text sample_server" "message_of reformatting_server = message_of sample_server"
  by (simp_all add: reformatting_server_def sample_server_def)

lemma reformatting_server_ok: "server_ok reformatting_server plain_texts"
proof -
  note ok = sample_server_ok [unfolded server_ok_def]
  have "cloneJSON (Some j) \<noteq> [] \<and> json_column reformatting_server (cloneJSON (Some j)) = Some j"
    if raw: "json_column reformatting_server raw = Some j" for raw j
  proof -
    obtain i where i: "stored_json raw = Some i" "j = rewrite_number i" using raw by auto
    show ?thesis
    proof (cases "i = ''1e2''")
      case True
      with i show ?thesis by (simp add: number_json)
    next
      case False
      with i have "json_column sample_server raw = Some j" "rewrite_number j = j" by (simp_all add: rewrite_number_def)
      with ok show ?thesis by auto
    qed
  qed
  with ok show ?thesis unfolding server_ok_def by auto
qed

lemma number_created:
  "CreateTaskWithEvent_my reformatting_server (Some number_task) (Some mysql_event) (start_session empty_tables) =
     (Inr \<lparr>Task_cr = Some number_task, Created_cr = True\<rparr>, start_session number_tables)"
  by (simp add: CreateTaskWithEvent_my_def number_task_def mysql_task_def sample_task_def mysql_event_def sample_event_def
     in_tx_def next_arrival_def start_session_def quiet_def attempt_def insertTask_def statement_def insertTaskQuery_def
     insert_values_def json_value_def nullableJSON_def insert_task_row_def task_violation_def nullableString_def
     empty_tables_def unsigned_def null_string_def nullableTime_def bind_def insertEvent_def insertEventQuery_def
     insert_event_row_def event_violation_def ret_def number_tables_def row_of_def event_row_of_def json_of_def number_json)

lemma number_created_memory:
  "CreateTaskWithEvent None (Some number_task) (Some mysql_event) NewMemoryStores =
     (Inr \<lparr>Task_cr = Some number_task, Created_cr = True\<rparr>,
      snd (CreateTaskWithEvent None (Some number_task) (Some mysql_event) NewMemoryStores))"
  by (simp add: CreateTaskWithEvent_def NewMemoryStores_def NewMemoryTaskStore_def
      NewMemoryEventStore_def number_task_def mysql_task_def mysql_event_def sample_defs)

lemma number_differs:
  "Workflow number_task \<in> plain_texts" "IdempotencyKey number_task \<noteq> []"
  "json_column reformatting_server (Input number_task) = Some ''100.0''"
  "decodeJSONValue (cloneJSON (Some ''100.0'')) \<noteq> decodeJSONValue (Input number_task)"
  "decodeJSONValue (cloneJSON (Some ''100.0'')) \<noteq> None"
  "\<not> list_ex (\<lambda>q. eq_text reformatting_server (id_c q) ''task_2'') (task_rows number_tables)"
  unfolding number_tables_def mysql_row
  by (simp_all add: number_task_def mysql_task_def sample_task_def plain_texts_def number_json decodeJSONValue_def)

end
