(* ===== verification/MySqlConcurrency.thy ===== *)
theory MySqlConcurrency
  imports MySqlSteps
begin

text \<open>
  Calls of the MySQL stores among other clients.  What the other clients do before a call begins can
  be done first, and a call then runs as if it were alone; after it only the read of an idempotent
  replay meets other clients once more.  So a call is one step of \<open>my_step\<close> at most, between steps
  of the others.
\<close>

section \<open>Doing the steps of the others first\<close>

definition calm_arrival :: "arrival \<Rightarrow> arrival" where
  "calm_arrival a = a\<lparr>others_ar := (\<lambda>d. d)\<rparr>"

definition calm :: "session \<Rightarrow> session" where
  "calm s = s\<lparr>arrivals_se := map calm_arrival (arrivals_se s)\<rparr>"

text \<open>The tables as a call finds them, and the session that starts from them without other clients.\<close>

definition found :: "session \<Rightarrow> tables" where
  "found s = others_ar (fst (next_arrival s)) (tables_se s)"

definition settled :: "session \<Rightarrow> session" where
  "settled s = calm (s\<lparr>tables_se := found s\<rparr>)"

lemma calm_fields [simp]:
  "tables_se (calm s) = tables_se s" "locked_se (calm s) = locked_se s" "tables_se (settled s) = found s"
  "calm (s\<lparr>tables_se := d\<rparr>) = (calm s)\<lparr>tables_se := d\<rparr>" "calm (s\<lparr>locked_se := l\<rparr>) = (calm s)\<lparr>locked_se := l\<rparr>"
  "fault_ar (calm_arrival a) = fault_ar a" "applied_ar (calm_arrival a) = applied_ar a"
  "late_fault_ar (calm_arrival a) = late_fault_ar a" "locked_ar (calm_arrival a) = locked_ar a"
  "others_ar (calm_arrival a) d = d"
  by (simp_all add: calm_def settled_def calm_arrival_def)

lemma next_arrival_calm [simp]: "next_arrival (calm s) = map_prod calm_arrival calm (next_arrival s)"
  by (simp add: next_arrival_def calm_def quiet_def calm_arrival_def split: list.split)

lemma next_arrival_tables [simp]:
  "next_arrival (s\<lparr>tables_se := d\<rparr>) = map_prod id (\<lambda>s. s\<lparr>tables_se := d\<rparr>) (next_arrival s)"
  "tables_se (snd (next_arrival s)) = tables_se s" "locked_se (snd (next_arrival s)) = locked_se s"
  by (simp_all add: next_arrival_def split: list.split)

lemma next_arrival_same: "next_arrival s = (a, s1) \<Longrightarrow> tables_se s1 = tables_se s"
  by (auto simp: next_arrival_def split: list.splits)

section \<open>Operations in a transaction\<close>

text \<open>Inside a transaction the other clients do not matter.\<close>

definition sheltered :: "(session, 'a) op \<Rightarrow> bool" where
  "sheltered f \<longleftrightarrow> (\<forall>s. f (calm s) = map_prod id calm (f s))"

named_theorems sheltered_intros \<open>operations in a transaction\<close>

lemma sheltered_eq: "sheltered f \<Longrightarrow> f (calm s) = map_prod id calm (f s)"
  by (simp add: sheltered_def)

lemma sheltered_basic [sheltered_intros]:
  "sheltered (ret x)" "sheltered (raise e)" "sheltered (of_result r)" "sheltered (sql_fail srv p se)"
  by (simp_all add: sheltered_def op_defs sql_fail_def)

lemma sheltered_bind [sheltered_intros]: "sheltered f \<Longrightarrow> (\<And>x. sheltered (k x)) \<Longrightarrow> sheltered (bind f k)"
  by (auto simp: sheltered_def bind_def split: prod.split sum.split)

lemma sheltered_attempt [sheltered_intros]: "sheltered f \<Longrightarrow> (\<And>x. sheltered (k x)) \<Longrightarrow> sheltered (attempt f k)"
  by (auto simp: sheltered_def attempt_def split: prod.split)

lemma sheltered_statement [sheltered_intros]: "sheltered (statement ExecTx f)"
  by (auto simp: sheltered_def statement_def Let_def split: prod.split option.split)

lemma sheltered_late [sheltered_intros]: "sheltered (late_statement ExecTx f)"
  using sheltered_statement [of f]
  by (auto simp: sheltered_def late_statement_def split: prod.split sum.split option.split)

lemma sheltered_query [sheltered_intros]: "sheltered (query_task ExecTx q)"
  unfolding query_task_def by (intro sheltered_intros)

lemma sheltered_one_changed [sheltered_intros]: "sheltered (one_changed srv p q w a)"
  unfolding one_changed_def by (auto split: sum.split intro!: sheltered_intros)

lemma sheltered_check_event [sheltered_intros]: "sheltered k \<Longrightarrow> sheltered (check_event srv w eid k)"
  unfolding check_event_def eventExists_def by (auto split: sum.split intro!: sheltered_intros)

lemma sheltered_insertTask [sheltered_intros]: "sheltered (insertTask srv ExecTx t)"
  unfolding insertTask_def by (auto split: option.split sum.split sql_error.split intro!: sheltered_intros)

lemma sheltered_insertEvent [sheltered_intros]: "sheltered (insertEvent srv ExecTx ev)"
  unfolding insertEvent_def Let_def by (auto split: option.split sum.split sql_error.split intro!: sheltered_intros)

lemma sheltered_updateTask [sheltered_intros]: "sheltered (updateTask srv ExecTx t)"
  unfolding updateTask_def by (auto split: option.split sum.split intro!: sheltered_intros)

text \<open>The two operations that look at the rows held by other transactions.\<close>

lemma sheltered_locked: "(\<And>l. sheltered (f l)) \<Longrightarrow> sheltered (\<lambda>s. f (locked_se s) s)"
  by (simp add: sheltered_def)

lemma sheltered_claimNextInTx [sheltered_intros]: "sheltered (claimNextInTx srv o1)"
proof -
  have "sheltered (select_claim_my srv o1)"
    unfolding select_claim_my_def [abs_def] by (rule sheltered_locked) (auto split: sum.split intro!: sheltered_intros)
  then show ?thesis
    unfolding claimNextInTx_def Let_def by (auto split: sum.split prod.split intro!: sheltered_intros)
qed

lemma sheltered_failNextExpiredInTx [sheltered_intros]: "sheltered (failNextExpiredInTx srv now)"
  unfolding failNextExpiredInTx_def [abs_def]
  by (rule sheltered_locked) (auto split: sum.split intro!: sheltered_intros)

section \<open>Operations among others\<close>

text \<open>The operation runs as from the tables it found, or is refused before it reaches the server.\<close>

definition settles :: "(session, 'a) op \<Rightarrow> bool" where
  "settles f \<longleftrightarrow> (\<exists>e. f = raise e) \<or> (\<forall>s. f (settled s) = map_prod id calm (f s))"

lemma settles_raise [intro]: "settles (raise e)"
  by (auto simp: settles_def)

lemma in_tx_settled:
  assumes b: "sheltered body"
  shows "in_tx srv bt ct body (settled s) = map_prod id calm (in_tx srv bt ct body s)"
proof -
  obtain a s1 where n: "next_arrival s = (a, s1)" by force
  let ?s2 = "s1\<lparr>tables_se := others_ar a (tables_se s1), locked_se := locked_ar a\<rparr>"
  have t: "tables_se s1 = tables_se s" using next_arrival_tables(2) [of s] n by simp
  have n': "next_arrival (settled s) = (calm_arrival a, calm (s1\<lparr>tables_se := others_ar a (tables_se s)\<rparr>))"
    using n by (simp add: settled_def found_def)
  have s2: "(calm (s1\<lparr>tables_se := others_ar a (tables_se s)\<rparr>))\<lparr>
      tables_se := others_ar (calm_arrival a) (tables_se (calm (s1\<lparr>tables_se := others_ar a (tables_se s)\<rparr>))),
      locked_se := locked_ar (calm_arrival a)\<rparr> = calm ?s2" by (simp add: t)
  show ?thesis
    unfolding in_tx_def n n' prod.case Let_def s2 sheltered_eq [OF b]
    by (auto simp: t split: prod.split option.split sum.split tx_end.split)
qed

lemma settles_in_tx: "sheltered body \<Longrightarrow> settles (in_tx srv bt ct body)"
  by (simp add: settles_def in_tx_settled)

lemma db_settled:
  "statement ExecDB f (settled s) = map_prod id calm (statement ExecDB f s)"
  "late_statement ExecDB f (settled s) = map_prod id calm (late_statement ExecDB f s)"
proof -
  show st: "statement ExecDB f (settled s) = map_prod id calm (statement ExecDB f s)"
    by (auto simp: statement_def settled_def found_def Let_def next_arrival_same split: prod.split option.split)
  have "late_fault_ar (fst (next_arrival (settled s))) = late_fault_ar (fst (next_arrival s))"
    by (simp add: settled_def)
  with st show "late_statement ExecDB f (settled s) = map_prod id calm (late_statement ExecDB f s)"
    by (auto simp: late_statement_def split: prod.split option.split sum.split)
qed

lemma settles_bind:
  assumes "\<forall>s. f (settled s) = map_prod id calm (f s)" "\<And>x. sheltered (k x)"
  shows "settles (bind f k)"
  using assms by (auto simp: settles_def bind_def sheltered_def split: prod.split sum.split)

lemma settles_calls:
  "settles (ClaimNextWithEvent_my srv o1 eid)" "settles (FailNextExpiredWithEvent_my srv now eid)"
  "settles (UpdateTaskWithEvent_my srv (Some t) (Some ev))" "settles (CancelTaskWithEvent_my srv tid eid now)"
  unfolding ClaimNextWithEvent_my_def FailNextExpiredWithEvent_my_def UpdateTaskWithEvent_my_def CancelTaskWithEvent_my_def
  by (auto split: option.split sum.split prod.split intro!: settles_in_tx sheltered_intros)

lemma settles_RenewLease: "settles (RenewLease_my srv o2)"
  unfolding RenewLease_my_def by (auto simp: db_settled split: option.split intro!: settles_bind sheltered_intros)

lemma settled_run:
  assumes "settles f" "f s = (r, s')"
  shows "s' = s \<or> f (settled s) = (r, calm s')"
  using assms by (auto simp: settles_def raise_def)

section \<open>The other clients\<close>

text \<open>
  Whatever the tables are, the others take any number of steps of their own; no row is held by an
  open transaction, and no fault looks like an answer without rows.
\<close>

definition others_run :: "mysql_server \<Rightarrow> string set \<Rightarrow> session \<Rightarrow> bool" where
  "others_run srv A s \<longleftrightarrow>
     (\<forall>a \<in> set (arrivals_se s). (\<forall>d. (my_step srv A)\<^sup>*\<^sup>* d (others_ar a d)) \<and> (\<forall>x. \<not> locked_ar a x) \<and>
        fault_ar a \<noteq> Some ErrNoRows)"

lemma found_steps: "others_run srv A s \<Longrightarrow> (my_step srv A)\<^sup>*\<^sup>* (tables_se s) (found s)"
  by (auto simp: others_run_def found_def next_arrival_def quiet_def split: list.split)

lemma settled_alone: "others_run srv A s \<Longrightarrow> alone (settled s)"
  by (auto simp: others_run_def alone_def settled_def calm_def calm_arrival_def)

text \<open>An operation uses up some of the arrivals.\<close>

definition consumes :: "(session, 'a) op \<Rightarrow> bool" where
  "consumes f \<longleftrightarrow> (\<forall>s. set (arrivals_se (snd (f s))) \<subseteq> set (arrivals_se s))"

lemma next_arrival_consumes: "next_arrival s = (a, s1) \<Longrightarrow> set (arrivals_se s1) \<subseteq> set (arrivals_se s)"
  by (auto simp: next_arrival_def split: list.splits)

lemma consumes_basic: "consumes (ret x)" "consumes (raise e)" "consumes (sql_fail srv p se)"
  by (simp_all add: consumes_def op_defs sql_fail_def)

lemma consumes_bind: "consumes f \<Longrightarrow> (\<And>x. consumes (k x)) \<Longrightarrow> consumes (bind f k)"
  by (fastforce simp: consumes_def bind_def split: prod.split sum.split)

lemma consumes_attempt: "consumes f \<Longrightarrow> (\<And>x. consumes (k x)) \<Longrightarrow> consumes (attempt f k)"
  by (fastforce simp: consumes_def attempt_def split: prod.split)

lemma consumes_statement: "consumes (statement ex f)"
  by (auto simp: consumes_def statement_def Let_def dest!: next_arrival_consumes split: prod.split option.split)

lemma consumes_in_tx:
  assumes "consumes body" "in_tx srv bt ct body s = (r, s')"
  shows "set (arrivals_se s') \<subseteq> set (arrivals_se s)"
proof -
  obtain a s1 where n: "next_arrival s = (a, s1)" by force
  let ?s2 = "s1\<lparr>tables_se := others_ar a (tables_se s1), locked_se := locked_ar a\<rparr>"
  obtain b s3 where body: "body ?s2 = (b, s3)" by force
  obtain c s4 where n4: "next_arrival s3 = (c, s4)" by force
  have "set (arrivals_se s3) \<subseteq> set (arrivals_se s1)"
    using assms(1) body unfolding consumes_def by (metis session.select_convs(2) session.surjective session.update_convs(1,3) snd_conv)
  with next_arrival_consumes [OF n] next_arrival_consumes [OF n4]
  have "set (arrivals_se s3) \<subseteq> set (arrivals_se s)" "set (arrivals_se s4) \<subseteq> set (arrivals_se s)"
    "set (arrivals_se s1) \<subseteq> set (arrivals_se s)" by blast+
  moreover have "arrivals_se s' \<in> {arrivals_se s1, arrivals_se s3, arrivals_se s4}"
    using assms(2) body n n4 by (auto simp: in_tx_def Let_def split: option.splits sum.splits tx_end.splits)
  ultimately show ?thesis by auto
qed

section \<open>Calls\<close>

text \<open>The calls of \<open>my_step\<close>, among other clients: what is asked of the tables is asked of those found.\<close>

inductive my_call :: "mysql_server \<Rightarrow> string set \<Rightarrow> session \<Rightarrow> session \<Rightarrow> bool" for srv A where
  create: "CreateTaskWithEvent_my srv (Some t) (Some ev) s = (rc, s') \<Longrightarrow> new_task t ev \<Longrightarrow>
    storable srv A t \<Longrightarrow> LastHeartbeatAt t = None \<Longrightarrow> storable_event srv A ev \<Longrightarrow> my_call srv A s s'"
| claim: "ClaimNextWithEvent_my srv o1 eid s = (rt, s') \<Longrightarrow> options_ok srv A o1 \<Longrightarrow> eid \<in> A \<Longrightarrow>
    lease_ends_differ (found s) \<Longrightarrow> my_call srv A s s'"
| reap: "FailNextExpiredWithEvent_my srv now eid s = (rt, s') \<Longrightarrow> kept_time srv now \<Longrightarrow> eid \<in> A \<Longrightarrow>
    lease_ends_differ (found s) \<Longrightarrow> my_call srv A s s'"
| cancel: "CancelTaskWithEvent_my srv tid eid now s = (ra, s') \<Longrightarrow> kept_time srv now \<Longrightarrow> eid \<in> A \<Longrightarrow>
    tid \<in> A \<Longrightarrow> my_call srv A s s'"
| renew: "RenewLease_my srv o2 s = (ru, s') \<Longrightarrow> TaskID_rl o2 \<in> A \<Longrightarrow> WorkerID_rl o2 \<in> A \<Longrightarrow>
    kept_time srv (Now_rl o2) \<Longrightarrow> kept_time srv (Add_time (Now_rl o2) (LeaseDuration_rl o2)) \<Longrightarrow> my_call srv A s s'"
| update: "UpdateTaskWithEvent_my srv (Some t) (Some ev) s = (ru, s') \<Longrightarrow> worker_edit t0 t ev \<Longrightarrow>
    kept_times srv t \<Longrightarrow> ID t \<in> A \<Longrightarrow> (LeaseOwner t \<noteq> [] \<longrightarrow> LeaseOwner t \<in> A) \<Longrightarrow> storable_event srv A ev \<Longrightarrow>
    (\<And>r. r \<in> set (task_rows (found s)) \<Longrightarrow> id_c r = ID t \<Longrightarrow> version_c r = Version t \<Longrightarrow> same_claim t0 (scanTask r)) \<Longrightarrow>
    my_call srv A s s'"

text \<open>Steps of the others, at most one step of the call, and steps of the others again.\<close>

definition one_step_among :: "mysql_server \<Rightarrow> string set \<Rightarrow> tables \<Rightarrow> tables \<Rightarrow> bool" where
  "one_step_among srv A d d' \<longleftrightarrow>
     (\<exists>d1 d2. (my_step srv A)\<^sup>*\<^sup>* d d1 \<and> (my_step srv A)\<^sup>=\<^sup>= d1 d2 \<and> (my_step srv A)\<^sup>*\<^sup>* d2 d')"

lemma one_step_idle: "one_step_among srv A d d"
  unfolding one_step_among_def by blast

lemma one_step_settled:
  "others_run srv A s \<Longrightarrow> my_step srv A (found s) d' \<Longrightarrow> one_step_among srv A (tables_se s) d'"
  unfolding one_step_among_def using found_steps by blast

text \<open>The read of an idempotent replay.\<close>

lemma resolve_found: "resolveIdempotentReplay srv t s = (r, s') \<Longrightarrow> tables_se s' = found s"
  by (auto simp: resolveIdempotentReplay_def getByWorkflowAndIdempotencyKey_def query_task_def bind_def statement_def Let_def
      getTaskByWorkflowAndIdempotencyKeyQuery_def one_row_def op_defs sql_fail_def found_def
      dest: next_arrival_same split: prod.splits sum.splits option.splits if_splits)

lemma create_among_others:
  assumes run: "CreateTaskWithEvent_my srv (Some t) (Some ev) s = (rc, s')" and new: "new_task t ev"
    "storable srv A t" "LastHeartbeatAt t = None" "storable_event srv A ev" and o: "others_run srv A s"
  shows "one_step_among srv A (tables_se s) (tables_se s')"
proof -
  let ?body = "attempt (insertTask srv ExecTx (Some t)) (\<lambda>r.
             case r of
               Inl e \<Rightarrow>
                 if errors_Is e ErrIdempotencyKeyAlreadyExists then ret (Rollback False) else raise e
             | Inr _ \<Rightarrow> bind (insertEvent srv ExecTx (Some ev)) (\<lambda>_. ret (Commit True)))"
  let ?tx = "in_tx srv ''begin task creation transaction: ''
          (\<lambda>_. ''commit task '' @ quoted_id srv (ID t) @ '' creation: '') ?body"
  let ?rest = "\<lambda>created. if created then ret \<lparr>Task_cr = Some t, Created_cr = True\<rparr>
          else bind (resolveIdempotentReplay srv t) (\<lambda>existing. ret \<lparr>Task_cr = Some existing, Created_cr = False\<rparr>)"
  have tid: "TaskID_ev ev = ID t" using new(1) by (simp add: new_task_def)
  have create: "CreateTaskWithEvent_my srv (Some t) (Some ev) = bind ?tx ?rest"
    using tid by (simp add: CreateTaskWithEvent_my_def)
  have sh: "sheltered ?body" by (auto split: sum.split intro!: sheltered_intros)
  obtain c s1 where tx: "?tx s = (c, s1)" by force
  show ?thesis
  proof (cases "c = Inr False")
    case False
    then have "CreateTaskWithEvent_my srv (Some t) (Some ev) (settled s) = (rc, calm s')"
      using run tx in_tx_settled [OF sh, of srv "''begin task creation transaction: ''"
          "\<lambda>_. ''commit task '' @ quoted_id srv (ID t) @ '' creation: ''" s] unfolding create bind_def
      by (auto simp: ret_def split: sum.splits)
    from my_step.create [OF this settled_alone [OF o] new] show ?thesis by (intro one_step_settled [OF o]) simp
  next
    case True
    have "tables_se s1 = found s"
      using tx True by (auto simp: in_tx_def found_def Let_def attempt_def bind_def op_defs
          dest: next_arrival_same split: prod.splits option.splits sum.splits tx_end.splits if_splits)
    moreover have "consumes ?body"
      unfolding insertTask_def insertEvent_def Let_def
      by (auto split: option.split sum.split sql_error.split intro!: consumes_basic consumes_bind consumes_attempt consumes_statement)
    from consumes_in_tx [OF this tx] o have o1: "others_run srv A s1" by (auto simp: others_run_def)
    moreover have "tables_se s' = found s1"
      using run tx True unfolding create bind_def
      by (auto simp: ret_def dest!: resolve_found split: prod.splits sum.splits)
    ultimately show ?thesis using found_steps [OF o] found_steps [OF o1] unfolding one_step_among_def by auto
  qed
qed

theorem call_among_others:
  assumes "my_call srv A s s'" "others_run srv A s"
  shows "one_step_among srv A (tables_se s) (tables_se s')"
  using assms
proof (induction rule: my_call.induct)
  case (create t ev s rc s')
  from create_among_others [OF this] show ?case .
next
  case (claim o1 eid s rt s')
  from settled_run [OF settles_calls(1) claim(1)] show ?case
    using one_step_idle one_step_settled [OF claim(5)]
      my_step.claim [OF _ settled_alone [OF claim(5)] claim(2,3), of rt "calm s'"] claim(4) by auto
next
  case (reap now eid s rt s')
  from settled_run [OF settles_calls(2) reap(1)] show ?case
    using one_step_idle one_step_settled [OF reap(5)]
      my_step.reap [OF _ settled_alone [OF reap(5)] reap(2,3), of rt "calm s'"] reap(4) by auto
next
  case (cancel tid eid now s ra s')
  from settled_run [OF settles_calls(4) cancel(1)] show ?case
    using one_step_idle one_step_settled [OF cancel(5)]
      my_step.cancel [OF _ settled_alone [OF cancel(5)] cancel(2-4), of ra "calm s'"] by auto
next
  case (renew o2 s ru s')
  from settled_run [OF settles_RenewLease renew(1)] show ?case
    using one_step_idle one_step_settled [OF renew(6)]
      my_step.renew [OF _ settled_alone [OF renew(6)] renew(2-5), of ru "calm s'"] by auto
next
  case (update t ev s ru s' t0)
  from settled_run [OF settles_calls(3) update(1)] show ?case
    using one_step_idle one_step_settled [OF update(8)]
      my_step.update [OF _ settled_alone [OF update(8)] update(2-6), of ru "calm s'"] update(7) by auto
qed

section \<open>In the terms of the memory stores\<close>

lemma my_steps_simulated:
  assumes "(my_step srv A)\<^sup>*\<^sup>* d d'" "represents srv A d m" "server_ok srv A"
  shows "\<exists>m'. store_step\<^sup>*\<^sup>* m m' \<and> represents srv A d' m'"
  using assms(1,2)
proof (induction rule: rtranclp_induct)
  case (step d1 d2)
  from step(3) [OF step(4)] obtain m1 where m1: "store_step\<^sup>*\<^sup>* m m1" "represents srv A d1 m1" by blast
  from my_step_simulated [OF step(2) m1(2) assms(3)] obtain m2 where "store_step\<^sup>=\<^sup>= m1 m2" "represents srv A d2 m2" by blast
  with m1(1) show ?case by (auto intro: rtranclp.rtrancl_into_rtrancl)
qed blast

text \<open>What every row tells, whichever state of the memory stores the tables hold.\<close>

definition rows_told :: "tables \<Rightarrow> bool" where
  "rows_told d \<longleftrightarrow>
     (\<forall>r \<in> set (task_rows d).
        of_nat (length (filter (\<lambda>e. task_id_e e = id_c r) (event_rows d))) = version_c r + 1 \<and>
        (status_c r = ''running'' \<longleftrightarrow> lease_owner_c r \<noteq> None) \<and>
        (status_c r = ''running'' \<longleftrightarrow> lease_expires_at_c r \<noteq> None) \<and> retry_count_c r \<le> max_retries_c r)"

lemma represents_rows:
  assumes "represents srv A d m"
  shows "rows_told d"
  unfolding rows_told_def
proof
  fix r assume "r \<in> set (task_rows d)"
  with assms obtain k t where t: "(k, t) \<in> set (tasks (taskStore m))" "r = row_of srv t" "k = ID t"
    and dist: "distinct (map fst (tasks (taskStore m)))" and wf: "stores_wf m"
    by (auto simp: represents_def holds_tasks_def)
  from assms obtain evs where evs: "event_rows d = map (event_row_of srv) evs"
    "\<And>tid. filter (\<lambda>ev. TaskID_ev ev = tid) evs = stored_events m tid"
    by (auto simp: represents_def holds_events_def)
  have st: "stored_task m k = Some t" using t(1) dist by simp
  note w = stores_wf_lookup [OF wf st]
  have "length (filter (\<lambda>e. task_id_e e = id_c r) (event_rows d)) = length (stored_events m k)"
    using evs(2) [of k] t(2,3) by (simp add: evs(1) filter_map comp_def event_row_of_def row_of_def)
  then have "of_nat (length (filter (\<lambda>e. task_id_e e = id_c r) (event_rows d))) = version_c r + 1"
    using w(3) t(2) by (simp add: log_matches_def row_of_def)
  moreover have "status_text (Status t) = ''running'' \<longleftrightarrow> Status t = TaskStatusRunning"
    using w(2) by (cases "Status t") (auto simp: task_wf_def)
  ultimately show "of_nat (length (filter (\<lambda>e. task_id_e e = id_c r) (event_rows d))) = version_c r + 1 \<and>
        (status_c r = ''running'' \<longleftrightarrow> lease_owner_c r \<noteq> None) \<and>
        (status_c r = ''running'' \<longleftrightarrow> lease_expires_at_c r \<noteq> None) \<and> retry_count_c r \<le> max_retries_c r"
    using w(2) t(2) by (auto simp: task_wf_def row_of_def nullableString_def)
qed

theorem calls_simulated:
  assumes "my_call srv A s s'" "others_run srv A s" "server_ok srv A" "represents srv A (tables_se s) m"
  shows "\<exists>m1 m2 m3. store_step\<^sup>*\<^sup>* m m1 \<and> store_step\<^sup>=\<^sup>= m1 m2 \<and> store_step\<^sup>*\<^sup>* m2 m3 \<and> represents srv A (tables_se s') m3"
proof -
  from call_among_others [OF assms(1,2)] obtain d1 d2 where d: "(my_step srv A)\<^sup>*\<^sup>* (tables_se s) d1"
    "(my_step srv A)\<^sup>=\<^sup>= d1 d2" "(my_step srv A)\<^sup>*\<^sup>* d2 (tables_se s')" unfolding one_step_among_def by blast
  from my_steps_simulated [OF d(1) assms(4,3)] obtain m1 where m1: "store_step\<^sup>*\<^sup>* m m1" "represents srv A d1 m1" by blast
  from d(2) my_step_simulated [OF _ m1(2) assms(3)] m1(2) obtain m2 where m2: "store_step\<^sup>=\<^sup>= m1 m2" "represents srv A d2 m2"
    by auto
  from my_steps_simulated [OF d(3) m2(2) assms(3)] m1(1) m2(1) show ?thesis by blast
qed

end
