(* ===== verification/MySqlBusy.thy ===== *)
theory MySqlBusy
  imports MySqlSamples MySqlConcurrency
begin

text \<open>A call that finds the work of another client: the task was claimed before its transaction began.\<close>

definition claimed_tables :: tables where
  "claimed_tables = tables_se (snd (ClaimNextWithEvent_my sample_server mysql_claim ''event_2'' (start_session queued_tables)))"

definition busy_session :: session where
  "busy_session = \<lparr>tables_se = queued_tables,
     arrivals_se = [quiet\<lparr>others_ar := (\<lambda>d. if d = queued_tables then claimed_tables else d)\<rparr>], locked_se = (\<lambda>_. False)\<rparr>"

lemma claimed_step: "my_step sample_server plain_texts queued_tables claimed_tables"
  using my_step.claim [where s = "start_session queued_tables", OF surjective_pairing alone_start mysql_options(1,2)] mysql_options(4)
  by (simp add: claimed_tables_def)

lemma busy_others: "others_run sample_server plain_texts busy_session"
  using claimed_step by (auto simp: others_run_def busy_session_def quiet_def)

lemma busy_call:
  "my_call sample_server plain_texts busy_session (snd (CancelTaskWithEvent_my sample_server ''task_1'' ''event_3'' 3000000000 busy_session))"
  by (rule my_call.cancel [OF surjective_pairing]) (simp_all add: kept_time_def plain_texts_def, code_simp+)

lemma busy_represents: "represents sample_server plain_texts (tables_se busy_session) mysql_stores"
  using queued_represents by (simp add: busy_session_def)

lemma busy_found: "map status_c (task_rows (found busy_session)) = [''running'']"
proof -
  let ?mem = "ClaimNextWithEvent (\<lambda>m. m) (\<lambda>m. m) None mysql_claim ''event_2'' mysql_stores"
  have answer: "fst (ClaimNextWithEvent_my sample_server mysql_claim ''event_2'' (start_session queued_tables)) =
      Inr (as_read sample_server running_task)"
    using claim_my_answers [OF queued_represents sample_server_ok queued_typed mysql_options(1,2,4) mysql_claim_fits]
    by (simp add: mysql_memory_claim)
  have "simulated sample_server plain_texts (as_read sample_server) queued_tables
      (ClaimNextWithEvent_my sample_server mysql_claim ''event_2'' (start_session queued_tables)) ?mem"
    using claim_my_sim [where s = "start_session queued_tables", OF _ sample_server_ok alone_start mysql_options(1,2) _ surjective_pairing]
      queued_represents mysql_options(4) by simp
  with answer have rep: "represents sample_server plain_texts claimed_tables (snd ?mem)"
    by (auto simp: simulated_def claimed_tables_def)
  have "MoveTo (Some mysql_task) TaskStatusRunning (Now_co mysql_claim) =
      Inr (enter_status TaskStatusRunning (Now_co mysql_claim) (mysql_task\<lparr>Status := TaskStatusRunning, UpdatedAt := Now_co mysql_claim\<rparr>))"
    by code_simp
  then have "claimNextLocked (\<lambda>m. m) (\<lambda>m. m) mysql_claim (taskStore mysql_stores) =
      (Inr (running_task, mysql_task, ClaimInitial), put_task ''task_1'' running_task (taskStore mysql_stores))"
    by (simp add: claimNextLocked_def mysql_select running_task_def claimed_def)
  moreover have "NewTaskClaimedEvent ''event_2'' (Some running_task) ClaimInitial (Now_co mysql_claim) = Inr claim_event"
    using claim_event_new by (simp add: mysql_claim_def)
  ultimately have "tasks (taskStore (snd ?mem)) = [(''task_1'', running_task)]"
    by (simp add: ClaimNextWithEvent_def mysql_options mysql_stores_eq put_task_def)
  with rep have "task_rows claimed_tables = [row_of sample_server running_task]"
    by (simp add: represents_def holds_tasks_def)
  then show ?thesis by (simp add: found_def busy_session_def next_arrival_def running_row)
qed

end
