(* ===== verification/Observability.thy ===== *)
theory Observability
  imports StoreInterface GoDuration Quote Query
begin

text \<open>
  \<open>internal/observability/metrics.go\<close>: the counters and the histogram that the recorders of the
  services and workers feed, and the text of the endpoint \<open>/metrics\<close>.  A duration is observed in
  seconds, as a double; \<open>None\<close> stands for an infinity, which no sum of durations reaches.
\<close>

section \<open>Doubles\<close>

type_synonym float64 = "f64 option"

fun f64_ratio :: "f64 \<Rightarrow> int \<times> int" where
  "f64_ratio (F64 neg m e) = (case f64_fraction (F64 neg m e) of (n, d) \<Rightarrow> (if neg then - int n else int n, int d))"

text \<open>The double nearest to \<open>num / den\<close>.\<close>

definition round_ratio :: "int \<Rightarrow> int \<Rightarrow> float64" where
  "round_ratio num den =
     (if num = 0 then Some (F64 False 0 0) else round_f64 (num < 0) (nat \<bar>num\<bar>) (nat den))"

definition f64_of_int :: "int \<Rightarrow> float64" where
  "f64_of_int i = round_ratio i 1"

definition f64_add :: "float64 \<Rightarrow> float64 \<Rightarrow> float64" where
  "f64_add x y =
     (case (x, y) of
        (Some a, Some b) \<Rightarrow> (case (f64_ratio a, f64_ratio b) of ((n, d), (n', d')) \<Rightarrow> round_ratio (n * d' + n' * d) (d * d'))
      | _ \<Rightarrow> None)"

definition f64_over :: "float64 \<Rightarrow> int \<Rightarrow> float64" where
  "f64_over x k = (case x of None \<Rightarrow> None | Some a \<Rightarrow> (case f64_ratio a of (n, d) \<Rightarrow> round_ratio n (d * k)))"

definition f64_le :: "float64 \<Rightarrow> float64 \<Rightarrow> bool" where
  "f64_le x y =
     (case (x, y) of
        (Some a, Some b) \<Rightarrow> (case (f64_ratio a, f64_ratio b) of ((n, d), (n', d')) \<Rightarrow> n * d' \<le> n' * d)
      | (_, None) \<Rightarrow> True
      | _ \<Rightarrow> False)"

text \<open>\<open>Duration.Seconds\<close>.\<close>

definition Seconds_f64 :: "duration \<Rightarrow> float64" where
  "Seconds_f64 d = f64_add (f64_of_int (go_div d Second)) (f64_over (f64_of_int (d - go_div d Second * Second)) Second)"

text \<open>
  The verb \<open>%g\<close>: the shortest decimal that is read back as the double (17 digits are always
  enough), in positional notation when its exponent is at least \<open>-4\<close> and less than 6.
\<close>

definition decimal_point :: "nat \<Rightarrow> nat \<Rightarrow> int" where
  "decimal_point n d =
     (let k = int (length (show_nat n)) - int (length (show_nat d)) in
      if (if k \<ge> 0 then n \<ge> d * 10 ^ nat k else n * 10 ^ nat (- k) \<ge> d) then k + 1 else k)"

definition digits_of :: "nat \<Rightarrow> nat \<Rightarrow> nat \<Rightarrow> nat \<times> int" where
  "digits_of k n d =
     (let dp = decimal_point n d; s = int k - dp;
          q = (if s \<ge> 0 then round_even (n * 10 ^ nat s) d else round_even n (d * 10 ^ nat (- s)))
      in if q = 10 ^ k then (10 ^ (k - 1), dp + 1) else (q, dp))"

definition reads_as :: "f64 \<Rightarrow> nat \<Rightarrow> nat \<times> int \<Rightarrow> bool" where
  "reads_as x k qp =
     (case (x, qp) of (F64 neg m e, (q, dp)) \<Rightarrow>
        (if dp \<ge> int k then round_f64 neg (q * 10 ^ nat (dp - int k)) 1 else round_f64 neg q (10 ^ nat (int k - dp))) = Some x)"

definition shortest :: "f64 \<Rightarrow> string \<times> int" where
  "shortest x =
     (case f64_fraction x of (n, d) \<Rightarrow>
        (case find (\<lambda>k. reads_as x k (digits_of k n d)) [1..<17] of
           Some k \<Rightarrow> (show_nat (fst (digits_of k n d)), snd (digits_of k n d))
         | None \<Rightarrow> (show_nat (fst (digits_of 17 n d)), snd (digits_of 17 n d))))"

definition format_e :: "string \<Rightarrow> int \<Rightarrow> string" where
  "format_e ds x =
     take 1 ds @ (if drop 1 ds = [] then [] else ''.'' @ drop 1 ds) @ ''e'' @ (if x < 0 then ''-'' else ''+'') @
     (let s = show_nat (nat \<bar>x\<bar>) in replicate (2 - length s) (CHR ''0'') @ s)"

definition format_f :: "string \<Rightarrow> int \<Rightarrow> string" where
  "format_f ds dp =
     (if dp \<le> 0 then ''0.'' @ replicate (nat (- dp)) (CHR ''0'') @ ds
      else if length ds \<le> nat dp then ds @ replicate (nat dp - length ds) (CHR ''0'')
      else take (nat dp) ds @ ''.'' @ drop (nat dp) ds)"

definition format_g :: "float64 \<Rightarrow> string" where
  "format_g x =
     (case x of
        None \<Rightarrow> ''+Inf''
      | Some (F64 neg m e) \<Rightarrow>
          if m = 0 then ''0''
          else (case shortest (F64 neg m e) of (ds, dp) \<Rightarrow>
            (if neg then ''-'' else []) @ (if dp - 1 < - 4 \<or> dp - 1 \<ge> 6 then format_e ds (dp - 1) else format_f ds dp)))"

section \<open>Counters\<close>

definition defaultDurationBuckets :: "float64 list" where
  "defaultDurationBuckets =
     map f64_of_literal [''0.01'', ''0.05'', ''0.1'', ''0.25'', ''0.5'', ''1'', ''2.5'', ''5'', ''10'', ''30'']"

definition taskStatuses :: "TaskStatus list" where
  "taskStatuses = [TaskStatusQueued, TaskStatusRunning, TaskStatusRetrying, TaskStatusSucceeded,
     TaskStatusPartial, TaskStatusFailed, TaskStatusCanceled]"

type_synonym completionKey = "string \<times> TaskStatus"
type_synonym retryKey = "string \<times> string"

record histogram =
  buckets :: "uint64 list"
  sum_hg :: float64
  count_hg :: uint64

record Metrics =
  claimAttempts :: "(string, uint64) gomap"
  claimMisses :: "(string, uint64) gomap"
  tasksClaimed :: "(string, uint64) gomap"
  tasksReleased :: "(string, uint64) gomap"
  tasksCompleted :: "(completionKey, uint64) gomap"
  tasksRetried :: "(retryKey, uint64) gomap"
  leaseRenewed :: "(string, uint64) gomap"
  leaseLost :: "(string, uint64) gomap"
  reaperExpired :: "(string, uint64) gomap"
  executionHist :: "(string, histogram) gomap"
  durationBuckets :: "float64 list"

definition NewMetrics :: Metrics where
  "NewMetrics = \<lparr>claimAttempts = [], claimMisses = [], tasksClaimed = [], tasksReleased = [], tasksCompleted = [],
     tasksRetried = [], leaseRenewed = [], leaseLost = [], reaperExpired = [], executionHist = [],
     durationBuckets = defaultDurationBuckets\<rparr>"

text \<open>Reading a map of counters, and \<open>m[key]++\<close>.\<close>

definition counter :: "('k, uint64) gomap \<Rightarrow> 'k \<Rightarrow> uint64" where
  "counter m k = (case map_of m k of None \<Rightarrow> 0 | Some n \<Rightarrow> n)"

definition bump :: "'k \<Rightarrow> ('k, uint64) gomap \<Rightarrow> ('k, uint64) gomap" where
  "bump k m = AList.update k (counter m k + 1) m"

definition normalizeWorkflow :: "string \<Rightarrow> string" where
  "normalizeWorkflow workflow = (if workflow = [] then ''all'' else workflow)"

text \<open>The loop over the bounds: the first bucket that takes the value is raised.\<close>

fun raise_bucket :: "float64 \<Rightarrow> float64 list \<Rightarrow> uint64 list \<Rightarrow> uint64 list" where
  "raise_bucket seconds (b # bs) (n # ns) = (if f64_le seconds b then (n + 1) # ns else n # raise_bucket seconds bs ns)"
| "raise_bucket seconds _ ns = ns"

definition observeExecutionDurationLocked :: "string \<Rightarrow> duration \<Rightarrow> Metrics \<Rightarrow> Metrics" where
  "observeExecutionDurationLocked workflow d m =
     (let seconds = Seconds_f64 d;
          hist = (case map_of (executionHist m) workflow of
             Some h \<Rightarrow> h
           | None \<Rightarrow> \<lparr>buckets = replicate (length (durationBuckets m)) 0, sum_hg = Some (F64 False 0 0), count_hg = 0\<rparr>)
      in m\<lparr>executionHist := AList.update workflow
            \<lparr>buckets = raise_bucket seconds (durationBuckets m) (buckets hist),
             sum_hg = f64_add (sum_hg hist) seconds, count_hg = count_hg hist + 1\<rparr> (executionHist m)\<rparr>)"

text \<open>The methods of \<open>Metrics\<close> that the recorders call.\<close>

fun record_call :: "metric_call \<Rightarrow> Metrics \<Rightarrow> Metrics" where
  "record_call (RecordClaimAttempt w) m = m\<lparr>claimAttempts := bump (normalizeWorkflow w) (claimAttempts m)\<rparr>"
| "record_call (RecordClaimMiss w) m = m\<lparr>claimMisses := bump (normalizeWorkflow w) (claimMisses m)\<rparr>"
| "record_call (RecordTaskClaimed w) m = m\<lparr>tasksClaimed := bump w (tasksClaimed m)\<rparr>"
| "record_call (RecordTaskReleased w) m = m\<lparr>tasksReleased := bump w (tasksReleased m)\<rparr>"
| "record_call (RecordTaskCompleted w st d) m =
     observeExecutionDurationLocked w d (m\<lparr>tasksCompleted := bump (w, st) (tasksCompleted m)\<rparr>)"
| "record_call (RecordTaskRetried w code) m = m\<lparr>tasksRetried := bump (w, code) (tasksRetried m)\<rparr>"
| "record_call (RecordLeaseRenewed w) m = m\<lparr>leaseRenewed := bump w (leaseRenewed m)\<rparr>"
| "record_call (RecordLeaseLost w) m = m\<lparr>leaseLost := bump w (leaseLost m)\<rparr>"
| "record_call (RecordReaperExpiredFailure w) m = m\<lparr>reaperExpired := bump w (reaperExpired m)\<rparr>"

section \<open>The text of the endpoint\<close>

text \<open>
  \<open>isPrint\<close> stands for \<open>strconv.IsPrint\<close> outside ASCII.  The keys of a map come in the order of its
  association list, which stands for the unknown order of a Go map.
\<close>

definition writeHelp :: "string \<Rightarrow> string \<Rightarrow> string" where
  "writeHelp name help = ''# HELP '' @ name @ '' '' @ help @ [CHR 0x0A]"

definition writeType :: "string \<Rightarrow> string \<Rightarrow> string" where
  "writeType name metricType = ''# TYPE '' @ name @ '' '' @ metricType @ [CHR 0x0A]"

definition sortedStringKeys :: "(string, 'v) gomap \<Rightarrow> string list" where
  "sortedStringKeys values = sort (map fst values)"

definition sortedCompletionKeys :: "(completionKey, uint64) gomap \<Rightarrow> completionKey list" where
  "sortedCompletionKeys values = sort_key (\<lambda>(w, st). w @ CHR 0x00 # status_text st) (map fst values)"

definition sortedRetryKeys :: "(retryKey, uint64) gomap \<Rightarrow> retryKey list" where
  "sortedRetryKeys values = sort_key (\<lambda>(w, code). w @ CHR 0x00 # code) (map fst values)"

text \<open>\<open>formatBucket\<close>: two decimals, without trailing zeros and point.\<close>

definition trim_right :: "char \<Rightarrow> string \<Rightarrow> string" where
  "trim_right c s = rev (dropWhile (\<lambda>x. x = c) (rev s))"

definition two_decimals :: "float64 \<Rightarrow> string" where
  "two_decimals x =
     (case x of
        None \<Rightarrow> ''+Inf''
      | Some a \<Rightarrow>
          (case f64_ratio a of (n, d) \<Rightarrow>
             let q = round_even (100 * nat \<bar>n\<bar>) (nat d) in
             (if n < 0 then ''-'' else []) @ show_nat (q div 100) @ ''.'' @ show_nat (q mod 100 div 10) @ show_nat (q mod 10)))"

definition formatBucket :: "float64 \<Rightarrow> string" where
  "formatBucket bucket = trim_right (CHR ''.'') (trim_right (CHR ''0'') (two_decimals bucket))"

text \<open>A sample line: the name, labels with quoted values, and the value.\<close>

definition label :: "(nat \<Rightarrow> bool) \<Rightarrow> string \<Rightarrow> string \<Rightarrow> string" where
  "label isPrint name v = name @ ''='' @ Quote isPrint v"

definition sample_line :: "string \<Rightarrow> string list \<Rightarrow> string \<Rightarrow> string" where
  "sample_line name labels v =
     name @ ''{'' @ concat (case labels of [] \<Rightarrow> [] | l # ls \<Rightarrow> l # map (\<lambda>x. CHR '','' # x) ls) @ ''} '' @ v @ [CHR 0x0A]"

definition show_uint64 :: "uint64 \<Rightarrow> string" where
  "show_uint64 n = show_nat (unat n)"

definition write_counters ::
  "(nat \<Rightarrow> bool) \<Rightarrow> string \<Rightarrow> string \<Rightarrow> (string, uint64) gomap \<Rightarrow> string" where
  "write_counters isPrint name help m =
     writeHelp name help @ writeType name ''counter'' @
     concat (map (\<lambda>w. sample_line name [label isPrint ''workflow'' w] (show_uint64 (counter m w))) (sortedStringKeys m))"

text \<open>The cumulative counts of the buckets.\<close>

fun cumulate :: "uint64 \<Rightarrow> uint64 list \<Rightarrow> uint64 list" where
  "cumulate c [] = []"
| "cumulate c (n # ns) = (c + n) # cumulate (c + n) ns"

definition write_histogram :: "(nat \<Rightarrow> bool) \<Rightarrow> float64 list \<Rightarrow> string \<Rightarrow> histogram \<Rightarrow> string" where
  "write_histogram isPrint bounds w hist =
     (let name = ''taskpulse_task_execution_duration_seconds'' in
      concat (map2 (\<lambda>b n. sample_line (name @ ''_bucket'') [label isPrint ''workflow'' w, label isPrint ''le'' (formatBucket b)]
        (show_uint64 n)) bounds (cumulate 0 (buckets hist))) @
      sample_line (name @ ''_bucket'') [label isPrint ''workflow'' w, label isPrint ''le'' ''+Inf''] (show_uint64 (count_hg hist)) @
      sample_line (name @ ''_sum'') [label isPrint ''workflow'' w] (format_g (sum_hg hist)) @
      sample_line (name @ ''_count'') [label isPrint ''workflow'' w] (show_uint64 (count_hg hist)))"

definition writeTaskStats :: "(nat \<Rightarrow> bool) \<Rightarrow> TaskStatsSnapshot \<Rightarrow> string" where
  "writeTaskStats isPrint snapshot =
     (let status = (\<lambda>st. label isPrint ''status'' (status_text st));
          count0 = (\<lambda>m st. show_int (case m st of None \<Rightarrow> 0 | Some n \<Rightarrow> n));
          open = [TaskStatusQueued, TaskStatusRetrying]
      in writeHelp ''taskpulse_tasks_current'' ''Current number of tasks by status.'' @
         writeType ''taskpulse_tasks_current'' ''gauge'' @
         concat (map (\<lambda>st. sample_line ''taskpulse_tasks_current'' [status st] (count0 (StatusCounts snapshot) st)) taskStatuses) @
         writeHelp ''taskpulse_tasks_available_current'' ''Current number of queued or retrying tasks available for claim.'' @
         writeType ''taskpulse_tasks_available_current'' ''gauge'' @
         concat (map (\<lambda>st. sample_line ''taskpulse_tasks_available_current'' [status st] (count0 (AvailableCounts snapshot) st)) open) @
         writeHelp ''taskpulse_oldest_available_task_age_seconds'' ''Age of the oldest queued or retrying task available for claim.'' @
         writeType ''taskpulse_oldest_available_task_age_seconds'' ''gauge'' @
         concat (map (\<lambda>st. sample_line ''taskpulse_oldest_available_task_age_seconds'' [status st]
           (format_g (Seconds_f64 (case OldestAvailableAge snapshot st of None \<Rightarrow> 0 | Some d \<Rightarrow> d)))) open))"

text \<open>The counters after the snapshot, in the order of \<open>ServeHTTP\<close>.\<close>

definition write_metrics :: "(nat \<Rightarrow> bool) \<Rightarrow> Metrics \<Rightarrow> string" where
  "write_metrics isPrint m =
     write_counters isPrint ''taskpulse_claim_attempts_total'' ''Total task claim attempts by requested workflow.'' (claimAttempts m) @
     write_counters isPrint ''taskpulse_claim_misses_total''
       ''Total task claim attempts with no available task by requested workflow.'' (claimMisses m) @
     write_counters isPrint ''taskpulse_tasks_claimed_total'' ''Total tasks claimed by workers.'' (tasksClaimed m) @
     write_counters isPrint ''taskpulse_tasks_released_total''
       ''Total running tasks returned to the queue by their Worker during graceful shutdown.'' (tasksReleased m) @
     writeHelp ''taskpulse_tasks_completed_total'' ''Total tasks completed by terminal status.'' @
     writeType ''taskpulse_tasks_completed_total'' ''counter'' @
     concat (map (\<lambda>k. sample_line ''taskpulse_tasks_completed_total''
         [label isPrint ''workflow'' (fst k), label isPrint ''status'' (status_text (snd k))] (show_uint64 (counter (tasksCompleted m) k)))
       (sortedCompletionKeys (tasksCompleted m))) @
     writeHelp ''taskpulse_tasks_retried_total'' ''Total tasks scheduled for retry.'' @
     writeType ''taskpulse_tasks_retried_total'' ''counter'' @
     concat (map (\<lambda>k. sample_line ''taskpulse_tasks_retried_total''
         [label isPrint ''workflow'' (fst k), label isPrint ''error_code'' (snd k)] (show_uint64 (counter (tasksRetried m) k)))
       (sortedRetryKeys (tasksRetried m))) @
     write_counters isPrint ''taskpulse_lease_renewed_total'' ''Total successful lease renewals.'' (leaseRenewed m) @
     write_counters isPrint ''taskpulse_lease_lost_total'' ''Total lease loss events observed by workers.'' (leaseLost m) @
     write_counters isPrint ''taskpulse_reaper_expired_failures_total'' ''Total expired tasks failed by the reaper.'' (reaperExpired m) @
     writeHelp ''taskpulse_task_execution_duration_seconds'' ''Task execution duration in seconds.'' @
     writeType ''taskpulse_task_execution_duration_seconds'' ''histogram'' @
     concat (map (\<lambda>w. case map_of (executionHist m) w of
         None \<Rightarrow> [] | Some hist \<Rightarrow> write_histogram isPrint (durationBuckets m) w hist)
       (sortedStringKeys (executionHist m)))"

text \<open>\<open>ServeHTTP\<close>: the status and the text; \<open>stats\<close> is the answer of the store of statistics, if there is one.\<close>

definition ServeHTTP :: "(nat \<Rightarrow> bool) \<Rightarrow> TaskStatsSnapshot result option \<Rightarrow> Metrics \<Rightarrow> nat \<times> string" where
  "ServeHTTP isPrint stats m =
     (case stats of
        None \<Rightarrow> (200, write_metrics isPrint m)
      | Some (Inl e) \<Rightarrow> (500, ''snapshot task stats: '' @ error_text e @ [CHR 0x0A])
      | Some (Inr snapshot) \<Rightarrow> (200, writeTaskStats isPrint snapshot @ write_metrics isPrint m))"

end
