(* ===== verification/ObservabilityFacts.thy ===== *)
theory ObservabilityFacts
  imports Observability
begin

text \<open>
  The counters count the calls of the recorders, modulo \<open>2 ^ 64\<close>; the cumulative buckets of the
  histogram count the durations up to their bounds; and the text of the endpoint does not depend
  on the order of the maps.
\<close>

section \<open>Counters\<close>

lemma counter_bump: "counter (bump k m) j = counter m j + (if j = k then 1 else 0)"
  by (simp add: counter_def bump_def update_conv')

lemma counter_Nil [simp]: "counter [] k = 0"
  by (simp add: counter_def)

definition times :: "('a \<Rightarrow> bool) \<Rightarrow> 'a list \<Rightarrow> uint64" where
  "times P cs = of_nat (length (filter P cs))"

lemma times_simps [simp]: "times P [] = 0" "times P (c # cs) = (if P c then 1 else 0) + times P cs"
  by (simp_all add: times_def)

lemma counted_calls:
  assumes "\<And>c m. I m \<Longrightarrow> I (record_call c m) \<and> val (record_call c m) = (val m :: uint64) + (if P c then 1 else 0)"
    and "I m"
  shows "val (fold record_call cs m) = val m + times P cs"
  using assms(2)
proof (induction cs arbitrary: m)
  case (Cons c cs)
  with assms(1) [of m c] show ?case by (simp add: ac_simps)
qed simp

lemma observe_counters [simp]:
  "claimAttempts (observeExecutionDurationLocked w d m) = claimAttempts m"
  "claimMisses (observeExecutionDurationLocked w d m) = claimMisses m"
  "tasksClaimed (observeExecutionDurationLocked w d m) = tasksClaimed m"
  "tasksReleased (observeExecutionDurationLocked w d m) = tasksReleased m"
  "tasksCompleted (observeExecutionDurationLocked w d m) = tasksCompleted m"
  "tasksRetried (observeExecutionDurationLocked w d m) = tasksRetried m"
  "leaseRenewed (observeExecutionDurationLocked w d m) = leaseRenewed m"
  "leaseLost (observeExecutionDurationLocked w d m) = leaseLost m"
  "reaperExpired (observeExecutionDurationLocked w d m) = reaperExpired m"
  "durationBuckets (observeExecutionDurationLocked w d m) = durationBuckets m"
  by (simp_all add: observeExecutionDurationLocked_def Let_def)

text \<open>A recorder is called for a workflow.\<close>

definition completion_in :: "string \<Rightarrow> (duration \<Rightarrow> bool) \<Rightarrow> metric_call \<Rightarrow> bool" where
  "completion_in w Q c \<longleftrightarrow> (\<exists>st d. c = RecordTaskCompleted w st d \<and> Q d)"

lemma counters_exact:
  fixes cs :: "metric_call list"
  defines "m \<equiv> fold record_call cs NewMetrics"
  shows "counter (claimAttempts m) w = times (\<lambda>c. \<exists>v. c = RecordClaimAttempt v \<and> normalizeWorkflow v = w) cs"
    and "counter (claimMisses m) w = times (\<lambda>c. \<exists>v. c = RecordClaimMiss v \<and> normalizeWorkflow v = w) cs"
    and "counter (tasksClaimed m) w = times (\<lambda>c. c = RecordTaskClaimed w) cs"
    and "counter (tasksReleased m) w = times (\<lambda>c. c = RecordTaskReleased w) cs"
    and "counter (tasksCompleted m) (w, st) = times (\<lambda>c. \<exists>d. c = RecordTaskCompleted w st d) cs"
    and "counter (tasksRetried m) (w, code) = times (\<lambda>c. c = RecordTaskRetried w code) cs"
    and "counter (leaseRenewed m) w = times (\<lambda>c. c = RecordLeaseRenewed w) cs"
    and "counter (leaseLost m) w = times (\<lambda>c. c = RecordLeaseLost w) cs"
    and "counter (reaperExpired m) w = times (\<lambda>c. c = RecordReaperExpiredFailure w) cs"
proof -
  note each = counted_calls [where I = "\<lambda>_. True" and m = NewMetrics and cs = cs]
  have step: "counter (claimAttempts (record_call c m)) w =
      counter (claimAttempts m) w + (if \<exists>v. c = RecordClaimAttempt v \<and> normalizeWorkflow v = w then 1 else 0)"
    "counter (claimMisses (record_call c m)) w =
      counter (claimMisses m) w + (if \<exists>v. c = RecordClaimMiss v \<and> normalizeWorkflow v = w then 1 else 0)"
    "counter (tasksClaimed (record_call c m)) w = counter (tasksClaimed m) w + (if c = RecordTaskClaimed w then 1 else 0)"
    "counter (tasksReleased (record_call c m)) w = counter (tasksReleased m) w + (if c = RecordTaskReleased w then 1 else 0)"
    "counter (tasksCompleted (record_call c m)) (w, st) =
      counter (tasksCompleted m) (w, st) + (if \<exists>d. c = RecordTaskCompleted w st d then 1 else 0)"
    "counter (tasksRetried (record_call c m)) (w, code) =
      counter (tasksRetried m) (w, code) + (if c = RecordTaskRetried w code then 1 else 0)"
    "counter (leaseRenewed (record_call c m)) w = counter (leaseRenewed m) w + (if c = RecordLeaseRenewed w then 1 else 0)"
    "counter (leaseLost (record_call c m)) w = counter (leaseLost m) w + (if c = RecordLeaseLost w then 1 else 0)"
    "counter (reaperExpired (record_call c m)) w = counter (reaperExpired m) w + (if c = RecordReaperExpiredFailure w then 1 else 0)"
    for c m by (cases c; auto simp: counter_bump)+
  show "counter (claimAttempts m) w = times (\<lambda>c. \<exists>v. c = RecordClaimAttempt v \<and> normalizeWorkflow v = w) cs"
    "counter (claimMisses m) w = times (\<lambda>c. \<exists>v. c = RecordClaimMiss v \<and> normalizeWorkflow v = w) cs"
    "counter (tasksClaimed m) w = times (\<lambda>c. c = RecordTaskClaimed w) cs"
    "counter (tasksReleased m) w = times (\<lambda>c. c = RecordTaskReleased w) cs"
    "counter (tasksCompleted m) (w, st) = times (\<lambda>c. \<exists>d. c = RecordTaskCompleted w st d) cs"
    "counter (tasksRetried m) (w, code) = times (\<lambda>c. c = RecordTaskRetried w code) cs"
    "counter (leaseRenewed m) w = times (\<lambda>c. c = RecordLeaseRenewed w) cs"
    "counter (leaseLost m) w = times (\<lambda>c. c = RecordLeaseLost w) cs"
    "counter (reaperExpired m) w = times (\<lambda>c. c = RecordReaperExpiredFailure w) cs"
    unfolding m_def using step [THEN each [OF conjI [OF TrueI]]] by (simp_all add: NewMetrics_def)
qed

section \<open>The histogram\<close>

lemma f64_ratio_pos: "f64_ratio x = (n, d) \<Longrightarrow> 0 < d"
  by (cases x) (auto split: if_splits)

lemma f64_le_trans: "f64_le x y \<Longrightarrow> f64_le y z \<Longrightarrow> f64_le x z"
proof (cases x; cases y; cases z)
  fix a b c assume xyz: "x = Some a" "y = Some b" "z = Some c" and le: "f64_le x y" "f64_le y z"
  obtain n d n' d' n'' d'' where r: "f64_ratio a = (n, d)" "f64_ratio b = (n', d')" "f64_ratio c = (n'', d'')"
    by (metis surj_pair)
  note p = f64_ratio_pos [OF r(1)] f64_ratio_pos [OF r(2)] f64_ratio_pos [OF r(3)]
  from xyz r le have "n * d' \<le> n' * d" "n' * d'' \<le> n'' * d'" by (simp_all add: f64_le_def)
  then have "n * d' * d'' \<le> n' * d * d''" "n' * d'' * d \<le> n'' * d' * d" using p by (simp_all add: mult_right_mono)
  then have "(n * d'') * d' \<le> (n'' * d) * d'" by (simp add: ac_simps)
  then show "f64_le x z" using p xyz r by (simp add: f64_le_def)
qed (auto simp: f64_le_def)

lemma raise_bucket_length [simp]: "length (raise_bucket s bs ns) = length ns"
  by (induction s bs ns rule: raise_bucket.induct) auto

lemma cumulate_add: "i < length ns \<Longrightarrow> cumulate (c + k) ns ! i = cumulate c ns ! i + k"
proof (induction ns arbitrary: c i)
  case (Cons n ns)
  have "c + k + n = c + n + k" by simp
  note e = this
  from Cons show ?case by (cases i) (simp_all add: e)
qed simp

lemma cumulate_raise:
  assumes "length ns = length bs" "i < length bs" "sorted_wrt f64_le bs"
  shows "cumulate c (raise_bucket s bs ns) ! i = cumulate c ns ! i + (if f64_le s (bs ! i) then 1 else 0)"
  using assms
proof (induction s bs ns arbitrary: c i rule: raise_bucket.induct)
  case (1 s b bs n ns)
  show ?case
  proof (cases "f64_le s b")
    case True
    have "f64_le s ((b # bs) ! i)"
      using True 1(4) 1(3) f64_le_trans by (cases i) (auto simp: nth_mem)
    then show ?thesis
      using True 1(2,3) cumulate_add [of _ ns "c + n" 1] by (cases i) (auto simp: ac_simps)
  next
    case False
    then show ?thesis using 1 by (cases i) auto
  qed
qed auto

lemma bounds_bits:
  "nat_bits 1 = 1" "nat_bits (Suc 0) = 1" "nat_bits 5 = 3" "nat_bits 10 = 4" "nat_bits 25 = 5" "nat_bits 30 = 5" "nat_bits 100 = 7"
  by (simp_all add: nat_bits.simps)

lemma round_f64_eval:
  assumes "k = nat_bits den + 53 - nat_bits num" "nat_bits num < nat_bits den + 53" "k < 1000"
    and "j = (if den * 2 ^ 53 \<le> num * 2 ^ k then k - 1 else k)" "0 < j"
    and "m = round_even (num * 2 ^ j) den" "m \<noteq> 2 ^ 53" "m \<noteq> 0"
  shows "round_f64 neg num den = Some (F64 neg m (- int j))"
proof -
  have e0: "int (nat_bits num) - int (nat_bits den) - 53 = - int k" "\<not> 0 \<le> - int k" using assms(1,2) by auto
  have e: "max (- 1074) (if den * 2 ^ 53 \<le> num * 2 ^ k then - int k + 1 else - int k) = - int j" "\<not> 0 \<le> - int j"
    using assms(3,4,5) by (auto simp: of_nat_diff)
  show ?thesis
    unfolding round_f64_def Let_def e0(1) using e0(2) e assms(6-8) by simp
qed

lemma bounds_rounded:
  "round_f64 False 1 100 = Some (F64 False 5764607523034235 (- int 59))"
  "round_f64 False 5 100 = Some (F64 False 7205759403792794 (- int 57))"
  "round_f64 False 1 10 = Some (F64 False 7205759403792794 (- int 56))"
  "round_f64 False 25 100 = Some (F64 False 4503599627370496 (- int 54))"
  "round_f64 False 5 10 = Some (F64 False 4503599627370496 (- int 53))"
  "round_f64 False 1 1 = Some (F64 False 4503599627370496 (- int 52))"
  "round_f64 False 25 10 = Some (F64 False 5629499534213120 (- int 51))"
  "round_f64 False 5 1 = Some (F64 False 5629499534213120 (- int 50))"
  "round_f64 False 10 1 = Some (F64 False 5629499534213120 (- int 49))"
  "round_f64 False 30 1 = Some (F64 False 8444249301319680 (- int 48))"
  by (rule round_f64_eval [OF refl], (simp add: round_even_def bounds_bits Let_def; fail)+)+

lemma bounds_literals:
  "f64_of_literal ''0.01'' = round_f64 False 1 100"
  "f64_of_literal ''0.05'' = round_f64 False 5 100"
  "f64_of_literal ''0.1'' = round_f64 False 1 10"
  "f64_of_literal ''0.25'' = round_f64 False 25 100"
  "f64_of_literal ''0.5'' = round_f64 False 5 10"
  "f64_of_literal ''1'' = round_f64 False 1 1"
  "f64_of_literal ''2.5'' = round_f64 False 25 10"
  "f64_of_literal ''5'' = round_f64 False 5 1"
  "f64_of_literal ''10'' = round_f64 False 10 1"
  "f64_of_literal ''30'' = round_f64 False 30 1"
  by (simp_all add: f64_of_literal_def Let_def is_digit_def read_nat_def digit_val_def)

lemmas buckets_values = defaultDurationBuckets_def [unfolded list.map bounds_literals bounds_rounded]

lemma buckets_ascending: "sorted_wrt f64_le defaultDurationBuckets" "length defaultDurationBuckets = 10"
  by (simp_all add: buckets_values f64_le_def)

text \<open>The histogram of a workflow; a workflow without one has an empty one.\<close>

definition hist_of :: "Metrics \<Rightarrow> string \<Rightarrow> histogram" where
  "hist_of m w =
     (case map_of (executionHist m) w of
        Some h \<Rightarrow> h
      | None \<Rightarrow> \<lparr>buckets = replicate (length (durationBuckets m)) 0, sum_hg = Some (F64 False 0 0), count_hg = 0\<rparr>)"

definition hists_wf :: "Metrics \<Rightarrow> bool" where
  "hists_wf m \<longleftrightarrow>
     durationBuckets m = defaultDurationBuckets \<and>
     (\<forall>w. length (buckets (hist_of m w)) = length defaultDurationBuckets)"

lemma hist_of_call:
  "hist_of (record_call c m) w =
     (case c of
        RecordTaskCompleted v st d \<Rightarrow>
          if v = w then \<lparr>buckets = raise_bucket (Seconds_f64 d) (durationBuckets m) (buckets (hist_of m w)),
             sum_hg = f64_add (sum_hg (hist_of m w)) (Seconds_f64 d), count_hg = count_hg (hist_of m w) + 1\<rparr>
          else hist_of m w
      | _ \<Rightarrow> hist_of m w)"
  by (cases c) (auto simp: hist_of_def observeExecutionDurationLocked_def Let_def update_conv' split: option.splits)

lemma hists_wf_call: "hists_wf m \<Longrightarrow> hists_wf (record_call c m)"
proof -
  have "durationBuckets (record_call c m) = durationBuckets m" by (cases c) simp_all
  then show "hists_wf m \<Longrightarrow> hists_wf (record_call c m)"
    by (simp add: hists_wf_def hist_of_call split: metric_call.splits)
qed

lemma hists_wf_new: "hists_wf NewMetrics"
  by (simp add: hists_wf_def hist_of_def NewMetrics_def)

lemma histogram_exact:
  fixes cs :: "metric_call list"
  defines "m \<equiv> fold record_call cs NewMetrics"
  shows "count_hg (hist_of m w) = times (completion_in w (\<lambda>_. True)) cs"
    and "i < 10 \<Longrightarrow> cumulate 0 (buckets (hist_of m w)) ! i =
      times (completion_in w (\<lambda>d. f64_le (Seconds_f64 d) (defaultDurationBuckets ! i))) cs"
proof -
  have "count_hg (hist_of (record_call c m) w) = count_hg (hist_of m w) + (if completion_in w (\<lambda>_. True) c then 1 else 0)" for c m
    by (simp add: hist_of_call completion_in_def split: metric_call.splits)
  from counted_calls [where I = "\<lambda>_. True", OF conjI [OF TrueI this] TrueI, where m = NewMetrics and cs = cs]
  show "count_hg (hist_of m w) = times (completion_in w (\<lambda>_. True)) cs"
    unfolding m_def by (simp add: hist_of_def NewMetrics_def)
  assume i: "i < 10"
  have "cumulate 0 (buckets (hist_of (record_call c m) w)) ! i = cumulate 0 (buckets (hist_of m w)) ! i +
      (if completion_in w (\<lambda>d. f64_le (Seconds_f64 d) (defaultDurationBuckets ! i)) c then 1 else 0)" if "hists_wf m" for c m
    using that i cumulate_raise [OF _ _ buckets_ascending(1)] buckets_ascending(2)
    by (simp add: hist_of_call completion_in_def hists_wf_def split: metric_call.splits)
  from counted_calls [where I = hists_wf, OF conjI [OF hists_wf_call this] hists_wf_new]
  have "cumulate 0 (buckets (hist_of m w)) ! i = cumulate 0 (buckets (hist_of NewMetrics w)) ! i +
      times (completion_in w (\<lambda>d. f64_le (Seconds_f64 d) (defaultDurationBuckets ! i))) cs"
    unfolding m_def .
  moreover have "cumulate 0 (replicate n 0) ! i = 0" if "i < n" for n
  proof -
    have "cumulate 0 (replicate n 0) = replicate n (0 :: uint64)" by (induction n) auto
    with that show ?thesis by simp
  qed
  ultimately show "cumulate 0 (buckets (hist_of m w)) ! i = times (completion_in w (\<lambda>d. f64_le (Seconds_f64 d) (defaultDurationBuckets ! i))) cs"
    using i buckets_ascending(2) by (simp add: hist_of_def NewMetrics_def)
qed

section \<open>The text does not depend on the order of the maps\<close>

lemma same_map_of:
  assumes "mset m = mset m'" "gomap_wf m"
  shows "map_of m' = map_of m"
proof (rule ext)
  fix k
  have "mset (map fst m') = mset (map fst m)" using assms(1) by simp
  then have wf: "gomap_wf m'" using assms(2) unfolding gomap_wf_def by (metis mset_eq_imp_distinct_iff)
  have "set m' = set m" using assms(1) by (metis mset_eq_setD)
  then show "map_of m' k = map_of m k"
    using gomap_in_set [OF wf, of k] gomap_in_set [OF assms(2), of k] by (metis option.exhaust)
qed

lemma same_counter: "mset m = mset m' \<Longrightarrow> gomap_wf m \<Longrightarrow> counter m' = counter m"
  using same_map_of [of m m'] by (simp add: counter_def fun_eq_iff)

lemma same_keys_sorted:
  assumes "mset m = mset m'" "gomap_wf m" "inj_on f (fst ` set m)"
  shows "sort_key f (map fst m') = sort_key f (map fst m)"
proof (rule sorted_list_unique_key [symmetric])
  show "distinct (map f (map fst m))" using assms(2,3) by (simp add: distinct_map gomap_wf_def comp_inj_on_iff image_comp)
  show "mset (map fst m) = mset (map fst m')" using assms(1) by simp
qed

lemma same_counters:
  assumes "mset m = mset m'" "gomap_wf m"
  shows "write_counters isPrint name help m' = write_counters isPrint name help m"
proof -
  have "sortedStringKeys m' = sortedStringKeys m"
    unfolding sortedStringKeys_def by (rule same_keys_sorted [OF assms]) simp
  then show ?thesis by (simp add: write_counters_def same_counter [OF assms])
qed

text \<open>Metrics with the same maps in another order.\<close>

definition reordered :: "Metrics \<Rightarrow> Metrics \<Rightarrow> bool" where
  "reordered m m' \<longleftrightarrow>
     mset (claimAttempts m) = mset (claimAttempts m') \<and> mset (claimMisses m) = mset (claimMisses m') \<and>
     mset (tasksClaimed m) = mset (tasksClaimed m') \<and> mset (tasksReleased m) = mset (tasksReleased m') \<and>
     mset (tasksCompleted m) = mset (tasksCompleted m') \<and> mset (tasksRetried m) = mset (tasksRetried m') \<and>
     mset (leaseRenewed m) = mset (leaseRenewed m') \<and> mset (leaseLost m) = mset (leaseLost m') \<and>
     mset (reaperExpired m) = mset (reaperExpired m') \<and> mset (executionHist m) = mset (executionHist m') \<and>
     durationBuckets m = durationBuckets m'"

text \<open>The calls name workflows without a NUL byte, and known statuses.\<close>

fun plain_call :: "metric_call \<Rightarrow> bool" where
  "plain_call (RecordTaskCompleted w st d) = (CHR 0x00 \<notin> set w \<and> (\<forall>s. st \<noteq> OtherStatus s))"
| "plain_call (RecordTaskRetried w code) = (CHR 0x00 \<notin> set w)"
| "plain_call _ = True"

definition metrics_wf :: "Metrics \<Rightarrow> bool" where
  "metrics_wf m \<longleftrightarrow>
     gomap_wf (claimAttempts m) \<and> gomap_wf (claimMisses m) \<and> gomap_wf (tasksClaimed m) \<and> gomap_wf (tasksReleased m) \<and>
     gomap_wf (tasksCompleted m) \<and> gomap_wf (tasksRetried m) \<and> gomap_wf (leaseRenewed m) \<and> gomap_wf (leaseLost m) \<and>
     gomap_wf (reaperExpired m) \<and> gomap_wf (executionHist m) \<and>
     (\<forall>(w, st) \<in> fst ` set (tasksCompleted m). CHR 0x00 \<notin> set w \<and> (\<forall>s. st \<noteq> OtherStatus s)) \<and>
     (\<forall>(w, code) \<in> fst ` set (tasksRetried m). CHR 0x00 \<notin> set w)"

lemma bump_keys: "fst ` set (bump k m) = insert k (fst ` set m)" "gomap_wf m \<Longrightarrow> gomap_wf (bump k m)"
  by (simp_all add: bump_def update_conv' flip: dom_map_of_conv_image_fst)

lemma metrics_wf_calls: "list_all plain_call cs \<Longrightarrow> metrics_wf (fold record_call cs NewMetrics)"
proof -
  have step: "metrics_wf (record_call c m)" if m: "metrics_wf m" and c: "plain_call c" for c m
  proof (cases c)
    case (RecordTaskCompleted w st d)
    with m c have "metrics_wf (m\<lparr>tasksCompleted := bump (w, st) (tasksCompleted m)\<rparr>)"
      by (simp add: metrics_wf_def bump_keys)
    with RecordTaskCompleted show ?thesis
      by (simp add: metrics_wf_def observeExecutionDurationLocked_def Let_def)
  qed (use m c in \<open>simp_all add: metrics_wf_def bump_keys\<close>)
  have all: "metrics_wf m \<Longrightarrow> list_all plain_call cs \<Longrightarrow> metrics_wf (fold record_call cs m)" for m
    by (induction cs arbitrary: m) (auto simp: step)
  assume "list_all plain_call cs"
  moreover have "metrics_wf NewMetrics" by (simp add: metrics_wf_def NewMetrics_def)
  ultimately show "metrics_wf (fold record_call cs NewMetrics)" by (rule all [rotated])
qed

lemma joined_inj:
  assumes "CHR 0x00 \<notin> set v" "CHR 0x00 \<notin> set w" "v @ CHR 0x00 # x = w @ CHR 0x00 # y"
  shows "v = w \<and> x = y"
  using assms
proof (induction v arbitrary: w)
  case Nil
  then show ?case by (cases w) auto
next
  case (Cons c v)
  then show ?case by (cases w) auto
qed

lemma status_text_inj: "\<forall>s. st \<noteq> OtherStatus s \<Longrightarrow> \<forall>s. st' \<noteq> OtherStatus s \<Longrightarrow> status_text st = status_text st' \<Longrightarrow> st = st'"
  by (cases st; cases st') auto

lemma text_order:
  assumes wf: "metrics_wf m" and r: "reordered m m'"
  shows "write_metrics isPrint m' = write_metrics isPrint m"
proof -
  have c: "sortedCompletionKeys (tasksCompleted m') = sortedCompletionKeys (tasksCompleted m)"
    unfolding sortedCompletionKeys_def
  proof (rule same_keys_sorted)
    show "inj_on (\<lambda>(w, st). w @ CHR 0x00 # status_text st) (fst ` set (tasksCompleted m))"
    proof (rule inj_onI)
      fix k k' assume k: "k \<in> fst ` set (tasksCompleted m)" "k' \<in> fst ` set (tasksCompleted m)"
        "(case k of (w, st) \<Rightarrow> w @ CHR 0x00 # status_text st) = (case k' of (w, st) \<Rightarrow> w @ CHR 0x00 # status_text st)"
      obtain w st w' st' where e: "k = (w, st)" "k' = (w', st')" by force
      with k wf have ok: "CHR 0x00 \<notin> set w" "CHR 0x00 \<notin> set w'" "\<forall>s. st \<noteq> OtherStatus s" "\<forall>s. st' \<noteq> OtherStatus s"
        by (fastforce simp: metrics_wf_def)+
      with joined_inj [of w w' "status_text st" "status_text st'"] status_text_inj [of st st'] k(3) e show "k = k'" by simp
    qed
  qed (use wf r in \<open>simp_all add: metrics_wf_def reordered_def\<close>)
  have t: "sortedRetryKeys (tasksRetried m') = sortedRetryKeys (tasksRetried m)"
    unfolding sortedRetryKeys_def
  proof (rule same_keys_sorted)
    show "inj_on (\<lambda>(w, code). w @ CHR 0x00 # code) (fst ` set (tasksRetried m))"
    proof (rule inj_onI)
      fix k k' assume k: "k \<in> fst ` set (tasksRetried m)" "k' \<in> fst ` set (tasksRetried m)"
        "(case k of (w, code) \<Rightarrow> w @ CHR 0x00 # code) = (case k' of (w, code) \<Rightarrow> w @ CHR 0x00 # code)"
      obtain w x w' x' where e: "k = (w, x)" "k' = (w', x')" by force
      with k wf have "CHR 0x00 \<notin> set w" "CHR 0x00 \<notin> set w'" by (fastforce simp: metrics_wf_def)+
      with joined_inj [of w w' x x'] k(3) e show "k = k'" by simp
    qed
  qed (use wf r in \<open>simp_all add: metrics_wf_def reordered_def\<close>)
  have h: "sortedStringKeys (executionHist m') = sortedStringKeys (executionHist m)"
    unfolding sortedStringKeys_def by (rule same_keys_sorted) (use wf r in \<open>simp_all add: metrics_wf_def reordered_def\<close>)
  have w: "write_counters isPrint x y (claimAttempts m') = write_counters isPrint x y (claimAttempts m)"
    "write_counters isPrint x y (claimMisses m') = write_counters isPrint x y (claimMisses m)"
    "write_counters isPrint x y (tasksClaimed m') = write_counters isPrint x y (tasksClaimed m)"
    "write_counters isPrint x y (tasksReleased m') = write_counters isPrint x y (tasksReleased m)"
    "write_counters isPrint x y (leaseRenewed m') = write_counters isPrint x y (leaseRenewed m)"
    "write_counters isPrint x y (leaseLost m') = write_counters isPrint x y (leaseLost m)"
    "write_counters isPrint x y (reaperExpired m') = write_counters isPrint x y (reaperExpired m)"
    for x y using wf r by (auto intro!: same_counters simp: metrics_wf_def reordered_def)
  have "map_of (executionHist m') = map_of (executionHist m)"
    using wf r by (intro same_map_of) (simp_all add: metrics_wf_def reordered_def)
  moreover have "counter (tasksCompleted m') = counter (tasksCompleted m)" "counter (tasksRetried m') = counter (tasksRetried m)"
    using wf r by (auto intro!: same_counter simp: metrics_wf_def reordered_def)
  moreover have "durationBuckets m' = durationBuckets m" using r by (simp add: reordered_def)
  ultimately show ?thesis by (simp only: write_metrics_def c t h w)
qed

end
