(* ===== verification/MetricsSpec.thy ===== *)
theory MetricsSpec
  imports ObservabilityFacts
begin

text \<open>
  What the endpoint \<open>/metrics\<close> is to say, told by the list of the calls of the recorders alone:
  for every metric its name, help line and type, and the samples with their labels and values.
  The text of the model is shown to be this one, byte by byte.
\<close>

section \<open>The exposition format\<close>

text \<open>A sample: its name, its labels and its value.  A family: name, help line, type and samples.\<close>

type_synonym sample = "string \<times> (string \<times> string) list \<times> string"
type_synonym family = "string \<times> string \<times> string \<times> sample list"

fun comma_separated :: "string list \<Rightarrow> string" where
  "comma_separated [] = []"
| "comma_separated [x] = x"
| "comma_separated (x # xs) = x @ '','' @ comma_separated xs"

fun expose_sample :: "(nat \<Rightarrow> bool) \<Rightarrow> sample \<Rightarrow> string" where
  "expose_sample isPrint (name, labels, v) =
     name @ ''{'' @ comma_separated (map (\<lambda>(l, x). l @ ''='' @ Quote isPrint x) labels) @ ''} '' @ v @ [CHR 0x0A]"

fun expose_family :: "(nat \<Rightarrow> bool) \<Rightarrow> family \<Rightarrow> string" where
  "expose_family isPrint (name, help, ty, samples) =
     ''# HELP '' @ name @ '' '' @ help @ [CHR 0x0A] @ ''# TYPE '' @ name @ '' '' @ ty @ [CHR 0x0A] @
     concat (map (expose_sample isPrint) samples)"

definition expose :: "(nat \<Rightarrow> bool) \<Rightarrow> family list \<Rightarrow> string" where
  "expose isPrint fams = concat (map (expose_family isPrint) fams)"

section \<open>The families\<close>

text \<open>A number as a 64-bit counter shows it.\<close>

definition shown :: "nat \<Rightarrow> string" where
  "shown n = show_nat (n mod 2 ^ 64)"

text \<open>
  A family that counts calls: \<open>f\<close> gives the key a call is counted under.  There is one sample for
  every key that was named, in the order of \<open>ord\<close>.
\<close>

definition call_count ::
  "string \<Rightarrow> string \<Rightarrow> ('k \<Rightarrow> (string \<times> string) list) \<Rightarrow> ('k \<Rightarrow> string) \<Rightarrow> (metric_call \<Rightarrow> 'k option) \<Rightarrow>
   metric_call list \<Rightarrow> family" where
  "call_count name help labels ord f cs =
     (name, help, ''counter'',
      map (\<lambda>k. (name, labels k, shown (length (filter (\<lambda>c. f c = Some k) cs)))) (sort_key ord (remdups (List.map_filter f cs))))"

abbreviation by_workflow :: "string \<Rightarrow> string \<Rightarrow> (metric_call \<Rightarrow> string option) \<Rightarrow> metric_call list \<Rightarrow> family" where
  "by_workflow name help \<equiv> call_count name help (\<lambda>w. [(''workflow'', w)]) (\<lambda>w. w)"

text \<open>A request that names no workflow is counted under \<open>all\<close>.\<close>

fun attempt_key :: "metric_call \<Rightarrow> string option" where
  "attempt_key (RecordClaimAttempt w) = Some (if w = [] then ''all'' else w)" | "attempt_key _ = None"

fun miss_key :: "metric_call \<Rightarrow> string option" where
  "miss_key (RecordClaimMiss w) = Some (if w = [] then ''all'' else w)" | "miss_key _ = None"

fun claimed_key :: "metric_call \<Rightarrow> string option" where
  "claimed_key (RecordTaskClaimed w) = Some w" | "claimed_key _ = None"

fun released_key :: "metric_call \<Rightarrow> string option" where
  "released_key (RecordTaskReleased w) = Some w" | "released_key _ = None"

fun completed_key :: "metric_call \<Rightarrow> (string \<times> TaskStatus) option" where
  "completed_key (RecordTaskCompleted w st d) = Some (w, st)" | "completed_key _ = None"

fun retried_key :: "metric_call \<Rightarrow> (string \<times> string) option" where
  "retried_key (RecordTaskRetried w code) = Some (w, code)" | "retried_key _ = None"

fun renewed_key :: "metric_call \<Rightarrow> string option" where
  "renewed_key (RecordLeaseRenewed w) = Some w" | "renewed_key _ = None"

fun lost_key :: "metric_call \<Rightarrow> string option" where
  "lost_key (RecordLeaseLost w) = Some w" | "lost_key _ = None"

fun expired_key :: "metric_call \<Rightarrow> string option" where
  "expired_key (RecordReaperExpiredFailure w) = Some w" | "expired_key _ = None"

text \<open>The execution times: cumulative counts up to fixed bounds, the total, and the sum in seconds.\<close>

fun time_of :: "string \<Rightarrow> metric_call \<Rightarrow> duration option" where
  "time_of w (RecordTaskCompleted v st d) = (if v = w then Some d else None)" | "time_of w _ = None"

definition duration_samples :: "metric_call list \<Rightarrow> string \<Rightarrow> sample list" where
  "duration_samples cs w =
     (let name = ''taskpulse_task_execution_duration_seconds''; ds = List.map_filter (time_of w) cs in
      map (\<lambda>le. (name @ ''_bucket'', [(''workflow'', w), (''le'', le)],
                 shown (length (filter (\<lambda>d. f64_le (Seconds_f64 d) (f64_of_literal le)) ds))))
        [''0.01'', ''0.05'', ''0.1'', ''0.25'', ''0.5'', ''1'', ''2.5'', ''5'', ''10'', ''30''] @
      [(name @ ''_bucket'', [(''workflow'', w), (''le'', ''+Inf'')], shown (length ds)),
       (name @ ''_sum'', [(''workflow'', w)], format_g (foldl f64_add (Some (F64 False 0 0)) (map Seconds_f64 ds))),
       (name @ ''_count'', [(''workflow'', w)], shown (length ds))])"

definition call_families :: "metric_call list \<Rightarrow> family list" where
  "call_families cs =
     [by_workflow ''taskpulse_claim_attempts_total'' ''Total task claim attempts by requested workflow.'' attempt_key cs,
      by_workflow ''taskpulse_claim_misses_total'' ''Total task claim attempts with no available task by requested workflow.''
        miss_key cs,
      by_workflow ''taskpulse_tasks_claimed_total'' ''Total tasks claimed by workers.'' claimed_key cs,
      by_workflow ''taskpulse_tasks_released_total''
        ''Total running tasks returned to the queue by their Worker during graceful shutdown.'' released_key cs,
      call_count ''taskpulse_tasks_completed_total'' ''Total tasks completed by terminal status.''
        (\<lambda>(w, st). [(''workflow'', w), (''status'', status_text st)]) (\<lambda>(w, st). w @ CHR 0x00 # status_text st) completed_key cs,
      call_count ''taskpulse_tasks_retried_total'' ''Total tasks scheduled for retry.''
        (\<lambda>(w, code). [(''workflow'', w), (''error_code'', code)]) (\<lambda>(w, code). w @ CHR 0x00 # code) retried_key cs,
      by_workflow ''taskpulse_lease_renewed_total'' ''Total successful lease renewals.'' renewed_key cs,
      by_workflow ''taskpulse_lease_lost_total'' ''Total lease loss events observed by workers.'' lost_key cs,
      by_workflow ''taskpulse_reaper_expired_failures_total'' ''Total expired tasks failed by the reaper.'' expired_key cs,
      (''taskpulse_task_execution_duration_seconds'', ''Task execution duration in seconds.'', ''histogram'',
       concat (map (duration_samples cs) (sort (remdups (map fst (List.map_filter completed_key cs))))))]"

text \<open>The gauges, from a snapshot of the store.\<close>

definition gauge :: "string \<Rightarrow> string \<Rightarrow> TaskStatus list \<Rightarrow> (TaskStatus \<Rightarrow> string) \<Rightarrow> family" where
  "gauge name help sts f = (name, help, ''gauge'', map (\<lambda>st. (name, [(''status'', status_text st)], f st)) sts)"

definition stats_families :: "TaskStatsSnapshot \<Rightarrow> family list" where
  "stats_families snapshot =
     (let number = (\<lambda>m st. show_int (case m st of None \<Rightarrow> 0 | Some n \<Rightarrow> n)) in
      [gauge ''taskpulse_tasks_current'' ''Current number of tasks by status.''
         [TaskStatusQueued, TaskStatusRunning, TaskStatusRetrying, TaskStatusSucceeded, TaskStatusPartial, TaskStatusFailed,
          TaskStatusCanceled] (number (StatusCounts snapshot)),
       gauge ''taskpulse_tasks_available_current'' ''Current number of queued or retrying tasks available for claim.''
         [TaskStatusQueued, TaskStatusRetrying] (number (AvailableCounts snapshot)),
       gauge ''taskpulse_oldest_available_task_age_seconds'' ''Age of the oldest queued or retrying task available for claim.''
         [TaskStatusQueued, TaskStatusRetrying]
         (\<lambda>st. format_g (Seconds_f64 (case OldestAvailableAge snapshot st of None \<Rightarrow> 0 | Some d \<Rightarrow> d)))])"

text \<open>The answer of the endpoint.\<close>

definition metrics_answer :: "(nat \<Rightarrow> bool) \<Rightarrow> TaskStatsSnapshot result option \<Rightarrow> metric_call list \<Rightarrow> nat \<times> string" where
  "metrics_answer isPrint stats cs =
     (case stats of
        None \<Rightarrow> (200, expose isPrint (call_families cs))
      | Some (Inr snapshot) \<Rightarrow> (200, expose isPrint (stats_families snapshot @ call_families cs))
      | Some (Inl e) \<Rightarrow> (500, ''snapshot task stats: '' @ error_text e @ [CHR 0x0A]))"

section \<open>The text of the model\<close>

lemma expose_simps [simp]: "expose isPrint [] = []" "expose isPrint (x # xs) = expose_family isPrint x @ expose isPrint xs"
  "expose isPrint (xs @ ys) = expose isPrint xs @ expose isPrint ys"
  by (simp_all add: expose_def)

lemma exposed_stats: "writeTaskStats isPrint snapshot = expose isPrint (stats_families snapshot)"
  by (simp add: writeTaskStats_def stats_families_def gauge_def Let_def writeHelp_def writeType_def taskStatuses_def
      sample_line_def label_def)

lemma show_times: "show_uint64 (times P cs) = shown (length (filter P cs))"
  by (simp add: show_uint64_def times_def shown_def unat_of_nat)

text \<open>A map of counters that is bumped under the key of every call.\<close>

lemma bumped:
  assumes "\<And>c m. sel (record_call c m) = (case f c of None \<Rightarrow> sel m | Some k \<Rightarrow> bump k (sel m))" "sel NewMetrics = []"
  shows "gomap_wf (sel (fold record_call cs NewMetrics)) \<and>
    fst ` set (sel (fold record_call cs NewMetrics)) = set (List.map_filter f cs) \<and>
    (\<forall>k. counter (sel (fold record_call cs NewMetrics)) k = times (\<lambda>c. f c = Some k) cs)"
proof (induction cs rule: rev_induct)
  case Nil
  then show ?case by (simp add: assms(2) List.map_filter_def)
next
  case (snoc c cs)
  have "times P (cs @ [c]) = times P cs + (if P c then 1 else 0)" for P :: "metric_call \<Rightarrow> bool" by (simp add: times_def)
  with snoc show ?case
    by (auto simp: assms(1) bump_keys counter_bump List.map_filter_def split: option.splits)
qed

lemma sorted_keys:
  assumes "gomap_wf m" "fst ` set m = set ks" "inj_on ord (set ks)"
  shows "sort_key ord (map fst m) = sort_key ord (remdups ks)"
proof (rule sorted_list_unique_key)
  show "distinct (map ord (map fst m))"
    using assms(1,3) unfolding assms(2) [symmetric] by (simp add: distinct_map gomap_wf_def comp_inj_on_iff image_comp)
  show "mset (map fst m) = mset (remdups ks)"
    using assms by (metis distinct_remdups gomap_wf_def image_set set_eq_iff_mset_eq_distinct set_remdups)
qed

lemma exposed_counters:
  assumes "\<And>c m. sel (record_call c m) = (case f c of None \<Rightarrow> sel m | Some k \<Rightarrow> bump k (sel m))" "sel NewMetrics = []"
  shows "write_counters isPrint name help (sel (fold record_call cs NewMetrics)) = expose_family isPrint (by_workflow name help f cs)"
proof -
  note b = bumped [OF assms, of cs]
  have "sortedStringKeys (sel (fold record_call cs NewMetrics)) = sort (remdups (List.map_filter f cs))"
    unfolding sortedStringKeys_def by (rule sorted_keys) (use b in simp_all)
  with b show ?thesis
    by (simp add: write_counters_def call_count_def show_times writeHelp_def writeType_def sample_line_def label_def comp_def)
qed

text \<open>The histograms.\<close>

abbreviation bound_labels :: "string list" where
  "bound_labels \<equiv> [''0.01'', ''0.05'', ''0.1'', ''0.25'', ''0.5'', ''1'', ''2.5'', ''5'', ''10'', ''30'']"

lemma digits_shown:
  "digit_char 0 = CHR ''0''" "digit_char (Suc (Suc 0)) = CHR ''2''" "digit_char (Suc 0) = CHR ''1''" "digit_char 1 = CHR ''1''" "digit_char 2 = CHR ''2''"
  "digit_char 3 = CHR ''3''" "digit_char 5 = CHR ''5''"
  by (code_simp)+

lemma two_decimals_bounds:
  "two_decimals (Some (F64 False 5764607523034235 (- int 59))) = ''0.01''"
  "two_decimals (Some (F64 False 7205759403792794 (- int 57))) = ''0.05''"
  "two_decimals (Some (F64 False 7205759403792794 (- int 56))) = ''0.10''"
  "two_decimals (Some (F64 False 4503599627370496 (- int 54))) = ''0.25''"
  "two_decimals (Some (F64 False 4503599627370496 (- int 53))) = ''0.50''"
  "two_decimals (Some (F64 False 4503599627370496 (- int 52))) = ''1.00''"
  "two_decimals (Some (F64 False 5629499534213120 (- int 51))) = ''2.50''"
  "two_decimals (Some (F64 False 5629499534213120 (- int 50))) = ''5.00''"
  "two_decimals (Some (F64 False 5629499534213120 (- int 49))) = ''10.00''"
  "two_decimals (Some (F64 False 8444249301319680 (- int 48))) = ''30.00''"
  by (simp_all add: two_decimals_def) (simp_all add: round_even_def Let_def, simp_all add: show_nat_eval digits_shown)

lemma bound_labels_shown:
  "formatBucket (f64_of_literal ''0.01'') = ''0.01''"
  "formatBucket (f64_of_literal ''0.05'') = ''0.05''"
  "formatBucket (f64_of_literal ''0.1'') = ''0.1''"
  "formatBucket (f64_of_literal ''0.25'') = ''0.25''"
  "formatBucket (f64_of_literal ''0.5'') = ''0.5''"
  "formatBucket (f64_of_literal ''1'') = ''1''"
  "formatBucket (f64_of_literal ''2.5'') = ''2.5''"
  "formatBucket (f64_of_literal ''5'') = ''5''"
  "formatBucket (f64_of_literal ''10'') = ''10''"
  "formatBucket (f64_of_literal ''30'') = ''30''"
  unfolding bounds_literals bounds_rounded formatBucket_def two_decimals_bounds by (simp_all add: trim_right_def)

lemma completions_in:
  "length (filter (completion_in w Q) cs) = length (filter Q (List.map_filter (time_of w) cs))"
proof (induction cs)
  case (Cons c cs)
  then show ?case by (cases c) (auto simp: completion_in_def List.map_filter_def)
qed (simp add: List.map_filter_def)

lemma time_sum:
  "sum_hg (hist_of (fold record_call cs NewMetrics) w) =
     foldl f64_add (Some (F64 False 0 0)) (map Seconds_f64 (List.map_filter (time_of w) cs))"
proof (induction cs rule: rev_induct)
  case Nil
  then show ?case by (simp add: hist_of_def NewMetrics_def List.map_filter_def)
next
  case (snoc c cs)
  then show ?case by (cases c) (auto simp: hist_of_call List.map_filter_def simp del: record_call.simps)
qed

lemma hist_keys:
  "gomap_wf (executionHist (fold record_call cs NewMetrics)) \<and>
   fst ` set (executionHist (fold record_call cs NewMetrics)) = set (map fst (List.map_filter completed_key cs))"
proof (induction cs rule: rev_induct)
  case Nil
  then show ?case by (simp add: NewMetrics_def List.map_filter_def)
next
  case (snoc c cs)
  then show ?case
    by (cases c) (auto simp: observeExecutionDurationLocked_def Let_def List.map_filter_def update_conv' simp flip: dom_map_of_conv_image_fst)
qed

lemma exposed_histogram:
  fixes cs :: "metric_call list"
  defines "m \<equiv> fold record_call cs NewMetrics"
  assumes "map_of (executionHist m) w = Some hist"
  shows "write_histogram isPrint (durationBuckets m) w hist = concat (map (expose_sample isPrint) (duration_samples cs w))"
proof -
  let ?n = "\<lambda>le. times (completion_in w (\<lambda>d. f64_le (Seconds_f64 d) (f64_of_literal le))) cs"
  have h: "hist_of m w = hist" using assms(2) by (simp add: hist_of_def)
  have wf: "hists_wf m"
    unfolding m_def by (induction cs rule: rev_induct) (simp_all add: hists_wf_new hists_wf_call)
  have "cumulate 0 (buckets hist) = map ?n bound_labels"
  proof (rule nth_equalityI)
    have "length (cumulate c ns) = length ns" for c ns by (induction ns arbitrary: c) auto
    moreover have "length (buckets hist) = 10" using wf h buckets_ascending(2) by (auto simp: hists_wf_def)
    ultimately show len: "length (cumulate 0 (buckets hist)) = length (map ?n bound_labels)" by simp
    fix i assume "i < length (cumulate 0 (buckets hist))"
    then have i: "i < 10" using len by simp
    have "defaultDurationBuckets ! i = f64_of_literal (bound_labels ! i)"
      unfolding defaultDurationBuckets_def by (rule nth_map) (use i in simp)
    with histogram_exact(2) [OF i, of cs w] have "cumulate 0 (buckets hist) ! i = ?n (bound_labels ! i)"
      unfolding m_def [symmetric] h by simp
    also have "\<dots> = map ?n bound_labels ! i" by (rule nth_map [symmetric]) (use i in simp)
    finally show "cumulate 0 (buckets hist) ! i = map ?n bound_labels ! i" .
  qed
  moreover have "durationBuckets m = map f64_of_literal bound_labels"
    using wf by (simp add: hists_wf_def defaultDurationBuckets_def)
  moreover have "map (\<lambda>le. formatBucket (f64_of_literal le)) bound_labels = bound_labels"
    by (simp add: bound_labels_shown)
  moreover have "count_hg hist = times (completion_in w (\<lambda>_. True)) cs"
    using histogram_exact(1) [of cs w] h by (simp add: m_def)
  moreover have "sum_hg hist = foldl f64_add (Some (F64 False 0 0)) (map Seconds_f64 (List.map_filter (time_of w) cs))"
    using time_sum [of cs w] h by (simp add: m_def)
  ultimately show ?thesis
    by (simp add: write_histogram_def duration_samples_def Let_def sample_line_def label_def show_times completions_in)
qed

section \<open>The answer\<close>

lemma named_keys: "k \<in> set (List.map_filter f cs) \<longleftrightarrow> (\<exists>c \<in> set cs. f c = Some k)"
  by (force simp: List.map_filter_def)

lemma completed_keys_inj:
  assumes "list_all plain_call cs"
  shows "inj_on (\<lambda>(w, st). w @ CHR 0x00 # status_text st) (set (List.map_filter completed_key cs))"
proof (rule inj_onI)
  have plain: "CHR 0x00 \<notin> set w \<and> (\<forall>s. st \<noteq> OtherStatus s)" if "(w, st) \<in> set (List.map_filter completed_key cs)" for w st
  proof -
    from that obtain c where c: "c \<in> set cs" "completed_key c = Some (w, st)" unfolding named_keys by blast
    from c(1) assms have "plain_call c" by (simp add: list_all_iff)
    with c(2) show ?thesis by (cases c) auto
  qed
  fix k k' assume k: "k \<in> set (List.map_filter completed_key cs)" "k' \<in> set (List.map_filter completed_key cs)"
    "(case k of (w, st) \<Rightarrow> w @ CHR 0x00 # status_text st) = (case k' of (w, st) \<Rightarrow> w @ CHR 0x00 # status_text st)"
  obtain w st w' st' where e: "k = (w, st)" "k' = (w', st')" by force
  with k have m: "(w, st) \<in> set (List.map_filter completed_key cs)" "(w', st') \<in> set (List.map_filter completed_key cs)"
    "w @ CHR 0x00 # status_text st = w' @ CHR 0x00 # status_text st'" by simp_all
  note p = plain [OF m(1)] plain [OF m(2)]
  from joined_inj [of w w' "status_text st" "status_text st'"] p m(3) have "w = w'" "status_text st = status_text st'" by blast+
  with status_text_inj [of st st'] p e show "k = k'" by blast
qed

lemma retried_keys_inj:
  assumes "list_all plain_call cs"
  shows "inj_on (\<lambda>(w, code). w @ CHR 0x00 # code) (set (List.map_filter retried_key cs))"
proof (rule inj_onI)
  have plain: "CHR 0x00 \<notin> set w" if "(w, code) \<in> set (List.map_filter retried_key cs)" for w code
  proof -
    from that obtain c where c: "c \<in> set cs" "retried_key c = Some (w, code)" unfolding named_keys by blast
    from c(1) assms have "plain_call c" by (simp add: list_all_iff)
    with c(2) show ?thesis by (cases c) auto
  qed
  fix k k' assume k: "k \<in> set (List.map_filter retried_key cs)" "k' \<in> set (List.map_filter retried_key cs)"
    "(case k of (w, code) \<Rightarrow> w @ CHR 0x00 # code) = (case k' of (w, code) \<Rightarrow> w @ CHR 0x00 # code)"
  obtain w x w' x' where e: "k = (w, x)" "k' = (w', x')" by force
  with k have m: "(w, x) \<in> set (List.map_filter retried_key cs)" "(w', x') \<in> set (List.map_filter retried_key cs)"
    "w @ CHR 0x00 # x = w' @ CHR 0x00 # x'" by simp_all
  from joined_inj [of w w' x x'] plain [OF m(1)] plain [OF m(2)] m(3) e show "k = k'" by blast
qed

lemma concat_nested: "concat (map (\<lambda>w. concat (map g (h w))) ws) = concat (map g (concat (map h ws)))"
  by (induction ws) simp_all

lemma exposed_calls:
  assumes "list_all plain_call cs"
  shows "write_metrics isPrint (fold record_call cs NewMetrics) = expose isPrint (call_families cs)"
proof -
  let ?m = "fold record_call cs NewMetrics"
  have steps:
    "claimAttempts (record_call c m) = (case attempt_key c of None \<Rightarrow> claimAttempts m | Some k \<Rightarrow> bump k (claimAttempts m))"
    "claimMisses (record_call c m) = (case miss_key c of None \<Rightarrow> claimMisses m | Some k \<Rightarrow> bump k (claimMisses m))"
    "tasksClaimed (record_call c m) = (case claimed_key c of None \<Rightarrow> tasksClaimed m | Some k \<Rightarrow> bump k (tasksClaimed m))"
    "tasksReleased (record_call c m) = (case released_key c of None \<Rightarrow> tasksReleased m | Some k \<Rightarrow> bump k (tasksReleased m))"
    "leaseRenewed (record_call c m) = (case renewed_key c of None \<Rightarrow> leaseRenewed m | Some k \<Rightarrow> bump k (leaseRenewed m))"
    "leaseLost (record_call c m) = (case lost_key c of None \<Rightarrow> leaseLost m | Some k \<Rightarrow> bump k (leaseLost m))"
    "reaperExpired (record_call c m) = (case expired_key c of None \<Rightarrow> reaperExpired m | Some k \<Rightarrow> bump k (reaperExpired m))" for c m
    by (cases c; simp add: normalizeWorkflow_def)+
  have new: "claimAttempts NewMetrics = []" "claimMisses NewMetrics = []" "tasksClaimed NewMetrics = []" "tasksReleased NewMetrics = []" "leaseRenewed NewMetrics = []" "leaseLost NewMetrics = []" "reaperExpired NewMetrics = []"
    by (simp_all add: NewMetrics_def)
  note counters = exposed_counters [OF steps(1) new(1)]
    exposed_counters [OF steps(2) new(2)]
    exposed_counters [OF steps(3) new(3)]
    exposed_counters [OF steps(4) new(4)]
    exposed_counters [OF steps(5) new(5)]
    exposed_counters [OF steps(6) new(6)]
    exposed_counters [OF steps(7) new(7)]
  have c: "sortedCompletionKeys (tasksCompleted ?m) = sort_key (\<lambda>(w, st). w @ CHR 0x00 # status_text st)
      (remdups (List.map_filter completed_key cs))"
    "counter (tasksCompleted ?m) k = times (\<lambda>c. completed_key c = Some k) cs" for k
  proof -
    have "tasksCompleted (record_call c m) = (case completed_key c of None \<Rightarrow> tasksCompleted m | Some k \<Rightarrow> bump k (tasksCompleted m))"
      for c m by (cases c) simp_all
    moreover have "tasksCompleted NewMetrics = []" by (simp add: NewMetrics_def)
    ultimately have b: "gomap_wf (tasksCompleted ?m)" "fst ` set (tasksCompleted ?m) = set (List.map_filter completed_key cs)"
      "\<forall>k. counter (tasksCompleted ?m) k = times (\<lambda>c. completed_key c = Some k) cs"
      using bumped [where sel = tasksCompleted and f = completed_key and cs = cs] by blast+
    then show "counter (tasksCompleted ?m) k = times (\<lambda>c. completed_key c = Some k) cs" by blast
    show "sortedCompletionKeys (tasksCompleted ?m) = sort_key (\<lambda>(w, st). w @ CHR 0x00 # status_text st)
      (remdups (List.map_filter completed_key cs))"
      unfolding sortedCompletionKeys_def
      by (rule sorted_keys) (use b completed_keys_inj [OF assms] in simp_all)
  qed
  have t: "sortedRetryKeys (tasksRetried ?m) = sort_key (\<lambda>(w, code). w @ CHR 0x00 # code) (remdups (List.map_filter retried_key cs))"
    "counter (tasksRetried ?m) k = times (\<lambda>c. retried_key c = Some k) cs" for k
  proof -
    have "tasksRetried (record_call c m) = (case retried_key c of None \<Rightarrow> tasksRetried m | Some k \<Rightarrow> bump k (tasksRetried m))"
      for c m by (cases c) simp_all
    moreover have "tasksRetried NewMetrics = []" by (simp add: NewMetrics_def)
    ultimately have b: "gomap_wf (tasksRetried ?m)" "fst ` set (tasksRetried ?m) = set (List.map_filter retried_key cs)"
      "\<forall>k. counter (tasksRetried ?m) k = times (\<lambda>c. retried_key c = Some k) cs"
      using bumped [where sel = tasksRetried and f = retried_key and cs = cs] by blast+
    then show "counter (tasksRetried ?m) k = times (\<lambda>c. retried_key c = Some k) cs" by blast
    show "sortedRetryKeys (tasksRetried ?m) = sort_key (\<lambda>(w, code). w @ CHR 0x00 # code) (remdups (List.map_filter retried_key cs))"
      unfolding sortedRetryKeys_def
      by (rule sorted_keys) (use b retried_keys_inj [OF assms] in simp_all)
  qed
  note hk = hist_keys [of cs]
  have h: "sortedStringKeys (executionHist ?m) = sort (remdups (map fst (List.map_filter completed_key cs)))"
    unfolding sortedStringKeys_def by (rule sorted_keys) (use hk in simp_all)
  have "(case map_of (executionHist ?m) w of None \<Rightarrow> [] | Some hist \<Rightarrow> write_histogram isPrint (durationBuckets ?m) w hist) =
      concat (map (expose_sample isPrint) (duration_samples cs w))" if "w \<in> set (sortedStringKeys (executionHist ?m))" for w
  proof -
    from that obtain hist where "map_of (executionHist ?m) w = Some hist"
      by (auto simp: sortedStringKeys_def dest: weak_map_of_SomeI)
    with exposed_histogram show ?thesis by simp
  qed
  then have "concat (map (\<lambda>w. case map_of (executionHist ?m) w of None \<Rightarrow> [] | Some hist \<Rightarrow>
        write_histogram isPrint (durationBuckets ?m) w hist) (sortedStringKeys (executionHist ?m))) =
      concat (map (expose_sample isPrint) (concat (map (duration_samples cs) (sortedStringKeys (executionHist ?m)))))"
    unfolding concat_nested [symmetric] by (intro arg_cong [of _ _ concat] map_cong refl)
  then show ?thesis
    unfolding write_metrics_def counters c t
    by (simp add: call_families_def call_count_def h writeHelp_def writeType_def sample_line_def label_def show_times
        comp_def case_prod_unfold)
qed

theorem ServeHTTP_answer:
  assumes "list_all plain_call cs" "reordered (fold record_call cs NewMetrics) m"
  shows "ServeHTTP isPrint stats m = metrics_answer isPrint stats cs"
  using text_order [OF metrics_wf_calls [OF assms(1)] assms(2)] exposed_calls [OF assms(1)]
  by (simp add: ServeHTTP_def metrics_answer_def exposed_stats split: option.split sum.split)

end
