(* ===== verification/Spec2Isabelle.thy ===== *)
theory Spec2Isabelle
  imports QueryFacts LeaseSamples ServiceRuns StatsFacts ReaperRuns StoreHistory HttpRuns
    RemoteSamples MySqlBusy MetricsSpec
begin

text \<open>
  Verification of taskpulse, a task queue with leases, retries and an event log.

  The program.  Clients create tasks, read and list them and cancel them
  (\<open>internal/application/task_service.go\<close>).  Workers, outside the server
  (\<open>internal/application/worker_task_service.go\<close>) or inside it
  (\<open>internal/worker/worker.go\<close>), claim a task, hold a lease on it that they renew, and complete
  it, fail it, report progress or give it back.  A failure may be retried after a delay
  (\<open>retry_policy.go\<close>, \<open>retry_scheduler.go\<close>); a reaper (\<open>reaper.go\<close>) fails tasks whose worker
  has gone and whose retries are used up.  All of them act on stores of tasks and events
  (\<open>internal/store\<close>), which compare versions to detect concurrent changes.  Requests reach
  the services over HTTP (\<open>internal/transport/http\<close>); Go programs send them with a client
  library (\<open>pkg/taskpulse\<close>), and workers outside the server are built on a runtime
  (\<open>pkg/taskpulseworker\<close>) that claims tasks, runs an executor and keeps the lease.

  Data.  An instant is an \<open>int\<close>, the nanoseconds since the zero time of Go; a duration is an
  \<open>int\<close> with the saturation or wrap-around of 64 bits written out where the code computes with
  it; a version is a \<open>64 word\<close>; a string is a list of bytes.  A Go map that the code ranges over
  is an association list with an unknown order of iteration, a parameter \<open>rng\<close> with
  \<open>range_order rng\<close>.  An error is a value of the datatype \<open>error\<close>; a fallible call returns
  \<open>Inl\<close> of it or \<open>Inr\<close> of its value; a stateful one also the state (\<open>Ops\<close>).  Clock readings,
  generated ids and random numbers are arguments.

  The theories, from the bottom up.
  \<^item> \<open>Prelude\<close>, \<open>Errors\<close>, \<open>Ops\<close>: integers, strings, scans of maps, errors, calls.
  \<^item> \<open>Base64\<close>, \<open>Json\<close>, \<open>JsonRoundtrip\<close>, \<open>JsonValue\<close>, \<open>Rfc3339\<close>, \<open>Rfc3339Parse\<close>, \<open>Quote\<close>: what
    the program uses of the standard library's encodings, with their round trips.  The JSON
    reader is fuelled with twice the length of its text plus two, which \<open>parse_json_print\<close>
    shows to be enough for every value the program writes.
  \<^item> \<open>Domain\<close>, \<open>DomainFacts\<close>: \<open>internal/domain\<close>; tasks, events, the graph of statuses, and the
    well-formedness \<open>task_wf\<close> that every operation keeps.
  \<^item> \<open>MemoryStore\<close>, \<open>TransitionStore\<close>: the memory stores of \<open>internal/store\<close>.  \<open>StoreFacts\<close>
    lists the outcomes of each operation; \<open>StoreSteps\<close> turns them into a state machine
    (\<open>store_step\<close>, \<open>reachable\<close>) and proves its invariant \<open>stores_wf\<close>; \<open>StoreHistory\<close> follows one
    task through it; \<open>ClaimOrder\<close> says which task a claim takes.
  \<^item> \<open>Query\<close>, \<open>StatsFacts\<close>, \<open>QueryFacts\<close>: lists, pages and statistics.
  \<^item> \<open>StoreInterface\<close>: the stores as the services see them (\<open>runtimeStores\<close> of
    \<open>cmd/taskpulse/storage.go\<close>), their contract, the locale \<open>task_stores\<close>, and the memory
    backend \<open>memory_stores\<close>, an interpretation of it.  Concurrency is in the state: the other
    clients act before every operation, as the schedule of the state says, by steps of the
    store machine (\<open>env_step\<close>) that do not exhaust the 64 bits of a version.
  \<^item> \<open>QueueSpec\<close>: what a queue of tasks promises, without maps, indexes and scans: for each operation,
    on every branch, its answer and the entry of the tasks and logs it changes; the memory backend
    keeps it at one instant, under any interleaving (\<open>at_once\<close>).
  \<^item> \<open>Retry\<close>, \<open>LeaseToken\<close>, \<open>WorkerService\<close>: backoff, retry scheduling, lease tokens and the
    worker protocol.  \<open>WorkerFacts\<close>, \<open>WorkerSpecs\<close>, \<open>RetrySpecs\<close>, \<open>FailSpecs\<close> prove, inside the
    locale, what each request may do; the retry scheduler is an interface of its own
    (\<open>retry_service\<close>), which the scheduler for external workers keeps.  \<open>WorkerRuns\<close> and
    \<open>WorkerLimits\<close> run the protocol on the memory stores; \<open>LeaseSpecs\<close> specifies claims and
    heartbeats in the terms of \<open>QueueSpec\<close>.
  \<^item> \<open>InternalWorker\<close>, \<open>InternalSpecs\<close>, \<open>InternalRounds\<close>, \<open>ReaperRuns\<close>: the workers inside the
    server, the reaper and their loops.  \<open>InternalSpecs\<close> says how each answer of an executor closes
    the task, \<open>InternalRounds\<close> that a round without interference does so.  The renewals of a round
    are taken before the executor's answer, which they cannot influence.  The loops may run for ever; they are given the rounds they have run, so
    that what is shown holds after any number of rounds.
  \<^item> \<open>TaskService\<close>, \<open>ServiceSpecs\<close>, \<open>ServiceRuns\<close>: the service for clients.
  \<^item> \<open>GoDuration\<close>, \<open>RequestBody\<close>, \<open>Http\<close>: \<open>internal/transport/http\<close>; durations and integers as
    text, JSON bodies decoded into structs, the handlers, routes and statuses.  \<open>HttpSpecs\<close>
    proves, in a locale \<open>http_server\<close> that extends the contract of the stores, that a request
    changes them at most once; \<open>HttpRuns\<close> follows repeated and refused requests.
  \<^item> \<open>Wire\<close>, \<open>Client\<close>: \<open>pkg/taskpulse/client.go\<close>; durations, structs, raw JSON and path segments as
    text, the requests of the client library and the responses it decodes, over any transport.
    \<open>DurationFacts\<close> and \<open>WireFacts\<close> prove that durations, through the floating-point arithmetic of
    \<open>time.ParseDuration\<close>, and printed JSON survive the way; \<open>ClientSpecs\<close> that a call of the
    library is one request, which the server answers with the operation of the same name;
    \<open>ServerWire\<close> that the tasks in responses are read back, and what a lost request or a lost
    response does.
  \<^item> \<open>WorkerLibrary\<close>, \<open>WorkerLibraryFacts\<close>: \<open>pkg/taskpulseworker/runtime.go\<close>; the heartbeat
    goroutine and the reports of the executor interleave step by step (copy, call, write), as
    an explicit sequence of steps; the loop is given the rounds it has run.
  \<^item> \<open>RemoteRuns\<close>: a worker from end to end, in a locale \<open>remote_session\<close> of a client and a server
    with memory stores that reach each other, interpreted on the memory backend.
  \<^item> \<open>Sql\<close>, \<open>MySqlStore\<close>, \<open>MySqlQuery\<close>: \<open>internal/store/mysqlstore\<close> and the schema of \<open>migrations\<close>;
    the two tables, the effect of each statement on them, the session of \<open>database/sql\<close>, and every
    store operation, statement by statement (the names end in \<open>_my\<close>).  \<open>SqlFacts\<close>, \<open>MySqlRows\<close> and
    \<open>MySqlOps\<close> carry statements on rows over to operations on tasks; \<open>MySqlRefines\<close> and \<open>MySqlSteps\<close>
    prove the simulation by the memory stores, \<open>MySqlAnswers\<close> and \<open>MySqlQueryFacts\<close> that claims and
    queries give the same answers, \<open>MySqlConcurrency\<close> that a call among other clients is one step
    between theirs, \<open>MySqlTypes\<close> that the tables stay well typed (a locale \<open>kept_tables\<close>,
    interpreted on the schema), \<open>MySqlLimits\<close> where the backends differ.
  \<^item> \<open>Observability\<close>, \<open>ObservabilityFacts\<close>, \<open>MetricsSpec\<close>: \<open>internal/observability/metrics.go\<close>; the
    counters, the histogram and the text of \<open>/metrics\<close>, which \<open>MetricsSpec\<close> tells from the calls of
    the recorders alone.
  \<^item> \<open>Samples\<close>, \<open>LeaseSamples\<close>, \<open>RemoteSamples\<close>, \<open>MySqlSamples\<close>, \<open>MySqlBusy\<close>: concrete tasks, stores, requests, workers, servers
    and tables, to which the properties are applied.

  The properties below come in groups: the stores as a state machine and the fencing of
  every request (C1 to C13, except C10), the order of claims (C14), the MySQL stores (C15, C16,
  C26, C28, C33, C35), the worker protocol request after request (C17, C19, C21, C22), retries
  (C23 to C25), idempotent creation (C27), lists and statistics (C31, C32), the reaper (C34),
  requests over HTTP (C36 to C38), the metrics (C39), and workers over the network: the worker
  from end to end (C10), its race between heartbeats and reports (C18), outages (C20), the
  encoding of tasks and durations (C29, C30) and the calls of the client library as operations
  of the service (C40).

  The database.  MySQL and its driver enter as the parameter \<open>mysql_server\<close> (how texts compare, what
  \<open>DATETIME(6)\<close>, \<open>JSON\<close> and \<open>VARCHAR\<close> columns store, how errors read) and as the faults and arrivals
  of a session: any call may fail, a commit may be lost or reported lost, and other clients act
  between the transactions (C28; the operations of C15 follow one another; neither has rows held by
  an open transaction when a claim looks for a task).  Of the message of a duplicate entry only the
  name of the key matters to the code, so messages depend on the error number and that name.  A transaction is taken to be isolated; what \<open>READ COMMITTED\<close> would let
  through between its statements is held off by the row locks of \<open>FOR UPDATE SKIP LOCKED\<close> and the
  compared versions, which is not proved here.  The refinement is stated for texts on which the
  collation agrees with byte order (\<open>server_ok\<close>), instants in whole microseconds and distinct lease
  ends: beyond them the backends differ.  The collation of MySQL ignores case; of two tasks whose
  lease ends at the same instant MySQL takes the older and the memory store the smaller id; ties of
  the event log are ordered by id in MySQL; statistics are two statements; and C33 and C35 show two
  requests that only MySQL refuses.

  Bounds.  Versions have 64 bits, and the steps of other clients do not exhaust them.  A
  \<open>float64\<close> is its mantissa and exponent, rounded to nearest even after each operation; the text
  of a sum tries up to 17 digits, which determine a double.

  Not modelled: \<open>internal/platform/database\<close>, which opens connections and runs migrations; the pages
  of the dashboard; the bodies of HTTP responses other than tasks and errors; logging; the
  executors, which enter as parameters; the programs under \<open>cmd\<close> except the retry scheduler, the
  handler and the memory backend.
\<close>

section \<open>The stores as a state machine\<close>

text \<open>
  C1. In every state the stores can reach from empty, by any sequence of calls, the maps and
  indexes are consistent, every stored task is well-formed (a lease exactly while running, a
  finish time exactly in a terminal status, the retry counter within its budget, progress
  between 0 and 100) and its event log agrees with its status, progress, retry counter and
  version.
\<close>

theorem reachable_stores_wf: "reachable m \<Longrightarrow> stores_wf m"
  by (rule reachable_wf)

theorem reachable_stores_wf_witness:
  "stores_wf sample_stores \<and> stored_task sample_stores ''task_1'' = Some sample_task"
  using reachable_stores_wf [OF sample_reachable] sample_lookup by simp

text \<open>
  C2. The memory backend keeps the contract of a queue of tasks.  Under any interleaving with other
  clients and in whatever order Go visits its maps, each operation acts at one instant, and what it
  answers and stores is told by the tasks and logs alone, on every branch (\<open>QueueSpec\<close>): reads; the
  renewal of a held lease; the creation of a task or the replay of its key; the claim of the first
  task in the order of abandoned leases, then of due dates; the failure of the first abandoned task
  without retries; an update at the version that is stored; a cancellation.  Everything else is
  refused with the error named there and changes nothing; only an ended context refuses more.
\<close>

theorem memory_backend_refines:
  assumes "range_order rng1" "range_order rng2" "range_order rng3"
    and "fair_schedule s" "stores_wf (stores_rt s)" "S = memory_stores rng1 rng2 rng3"
  shows "at_once s (Get_rs S tid s) (get_spec tid) \<and>
    at_once s (ListByTaskID_rs S tid s) (events_spec tid) \<and>
    at_once s (RenewLease_rs S \<lparr>TaskID_rl = tid, WorkerID_rl = w, Now_rl = now, LeaseDuration_rl = d\<rparr> s) (renew_spec tid w now d) \<and>
    at_once s (CreateTaskWithEvent_rs S (Some t) (Some ev) s) (create_spec t ev) \<and>
    at_once s (ClaimNextWithEvent_rs S
      \<lparr>WorkerID_co = w, Workflow_co = workflow, Now_co = now, LeaseDuration_co = d\<rparr> eid s) (claim_spec w workflow now d eid) \<and>
    at_once s (FailNextExpiredWithEvent_rs S now eid s) (reap_spec now eid) \<and>
    at_once s (UpdateTaskWithEvent_rs S (Some t) (Some ev) s) (update_spec t ev) \<and>
    at_once s (CancelTaskWithEvent_rs S tid eid now s) (cancel_spec tid eid now)"
  unfolding assms(6)
  by (intro conjI memory_reads_meet memory_renew_meets memory_writes_meet memory_takes_meet assms(1-5))

theorem memory_backend_refines_witness:
  "fst (UpdateTaskWithEvent_rs sample_memory (Some (leased_task\<lparr>Version := 7\<rparr>)) (Some leased_event) leased_runtime) = Inl ErrTaskConflict \<and>
   fst (RenewLease_rs sample_memory \<lparr>TaskID_rl = ''task_1'', WorkerID_rl = ''w1'', Now_rl = 50, LeaseDuration_rl = 70\<rparr> leased_runtime) = Inr ()"
proof -
  note spec = memory_backend_refines [OF range_order_id range_order_id range_order_id fair_schedule_start _ refl, of leased_stores]
  have "at_once leased_runtime (UpdateTaskWithEvent_rs sample_memory (Some (leased_task\<lparr>Version := 7\<rparr>)) (Some leased_event) leased_runtime)
      (update_spec (leased_task\<lparr>Version := 7\<rparr>) leased_event)"
    "at_once leased_runtime (RenewLease_rs sample_memory
      \<lparr>TaskID_rl = ''task_1'', WorkerID_rl = ''w1'', Now_rl = 50, LeaseDuration_rl = 70\<rparr> leased_runtime) (renew_spec ''task_1'' ''w1'' 50 70)"
    using spec leased_wf by simp_all
  then show ?thesis
    by (auto simp: at_once_def update_spec_def renew_spec_def refused_with_def leased_lookup holds_def leased_event_def start_runtime_def
        split: prod.splits)
qed

text \<open>
  C3. Fencing of \<open>CompleteTask\<close>, under any interleaving with other clients: it ends with an
  error and no change of its own, or answers a repeated request with the task that is one
  version past the token and has an equal result, or changes exactly one task, once: the task
  named by the token, still running, leased to the worker of the token and at the version of
  the token, which becomes succeeded with the result of the request.
\<close>

theorem complete_fenced:
  assumes "range_order rng1" "range_order rng2" "range_order rng3"
    and "fair_schedule s" "stores_wf (stores_rt s)"
    and "CompleteTask (memory_stores rng1 rng2 rng3) pnow now eid input s = (r, s')"
  shows "fenced_outcome stores_rt fair_schedule (TaskID_cm input) (WorkerID_cm input) (LeaseToken_cm input)
    (\<lambda>t. Status t = TaskStatusSucceeded \<and> jsonSemanticallyEqual (Result t) (completion_result input))
    (\<lambda>r t0 t ev. r = Inr t \<and> Status t = TaskStatusSucceeded \<and> Result t = completion_result input \<and>
       Progress t = 100 \<and> FinishedAt t = Some now \<and> Type_ev ev = EventTaskSucceeded \<and>
       (\<exists>l. LeaseExpiresAt t0 = Some l \<and> pnow < l)) s r s'"
  by (rule task_stores.CompleteTask_spec [OF memory_task_stores [OF assms(1-3)] assms(4-6)])

theorem complete_fenced_witness:
  "fenced_outcome stores_rt fair_schedule ''task_1'' ''w1'' sample_token
    (\<lambda>t. Status t = TaskStatusSucceeded \<and> jsonSemanticallyEqual (Result t) ''{}'')
    (\<lambda>r t0 t ev. r = Inr t \<and> Status t = TaskStatusSucceeded \<and> Result t = ''{}'' \<and>
       Progress t = 100 \<and> FinishedAt t = Some 60 \<and> Type_ev ev = EventTaskSucceeded \<and>
       (\<exists>l. LeaseExpiresAt t0 = Some l \<and> 50 < l)) leased_runtime
    (fst (CompleteTask sample_memory 50 60 ''event_3'' sample_complete leased_runtime))
    (snd (CompleteTask sample_memory 50 60 ''event_3'' sample_complete leased_runtime))"
  using complete_fenced [where s = leased_runtime and pnow = 50 and now = 60 and eid = "''event_3''" and input = sample_complete,
      OF range_order_id range_order_id range_order_id fair_schedule_start _ surjective_pairing] leased_wf
  by (simp add: sample_complete_def completion_result_def)

text \<open>
  C4. Fencing of \<open>FailTask\<close> with the retry scheduler for external workers: the task the token
  fences is failed for good, or, only if the failure is retryable, put back with one more
  retry used and a later time at which it becomes available.
\<close>

theorem fail_fenced:
  assumes "range_order rng1" "range_order rng2" "range_order rng3"
    and "fair_schedule s" "stores_wf (stores_rt s)"
    and "FailTask (memory_stores rng1 rng2 rng3)
      (Some (externalSchedule (memory_stores rng1 rng2 rng3) jit seid snow)) pnow now eid input s = (r, s')"
  shows "fenced_outcome stores_rt fair_schedule (TaskID_fi input) (WorkerID_fi input) (LeaseToken_fi input)
    (\<lambda>t. Status t \<in> {TaskStatusRetrying, TaskStatusFailed} \<and> ErrorMessage t = failure_message input)
    (failed_or_retried input now) s r s'"
  by (rule task_stores.externalFailTask_spec [OF memory_task_stores [OF assms(1-3)] assms(4-6)])

theorem fail_fenced_witness:
  "fenced_outcome stores_rt fair_schedule ''task_1'' ''w1'' sample_token
    (\<lambda>t. Status t \<in> {TaskStatusRetrying, TaskStatusFailed} \<and> ErrorMessage t = ''boom: it broke'')
    (failed_or_retried sample_fail 60) leased_runtime
    (fst (FailTask sample_memory (Some (externalSchedule sample_memory (\<lambda>_. 0) ''event_3'' 55)) 50 60 ''event_4''
       sample_fail leased_runtime))
    (snd (FailTask sample_memory (Some (externalSchedule sample_memory (\<lambda>_. 0) ''event_3'' 55)) 50 60 ''event_4''
       sample_fail leased_runtime))"
  using fail_fenced [where s = leased_runtime and jit = "\<lambda>_. 0" and seid = "''event_3''" and snow = 55 and pnow = 50 and now = 60
      and eid = "''event_4''" and input = sample_fail,
      OF range_order_id range_order_id range_order_id fair_schedule_start _ surjective_pairing] leased_wf
  by (simp add: sample_fail_def failure_message_def)

text \<open>
  C5. Fencing of \<open>ReportProgress\<close>: only the progress (between 0 and 99) and the time of the
  update of the fenced task change, and a progress event is appended.
\<close>

theorem progress_fenced:
  assumes "range_order rng1" "range_order rng2" "range_order rng3"
    and "fair_schedule s" "stores_wf (stores_rt s)"
    and "ReportProgress (memory_stores rng1 rng2 rng3) pnow now eid input s = (r, s')"
  shows "fenced_outcome stores_rt fair_schedule (TaskID_pi input) (WorkerID_pi input) (LeaseToken_pi input) (\<lambda>_. False)
    (\<lambda>_ t0 t ev. t = t0\<lparr>Progress := Progress_pi input, UpdatedAt := now\<rparr> \<and> 0 \<le> Progress t \<and> Progress t < 100 \<and>
       Type_ev ev = EventTaskProgress \<and> Message_ev ev = progress_message input \<and>
       (\<exists>l. LeaseExpiresAt t0 = Some l \<and> pnow < l)) s r s'"
  by (rule task_stores.ReportProgress_spec [OF memory_task_stores [OF assms(1-3)] assms(4-6)])

theorem progress_fenced_witness:
  "fenced_outcome stores_rt fair_schedule ''task_1'' ''w1'' sample_token (\<lambda>_. False)
    (\<lambda>_ t0 t ev. t = t0\<lparr>Progress := 40, UpdatedAt := 60\<rparr> \<and> 0 \<le> Progress t \<and> Progress t < 100 \<and>
       Type_ev ev = EventTaskProgress \<and> Message_ev ev = progress_message sample_progress \<and>
       (\<exists>l. LeaseExpiresAt t0 = Some l \<and> 50 < l)) leased_runtime
    (fst (ReportProgress sample_memory 50 60 ''event_3'' sample_progress leased_runtime))
    (snd (ReportProgress sample_memory 50 60 ''event_3'' sample_progress leased_runtime))"
  using progress_fenced [where s = leased_runtime and pnow = 50 and now = 60 and eid = "''event_3''" and input = sample_progress,
      OF range_order_id range_order_id range_order_id fair_schedule_start _ surjective_pairing] leased_wf
  by (simp add: sample_progress_def)

text \<open>
  C6. Fencing of \<open>ReleaseTask\<close>: the fenced task goes back to the queue as
  \<open>RequeueForRelease\<close> says, or the answer to a repeated release is the queued task.
\<close>

theorem release_fenced:
  assumes "range_order rng1" "range_order rng2" "range_order rng3"
    and "fair_schedule s" "stores_wf (stores_rt s)"
    and "ReleaseTask (memory_stores rng1 rng2 rng3) pnow now eid input s = (r, s')"
  shows "fenced_outcome stores_rt fair_schedule (TaskID_ri input) (WorkerID_ri input) (LeaseToken_ri input)
    (\<lambda>t. Status t = TaskStatusQueued)
    (\<lambda>_ t0 t ev. RequeueForRelease (Some t0) now = Inr t \<and> Type_ev ev = EventTaskReleased \<and>
       (\<exists>l. LeaseExpiresAt t0 = Some l \<and> pnow < l)) s r s'"
  by (rule task_stores.ReleaseTask_spec [OF memory_task_stores [OF assms(1-3)] assms(4-6)])

theorem release_fenced_witness:
  "fenced_outcome stores_rt fair_schedule ''task_1'' ''w1'' sample_token
    (\<lambda>t. Status t = TaskStatusQueued)
    (\<lambda>_ t0 t ev. RequeueForRelease (Some t0) 60 = Inr t \<and> Type_ev ev = EventTaskReleased \<and>
       (\<exists>l. LeaseExpiresAt t0 = Some l \<and> 50 < l)) leased_runtime
    (fst (ReleaseTask sample_memory 50 60 ''event_3'' sample_release leased_runtime))
    (snd (ReleaseTask sample_memory 50 60 ''event_3'' sample_release leased_runtime))"
  using release_fenced [where s = leased_runtime and pnow = 50 and now = 60 and eid = "''event_3''" and input = sample_release,
      OF range_order_id range_order_id range_order_id fair_schedule_start _ surjective_pairing] leased_wf
  by (simp add: sample_release_def)

text \<open>
  C7. A heartbeat renews the lease its token stands for, and only that.  Under any interleaving it
  ends with an error and no change of its own; or there was an instant at which the stored task
  had the version and the owner of the token, and a later one at which its worker held a lease that
  had not run out, and then the end of the lease was set to the duration asked for from now, and
  nothing else changed but the times of the heartbeat and of the update.  Undisturbed, the answer is
  exact: a token of another version, owner or task and a lease that has run out are refused and
  change nothing, everything else renews.  (A duration shorter than what is left of the lease
  brings its end forward.)
\<close>

theorem heartbeat_renews_lease:
  assumes "range_order rng1" "range_order rng2" "range_order rng3"
    and "fair_schedule s" "stores_wf (stores_rt s)"
    and "HeartbeatTask (memory_stores rng1 rng2 rng3) now input s = (r, s')"
  shows "fair_schedule s' \<and> stores_wf (stores_rt s') \<and>
    (env_step\<^sup>*\<^sup>* (stores_rt s) (stores_rt s') \<and> (\<exists>e. r = Inl e) \<or>
     (\<exists>m0 m1 m2 p t t0. env_step\<^sup>*\<^sup>* (stores_rt s) m0 \<and> env_step\<^sup>*\<^sup>* m0 m1 \<and> store_step m1 m2 \<and> env_step\<^sup>*\<^sup>* m2 (stores_rt s') \<and>
        token_claims (TaskID_hi input) (WorkerID_hi input) (LeaseToken_hi input) = Inr p \<and>
        stored_task m0 (TaskID_hi input) = Some t \<and> Version t = Version_lt p \<and> LeaseOwner t = WorkerID_hi input \<and>
        stored_task m1 (TaskID_hi input) = Some t0 \<and> holds (WorkerID_hi input) now t0 \<and> 0 < LeaseDuration_hi input \<and>
        stored_task m2 = (stored_task m1)(TaskID_hi input \<mapsto> with_renewal now (LeaseDuration_hi input) t0) \<and>
        eventStore m2 = eventStore m1 \<and>
        (\<forall>u. r = Inr u \<longrightarrow> (\<exists>v. stored_task (stores_rt s') (TaskID_hi input) = Some v \<and> u = withLeaseToken v)))) \<and>
    (schedule_rt s = [] \<longrightarrow> heartbeat_spec input now (stores_rt s) r (stores_rt s'))"
  using HeartbeatTask_interleaved [OF assms] HeartbeatTask_meets [OF _ assms(6)] unfolding idle_def by blast

theorem heartbeat_renews_lease_witness:
  "\<exists>u. fst (HeartbeatTask sample_memory 50 (sample_heartbeat\<lparr>LeaseDuration_hi := 70\<rparr>) leased_runtime) = Inr u \<and>
     LeaseExpiresAt u = Some 120 \<and> Version u = 1"
proof -
  let ?i = "sample_heartbeat\<lparr>LeaseDuration_hi := 70\<rparr>"
  have "heartbeat_spec ?i 50 leased_stores (fst (HeartbeatTask sample_memory 50 ?i leased_runtime))
      (stores_rt (snd (HeartbeatTask sample_memory 50 ?i leased_runtime)))"
    using heartbeat_renews_lease [where s = leased_runtime and now = 50 and input = ?i,
      OF range_order_id range_order_id range_order_id fair_schedule_start _ surjective_pairing] leased_wf
    by (simp add: start_runtime_def)
  moreover have "TrimSpace ''w1'' = ''w1''" by (rule TrimSpace_visible) (simp_all add: visible_def)
  ultimately show ?thesis
    using token_claims_makeLeaseToken [OF leased_token_ok]
    by (auto simp: heartbeat_spec_def Let_def sample_heartbeat_def sample_token_def leased_lookup holds_def with_token_def with_renewal_def)
qed

text \<open>
  C8. \<open>ClaimTask\<close>, on every branch and under any interleaving.  A request without a worker, a workflow
  or a positive duration is refused.  Otherwise it acts at one instant: when no task of the workflow
  may be taken it reports that; else it takes the first one (a running task whose lease has run out
  and that has retries left, by the end of the lease; when there is none, a queued or retrying task
  that is due, by its due date), gives the worker the lease asked for, and answers with the leased
  task and a token that stands for it.
\<close>

theorem claim_grants_lease:
  assumes "range_order rng1" "range_order rng2" "range_order rng3"
    and "fair_schedule s" "stores_wf (stores_rt s)"
    and "ClaimTask (memory_stores rng1 rng2 rng3) now eid input s = (r, s')"
  shows "stores_wf (stores_rt s') \<and> at_once s (r, s') (claim_task_spec input now eid)"
  using ClaimTask_meets [OF assms(4,5,1-3), of now eid input] assms(6)
    task_stores.ClaimTask_spec [OF memory_task_stores [OF assms(1-3)] assms(4-6)] by simp

theorem claim_grants_lease_witness:
  "\<exists>u. fst (ClaimTask sample_memory 50 ''event_2'' sample_claim sample_runtime) = Inr u \<and>
     ID u = ''task_1'' \<and> LeaseOwner u = ''w1'' \<and> LeaseExpiresAt u = Some 100 \<and> Version u = 1"
proof -
  have "at_once sample_runtime (ClaimTask sample_memory 50 ''event_2'' sample_claim sample_runtime) (claim_task_spec sample_claim 50 ''event_2'')"
    using claim_grants_lease [where s = sample_runtime and now = 50 and eid = "''event_2''" and input = sample_claim,
      OF range_order_id range_order_id range_order_id fair_schedule_start _ surjective_pairing] sample_wf by simp
  then have "claim_task_spec sample_claim 50 ''event_2'' sample_stores
      (fst (ClaimTask sample_memory 50 ''event_2'' sample_claim sample_runtime))
      (stores_rt (snd (ClaimTask sample_memory 50 ''event_2'' sample_claim sample_runtime)))"
    by (auto simp: at_once_def start_runtime_def split: prod.splits)
  with sample_claim_spec show ?thesis by blast
qed

text \<open>
  C9. One round of an internal worker.  Under any interleaving, whatever its executor answers: it
  claims nothing, or it claims one task that may be taken, on the lease of the worker, and then
  either reports an error and leaves the task to its lease, or closes it with exactly one change,
  made while the task still has the version it was claimed at.  That change is the one the answer
  calls for: succeeded, partly succeeded or failed as the result says; failed with the code of the
  error, or put back for later exactly when the error is transient and policy and task have retries
  left; failed when the workflow has no executor.  The answer is that of the executor for this task,
  unless a renewal of the lease was refused.  Undisturbed by other clients, the round takes the task
  the order of claims names, and a round whose executor answers with a result, with every renewal in
  time, has no error and leaves the task as the result says.  The executors cannot reach the stores.
\<close>

theorem internal_worker_round:
  assumes "range_order rng1" "range_order rng2" "range_order rng3"
    and "fair_schedule s" "stores_wf (stores_rt s)" "storeless_worker stores_rt fair_schedule w"
    and "ProcessNext (memory_stores rng1 rng2 rng3) w env s = (r, s')"
  shows "worker_round stores_rt fair_schedule w env s r s' \<and>
    (schedule_rt s = [] \<longrightarrow> round_spec w env (stores_rt s) r (stores_rt s'))"
  using task_stores.ProcessNext_spec [OF memory_task_stores [OF assms(1-3)] assms(4-7)]
    ProcessNext_undisturbed [OF assms(1,2) _ assms(5,7)] unfolding idle_def by blast

theorem internal_worker_round_witness:
  "fst (ProcessNext sample_memory sample_worker sample_env sample_runtime) = (True, None) \<and>
   (\<exists>u. stored_task (stores_rt (snd (ProcessNext sample_memory sample_worker sample_env sample_runtime))) ''task_1'' = Some u \<and>
     Status u = TaskStatusPartial \<and> Result u = ''{}'' \<and> ErrorMessage u = ''late'' \<and> Version u = 2)"
proof -
  have "round_spec sample_worker sample_env sample_stores (fst (ProcessNext sample_memory sample_worker sample_env sample_runtime))
      (stores_rt (snd (ProcessNext sample_memory sample_worker sample_env sample_runtime)))"
    using internal_worker_round [OF range_order_id range_order_id range_order_id fair_schedule_start _
      sample_worker_storeless surjective_pairing, of sample_stores sample_env] sample_wf by (simp add: start_runtime_def)
  from sample_round_spec [OF this] show ?thesis .
qed

text \<open>
  C11. Over any number of steps a task stays in the store, keeps the fields fixed at its
  creation, and its event log only grows; a task in a terminal status never changes again.
\<close>

theorem task_history:
  assumes "store_step\<^sup>*\<^sup>* m m'" "stores_wf m" "stored_task m tid = Some t"
  shows "\<exists>u. stored_task m' tid = Some u \<and> task_frame t u \<and>
    prefix (stored_events m tid) (stored_events m' tid) \<and>
    (Status t \<in> terminalStatuses \<longrightarrow> u = t \<and> stored_events m' tid = stored_events m tid)"
  using assms by (rule store_steps_task)

theorem task_history_witness:
  "\<exists>u. stored_task sample_stores ''task_1'' = Some u \<and> task_frame sample_task u \<and>
    prefix (stored_events sample_stores ''task_1'') (stored_events sample_stores ''task_1'')"
  using task_history [OF rtranclp.rtrancl_refl sample_wf sample_lookup] by blast

text \<open>
  C12. A step changes the status of a task only along \<open>CanTransition\<close>, or from running back to
  queued (a release).
\<close>

theorem status_follows_graph:
  assumes "store_step m m'" "stores_wf m" "stored_task m tid = Some t" "stored_task m' tid = Some u"
  shows "Status u = Status t \<or> CanTransition (Status t) (Status u) \<or>
    Status t = TaskStatusRunning \<and> Status u = TaskStatusQueued"
  using store_step_status [OF assms] by (auto simp: status_move_def)

theorem status_follows_graph_witness:
  "\<exists>u. stored_task (snd (CancelTaskWithEvent None ''task_1'' ''event_2'' 30 sample_stores)) ''task_1'' = Some u \<and>
     Status u = TaskStatusCanceled \<and> CanTransition TaskStatusQueued TaskStatusCanceled"
proof -
  let ?m = "snd (CancelTaskWithEvent None ''task_1'' ''event_2'' 30 sample_stores)"
  have st: "stored_task ?m ''task_1'' = Some (sample_task\<lparr>Status := TaskStatusCanceled, UpdatedAt := 30,
      FinishedAt := Some 30, Version := 1\<rparr>)"
    by (simp add: CancelTaskWithEvent_def sample_lookup sample_stores_eq MoveTo_def enter_status_def
        NewTaskCanceledEvent_def NewTaskEvent_def NewMemoryEventStore_def IsZero_def Let_def sample_defs)
  from status_follows_graph [OF store_step.cancel [OF surjective_pairing] sample_wf sample_lookup st]
  have "CanTransition TaskStatusQueued TaskStatusCanceled" by (simp add: sample_task_def)
  with st show ?thesis by simp
qed

text \<open>
  C13. The event log is a faithful record: in every reachable state the last event of a task
  tells its status and progress, the retry and recovery events add up to its retry counter,
  and the number of events is its version plus one.
\<close>

theorem audit_log_faithful:
  assumes "reachable m" "stored_task m tid = Some t"
  shows "stored_events m tid \<noteq> [] \<and>
    event_status (Type_ev (last (stored_events m tid))) = Some (Status t) \<and>
    Progress_ev (last (stored_events m tid)) = Progress t \<and>
    sum_list (map event_retries (stored_events m tid)) = RetryCount t \<and>
    of_nat (length (stored_events m tid)) = Version t + 1"
  using stores_wf_lookup(3) [OF reachable_wf [OF assms(1)] assms(2)] by (simp add: log_matches_def)

theorem audit_log_faithful_witness: "of_nat (length (stored_events sample_stores ''task_1'')) = Version sample_task + 1"
  using audit_log_faithful [OF sample_reachable sample_lookup] by blast

section \<open>Scheduling\<close>

text \<open>
  C14. Which task is claimed, and which is reaped, does not depend on the order in which Go
  visits its maps.
\<close>

theorem claim_order_irrelevant:
  assumes "stores_wf m" "range_order rng1" "range_order rng2" "range_order rng1'" "range_order rng2'"
  shows "ClaimNextWithEvent rng1 rng2 ctx o1 eid m = ClaimNextWithEvent rng1' rng2' ctx o1 eid m \<and>
    FailNextExpiredWithEvent rng1 ctx now eid m = FailNextExpiredWithEvent rng1' ctx now eid m"
  using claim_order [OF assms] reap_order [OF assms(1,2,4)] by simp

theorem claim_order_irrelevant_witness:
  "ClaimNextWithEvent rev (\<lambda>m. m) None sample_claim_options ''event_2'' sample_stores =
   ClaimNextWithEvent (\<lambda>m. m) rev None sample_claim_options ''event_2'' sample_stores"
  using claim_order_irrelevant [OF sample_wf, of rev "\<lambda>m. m" "\<lambda>m. m" rev] by (simp add: range_order_def)

text \<open>
  A claim takes the least candidate: among the tasks whose lease ran out with retries
  left the one with the earliest expiry, and only when there is none, among the waiting tasks
  that are due the one that was due first, ties broken by creation time and id.
\<close>

theorem claim_takes_least:
  assumes "stores_wf m" "range_order rng1" "range_order rng2"
    and "select_claim rng1 rng2 o1 (taskStore m) = Some ((k, t), kind)"
  shows "claimable o1 kind t \<and>
    (if kind = ClaimRecovery
     then \<forall>k' u. stored_task m k' = Some u \<longrightarrow> expired_claimable o1 u \<longrightarrow> lease_key t \<le> lease_key u
     else (\<forall>k' u. stored_task m k' = Some u \<longrightarrow> \<not> expired_claimable o1 u) \<and>
       (\<forall>k' u. stored_task m k' = Some u \<longrightarrow> ready_claimable o1 u \<longrightarrow> ready_key t \<le> ready_key u))"
  using select_claim_least [OF assms] select_claim_Some [OF assms(4,2,3)] by simp

text \<open>
  A valid claim with a fresh event id is always served while a task can be claimed, as
  long as the end of the lease can be written as a timestamp (a year below 10000).
\<close>

theorem claim_available:
  assumes "stores_wf m" "range_order rng1" "range_order rng2"
    and "Validate_claim o1 = None" "eid \<noteq> []" "\<not> event_known m eid"
    and "MarshalTime (Now_co o1 + LeaseDuration_co o1) \<noteq> None"
    and "stored_task m k = Some t" "expired_claimable o1 t \<or> ready_claimable o1 t"
  shows "\<exists>u m'. ClaimNextWithEvent rng1 rng2 None o1 eid m = (Inr u, m')"
  using assms by (rule claim_succeeds)

section \<open>The worker protocol, request after request\<close>

text \<open>
  C17. The holder of a lease completes its task: the answer is the completed task, the store
  holds it one version on, and one event is appended.  The same request sent again, at any
  later time, is answered with the stored task and changes nothing.
\<close>

theorem complete_exactly_once:
  fixes now now' :: time
  assumes "holds_lease s t pnow eid"
    and "TaskID_cm input = ID t" "WorkerID_cm input = LeaseOwner t" "LeaseToken_cm input = makeLeaseToken t"
    and "unmarshal_any (completion_result input) \<noteq> None"
  shows "\<exists>s1. CompleteTask (memory_stores rng1 rng2 rng3) pnow now eid input s =
      (Inr (completed t (completion_result input) now), s1) \<and>
    stores_rt s1 = commit (ID t) ((completed t (completion_result input) now)\<lparr>Version := Version t + 1\<rparr>)
      (succeeded_event eid t now) (stores_rt s) \<and>
    CompleteTask (memory_stores rng1 rng2 rng3) pnow' now' eid' input s1 =
      (Inr ((completed t (completion_result input) now)\<lparr>Version := Version t + 1\<rparr>), s1)"
proof -
  let ?u = "(completed t (completion_result input) now)\<lparr>Version := Version t + 1\<rparr>"
  obtain s1 where s1: "CompleteTask (memory_stores rng1 rng2 rng3) pnow now eid input s =
      (Inr (completed t (completion_result input) now), s1)"
    "stores_rt s1 = commit (ID t) ?u (succeeded_event eid t now) (stores_rt s)" "idle s1"
    using CompleteTask_holder [OF assms(1-4)] assms(1) by (auto simp: holds_lease_def)
  moreover have "CompleteTask (memory_stores rng1 rng2 rng3) pnow' now' eid' input s1 = (Inr ?u, s1)"
    using assms s1(2,3)
    by (intro CompleteTask_replay [where t = t])
      (auto simp: completed_def holds_lease_def jsonSemanticallyEqual_def)
  ultimately show ?thesis by blast
qed

theorem complete_exactly_once_witness:
  "\<exists>s1. CompleteTask sample_memory 50 60 ''event_3'' sample_complete leased_runtime =
      (Inr (completed leased_task ''{}'' 60), s1) \<and>
    CompleteTask sample_memory 70 80 ''event_4'' sample_complete s1 =
      (Inr ((completed leased_task ''{}'' 60)\<lparr>Version := 2\<rparr>), s1)"
proof -
  have "holds_lease leased_runtime leased_task 50 ''event_3''" by (rule leased_holder) simp
  from complete_exactly_once [where now = 60 and ?rng1.0 = "\<lambda>m. m" and ?rng2.0 = "\<lambda>m. m" and ?rng3.0 = "\<lambda>m. m"
      and pnow' = 70 and now' = 80 and eid' = "''event_4''", OF this sample_complete_fields(1-3)]
    unmarshal_empty_object sample_complete_fields(4)
  show ?thesis by auto
qed

text \<open>
  C19. A cancellation wins over the worker: once a running task was canceled, the completion
  of the worker that held its lease is refused, and the task stays canceled.
\<close>

theorem canceled_not_completed:
  assumes "holds_lease s t pnow eid"
    and "CancelTask (memory_stores rng1 rng2 rng3) ceid cnow (ID t) s = (Inr u, s1)"
    and "TaskID_cm input = ID t" "WorkerID_cm input = LeaseOwner t" "LeaseToken_cm input = makeLeaseToken t"
  shows "CompleteTask (memory_stores rng1 rng2 rng3) pnow' now eid' input s1 = (Inl ErrLeaseLost, s1) \<and>
    stored_task (stores_rt s1) (ID t) = Some u \<and> Status u = TaskStatusCanceled"
proof -
  have h: "idle s" "stores_wf (stores_rt s)" "stored_task (stores_rt s) (ID t) = Some t" "token_ok t"
    "Status t = TaskStatusRunning" using assms(1) by (auto simp: holds_lease_def)
  note c = CancelTask_idle [OF h(1-3,5) assms(2)]
  have "CompleteTask (memory_stores rng1 rng2 rng3) pnow' now eid' input s1 = (Inl ErrLeaseLost, s1)"
    by (rule CompleteTask_outdated [OF _ _ h(4) _ _ assms(3-5), where u = u]) (use c in simp_all)
  with c show ?thesis by simp
qed

theorem canceled_not_completed_witness:
  "\<exists>u s1. CancelTask sample_memory ''event_3'' 55 ''task_1'' leased_runtime = (Inr u, s1) \<and>
     CompleteTask sample_memory 56 60 ''event_4'' sample_complete s1 = (Inl ErrLeaseLost, s1)"
proof -
  have h: "holds_lease leased_runtime leased_task 50 ''event_3''" by (rule leased_holder) simp
  then have "\<not> event_known leased_stores ''event_3''" by (simp add: holds_lease_def)
  then obtain u s1 where c: "CancelTask sample_memory ''event_3'' 55 ''task_1'' leased_runtime = (Inr u, s1)"
    by (simp add: CancelTask_def bind_def ret_def memory_idle CancelTaskWithEvent_def leased_lookup IsZero_def
        MoveTo_def NewTaskCanceledEvent_def NewTaskEvent_def Let_def)
      (simp add: ret_def leased_task_def sample_task_def)
  with canceled_not_completed [OF h, where input = sample_complete and pnow' = 56 and now = 60 and eid' = "''event_4''"]
    sample_complete_fields show ?thesis by auto
qed

text \<open>
  C21. A retryable failure that was accepted is not idempotent: the same \<open>FailTask\<close> request,
  sent again, is answered with a conflict, because the scheduler stored the error code alone
  while the replay compares the stored message with code and message.
\<close>

theorem retried_failure_not_replayed:
  assumes "holds_lease s t pnow eid"
    and "TaskID_fi input = ID t" "WorkerID_fi input = LeaseOwner t" "LeaseToken_fi input = makeLeaseToken t"
      "Retryable_fi input" "TrimSpace (ErrorCode_fi input) \<noteq> []" "TrimSpace (ErrorMessage_fi input) \<noteq> []"
      "0 \<le> RetryAfter_fi input"
    and "externalSchedule (memory_stores rng1 rng2 rng3) jit eid snow t (ErrorCode_fi input)
      (ErrorMessage_fi input) (RetryAfter_fi input) s = (Inr x, t1, s0)"
  shows "\<exists>u s1. FailTask (memory_stores rng1 rng2 rng3)
      (Some (externalSchedule (memory_stores rng1 rng2 rng3) jit eid snow)) pnow now eid' input s = (Inr u, s1) \<and>
    Status u = TaskStatusRetrying \<and>
    FailTask (memory_stores rng1 rng2 rng3) sched pnow' now' eid'' input s1 = (Inl ErrTaskConflict, s1)"
  using FailTask_retry_holder [OF assms] FailTask_replay_conflict [OF _ _ _ _ _ _ assms(2-4)] assms(1)
  unfolding holds_lease_def by metis

theorem retried_failure_not_replayed_witness:
  "\<exists>u s1. FailTask sample_memory (Some (externalSchedule sample_memory (\<lambda>_. 0) ''event_3'' 55)) 50 60 ''event_4''
      sample_fail leased_runtime = (Inr u, s1) \<and> Status u = TaskStatusRetrying \<and>
    FailTask sample_memory None 70 80 ''event_5'' sample_fail s1 = (Inl ErrTaskConflict, s1)"
proof -
  have h: "holds_lease leased_runtime leased_task 50 ''event_3''" by (rule leased_holder) simp
  have trim: "TrimSpace ''boom'' = ''boom''" "TrimSpace ''it broke'' = ''it broke''"
    by (rule TrimSpace_visible, simp_all add: visible_def)+
  from sample_schedule obtain t1 s0 where
    "externalSchedule sample_memory (\<lambda>_. 0) ''event_3'' 55 leased_task ''boom'' ''it broke'' 0 leased_runtime =
     (Inr (), t1, s0)" by blast
  with retried_failure_not_replayed [OF h, where input = sample_fail and jit = "\<lambda>_. 0" and snow = 55 and now = 60
      and eid' = "''event_4''" and sched = None and pnow' = 70 and now' = 80 and eid'' = "''event_5''"
      and ?rng1.0 = "\<lambda>m. m" and ?rng2.0 = "\<lambda>m. m" and ?rng3.0 = "\<lambda>m. m"] trim
  show ?thesis by (simp add: sample_fail_def sample_token_def)
qed

text \<open>
  C22. A heartbeat can be lost: when it arrives between the read and the write of
  \<open>ReportProgress\<close>, the write puts the lease back to its old end, since a renewal does not
  change the version the write compares.
\<close>

theorem progress_overwrites_heartbeat:
  assumes "holds_lease s0 t pnow eid"
    and "TaskID_pi input = ID t" "WorkerID_pi input = LeaseOwner t" "LeaseToken_pi input = makeLeaseToken t"
      "0 \<le> Progress_pi input" "Progress_pi input < 100"
    and "LeaseExpiresAt t = Some l" "hnow < l" "0 < d" "hnow \<noteq> 0"
    and "s = s0\<lparr>schedule_rt := [(None, \<lambda>m. m), (None, \<lambda>m. m), (None, heartbeat_by t hnow d)]\<rparr>"
  shows "\<exists>r s'. ReportProgress (memory_stores rng1 rng2 rng3) pnow now eid input s = (Inr r, s') \<and>
    LeaseExpiresAt r = Some l \<and> (\<exists>u. stored_task (stores_rt s') (ID t) = Some u \<and> LeaseExpiresAt u = Some l)"
  using assms by (rule ReportProgress_overwrites)

theorem progress_overwrites_heartbeat_witness:
  "\<exists>r s'. ReportProgress sample_memory 50 60 ''event_3'' sample_progress
      (leased_runtime\<lparr>schedule_rt := [(None, \<lambda>m. m), (None, \<lambda>m. m), (None, heartbeat_by leased_task 55 1000)]\<rparr>) =
      (Inr r, s') \<and> LeaseExpiresAt r = Some 100"
proof -
  have h: "holds_lease leased_runtime leased_task 50 ''event_3''" by (rule leased_holder) simp
  from progress_overwrites_heartbeat [OF h, where input = sample_progress and l = 100 and hnow = 55 and d = 1000
      and now = 60 and ?rng1.0 = "\<lambda>m. m" and ?rng2.0 = "\<lambda>m. m" and ?rng3.0 = "\<lambda>m. m", OF _ _ _ _ _ _ _ _ _ refl]
  show ?thesis by (auto simp: sample_progress_def sample_token_def)
qed

section \<open>Retries\<close>

text \<open>
  C23. The doubling loop of \<open>Delay\<close>, with its test against half of the maximum that keeps the
  64-bit duration from overflowing, computes the base delay doubled once per earlier retry,
  cut at the maximum.
\<close>

theorem backoff_is_capped_doubling:
  assumes "0 < base" "base \<le> maxDelay" "in_i64 maxDelay" "1 \<le> n"
  shows "cap_loop 1 n maxDelay base = min maxDelay (base * 2 ^ nat (n - 1))"
  using assms by (rule cap_loop_spec)

theorem backoff_is_capped_doubling_witness: "cap_loop 1 5 1000 7 = 112 \<and> cap_loop 1 40 1000 7 = 1000"
  using backoff_is_capped_doubling [of 7 1000 5] backoff_is_capped_doubling [of 7 1000 40] by (simp add: in_i64_def)

text \<open>
  C24. A retry delay lies between half the cap and the cap, or is the longer delay the
  executor asked for; it is positive, and it is given only within the retry budget.
\<close>

theorem delay_within_bounds:
  assumes "Delay Int63n p n after = Inr d" "jitter_ok Int63n" "in_i64 (MaxDelay_rp p)"
  shows "max after (min (MaxDelay_rp p) (BaseDelay_rp p * 2 ^ nat (n - 1)) div 2) \<le> d \<and>
    d \<le> max after (min (MaxDelay_rp p) (BaseDelay_rp p * 2 ^ nat (n - 1))) \<and>
    0 < d \<and> 1 \<le> n \<and> n \<le> MaxRetries_rp p"
  using Delay_bounds [OF assms] by simp

theorem delay_within_bounds_witness:
  "\<exists>d. Delay (\<lambda>n. n div 2) \<lparr>MaxRetries_rp = 3, BaseDelay_rp = 100, MaxDelay_rp = 250\<rparr> 2 0 = Inr d \<and> 100 \<le> d \<and> d \<le> 200"
proof -
  let ?p = "\<lparr>MaxRetries_rp = 3, BaseDelay_rp = 100, MaxDelay_rp = 250\<rparr>"
  have "\<exists>d. Delay (\<lambda>n. n div 2) ?p 2 0 = Inr d"
    by (simp add: Delay_def Validate_rp_def Let_def)
  then obtain d where d: "Delay (\<lambda>n. n div 2) ?p 2 0 = Inr d" ..
  have "jitter_ok (\<lambda>n. n div 2)" unfolding jitter_ok_def by presburger
  from delay_within_bounds [OF d this] d show ?thesis by (simp add: in_i64_def)
qed

text \<open>
  C25. A task that has used its retries, or those of the policy of its workflow, is not
  scheduled again: the scheduler reports the exhausted budget and changes neither the task nor
  the stores.
\<close>

theorem retry_budget_enforced:
  assumes "idle s" "task_wf t" "Validate_ee (Some ee) = None" "Retryable (Some ee)" "now \<noteq> 0"
    and "Validate_rp policy = None" "MaxRetries t \<le> RetryCount t \<or> MaxRetries_rp policy \<le> RetryCount t"
    and "RetryCount t < 2 ^ 63 - 1"
  shows "Schedule (memory_stores rng1 rng2 rng3) jit eid (Some t) (Some ee) policy now s =
    (Inl ErrRetryBudgetExhausted, Some t, s)"
proof -
  have "i64 (RetryCount t + 1) = RetryCount t + 1"
    using assms(2,8) by (intro i64_id) (simp add: in_i64_def task_wf_def)
  with assms show ?thesis by (auto simp: Schedule_def memory_idle IsZero_def)
qed

theorem retry_budget_enforced_witness:
  "Schedule sample_memory (\<lambda>_. 0) ''event_3'' (Some (leased_task\<lparr>RetryCount := 1\<rparr>))
     (Some \<lparr>Kind_ee = ErrorTransient, Code_ee = ''boom'', RetryAfter_ee = 0, Err_ee = None\<rparr>)
     \<lparr>MaxRetries_rp = 5, BaseDelay_rp = 1, MaxDelay_rp = 1\<rparr> 55 leased_runtime =
   (Inl ErrRetryBudgetExhausted, Some (leased_task\<lparr>RetryCount := 1\<rparr>), leased_runtime)"
proof (rule retry_budget_enforced)
  have "TrimSpace ''boom'' = ''boom''" by (rule TrimSpace_visible) (simp_all add: visible_def)
  then show "Validate_ee (Some \<lparr>Kind_ee = ErrorTransient, Code_ee = ''boom'', RetryAfter_ee = 0, Err_ee = None\<rparr>) = None"
    by (simp add: Validate_ee_def ErrorTransient_def ErrorPermanent_def)
qed (simp_all add: task_wf_def leased_task_def sample_task_def in_i64_def Retryable_def Validate_rp_def)

section \<open>The task service\<close>

text \<open>
  \<open>CreateTask\<close>, under any interleaving, fails and changes nothing, or finds the task that
  was created with its key, or stores one new queued task with exactly one event.
\<close>

theorem create_task_effect:
  assumes "range_order rng1" "range_order rng2" "range_order rng3"
    and "fair_schedule s" "stores_wf (stores_rt s)"
    and "CreateTask (memory_stores rng1 rng2 rng3) now tid eid input s = (r, s')" "in_i64 (MaxRetries_in input)"
  shows "fair_schedule s' \<and> stores_wf (stores_rt s') \<and> (\<exists>m. env_step\<^sup>*\<^sup>* (stores_rt s) m \<and>
    ((\<exists>e. r = Inl e) \<and> stores_rt s' = m \<or>
     (\<exists>t. r = Inr \<lparr>Task_cr = Some t, Created_cr = False\<rparr> \<and> stores_rt s' = m \<and> stored_task m (ID t) = Some t \<and>
        IdempotencyKey_in input \<noteq> [] \<and> IdempotencyKey t = IdempotencyKey_in input \<and>
        Workflow t = Workflow_in input \<and> MaxRetries t = MaxRetries_in input) \<or>
     (\<exists>t ev. r = Inr \<lparr>Task_cr = Some t, Created_cr = True\<rparr> \<and> store_step m (stores_rt s') \<and> new_task t ev \<and> ID t = tid \<and>
        Workflow t = Workflow_in input \<and> MaxRetries t = MaxRetries_in input \<and> stored_task m tid = None \<and>
        stored_task (stores_rt s') tid = Some t \<and> stored_events (stores_rt s') tid = [ev])))"
  by (rule task_stores.CreateTask_spec [OF memory_task_stores [OF assms(1-3)] assms(4-7)])

text \<open>
  C27. An idempotency key is binding for ever: after a request with a key was accepted, and
  any steps of the program, a request that agrees with it is answered with the task as it is
  now, and stores nothing.
\<close>

theorem idempotency_key_binding:
  assumes "CreateTaskWithEvent ctx (Some t) (Some ev) m = (Inr cr, m1)" "stores_wf m" "new_task t ev"
    and "store_step\<^sup>*\<^sup>* m1 m2"
    and "IdempotencyKey t \<noteq> []" "IdempotencyKey t' = IdempotencyKey t" "Workflow t' = Workflow t"
      "MaxRetries t' = MaxRetries t" "Input t' = Input t" "TaskID_ev ev' = ID t'"
  shows "\<exists>u v. Task_cr cr = Some u \<and> stored_task m2 (ID u) = Some v \<and> task_frame u v \<and>
    CreateTaskWithEvent None (Some t') (Some ev') m2 = (Inr \<lparr>Task_cr = Some v, Created_cr = False\<rparr>, m2)"
  using assms by (rule create_again)

theorem idempotency_key_binding_witness:
  "\<exists>v. CreateTaskWithEvent None (Some (sample_task\<lparr>ID := ''task_9''\<rparr>)) (Some (sample_event\<lparr>TaskID_ev := ''task_9''\<rparr>))
     sample_stores = (Inr \<lparr>Task_cr = Some v, Created_cr = False\<rparr>, sample_stores)"
proof -
  have c: "CreateTaskWithEvent None (Some sample_task) (Some sample_event) NewMemoryStores =
      (Inr \<lparr>Task_cr = Some sample_task, Created_cr = True\<rparr>, sample_stores)"
    by (simp add: sample_stores_eq CreateTaskWithEvent_def NewMemoryStores_def NewMemoryTaskStore_def
        NewMemoryEventStore_def sample_defs)
  have n: "new_task sample_task sample_event"
    by (simp add: new_task_def task_wf_def sample_defs in_i64_def)
  from idempotency_key_binding [OF c NewMemoryStores_wf n rtranclp.rtrancl_refl,
      of "sample_task\<lparr>ID := ''task_9''\<rparr>" "sample_event\<lparr>TaskID_ev := ''task_9''\<rparr>"]
  show ?thesis by (auto simp: sample_task_def)
qed

text \<open>
  \<open>CancelTask\<close>, under any interleaving, fails and changes nothing, or finds the task
  canceled already, or cancels a task that was not in a terminal status, takes away its lease
  and appends one event.
\<close>

theorem cancel_task_effect:
  assumes "range_order rng1" "range_order rng2" "range_order rng3"
    and "fair_schedule s" "stores_wf (stores_rt s)"
    and "CancelTask (memory_stores rng1 rng2 rng3) eid now tid s = (r, s')"
  shows "fair_schedule s' \<and> stores_wf (stores_rt s') \<and> (\<exists>m. env_step\<^sup>*\<^sup>* (stores_rt s) m \<and>
    ((\<exists>e. r = Inl e) \<and> stores_rt s' = m \<or>
     (\<exists>t. r = Inr t \<and> stores_rt s' = m \<and> stored_task m tid = Some t \<and> Status t = TaskStatusCanceled) \<or>
     (\<exists>t0 t ev. r = Inr t \<and> store_step m (stores_rt s') \<and> stored_task m tid = Some t0 \<and>
        Status t0 \<notin> terminalStatuses \<and> Status t = TaskStatusCanceled \<and> FinishedAt t = Some now \<and>
        LeaseOwner t = [] \<and> LeaseExpiresAt t = None \<and> Version t = Version t0 + 1 \<and>
        Type_ev ev = EventTaskCanceled \<and> stores_rt s' = commit tid t ev m)))"
  by (rule task_stores.CancelTask_spec [OF memory_task_stores [OF assms(1-3)] assms(4-6)])

section \<open>Lists and statistics\<close>

text \<open>
  C31. Following the cursors of \<open>ListTasks\<close>, with any page size, from the first page until
  there is no more, gives every stored task that matches the filter exactly once, newest
  first.
\<close>

theorem pages_cover_all_tasks:
  assumes "idle s" "stores_wf (stores_rt s)" "range_order rng" "list_request_ok input" "Cursor_ti input = []"
    and "list_all cursor_ok (matching input (stores_rt s))"
  shows "follow (length (matching input (stores_rt s)) + 1) rng lenient input s = Some (matching input (stores_rt s)) \<and>
    set (matching input (stores_rt s)) = newTaskListItem `
      {t. \<exists>tid. stored_task (stores_rt s) tid = Some t \<and>
         (Workflow_ti input = [] \<or> Workflow t = Workflow_ti input) \<and>
         (Status_ti input = any_status \<or> Status t = Status_ti input)} \<and>
    sorted_wrt (\<lambda>x y. item_key y < item_key x) (matching input (stores_rt s))"
proof (intro conjI)
  show "follow (length (matching input (stores_rt s)) + 1) rng lenient input s = Some (matching input (stores_rt s))"
    using follow_from [OF assms(1-4,6), of 0 "length (matching input (stores_rt s)) + 1" lenient] assms(5)
    by (simp del: follow.simps)
qed (rule matching_complete [OF assms(2)])+

theorem pages_cover_all_tasks_witness:
  "follow 2 (\<lambda>m. m) (\<lambda>_. None) \<lparr>Workflow_ti = ''demo'', Status_ti = any_status, Cursor_ti = [], Limit_ti = 1\<rparr> sample_runtime =
     Some [newTaskListItem sample_task]"
proof -
  let ?in = "\<lparr>Workflow_ti = ''demo'', Status_ti = any_status, Cursor_ti = [], Limit_ti = 1\<rparr>"
  have m: "matching ?in sample_stores = [newTaskListItem sample_task]"
    by (simp add: matching_def all_items_def list_keep_def isBeforeTaskCursor_def sort_items_def sample_stores_eq
        put_task_def put_key_def NewMemoryTaskStore_def) (simp add: sample_task_def)
  have "TrimSpace ''demo'' = ''demo''" by (rule TrimSpace_visible) (simp_all add: visible_def)
  then have ok: "list_request_ok ?in" by (simp add: list_request_ok_def page_limit_def)
  have "valid_utf8 ''task_1''" by (rule valid_utf8_ascii) (simp add: byte_in_def)
  then have "list_all cursor_ok (matching ?in sample_stores)"
    by (simp add: m cursor_ok_def newTaskListItem_def sample_task_def MarshalTime_def year_of_def year_yday_def
        Let_def ns_per_day_def)
  with pages_cover_all_tasks [of sample_runtime "\<lambda>m. m" ?in "\<lambda>_. None"] ok sample_wf
  have "follow (length [newTaskListItem sample_task] + 1) (\<lambda>m. m) (\<lambda>_. None) ?in sample_runtime =
      Some [newTaskListItem sample_task]"
    unfolding stores_start m by (simp del: follow.simps)
  then show ?thesis by (simp del: follow.simps add: numeral_2_eq_2)
qed

text \<open>
  C32. The statistics are exact and do not depend on the order of the map: per status, the
  number of stored tasks the filter keeps, the number of those that are available, and the
  largest age of an available one.
\<close>

theorem stats_exact:
  assumes "stores_wf m" "range_order rng" "Validate_stats f = None" "\<not> IsZero now"
  shows "\<exists>snap. SnapshotFilteredTaskStats rng None clock now f (taskStore m) = Inr snap \<and>
    (\<forall>st. StatusCounts snap st = counted None (count_tasks m (kept f st)) \<and>
      AvailableCounts snap st = counted None (count_tasks m (\<lambda>t. kept f st t \<and> isAvailableTask (Some t) now)) \<and>
      OldestAvailableAge snap st = oldest None
        {Sub_time now (AvailableAt t) | tid t. stored_task m tid = Some t \<and> kept f st t \<and> isAvailableTask (Some t) now})"
  using assms by (rule SnapshotFilteredTaskStats_spec)

theorem stats_exact_witness:
  "\<exists>snap. SnapshotFilteredTaskStats (\<lambda>m. m) None 0 30 \<lparr>Workflow_sf = [], Status_sf = any_status\<rparr> (taskStore sample_stores) =
     Inr snap \<and> StatusCounts snap TaskStatusQueued =
       counted None (count_tasks sample_stores (kept \<lparr>Workflow_sf = [], Status_sf = any_status\<rparr> TaskStatusQueued))"
  using stats_exact [OF sample_wf range_order_id, of "\<lparr>Workflow_sf = [], Status_sf = any_status\<rparr>" 30 0]
  by (auto simp: Validate_stats_def IsZero_def)

section \<open>Background loops\<close>

text \<open>
  One round of the reaper, under any interleaving: it changes nothing, or fails, at one
  instant, a running task whose lease ran out and whose retries are used up.
\<close>

theorem reaper_round:
  assumes "range_order rng1" "range_order rng2" "range_order rng3"
    and "fair_schedule s" "stores_wf (stores_rt s)"
    and "ProcessNext_reaper (memory_stores rng1 rng2 rng3) now eid s = (r, s')"
  shows "fair_schedule s' \<and> stores_wf (stores_rt s') \<and> (\<exists>m. env_step\<^sup>*\<^sup>* (stores_rt s) m \<and>
    (\<not> fst r \<and> stores_rt s' = m \<or>
     r = (True, None) \<and> store_step m (stores_rt s') \<and> (\<exists>t ev. stored_task m (ID t) = Some t \<and>
       expired_exhausted now t \<and> stores_rt s' = commit (ID t) (expired_failed now t) ev m)))"
  by (rule task_stores.ProcessNext_reaper_spec [OF memory_task_stores [OF assms(1-3)] assms(4-6)])

text \<open>
  C34. The reaper makes progress: with no other client acting, as many rounds as there are
  tasks whose lease ran out by time \<open>T\<close> with no retries left, at times from \<open>T\<close> on and with
  fresh event ids, leave none of them; and the loop ends without an error.
\<close>

theorem reaper_leaves_none:
  assumes "idle s" "stores_wf (stores_rt s)" "range_order rng3" "reaper_rounds T (stores_rt s) rounds"
    "abandoned (stores_rt s) T \<le> length rounds"
    "Run_loop_reaper (memory_stores rng1 rng2 rng3) rounds s = (r, s')"
  shows "(\<forall>tid t. stored_task (stores_rt s') tid = Some t \<longrightarrow> \<not> expired_exhausted T t) \<and> (r = None \<or> r = Some None)"
  using reaper_drains [OF assms] by (simp add: count_tasks_0)

theorem reaper_leaves_none_witness:
  "abandoned (stores_rt (snd (Run_loop_reaper sample_memory [(300, ''event_9'', TimerFired)] leased_runtime))) 200 = 0"
proof -
  have "{tid. \<exists>t. stored_task leased_stores tid = Some t \<and> expired_exhausted 200 t} \<subseteq> {''task_1''}"
    by (auto simp: leased_stores_def sample_stores_eq NewMemoryTaskStore_def split: if_splits)
  then have "abandoned leased_stores 200 \<le> 1"
    unfolding count_tasks_def using card_mono [of "{''task_1''}"] by simp
  moreover have "reaper_rounds 200 leased_stores [(300, ''event_9'', TimerFired)]"
    by (simp add: reaper_rounds_def leased_stores_def sample_stores_eq NewMemoryEventStore_def sample_defs)
  ultimately show ?thesis
    using reaper_leaves_none [OF _ _ range_order_id, where s = leased_runtime and T = 200
        and rounds = "[(300, ''event_9'', TimerFired)]", OF _ _ _ _ surjective_pairing] leased_wf by (simp add: count_tasks_0)
qed

text \<open>
  The loop of an internal worker acts on the stores by steps of the store machine only,
  so that every invariant above holds while it runs; it never ends with an error because its
  context was canceled or because it lost a lease.
\<close>

theorem worker_loop_safe:
  assumes "range_order rng1" "range_order rng2" "range_order rng3"
    and "fair_schedule s" "stores_wf (stores_rt s)" "storeless_worker stores_rt fair_schedule w"
    and "Run_loop (memory_stores rng1 rng2 rng3) w rounds s = (r, s')"
  shows "fair_schedule s' \<and> stores_wf (stores_rt s') \<and> store_step\<^sup>*\<^sup>* (stores_rt s) (stores_rt s') \<and>
    (\<forall>e. r = Some (Some e) \<longrightarrow> \<not> errors_Is e ContextCanceled \<and> \<not> errors_Is e ErrLeaseLost)"
  by (rule task_stores.Run_loop_spec [OF memory_task_stores [OF assms(1-3)] assms(4-7)])


section \<open>Requests over HTTP\<close>

text \<open>
  C36. A request over HTTP to the server, whatever its method, path, headers and body, and
  under any interleaving with other clients, keeps the stores well-formed and changes them at
  most once, by one step of the store machine; a request that is not a \<open>POST\<close> changes nothing.
\<close>

theorem http_request_atomic:
  assumes "\<And>i. range_order (rng i)" "\<And>p. page = Some p \<Longrightarrow> reads stores_rt fair_schedule p"
    and "fair_schedule s" "stores_wf (stores_rt s)"
    and "NewRouter (memory_handler rng clock lenient token) page env r s = (resp, s')"
  shows "fair_schedule s' \<and> stores_wf (stores_rt s') \<and>
    (\<exists>m1 m2. env_step\<^sup>*\<^sup>* (stores_rt s) m1 \<and> (m1 = m2 \<or> store_step m1 m2) \<and> env_step\<^sup>*\<^sup>* m2 (stores_rt s')) \<and>
    (Method_rq r \<noteq> ''POST'' \<longrightarrow> env_step\<^sup>*\<^sup>* (stores_rt s) (stores_rt s'))"
  using http_server.NewRouter_spec [OF memory_http_server [OF assms(1,2)] assms(3-5)]
  by (auto simp: one_step_def only_others_def)

theorem http_request_atomic_witness:
  "stores_wf (stores_rt (snd (NewRouter (memory_handler (\<lambda>_ m. m) 0 (\<lambda>_. None) ''secret'') None sample_http_env
     (complete_request ''secret'' leased_task JNull) leased_runtime)))"
  using http_request_atomic [where rng = "\<lambda>_ m. m" and page = None and s = leased_runtime,
      OF range_order_id _ fair_schedule_start _ surjective_pairing] leased_wf by simp

text \<open>
  C37. A call of the worker protocol without the bearer token of the server is refused with
  401 (405 when no route has the path) and leaves the state of the server, metrics included,
  exactly as it was.
\<close>

theorem worker_calls_authenticated:
  assumes "workerTaskService_h h \<noteq> None" "workerAuthToken_h h \<noteq> []"
    "Authorization_rq r \<noteq> ''Bearer '' @ workerAuthToken_h h"
    and "Method_rq r = ''POST''" "Path_rq r = ''worker'' # path"
  shows "\<exists>resp. NewRouter h page env r s = (resp, s) \<and> Status_rs resp \<in> {401, 405}"
  using assms by (rule unauthorized_worker_call)

theorem worker_calls_authenticated_witness:
  "\<exists>resp. NewRouter (memory_handler (\<lambda>_ m. m) 0 (\<lambda>_. None) ''secret'') None sample_http_env
     ((complete_request ''secret'' leased_task JNull)\<lparr>Authorization_rq := ''Bearer guess''\<rparr>) leased_runtime =
       (resp, leased_runtime) \<and> Status_rs resp \<in> {401, 405}"
  by (rule worker_calls_authenticated [where path = "[''tasks'', ''task_1'', ''complete'']"])
    (simp_all add: complete_request_def sample_secret)

text \<open>
  C38. A worker that holds a lease completes its task over HTTP: the JSON body is read back as
  the request, the answer is 200 with the completed task, whose result is the text of the
  output, and exactly that is committed.  The same bytes sent again are answered with 200 and
  the stored task, and change nothing.
\<close>

theorem http_complete_exactly_once:
  assumes "holds_lease s t (now1_he env) (eventID_he env)"
    and "json_ok out" "jdepth out < max_nesting" "unmarshal_any (json_print out) \<noteq> None"
    and "wildcard (ID t)" "length (complete_body t out) \<le> maxRequestBodyBytes"
  shows "\<exists>s1. NewRouter (memory_handler rng clock lenient token) page env (complete_request token t out) s =
      (\<lparr>Status_rs = 200, Body_rs = TaskBody (Some (completed t (json_print out) (now2_he env)))\<rparr>, s1) \<and>
    stores_rt s1 = commit (ID t) ((completed t (json_print out) (now2_he env))\<lparr>Version := Version t + 1\<rparr>)
      (succeeded_event (eventID_he env) t (now2_he env)) (stores_rt s) \<and>
    NewRouter (memory_handler rng clock lenient token) page env' (complete_request token t out) s1 =
      (\<lparr>Status_rs = 200, Body_rs = TaskBody (Some ((completed t (json_print out) (now2_he env))\<lparr>Version := Version t + 1\<rparr>))\<rparr>, s1)"
  using assms by (rule http_complete_twice)

theorem http_complete_exactly_once_witness:
  "\<exists>s1. NewRouter (memory_handler (\<lambda>_ m. m) 0 (\<lambda>_. None) ''secret'') None sample_http_env
      (complete_request ''secret'' leased_task JNull) leased_runtime =
      (\<lparr>Status_rs = 200, Body_rs = TaskBody (Some (completed leased_task ''null'' 60))\<rparr>, s1)"
proof -
  have "holds_lease leased_runtime leased_task (now1_he sample_http_env) (eventID_he sample_http_env)"
    unfolding sample_http_env_def by simp (rule leased_holder, simp)
  from http_complete_exactly_once [OF this, where out = JNull and rng = "\<lambda>_ m. m" and clock = 0 and lenient = "\<lambda>_. None"
      and token = "''secret''" and page = None and env' = sample_http_env] sample_complete_body sample_null
  show ?thesis by (auto simp: max_nesting_def wildcard_def sample_http_env_def)
qed

text \<open>
  A client that creates a task over HTTP with an idempotency key, and does not see the
  answer, may send the same request again: after any steps of the program it is answered with
  200 and the task as it is now, and nothing is stored.
\<close>

theorem http_create_idempotent:
  assumes "idle s" "stores_wf (stores_rt s)"
    and "Method_rq r = ''POST''" "Path_rq r = [''tasks'']" "IdempotencyKey_rq r \<noteq> []"
    and "NewRouter (memory_handler rng clock lenient token) page env r s = (resp, s1)" "Status_rs resp < 400"
    and "store_step\<^sup>*\<^sup>* (stores_rt s1) (stores_rt s2)" "idle s2"
    and "taskID_he env' \<noteq> []" "eventID_he env' \<noteq> []"
  shows "\<exists>u v. Body_rs resp = TaskBody (Some u) \<and> stored_task (stores_rt s2) (ID u) = Some v \<and> task_frame u v \<and>
    NewRouter (memory_handler rng clock lenient token) page env' r s2 =
      (\<lparr>Status_rs = 200, Body_rs = TaskBody (Some v)\<rparr>, s2)"
  using assms by (rule http_create_again)

text \<open>So it goes for the sample request, sent twice to an empty server.\<close>

lemma sample_create_repeated:
  "\<exists>v s1. NewRouter (memory_handler (\<lambda>_ m. m) 0 (\<lambda>_. None) ''secret'') None sample_http_env sample_create_request s1 =
      (\<lparr>Status_rs = 200, Body_rs = TaskBody (Some v)\<rparr>, s1)"
  using http_create_idempotent [OF _ _ _ _ _ sample_created(1,2) rtranclp.rtrancl_refl sample_created(3),
      where env' = sample_http_env] NewMemoryStores_wf
  by (fastforce simp: sample_create_request_def sample_http_env_def)


section \<open>Workers over the network\<close>

text \<open>
  C10. A worker from end to end.  The runtime of the worker library, over the client library,
  the wire, the handlers and the memory stores, claims a task when one can be claimed, renews
  its lease and reports progress in any order of rounds, each before the lease has run out,
  and completes it: the loop goes on, and the server has the task as succeeded with the result
  of the executor.
\<close>

theorem external_worker_completes:
  fixes r :: "(runtime \<times> nat, 'e) Runtime"
  assumes "\<And>i. range_order (rng i)" "TrimRight (TrimSpace base) (CHR ''/'') \<noteq> []"
    and "client_rt r = client_api (memory_client base rng clock lenient secret other envs)"
    and "idle s" "stores_wf (stores_rt s)" "\<forall>k t. stored_task (stores_rt s) k = Some t \<longrightarrow> carried t"
    and "worker_ok r" "envs_ok envs (leaseDuration_rt r)" "fresh_from envs n s" "executors_rt r (workflow_rt r) \<noteq> None"
    and "stored_task (stores_rt s) k0 = Some t0"
      "expired_claimable (worker_claim_options r (now1_he (envs n))) t0 \<or> ready_claimable (worker_claim_options r (now1_he (envs n))) t0"
    and "timely envs (leaseDuration_rt r) (Add_time (now1_he (envs n)) (leaseDuration_rt r)) (Suc n) rounds"
      "length rounds < 2 ^ 62"
    and "raw_ok (Output_wr result)" "raw_ok (ResultRef_wr result)"
      "length (Output_wr result) + length (ResultRef_wr result) \<le> 500000"
  shows "\<exists>tid u s1. Run_runtime isPrint r [\<lparr>startDone_rd = False, waitDone_rd = waitDone,
       execution_rd = \<lparr>before_er = concat (map round_steps rounds), wakeup_er = ExecutionDone (Inr result) False, after_er = [],
         failDone_er = failDone\<rparr>, endDone_rd = endDone\<rparr>] failures (s, n) =
      (None, [], (s1, n + length rounds + 2)) \<and>
    stores_wf (stores_rt s1) \<and> stored_task (stores_rt s1) tid = Some u \<and> Workflow u = workflow_rt r \<and>
    Status u = TaskStatusSucceeded \<and>
    Result u = (if ResultRef_wr result \<noteq> [] then ResultRef_wr result
      else if Output_wr result \<noteq> [] then Output_wr result else ''{}'')"
  by (rule remote_session.round_completes [OF memory_session [OF assms(1,2)] assms(4-9) assms(3) assms(10-)])

theorem external_worker_completes_witness:
  "\<exists>tid u s1. Run_runtime (\<lambda>_. True) sample_worker_runtime [\<lparr>startDone_rd = False, waitDone_rd = False,
       execution_rd = \<lparr>before_er = concat (map round_steps [Beat, Report 50 ''half'']),
         wakeup_er = ExecutionDone (Inr sample_result) False, after_er = [], failDone_er = False\<rparr>, endDone_rd = False\<rparr>] 0
      (sample_runtime, 0) = (None, [], (s1, 4)) \<and>
    stored_task (stores_rt s1) tid = Some u \<and> Status u = TaskStatusSucceeded \<and> Result u = ''null''"
proof -
  have w: "leaseDuration_rt sample_worker_runtime = 30 * Second" "workflow_rt sample_worker_runtime = ''demo''"
    "executors_rt sample_worker_runtime ''demo'' \<noteq> None"
    by (simp_all add: sample_worker_runtime_def)
  have "ready_claimable (worker_claim_options sample_worker_runtime (now1_he (sample_envs 0))) sample_task"
    by (simp add: ready_claimable_def workflow_skip_def worker_claim_options_def sample_envs_def sample_http_env_def
        sample_worker_runtime_def sample_task_def)
  moreover have "timely sample_envs (30 * Second) (Add_time (now1_he (sample_envs 0)) (30 * Second)) (Suc 0) [Beat, Report 50 ''half'']"
    using sample_ascii by (simp add: sample_envs_def sample_http_env_def Add_time_def Second_def)
  ultimately show ?thesis
    using external_worker_completes [where r = sample_worker_runtime and rng = "\<lambda>_ m. m" and base = "''http://localhost:8080''"
        and clock = 0 and lenient = "\<lambda>_. None" and secret = "''secret''" and other = "\<lambda>_. []" and envs = sample_envs
        and s = sample_runtime and n = 0 and ?k0.0 = "''task_1''" and ?t0.0 = sample_task and rounds = "[Beat, Report 50 ''half'']"
        and result = sample_result and isPrint = "\<lambda>_. True" and waitDone = False and failDone = False and endDone = False
        and failures = 0]
      sample_wf sample_carried sample_worker_ok sample_envs_ok sample_fresh sample_lookup sample_raw
    unfolding w by (fastforce simp: local_base sample_worker_runtime_def sample_result_def w(3))
qed

text \<open>
  C18. The two goroutines of an execution do not order their writes of the lease state.  When a
  heartbeat is answered before a concurrent report of progress and written after it, the
  runtime is left with the token of before the report; the server then refuses the
  completion of the executor's result as a lost lease, and the task stays running.
\<close>

theorem stale_heartbeat_refused:
  fixes r :: "(runtime \<times> nat, 'e) Runtime"
  assumes "\<And>i. range_order (rng i)" "TrimRight (TrimSpace base) (CHR ''/'') \<noteq> []"
    and "client_rt r = client_api (memory_client base rng clock lenient secret other envs)"
    and "workerID_rt r = LeaseOwner t" "0 < leaseDuration_rt r" "in_i64 (leaseDuration_rt r)" "executors_rt r (Workflow t) \<noteq> None"
    and "envs_ok envs (leaseDuration_rt r)" "fresh_from envs n s"
    and "leased s t" "LeaseExpiresAt t = Some l" "Version t + 1 \<noteq> 0"
    and "timely envs (leaseDuration_rt r) l n [Beat, Report p message]"
    and "raw_ok (Output_wr result)" "raw_ok (ResultRef_wr result)"
      "length (Output_wr result) + length (ResultRef_wr result) \<le> 500000"
  shows "\<exists>s1 u. execute isPrint r (client_view (withLeaseToken t))
      \<lparr>before_er = [HbTick, HbCall, PrStart p message, PrCall, PrWrite, HbWrite],
       wakeup_er = ExecutionDone (Inr result) False, after_er = [], failDone_er = failDone\<rparr> (s, n) =
      (Some (Wrap (''complete task '' @ Quote isPrint (ID t) @ '': '') (remote_error other ErrLeaseLost) []), (s1, n + 3)) \<and>
    stored_task (stores_rt s1) (ID t) = Some u \<and> Status u = TaskStatusRunning \<and> Progress u = p"
  by (rule remote_session.stale_heartbeat [OF memory_session [OF assms(1,2)] assms(3-)])

theorem stale_heartbeat_refused_witness:
  "\<exists>e s1. execute (\<lambda>_. True) sample_worker_runtime (client_view (withLeaseToken leased_task))
      \<lparr>before_er = [HbTick, HbCall, PrStart 50 ''half'', PrCall, PrWrite, HbWrite],
       wakeup_er = ExecutionDone (Inr sample_result) False, after_er = [], failDone_er = False\<rparr> (leased_runtime, 0) =
      (Some e, (s1, 3))"
proof -
  have w: "leaseDuration_rt sample_worker_runtime = 30 * Second" by (simp add: sample_worker_runtime_def)
  have "timely sample_envs (30 * Second) 100 0 [Beat, Report 50 ''half'']"
    using sample_ascii by (simp add: sample_envs_def sample_http_env_def Add_time_def Second_def)
  then show ?thesis
    using stale_heartbeat_refused [where r = sample_worker_runtime and rng = "\<lambda>_ m. m" and base = "''http://localhost:8080''"
        and clock = 0 and lenient = "\<lambda>_. None" and secret = "''secret''" and other = "\<lambda>_. []" and envs = sample_envs
        and s = leased_runtime and n = 0 and t = leased_task and l = 100 and p = 50 and message = "''half''"
        and result = sample_result and isPrint = "\<lambda>_. True" and failDone = False]
      sample_leased sample_envs_ok sample_fresh sample_raw
    unfolding w
    by (fastforce simp: local_base sample_worker_runtime_def sample_result_def Second_def in_i64_def leased_task_def sample_task_def)
qed

text \<open>
  C20. While no request reaches the server the loop of a worker runtime, configured in any way
  that \<open>New\<close> accepts, neither ends nor gives up: it claims again and again, and waits before the
  next claim the poll interval, doubled after each failure up to the maximum.  The server
  does not change.
\<close>

theorem claim_outage_backoff:
  fixes r :: "('s \<times> nat, 'e) Runtime"
  assumes "New_runtime cf = Inr r" "client_rt r = client_api c" "worker_ok r" "in_i64 (claimRetryMaxInterval_rt r)"
    and "connected c h" "workerTaskService_h h = Some ws"
    and "Do_c c = serve_wire (baseURL c) h page other envs (\<lambda>_. RequestLost e)" "network_error e"
    and "list_all (\<lambda>rd. \<not> startDone_rd rd \<and> \<not> waitDone_rd rd) rounds"
  shows "\<exists>k. Run_runtime isPrint r rounds 0 (s, n) =
    (None, map (\<lambda>i. min (claimRetryMaxInterval_rt r) (pollInterval_rt r * 2 ^ i)) [0..<length rounds], (s, k))"
  using Run_runtime_outage [OF claim_lost [OF assms(5,6,3,2,7,8)] New_runtime_bounds(2,3) [OF assms(1)] assms(4,9),
      of "(s, n)" s isPrint 0] by auto

theorem claim_outage_backoff_witness:
  "\<exists>k. Run_runtime (\<lambda>_. True) (sample_worker_runtime\<lparr>client_rt := client_api lost_client, executors_rt := Map.empty\<rparr>)
      (replicate 5 waiting_round) 0 (sample_runtime, 0) =
    (None, [Second, 2 * Second, 4 * Second, 5 * Second, 5 * Second], (sample_runtime, k))"
proof -
  let ?r = "sample_worker_runtime\<lparr>client_rt := client_api lost_client, executors_rt := Map.empty\<rparr>"
  have "New_runtime lost_config = Inr ?r"
    using sample_trim by (simp add: New_runtime_def lost_config_def sample_worker_runtime_def Second_def go_div_pos)
  moreover have "worker_ok ?r" using sample_worker_ok by (simp add: worker_ok_def)
  moreover have "list_all (\<lambda>rd. \<not> startDone_rd rd \<and> \<not> waitDone_rd rd) (replicate 5 waiting_round)"
    by (simp add: list_all_iff waiting_round_def)
  ultimately show ?thesis
    using claim_outage_backoff [where r = ?r and c = lost_client and cf = lost_config and rounds = "replicate 5 waiting_round"
        and h = "memory_handler (\<lambda>_ m. m) 0 (\<lambda>_. None) ''secret''" and s = sample_runtime and n = 0 and isPrint = "\<lambda>_. True",
        OF _ _ _ _ lost_connected mem_session.worker_service lost_wire network_refused]
    by (simp add: sample_worker_runtime_def in_i64_def Second_def upt_rec)
qed

text \<open>
  C29. A task that the server encodes as the body of a response, of UTF-8 texts, printed JSON
  values, 64-bit integers and timestamps before the year 10000, is decoded by the client
  library as that task.
\<close>

theorem task_wire_roundtrip:
  assumes "printable t"
  shows "decode_task lenient (encode_body other (TaskBody (Some t))) = Some (client_view t)"
  using assms by (rule decode_encode_task)

theorem task_wire_roundtrip_witness:
  "decode_task (\<lambda>_. None) (encode_body (\<lambda>_. []) (TaskBody (Some leased_task))) = Some (client_view leased_task)"
  by (rule task_wire_roundtrip [OF sample_printable(2)])

text \<open>
  C30. The durations of requests: every positive duration that the client library writes is
  read back by the server as the lease duration it was, through the rounding of the decimal
  fraction in floating point, and every retry delay as itself or as none when it is not
  positive; whatever lease duration is accepted is positive and fits in 64 bits.
\<close>

theorem duration_wire_roundtrip:
  "(in_i64 d \<and> 0 < d \<longrightarrow> parseLeaseDuration (Duration_String d) = Inr d) \<and>
   (in_i64 d \<longrightarrow> parseOptionalDuration (formatOptionalDuration d) = Inr (max 0 d)) \<and>
   (parseLeaseDuration raw = Inr d \<longrightarrow> 0 < d \<and> in_i64 d)"
  by (simp add: parseLeaseDuration_String parseOptionalDuration_format parseLeaseDuration_bound)

theorem duration_wire_roundtrip_witness:
  "parseLeaseDuration (Duration_String 5400123456789) = Inr 5400123456789 \<and>
   parseOptionalDuration (formatOptionalDuration (- 7)) = Inr 0 \<and> parseLeaseDuration (Duration_String (- 7)) \<noteq> Inr (- 7)"
  using duration_wire_roundtrip [of 5400123456789] duration_wire_roundtrip [of "- 7" "Duration_String (- 7)"]
  by (simp add: in_i64_def)

text \<open>
  C40. A call of the worker protocol made through the client library refines the operation of
  the service it is named after: when the network delivers it, it is that operation of the
  service, with the same arguments, and returns what the library makes of the answer; when
  the request is lost the server does not change, and when the answer is lost the operation
  has happened and the caller gets the error of the network.
\<close>

theorem client_calls_refine_service:
  assumes "connected c h" "workerTaskService_h h = Some ws" "sendable call"
    and "Do_c c = serve_wire (baseURL c) h page other envs net"
  shows "(net n = Delivered \<longrightarrow> client_call c call (s, n) =
      (call_result c call (Inr (wire_answer other (fst (service_call h ws (envs n) call s)))),
       (snd (service_call h ws (envs n) call s), Suc n))) \<and>
    (net n = RequestLost e \<longrightarrow> client_call c call (s, n) = (call_result c call (Inl (UrlError ''Post'' e)), (s, Suc n))) \<and>
    (net n = ResponseLost e \<longrightarrow> client_call c call (s, n) =
      (call_result c call (Inl (UrlError ''Post'' e)), (snd (service_call h ws (envs n) call s), Suc n)))"
  using remote_call [OF client_call_delivers [OF assms(1-3)] assms(4)]
    remote_call_lost [OF client_call_delivers [OF assms(1-3)] assms(4)] by blast

theorem client_calls_refine_service_witness:
  "\<exists>e. client_call lost_client sample_claim_call (sample_runtime, 0) = (Inl e, (sample_runtime, 1))"
proof -
  have "claim_result lost_client (Inl (UrlError ''Post'' refused)) = Inl (Wrap ''call taskpulse: '' (UrlError ''Post'' refused) [])"
    using network_refused by (simp add: claim_result_def task_result_def decode_response_def network_error_def)
  then show ?thesis
    using client_calls_refine_service [where s = sample_runtime and n = 0 and e = refused,
        OF lost_connected mem_session.worker_service sample_sendable lost_wire]
    by (simp add: sample_claim_call_def)
qed
section \<open>The MySQL stores\<close>

text \<open>
  C15. The MySQL stores refine the memory stores.  Whatever operations ran on a database, with
  failing statements and commits whose answer was lost, its tables hold the tasks and events of
  a state that the memory stores reach by operations of their own; and every operation on tables
  that hold a state of the memory stores leaves that state or takes one step from it.  So every
  invariant of the memory stores holds of the tables.
\<close>

theorem mysql_backend_refines:
  assumes "my_reachable srv A d" "server_ok srv A"
  shows "(\<exists>m. reachable m \<and> represents srv A d m) \<and>
    (\<forall>d' m. my_step srv A d d' \<longrightarrow> represents srv A d m \<longrightarrow> (\<exists>m'. store_step\<^sup>=\<^sup>= m m' \<and> represents srv A d' m'))"
  using my_reachable_represents [OF assms] my_step_simulated [OF _ _ assms(2)] by blast

theorem mysql_backend_refines_witness:
  "\<exists>m. reachable m \<and> represents sample_server plain_texts queued_tables m"
  using mysql_backend_refines [OF queued_reachable sample_server_ok] by blast

text \<open>
  C16. A claim on undisturbed tables is answered as by the memory store, with the same error or
  the same task as it is read back from its row, provided the columns have room for what the claim
  writes and no two leases end at the same instant.
\<close>

theorem mysql_claim_answers:
  assumes "represents srv A d m" "server_ok srv A" "typed srv d"
    and "options_ok srv A o1" "eid \<in> A" "lease_ends_differ d" "claim_fits srv o1 eid m"
  shows "fst (ClaimNextWithEvent_my srv o1 eid (start_session d)) =
    map_sum id (as_read srv) (fst (ClaimNextWithEvent (\<lambda>m. m) (\<lambda>m. m) None o1 eid m))"
  by (rule claim_my_answers [OF assms])

theorem mysql_claim_answers_witness:
  "fst (ClaimNextWithEvent_my sample_server mysql_claim ''event_2'' (start_session queued_tables)) = Inr (as_read sample_server running_task)"
  using mysql_claim_answers [OF queued_represents sample_server_ok queued_typed mysql_options(1,2,4) mysql_claim_fits]
  by (simp add: mysql_memory_claim)

text \<open>
  C26. Lists and statistics of undisturbed tables are those of the memory store, errors included:
  the \<open>WHERE\<close>, \<open>ORDER BY\<close>, \<open>LIMIT\<close> and \<open>GROUP BY\<close> clauses select, order and count as the loops
  of the memory store do.
\<close>

theorem mysql_queries_agree:
  assumes "represents srv A d m" "server_ok srv A"
  shows "(cursor_storable srv A o1 \<longrightarrow>
      fst (ListTasks_my srv o1 (start_session d)) = ListTasks (\<lambda>m. m) None o1 (taskStore m)) \<and>
    (filter_ok A f \<longrightarrow> kept_time srv now \<longrightarrow> \<not> IsZero now \<longrightarrow>
      fst (SnapshotFilteredTaskStats_my srv clock now f (start_session d)) =
        SnapshotFilteredTaskStats (\<lambda>m. m) None clock now f (taskStore m))"
  using list_my_answers [OF assms] stats_my_answers [OF assms] by blast

theorem mysql_queries_agree_witness:
  "fst (ListTasks_my sample_server \<lparr>Workflow_lo = ''demo'', Status_lo = any_status, BeforeCreatedAt_lo = None, BeforeID_lo = [],
      Limit_lo = 5\<rparr> (start_session queued_tables)) = Inr [newTaskListItem mysql_task] \<and>
   fst (SnapshotFilteredTaskStats_my sample_server 0 2000000000 \<lparr>Workflow_sf = [], Status_sf = any_status\<rparr>
      (start_session queued_tables)) =
     SnapshotFilteredTaskStats (\<lambda>m. m) None 0 2000000000 \<lparr>Workflow_sf = [], Status_sf = any_status\<rparr> (taskStore mysql_stores)"
proof -
  let ?lo = "\<lparr>Workflow_lo = ''demo'', Status_lo = any_status, BeforeCreatedAt_lo = None, BeforeID_lo = [], Limit_lo = 5\<rparr>"
  have "ListTasks (\<lambda>m. m) None ?lo (taskStore mysql_stores) = Inr [newTaskListItem mysql_task]"
    by (simp add: ListTasks_def mysql_stores_eq) code_simp
  then show ?thesis
    using mysql_queries_agree [OF queued_represents sample_server_ok, of ?lo
        "\<lparr>Workflow_sf = [], Status_sf = any_status\<rparr>" 2000000000 0]
    by (simp add: cursor_storable_def filter_ok_def plain_texts_def kept_time_def IsZero_def)
qed

text \<open>
  C28. Calls of the MySQL stores among other clients.  The other clients take any number of steps
  of their own before a call and, when the call reads a row once more for an idempotent replay, before that read; its
  statements may fail and its commit may be lost.  The call is then one step at most of the memory
  stores, between steps of the others, and the tables it leaves hold the state that these steps
  reach: every task has as many events as its version says, and an owner and a lease end exactly
  while it is running.
\<close>

theorem mysql_clients_interleave:
  assumes "my_call srv A s s'" "others_run srv A s" "server_ok srv A" "represents srv A (tables_se s) m"
  shows "(\<exists>m1 m2 m3. store_step\<^sup>*\<^sup>* m m1 \<and> store_step\<^sup>=\<^sup>= m1 m2 \<and> store_step\<^sup>*\<^sup>* m2 m3 \<and> represents srv A (tables_se s') m3) \<and>
    rows_told (tables_se s')"
  using calls_simulated [OF assms] represents_rows by blast

theorem mysql_clients_interleave_witness:
  "rows_told (tables_se (snd (CancelTaskWithEvent_my sample_server ''task_1'' ''event_3'' 3000000000 busy_session))) \<and>
   map status_c (task_rows (found busy_session)) = [''running'']"
  using mysql_clients_interleave [OF busy_call busy_others sample_server_ok busy_represents] busy_found by blast

text \<open>
  C33. A renewal that is repeated in the same microsecond changes no row, and the connection counts
  changed rows: the MySQL store reports the lease as lost, though the worker holds it, where the
  memory store renews it again.
\<close>

theorem mysql_renewal_repeated:
  assumes "RenewLease_my srv o2 (start_session d) = (Inr (), start_session d1)"
    and "RenewLease None o2 ts = (None, ts1)" "Now_rl o2 < Add_time (Now_rl o2) (LeaseDuration_rl o2)"
  shows "RenewLease_my srv o2 (start_session d1) = (Inl ErrLeaseLost, start_session d1) \<and> fst (RenewLease None o2 ts1) = None"
  using renew_my_again [OF assms(1)] renew_again [OF assms(2,3)] by simp

theorem mysql_renewal_repeated_witness:
  "fst (RenewLease_my sample_server mysql_renewal (start_session renewed_tables)) = Inl ErrLeaseLost \<and>
   fst (RenewLease None mysql_renewal (snd (RenewLease None mysql_renewal (put_task ''task_1'' running_task NewMemoryTaskStore)))) = None"
  using mysql_renewal_repeated [OF mysql_renewed] mysql_renewed_memory by (simp add: prod_eq_iff)

text \<open>
  C35. A repeated creation is refused when the server writes a number of its input in another way
  (\<open>1e2\<close> as \<open>100.0\<close>): the input read back does not decode to the value that was sent, and the
  MySQL store reports a conflict, where the memory store answers with the task.
\<close>

theorem mysql_replay_refused:
  assumes "server_ok srv A" "Workflow t \<in> A"
    and "CreateTaskWithEvent_my srv (Some t) (Some ev) (start_session d) = (Inr x, start_session d1)" "Created_cr x"
    and "CreateTaskWithEvent None (Some t) (Some ev) m = (Inr y, m1)" "Created_cr y"
    and "IdempotencyKey t \<noteq> []" "fits_varchar srv 64 tid" "\<not> list_ex (\<lambda>q. eq_text srv (id_c q) tid) (task_rows d1)" "TaskID_ev ev' = tid"
    and "json_column srv (Input t) = Some j" "decodeJSONValue (cloneJSON (Some j)) \<noteq> decodeJSONValue (Input t)"
      "decodeJSONValue (cloneJSON (Some j)) \<noteq> None"
  shows "fst (CreateTaskWithEvent_my srv (Some (t\<lparr>ID := tid\<rparr>)) (Some ev') (start_session d1)) = Inl ErrIdempotencyConflict \<and>
    CreateTaskWithEvent None (Some (t\<lparr>ID := tid\<rparr>)) (Some ev') m1 = (Inr \<lparr>Task_cr = Some t, Created_cr = False\<rparr>, m1)"
proof -
  obtain d2 where d2: "insertTaskQuery srv t d = (Inr (), d2)" "task_rows d1 = task_rows d2"
    using create_my_created [OF assms(3,4)] by blast
  show ?thesis
    using replay_my_conflict [OF assms(1,2) d2 assms(7,8) _ assms(10-13)] assms(9) d2(2)
      memory_replays [OF assms(5-7,10)] by simp
qed

theorem mysql_replay_refused_witness:
  "fst (CreateTaskWithEvent_my reformatting_server (Some (number_task\<lparr>ID := ''task_2''\<rparr>)) (Some (mysql_event\<lparr>TaskID_ev := ''task_2''\<rparr>))
     (start_session number_tables)) = Inl ErrIdempotencyConflict"
  using mysql_replay_refused [OF reformatting_server_ok _ number_created _ number_created_memory, of "''task_2''"
      "mysql_event\<lparr>TaskID_ev := ''task_2''\<rparr>" "''100.0''"] number_differs by simp

section \<open>Metrics\<close>

text \<open>
  C39. What \<open>/metrics\<close> says is determined by the calls of the recorders: for every metric, its help
  and type lines and, in sorted order, one line for every key that a call named, with the number of
  the calls that named it, modulo \<open>2 ^ 64\<close>; for every workflow with completions the number of
  those that took at most each bound (compared in floating point as the code does), their total and
  the sum of their seconds; before them the gauges of the snapshot, when there is a store of
  statistics, and status 500 when it fails.  The order in which Go ranges over the maps of the counters
  does not matter, as long as workflows have no NUL byte, with which the code joins the labels it
  sorts by.
\<close>

theorem metrics_exact:
  assumes "list_all plain_call cs" "reordered (fold record_call cs NewMetrics) m"
  shows "ServeHTTP isPrint stats m = metrics_answer isPrint stats cs"
  using assms by (rule ServeHTTP_answer)

theorem metrics_exact_witness:
  "\<exists>m cs. tasksClaimed m = [(''b'', 2), (''a'', 1)] \<and> ServeHTTP (\<lambda>_. True) None m = (200, expose (\<lambda>_. True) (call_families cs)) \<and>
     call_families cs ! 2 = (''taskpulse_tasks_claimed_total'', ''Total tasks claimed by workers.'', ''counter'',
       [(''taskpulse_tasks_claimed_total'', [(''workflow'', ''a'')], ''1''),
        (''taskpulse_tasks_claimed_total'', [(''workflow'', ''b'')], ''2'')])"
proof -
  let ?cs = "[RecordTaskClaimed ''a'', RecordTaskClaimed ''b'', RecordClaimMiss [], RecordTaskClaimed ''b'',
    RecordTaskCompleted ''a'' TaskStatusFailed 7]"
  let ?m = "fold record_call ?cs NewMetrics"
  let ?m' = "?m\<lparr>tasksClaimed := rev (tasksClaimed ?m)\<rparr>"
  have "tasksClaimed ?m = [(''a'', 1), (''b'', 2)]"
    by (simp add: NewMetrics_def bump_def counter_def observeExecutionDurationLocked_def Let_def)
  then have m: "tasksClaimed ?m' = [(''b'', 2), (''a'', 1)]" by simp
  have "ServeHTTP (\<lambda>_. True) None ?m' = metrics_answer (\<lambda>_. True) None ?cs"
    by (rule metrics_exact) (simp_all add: reordered_def)
  then have t: "ServeHTTP (\<lambda>_. True) None ?m' = (200, expose (\<lambda>_. True) (call_families ?cs))" by (simp add: metrics_answer_def)
  have "call_families ?cs ! 2 = (''taskpulse_tasks_claimed_total'', ''Total tasks claimed by workers.'', ''counter'',
       [(''taskpulse_tasks_claimed_total'', [(''workflow'', ''a'')], ''1''),
        (''taskpulse_tasks_claimed_total'', [(''workflow'', ''b'')], ''2'')])"
    by (simp add: call_families_def call_count_def List.map_filter_def shown_def show_nat_eval digits_shown)
  with m t show ?thesis by blast
qed

end
